(* ===== verification/Prelude.thy ===== *)
theory Prelude
  imports Main "HOL-Library.Sublist"
begin

text \<open>
  Shared vocabulary of the development: identifiers, clock values, tables of rows and
  results.

  The web application keeps its state in the PostgreSQL tables declared in
  \<^verbatim>\<open>webapp/prisma/schema.prisma\<close>. A table is modelled as the list of its rows, a row
  as a record, and the queries the source writes (\<open>findUnique\<close>, \<open>findFirst\<close>,
  \<open>updateMany\<close>, \<open>deleteMany\<close>, \<open>aggregate\<close>) as the list operations below, each
  with the \<open>where\<close> clause of the source as its predicate. A \<open>$transaction\<close> of the
  source is one definition over the tables; operations that are separate statements in the
  source are separate definitions, so that interleavings can be stated.

  The locales state contracts that several components share; each one is interpreted on the
  definitions of the components that honour it, in the theories that provide them.
\<close>

named_theorems table_simps \<open>characteristic equations of the table operations\<close>

type_synonym ident = string
type_synonym millis = int

subsection \<open>Tables\<close>

definition find_row :: "('r \<Rightarrow> bool) \<Rightarrow> 'r list \<Rightarrow> 'r option" where
  "find_row p rows = List.find p rows"

definition update_rows :: "('r \<Rightarrow> bool) \<Rightarrow> ('r \<Rightarrow> 'r) \<Rightarrow> 'r list \<Rightarrow> 'r list" where
  "update_rows p f rows = map (\<lambda>r. if p r then f r else r) rows"

definition delete_rows :: "('r \<Rightarrow> bool) \<Rightarrow> 'r list \<Rightarrow> 'r list" where
  "delete_rows p rows = filter (\<lambda>r. \<not> p r) rows"

definition count_rows :: "('r \<Rightarrow> bool) \<Rightarrow> 'r list \<Rightarrow> nat" where
  "count_rows p rows = length (filter p rows)"

definition sum_rows :: "('r \<Rightarrow> int) \<Rightarrow> ('r \<Rightarrow> bool) \<Rightarrow> 'r list \<Rightarrow> int" where
  "sum_rows g p rows = sum_list (map g (filter p rows))"

lemma find_row_Nil [table_simps, simp]: "find_row p [] = None"
  by (simp add: find_row_def)

lemma find_row_Cons [table_simps, simp]:
  "find_row p (r # rs) = (if p r then Some r else find_row p rs)"
  by (simp add: find_row_def)

lemma update_rows_simps [table_simps, simp]:
  "update_rows p f [] = []"
  "update_rows p f (r # rs) = (if p r then f r else r) # update_rows p f rs"
  by (simp_all add: update_rows_def)

lemma delete_rows_simps [table_simps, simp]:
  "delete_rows p [] = []"
  "delete_rows p (r # rs) = (if p r then delete_rows p rs else r # delete_rows p rs)"
  by (simp_all add: delete_rows_def)

lemma count_rows_simps [table_simps, simp]:
  "count_rows p [] = 0"
  "count_rows p (r # rs) = (if p r then 1 else 0) + count_rows p rs"
  by (simp_all add: count_rows_def)

lemma sum_rows_simps [table_simps, simp]:
  "sum_rows g p [] = 0"
  "sum_rows g p (r # rs) = (if p r then g r else 0) + sum_rows g p rs"
  by (simp_all add: sum_rows_def)

lemma count_rows_append [table_simps, simp]:
  "count_rows p (xs @ ys) = count_rows p xs + count_rows p ys"
  by (simp add: count_rows_def)

lemma sum_rows_append [table_simps, simp]:
  "sum_rows g p (xs @ ys) = sum_rows g p xs + sum_rows g p ys"
  by (simp add: sum_rows_def)

lemma find_row_append [table_simps]:
  "find_row p (xs @ ys) = (case find_row p xs of None \<Rightarrow> find_row p ys | Some r \<Rightarrow> Some r)"
  by (induction xs) auto

lemma update_rows_append [table_simps, simp]:
  "update_rows p f (xs @ ys) = update_rows p f xs @ update_rows p f ys"
  by (simp add: update_rows_def)

lemma length_update_rows [simp]: "length (update_rows p f rows) = length rows"
  by (simp add: update_rows_def)

lemma set_update_rows: "set (update_rows p f rows) = (\<lambda>r. if p r then f r else r) ` set rows"
  by (simp add: update_rows_def)

lemma set_delete_rows [simp]: "set (delete_rows p rows) = {r \<in> set rows. \<not> p r}"
  by (auto simp: delete_rows_def)

lemma find_row_SomeD: "find_row p rows = Some r \<Longrightarrow> r \<in> set rows \<and> p r"
  by (induction rows) (auto split: if_splits)

lemma find_row_None_iff: "find_row p rows = None \<longleftrightarrow> (\<forall>r \<in> set rows. \<not> p r)"
  by (induction rows) auto

lemma find_row_cong: "(\<And>r. r \<in> set rows \<Longrightarrow> p r = q r) \<Longrightarrow> find_row p rows = find_row q rows"
  by (induction rows) auto

lemma update_rows_idle: "(\<And>r. r \<in> set rows \<Longrightarrow> \<not> p r) \<Longrightarrow> update_rows p f rows = rows"
  by (induction rows) auto

lemma update_rows_cong:
  "(\<And>r. r \<in> set rows \<Longrightarrow> p r = q r) \<Longrightarrow> (\<And>r. r \<in> set rows \<Longrightarrow> q r \<Longrightarrow> f r = g r) \<Longrightarrow>
   update_rows p f rows = update_rows q g rows"
  by (induction rows) auto

lemma sum_rows_cong:
  "(\<And>r. r \<in> set rows \<Longrightarrow> p r = q r) \<Longrightarrow> (\<And>r. r \<in> set rows \<Longrightarrow> q r \<Longrightarrow> g r = h r) \<Longrightarrow>
   sum_rows g p rows = sum_rows h q rows"
  by (induction rows) auto

lemma sum_rows_nonneg: "(\<And>r. r \<in> set rows \<Longrightarrow> p r \<Longrightarrow> 0 \<le> g r) \<Longrightarrow> 0 \<le> sum_rows g p rows"
  by (induction rows) auto

lemma sum_rows_mono:
  "(\<And>r. r \<in> set rows \<Longrightarrow> (if p r then g r else 0) \<le> (if q r then h r else 0)) \<Longrightarrow>
   sum_rows g p rows \<le> sum_rows h q rows"
proof (induction rows)
  case Nil
  then show ?case by simp
next
  case (Cons r rows)
  have "sum_rows g p rows \<le> sum_rows h q rows"
    by (rule Cons.IH) (rule Cons.prems, simp)
  moreover have "(if p r then g r else 0) \<le> (if q r then h r else 0)"
    by (rule Cons.prems) simp
  ultimately show ?case by simp
qed

lemma sum_rows_update:
  "sum_rows g p (update_rows q f rows) = sum_rows (\<lambda>r. if q r then g (f r) else g r) (\<lambda>r. if q r then p (f r) else p r) rows"
  by (induction rows) auto

lemma count_rows_pos_iff: "0 < count_rows p rows \<longleftrightarrow> (\<exists>r \<in> set rows. p r)"
  by (induction rows) auto

lemma count_rows_0_iff: "count_rows p rows = 0 \<longleftrightarrow> (\<forall>r \<in> set rows. \<not> p r)"
  by (induction rows) auto

lemma find_row_update_key:
  assumes "\<And>r. key (f r) = key r"
  shows "find_row (\<lambda>r. key r = k) (update_rows (\<lambda>r. key r = k') f rows) =
    (if k = k' then map_option f (find_row (\<lambda>r. key r = k) rows) else find_row (\<lambda>r. key r = k) rows)"
  by (induction rows) (auto simp: assms)

lemma find_row_delete:
  "(\<And>r. p r \<Longrightarrow> \<not> q r) \<Longrightarrow> find_row p (delete_rows q rows) = find_row p rows"
  by (induction rows) auto

lemma find_row_delete_None:
  "(\<And>r. p r \<Longrightarrow> q r) \<Longrightarrow> find_row p (delete_rows q rows) = None"
  by (induction rows) auto

subsection \<open>Slices\<close>

text \<open>\<open>for (offset = 0; offset < xs.length; offset += n) xs.slice(offset, offset + n)\<close>.\<close>

function slices_of :: "nat \<Rightarrow> 'a list \<Rightarrow> 'a list list" where
  "slices_of n xs = (if xs = [] \<or> n = 0 then [] else take n xs # slices_of n (drop n xs))"
  by pat_completeness auto
termination
  by (relation "measure (\<lambda>(n, xs). length xs)") auto

declare slices_of.simps [simp del]

lemma concat_slices_of: "0 < n \<Longrightarrow> concat (slices_of n xs) = xs"
proof (induction n xs rule: slices_of.induct)
  case (1 n xs)
  then show ?case by (subst slices_of.simps) auto
qed

subsection \<open>Unique keys\<close>

text \<open>
  A column with a unique index. \<open>unique_on key rows\<close> is the index's guarantee. Lookups by
  the key find the only row that carries it, and the operations the source performs keep the
  guarantee when the updated row keeps its key.
\<close>

definition unique_on :: "('r \<Rightarrow> 'k) \<Rightarrow> 'r list \<Rightarrow> bool" where
  "unique_on key rows \<longleftrightarrow> distinct (map key rows)"

text \<open>Counting rows with a unique key.\<close>

lemma count_rows_keyed:
  assumes "unique_on key rows" "\<And>r. r \<in> set rows \<Longrightarrow> p r \<Longrightarrow> key r \<in> K" "finite K"
  shows "count_rows p rows \<le> card K"
proof -
  have "distinct (map key (filter p rows))"
    using assms(1) unfolding unique_on_def by (induction rows) auto
  then have "count_rows p rows = card (key ` set (filter p rows))"
    by (metis count_rows_def distinct_card length_map list.set_map)
  also have "\<dots> \<le> card K" using assms(2,3) by (intro card_mono) auto
  finally show ?thesis .
qed

lemma count_rows_subset:
  assumes "unique_on key xs" "{x \<in> set xs. p x} \<subseteq> {y \<in> set ys. q y}"
  shows "count_rows p xs \<le> count_rows q ys"
proof -
  have "distinct (filter p xs)" using assms(1) unfolding unique_on_def by (simp add: distinct_map)
  then have "count_rows p xs = card {x \<in> set xs. p x}"
    by (simp add: count_rows_def distinct_card [symmetric])
  also have "\<dots> \<le> card {y \<in> set ys. q y}" using assms(2) by (simp add: card_mono)
  also have "\<dots> \<le> count_rows q ys" using card_length [of "filter q ys"] by (simp add: count_rows_def)
  finally show ?thesis .
qed

lemma unique_on_simps [simp]:
  "unique_on key []"
  "unique_on key (r # rs) \<longleftrightarrow> key r \<notin> key ` set rs \<and> unique_on key rs"
  by (simp_all add: unique_on_def)

lemma unique_on_append:
  "unique_on key (xs @ ys) \<longleftrightarrow> unique_on key xs \<and> unique_on key ys \<and> key ` set xs \<inter> key ` set ys = {}"
  by (auto simp: unique_on_def)

lemma unique_onD: "unique_on key rows \<Longrightarrow> r \<in> set rows \<Longrightarrow> s \<in> set rows \<Longrightarrow> key r = key s \<Longrightarrow> r = s"
  unfolding unique_on_def distinct_map by (blast dest: inj_onD)

lemma unique_on_delete: "unique_on key rows \<Longrightarrow> unique_on key (delete_rows p rows)"
  by (induction rows) auto

lemma unique_on_update:
  assumes "\<And>r. r \<in> set rows \<Longrightarrow> p r \<Longrightarrow> key (f r) = key r"
  shows "unique_on key (update_rows p f rows) = unique_on key rows"
proof -
  have "map key (update_rows p f rows) = map key rows"
    using assms by (induction rows) auto
  then show ?thesis by (simp add: unique_on_def)
qed

lemma keys_update_rows: "(\<And>r. key (f r) = key r) \<Longrightarrow> key ` set (update_rows p f rows) = key ` set rows"
  by (induction rows) auto

lemma list_all_update_rows:
  "(\<And>r. P (f r) = P r) \<Longrightarrow> list_all P (update_rows p f rows) = list_all P rows"
  by (induction rows) auto

lemma find_row_update:
  "(\<And>r. p (f r) = p r) \<Longrightarrow>
    find_row p (update_rows q f rows) = map_option (\<lambda>r. if q r then f r else r) (find_row p rows)"
  by (induction rows) auto

lemma find_row_unique:
  "unique_on key rows \<Longrightarrow> r \<in> set rows \<Longrightarrow> find_row (\<lambda>x. key x = key r) rows = Some r"
  by (induction rows) (auto simp: image_iff)

lemma find_row_key_iff:
  "unique_on key rows \<Longrightarrow> find_row (\<lambda>x. key x = k) rows = Some r \<longleftrightarrow> r \<in> set rows \<and> key r = k"
  using find_row_SomeD [of "\<lambda>x. key x = k" rows r] find_row_unique [of key rows r] by auto

lemma sum_rows_unique_split:
  assumes "unique_on key rows" "r \<in> set rows"
  shows "sum_rows g p rows = (if p r then g r else 0) + sum_rows g (\<lambda>x. p x \<and> key x \<noteq> key r) rows"
  using assms
proof (induction rows)
  case Nil
  then show ?case by simp
next
  case (Cons x rows)
  show ?case
  proof (cases "x = r")
    case True
    have "sum_rows g (\<lambda>x. p x \<and> key x \<noteq> key r) rows = sum_rows g p rows"
      using Cons.prems True by (intro sum_rows_cong) (auto simp: image_iff)
    with True show ?thesis by simp
  next
    case False
    with Cons show ?thesis by (auto simp: image_iff)
  qed
qed

lemma sum_rows_update_one:
  assumes u: "unique_on key rows" and r: "r \<in> set rows"
  shows "sum_rows g p (update_rows (\<lambda>x. key x = key r) f rows) =
    (if p (f r) then g (f r) else 0) + sum_rows g (\<lambda>x. p x \<and> key x \<noteq> key r) rows"
  using assms
proof (induction rows)
  case Nil
  then show ?case by simp
next
  case (Cons x rows)
  show ?case
  proof (cases "x = r")
    case True
    with Cons.prems have n: "\<And>y. y \<in> set rows \<Longrightarrow> key y \<noteq> key r" by (auto simp: image_iff)
    have "update_rows (\<lambda>x. key x = key r) f rows = rows" by (rule update_rows_idle) (rule n)
    moreover have "sum_rows g (\<lambda>x. p x \<and> key x \<noteq> key r) rows = sum_rows g p rows"
      using n by (intro sum_rows_cong) auto
    ultimately show ?thesis using True by simp
  next
    case False
    with Cons show ?thesis by (auto simp: image_iff)
  qed
qed

lemma find_row_delete_unique:
  "unique_on key rows \<Longrightarrow>
    find_row (\<lambda>r. key r = k) (delete_rows p rows) =
      (case find_row (\<lambda>r. key r = k) rows of None \<Rightarrow> None | Some r \<Rightarrow> if p r then None else Some r)"
proof (induction rows)
  case (Cons r rows)
  show ?case
  proof (cases "key r = k")
    case True
    then have "find_row (\<lambda>r. key r = k) (delete_rows p rows) = None"
      using Cons.prems by (auto simp: find_row_None_iff image_iff)
    with True show ?thesis by simp
  next
    case False
    with Cons show ?thesis by simp
  qed
qed simp

subsection \<open>Shared contracts\<close>

text \<open>
  Operations that keep an invariant keep it over every sequence of operations. \<open>step\<close>
  returns the state after one operation, whether the operation succeeded or was refused.
\<close>

locale invariant_machine =
  fixes step :: "'o \<Rightarrow> 's \<Rightarrow> 's"
    and inv :: "'s \<Rightarrow> bool"
    and ok :: "'o \<Rightarrow> bool"
  assumes step_inv: "inv s \<Longrightarrow> ok o' \<Longrightarrow> inv (step o' s)"
begin

lemma run_inv: "inv s \<Longrightarrow> list_all ok ops \<Longrightarrow> inv (fold step ops s)"
  by (induction ops arbitrary: s) (auto intro: step_inv)

end

text \<open>
  A credential that can be spent once: spending it succeeds exactly when it is spendable, and
  leaves it dead; no other operation revives a dead credential unless it issues it anew.
  Spending is by key and time, so that expiry is part of \<open>spendable\<close>.
\<close>

locale single_use =
  fixes spend :: "'k \<Rightarrow> 't \<Rightarrow> 's \<Rightarrow> 'r option \<times> 's"
    and spendable :: "'k \<Rightarrow> 't \<Rightarrow> 's \<Rightarrow> bool"
    and other :: "'o \<Rightarrow> 's \<Rightarrow> 's"
    and issues :: "'o \<Rightarrow> 'k \<Rightarrow> bool"
    and inv :: "'s \<Rightarrow> bool"
  assumes spend_iff: "inv s \<Longrightarrow> fst (spend k t s) \<noteq> None \<longleftrightarrow> spendable k t s"
    and spent: "inv s \<Longrightarrow> spendable k t s \<Longrightarrow> \<not> spendable k t' (snd (spend k t s))"
    and spend_inv: "inv s \<Longrightarrow> inv (snd (spend k t s))"
    and other_inv: "inv s \<Longrightarrow> inv (other o' s)"
    and spend_keeps_dead: "inv s \<Longrightarrow> \<not> spendable k t' s \<Longrightarrow> \<not> spendable k t' (snd (spend k' t s))"
    and other_keeps_dead: "inv s \<Longrightarrow> \<not> issues o' k \<Longrightarrow> (\<And>u. \<not> spendable k u s) \<Longrightarrow> \<not> spendable k t' (other o' s)"
begin

text \<open>A run mixes attempts to spend and other operations; \<open>spends\<close> lists the results of the attempts with \<open>k\<close>.\<close>

fun spends :: "'k \<Rightarrow> ('k \<times> 't + 'o) list \<Rightarrow> 's \<Rightarrow> 'r option list" where
  "spends k [] s = []"
| "spends k (Inl (k', t) # es) s =
     (let (r, s') = spend k' t s in (if k' = k then [r] else []) @ spends k es s')"
| "spends k (Inr o' # es) s = spends k es (other o' s)"

definition never_issues :: "'k \<Rightarrow> ('k \<times> 't + 'o) list \<Rightarrow> bool" where
  "never_issues k es \<longleftrightarrow> list_all (\<lambda>e. case e of Inl _ \<Rightarrow> True | Inr o' \<Rightarrow> \<not> issues o' k) es"

lemma never_issues_simps [simp]:
  "never_issues k []"
  "never_issues k (Inl a # es) = never_issues k es"
  "never_issues k (Inr o' # es) \<longleftrightarrow> \<not> issues o' k \<and> never_issues k es"
  by (simp_all add: never_issues_def)

lemma spends_dead:
  "inv s \<Longrightarrow> (\<And>t. \<not> spendable k t s) \<Longrightarrow> never_issues k es \<Longrightarrow> filter (\<lambda>r. r \<noteq> None) (spends k es s) = []"
proof (induction k es s rule: spends.induct)
  case (1 k s)
  then show ?case by simp
next
  case (2 k k' t es s)
  obtain r s' where p: "spend k' t s = (r, s')" by (cases "spend k' t s")
  have s': "inv s'" "\<And>u. \<not> spendable k u s'"
    using spend_inv [OF "2.prems"(1), of k' t] spend_keeps_dead [OF "2.prems"(1,2), of _ k' t] p by auto
  have "k' = k \<Longrightarrow> r = None" using spend_iff [OF "2.prems"(1), of k t] "2.prems"(2) p by auto
  with "2.IH" [OF p [symmetric] refl s'] "2.prems"(3) p show ?case by auto
next
  case (3 k o' es s)
  then show ?case using other_inv other_keeps_dead by simp
qed

lemma at_most_once:
  "inv s \<Longrightarrow> never_issues k es \<Longrightarrow> length (filter (\<lambda>r. r \<noteq> None) (spends k es s)) \<le> 1"
proof (induction k es s rule: spends.induct)
  case (1 k s)
  then show ?case by simp
next
  case (2 k k' t es s)
  obtain r s' where p: "spend k' t s = (r, s')" by (cases "spend k' t s")
  have inv': "inv s'" using spend_inv [OF "2.prems"(1), of k' t] p by simp
  have ni: "never_issues k es" using "2.prems"(2) by simp
  show ?case
  proof (cases "k' = k \<and> r \<noteq> None")
    case True
    then have "spendable k t s" using spend_iff [OF "2.prems"(1), of k t] p by simp
    then have "\<And>u. \<not> spendable k u s'" using spent [OF "2.prems"(1)] True p by fastforce
    from spends_dead [OF inv' this ni] True p show ?thesis by simp
  next
    case False
    with "2.IH" [OF p [symmetric] refl inv' ni] p show ?thesis by auto
  qed
next
  case (3 k o' es s)
  then show ?case using other_inv by simp
qed

end

text \<open>
  A bounded budget: an admission takes exactly its cost and stays within the limit, or is
  refused and changes nothing. An operation that costs this budget nothing is not limited by it.
\<close>

locale bounded_budget =
  fixes admit :: "'o \<Rightarrow> 's \<Rightarrow> 's option"
    and cost :: "'o \<Rightarrow> int"
    and used :: "'s \<Rightarrow> int"
    and limit :: int
    and inv :: "'s \<Rightarrow> bool"
    and ok :: "'o \<Rightarrow> bool"
  assumes admit_inv: "inv s \<Longrightarrow> ok o' \<Longrightarrow> admit o' s = Some s' \<Longrightarrow> inv s'"
    and admit_used: "inv s \<Longrightarrow> ok o' \<Longrightarrow> admit o' s = Some s' \<Longrightarrow> used s' = used s + cost o'"
    and admit_limit: "inv s \<Longrightarrow> ok o' \<Longrightarrow> admit o' s = Some s' \<Longrightarrow> cost o' = 0 \<or> used s' \<le> limit"
begin

definition admit_or_keep :: "'o \<Rightarrow> 's \<Rightarrow> 's" where
  "admit_or_keep o' s = (case admit o' s of None \<Rightarrow> s | Some s' \<Rightarrow> s')"

fun admitted :: "'o list \<Rightarrow> 's \<Rightarrow> 'o list" where
  "admitted [] s = []"
| "admitted (o' # ops) s =
     (case admit o' s of None \<Rightarrow> admitted ops s | Some s' \<Rightarrow> o' # admitted ops s')"

lemma run_inv: "inv s \<Longrightarrow> list_all ok ops \<Longrightarrow> inv (fold admit_or_keep ops s)"
  by (induction ops arbitrary: s) (auto simp: admit_or_keep_def split: option.splits dest: admit_inv)

lemma run_within:
  "inv s \<Longrightarrow> list_all ok ops \<Longrightarrow> used s \<le> limit \<Longrightarrow> used (fold admit_or_keep ops s) \<le> limit"
proof (induction ops arbitrary: s)
  case Nil
  then show ?case by simp
next
  case (Cons o' ops)
  show ?case
  proof (cases "admit o' s")
    case None
    with Cons show ?thesis by (simp add: admit_or_keep_def)
  next
    case (Some s')
    with Cons.prems have "inv s'" "used s' \<le> limit"
      using admit_inv [of s o' s'] admit_used [of s o' s'] admit_limit [of s o' s'] by auto
    with Cons Some show ?thesis by (simp add: admit_or_keep_def)
  qed
qed

lemma run_accounts:
  "inv s \<Longrightarrow> list_all ok ops \<Longrightarrow>
    used (fold admit_or_keep ops s) = used s + sum_list (map cost (admitted ops s))"
proof (induction ops arbitrary: s)
  case Nil
  then show ?case by simp
next
  case (Cons o' ops)
  show ?case
  proof (cases "admit o' s")
    case None
    with Cons show ?thesis by (simp add: admit_or_keep_def)
  next
    case (Some s')
    with Cons.prems have "inv s'" "used s' = used s + cost o'"
      using admit_inv [of s o' s'] admit_used [of s o' s'] by auto
    with Cons Some show ?thesis by (simp add: admit_or_keep_def)
  qed
qed

end

text \<open>
  A simulation: every concrete operation is a number of abstract steps, possibly none, between the
  abstract views of the states before and after it. Then so is every run.
\<close>

locale simulation =
  fixes step :: "'o \<Rightarrow> 's \<Rightarrow> 's"
    and inv :: "'s \<Rightarrow> bool"
    and ok :: "'o \<Rightarrow> bool"
    and view :: "'s \<Rightarrow> 'a"
    and astep :: "'a \<Rightarrow> 'a \<Rightarrow> bool"
  assumes keeps: "inv s \<Longrightarrow> ok o' \<Longrightarrow> inv (step o' s)"
    and simulates: "inv s \<Longrightarrow> ok o' \<Longrightarrow> astep\<^sup>*\<^sup>* (view s) (view (step o' s))"
begin

lemma run_simulates: "inv s \<Longrightarrow> list_all ok ops \<Longrightarrow> astep\<^sup>*\<^sup>* (view s) (view (fold step ops s))"
proof (induction ops arbitrary: s)
  case (Cons o' ops)
  have "astep\<^sup>*\<^sup>* (view s) (view (step o' s))" using Cons.prems by (simp add: simulates)
  also have "astep\<^sup>*\<^sup>* (view (step o' s)) (view (fold step ops (step o' s)))"
    using Cons.prems by (intro Cons.IH) (simp_all add: keeps)
  finally show ?case by simp
qed simp

end

end
