(* ===== verification/Js_Runtime.thy ===== *)
theory Js_Runtime
  imports Complex_Main Prelude
begin

text \<open>
  The parts of the JavaScript standard library the modelled code calls: the number values a
  request can carry, \<open>Math.ceil\<close> of a quotient, the string methods, and the UTC calendar of
  \<open>Date\<close> (ECMAScript, section "Time Values and Time Range").

  A JavaScript string is a list of code units; the model uses \<open>string\<close>, the code units below
  256. Numbers the code treats as counts are \<open>int\<close>; they stay far below \<open>2 ^ 53\<close>, where double
  arithmetic is exact. Instants are milliseconds since the epoch.
\<close>

subsection \<open>Numbers\<close>

datatype js_number = JsNaN | JsPosInf | JsNegInf | JsNum rat

definition max_safe_integer :: int where
  "max_safe_integer = 9007199254740991"

fun is_safe_integer :: "js_number \<Rightarrow> bool" where
  "is_safe_integer (JsNum q) =
     (q = of_int \<lfloor>q\<rfloor> \<and> - max_safe_integer \<le> \<lfloor>q\<rfloor> \<and> \<lfloor>q\<rfloor> \<le> max_safe_integer)"
| "is_safe_integer _ = False"

definition ceil_div :: "int \<Rightarrow> int \<Rightarrow> int" where
  "ceil_div a b = - ((- a) div b)"

lemma ceil_div_correct: "0 < b \<Longrightarrow> ceil_div a b = \<lceil>rat_of_int a / rat_of_int b\<rceil>"
  by (simp add: ceil_div_def ceiling_divide_eq_div)

lemma ceil_div_bounds:
  assumes "0 < b"
  shows "a \<le> b * ceil_div a b" and "b * ceil_div a b < a + b"
proof -
  have m: "(- a) mod b = - a + b * ceil_div a b"
    by (simp add: ceil_div_def minus_div_mult_eq_mod [symmetric] algebra_simps)
  have "0 \<le> (- a) mod b" and "(- a) mod b < b" using assms by simp_all
  then show "a \<le> b * ceil_div a b" and "b * ceil_div a b < a + b" using m by linarith+
qed

lemma ceil_div_mono: "0 < b \<Longrightarrow> a \<le> a' \<Longrightarrow> ceil_div a b \<le> ceil_div a' b"
  by (simp add: ceil_div_def zdiv_mono1)

lemma ceil_div_pos: "0 < b \<Longrightarrow> 0 < a \<Longrightarrow> 0 < ceil_div a b"
proof -
  assume b: "0 < b" and "0 < a"
  then have "0 < b * ceil_div a b" using ceil_div_bounds(1) [OF b, of a] by linarith
  with b show ?thesis by (simp add: zero_less_mult_iff)
qed

lemma ceil_div_nonneg: "0 < b \<Longrightarrow> 0 \<le> a \<Longrightarrow> 0 \<le> ceil_div a b"
  using ceil_div_mono [of b 0 a] by (simp add: ceil_div_def)

lemma ceil_div_le_iff: "0 < b \<Longrightarrow> ceil_div a b \<le> c \<longleftrightarrow> a \<le> b * c"
proof
  assume b: "0 < b" and "ceil_div a b \<le> c"
  then have "b * ceil_div a b \<le> b * c" by simp
  then show "a \<le> b * c" using ceil_div_bounds(1) [OF b, of a] by linarith
next
  assume b: "0 < b" and "a \<le> b * c"
  then have "b * ceil_div a b < b * (c + 1)"
    using ceil_div_bounds(2) [OF b, of a] by (simp add: algebra_simps)
  then show "ceil_div a b \<le> c" using b by simp
qed

subsection \<open>Strings\<close>

definition is_ascii_digit :: "char \<Rightarrow> bool" where
  "is_ascii_digit c \<longleftrightarrow> 48 \<le> (of_char c :: nat) \<and> (of_char c :: nat) \<le> 57"

definition is_ascii_lower :: "char \<Rightarrow> bool" where
  "is_ascii_lower c \<longleftrightarrow> 97 \<le> (of_char c :: nat) \<and> (of_char c :: nat) \<le> 122"

definition is_ascii_upper :: "char \<Rightarrow> bool" where
  "is_ascii_upper c \<longleftrightarrow> 65 \<le> (of_char c :: nat) \<and> (of_char c :: nat) \<le> 90"

text \<open>The class \<open>\w\<close> of a regular expression.\<close>

definition is_word_char :: "char \<Rightarrow> bool" where
  "is_word_char c \<longleftrightarrow> is_ascii_digit c \<or> is_ascii_lower c \<or> is_ascii_upper c \<or> c = CHR ''_''"

text \<open>The class \<open>\s\<close>, which is also what \<open>trim\<close> removes.\<close>

definition is_js_space :: "char \<Rightarrow> bool" where
  "is_js_space c \<longleftrightarrow> (of_char c :: nat) \<in> {9, 10, 11, 12, 13, 32, 160}"

definition lower_char :: "char \<Rightarrow> char" where
  "lower_char c =
     (let n = of_char c :: nat in
      if 65 \<le> n \<and> n \<le> 90 \<or> 192 \<le> n \<and> n \<le> 222 \<and> n \<noteq> 215 then char_of (n + 32) else c)"

definition upper_ascii_char :: "char \<Rightarrow> char" where
  "upper_ascii_char c = (if is_ascii_lower c then char_of ((of_char c :: nat) - 32) else c)"

definition to_lower :: "string \<Rightarrow> string" where
  "to_lower s = map lower_char s"

definition trim_start :: "string \<Rightarrow> string" where
  "trim_start s = dropWhile is_js_space s"

definition trim_end :: "string \<Rightarrow> string" where
  "trim_end s = rev (dropWhile is_js_space (rev s))"

definition trim :: "string \<Rightarrow> string" where
  "trim s = trim_end (trim_start s)"

fun contains_sub :: "string \<Rightarrow> string \<Rightarrow> bool" where
  "contains_sub [] pat = (pat = [])"
| "contains_sub (c # cs) pat = (prefix pat (c # cs) \<or> contains_sub cs pat)"

definition replace_char :: "char \<Rightarrow> string \<Rightarrow> string \<Rightarrow> string" where
  "replace_char a by' s = concat (map (\<lambda>c. if c = a then by' else [c]) s)"

lemma contains_sub_iff: "contains_sub s pat \<longleftrightarrow> sublist pat s"
  by (induction s) (auto simp: sublist_Cons_right)

lemma lower_char_idem [simp]: "lower_char (lower_char c) = lower_char c"
proof (cases "lower_char c = c")
  case True
  then show ?thesis by simp
next
  case False
  define n where "n = (of_char c :: nat)"
  from False have n: "65 \<le> n \<and> n \<le> 90 \<or> 192 \<le> n \<and> n \<le> 222" and l: "lower_char c = char_of (n + 32)"
    by (auto simp: lower_char_def Let_def n_def split: if_splits)
  then have "of_char (lower_char c) = n + 32" by auto
  with n show ?thesis by (auto simp: lower_char_def [of "lower_char c"] Let_def)
qed

lemma to_lower_idem [simp]: "to_lower (to_lower s) = to_lower s"
  by (simp add: to_lower_def)

lemma length_to_lower [simp]: "length (to_lower s) = length s"
  by (simp add: to_lower_def)

lemma trim_length: "length (trim s) \<le> length s"
  by (simp add: trim_def trim_end_def trim_start_def order_trans [OF length_dropWhile_le length_dropWhile_le]
      del: length_dropWhile_le) (metis length_dropWhile_le length_rev order_trans)

text \<open>\<open>s.replace(/\s+/g, " ")\<close>: every run of white space becomes one space.\<close>

fun collapse_spaces :: "string \<Rightarrow> string" where
  "collapse_spaces [] = []"
| "collapse_spaces (c # cs) =
     (if is_js_space c
      then (case cs of
              [] \<Rightarrow> '' ''
            | d # _ \<Rightarrow> if is_js_space d then collapse_spaces cs else CHR '' '' # collapse_spaces cs)
      else c # collapse_spaces cs)"

text \<open>Decimal rendering of a non-negative integer, as in a template string.\<close>

fun digits_of :: "nat \<Rightarrow> string" where
  "digits_of n = (if n < 10 then [char_of (48 + n)] else digits_of (n div 10) @ [char_of (48 + n mod 10)])"

declare digits_of.simps [simp del]

text \<open>The value of a string of decimal digits.\<close>

fun digits_value :: "string \<Rightarrow> nat" where
  "digits_value [] = 0"
| "digits_value (c # cs) = (of_char c - 48) * 10 ^ length cs + digits_value cs"

definition int_str :: "int \<Rightarrow> string" where
  "int_str i = (if i < 0 then CHR ''-'' # digits_of (nat (- i)) else digits_of (nat i))"

lemma digits_of_induct:
  assumes "\<And>n. (10 \<le> n \<Longrightarrow> P (n div 10)) \<Longrightarrow> P n"
  shows "P (n :: nat)"
proof (induction n rule: less_induct)
  case (less x)
  show ?case by (rule assms, rule less) simp
qed

lemma digit_char: "d < (10 :: nat) \<Longrightarrow> is_ascii_digit (char_of (48 + d)) \<and> of_char (char_of (48 + d) :: char) = 48 + d"
  by (simp add: is_ascii_digit_def)

lemma digits_of_digits: "list_all is_ascii_digit (digits_of n)"
  by (induction n rule: digits_of_induct) (subst digits_of.simps, simp add: digit_char)

lemma digits_value_snoc: "digits_value (xs @ [c]) = 10 * digits_value xs + (of_char c - 48)"
  by (induction xs) (simp_all add: algebra_simps)

lemma digits_value_digits_of: "digits_value (digits_of n) = n"
proof (induction n rule: digits_of_induct)
  case (1 n)
  then show ?case by (subst digits_of.simps) (simp add: digits_value_snoc)
qed

lemma length_digits_le: "n < 10 ^ Suc k \<Longrightarrow> length (digits_of n) \<le> Suc k"
proof (induction k arbitrary: n)
  case (Suc k)
  then have "n div 10 < 10 ^ Suc k" by (simp add: div_less_iff_less_mult algebra_simps)
  from Suc.IH [OF this] show ?case by (subst digits_of.simps) simp
qed (subst digits_of.simps, simp)

lemma length_digits_ge: "10 ^ k \<le> n \<Longrightarrow> Suc k \<le> length (digits_of n)"
proof (induction k arbitrary: n)
  case (Suc k)
  then have "10 ^ k \<le> n div 10" by (simp add: less_eq_div_iff_mult_less_eq algebra_simps)
  moreover have "(10 :: nat) \<le> 10 ^ Suc k" by simp
  then have "\<not> n < 10" using Suc.prems by linarith
  ultimately show ?case using Suc.IH by (subst digits_of.simps) simp
qed (subst digits_of.simps, simp)

lemma digits_of_inject: "digits_of m = digits_of n \<longleftrightarrow> m = n"
  by (metis digits_value_digits_of)

text \<open>\<open>xs.split(sep)\<close> on one separator character.\<close>

fun split_on :: "char \<Rightarrow> string \<Rightarrow> string list" where
  "split_on sep [] = [[]]"
| "split_on sep (c # cs) =
     (if c = sep then [] # split_on sep cs
      else (case split_on sep cs of [] \<Rightarrow> [[c]] | w # ws \<Rightarrow> (c # w) # ws))"

text \<open>\<open>xs.join(sep)\<close>.\<close>

fun join_names :: "string \<Rightarrow> string list \<Rightarrow> string" where
  "join_names sep [] = []"
| "join_names sep [s] = s"
| "join_names sep (s # ss) = s @ sep @ join_names sep ss"

text \<open>A JavaScript string is truthy when it is present and not empty.\<close>

definition truthy :: "string option \<Rightarrow> bool" where
  "truthy s \<longleftrightarrow> s \<noteq> None \<and> s \<noteq> Some []"

subsection \<open>Thrown values\<close>

text \<open>What the database driver can throw: the three fields the code looks at.\<close>

record thrown =
  th_code :: "string option"
  th_name :: "string option"
  th_message :: "string option"

subsection \<open>The UTC calendar\<close>

definition ms_per_day :: int where
  "ms_per_day = 86400000"

definition day_of :: "millis \<Rightarrow> int" where
  "day_of t = t div ms_per_day"

definition day_from_year :: "int \<Rightarrow> int" where
  "day_from_year y =
     365 * (y - 1970) + (y - 1969) div 4 - (y - 1901) div 100 + (y - 1601) div 400"

definition is_leap :: "int \<Rightarrow> bool" where
  "is_leap y \<longleftrightarrow> y mod 4 = 0 \<and> (y mod 100 \<noteq> 0 \<or> y mod 400 = 0)"

definition year_from_day :: "int \<Rightarrow> int" where
  "year_from_day d =
     (let y = 1970 + (400 * d) div 146097 in
      if day_from_year (y + 1) \<le> d then y + 1 else if d < day_from_year y then y - 1 else y)"

text \<open>First day of each month (0 is January), counted from the first day of the year.\<close>

definition month_start :: "bool \<Rightarrow> int \<Rightarrow> int" where
  "month_start leap m =
     (if m \<le> 0 then 0 else if m = 1 then 31 else
      (if leap then 1 else 0) +
      (if m = 2 then 59 else if m = 3 then 90 else if m = 4 then 120 else if m = 5 then 151
       else if m = 6 then 181 else if m = 7 then 212 else if m = 8 then 243 else if m = 9 then 273
       else if m = 10 then 304 else if m = 11 then 334 else 365))"

fun month_search :: "bool \<Rightarrow> int \<Rightarrow> nat \<Rightarrow> int" where
  "month_search leap d 0 = 0"
| "month_search leap d (Suc m) =
     (if month_start leap (int (Suc m)) \<le> d then int (Suc m) else month_search leap d m)"

definition utc_full_year :: "millis \<Rightarrow> int" where
  "utc_full_year t = year_from_day (day_of t)"

definition utc_month :: "millis \<Rightarrow> int" where
  "utc_month t =
     (let y = utc_full_year t in month_search (is_leap y) (day_of t - day_from_year y) 11)"

text \<open>\<open>Date.UTC(year, month, 1)\<close>: a month of 12 rolls over to January of the next year.\<close>

definition date_utc :: "int \<Rightarrow> int \<Rightarrow> millis" where
  "date_utc y m =
     (let ym = y + m div 12; mn = m mod 12
      in (day_from_year ym + month_start (is_leap ym) mn) * ms_per_day)"

lemma div_bracket: "0 < (b::int) \<Longrightarrow> b * (a div b) \<le> a \<and> a < b * (a div b) + b"
  using mult_div_mod_eq [of b a] pos_mod_bound [of b a] pos_mod_sign [of b a] by linarith

lemma div_Suc_int:
  assumes "0 < (b::int)"
  shows "(x + 1) div b = x div b + (if (x + 1) mod b = 0 then 1 else 0)"
proof (cases "x mod b + 1 = b")
  case True
  then have "x + 1 = b * (x div b) + b" using mult_div_mod_eq [of b x] by linarith
  then have "x + 1 = b * (x div b + 1)" by (simp add: distrib_left)
  then have "(x + 1) div b = x div b + 1" and "(x + 1) mod b = 0" using assms by simp_all
  then show ?thesis by simp
next
  case False
  then have r: "0 \<le> x mod b + 1" "x mod b + 1 < b"
    using pos_mod_bound [OF assms, of x] pos_mod_sign [OF assms, of x] by linarith+
  have e: "x + 1 = b * (x div b) + (x mod b + 1)" by simp
  have "(x + 1) div b = x div b" using e r by (metis int_div_pos_eq)
  moreover have "(x + 1) mod b = x mod b + 1" using e r by (metis int_mod_pos_eq)
  ultimately show ?thesis using pos_mod_sign [OF assms, of x] by simp
qed

lemma leap_cases:
  "(r \<Longrightarrow> q) \<Longrightarrow> (q \<Longrightarrow> p) \<Longrightarrow> (if p \<and> (\<not> q \<or> r) then 366 else 365 :: int) =
   365 + (if p then 1 else 0) - (if q then 1 else 0) + (if r then 1 else 0)"
  by (cases p; cases q; cases r; simp)

lemma day_from_year_Suc: "day_from_year (y + 1) = day_from_year y + (if is_leap y then 366 else 365)"
proof -
  have m4: "(y - 1968) mod 4 = y mod 4" using mod_diff_right_eq [of y 1968 4] by simp
  have m100: "(y - 1900) mod 100 = y mod 100" using mod_diff_right_eq [of y 1900 100] by simp
  have m400: "(y - 1600) mod 400 = y mod 400" using mod_diff_right_eq [of y 1600 400] by simp
  have 4: "(y - 1968) div 4 = (y - 1969) div 4 + (if y mod 4 = 0 then 1 else 0)"
    using div_Suc_int [of 4 "y - 1969"] m4 by simp
  have 100: "(y - 1900) div 100 = (y - 1901) div 100 + (if y mod 100 = 0 then 1 else 0)"
    using div_Suc_int [of 100 "y - 1901"] m100 by simp
  have 400: "(y - 1600) div 400 = (y - 1601) div 400 + (if y mod 400 = 0 then 1 else 0)"
    using div_Suc_int [of 400 "y - 1601"] m400 by simp
  have i: "y mod 100 = 0" if "y mod 400 = 0" using that mod_mod_cancel [of 100 400 y] by simp
  have i': "y mod 4 = 0" if "y mod 100 = 0" using that mod_mod_cancel [of 4 100 y] by simp
  have "day_from_year (y + 1) = 365 * (y - 1970) + 365 + (y - 1968) div 4 - (y - 1900) div 100 + (y - 1600) div 400"
    by (simp add: day_from_year_def)
  moreover have "day_from_year y = 365 * (y - 1970) + (y - 1969) div 4 - (y - 1901) div 100 + (y - 1601) div 400"
    by (simp add: day_from_year_def)
  moreover have "(if is_leap y then 366 else 365 :: int) = 365 + (if y mod 4 = 0 then 1 else 0) -
      (if y mod 100 = 0 then 1 else 0) + (if y mod 400 = 0 then 1 else 0)"
    unfolding is_leap_def using i i' by (rule leap_cases)
  ultimately show ?thesis unfolding 4 100 400 by (simp only: add.assoc diff_add_eq add_diff_eq diff_diff_eq ac_simps)
qed

lemma day_from_year_bounds:
  "400 * day_from_year y \<le> 146097 * (y - 1970) + 600"
  "146097 * (y - 1970) - 600 \<le> 400 * day_from_year y"
proof -
  define a where "a = (y - 1969) div 4"
  define b where "b = (y - 1901) div 100"
  define c where "c = (y - 1601) div 400"
  have "4 * a \<le> y - 1969" "y - 1969 < 4 * a + 4" using div_bracket [of 4 "y - 1969"] by (simp_all add: a_def)
  moreover have "100 * b \<le> y - 1901" "y - 1901 < 100 * b + 100"
    using div_bracket [of 100 "y - 1901"] by (simp_all add: b_def)
  moreover have "400 * c \<le> y - 1601" "y - 1601 < 400 * c + 400"
    using div_bracket [of 400 "y - 1601"] by (simp_all add: c_def)
  moreover have "day_from_year y = 365 * y - 719050 + a - b + c"
    by (simp add: day_from_year_def a_def b_def c_def)
  ultimately show "400 * day_from_year y \<le> 146097 * (y - 1970) + 600"
    and "146097 * (y - 1970) - 600 \<le> 400 * day_from_year y" by simp_all
qed

lemma year_from_day_correct:
  "day_from_year (year_from_day d) \<le> d \<and> d < day_from_year (year_from_day d + 1)"
proof -
  define y where "y = 1970 + (400 * d) div 146097"
  have q: "146097 * (y - 1970) \<le> 400 * d" "400 * d < 146097 * (y - 1970) + 146097"
    using div_bracket [of 146097 "400 * d"] by (simp_all add: y_def)
  have lo: "day_from_year (y - 1) \<le> d"
    using day_from_year_bounds(1) [of "y - 1"] q by simp
  have "d < day_from_year (y + 2)"
    using day_from_year_bounds(2) [of "y + 2"] q by simp
  then have hi: "d < day_from_year (y + 1 + 1)" by (simp add: add.assoc)
  have e: "year_from_day d =
      (if day_from_year (y + 1) \<le> d then y + 1 else if d < day_from_year y then y - 1 else y)"
    unfolding year_from_day_def Let_def y_def ..
  show ?thesis unfolding e using lo hi by simp
qed

lemma month_start_0 [simp]: "month_start leap 0 = 0"
  by (simp add: month_start_def)

lemma month_search_bounds:
  "0 \<le> d \<Longrightarrow> 0 \<le> month_search leap d n \<and> month_search leap d n \<le> int n \<and>
   month_start leap (month_search leap d n) \<le> d"
  by (induction n) auto

lemma month_search_upper:
  "d < month_start leap (int n + 1) \<Longrightarrow> d < month_start leap (month_search leap d n + 1)"
proof (induction n)
  case 0
  then show ?case by simp
next
  case (Suc n)
  then show ?case by (auto simp: algebra_simps)
qed

lemma month_start_12: "month_start leap 12 = (if leap then 366 else 365)"
  by (simp add: month_start_def)

lemma utc_month_range: "0 \<le> utc_month t \<and> utc_month t \<le> 11"
  using month_search_bounds [of "day_of t - day_from_year (utc_full_year t)" _ 11]
    year_from_day_correct [of "day_of t"]
  by (simp add: utc_month_def Let_def utc_full_year_def)

lemma utc_month_bracket:
  "day_from_year (utc_full_year t) + month_start (is_leap (utc_full_year t)) (utc_month t) \<le> day_of t"
  "day_of t < day_from_year (utc_full_year t) + month_start (is_leap (utc_full_year t)) (utc_month t + 1)"
proof -
  let ?y = "utc_full_year t"
  let ?d = "day_of t - day_from_year ?y"
  have y: "day_from_year ?y \<le> day_of t" "day_of t < day_from_year (?y + 1)"
    using year_from_day_correct [of "day_of t"] by (simp_all add: utc_full_year_def)
  have "?d < month_start (is_leap ?y) (int 11 + 1)"
    using y(2) day_from_year_Suc [of ?y] by (simp add: month_start_12)
  from month_search_upper [OF this] have "?d < month_start (is_leap ?y) (utc_month t + 1)"
    by (simp add: utc_month_def Let_def)
  then show "day_of t < day_from_year ?y + month_start (is_leap ?y) (utc_month t + 1)" by simp
  have "month_start (is_leap ?y) (utc_month t) \<le> ?d"
    using month_search_bounds [of ?d "is_leap ?y" 11] y(1) by (simp add: utc_month_def Let_def)
  then show "day_from_year ?y + month_start (is_leap ?y) (utc_month t) \<le> day_of t" by simp
qed

lemma date_utc_month: "0 \<le> m \<Longrightarrow> m \<le> 11 \<Longrightarrow>
  date_utc y m = (day_from_year y + month_start (is_leap y) m) * ms_per_day"
  by (simp add: date_utc_def)

lemma date_utc_next: "0 \<le> m \<Longrightarrow> m \<le> 11 \<Longrightarrow>
  date_utc y (m + 1) = (day_from_year y + month_start (is_leap y) (m + 1)) * ms_per_day"
proof (cases "m = 11")
  case True
  then show ?thesis
    by (simp add: date_utc_def month_start_12 day_from_year_Suc)
next
  case False
  moreover assume "0 \<le> m" "m \<le> 11"
  ultimately show ?thesis by (simp add: date_utc_month)
qed

lemma date_utc_brackets:
  "date_utc (utc_full_year t) (utc_month t) \<le> t"
  "t < date_utc (utc_full_year t) (utc_month t + 1)"
proof -
  have t: "ms_per_day * day_of t \<le> t" "t < ms_per_day * day_of t + ms_per_day"
    using div_mult_mod_eq [of t ms_per_day] pos_mod_bound [of ms_per_day t] pos_mod_sign [of ms_per_day t]
    by (simp_all add: day_of_def ms_per_day_def)
  note b = utc_month_bracket [of t] and r = utc_month_range [of t]
  show "date_utc (utc_full_year t) (utc_month t) \<le> t"
    using b(1) t(1) r by (simp add: date_utc_month ms_per_day_def)
  show "t < date_utc (utc_full_year t) (utc_month t + 1)"
    using b(2) t(2) r by (simp add: date_utc_next ms_per_day_def)
qed

end
