(* ===== verification/Plans.thy ===== *)
theory Plans
  imports Js_Runtime
begin

text \<open>
  Plans and access: \<^verbatim>\<open>webapp/src/lib/plans.ts\<close>, \<^verbatim>\<open>syncAccess.ts\<close> and
  \<^verbatim>\<open>teamAccess.ts\<close>, over the \<open>WorkspaceSubscription\<close> row of the schema.

  The database stores a plan as a string, so the functions that take a stored plan take a
  string and test it with \<open>is_managed_plan\<close>, as the source does.
\<close>

datatype managed_plan = Local_Plan | Hosted_Trial | Hosted_Pro | Hosted_Team

fun plan_id :: "managed_plan \<Rightarrow> string" where
  "plan_id Local_Plan = ''local''"
| "plan_id Hosted_Trial = ''hosted_trial''"
| "plan_id Hosted_Pro = ''hosted_pro''"
| "plan_id Hosted_Team = ''hosted_team''"

definition hosted_trial_meetings :: int where
  "hosted_trial_meetings = 3"

fun plan_meeting_limits :: "managed_plan \<Rightarrow> int" where
  "plan_meeting_limits Local_Plan = 0"
| "plan_meeting_limits Hosted_Trial = hosted_trial_meetings"
| "plan_meeting_limits Hosted_Pro = 300"
| "plan_meeting_limits Hosted_Team = 2500"

fun plan_audio_hour_limits :: "managed_plan \<Rightarrow> int" where
  "plan_audio_hour_limits Local_Plan = 0"
| "plan_audio_hour_limits Hosted_Trial = 3"
| "plan_audio_hour_limits Hosted_Pro = 60"
| "plan_audio_hour_limits Hosted_Team = 200"

fun plan_chat_question_limits :: "managed_plan \<Rightarrow> int" where
  "plan_chat_question_limits Local_Plan = 0"
| "plan_chat_question_limits Hosted_Trial = 0"
| "plan_chat_question_limits Hosted_Pro = 300"
| "plan_chat_question_limits Hosted_Team = 2000"

fun plan_import_max_seconds :: "managed_plan \<Rightarrow> int" where
  "plan_import_max_seconds Local_Plan = 0"
| "plan_import_max_seconds Hosted_Trial = 1 * 3600"
| "plan_import_max_seconds Hosted_Pro = 4 * 3600"
| "plan_import_max_seconds Hosted_Team = 6 * 3600"

subsection \<open>Audio durations\<close>

definition import_fallback_bytes_per_second :: int where
  "import_fallback_bytes_per_second = 16000"

definition import_floor_bytes_per_second :: int where
  "import_floor_bytes_per_second = 2000000"

text \<open>
  The declared duration is absent (\<open>undefined\<close> or \<open>null\<close>, here \<open>None\<close>) or a JavaScript
  number, which the code does not trust: only a finite positive one is used.
\<close>

fun usable_duration :: "js_number option \<Rightarrow> rat option" where
  "usable_duration (Some (JsNum q)) = (if 0 < q then Some q else None)"
| "usable_duration _ = None"

definition estimate_import_seconds :: "int \<Rightarrow> js_number option \<Rightarrow> int" where
  "estimate_import_seconds total_bytes declared_seconds =
     (let floor_seconds = max 1 (ceil_div total_bytes import_floor_bytes_per_second);
          declared = (case usable_duration declared_seconds of
              Some q \<Rightarrow> \<lceil>q\<rceil>
            | None \<Rightarrow> ceil_div total_bytes import_fallback_bytes_per_second)
      in max floor_seconds declared)"

definition audio_bytes_per_second :: int where
  "audio_bytes_per_second = 2 * 48000 * 2"

definition audio_seconds_for_bytes :: "int \<Rightarrow> int" where
  "audio_seconds_for_bytes bytes = ceil_div bytes audio_bytes_per_second"

subsection \<open>Labels\<close>

fun plan_labels :: "managed_plan \<Rightarrow> string" where
  "plan_labels Local_Plan = ''Free (your own keys)''"
| "plan_labels Hosted_Trial = ''Free trial''"
| "plan_labels Hosted_Pro = ''Pro''"
| "plan_labels Hosted_Team = ''Team''"

definition managed_plan_of :: "string \<Rightarrow> managed_plan option" where
  "managed_plan_of s =
     (if s = ''local'' then Some Local_Plan
      else if s = ''hosted_trial'' then Some Hosted_Trial
      else if s = ''hosted_pro'' then Some Hosted_Pro
      else if s = ''hosted_team'' then Some Hosted_Team
      else None)"

definition is_managed_plan :: "string \<Rightarrow> bool" where
  "is_managed_plan s \<longleftrightarrow> managed_plan_of s \<noteq> None"

text \<open>\<open>s.replace(/\b\w/g, c => c.toUpperCase())\<close>: \<open>prev\<close> is whether the character before is a word character.\<close>

fun title_case :: "bool \<Rightarrow> string \<Rightarrow> string" where
  "title_case prev [] = []"
| "title_case prev (c # cs) =
     (if is_word_char c \<and> \<not> prev then upper_ascii_char c else c) # title_case (is_word_char c) cs"

definition plan_label :: "string \<Rightarrow> string" where
  "plan_label plan =
     (case managed_plan_of plan of
        Some p \<Rightarrow> plan_labels p
      | None \<Rightarrow> title_case False (replace_char CHR ''_'' '' '' plan))"

definition status_label :: "string \<Rightarrow> string" where
  "status_label status =
     (if status = ''active'' then ''Active''
      else if status = ''trialing'' then ''Trial''
      else if status = ''past_due'' then ''Payment past due''
      else if status = ''canceled'' then ''Canceled''
      else if status = ''unpaid'' then ''Unpaid''
      else if status = ''incomplete'' then ''Awaiting payment''
      else if status = ''incomplete_expired'' then ''Expired''
      else if status = ''paused'' then ''Paused''
      else if status = ''inactive'' then ''No subscription''
      else replace_char CHR ''_'' '' '' status)"

subsection \<open>The subscription row and what it grants\<close>

record subscription =
  sub_workspace :: ident
  sub_customer :: "ident option"
  sub_stripe_id :: "ident option"
  sub_plan :: string
  sub_status :: string
  sub_period_start :: "millis option"
  sub_period_end :: "millis option"
  sub_grace_ends :: "millis option"
  sub_last_event :: "int option"
  sub_checkout_claimed :: "millis option"
  sub_checkout_session :: "ident option"
  sub_cancels_at :: "millis option"

text \<open>The row a workspace gets from the column defaults of the schema.\<close>

definition default_subscription :: "ident \<Rightarrow> subscription" where
  "default_subscription ws =
     \<lparr> sub_workspace = ws, sub_customer = None, sub_stripe_id = None, sub_plan = ''local'',
       sub_status = ''inactive'', sub_period_start = None, sub_period_end = None,
       sub_grace_ends = None, sub_last_event = None, sub_checkout_claimed = None,
       sub_checkout_session = None, sub_cancels_at = None \<rparr>"

definition in_grace :: "subscription \<Rightarrow> millis \<Rightarrow> bool" where
  "in_grace s now \<longleftrightarrow>
     sub_status s = ''past_due'' \<and> (case sub_grace_ends s of None \<Rightarrow> False | Some g \<Rightarrow> now \<le> g)"

definition sync_plans :: "string list" where
  "sync_plans = [''hosted_pro'', ''hosted_team'']"

definition has_sync_access :: "subscription option \<Rightarrow> millis \<Rightarrow> bool" where
  "has_sync_access sub now =
     (case sub of
        None \<Rightarrow> False
      | Some s \<Rightarrow>
          if sub_plan s \<notin> set sync_plans then False
          else if sub_status s = ''active'' \<or> sub_status s = ''trialing'' then True
          else in_grace s now)"

definition has_processing_access :: "subscription option \<Rightarrow> millis \<Rightarrow> bool" where
  "has_processing_access sub now =
     (case sub of
        None \<Rightarrow> False
      | Some s \<Rightarrow> sub_status s = ''active'' \<or> sub_status s = ''trialing'' \<or> in_grace s now)"

definition team_plan_active :: "bool \<Rightarrow> subscription option \<Rightarrow> millis \<Rightarrow> bool" where
  "team_plan_active managed_hosting sub now =
     (if \<not> managed_hosting then True
      else (case sub of None \<Rightarrow> False
            | Some s \<Rightarrow> sub_plan s = ''hosted_team'' \<and> has_sync_access sub now))"

subsection \<open>Lemmas\<close>

lemma managed_plan_of_plan_id [simp]: "managed_plan_of (plan_id p) = Some p"
  by (cases p) (simp_all add: managed_plan_of_def)

lemma managed_plan_of_Some_iff: "managed_plan_of s = Some p \<longleftrightarrow> s = plan_id p"
  by (cases p) (auto simp: managed_plan_of_def)

lemma estimate_import_seconds_pos: "1 \<le> estimate_import_seconds bytes d"
  by (simp add: estimate_import_seconds_def Let_def)

lemma audio_seconds_for_bytes_pos: "0 < bytes \<Longrightarrow> 0 < audio_seconds_for_bytes bytes"
  by (simp add: audio_seconds_for_bytes_def audio_bytes_per_second_def ceil_div_pos)

lemma audio_seconds_for_bytes_nonneg: "0 \<le> bytes \<Longrightarrow> 0 \<le> audio_seconds_for_bytes bytes"
  by (simp add: audio_seconds_for_bytes_def audio_bytes_per_second_def ceil_div_nonneg)

lemma plan_limits_nonneg [simp]:
  "0 \<le> plan_meeting_limits p" "0 \<le> plan_audio_hour_limits p" "0 \<le> plan_chat_question_limits p"
  "0 \<le> plan_import_max_seconds p"
  by (cases p; simp add: hosted_trial_meetings_def)+

lemma has_sync_access_imp_processing: "has_sync_access sub now \<Longrightarrow> has_processing_access sub now"
  by (auto simp: has_sync_access_def has_processing_access_def split: option.splits if_splits)

text \<open>
  Imports cannot under-reserve. Whatever duration a client declares (missing, not a number,
  infinite, negative, tiny), the seconds reserved for an import are at least one, cover the
  declared duration when it is a positive number, and are never below the playing time of the
  file at two million bytes per second.
\<close>

theorem import_reservation_covers_file:
  "1 \<le> estimate_import_seconds bytes d \<and>
   bytes \<le> import_floor_bytes_per_second * estimate_import_seconds bytes d \<and>
   (case usable_duration d of
      Some q \<Rightarrow> q \<le> of_int (estimate_import_seconds bytes d)
    | None \<Rightarrow> bytes \<le> import_fallback_bytes_per_second * estimate_import_seconds bytes d)"
proof -
  let ?e = "estimate_import_seconds bytes d"
  have "ceil_div bytes import_floor_bytes_per_second \<le> ?e"
    by (simp add: estimate_import_seconds_def Let_def)
  then have fl: "bytes \<le> import_floor_bytes_per_second * ?e"
    by (subst ceil_div_le_iff [symmetric]) (simp_all add: import_floor_bytes_per_second_def)
  have "case usable_duration d of
      Some q \<Rightarrow> \<lceil>q\<rceil> \<le> ?e | None \<Rightarrow> ceil_div bytes import_fallback_bytes_per_second \<le> ?e"
    by (simp add: estimate_import_seconds_def Let_def split: option.split)
  moreover have "ceil_div bytes import_fallback_bytes_per_second \<le> ?e \<longleftrightarrow>
      bytes \<le> import_fallback_bytes_per_second * ?e"
    by (rule ceil_div_le_iff) (simp add: import_fallback_bytes_per_second_def)
  ultimately show ?thesis
    using fl estimate_import_seconds_pos by (auto simp: ceiling_le_iff split: option.splits)
qed

end
