(* ===== verification/Usage_Ledger.thy ===== *)
theory Usage_Ledger
  imports Plans
begin

text \<open>
  The usage ledger: \<^verbatim>\<open>webapp/src/lib/usageLedger.ts\<close> with the error classes of
  \<^verbatim>\<open>entitlementError.ts\<close>, over the tables \<open>UsageLedgerEntry\<close> and \<open>WorkspaceSubscription\<close>.

  A serializable \<open>$transaction\<close> is one definition from the tables it reads to the tables it
  leaves; the retry loop around it runs against a ledger that may be different at each attempt
  (other requests commit in between) and a database that may abort an attempt. The clock is
  read once per transaction (\<open>now\<close>), row ids come from the database (\<open>new_id\<close>). ISO strings
  of the entitlement payload are left as instants.
\<close>

subsection \<open>Rows, errors, windows\<close>

record usage_entry =
  ue_id :: ident
  ue_workspace :: ident
  ue_period_start :: millis
  ue_kind :: string
  ue_units :: int
  ue_audio :: int
  ue_key :: string
  ue_released :: "millis option"

datatype ledger_error =
    Hosted_Ai_Disabled_Error
  | Entitlement_Error
  | Audio_Budget_Error
  | Chat_Unavailable_Plan
  | Chat_Unavailable_Limit
  | Db_Error thrown
  | Not_Completed

definition units_kind :: string where
  "units_kind = ''meeting_processing''"

definition calendar_month :: "millis \<Rightarrow> millis \<times> millis" where
  "calendar_month now =
     (date_utc (utc_full_year now) (utc_month now),
      date_utc (utc_full_year now) (utc_month now + 1))"

datatype window_source = Stripe_Period | Calendar_Month | Trial_Grant

record usage_window =
  uw_start :: millis
  uw_end :: "millis option"
  uw_entry :: millis
  uw_source :: window_source

definition usage_window :: "subscription option \<Rightarrow> millis \<Rightarrow> usage_window" where
  "usage_window sub now =
     (let (mstart, mend) = calendar_month now;
          calendar = \<lparr>uw_start = mstart, uw_end = Some mend, uw_entry = mstart, uw_source = Calendar_Month\<rparr>
      in case sub of
           None \<Rightarrow> calendar
         | Some s \<Rightarrow>
             if sub_plan s = ''hosted_trial''
             then \<lparr>uw_start = 0, uw_end = None, uw_entry = mstart, uw_source = Trial_Grant\<rparr>
             else (case (sub_period_start s, sub_period_end s) of
                 (Some a, Some b) \<Rightarrow>
                   if a \<le> now \<and> now < b \<and> sub_plan s \<noteq> ''local''
                   then \<lparr>uw_start = a, uw_end = Some b, uw_entry = a, uw_source = Stripe_Period\<rparr>
                   else calendar
               | _ \<Rightarrow> calendar))"

definition in_window :: "usage_window \<Rightarrow> millis \<Rightarrow> bool" where
  "in_window w t \<longleftrightarrow> uw_start w \<le> t \<and> (case uw_end w of None \<Rightarrow> True | Some e \<Rightarrow> t < e)"

definition usage_where :: "ident \<Rightarrow> usage_window \<Rightarrow> usage_entry \<Rightarrow> bool" where
  "usage_where ws w e \<longleftrightarrow>
     ue_workspace e = ws \<and> ue_kind e = units_kind \<and> in_window w (ue_period_start e)"

definition live_usage_where :: "ident \<Rightarrow> usage_window \<Rightarrow> usage_entry \<Rightarrow> bool" where
  "live_usage_where ws w e \<longleftrightarrow> usage_where ws w e \<and> 0 < ue_units e"

definition plan_limit :: "string \<Rightarrow> int" where
  "plan_limit plan = (case managed_plan_of plan of Some p \<Rightarrow> plan_meeting_limits p | None \<Rightarrow> 0)"

definition plan_audio_seconds :: "string \<Rightarrow> int" where
  "plan_audio_seconds plan =
     (case managed_plan_of plan of Some p \<Rightarrow> plan_audio_hour_limits p * 3600 | None \<Rightarrow> 0)"

definition plan_of :: "subscription option \<Rightarrow> string" where
  "plan_of sub = (case sub of None \<Rightarrow> ''local'' | Some s \<Rightarrow> sub_plan s)"

definition used_units :: "ident \<Rightarrow> usage_window \<Rightarrow> usage_entry list \<Rightarrow> int" where
  "used_units ws w ledger = sum_rows ue_units (live_usage_where ws w) ledger"

definition used_audio :: "ident \<Rightarrow> usage_window \<Rightarrow> usage_entry list \<Rightarrow> int" where
  "used_audio ws w ledger = sum_rows ue_audio (live_usage_where ws w) ledger"

subsection \<open>Entitlements\<close>

datatype quota_warning = No_Warning | Low | Exhausted

text \<open>\<open>used / limit >= 0.8\<close> is \<open>5 * used >= 4 * limit\<close> for a positive limit.\<close>

definition quota_warning :: "int \<Rightarrow> int \<Rightarrow> quota_warning" where
  "quota_warning used limit =
     (if limit \<le> 0 then No_Warning
      else if limit \<le> used then Exhausted
      else if 4 * limit \<le> 5 * used \<or> (limit \<le> hosted_trial_meetings \<and> limit - used \<le> 1) then Low
      else No_Warning)"

record entitlements =
  en_plan :: string
  en_plan_label :: string
  en_status :: string
  en_used :: int
  en_limit :: int
  en_remaining :: int
  en_in_payment_grace :: bool
  en_grace_ends :: "millis option"
  en_audio_used :: int
  en_audio_limit :: int
  en_audio_remaining :: int
  en_audio_warning :: quota_warning
  en_can_sync :: bool
  en_hosted_ai :: bool
  en_can_process :: bool
  en_period_source :: window_source
  en_period_start :: "millis option"
  en_period_end :: "millis option"
  en_is_trial :: bool
  en_trial :: "(int \<times> int \<times> int) option"
  en_meeting_warning :: quota_warning
  en_warning :: quota_warning

definition get_entitlements ::
  "bool \<Rightarrow> millis \<Rightarrow> ident \<Rightarrow> subscription list \<Rightarrow> usage_entry list \<Rightarrow> entitlements" where
  "get_entitlements hosted_ai now ws subs ledger =
     (let sub = find_row (\<lambda>s. sub_workspace s = ws) subs;
          plan = plan_of sub;
          w = usage_window sub now;
          used = used_units ws w ledger;
          audio_used = used_audio ws w ledger;
          audio_limit = plan_audio_seconds plan;
          limit = plan_limit plan;
          remaining = max 0 (limit - used);
          meeting_warning = quota_warning used limit;
          audio_warning = quota_warning audio_used audio_limit;
          grace = (case sub of None \<Rightarrow> False | Some s \<Rightarrow> in_grace s now)
      in \<lparr> en_plan = plan,
           en_plan_label = plan_label plan,
           en_status = (case sub of None \<Rightarrow> ''inactive'' | Some s \<Rightarrow> sub_status s),
           en_used = used,
           en_limit = limit,
           en_remaining = remaining,
           en_in_payment_grace = grace,
           en_grace_ends = (if grace then Option.bind sub sub_grace_ends else None),
           en_audio_used = audio_used,
           en_audio_limit = audio_limit,
           en_audio_remaining = max 0 (audio_limit - audio_used),
           en_audio_warning = audio_warning,
           en_can_sync = has_sync_access sub now,
           en_hosted_ai = hosted_ai,
           en_can_process =
             (hosted_ai \<and> has_processing_access sub now \<and> used < limit \<and> audio_used < audio_limit),
           en_period_source = uw_source w,
           en_period_start = (if uw_source w = Trial_Grant then None else Some (uw_start w)),
           en_period_end = uw_end w,
           en_is_trial = (plan = ''hosted_trial''),
           en_trial = (if plan = ''hosted_trial'' then Some (limit, used, remaining) else None),
           en_meeting_warning = meeting_warning,
           en_warning =
             (if meeting_warning = Exhausted \<or> audio_warning = Exhausted then Exhausted
              else if meeting_warning = Low \<or> audio_warning = Low then Low
              else No_Warning) \<rparr>)"

definition assign_hosted_trial :: "ident \<Rightarrow> subscription list \<Rightarrow> subscription list" where
  "assign_hosted_trial ws subs =
     (case find_row (\<lambda>s. sub_workspace s = ws) subs of
        Some s \<Rightarrow> subs
      | None \<Rightarrow> subs @ [(default_subscription ws)\<lparr>sub_plan := ''hosted_trial'', sub_status := ''trialing''\<rparr>])"

subsection \<open>Serializable conflicts and the retry loop\<close>

definition is_serialization_conflict :: "ledger_error \<Rightarrow> bool" where
  "is_serialization_conflict e =
     (case e of
        Db_Error t \<Rightarrow>
          th_code t = Some ''P2034'' \<or>
          (th_name t = Some ''DriverAdapterError'' \<and>
           (case th_message t of
              None \<Rightarrow> False
            | Some m \<Rightarrow>
                contains_sub (to_lower m) ''transactionwriteconflict'' \<or>
                contains_sub (to_lower m) ''could not serialize'' \<or>
                contains_sub (to_lower m) ''deadlock detected''))
      | _ \<Rightarrow> False)"

definition reservation_attempts :: nat where
  "reservation_attempts = 8"

text \<open>
  \<open>for (attempt = 0; attempt < tries; attempt += 1) try { return body } catch { retry or rethrow }\<close>.
\<close>

function retry_from :: "nat \<Rightarrow> nat \<Rightarrow> (nat \<Rightarrow> ledger_error + 'a) \<Rightarrow> ledger_error + 'a" where
  "retry_from tries attempt body =
     (if attempt < tries
      then (case body attempt of
              Inr a \<Rightarrow> Inr a
            | Inl e \<Rightarrow>
                if is_serialization_conflict e \<and> attempt < tries - 1
                then retry_from tries (Suc attempt) body
                else Inl e)
      else Inl Not_Completed)"
  by pat_completeness auto
termination
  by (relation "measure (\<lambda>(tries, attempt, body). tries - attempt)") auto

declare retry_from.simps [simp del]

text \<open>One attempt: the database may abort it, which undoes the transaction.\<close>

definition attempt_tx :: "thrown option \<Rightarrow> (ledger_error + 'a) \<Rightarrow> ledger_error + 'a" where
  "attempt_tx abort result = (case abort of Some t \<Rightarrow> Inl (Db_Error t) | None \<Rightarrow> result)"

subsection \<open>Reserving, releasing, adjusting\<close>

definition entry_at :: "ident \<Rightarrow> string \<Rightarrow> usage_entry list \<Rightarrow> usage_entry option" where
  "entry_at ws key ledger = find_row (\<lambda>e. (ue_workspace e, ue_key e) = (ws, key)) ledger"

text \<open>\<open>create\<close> on the table: its primary key and its unique index refuse a duplicate (P2002).\<close>

definition unique_violation :: ledger_error where
  "unique_violation =
     Db_Error \<lparr>th_code = Some ''P2002'', th_name = Some ''PrismaClientKnownRequestError'', th_message = None\<rparr>"

definition create_entry :: "usage_entry \<Rightarrow> usage_entry list \<Rightarrow> ledger_error + usage_entry list" where
  "create_entry row ledger =
     (if ue_id row \<in> ue_id ` set ledger \<or> entry_at (ue_workspace row) (ue_key row) ledger \<noteq> None
      then Inl unique_violation
      else Inr (ledger @ [row]))"

definition reserve_tx ::
  "millis \<Rightarrow> ident \<Rightarrow> ident \<Rightarrow> string \<Rightarrow> int \<Rightarrow> subscription list \<Rightarrow> usage_entry list
   \<Rightarrow> ledger_error + bool \<times> usage_entry list" where
  "reserve_tx now new_id ws key audio_seconds subs ledger =
     (let existing = entry_at ws key ledger in
      if (case existing of Some e \<Rightarrow> 0 < ue_units e | None \<Rightarrow> False) then Inr (True, ledger)
      else
        let sub = find_row (\<lambda>s. sub_workspace s = ws) subs;
            limit = plan_limit (plan_of sub);
            w = usage_window sub now
        in if \<not> has_processing_access sub now \<or> limit \<le> used_units ws w ledger
           then Inl Entitlement_Error
           else if 0 < audio_seconds \<and>
                   plan_audio_seconds (plan_of sub) < used_audio ws w ledger + audio_seconds
           then Inl Audio_Budget_Error
           else (case existing of
               Some e \<Rightarrow>
                 Inr (False, update_rows (\<lambda>r. ue_id r = ue_id e)
                   (\<lambda>r. r\<lparr>ue_period_start := uw_entry w, ue_units := 1, ue_audio := audio_seconds,
                         ue_released := None\<rparr>) ledger)
             | None \<Rightarrow>
                 (case create_entry \<lparr>ue_id = new_id, ue_workspace = ws,
                     ue_period_start = uw_entry w, ue_kind = units_kind, ue_units = 1,
                     ue_audio = audio_seconds, ue_key = key, ue_released = None\<rparr> ledger of
                    Inl e \<Rightarrow> Inl e
                  | Inr ledger' \<Rightarrow> Inr (False, ledger'))))"

definition reserve_meeting_processing ::
  "bool \<Rightarrow> (nat \<Rightarrow> thrown option) \<Rightarrow> (nat \<Rightarrow> millis) \<Rightarrow> (nat \<Rightarrow> subscription list) \<Rightarrow> (nat \<Rightarrow> usage_entry list)
   \<Rightarrow> ident \<Rightarrow> ident \<Rightarrow> string \<Rightarrow> int \<Rightarrow> int option \<Rightarrow> ledger_error + bool \<times> usage_entry list" where
  "reserve_meeting_processing hosted_ai aborts clock subs ledgers new_id ws key audio_bytes audio_option =
     (if \<not> hosted_ai then Inl Hosted_Ai_Disabled_Error
      else
        let audio_seconds = (case audio_option of Some n \<Rightarrow> n | None \<Rightarrow> audio_seconds_for_bytes audio_bytes)
        in retry_from reservation_attempts 0 (\<lambda>i. attempt_tx (aborts i)
             (reserve_tx (clock i) new_id ws key audio_seconds (subs i) (ledgers i))))"

definition release_meeting_processing ::
  "millis \<Rightarrow> ident \<Rightarrow> string \<Rightarrow> usage_entry list \<Rightarrow> usage_entry list" where
  "release_meeting_processing now ws key ledger =
     update_rows (\<lambda>e. ue_workspace e = ws \<and> ue_key e = key \<and> ue_kind e = units_kind \<and> 0 < ue_units e)
       (\<lambda>e. e\<lparr>ue_units := 0, ue_released := Some now\<rparr>) ledger"

definition adjust_tx ::
  "millis \<Rightarrow> ident \<Rightarrow> string \<Rightarrow> int \<Rightarrow> subscription list \<Rightarrow> usage_entry list
   \<Rightarrow> ledger_error + bool \<times> usage_entry list" where
  "adjust_tx now ws key seconds subs ledger =
     (case entry_at ws key ledger of
        None \<Rightarrow> Inr (False, ledger)
      | Some e \<Rightarrow>
          if ue_units e \<le> 0 \<or> ue_kind e \<noteq> units_kind then Inr (False, ledger)
          else
            let sub = find_row (\<lambda>s. sub_workspace s = ws) subs;
                others = sum_rows ue_audio
                  (\<lambda>r. live_usage_where ws (usage_window sub now) r \<and> ue_id r \<noteq> ue_id e) ledger
            in if ue_audio e < seconds \<and> plan_audio_seconds (plan_of sub) < others + seconds
               then Inl Audio_Budget_Error
               else Inr (True, update_rows (\<lambda>r. ue_id r = ue_id e) (\<lambda>r. r\<lparr>ue_audio := seconds\<rparr>) ledger))"

definition adjust_reserved_audio_seconds ::
  "(nat \<Rightarrow> thrown option) \<Rightarrow> (nat \<Rightarrow> millis) \<Rightarrow> (nat \<Rightarrow> subscription list) \<Rightarrow> (nat \<Rightarrow> usage_entry list)
   \<Rightarrow> ident \<Rightarrow> string \<Rightarrow> rat \<Rightarrow> ledger_error + bool \<times> usage_entry list" where
  "adjust_reserved_audio_seconds aborts clock subs ledgers ws key audio_seconds =
     (let seconds = max 0 \<lceil>audio_seconds\<rceil>
      in retry_from reservation_attempts 0 (\<lambda>i. attempt_tx (aborts i)
           (adjust_tx (clock i) ws key seconds (subs i) (ledgers i))))"

subsection \<open>The retry loop\<close>

lemma retry_from_step:
  "attempt < tries \<Longrightarrow> retry_from tries attempt body =
     (case body attempt of
        Inr a \<Rightarrow> Inr a
      | Inl e \<Rightarrow> if is_serialization_conflict e \<and> attempt < tries - 1
                 then retry_from tries (Suc attempt) body else Inl e)"
  by (subst retry_from.simps) simp

lemma retry_from_last:
  "attempt < tries \<Longrightarrow> \<exists>i. attempt \<le> i \<and> i < tries \<and> retry_from tries attempt body = body i \<and>
    (\<forall>j. attempt \<le> j \<and> j < i \<longrightarrow> (\<exists>e. body j = Inl e \<and> is_serialization_conflict e)) \<and>
    (i < tries - 1 \<longrightarrow> (\<forall>e. body i = Inl e \<longrightarrow> \<not> is_serialization_conflict e))"
proof (induction tries attempt body rule: retry_from.induct)
  case (1 tries attempt body)
  show ?case
  proof (cases "\<exists>e. body attempt = Inl e \<and> is_serialization_conflict e \<and> attempt < tries - 1")
    case True
    then obtain e where e: "body attempt = Inl e" "is_serialization_conflict e" "attempt < tries - 1"
      by blast
    then have "Suc attempt < tries" by linarith
    from "1.IH" [OF \<open>attempt < tries\<close> e(1) conjI [OF e(2,3)] this]
    obtain i where i: "Suc attempt \<le> i" "i < tries" "retry_from tries (Suc attempt) body = body i"
      "\<forall>j. Suc attempt \<le> j \<and> j < i \<longrightarrow> (\<exists>e. body j = Inl e \<and> is_serialization_conflict e)"
      "i < tries - 1 \<longrightarrow> (\<forall>e. body i = Inl e \<longrightarrow> \<not> is_serialization_conflict e)"
      by blast
    have "retry_from tries attempt body = body i"
      using e i(3) \<open>attempt < tries\<close> by (simp add: retry_from_step)
    moreover have "\<exists>e. body j = Inl e \<and> is_serialization_conflict e" if "attempt \<le> j" "j < i" for j
      using that i(4) e(1,2) by (cases "j = attempt") auto
    ultimately show ?thesis using i(1,2,5) Suc_leD by blast
  next
    case False
    then have "retry_from tries attempt body = body attempt"
      using \<open>attempt < tries\<close> by (auto simp: retry_from_step split: sum.splits)
    with False \<open>attempt < tries\<close> show ?thesis by (intro exI [of _ attempt]) auto
  qed
qed

lemma attempt_tx_Inr: "attempt_tx abort result = Inr a \<longleftrightarrow> abort = None \<and> result = Inr a"
  by (simp add: attempt_tx_def split: option.splits)

lemma create_entry_Inr:
  "create_entry row L = Inr L' \<longleftrightarrow>
     ue_id row \<notin> ue_id ` set L \<and> entry_at (ue_workspace row) (ue_key row) L = None \<and> L' = L @ [row]"
  by (auto simp: create_entry_def)

lemma unique_violation_no_conflict [simp]: "\<not> is_serialization_conflict unique_violation"
  by (simp add: is_serialization_conflict_def unique_violation_def)

subsection \<open>Windows\<close>

lemma calendar_month_brackets:
  "fst (calendar_month now) \<le> now" "now < snd (calendar_month now)"
  by (simp_all add: calendar_month_def date_utc_brackets)

lemma utc_full_year_epoch: "0 \<le> now \<Longrightarrow> 1970 \<le> utc_full_year now"
proof (rule ccontr)
  assume now: "0 \<le> now" and "\<not> 1970 \<le> utc_full_year now"
  then have "utc_full_year now + 1 = 1970 \<or> utc_full_year now + 1 \<le> 1969" by linarith
  then have "day_from_year (utc_full_year now + 1) \<le> 0"
    using day_from_year_bounds(1) [of "utc_full_year now + 1"]
    by (auto simp: day_from_year_def)
  moreover have "0 \<le> day_of now" using now by (simp add: day_of_def ms_per_day_def)
  ultimately show False
    using year_from_day_correct [of "day_of now"] by (simp add: utc_full_year_def)
qed

lemma calendar_month_start_nonneg: "0 \<le> now \<Longrightarrow> 0 \<le> fst (calendar_month now)"
proof -
  assume "0 \<le> now"
  then have "1970 \<le> utc_full_year now" by (rule utc_full_year_epoch)
  then have "utc_full_year now = 1970 \<or> 1971 \<le> utc_full_year now" by linarith
  then have "0 \<le> day_from_year (utc_full_year now)"
    using day_from_year_bounds(2) [of "utc_full_year now"] by (auto simp: day_from_year_def)
  then show ?thesis
    using utc_month_range [of now]
    by (simp add: calendar_month_def date_utc_month ms_per_day_def month_start_def)
qed

lemma usage_window_cases:
  obtains (trial) "usage_window sub now =
      \<lparr>uw_start = 0, uw_end = None, uw_entry = fst (calendar_month now), uw_source = Trial_Grant\<rparr>"
  | (stripe) a b where "a \<le> now" "now < b"
      "usage_window sub now = \<lparr>uw_start = a, uw_end = Some b, uw_entry = a, uw_source = Stripe_Period\<rparr>"
  | (calendar) "usage_window sub now =
      \<lparr>uw_start = fst (calendar_month now), uw_end = Some (snd (calendar_month now)),
       uw_entry = fst (calendar_month now), uw_source = Calendar_Month\<rparr>"
proof (cases sub)
  case None
  then show ?thesis using calendar by (simp add: usage_window_def Let_def case_prod_unfold)
next
  case (Some s)
  show ?thesis
  proof (cases "sub_plan s = ''hosted_trial''")
    case True
    with Some show ?thesis using trial by (simp add: usage_window_def Let_def case_prod_unfold)
  next
    case False
    show ?thesis
    proof (cases "\<exists>a b. sub_period_start s = Some a \<and> sub_period_end s = Some b \<and> a \<le> now \<and> now < b \<and>
        sub_plan s \<noteq> ''local''")
      case True
      with Some False show ?thesis using stripe by (auto simp: usage_window_def Let_def case_prod_unfold)
    next
      case no: False
      have "usage_window sub now = \<lparr>uw_start = fst (calendar_month now),
          uw_end = Some (snd (calendar_month now)), uw_entry = fst (calendar_month now), uw_source = Calendar_Month\<rparr>"
        using Some False no
        by (cases "sub_period_start s"; cases "sub_period_end s")
          (auto simp: usage_window_def Let_def case_prod_unfold)
      then show ?thesis by (rule calendar)
    qed
  qed
qed

lemma usage_window_entry: "0 \<le> now \<Longrightarrow> in_window (usage_window sub now) (uw_entry (usage_window sub now))"
  using calendar_month_brackets [of now] calendar_month_start_nonneg [of now]
  by (cases sub now rule: usage_window_cases) (auto simp: in_window_def)

lemma usage_window_now: "0 \<le> now \<Longrightarrow> in_window (usage_window sub now) now"
  using calendar_month_brackets [of now]
  by (cases sub now rule: usage_window_cases) (auto simp: in_window_def)

end
