(* ===== verification/Chat_Quota.thy ===== *)
theory Chat_Quota
  imports Usage_Ledger
begin

text \<open>
  Question quota of "Ask your notes" (\<^verbatim>\<open>webapp/src/lib/chatQuota.ts\<close>), and the properties of
  the usage ledger that meetings and questions share.

  Questions are rows of the same \<open>UsageLedgerEntry\<close> table under another kind, with keys
  \<^verbatim>\<open>chat:<uuid>\<close>. The machine at the end runs every operation of both modules in any order
  against one ledger.
\<close>

subsection \<open>Operations\<close>

definition chat_kind :: string where
  "chat_kind = ''notes_chat''"

definition chat_reservation_attempts :: nat where
  "chat_reservation_attempts = 8"

definition question_limit :: "string \<Rightarrow> int" where
  "question_limit plan =
     (case managed_plan_of plan of Some p \<Rightarrow> plan_chat_question_limits p | None \<Rightarrow> 0)"

datatype chat_reason = Reason_Plan | Reason_Limit

record chat_entitlement =
  ce_eligible :: bool
  ce_used :: int
  ce_limit :: int
  ce_remaining :: int
  ce_reason :: "chat_reason option"

definition live_chat_where :: "ident \<Rightarrow> usage_window \<Rightarrow> usage_entry \<Rightarrow> bool" where
  "live_chat_where ws w e \<longleftrightarrow>
     ue_workspace e = ws \<and> ue_kind e = chat_kind \<and> 0 < ue_units e \<and> in_window w (ue_period_start e)"

definition used_questions :: "ident \<Rightarrow> usage_window \<Rightarrow> usage_entry list \<Rightarrow> int" where
  "used_questions ws w ledger = sum_rows ue_units (live_chat_where ws w) ledger"

definition get_chat_entitlement ::
  "millis \<Rightarrow> ident \<Rightarrow> subscription list \<Rightarrow> usage_entry list \<Rightarrow> chat_entitlement" where
  "get_chat_entitlement now ws subs ledger =
     (let sub = find_row (\<lambda>s. sub_workspace s = ws) subs;
          limit = question_limit (plan_of sub);
          plan_ok = (0 < limit \<and> has_processing_access sub now)
      in if \<not> plan_ok
         then \<lparr>ce_eligible = False, ce_used = 0, ce_limit = limit, ce_remaining = 0, ce_reason = Some Reason_Plan\<rparr>
         else let used = used_questions ws (usage_window sub now) ledger;
                  remaining = max 0 (limit - used)
              in \<lparr>ce_eligible = (0 < remaining), ce_used = used, ce_limit = limit,
                  ce_remaining = remaining,
                  ce_reason = (if 0 < remaining then None else Some Reason_Limit)\<rparr>)"

definition reserve_chat_tx ::
  "millis \<Rightarrow> ident \<Rightarrow> ident \<Rightarrow> string \<Rightarrow> subscription list \<Rightarrow> usage_entry list
   \<Rightarrow> ledger_error + usage_entry list" where
  "reserve_chat_tx now new_id ws key subs ledger =
     (let sub = find_row (\<lambda>s. sub_workspace s = ws) subs;
          limit = question_limit (plan_of sub)
      in if limit \<le> 0 \<or> \<not> has_processing_access sub now then Inl Chat_Unavailable_Plan
         else
           let w = usage_window sub now
           in if limit \<le> used_questions ws w ledger then Inl Chat_Unavailable_Limit
              else create_entry \<lparr>ue_id = new_id, ue_workspace = ws, ue_period_start = uw_entry w,
                     ue_kind = chat_kind, ue_units = 1, ue_audio = 0, ue_key = key, ue_released = None\<rparr> ledger)"

definition chat_key :: "ident \<Rightarrow> string" where
  "chat_key uuid = ''chat:'' @ uuid"

definition reserve_chat_question ::
  "bool \<Rightarrow> (nat \<Rightarrow> thrown option) \<Rightarrow> (nat \<Rightarrow> millis) \<Rightarrow> (nat \<Rightarrow> subscription list) \<Rightarrow> (nat \<Rightarrow> usage_entry list)
   \<Rightarrow> ident \<Rightarrow> ident \<Rightarrow> ident \<Rightarrow> ledger_error + string \<times> usage_entry list" where
  "reserve_chat_question hosted_ai aborts clock subs ledgers new_id uuid ws =
     (if \<not> hosted_ai then Inl Chat_Unavailable_Plan
      else retry_from chat_reservation_attempts 0 (\<lambda>i. attempt_tx (aborts i)
        (case reserve_chat_tx (clock i) new_id ws (chat_key uuid) (subs i) (ledgers i) of
           Inl e \<Rightarrow> Inl e
         | Inr ledger \<Rightarrow> Inr (chat_key uuid, ledger))))"

definition release_chat_question :: "millis \<Rightarrow> ident \<Rightarrow> string \<Rightarrow> usage_entry list \<Rightarrow> usage_entry list" where
  "release_chat_question now ws key ledger =
     update_rows (\<lambda>e. ue_workspace e = ws \<and> ue_key e = key \<and> ue_kind e = chat_kind \<and> 0 < ue_units e)
       (\<lambda>e. e\<lparr>ue_units := 0, ue_released := Some now\<rparr>) ledger"

subsection \<open>The ledger's invariant\<close>

text \<open>
  The unique indexes of the table, and what the two modules write: question rows are exactly
  the rows with a question key, every row is of one of the two kinds, units are 0 or 1 and
  audio seconds are not negative.
\<close>

definition is_chat_key :: "string \<Rightarrow> bool" where
  "is_chat_key key \<longleftrightarrow> prefix ''chat:'' key"

abbreviation ledger_key :: "usage_entry \<Rightarrow> ident \<times> string" where
  "ledger_key e \<equiv> (ue_workspace e, ue_key e)"

definition row_ok :: "usage_entry \<Rightarrow> bool" where
  "row_ok e \<longleftrightarrow>
     ue_kind e = (if is_chat_key (ue_key e) then chat_kind else units_kind) \<and>
     ue_units e \<in> {0, 1} \<and> 0 \<le> ue_audio e"

definition ledger_ok :: "usage_entry list \<Rightarrow> bool" where
  "ledger_ok L \<longleftrightarrow> unique_on ue_id L \<and> unique_on ledger_key L \<and> (\<forall>e \<in> set L. row_ok e)"

lemma kinds_differ [simp]: "units_kind \<noteq> chat_kind" "chat_kind \<noteq> units_kind"
  by (simp_all add: units_kind_def chat_kind_def)

lemma chat_key_is_chat [simp]: "is_chat_key (chat_key uuid)"
  by (simp add: is_chat_key_def chat_key_def)

lemma live_usage_where_chat [simp]: "ue_kind e = chat_kind \<Longrightarrow> \<not> live_usage_where ws w e"
  by (simp add: live_usage_where_def usage_where_def)

lemma live_chat_where_units [simp]: "ue_kind e = units_kind \<Longrightarrow> \<not> live_chat_where ws w e"
  by (simp add: live_chat_where_def)

lemma entry_at_SomeD:
  "entry_at ws key L = Some e \<Longrightarrow> e \<in> set L \<and> ue_workspace e = ws \<and> ue_key e = key"
  using find_row_SomeD [of "\<lambda>e. (ue_workspace e, ue_key e) = (ws, key)" L e]
  by (simp add: entry_at_def)

lemma entry_at_NoneD: "entry_at ws key L = None \<Longrightarrow> (ws, key) \<notin> ledger_key ` set L"
  by (auto simp: entry_at_def find_row_None_iff)

lemma entry_at_iff:
  "ledger_ok L \<Longrightarrow> entry_at ws key L = Some e \<longleftrightarrow> e \<in> set L \<and> ue_workspace e = ws \<and> ue_key e = key"
  unfolding entry_at_def ledger_ok_def
  using find_row_key_iff [of ledger_key L "(ws, key)" e] by simp

lemma ledger_ok_snoc:
  "ledger_ok L \<Longrightarrow> ue_id e \<notin> ue_id ` set L \<Longrightarrow> ledger_key e \<notin> ledger_key ` set L \<Longrightarrow> row_ok e \<Longrightarrow>
   ledger_ok (L @ [e])"
  by (auto simp: ledger_ok_def unique_on_append)

lemma ledger_ok_update:
  assumes "ledger_ok L"
    and "\<And>e. e \<in> set L \<Longrightarrow> p e \<Longrightarrow> ue_id (f e) = ue_id e \<and> ledger_key (f e) = ledger_key e \<and> row_ok (f e)"
  shows "ledger_ok (update_rows p f L)"
proof -
  have "unique_on ue_id (update_rows p f L) = unique_on ue_id L"
    by (rule unique_on_update) (simp add: assms(2))
  moreover have "unique_on ledger_key (update_rows p f L) = unique_on ledger_key L"
    by (rule unique_on_update) (use assms(2) in blast)
  ultimately show ?thesis
    using assms by (auto simp: ledger_ok_def set_update_rows)
qed

text \<open>How each kind of write changes the counted sums.\<close>

lemma sum_update_by_id:
  assumes "ledger_ok L" "e \<in> set L"
  shows "sum_rows g p (update_rows (\<lambda>r. ue_id r = ue_id e) f L) =
    (if p (f e) then g (f e) else 0) + sum_rows g (\<lambda>r. p r \<and> ue_id r \<noteq> ue_id e) L"
  using assms by (intro sum_rows_update_one) (auto simp: ledger_ok_def)

lemma sum_split_by_id:
  assumes "ledger_ok L" "e \<in> set L"
  shows "sum_rows g p L = (if p e then g e else 0) + sum_rows g (\<lambda>r. p r \<and> ue_id r \<noteq> ue_id e) L"
  using assms by (intro sum_rows_unique_split) (auto simp: ledger_ok_def)

lemma find_after_update_by_id:
  assumes ok: "ledger_ok L" and e: "e \<in> set L" and k: "ledger_key (f e) = ledger_key e"
  shows "entry_at (ue_workspace e) (ue_key e) (update_rows (\<lambda>r. ue_id r = ue_id e) f L) = Some (f e)"
proof -
  have ids: "\<And>r. r \<in> set L \<Longrightarrow> ue_id r = ue_id e \<Longrightarrow> r = e"
    using ok e unique_onD [of ue_id L] by (auto simp: ledger_ok_def)
  have "unique_on ledger_key (update_rows (\<lambda>r. ue_id r = ue_id e) f L)"
    using unique_on_update [of L "\<lambda>r. ue_id r = ue_id e" ledger_key f] ids k ok
    by (auto simp: ledger_ok_def)
  moreover have "f e \<in> set (update_rows (\<lambda>r. ue_id r = ue_id e) f L)"
    using e by (auto simp: set_update_rows image_iff)
  ultimately show ?thesis
    unfolding entry_at_def
    using find_row_key_iff [of ledger_key _ "(ue_workspace e, ue_key e)" "f e"] k by simp
qed

text \<open>What a granted reservation writes: one live row for its key, all other counted rows untouched.\<close>

definition grants :: "ident \<Rightarrow> string \<Rightarrow> string \<Rightarrow> int \<Rightarrow> millis \<Rightarrow> usage_entry list \<Rightarrow> usage_entry list \<Rightarrow> bool" where
  "grants ws key kind secs start L L' \<longleftrightarrow>
     (\<exists>row. entry_at ws key L' = Some row \<and> ue_workspace row = ws \<and> ue_key row = key \<and> ue_kind row = kind \<and>
        ue_units row = 1 \<and> ue_audio row = secs \<and> ue_period_start row = start \<and>
        (\<forall>g p. (\<forall>e. p e \<longrightarrow> 0 < ue_units e) \<longrightarrow>
           sum_rows g p L' = (if p row then g row else 0) + sum_rows g p L))"

lemma grants_new:
  assumes ok: "ledger_ok L" and new: "entry_at ws key L = None"
  shows "grants ws key kind secs start L
    (L @ [\<lparr>ue_id = nid, ue_workspace = ws, ue_period_start = start, ue_kind = kind, ue_units = 1,
           ue_audio = secs, ue_key = key, ue_released = None\<rparr>])"
  using new by (auto simp: grants_def entry_at_def find_row_append split: option.splits)

lemma grants_reuse:
  assumes ok: "ledger_ok L" and e: "entry_at ws key L = Some e" and dead: "\<not> 0 < ue_units e"
    and kind: "ue_kind e = kind"
  shows "grants ws key kind secs start L
    (update_rows (\<lambda>r. ue_id r = ue_id e)
      (\<lambda>r. r\<lparr>ue_period_start := start, ue_units := 1, ue_audio := secs, ue_released := None\<rparr>) L)"
    (is "grants _ _ _ _ _ _ (update_rows ?q ?f L)")
proof -
  have m: "e \<in> set L" "ue_workspace e = ws" "ue_key e = key" using entry_at_SomeD [OF e] by auto
  have "entry_at ws key (update_rows ?q ?f L) = Some (?f e)"
    using find_after_update_by_id [OF ok m(1), of ?f] m(2,3) by simp
  moreover have "sum_rows g p (update_rows ?q ?f L) = (if p (?f e) then g (?f e) else 0) + sum_rows g p L"
    if "\<forall>e. p e \<longrightarrow> 0 < ue_units e" for g p
    using sum_update_by_id [OF ok m(1), of g p ?f] sum_split_by_id [OF ok m(1), of g p] that dead by auto
  ultimately show ?thesis unfolding grants_def
    by (intro exI [of _ "?f e"]) (simp add: m kind)
qed

lemma reserve_tx_granted:
  assumes res: "reserve_tx now nid ws key secs subs L = Inr (False, L')"
    and ok: "ledger_ok L" and key: "\<not> is_chat_key key" and secs: "0 \<le> secs"
  defines "sub \<equiv> find_row (\<lambda>s. sub_workspace s = ws) subs"
  shows "has_processing_access sub now"
    and "used_units ws (usage_window sub now) L < plan_limit (plan_of sub)"
    and "0 < secs \<Longrightarrow> used_audio ws (usage_window sub now) L + secs \<le> plan_audio_seconds (plan_of sub)"
    and "ledger_ok L'"
    and "grants ws key units_kind secs (uw_entry (usage_window sub now)) L L'"
proof -
  let ?w = "usage_window sub now"
  let ?upd = "\<lambda>r. r\<lparr>ue_period_start := uw_entry ?w, ue_units := 1, ue_audio := secs, ue_released := None\<rparr>"
  from res show "has_processing_access sub now"
    and "used_units ws ?w L < plan_limit (plan_of sub)"
    and "0 < secs \<Longrightarrow> used_audio ws ?w L + secs \<le> plan_audio_seconds (plan_of sub)"
    by (auto simp: reserve_tx_def Let_def sub_def split: if_splits option.splits)
  have "ledger_ok L' \<and> grants ws key units_kind secs (uw_entry ?w) L L'"
  proof (cases "entry_at ws key L")
    case None
    with res have L': "L' = L @ [\<lparr>ue_id = nid, ue_workspace = ws, ue_period_start = uw_entry ?w,
        ue_kind = units_kind, ue_units = 1, ue_audio = secs, ue_key = key, ue_released = None\<rparr>]"
      and nid: "nid \<notin> ue_id ` set L"
      by (auto simp: reserve_tx_def Let_def sub_def create_entry_Inr split: if_splits sum.splits)
    have "ledger_ok L'" unfolding L'
      using entry_at_NoneD [OF None] nid key secs by (intro ledger_ok_snoc [OF ok]) (auto simp: row_ok_def)
    then show ?thesis using grants_new [OF ok None] unfolding L' by blast
  next
    case (Some e)
    note m = entry_at_SomeD [OF Some]
    from res Some have dead: "\<not> 0 < ue_units e"
      and L': "L' = update_rows (\<lambda>r. ue_id r = ue_id e) ?upd L"
      by (auto simp: reserve_tx_def Let_def sub_def split: if_splits)
    have kind: "ue_kind e = units_kind" using m ok key by (auto simp: ledger_ok_def row_ok_def)
    have "row_ok (?upd r)" if "r \<in> set L" for r
      using that ok secs by (auto simp: ledger_ok_def row_ok_def)
    then have "ledger_ok L'" unfolding L' by (intro ledger_ok_update [OF ok]) auto
    then show ?thesis using grants_reuse [OF ok Some dead kind] unfolding L' by blast
  qed
  then show "ledger_ok L'" and "grants ws key units_kind secs (uw_entry ?w) L L'" by auto
qed

lemma reserve_chat_tx_granted:
  assumes res: "reserve_chat_tx now nid ws key subs L = Inr L'"
    and ok: "ledger_ok L" and key: "is_chat_key key"
  defines "sub \<equiv> find_row (\<lambda>s. sub_workspace s = ws) subs"
  shows "used_questions ws (usage_window sub now) L < question_limit (plan_of sub)"
    and "ledger_ok L'"
    and "grants ws key chat_kind 0 (uw_entry (usage_window sub now)) L L'"
proof -
  let ?w = "usage_window sub now"
  from res show "used_questions ws ?w L < question_limit (plan_of sub)"
    by (auto simp: reserve_chat_tx_def Let_def sub_def split: if_splits)
  from res have L': "L' = L @ [\<lparr>ue_id = nid, ue_workspace = ws, ue_period_start = uw_entry ?w,
      ue_kind = chat_kind, ue_units = 1, ue_audio = 0, ue_key = key, ue_released = None\<rparr>]"
    and nid: "nid \<notin> ue_id ` set L" and new: "entry_at ws key L = None"
    by (auto simp: reserve_chat_tx_def Let_def sub_def create_entry_Inr split: if_splits)
  show "ledger_ok L'" unfolding L'
    using entry_at_NoneD [OF new] nid key by (intro ledger_ok_snoc [OF ok]) (auto simp: row_ok_def)
  show "grants ws key chat_kind 0 (uw_entry ?w) L L'" unfolding L' by (rule grants_new [OF ok new])
qed

end
