(* ===== verification/Ledger_Properties.thy ===== *)
theory Ledger_Properties
  imports Chat_Quota
begin

text \<open>
  What the usage ledger guarantees: every interleaving of meeting reservations, releases,
  adjustments and questions, of any workspaces, keeps each workspace inside its plan; a
  reservation is idempotent; the retry loop surfaces no transient conflict while it has
  attempts left; the entitlement payload agrees with what a reservation does.
\<close>

subsection \<open>The ledger as a machine\<close>

datatype ledger_action =
    Reserve_Meeting ident string int
  | Release_Meeting string
  | Adjust_Audio string int
  | Ask_Question ident ident
  | Release_Question string

type_synonym ledger_op = "ident \<times> millis \<times> ledger_action"

fun ledger_step :: "subscription list \<Rightarrow> ledger_op \<Rightarrow> usage_entry list \<Rightarrow> usage_entry list" where
  "ledger_step subs (ws, now, Reserve_Meeting nid key secs) L =
     (case reserve_tx now nid ws key secs subs L of Inl e \<Rightarrow> L | Inr (b, L') \<Rightarrow> L')"
| "ledger_step subs (ws, now, Release_Meeting key) L = release_meeting_processing now ws key L"
| "ledger_step subs (ws, now, Adjust_Audio key secs) L =
     (case adjust_tx now ws key secs subs L of Inl e \<Rightarrow> L | Inr (b, L') \<Rightarrow> L')"
| "ledger_step subs (ws, now, Ask_Question nid uuid) L =
     (case reserve_chat_tx now nid ws (chat_key uuid) subs L of Inl e \<Rightarrow> L | Inr L' \<Rightarrow> L')"
| "ledger_step subs (ws, now, Release_Question key) L = release_chat_question now ws key L"

definition sub_of :: "subscription list \<Rightarrow> ident \<Rightarrow> subscription option" where
  "sub_of subs ws = find_row (\<lambda>s. sub_workspace s = ws) subs"

definition same_window :: "usage_window \<Rightarrow> usage_window \<Rightarrow> bool" where
  "same_window w w' \<longleftrightarrow> uw_start w = uw_start w' \<and> uw_end w = uw_end w'"

definition within_plan :: "subscription list \<Rightarrow> ident \<Rightarrow> usage_window \<Rightarrow> usage_entry list \<Rightarrow> bool" where
  "within_plan subs ws w L \<longleftrightarrow>
     used_units ws w L \<le> plan_limit (plan_of (sub_of subs ws)) \<and>
     used_audio ws w L \<le> plan_audio_seconds (plan_of (sub_of subs ws)) \<and>
     used_questions ws w L \<le> question_limit (plan_of (sub_of subs ws))"

text \<open>
  The operations the callers make: uploads reserve a non-negative number of seconds under keys
  that are not question keys, and \<open>adjustReservedAudioSeconds\<close> rounds and clips to
  non-negative seconds before its transaction. Operations of the observed workspace happen
  inside the observed usage window.
\<close>

fun action_ok :: "ledger_action \<Rightarrow> bool" where
  "action_ok (Reserve_Meeting nid key secs) \<longleftrightarrow> \<not> is_chat_key key \<and> 0 \<le> secs"
| "action_ok (Adjust_Audio key secs) \<longleftrightarrow> 0 \<le> secs"
| "action_ok _ \<longleftrightarrow> True"

definition op_ok :: "subscription list \<Rightarrow> ident \<Rightarrow> usage_window \<Rightarrow> ledger_op \<Rightarrow> bool" where
  "op_ok subs ws w op \<longleftrightarrow>
     0 \<le> fst (snd op) \<and> action_ok (snd (snd op)) \<and>
     (fst op = ws \<longrightarrow> same_window w (usage_window (sub_of subs ws) (fst (snd op))))"

lemma live_usage_same: "same_window w w' \<Longrightarrow> live_usage_where ws w = live_usage_where ws w'"
  by (simp add: fun_eq_iff live_usage_where_def usage_where_def in_window_def same_window_def)

lemma live_chat_same: "same_window w w' \<Longrightarrow> live_chat_where ws w = live_chat_where ws w'"
  by (simp add: fun_eq_iff live_chat_where_def in_window_def same_window_def)

lemma used_same:
  assumes "same_window w w'"
  shows "used_units ws w L = used_units ws w' L" "used_audio ws w L = used_audio ws w' L"
    "used_questions ws w L = used_questions ws w' L"
  by (simp_all add: used_units_def used_audio_def used_questions_def live_usage_same [OF assms] live_chat_same [OF assms])

lemma grants_sums:
  assumes g: "grants ws' key kind secs start L L'"
  shows "used_units ws w L' =
      used_units ws w L + (if ws' = ws \<and> kind = units_kind \<and> in_window w start then 1 else 0)"
    and "used_audio ws w L' =
      used_audio ws w L + (if ws' = ws \<and> kind = units_kind \<and> in_window w start then secs else 0)"
    and "used_questions ws w L' =
      used_questions ws w L + (if ws' = ws \<and> kind = chat_kind \<and> in_window w start then 1 else 0)"
proof -
  from g obtain row where row: "ue_workspace row = ws'" "ue_key row = key" "ue_kind row = kind"
      "ue_units row = 1" "ue_audio row = secs" "ue_period_start row = start"
    and sums: "\<And>g p. (\<forall>e. p e \<longrightarrow> 0 < ue_units e) \<Longrightarrow> sum_rows g p L' = (if p row then g row else 0) + sum_rows g p L"
    unfolding grants_def by blast
  have l: "\<forall>e. live_usage_where ws w e \<longrightarrow> 0 < ue_units e" "\<forall>e. live_chat_where ws w e \<longrightarrow> 0 < ue_units e"
    by (simp_all add: live_usage_where_def live_chat_where_def)
  have lr: "live_usage_where ws w row \<longleftrightarrow> ws' = ws \<and> kind = units_kind \<and> in_window w start"
    "live_chat_where ws w row \<longleftrightarrow> ws' = ws \<and> kind = chat_kind \<and> in_window w start"
    using row by (auto simp: live_usage_where_def usage_where_def live_chat_where_def)
  show "used_units ws w L' =
      used_units ws w L + (if ws' = ws \<and> kind = units_kind \<and> in_window w start then 1 else 0)"
    using sums [OF l(1), of ue_units] row(4) by (simp add: used_units_def lr)
  show "used_audio ws w L' =
      used_audio ws w L + (if ws' = ws \<and> kind = units_kind \<and> in_window w start then secs else 0)"
    using sums [OF l(1), of ue_audio] row(5) by (simp add: used_audio_def lr)
  show "used_questions ws w L' =
      used_questions ws w L + (if ws' = ws \<and> kind = chat_kind \<and> in_window w start then 1 else 0)"
    using sums [OF l(2), of ue_units] row(4) by (simp add: used_questions_def lr)
qed

lemma release_sums_le:
  assumes "ledger_ok L"
    and q: "\<And>e. q e \<Longrightarrow> 0 < ue_units e"
    and g: "\<And>e. row_ok e \<Longrightarrow> 0 \<le> g e"
  shows "sum_rows g q (update_rows p (\<lambda>e. e\<lparr>ue_units := 0, ue_released := t\<rparr>) L) \<le> sum_rows g q L"
  unfolding sum_rows_update
proof (rule sum_rows_mono)
  fix e assume "e \<in> set L"
  then have "0 \<le> g e" using assms(1) g by (simp add: ledger_ok_def)
  then show "(if if p e then q (e\<lparr>ue_units := 0, ue_released := t\<rparr>) else q e
      then if p e then g (e\<lparr>ue_units := 0, ue_released := t\<rparr>) else g e else 0) \<le> (if q e then g e else 0)"
    using q [of "e\<lparr>ue_units := 0, ue_released := t\<rparr>"] by auto
qed

lemma release_within:
  fixes p :: "usage_entry \<Rightarrow> bool" and t :: "millis option"
  assumes "ledger_ok L" "within_plan subs ws w L"
  defines "L' \<equiv> update_rows p (\<lambda>e. e\<lparr>ue_units := 0, ue_released := t\<rparr>) L"
  shows "ledger_ok L' \<and> within_plan subs ws w L'"
proof -
  have u: "0 < ue_units e" if "live_usage_where ws w e \<or> live_chat_where ws w e" for e
    using that by (auto simp: live_usage_where_def live_chat_where_def)
  have "ledger_ok L'" unfolding L'_def
    by (rule ledger_ok_update [OF assms(1)]) (use assms(1) in \<open>auto simp: ledger_ok_def row_ok_def\<close>)
  moreover have "used_units ws w L' \<le> used_units ws w L" unfolding used_units_def L'_def
    by (rule release_sums_le [OF assms(1)]) (auto simp: row_ok_def u)
  moreover have "used_audio ws w L' \<le> used_audio ws w L" unfolding used_audio_def L'_def
    by (rule release_sums_le [OF assms(1)]) (auto simp: row_ok_def u)
  moreover have "used_questions ws w L' \<le> used_questions ws w L" unfolding used_questions_def L'_def
    by (rule release_sums_le [OF assms(1)]) (auto simp: row_ok_def u)
  ultimately show ?thesis using assms(2) by (auto simp: within_plan_def)
qed

lemma reserve_within:
  assumes res: "reserve_tx now nid ws' key secs subs L = Inr (False, L')"
    and ok: "ledger_ok L" and within: "within_plan subs ws w L"
    and o: "op_ok subs ws w (ws', now, Reserve_Meeting nid key secs)"
  shows "ledger_ok L' \<and> within_plan subs ws w L'"
proof -
  have key: "\<not> is_chat_key key" and secs: "0 \<le> secs" using o by (simp_all add: op_ok_def)
  note r = reserve_tx_granted [OF res ok key secs, folded sub_of_def]
  note s = grants_sums [OF r(5), of ws w]
  have "within_plan subs ws w L'"
  proof (cases "ws' = ws")
    case True
    have sw: "same_window w (usage_window (sub_of subs ws) now)" using o True by (simp add: op_ok_def)
    show ?thesis
      using within s r(2,3) secs True unfolding within_plan_def used_same [OF sw]
      by (cases "0 < secs") auto
  next
    case False
    then show ?thesis using within s by (simp add: within_plan_def)
  qed
  then show ?thesis using r(4) by simp
qed

lemma chat_within:
  assumes res: "reserve_chat_tx now nid ws' (chat_key uuid) subs L = Inr L'"
    and ok: "ledger_ok L" and within: "within_plan subs ws w L"
    and o: "op_ok subs ws w (ws', now, Ask_Question nid uuid)"
  shows "ledger_ok L' \<and> within_plan subs ws w L'"
proof -
  note r = reserve_chat_tx_granted [OF res ok chat_key_is_chat, folded sub_of_def]
  note s = grants_sums [OF r(3), of ws w]
  have "within_plan subs ws w L'"
  proof (cases "ws' = ws")
    case True
    have sw: "same_window w (usage_window (sub_of subs ws) now)" using o True by (simp add: op_ok_def)
    show ?thesis using within s r(1) True unfolding within_plan_def used_same [OF sw] by auto
  next
    case False
    then show ?thesis using within s by (simp add: within_plan_def)
  qed
  then show ?thesis using r(2) by simp
qed

lemma adjust_within:
  assumes res: "adjust_tx now ws' key secs subs L = Inr (b, L')"
    and ok: "ledger_ok L" and within: "within_plan subs ws w L"
    and o: "op_ok subs ws w (ws', now, Adjust_Audio key secs)"
  shows "ledger_ok L' \<and> within_plan subs ws w L'"
proof (cases "L' = L")
  case True
  then show ?thesis using ok within by simp
next
  case False
  have secs: "0 \<le> secs" using o by (simp add: op_ok_def)
  let ?w = "usage_window (sub_of subs ws') now"
  let ?f = "\<lambda>r :: usage_entry. r\<lparr>ue_audio := secs\<rparr>"
  obtain e where e: "entry_at ws' key L = Some e" "0 < ue_units e" "ue_kind e = units_kind"
    and fits: "ue_audio e < secs \<Longrightarrow>
        sum_rows ue_audio (\<lambda>r. live_usage_where ws' ?w r \<and> ue_id r \<noteq> ue_id e) L + secs \<le>
        plan_audio_seconds (plan_of (sub_of subs ws'))"
    and L': "L' = update_rows (\<lambda>r. ue_id r = ue_id e) ?f L"
    using res False by (auto simp: adjust_tx_def Let_def sub_of_def not_le split: option.splits if_splits)
  note m = entry_at_SomeD [OF e(1)]
  note upd = sum_update_by_id [OF ok, of e _ _ ?f] and spl = sum_split_by_id [OF ok, of e]
  have lv: "live_usage_where ws w (?f r) = live_usage_where ws w r"
    "live_chat_where ws w (?f r) = live_chat_where ws w r" for r
    by (simp_all add: live_usage_where_def usage_where_def live_chat_where_def)
  have ok': "ledger_ok L'" unfolding L'
    using secs by (intro ledger_ok_update [OF ok]) (use ok in \<open>auto simp: ledger_ok_def row_ok_def\<close>)
  have mem: "e \<in> set L" using m by simp
  have same: "sum_rows ue_units q L' = sum_rows ue_units q L" if "\<And>r. q (?f r) = q r" for q
    using upd [OF mem, of ue_units q] spl [OF mem, of ue_units q] that [of e] unfolding L' by simp
  have u: "used_units ws w L' = used_units ws w L" "used_questions ws w L' = used_questions ws w L"
    unfolding used_units_def used_questions_def by (rule same, rule lv)+
  have a: "used_audio ws w L' = used_audio ws w L + (if live_usage_where ws w e then secs - ue_audio e else 0)"
    using upd [OF mem, of ue_audio "live_usage_where ws w"] spl [OF mem, of ue_audio "live_usage_where ws w"]
      lv(1) [of e] unfolding used_audio_def L' by simp
  have "used_audio ws w L' \<le> plan_audio_seconds (plan_of (sub_of subs ws))"
  proof (cases "live_usage_where ws w e \<and> ue_audio e < secs")
    case True
    then have "ws' = ws" using m by (auto simp: live_usage_where_def usage_where_def)
    with o have sw: "same_window w ?w" by (simp add: op_ok_def)
    have "used_audio ws w L' =
        secs + sum_rows ue_audio (\<lambda>r. live_usage_where ws w r \<and> ue_id r \<noteq> ue_id e) L"
      using upd [OF mem, of ue_audio "live_usage_where ws w"] lv(1) [of e] True
      unfolding used_audio_def L' by simp
    then show ?thesis using fits True \<open>ws' = ws\<close> live_usage_same [OF sw] by simp
  next
    case no: False
    then show ?thesis using a within by (auto simp: within_plan_def)
  qed
  then show ?thesis using ok' u within by (simp add: within_plan_def)
qed

lemma ledger_step_within:
  assumes "ledger_ok L \<and> within_plan subs ws w L" "op_ok subs ws w op"
  shows "ledger_ok (ledger_step subs op L) \<and> within_plan subs ws w (ledger_step subs op L)"
proof -
  obtain ws' now a where op: "op = (ws', now, a)" by (cases op)
  show ?thesis
  proof (cases a)
    case (Reserve_Meeting nid key secs)
    then show ?thesis using assms op reserve_within [of now nid ws' key secs subs L]
      by (auto simp: reserve_tx_def Let_def split: sum.splits prod.splits if_splits option.splits)
  next
    case (Release_Meeting key)
    then show ?thesis using assms op release_within
      by (auto simp: release_meeting_processing_def)
  next
    case (Adjust_Audio key secs)
    then show ?thesis using assms op adjust_within [of now ws' key secs subs L]
      by (auto split: sum.splits)
  next
    case (Ask_Question nid uuid)
    then show ?thesis using assms op chat_within [of now nid ws' uuid subs L]
      by (auto split: sum.splits)
  next
    case (Release_Question key)
    then show ?thesis using assms op release_within
      by (auto simp: release_chat_question_def)
  qed
qed

interpretation ledger: invariant_machine "ledger_step subs"
    "\<lambda>L. ledger_ok L \<and> within_plan subs ws w L" "op_ok subs ws w"
  for subs ws w
  by unfold_locales (rule ledger_step_within)

definition ws_key_free :: "ident \<Rightarrow> string \<Rightarrow> usage_entry list \<Rightarrow> bool" where
  "ws_key_free ws key L \<longleftrightarrow> entry_at ws key L = None"

lemma reserve_tx_no_conflict:
  "reserve_tx now nid ws key secs subs L = Inl e \<Longrightarrow> \<not> is_serialization_conflict e"
  by (auto simp: reserve_tx_def Let_def create_entry_def is_serialization_conflict_def
      split: if_splits option.splits sum.splits) (auto simp: unique_violation_def)

lemma release_as_update:
  assumes ok: "ledger_ok L" and e: "entry_at ws key L = Some e" and k: "ue_kind e = units_kind" "0 < ue_units e"
  shows "release_meeting_processing now ws key L =
    update_rows (\<lambda>r. ue_id r = ue_id e) (\<lambda>r. r\<lparr>ue_units := 0, ue_released := Some now\<rparr>) L"
proof -
  note m = entry_at_SomeD [OF e]
  have "(ue_workspace r = ws \<and> ue_key r = key \<and> ue_kind r = units_kind \<and> 0 < ue_units r) = (ue_id r = ue_id e)"
    if "r \<in> set L" for r
    using that m k ok unique_onD [of ue_id L r e] unique_onD [of ledger_key L r e]
    by (auto simp: ledger_ok_def)
  then show ?thesis unfolding release_meeting_processing_def by (intro update_rows_cong) auto
qed

lemma release_after_grant:
  fixes later :: millis
  assumes ok: "ledger_ok L'" and g: "grants ws key units_kind secs start L L'"
  defines "L'' \<equiv> release_meeting_processing later ws key L'"
  shows "used_units ws' w L'' = used_units ws' w L \<and> used_audio ws' w L'' = used_audio ws' w L \<and>
    used_questions ws' w L'' = used_questions ws' w L \<and>
    (\<exists>row. entry_at ws key L'' = Some row \<and> ue_units row = 0 \<and> ue_released row = Some later)"
proof -
  let ?f = "\<lambda>r :: usage_entry. r\<lparr>ue_units := 0, ue_released := Some later\<rparr>"
  from g obtain row where row: "entry_at ws key L' = Some row" "ue_kind row = units_kind" "ue_units row = 1"
    and sums: "\<And>g p. (\<forall>e. p e \<longrightarrow> 0 < ue_units e) \<Longrightarrow> sum_rows g p L' = (if p row then g row else 0) + sum_rows g p L"
    unfolding grants_def by blast
  note m = entry_at_SomeD [OF row(1)]
  have back_form: "L'' = update_rows (\<lambda>r. ue_id r = ue_id row) ?f L'"
    unfolding L''_def using release_as_update [OF ok row(1,2)] row(3) by simp
  have restored: "sum_rows g q L'' = sum_rows g q L" if live: "\<forall>e. q e \<longrightarrow> 0 < ue_units e" for g q
  proof -
    have "\<not> q (?f row)" using live by fastforce
    then show ?thesis
      using sum_update_by_id [OF ok, of row g q ?f] sum_split_by_id [OF ok, of row g q] m sums [OF live, of g]
      unfolding back_form by simp
  qed
  have "entry_at ws key L'' = Some (?f row)"
    unfolding back_form using find_after_update_by_id [OF ok, of row ?f] m by simp
  then show ?thesis unfolding used_units_def used_audio_def used_questions_def
    by (auto intro!: restored simp: live_usage_where_def live_chat_where_def)
qed

subsection \<open>Properties\<close>

text \<open>A workspace on a trial, used to exhibit that the hypotheses below can hold.\<close>

definition sample_subs :: "subscription list" where
  "sample_subs = assign_hosted_trial ''w'' []"

definition sample_ops :: "ledger_op list" where
  "sample_ops =
     [(''w'', 1000, Reserve_Meeting ''r1'' ''k1'' 600), (''w'', 2000, Release_Meeting ''k1''),
      (''w'', 3000, Reserve_Meeting ''r2'' ''k1'' 700), (''w'', 4000, Adjust_Audio ''k1'' 900),
      (''w'', 5000, Ask_Question ''r3'' ''u''), (''v'', 6000, Reserve_Meeting ''r4'' ''k2'' 5)]"

definition sample_row :: usage_entry where
  "sample_row = \<lparr>ue_id = ''r'', ue_workspace = ''w'', ue_period_start = 0, ue_kind = units_kind,
     ue_units = 1, ue_audio = 60, ue_key = ''k'', ue_released = None\<rparr>"

definition sample_conflict :: thrown where
  "sample_conflict = \<lparr>th_code = None, th_name = Some ''DriverAdapterError'',
     th_message = Some ''TransactionWriteConflict''\<rparr>"

text \<open>
  C1 The ledger never oversubscribes a plan. From a ledger inside the plan, every sequence of
  meeting reservations, releases, audio adjustments, questions and question releases, of this
  and other workspaces in any order, leaves the workspace's counted meetings, audio seconds and
  questions of the usage window at or below the limits of its plan, and the table's keys intact.
\<close>

theorem ledger_never_oversubscribes:
  assumes "ledger_ok L" and "within_plan subs ws w L" and "list_all (op_ok subs ws w) ops"
  shows "ledger_ok (fold (ledger_step subs) ops L) \<and> within_plan subs ws w (fold (ledger_step subs) ops L)"
  by (rule ledger.run_inv) (use assms in auto)

theorem ledger_never_oversubscribes_witness:
  "within_plan sample_subs ''w'' (usage_window (sub_of sample_subs ''w'') 0) (fold (ledger_step sample_subs) sample_ops [])"
proof -
  have "ledger_ok []" by (simp add: ledger_ok_def)
  moreover have "within_plan sample_subs ''w'' (usage_window (sub_of sample_subs ''w'') 0) []" by code_simp
  moreover have "list_all (op_ok sample_subs ''w'' (usage_window (sub_of sample_subs ''w'') 0)) sample_ops"
    by code_simp
  ultimately show ?thesis using ledger_never_oversubscribes by blast
qed

text \<open>
  Reservations are idempotent. Once a reservation for a key was granted, repeating it (at any
  time, under any subscription, for any number of seconds) reports that it already holds and
  changes nothing.
\<close>

theorem reserve_idempotent:
  assumes "ledger_ok L" "\<not> is_chat_key key" "0 \<le> secs"
    and "reserve_tx now nid ws key secs subs L = Inr (b, L')"
  shows "reserve_tx now' nid' ws key secs' subs' L' = Inr (True, L')"
proof (cases b)
  case True
  then have "L' = L" "case entry_at ws key L of Some e \<Rightarrow> 0 < ue_units e | None \<Rightarrow> False"
    using assms(4) by (auto simp: reserve_tx_def Let_def split: if_splits option.splits sum.splits)
  then show ?thesis by (simp add: reserve_tx_def)
next
  case False
  with assms(4) have "reserve_tx now nid ws key secs subs L = Inr (False, L')" by simp
  from reserve_tx_granted(5) [OF this assms(1-3)]
  show ?thesis by (auto simp: grants_def reserve_tx_def)
qed

theorem reserve_idempotent_witness:
  "reserve_tx 1000 ''r'' ''w'' ''k'' 60 sample_subs [] = Inr (False, [sample_row]) \<and>
     reserve_tx 9000 ''q'' ''w'' ''k'' 7200 [] [sample_row] = Inr (True, [sample_row])"
proof -
  have "ledger_ok []" "\<not> is_chat_key ''k''" "0 \<le> (60 :: int)" by (simp_all add: ledger_ok_def is_chat_key_def)
  moreover have "reserve_tx 1000 ''r'' ''w'' ''k'' 60 sample_subs [] = Inr (False, [sample_row])"
    by code_simp
  ultimately show ?thesis using reserve_idempotent by blast
qed

text \<open>
  A released reservation gives back exactly what it took. Granting a reservation inside the
  usage window raises the counted meetings by one and the counted audio by its seconds;
  releasing it later restores all three counts of every workspace and window, and keeps the row
  (with zero units) for the key, so that the reservation can be made again.
\<close>

theorem release_restores_quota:
  assumes "ledger_ok L" "\<not> is_chat_key key" "0 \<le> secs"
    and "reserve_tx now nid ws key secs subs L = Inr (False, L')"
  shows "let L'' = release_meeting_processing later ws key L' in
    used_units ws' w L'' = used_units ws' w L \<and> used_audio ws' w L'' = used_audio ws' w L \<and>
    used_questions ws' w L'' = used_questions ws' w L \<and>
    (\<exists>row. entry_at ws key L'' = Some row \<and> ue_units row = 0 \<and> ue_released row = Some later)"
  unfolding Let_def by (rule release_after_grant [OF reserve_tx_granted(4,5) [OF assms(4,1-3)]])

theorem release_restores_quota_witness:
  "used_units ''w'' (usage_window (sub_of sample_subs ''w'') 0)
     (release_meeting_processing 5000 ''w'' ''k'' [sample_row]) = 0 \<and>
   entry_at ''w'' ''k'' (release_meeting_processing 5000 ''w'' ''k'' [sample_row]) \<noteq> None"
proof -
  have h: "ledger_ok []" "\<not> is_chat_key ''k''" "0 \<le> (60 :: int)" by (simp_all add: ledger_ok_def is_chat_key_def)
  have r: "reserve_tx 1000 ''r'' ''w'' ''k'' 60 sample_subs [] = Inr (False, [sample_row])"
    by code_simp
  show ?thesis
    using release_restores_quota [OF h r, of 5000 "''w''" "usage_window (sub_of sample_subs ''w'') 0"]
    by (auto simp: used_units_def Let_def)
qed

text \<open>
  C3 The entitlement payload tells the truth about reserving. For a key without a row,
  \<open>canProcess\<close> is true exactly when a reservation of one second made at the same moment would be
  granted; otherwise the reservation fails with an entitlement error and writes nothing.
\<close>

theorem can_process_iff_reservable:
  assumes "ws_key_free ws key L" "nid \<notin> ue_id ` set L"
  shows "en_can_process (get_entitlements hosted_ai now ws subs L) \<longleftrightarrow>
    (\<exists>L'. reserve_meeting_processing hosted_ai (\<lambda>i. None) (\<lambda>i. now) (\<lambda>i. subs) (\<lambda>i. L) nid ws key 0 (Some 1)
       = Inr (False, L'))"
  using assms
  by (auto simp: get_entitlements_def Let_def reserve_meeting_processing_def retry_from_step
      reservation_attempts_def attempt_tx_def reserve_tx_def ws_key_free_def create_entry_def
      is_serialization_conflict_def)

theorem can_process_iff_reservable_witness:
  "en_can_process (get_entitlements True 1000 ''w'' sample_subs [])"
proof -
  have h: "ws_key_free ''w'' ''k'' []" "''r'' \<notin> ue_id ` set []" by (simp_all add: ws_key_free_def entry_at_def)
  have "reserve_meeting_processing True (\<lambda>i. None) (\<lambda>i. 1000) (\<lambda>i. sample_subs) (\<lambda>i. []) ''r'' ''w'' ''k'' 0 (Some 1)
      = Inr (False, [sample_row\<lparr>ue_audio := 1\<rparr>])"
    by (simp add: reserve_meeting_processing_def reservation_attempts_def retry_from_step attempt_tx_def)
      code_simp
  then show ?thesis using can_process_iff_reservable [OF h, of True 1000 sample_subs] by blast
qed

text \<open>
  Transient conflicts are absorbed. The retry loop around the reservation returns what one of
  its at most eight attempts returned, all earlier attempts having been aborted by a
  serialization conflict; a conflict reaches the caller only when all eight attempts conflicted.
\<close>

theorem reserve_retries_conflicts:
  "\<exists>i < reservation_attempts.
     reserve_meeting_processing True aborts clock subs ledgers nid ws key bytes (Some secs) =
       attempt_tx (aborts i) (reserve_tx (clock i) nid ws key secs (subs i) (ledgers i)) \<and>
     (\<forall>j < i. \<exists>t. aborts j = Some t \<and> is_serialization_conflict (Db_Error t)) \<and>
     (\<forall>e. reserve_meeting_processing True aborts clock subs ledgers nid ws key bytes (Some secs) = Inl e \<and>
        is_serialization_conflict e \<longrightarrow> i = reservation_attempts - 1)"
proof -
  let ?body = "\<lambda>i. attempt_tx (aborts i) (reserve_tx (clock i) nid ws key secs (subs i) (ledgers i))"
  have "0 < reservation_attempts" by (simp add: reservation_attempts_def)
  from retry_from_last [OF this, of ?body] obtain i where i: "i < reservation_attempts"
    "retry_from reservation_attempts 0 ?body = ?body i"
    "\<forall>j<i. \<exists>e. ?body j = Inl e \<and> is_serialization_conflict e"
    "i < reservation_attempts - 1 \<longrightarrow> (\<forall>e. ?body i = Inl e \<longrightarrow> \<not> is_serialization_conflict e)"
    by auto
  have "\<exists>t. aborts j = Some t \<and> is_serialization_conflict (Db_Error t)" if "j < i" for j
    using i(3) that reserve_tx_no_conflict by (fastforce simp: attempt_tx_def split: option.splits)
  moreover have "reserve_meeting_processing True aborts clock subs ledgers nid ws key bytes (Some secs) = ?body i"
    by (simp add: reserve_meeting_processing_def i(2))
  ultimately show ?thesis using i(1,4) by (intro exI [of _ i]) auto
qed

theorem reserve_retries_conflicts_witness:
  "reserve_meeting_processing True (\<lambda>j. if j < 2 then Some sample_conflict else None) (\<lambda>i. 1000)
     (\<lambda>i. sample_subs) (\<lambda>i. []) ''r'' ''w'' ''k'' 0 (Some 60) = Inr (False, [sample_row])"
proof -
  let ?aborts = "\<lambda>j :: nat. if j < 2 then Some sample_conflict else None"
  let ?r = "reserve_meeting_processing True ?aborts (\<lambda>i. 1000) (\<lambda>i. sample_subs) (\<lambda>i. []) ''r'' ''w'' ''k'' 0 (Some 60)"
  have c: "is_serialization_conflict (Db_Error sample_conflict)" by code_simp
  from reserve_retries_conflicts [of ?aborts "\<lambda>i. 1000" "\<lambda>i. sample_subs" "\<lambda>i. []" "''r''" "''w''" "''k''" 0 60]
  obtain i where i: "i < reservation_attempts"
    "?r = attempt_tx (?aborts i) (reserve_tx 1000 ''r'' ''w'' ''k'' 60 sample_subs [])"
    "\<forall>j < i. \<exists>t. ?aborts j = Some t"
    "\<forall>e. ?r = Inl e \<and> is_serialization_conflict e \<longrightarrow> i = reservation_attempts - 1" by blast
  have "\<not> 2 < i" using i(3) by auto
  moreover have "\<not> i < 2" using i(2,4) c by (auto simp: attempt_tx_def reservation_attempts_def)
  ultimately have "i = 2" by simp
  moreover have "reserve_tx 1000 ''r'' ''w'' ''k'' 60 sample_subs [] = Inr (False, [sample_row])" by code_simp
  ultimately show ?thesis using i(2) by (simp add: attempt_tx_def)
qed

text \<open>
  Usage windows are coherent. Whatever the subscription, the usage window at a moment contains
  that moment and the bucket start stored on new ledger rows, so a new row always counts; the
  calendar window is the UTC month of that moment.
\<close>

theorem usage_window_coherent:
  assumes "0 \<le> now"
  shows "in_window (usage_window sub now) now \<and> in_window (usage_window sub now) (uw_entry (usage_window sub now)) \<and>
    (uw_source (usage_window sub now) = Calendar_Month \<longrightarrow>
       uw_start (usage_window sub now) = date_utc (utc_full_year now) (utc_month now))"
  using usage_window_now [OF assms, of sub] usage_window_entry [OF assms, of sub]
  by (cases sub now rule: usage_window_cases) (simp_all add: calendar_month_def)

theorem usage_window_coherent_witness:
  "in_window (usage_window None 1709210096000) (uw_entry (usage_window None 1709210096000)) \<and>
   uw_start (usage_window None 1709210096000) = 1706745600000"
  using usage_window_coherent [of 1709210096000 None] by simp code_simp

end
