(* ===== verification/Auth_Throttle.thy ===== *)
theory Auth_Throttle
  imports Js_Runtime "HOL-Library.Char_ord" "HOL-Library.List_Lexorder"
begin

text \<open>
  Abuse throttling: \<^verbatim>\<open>webapp/src/lib/loginThrottle.ts\<close> over the table \<open>LoginThrottle\<close>,
  the canonical form of email addresses (\<^verbatim>\<open>email.ts\<close>), and the in-memory sliding-window
  limiter of \<^verbatim>\<open>lookupThrottle.ts\<close>.

  Code units below 256 are already in normalization form C, so \<open>normalize("NFC")\<close> is the
  identity on the strings of the model.
\<close>

subsection \<open>Email addresses\<close>

definition normalize_email :: "string \<Rightarrow> string" where
  "normalize_email v = to_lower (trim v)"

definition max_email_length :: nat where
  "max_email_length = 254"

text \<open>\<^verbatim>\<open>/^[^\s@]+@[^\s@.]+(\.[^\s@.]+)+$/\<close>: one \<open>@\<close>, no white space, no empty part, at least one dot after it.\<close>

definition email_shape :: "string \<Rightarrow> bool" where
  "email_shape s \<longleftrightarrow>
     (\<not> list_ex is_js_space s) \<and>
     (case split_on CHR ''@'' s of
        [local_part, host] \<Rightarrow>
          local_part \<noteq> [] \<and> 2 \<le> length (split_on CHR ''.'' host) \<and> list_all (\<lambda>l. l \<noteq> []) (split_on CHR ''.'' host)
      | _ \<Rightarrow> False)"

definition is_plausible_email :: "string \<Rightarrow> bool" where
  "is_plausible_email normalized \<longleftrightarrow> length normalized \<le> max_email_length \<and> email_shape normalized"

subsection \<open>Rules and rows\<close>

record throttle_rule =
  rl_key :: string
  rl_free :: int
  rl_base :: millis
  rl_max :: millis
  rl_window :: millis

record throttle_row =
  tw_key :: string
  tw_failures :: int
  tw_first :: millis
  tw_updated :: millis

record throttle_status =
  ts_blocked :: bool
  ts_retry_after :: millis

definition minute :: millis where
  "minute = 60000"

definition cleanup_age :: millis where
  "cleanup_age = 2 * 60 * minute"

definition cleanup_interval :: millis where
  "cleanup_interval = 60000"

definition delay_for :: "int \<Rightarrow> throttle_rule \<Rightarrow> millis" where
  "delay_for failures rule =
     (if failures \<le> rl_free rule then 0
      else min (rl_base rule * 2 ^ nat (min (failures - rl_free rule - 1) 30)) (rl_max rule))"

text \<open>The loop over the rules keeps the longest remaining wait.\<close>

definition rule_remaining :: "throttle_row list \<Rightarrow> millis \<Rightarrow> throttle_rule \<Rightarrow> millis option" where
  "rule_remaining rows now rule =
     (case find_row (\<lambda>r. tw_key r = rl_key rule) rows of
        None \<Rightarrow> None
      | Some row \<Rightarrow>
          if tw_updated row \<le> now - rl_window rule then None
          else if delay_for (tw_failures row) rule = 0 then None
          else Some (tw_updated row + delay_for (tw_failures row) rule - now))"

fun status_loop :: "throttle_row list \<Rightarrow> millis \<Rightarrow> throttle_rule list \<Rightarrow> millis \<Rightarrow> millis" where
  "status_loop rows now [] retry = retry"
| "status_loop rows now (rule # rules) retry =
     status_loop rows now rules
       (case rule_remaining rows now rule of
          None \<Rightarrow> retry
        | Some remaining \<Rightarrow> if retry < remaining then remaining else retry)"

definition throttle_status :: "throttle_rule list \<Rightarrow> throttle_row list \<Rightarrow> millis \<Rightarrow> throttle_status" where
  "throttle_status rules rows now =
     (if rules = [] then \<lparr>ts_blocked = False, ts_retry_after = 0\<rparr>
      else let retry = status_loop rows now rules 0
           in \<lparr>ts_blocked = (0 < retry), ts_retry_after = retry\<rparr>)"

subsection \<open>Recording a hit\<close>

text \<open>
  \<open>new Map(rules.map(rule => [rule.key, rule]))\<close> keeps one rule per key, the last one given;
  the statement inserts one row per key in key order.
\<close>

fun dedupe_rules :: "throttle_rule list \<Rightarrow> throttle_rule list" where
  "dedupe_rules [] = []"
| "dedupe_rules (r # rs) =
     (if rl_key r \<in> rl_key ` set rs then dedupe_rules rs else r # dedupe_rules rs)"

definition upsert_hit :: "millis \<Rightarrow> throttle_rule \<Rightarrow> throttle_row list \<Rightarrow> throttle_row list" where
  "upsert_hit now rule rows =
     (if find_row (\<lambda>r. tw_key r = rl_key rule) rows = None
      then rows @ [\<lparr>tw_key = rl_key rule, tw_failures = 1, tw_first = now, tw_updated = now\<rparr>]
      else update_rows (\<lambda>r. tw_key r = rl_key rule)
        (\<lambda>r. r\<lparr>tw_failures := (if tw_updated r \<le> now - rl_window rule then 1 else tw_failures r + 1),
               tw_first := (if tw_updated r \<le> now - rl_window rule then now else tw_first r),
               tw_updated := now\<rparr>) rows)"

definition sweep_stale :: "millis \<Rightarrow> throttle_row list \<Rightarrow> throttle_row list" where
  "sweep_stale now rows = delete_rows (\<lambda>r. tw_updated r \<le> now - cleanup_age) rows"

text \<open>The process variable \<open>lastCleanupAt\<close> is the first component of the state.\<close>

definition record_throttle_hit ::
  "throttle_rule list \<Rightarrow> millis \<Rightarrow> millis \<times> throttle_row list \<Rightarrow> millis \<times> throttle_row list" where
  "record_throttle_hit rules now st =
     (let (last_cleanup, rows) = st;
          (last_cleanup, rows) =
            (if cleanup_interval \<le> now - last_cleanup \<or> now < last_cleanup
             then (now, sweep_stale now rows) else (last_cleanup, rows))
      in if rules = [] then (last_cleanup, rows)
         else (last_cleanup, fold (upsert_hit now) (sort_key rl_key (dedupe_rules rules)) rows))"

definition clear_throttle_keys :: "string list \<Rightarrow> throttle_row list \<Rightarrow> throttle_row list" where
  "clear_throttle_keys keys rows =
     (if keys = [] then rows else delete_rows (\<lambda>r. tw_key r \<in> set keys) rows)"

definition plural_suffix :: "int \<Rightarrow> string" where
  "plural_suffix n = (if n = 1 then '''' else ''s'')"

definition format_retry_after :: "millis \<Rightarrow> string" where
  "format_retry_after retry =
     (let seconds = max 1 (ceil_div retry 1000) in
      if seconds < 90 then int_str seconds @ '' second'' @ plural_suffix seconds
      else let minutes = ceil_div seconds 60
           in int_str minutes @ '' minute'' @ plural_suffix minutes)"

subsection \<open>The protected actions\<close>

definition mk_rule :: "string \<Rightarrow> int \<Rightarrow> millis \<Rightarrow> millis \<Rightarrow> millis \<Rightarrow> throttle_rule" where
  "mk_rule key free_attempts base max_delay window =
     \<lparr>rl_key = key, rl_free = free_attempts, rl_base = base, rl_max = max_delay, rl_window = window\<rparr>"

definition login_rules :: "string \<Rightarrow> string option \<Rightarrow> throttle_rule list" where
  "login_rules email ip =
     (let normalized = normalize_email email in
      [mk_rule (''login:email:'' @ normalized) 10 30000 (15 * minute) (30 * minute)] @
      (if truthy ip
       then [mk_rule (''login:pair:'' @ the ip @ ''|'' @ normalized) 5 15000 (15 * minute) (30 * minute),
             mk_rule (''login:ip:'' @ the ip) 30 30000 (15 * minute) (30 * minute)]
       else []))"

definition login_throttle_status :: "string \<Rightarrow> string option \<Rightarrow> throttle_row list \<Rightarrow> millis \<Rightarrow> throttle_status" where
  "login_throttle_status email ip rows now = throttle_status (login_rules email ip) rows now"

definition is_login_throttled :: "string \<Rightarrow> string option \<Rightarrow> throttle_row list \<Rightarrow> millis \<Rightarrow> bool" where
  "is_login_throttled email ip rows now = ts_blocked (login_throttle_status email ip rows now)"

definition record_login_failure ::
  "string \<Rightarrow> string option \<Rightarrow> millis \<Rightarrow> millis \<times> throttle_row list \<Rightarrow> millis \<times> throttle_row list" where
  "record_login_failure email ip now st = record_throttle_hit (login_rules email ip) now st"

definition clear_login_failures :: "string \<Rightarrow> string option \<Rightarrow> throttle_row list \<Rightarrow> throttle_row list" where
  "clear_login_failures email ip rows =
     clear_throttle_keys (filter (\<lambda>k. \<not> prefix ''login:ip:'' k) (map rl_key (login_rules email ip))) rows"

definition signup_rules :: "string option \<Rightarrow> throttle_rule list" where
  "signup_rules ip =
     [mk_rule ''signup:global'' 200 minute (30 * minute) (60 * minute)] @
     (if truthy ip then [mk_rule (''signup:ip:'' @ the ip) 5 (2 * minute) (60 * minute) (60 * minute)] else [])"

definition bootstrap_rules :: "string option \<Rightarrow> throttle_rule list" where
  "bootstrap_rules ip =
     [mk_rule ''bootstrap:global'' 20 minute (30 * minute) (60 * minute)] @
     (if truthy ip then [mk_rule (''bootstrap:ip:'' @ the ip) 5 (2 * minute) (30 * minute) (60 * minute)] else [])"

definition email_request_rules :: "string \<Rightarrow> string \<Rightarrow> string option \<Rightarrow> throttle_rule list" where
  "email_request_rules kind email ip =
     [mk_rule (kind @ '':email:'' @ normalize_email email) 3 (5 * minute) (60 * minute) (60 * minute)] @
     (if truthy ip then [mk_rule (kind @ '':ip:'' @ the ip) 10 (5 * minute) (60 * minute) (60 * minute)] else [])"

subsection \<open>Lemmas\<close>

abbreviation row_at :: "string \<Rightarrow> throttle_row list \<Rightarrow> throttle_row option" where
  "row_at k rows \<equiv> find_row (\<lambda>r. tw_key r = k) rows"

definition counted :: "millis \<Rightarrow> throttle_rule \<Rightarrow> throttle_row option \<Rightarrow> throttle_row" where
  "counted now rule old =
     (case old of
        None \<Rightarrow> \<lparr>tw_key = rl_key rule, tw_failures = 1, tw_first = now, tw_updated = now\<rparr>
      | Some r \<Rightarrow> r\<lparr>tw_failures := (if tw_updated r \<le> now - rl_window rule then 1 else tw_failures r + 1),
                    tw_first := (if tw_updated r \<le> now - rl_window rule then now else tw_first r),
                    tw_updated := now\<rparr>)"

lemma row_at_upsert:
  "row_at k (upsert_hit now rule rows) =
     (if k = rl_key rule then Some (counted now rule (row_at k rows)) else row_at k rows)"
  by (auto simp: upsert_hit_def counted_def find_row_append find_row_update_key split: option.split)

lemma row_at_fold_upsert:
  "distinct (map rl_key rules) \<Longrightarrow>
   row_at k (fold (upsert_hit now) rules rows) =
     (case find (\<lambda>r. rl_key r = k) rules of
        None \<Rightarrow> row_at k rows | Some rule \<Rightarrow> Some (counted now rule (row_at k rows)))"
proof (induction rules arbitrary: rows)
  case Nil
  then show ?case by simp
next
  case (Cons r rs)
  then have "find (\<lambda>x. rl_key x = k) rs = None" if "rl_key r = k"
    using that by (auto simp: find_None_iff image_iff)
  with Cons show ?case by (auto simp: row_at_upsert split: option.splits)
qed

lemma dedupe_rules_distinct: "distinct (map rl_key (dedupe_rules rules))"
proof -
  have "rl_key ` set (dedupe_rules rs) = rl_key ` set rs" for rs
    by (induction rs) auto
  then show ?thesis by (induction rules) auto
qed

lemma dedupe_rules_id: "distinct (map rl_key rules) \<Longrightarrow> dedupe_rules rules = rules"
  by (induction rules) auto

lemma find_perm:
  assumes "distinct (map rl_key rules)"
  shows "find (\<lambda>r. rl_key r = k) (sort_key rl_key rules) = find (\<lambda>r. rl_key r = k) rules"
proof (cases "find (\<lambda>r. rl_key r = k) rules")
  case None
  then have "\<not> (\<exists>x. x \<in> set (sort_key rl_key rules) \<and> rl_key x = k)" by (auto simp: find_None_iff)
  then have "find (\<lambda>r. rl_key r = k) (sort_key rl_key rules) = None" unfolding find_None_iff by simp
  with None show ?thesis by simp
next
  case (Some r)
  then have r: "r \<in> set rules" "rl_key r = k" by (auto simp: find_Some_iff)
  then obtain r' where r': "find (\<lambda>r. rl_key r = k) (sort_key rl_key rules) = Some r'"
    by (cases "find (\<lambda>r. rl_key r = k) (sort_key rl_key rules)") (auto simp: find_None_iff)
  then have "r' \<in> set (sort_key rl_key rules)" "rl_key r' = k"
    by (auto simp: find_Some_iff simp del: set_sort)
  then have "r' = r" using assms r by (auto simp: distinct_map dest: inj_onD)
  with r' Some show ?thesis by simp
qed

lemma row_at_record:
  assumes "distinct (map rl_key rules)"
  shows "\<exists>base. (base = snd st \<or> base = sweep_stale now (snd st)) \<and>
    (\<forall>k. row_at k (snd (record_throttle_hit rules now st)) =
       (case find (\<lambda>r. rl_key r = k) rules of
          None \<Rightarrow> row_at k base | Some rule \<Rightarrow> Some (counted now rule (row_at k base))))"
proof -
  define base where "base = (if cleanup_interval \<le> now - fst st \<or> now < fst st
      then sweep_stale now (snd st) else snd st)"
  then have b: "base = snd st \<or> base = sweep_stale now (snd st)" by simp
  have "snd (record_throttle_hit rules now st) =
      (if rules = [] then base else fold (upsert_hit now) (sort_key rl_key rules) base)"
    by (cases st) (simp add: record_throttle_hit_def base_def Let_def dedupe_rules_id [OF assms])
  moreover have "distinct (map rl_key (sort_key rl_key rules))"
    using assms by (simp add: distinct_map)
  ultimately show ?thesis
    by (intro exI [of _ base]) (auto simp: row_at_fold_upsert find_perm [OF assms] b)
qed

lemma find_member:
  "distinct (map rl_key rules) \<Longrightarrow> rule \<in> set rules \<Longrightarrow> find (\<lambda>r. rl_key r = rl_key rule) rules = Some rule"
  by (induction rules) (auto simp: image_iff)

text \<open>The rows are unique by their key; sweeping drops only rows no rule would look at.\<close>

lemma row_at_sweep:
  assumes "unique_on tw_key rows"
  shows "row_at k (sweep_stale now rows) =
    (case row_at k rows of None \<Rightarrow> None
     | Some r \<Rightarrow> if tw_updated r \<le> now - cleanup_age then None else Some r)"
proof -
  have u: "unique_on tw_key (sweep_stale now rows)" unfolding sweep_stale_def
    by (rule unique_on_delete) (rule assms)
  show ?thesis
  proof (cases "row_at k rows")
    case None
    then have "row_at k (sweep_stale now rows) = None"
      by (simp add: find_row_None_iff sweep_stale_def)
    with None show ?thesis by simp
  next
    case (Some r)
    then have r: "r \<in> set rows" "tw_key r = k" using find_row_key_iff [OF assms] by auto
    have n: "x = r" if "x \<in> set rows" "tw_key x = k" for x
      by (rule unique_onD [OF assms that(1) r(1)]) (simp add: that(2) r(2))
    have "row_at k (sweep_stale now rows) = Some r" if "\<not> tw_updated r \<le> now - cleanup_age"
      unfolding find_row_key_iff [OF u] using that r by (simp add: sweep_stale_def)
    moreover have "row_at k (sweep_stale now rows) = None" if "tw_updated r \<le> now - cleanup_age"
      using that r(2) by (auto simp: find_row_None_iff sweep_stale_def dest: n)
    ultimately show ?thesis using Some by simp
  qed
qed

lemma rule_remaining_sweep:
  assumes "unique_on tw_key rows" "now \<le> later" "rl_window rule \<le> cleanup_age"
  shows "rule_remaining (sweep_stale now rows) later rule = rule_remaining rows later rule"
  using assms by (auto simp: rule_remaining_def row_at_sweep split: option.splits)

lemma status_loop_ge: "retry \<le> status_loop rows now rules retry"
proof (induction rules arbitrary: retry)
  case Nil
  then show ?case by simp
next
  case (Cons r rs)
  have "retry \<le> (case rule_remaining rows now r of None \<Rightarrow> retry
      | Some remaining \<Rightarrow> if retry < remaining then remaining else retry)"
    by (simp split: option.split)
  also have "\<dots> \<le> status_loop rows now (r # rs) retry" using Cons.IH by simp
  finally show ?case .
qed

lemma status_loop_member:
  "rule \<in> set rules \<Longrightarrow> rule_remaining rows now rule = Some rem \<Longrightarrow> rem \<le> status_loop rows now rules retry"
proof (induction rules arbitrary: retry)
  case Nil
  then show ?case by simp
next
  case (Cons r rs)
  then show ?case
    by (auto split: option.split intro: order_trans [OF _ status_loop_ge] simp: not_less)
qed

lemma status_loop_cases:
  "status_loop rows now rules retry = retry \<or>
   (\<exists>rule \<in> set rules. rule_remaining rows now rule = Some (status_loop rows now rules retry))"
proof (induction rules arbitrary: retry)
  case Nil
  then show ?case by simp
next
  case (Cons r rs)
  let ?next = "case rule_remaining rows now r of None \<Rightarrow> retry
      | Some remaining \<Rightarrow> if retry < remaining then remaining else retry"
  have "?next = retry \<or> rule_remaining rows now r = Some ?next" by (auto split: option.split)
  with Cons.IH [of ?next] show ?case by auto
qed

lemma status_loop_cong:
  "(\<And>rule. rule \<in> set rules \<Longrightarrow> rule_remaining rows now rule = rule_remaining rows' now rule) \<Longrightarrow>
   status_loop rows now rules retry = status_loop rows' now rules retry"
  by (induction rules arbitrary: retry) auto

lemma blocked_iff:
  "ts_blocked (throttle_status rules rows now) \<longleftrightarrow>
     (\<exists>rule \<in> set rules. \<exists>rem. rule_remaining rows now rule = Some rem \<and> 0 < rem)"
proof (cases "rules = []")
  case True
  then show ?thesis by (simp add: throttle_status_def)
next
  case False
  have "0 < status_loop rows now rules 0 \<longleftrightarrow>
      (\<exists>rule \<in> set rules. \<exists>rem. rule_remaining rows now rule = Some rem \<and> 0 < rem)"
    (is "?l \<longleftrightarrow> ?r")
  proof
    assume ?l
    then show ?r using status_loop_cases [of rows now rules 0] by auto
  next
    assume ?r
    then obtain rule rem where "rule \<in> set rules" "rule_remaining rows now rule = Some rem" "0 < rem" by blast
    then show ?l using status_loop_member [of rule rules rows now rem 0] by linarith
  qed
  with False show ?thesis by (simp add: throttle_status_def Let_def)
qed

lemma delay_for_nonneg: "0 \<le> rl_base rule \<Longrightarrow> 0 \<le> rl_max rule \<Longrightarrow> 0 \<le> delay_for n rule"
  by (simp add: delay_for_def)

lemma delay_for_mono:
  assumes "0 \<le> rl_base rule" "0 \<le> rl_max rule" "m \<le> n"
  shows "delay_for m rule \<le> delay_for n rule"
proof (cases "m \<le> rl_free rule")
  case True
  then show ?thesis using assms delay_for_nonneg by (simp add: delay_for_def)
next
  case False
  have "(2::int) ^ nat (min (m - rl_free rule - 1) 30) \<le> 2 ^ nat (min (n - rl_free rule - 1) 30)"
    using assms(3) by (intro power_increasing nat_mono) auto
  then have "rl_base rule * 2 ^ nat (min (m - rl_free rule - 1) 30) \<le> rl_base rule * 2 ^ nat (min (n - rl_free rule - 1) 30)"
    using assms(1) by (rule mult_left_mono)
  then show ?thesis using False assms(3) by (auto simp: delay_for_def)
qed

lemma rule_windows:
  "rule \<in> set (login_rules email ip) \<Longrightarrow> rl_window rule = 30 * minute"
  "rule \<in> set (signup_rules ip) \<Longrightarrow> rl_window rule = 60 * minute"
  "rule \<in> set (bootstrap_rules ip) \<Longrightarrow> rl_window rule = 60 * minute"
  "rule \<in> set (email_request_rules kind email ip) \<Longrightarrow> rl_window rule = 60 * minute"
  by (auto simp: login_rules_def signup_rules_def bootstrap_rules_def email_request_rules_def mk_rule_def
      Let_def split: if_splits)

lemma login_rules_distinct: "distinct (map rl_key (login_rules email ip))"
  by (auto simp: login_rules_def Let_def mk_rule_def)

text \<open>After a hit, each of the hit's rules is active until its delay or its window runs out.\<close>

lemma hit_blocks:
  assumes d: "distinct (map rl_key rules)" and r: "rule \<in> set rules" "rule \<in> set rules'"
    and row: "row_at (rl_key rule) (snd (record_throttle_hit rules now st)) = Some row"
    and t: "now \<le> later" "later < now + rl_window rule" "later < now + delay_for (tw_failures row) rule"
  shows "ts_blocked (throttle_status rules' (snd (record_throttle_hit rules now st)) later)"
proof -
  have "tw_updated row = now"
    using row_at_record [OF d, of st now] row find_member [OF d r(1)]
    by (auto simp: counted_def split: option.splits)
  then have "rule_remaining (snd (record_throttle_hit rules now st)) later rule =
      Some (now + delay_for (tw_failures row) rule - later)"
    using row t by (auto simp: rule_remaining_def)
  then show ?thesis using r(2) t(3) unfolding blocked_iff by force
qed

end
