(* ===== verification/Throttle_Properties.thy ===== *)
theory Throttle_Properties
  imports Auth_Throttle
begin

text \<open>
  What the sign-in throttle guarantees: each failure counts once for each of its budgets and
  sweeping old rows never changes a decision; guesses of one machine at one account are spaced
  by the escalating delay; a correct password clears the account's budgets and never the shared
  one of the address; one mailbox has one budget.
\<close>

lemma find_row_delete_keep:
  "find_row p rows = Some r \<Longrightarrow> \<not> q r \<Longrightarrow> find_row p (delete_rows q rows) = Some r"
  by (induction rows) (auto split: if_splits)

lemma row_after_hit:
  assumes "distinct (map rl_key rules)" "rule \<in> set rules"
  shows "\<exists>base. (base = snd st \<or> base = sweep_stale now (snd st)) \<and>
    row_at (rl_key rule) (snd (record_throttle_hit rules now st)) = Some (counted now rule (row_at (rl_key rule) base))"
  using row_at_record [OF assms(1), of st now] find_member [OF assms] by fastforce

lemma counted_fields:
  "tw_updated (counted now rule old) = now"
  "tw_failures (counted now rule old) =
     (case old of None \<Rightarrow> 1 | Some r \<Rightarrow> if tw_updated r \<le> now - rl_window rule then 1 else tw_failures r + 1)"
  by (simp_all add: counted_def split: option.split)

text \<open>
  Every hit counts exactly once. Recording a hit raises the counter of each of its rules by
  one (or restarts it at one after an idle window) and stamps it with the present; no budget of
  another key is changed for any later check, although stale rows may be swept on the way.
\<close>

theorem hit_counts_once:
  assumes "unique_on tw_key rows" and "distinct (map rl_key rules)" and "rule \<in> set rules"
    and "rl_window rule \<le> cleanup_age"
  shows "(\<exists>row. row_at (rl_key rule) (snd (record_throttle_hit rules now (last_sweep, rows))) = Some row \<and>
      tw_updated row = now \<and>
      tw_failures row = (case row_at (rl_key rule) rows of None \<Rightarrow> 1
        | Some r \<Rightarrow> if tw_updated r \<le> now - rl_window rule then 1 else tw_failures r + 1)) \<and>
    (\<forall>other later. rl_key other \<notin> rl_key ` set rules \<and> rl_window other \<le> cleanup_age \<and> now \<le> later \<longrightarrow>
      rule_remaining (snd (record_throttle_hit rules now (last_sweep, rows))) later other = rule_remaining rows later other)"
    (is "?counted \<and> ?others")
proof
  let ?st = "(last_sweep, rows)"
  obtain base where base: "base = rows \<or> base = sweep_stale now rows"
    and k: "\<And>k. row_at k (snd (record_throttle_hit rules now ?st)) =
       (case find (\<lambda>r. rl_key r = k) rules of
          None \<Rightarrow> row_at k base | Some rule \<Rightarrow> Some (counted now rule (row_at k base)))"
    using row_at_record [OF assms(2), of ?st now] by auto
  have "row_at (rl_key rule) base = row_at (rl_key rule) rows \<or>
      (row_at (rl_key rule) base = None \<and>
       (\<forall>r. row_at (rl_key rule) rows = Some r \<longrightarrow> tw_updated r \<le> now - rl_window rule))"
    using base row_at_sweep [OF assms(1), of "rl_key rule" now] assms(4) by (auto split: option.splits if_splits)
  then show ?counted
    unfolding k find_member [OF assms(2,3)] by (auto simp: counted_fields split: option.splits)
  have "rule_remaining (snd (record_throttle_hit rules now ?st)) later other = rule_remaining rows later other"
    if other: "rl_key other \<notin> rl_key ` set rules" "rl_window other \<le> cleanup_age" "now \<le> later" for other later
  proof -
    have "\<not> (\<exists>x. x \<in> set rules \<and> rl_key x = rl_key other)" using other(1) by (auto simp: image_iff)
    then have "find (\<lambda>r. rl_key r = rl_key other) rules = None" unfolding find_None_iff by simp
    then have "rule_remaining (snd (record_throttle_hit rules now ?st)) later other = rule_remaining base later other"
      by (simp add: rule_remaining_def k)
    then show ?thesis using base rule_remaining_sweep [OF assms(1) other(3,2)] by auto
  qed
  then show ?others by blast
qed

theorem hit_counts_once_witness:
  "\<exists>row. row_at ''login:email:a@b.co'' (snd (record_throttle_hit (login_rules '' A@b.co'' None) 100 (0, []))) = Some row \<and>
     tw_failures row = 1"
proof -
  have r: "mk_rule ''login:email:a@b.co'' 10 30000 (15 * minute) (30 * minute) \<in> set (login_rules '' A@b.co'' None)"
    by code_simp
  have u: "unique_on tw_key []" by simp
  have w: "rl_window (mk_rule ''login:email:a@b.co'' 10 30000 (15 * minute) (30 * minute)) \<le> cleanup_age" by code_simp
  from hit_counts_once [OF u login_rules_distinct r w, of 100 0]
  show ?thesis by (simp add: mk_rule_def) blast
qed

subsection \<open>Guessing\<close>

definition pair_rule :: "string \<Rightarrow> string \<Rightarrow> throttle_rule" where
  "pair_rule email ip =
     mk_rule (''login:pair:'' @ ip @ ''|'' @ normalize_email email) 5 15000 (15 * minute) (30 * minute)"

text \<open>
  Attempts at one account that all fail, each with the address it comes from (if the request shows
  one) and its time, and each made only while the throttle lets it.
\<close>

fun guess_run :: "string \<Rightarrow> (string option \<times> millis) list \<Rightarrow> millis \<times> throttle_row list \<Rightarrow> bool" where
  "guess_run email [] st = True"
| "guess_run email ((ip, t) # gs) st =
     (\<not> is_login_throttled email ip (snd st) t \<and> guess_run email gs (record_login_failure email ip t st))"

text \<open>Consecutive attempts less than the counter's idle window of half an hour apart.\<close>

fun keeps_going :: "millis list \<Rightarrow> bool" where
  "keeps_going (t # u # us) = (t \<le> u \<and> u < t + 30 * minute \<and> keeps_going (u # us))"
| "keeps_going ts = True"

text \<open>The attempt after \<open>n\<close> failures waits the delay for \<open>n\<close> failures, the next one that for \<open>n + 1\<close>, and so on.\<close>

fun spaced :: "throttle_rule \<Rightarrow> int \<Rightarrow> millis \<Rightarrow> millis list \<Rightarrow> bool" where
  "spaced rule n t [] = True"
| "spaced rule n t (u # us) = (t + delay_for n rule \<le> u \<and> spaced rule (n + 1) u us)"

lemma spaced_nth: "spaced rule n t us \<Longrightarrow> i < length us \<Longrightarrow> (t # us) ! i + delay_for (n + int i) rule \<le> us ! i"
proof (induction us arbitrary: n t i)
  case (Cons u us)
  show ?case
  proof (cases i)
    case (Suc k)
    with Cons.IH [of "n + 1" u k] Cons.prems show ?thesis by (simp add: add.assoc)
  qed (use Cons.prems in simp)
qed simp

text \<open>The two budgets of the account: whoever asks, and asked from one address.\<close>

lemma email_rule_member: "mk_rule (''login:email:'' @ normalize_email email) 10 30000 (15 * minute) (30 * minute) \<in> set (login_rules email ip)"
  by (simp add: login_rules_def Let_def)

lemma pair_rule_member: "ip \<noteq> [] \<Longrightarrow> pair_rule email ip \<in> set (login_rules email (Some ip))"
  by (simp add: pair_rule_def login_rules_def Let_def truthy_def)

lemma login_rule_fields:
  "rule \<in> set (login_rules email ip) \<Longrightarrow> 0 \<le> rl_base rule \<and> 0 \<le> rl_max rule \<and> rl_window rule = 30 * minute"
  by (auto simp: login_rules_def Let_def mk_rule_def minute_def split: if_splits)

lemma unthrottled_waits:
  assumes rule: "rule \<in> set (login_rules email ip)" and free: "\<not> is_login_throttled email ip rows u"
    and row: "row_at (rl_key rule) rows = Some row" "n \<le> tw_failures row"
    and u: "tw_updated row \<le> u" "u < tw_updated row + 30 * minute"
  shows "tw_updated row + delay_for n rule \<le> u"
proof (rule ccontr)
  note fields = login_rule_fields [OF rule]
  have d: "delay_for n rule \<le> delay_for (tw_failures row) rule" "0 \<le> delay_for (tw_failures row) rule"
    using fields row(2) by (auto intro!: delay_for_mono delay_for_nonneg)
  assume "\<not> tw_updated row + delay_for n rule \<le> u"
  then have pos: "u < tw_updated row + delay_for (tw_failures row) rule" using d by linarith
  then have "rule_remaining rows u rule = Some (tw_updated row + delay_for (tw_failures row) rule - u)"
    using row u fields by (auto simp: rule_remaining_def)
  then have "ts_blocked (throttle_status (login_rules email ip) rows u)"
    unfolding blocked_iff using pos rule by fastforce
  then show False using free by (simp add: is_login_throttled_def login_throttle_status_def)
qed

lemma failure_counts:
  assumes rule: "rule \<in> set (login_rules email ip)"
    and row: "row_at (rl_key rule) (snd st) = Some row"
    and u: "tw_updated row \<le> u" "u < tw_updated row + 30 * minute"
  shows "\<exists>row'. row_at (rl_key rule) (snd (record_login_failure email ip u st)) = Some row' \<and>
    tw_updated row' = u \<and> tw_failures row' = tw_failures row + 1"
proof -
  have "\<not> tw_updated row \<le> u - cleanup_age" using u by (simp add: cleanup_age_def minute_def)
  then have keep: "row_at (rl_key rule) (sweep_stale u (snd st)) = Some row"
    unfolding sweep_stale_def by (rule find_row_delete_keep [OF row])
  from row_after_hit [OF login_rules_distinct rule, of st u]
  have "row_at (rl_key rule) (snd (record_login_failure email ip u st)) = Some (counted u rule (Some row))"
    using row keep by (auto simp: record_login_failure_def)
  then show ?thesis using u login_rule_fields [OF rule] by (simp add: counted_fields)
qed

lemma guess_run_spaced:
  "row_at (rl_key rule) (snd st) = Some row \<Longrightarrow> n \<le> tw_failures row \<Longrightarrow> tw_updated row = t \<Longrightarrow>
   \<forall>g \<in> set gs. rule \<in> set (login_rules email (fst g)) \<Longrightarrow>
   keeps_going (t # map snd gs) \<Longrightarrow> guess_run email gs st \<Longrightarrow> spaced rule n t (map snd gs)"
proof (induction gs arbitrary: st row n t)
  case (Cons g gs)
  obtain ip u where g: "g = (ip, u)" by (cases g)
  have rule: "rule \<in> set (login_rules email ip)" using Cons.prems(4) g by simp
  have u: "tw_updated row \<le> u" "u < tw_updated row + 30 * minute" "keeps_going (u # map snd gs)"
    using Cons.prems g by auto
  have run: "\<not> is_login_throttled email ip (snd st) u" "guess_run email gs (record_login_failure email ip u st)"
    using Cons.prems(6) g by simp_all
  obtain row' where row': "row_at (rl_key rule) (snd (record_login_failure email ip u st)) = Some row'"
      "tw_updated row' = u" "tw_failures row' = tw_failures row + 1"
    using failure_counts [OF rule Cons.prems(1) u(1,2)] by blast
  have "spaced rule (n + 1) u (map snd gs)"
    by (rule Cons.IH [OF row'(1) _ row'(2) _ u(3) run(2)]) (use Cons.prems row' in auto)
  moreover have "t + delay_for n rule \<le> u"
    using unthrottled_waits [OF rule run(1) Cons.prems(1,2) u(1,2)] Cons.prems(3) by simp
  ultimately show ?case by (simp add: g)
qed simp

lemma first_failure_counts:
  assumes "rule \<in> set (login_rules email ip)" "\<forall>r \<in> set rows. 0 \<le> tw_failures r"
  shows "\<exists>row. row_at (rl_key rule) (snd (record_login_failure email ip t (last_sweep, rows))) = Some row \<and>
    1 \<le> tw_failures row \<and> tw_updated row = t"
proof -
  obtain base where base: "base = rows \<or> base = sweep_stale t rows"
    and r: "row_at (rl_key rule) (snd (record_login_failure email ip t (last_sweep, rows))) =
      Some (counted t rule (row_at (rl_key rule) base))"
    using row_after_hit [OF login_rules_distinct assms(1), of "(last_sweep, rows)" t]
    by (auto simp: record_login_failure_def)
  have "\<forall>r \<in> set base. 0 \<le> tw_failures r" using base assms(2) by (auto simp: sweep_stale_def)
  then have "1 \<le> tw_failures (counted t rule (row_at (rl_key rule) base))"
    using find_row_SomeD [of _ base] by (fastforce simp: counted_fields split: option.splits)
  with r show ?thesis by (simp add: counted_fields)
qed

lemma budget_spaced:
  assumes "\<forall>r \<in> set rows. 0 \<le> tw_failures r" "keeps_going (map snd gs)" "guess_run email gs (last_sweep, rows)"
    and "\<forall>g \<in> set gs. rule \<in> set (login_rules email (fst g))" "Suc i < length gs"
  shows "snd (gs ! i) + delay_for (int (Suc i)) rule \<le> snd (gs ! Suc i)"
proof (cases gs)
  case (Cons g rest)
  obtain ip t where g: "g = (ip, t)" by (cases g)
  have rule: "rule \<in> set (login_rules email ip)" using assms(4) by (simp add: Cons g)
  from first_failure_counts [OF rule assms(1), of t last_sweep] obtain row where
    row: "row_at (rl_key rule) (snd (record_login_failure email ip t (last_sweep, rows))) = Some row"
      "1 \<le> tw_failures row" "tw_updated row = t" by blast
  have "spaced rule 1 t (map snd rest)"
    by (rule guess_run_spaced [where email = email, OF row]) (use assms(2-4) in \<open>simp_all add: Cons g\<close>)
  from spaced_nth [OF this, of i] assms(5) show ?thesis by (cases i) (simp_all add: Cons g)
qed (use assms(5) in simp)

text \<open>The delays of the two budgets in milliseconds; the exponent is cut at 30, long after the maximum is reached.\<close>

lemma capped_power:
  assumes "15000 \<le> (b::int)"
  shows "min (b * 2 ^ min k 30) 900000 = min (b * 2 ^ k) 900000"
proof (cases "k \<le> 30")
  case False
  then have "(2::int) ^ 30 \<le> 2 ^ k" by (intro power_increasing) auto
  then have "b * 2 ^ 30 \<le> b * 2 ^ k" using assms by (intro mult_left_mono) auto
  moreover have "900000 \<le> b * 2 ^ 30" using assms by simp
  ultimately have "900000 \<le> b * 2 ^ k" by linarith
  then show ?thesis using False \<open>900000 \<le> b * 2 ^ 30\<close> by (simp add: min.absorb2)
qed (simp add: min_def)

lemma delay_in_ms:
  assumes "15000 \<le> rl_base rule" "rl_max rule = 900000" "0 \<le> rl_free rule" "rl_free rule \<le> int i"
  shows "delay_for (int (Suc i)) rule = min (rl_base rule * 2 ^ (i - nat (rl_free rule))) 900000"
proof -
  have "nat (min (int (Suc i) - rl_free rule - 1) 30) = min (i - nat (rl_free rule)) 30"
    using assms(3,4) by (auto simp: min_def nat_diff_distrib')
  then show ?thesis using assms capped_power [OF assms(1), of "i - nat (rl_free rule)"] by (simp add: delay_for_def)
qed

text \<open>
  C2 Guessing slows down exponentially. Take attempts at one account that all fail, each made while
  the throttle lets it and less than half an hour after the one before (a longer pause restarts the
  counters); no successful sign-in comes between, and the counters in the table are not negative.
  Wherever the attempts come from, with the (i+1)-th failure, from the eleventh on, comes a wait of
  30 seconds, doubled with each further failure and never more than 15 minutes. If they all come
  from one address, the wait begins with the sixth failure, at 15 seconds.
\<close>

theorem guesses_are_spaced:
  assumes "\<forall>r \<in> set rows. 0 \<le> tw_failures r" and "keeps_going (map snd gs)"
    and "guess_run email gs (last_sweep, rows)" and "Suc i < length gs"
  shows "(10 \<le> i \<longrightarrow> snd (gs ! i) + min (30000 * 2 ^ (i - 10)) 900000 \<le> snd (gs ! Suc i)) \<and>
    (5 \<le> i \<and> ip \<noteq> [] \<and> (\<forall>g \<in> set gs. fst g = Some ip) \<longrightarrow>
       snd (gs ! i) + min (15000 * 2 ^ (i - 5)) 900000 \<le> snd (gs ! Suc i))"
proof (intro conjI impI)
  assume i: "10 \<le> i"
  let ?r = "mk_rule (''login:email:'' @ normalize_email email) 10 30000 (15 * minute) (30 * minute)"
  have "delay_for (int (Suc i)) ?r = min (30000 * 2 ^ (i - 10)) 900000"
    using delay_in_ms [of ?r i] i by (simp add: mk_rule_def minute_def)
  with budget_spaced [OF assms(1-3) _ assms(4), of ?r] email_rule_member
  show "snd (gs ! i) + min (30000 * 2 ^ (i - 10)) 900000 \<le> snd (gs ! Suc i)" by simp
next
  assume i: "5 \<le> i \<and> ip \<noteq> [] \<and> (\<forall>g \<in> set gs. fst g = Some ip)"
  let ?r = "pair_rule email ip"
  have "delay_for (int (Suc i)) ?r = min (15000 * 2 ^ (i - 5)) 900000"
    using delay_in_ms [of ?r i] i by (simp add: pair_rule_def mk_rule_def minute_def)
  with budget_spaced [OF assms(1-3) _ assms(4), of ?r] i pair_rule_member [of ip email]
  show "snd (gs ! i) + min (15000 * 2 ^ (i - 5)) 900000 \<le> snd (gs ! Suc i)" by simp
qed

definition sample_guesses :: "(string option \<times> millis) list" where
  "sample_guesses = map (\<lambda>t. (Some ''1.2.3.4'', t)) [0, 1, 2, 3, 4, 5, 15005, 45005, 105005]"

theorem guesses_are_spaced_witness:
  "snd (sample_guesses ! 7) + 60000 \<le> snd (sample_guesses ! 8)"
proof -
  have "\<forall>r \<in> set []. 0 \<le> tw_failures r" by simp
  moreover have "keeps_going (map snd sample_guesses)" by code_simp
  moreover have "guess_run ''a@b.co'' sample_guesses (0, [])" by code_simp
  moreover have "Suc 7 < length sample_guesses" by (simp add: sample_guesses_def)
  moreover have "\<forall>g \<in> set sample_guesses. fst g = Some ''1.2.3.4''" by (simp add: sample_guesses_def)
  ultimately show ?thesis using guesses_are_spaced [of "[]" sample_guesses "''a@b.co''" 0 7 "''1.2.3.4''"] by simp
qed

subsection \<open>A correct password\<close>

text \<open>
  A correct password clears the account's own budgets and never the shared one. After a
  successful sign-in the email counter and the pair counter are gone; the counter of the address
  (and every other row) is exactly as it was.
\<close>

theorem clear_keeps_ip_budget:
  assumes "ip \<noteq> []"
  shows "row_at k (clear_login_failures email (Some ip) rows) =
    (if k = ''login:email:'' @ normalize_email email \<or> k = rl_key (pair_rule email ip) then None else row_at k rows)
    \<and> ''login:ip:'' @ ip \<noteq> ''login:email:'' @ normalize_email email \<and> ''login:ip:'' @ ip \<noteq> rl_key (pair_rule email ip)"
proof -
  let ?e = "''login:email:'' @ normalize_email email" and ?p = "rl_key (pair_rule email ip)"
  have "filter (\<lambda>k. \<not> prefix ''login:ip:'' k) (map rl_key (login_rules email (Some ip))) = [?e, ?p]"
    using assms by (simp add: login_rules_def Let_def truthy_def pair_rule_def mk_rule_def)
  then have c: "clear_login_failures email (Some ip) rows = delete_rows (\<lambda>r. tw_key r = ?e \<or> tw_key r = ?p) rows"
    by (simp add: clear_login_failures_def clear_throttle_keys_def)
  have "row_at k (clear_login_failures email (Some ip) rows) = (if k = ?e \<or> k = ?p then None else row_at k rows)"
    unfolding c by (auto intro: find_row_delete_None find_row_delete)
  then show ?thesis by (simp add: pair_rule_def mk_rule_def)
qed

theorem clear_keeps_ip_budget_witness:
  "row_at ''login:ip:9'' (clear_login_failures ''a@b.co'' (Some ''9'')
     [\<lparr>tw_key = ''login:ip:9'', tw_failures = 40, tw_first = 0, tw_updated = 7\<rparr>]) \<noteq> None"
  using clear_keeps_ip_budget [of "''9''" "''login:ip:9''" "''a@b.co''"
      "[\<lparr>tw_key = ''login:ip:9'', tw_failures = 40, tw_first = 0, tw_updated = 7\<rparr>]"]
  by (simp add: normalize_email_def pair_rule_def mk_rule_def)

subsection \<open>One mailbox, one budget\<close>

lemma is_js_space_lower [simp]: "is_js_space (lower_char c) = is_js_space c"
proof (cases "lower_char c = c")
  case True
  then show ?thesis by simp
next
  case False
  define n where "n = (of_char c :: nat)"
  from False have n: "65 \<le> n \<and> n \<le> 90 \<or> 192 \<le> n \<and> n \<le> 222" and l: "lower_char c = char_of (n + 32)"
    by (auto simp: lower_char_def Let_def n_def split: if_splits)
  then have "(of_char (lower_char c) :: nat) = n + 32" by auto
  with n show ?thesis by (auto simp: is_js_space_def n_def [symmetric])
qed

lemma to_lower_trim: "to_lower (trim s) = trim (to_lower s)"
proof -
  have d: "dropWhile is_js_space (to_lower xs) = to_lower (dropWhile is_js_space xs)" for xs
    by (induction xs) (auto simp: to_lower_def)
  have r: "rev (to_lower xs) = to_lower (rev xs)" for xs
    by (simp add: to_lower_def rev_map)
  show ?thesis by (simp add: trim_def trim_start_def trim_end_def d r)
qed

lemma trim_trim: "trim (trim s) = trim s"
proof -
  let ?sp = is_js_space
  have "trim_start (trim s) = trim s"
  proof (cases "trim s")
    case Nil
    then show ?thesis by (simp add: trim_start_def)
  next
    case (Cons c cs)
    obtain ys where "trim_start s = trim s @ ys"
      unfolding trim_def trim_end_def
      by (metis rev_append rev_rev_ident takeWhile_dropWhile_id)
    with Cons have "hd (dropWhile ?sp s) = c" "dropWhile ?sp s \<noteq> []"
      by (auto simp: trim_start_def)
    then have "\<not> ?sp c" using hd_dropWhile by metis
    with Cons show ?thesis by (simp add: trim_start_def)
  qed
  moreover have "trim_end (trim s) = trim s"
    by (simp add: trim_def trim_end_def)
  ultimately show ?thesis by (simp add: trim_def [of "trim s"])
qed

text \<open>
  One mailbox, one budget. The canonical form of an address is a fixed point, and two
  spellings with the same canonical form are counted under the same rules, so neither letter
  case nor surrounding white space gives an attacker a fresh budget.
\<close>

theorem email_budget_canonical:
  "normalize_email (normalize_email v) = normalize_email v \<and>
   login_rules (normalize_email v) ip = login_rules v ip \<and>
   email_request_rules kind (normalize_email v) ip = email_request_rules kind v ip"
proof -
  have i: "normalize_email (normalize_email v) = normalize_email v" for v
    by (simp add: normalize_email_def to_lower_trim trim_trim)
  then show ?thesis by (simp add: login_rules_def email_request_rules_def)
qed

end
