(* ===== verification/Lookup_Limiter.thy ===== *)
theory Lookup_Limiter
  imports Js_Runtime
begin

text \<open>
  The in-memory sliding-window limiter for public lookups
  (\<^verbatim>\<open>webapp/src/lib/lookupThrottle.ts\<close>).

  The JavaScript \<open>Map\<close> of hit times is an association list in insertion order: \<open>set\<close> on a key
  that is present keeps its place. \<open>times[0]!\<close> of an empty list makes the retry delay \<open>NaN\<close>
  (only with a limit of zero), here \<open>None\<close>.
\<close>

record limiter_options =
  lo_limit :: nat
  lo_window :: millis
  lo_max_keys :: nat

type_synonym hit_map = "(string \<times> millis list) list"

record limiter_reply =
  lr_allowed :: bool
  lr_retry_after :: "millis option"

definition fresh_hits :: "limiter_options \<Rightarrow> millis \<Rightarrow> millis list \<Rightarrow> millis list" where
  "fresh_hits opts now ts = filter (\<lambda>t. now - t < lo_window opts) ts"

definition hits_get :: "string \<Rightarrow> hit_map \<Rightarrow> millis list" where
  "hits_get key hits = (case map_of hits key of None \<Rightarrow> [] | Some ts \<Rightarrow> ts)"

fun hits_set :: "string \<Rightarrow> millis list \<Rightarrow> hit_map \<Rightarrow> hit_map" where
  "hits_set key ts [] = [(key, ts)]"
| "hits_set key ts ((k, v) # hits) = (if k = key then (k, ts) # hits else (k, v) # hits_set key ts hits)"

fun prune_hits :: "limiter_options \<Rightarrow> millis \<Rightarrow> hit_map \<Rightarrow> hit_map" where
  "prune_hits opts now [] = []"
| "prune_hits opts now ((k, ts) # hits) =
     (if fresh_hits opts now ts = [] then prune_hits opts now hits
      else (k, fresh_hits opts now ts) # prune_hits opts now hits)"

definition limiter_hit :: "limiter_options \<Rightarrow> string \<Rightarrow> millis \<Rightarrow> hit_map \<Rightarrow> limiter_reply \<times> hit_map" where
  "limiter_hit opts key now hits =
     (let ts = fresh_hits opts now (hits_get key hits) in
      if lo_limit opts \<le> length ts
      then (\<lparr>lr_allowed = False,
             lr_retry_after = (case ts of [] \<Rightarrow> None | t # _ \<Rightarrow> Some (max 1 (lo_window opts - (now - t))))\<rparr>,
            hits_set key ts hits)
      else let hits' = hits_set key (ts @ [now]) hits
           in (\<lparr>lr_allowed = True, lr_retry_after = Some 0\<rparr>,
               if lo_max_keys opts < length hits' then prune_hits opts now hits' else hits'))"

definition share_lookup_limiter :: limiter_options where
  "share_lookup_limiter = \<lparr>lo_limit = 60, lo_window = 60000, lo_max_keys = 10000\<rparr>"

subsection \<open>Lemmas\<close>

lemma hits_get_set: "hits_get key (hits_set k ts hits) = (if key = k then ts else hits_get key hits)"
  by (induction hits) (auto simp: hits_get_def)

lemma map_fst_hits_set:
  "map fst (hits_set k ts hits) = (if k \<in> set (map fst hits) then map fst hits else map fst hits @ [k])"
proof (induction hits)
  case Nil
  then show ?case by simp
next
  case (Cons kv hits)
  then show ?case by (cases kv) simp
qed

lemma distinct_hits_set: "distinct (map fst hits) \<Longrightarrow> distinct (map fst (hits_set k ts hits))"
  by (simp add: map_fst_hits_set)

lemma keys_prune: "set (map fst (prune_hits opts now hits)) \<subseteq> set (map fst hits)"
proof (induction hits)
  case Nil
  then show ?case by simp
next
  case (Cons kv hits)
  then show ?case by (cases kv) auto
qed

lemma distinct_prune: "distinct (map fst hits) \<Longrightarrow> distinct (map fst (prune_hits opts now hits))"
proof (induction hits)
  case Nil
  then show ?case by simp
next
  case (Cons kt hits)
  then show ?case using keys_prune [of opts now hits] by (cases kt) auto
qed

lemma hits_get_absent: "key \<notin> fst ` set hits \<Longrightarrow> hits_get key hits = []"
  by (simp add: hits_get_def map_of_eq_None_iff [THEN iffD2])

lemma hits_get_prune:
  "distinct (map fst hits) \<Longrightarrow> hits_get key (prune_hits opts now hits) = fresh_hits opts now (hits_get key hits)"
proof (induction hits)
  case Nil
  then show ?case by (simp add: hits_get_def fresh_hits_def)
next
  case (Cons kt hits)
  obtain k ts where kt: "kt = (k, ts)" by (cases kt)
  have c: "hits_get x ((y, v) # h) = (if y = x then v else hits_get x h)" for x y v h
    by (simp add: hits_get_def)
  have "k \<notin> set (map fst (prune_hits opts now hits))"
    using Cons.prems keys_prune [of opts now hits] kt by auto
  then have a: "hits_get k (prune_hits opts now hits) = []" by (intro hits_get_absent) simp
  have "k \<notin> set (map fst hits)" using Cons.prems kt by simp
  then have b: "hits_get k hits = []" by (intro hits_get_absent) simp
  have IH: "hits_get key (prune_hits opts now hits) = fresh_hits opts now (hits_get key hits)"
    using Cons by simp
  show ?case
  proof (cases "fresh_hits opts now ts = []")
    case True
    then show ?thesis using IH a b by (cases "k = key") (simp_all add: kt c)
  next
    case False
    then show ?thesis using IH by (simp add: kt c)
  qed
qed

lemma fresh_fresh:
  "now \<le> later \<Longrightarrow> fresh_hits opts later (fresh_hits opts now ts) = fresh_hits opts later ts"
  by (auto simp: fresh_hits_def intro: filter_cong)

text \<open>A lg of lookups: key, time, and whether the lookup was allowed.\<close>

type_synonym lookup_log = "(string \<times> millis \<times> bool) list"

definition limiter_step ::
  "limiter_options \<Rightarrow> string \<times> millis \<Rightarrow> hit_map \<times> lookup_log \<Rightarrow> hit_map \<times> lookup_log" where
  "limiter_step opts e s =
     (let (key, now) = e; (hits, lg) = s; (reply, hits') = limiter_hit opts key now hits
      in (hits', lg @ [(key, now, lr_allowed reply)]))"

definition allowed_times :: "string \<Rightarrow> lookup_log \<Rightarrow> millis list" where
  "allowed_times key lg = map (\<lambda>(k, t, ok). t) (filter (\<lambda>(k, t, ok). k = key \<and> ok) lg)"

lemma allowed_times_snoc:
  "allowed_times key (lg @ [(k, t, ok)]) = allowed_times key lg @ (if k = key \<and> ok then [t] else [])"
  by (simp add: allowed_times_def)

definition tracks :: "limiter_options \<Rightarrow> millis \<Rightarrow> hit_map \<times> lookup_log \<Rightarrow> bool" where
  "tracks opts now s \<longleftrightarrow>
     distinct (map fst (fst s)) \<and>
     (\<forall>key. fresh_hits opts now (hits_get key (fst s)) = fresh_hits opts now (allowed_times key (snd s)) \<and>
        length (fresh_hits opts now (allowed_times key (snd s))) \<le> lo_limit opts)"

lemma tracks_later:
  assumes "tracks opts now s" "now \<le> later"
  shows "tracks opts later s"
proof -
  have "fresh_hits opts later (hits_get key (fst s)) = fresh_hits opts later (allowed_times key (snd s)) \<and>
      length (fresh_hits opts later (allowed_times key (snd s))) \<le> lo_limit opts" for key
  proof -
    let ?a = "allowed_times key (snd s)"
    have "length (fresh_hits opts later (fresh_hits opts now ?a)) \<le> length (fresh_hits opts now ?a)"
      by (simp add: fresh_hits_def [of opts later])
    then show ?thesis
      using assms fresh_fresh [OF assms(2), of opts] unfolding tracks_def by (metis order_trans)
  qed
  then show ?thesis using assms(1) by (simp add: tracks_def)
qed

lemma fresh_fresh_same [simp]: "fresh_hits opts now (fresh_hits opts now ts) = fresh_hits opts now ts"
  by (simp add: fresh_fresh)

lemma fresh_append [simp]: "fresh_hits opts now (xs @ ys) = fresh_hits opts now xs @ fresh_hits opts now ys"
  by (simp add: fresh_hits_def)

lemma tracks_step:
  assumes "tracks opts now s"
  shows "tracks opts now (limiter_step opts (key, now) s)"
proof -
  obtain hits lg where s: "s = (hits, lg)" by (cases s)
  let ?times = "fresh_hits opts now (hits_get key hits)"
  have d: "distinct (map fst (hits_set key ts hits))" for ts
    using assms distinct_hits_set by (auto simp: tracks_def s)
  have t: "fresh_hits opts now (hits_get k hits) = fresh_hits opts now (allowed_times k lg)"
    "length (fresh_hits opts now (allowed_times k lg)) \<le> lo_limit opts" for k
    using assms by (auto simp: tracks_def s)
  show ?thesis
  proof (cases "lo_limit opts \<le> length ?times")
    case True
    then have e: "limiter_step opts (key, now) s = (hits_set key ?times hits, lg @ [(key, now, False)])"
      by (simp add: limiter_step_def limiter_hit_def s Let_def)
    show ?thesis unfolding e tracks_def using d t by (simp add: hits_get_set allowed_times_snoc)
  next
    case False
    define hits' where "hits' = hits_set key (?times @ [now]) hits"
    have e: "limiter_step opts (key, now) s =
        ((if lo_max_keys opts < length hits' then prune_hits opts now hits' else hits'), lg @ [(key, now, True)])"
      using False by (simp add: limiter_step_def limiter_hit_def s Let_def hits'_def)
    have g: "fresh_hits opts now (hits_get k (if lo_max_keys opts < length hits' then prune_hits opts now hits' else hits'))
        = fresh_hits opts now (hits_get k hits')" for k
      using hits_get_prune [OF d, of k opts now "?times @ [now]"] by (simp add: hits'_def)
    have "distinct (map fst (if lo_max_keys opts < length hits' then prune_hits opts now hits' else hits'))"
      using d distinct_prune by (simp add: hits'_def)
    moreover have "fresh_hits opts now (hits_get k hits') =
          fresh_hits opts now (allowed_times k (lg @ [(key, now, True)])) \<and>
        length (fresh_hits opts now (allowed_times k (lg @ [(key, now, True)]))) \<le> lo_limit opts" for k
    proof (cases "k = key")
      case True
      have "length (fresh_hits opts now [now]) \<le> 1" by (simp add: fresh_hits_def)
      with True False t [of key] show ?thesis by (simp add: hits'_def hits_get_set allowed_times_snoc)
    next
      case no: False
      with t [of k] show ?thesis by (simp add: hits'_def hits_get_set allowed_times_snoc)
    qed
    ultimately show ?thesis unfolding e tracks_def by (simp add: g)
  qed
qed

lemma tracks_run:
  "sorted (map snd es) \<Longrightarrow> (\<And>e. e \<in> set es \<Longrightarrow> snd e \<le> now) \<Longrightarrow>
   tracks opts now (fold (limiter_step opts) es ([], []))"
proof (induction es arbitrary: now rule: rev_induct)
  case Nil
  then show ?case by (simp add: tracks_def hits_get_def allowed_times_def fresh_hits_def)
next
  case (snoc e es)
  obtain key t where e: "e = (key, t)" by (cases e)
  have "tracks opts t (fold (limiter_step opts) es ([], []))"
    using snoc.prems e by (intro snoc.IH) (auto simp: sorted_append)
  then have "tracks opts t (fold (limiter_step opts) (es @ [e]) ([], []))"
    using tracks_step by (simp add: e)
  then show ?case using tracks_later snoc.prems(2) [of e] e by auto
qed

text \<open>
  C7 The lookup limiter bounds every sliding window. Over any sequence of lookups in time
  order, with any keys and any pruning, at most \<open>limit\<close> lookups of one key are allowed within the
  \<open>windowMs\<close> milliseconds that end at the present.
\<close>

theorem limiter_window_bound:
  assumes "sorted (map snd es)" and "\<forall>e \<in> set es. snd e \<le> now"
  shows "length (filter (\<lambda>t. now - t < lo_window opts)
      (allowed_times key (snd (fold (limiter_step opts) es ([], []))))) \<le> lo_limit opts"
  using tracks_run [OF assms(1), of now opts] assms(2) by (auto simp: tracks_def fresh_hits_def)

theorem limiter_window_bound_witness:
  "length (filter (\<lambda>t. 5 - t < 10) (allowed_times ''k''
     (snd (fold (limiter_step \<lparr>lo_limit = 2, lo_window = 10, lo_max_keys = 1\<rparr>)
        [(''k'', 1), (''j'', 2), (''k'', 3), (''k'', 4)] ([], []))))) \<le> 2"
  using limiter_window_bound [of "[(''k'', 1), (''j'', 2), (''k'', 3), (''k'', 4)]" 5
      "\<lparr>lo_limit = 2, lo_window = 10, lo_max_keys = 1\<rparr>" "''k''"] by simp

end
