(* ===== verification/Audit_Trail.thy ===== *)
theory Audit_Trail
  imports Js_Runtime
begin

text \<open>
  The workspace audit trail (\<^verbatim>\<open>webapp/src/lib/audit.ts\<close>): the closed list of actions, the
  clean-up of the metadata a caller passes, the best-effort write, and the hourly purge of events
  past retention. The table of events is a list of rows; whether the write succeeds is an
  argument, since a failure is swallowed.
\<close>

subsection \<open>Actions\<close>

definition audit_actions :: "string list" where
  "audit_actions =
    [''member.add'', ''member.invite'', ''member.invite_revoke'', ''member.remove'', ''member.leave'',
     ''member.role_change'', ''member.password_reset'', ''workspace.retention_update'',
     ''workspace.language_update'', ''workspace.export'', ''meeting.delete'', ''meeting.create'',
     ''meeting.edit'', ''meeting.move'', ''meeting.trash'', ''meeting.restore'', ''meeting.purge'',
     ''folder.create'', ''folder.rename'', ''folder.move'', ''folder.trash'', ''folder.restore'',
     ''folder.purge'', ''trash.empty'', ''integration.create'', ''integration.update'',
     ''integration.delete'', ''integration.test'', ''integration.rotate_secret'', ''trash.purge'',
     ''meeting.import'', ''meeting.regenerate_notes'', ''meeting.retention_delete'', ''share.create'',
     ''share.revoke'', ''api_token.create'', ''api_token.revoke'']"

subsection \<open>Metadata\<close>

text \<open>A value of a metadata object: the scalars the code keeps, and everything else.\<close>

datatype js_value = Js_Null | Js_Bool bool | Js_Number js_number | Js_String string | Js_Other

type_synonym metadata = "(string \<times> js_value) list"

definition audit_retention_days :: int where
  "audit_retention_days = 400"

definition max_metadata_keys :: nat where
  "max_metadata_keys = 12"

definition max_value_length :: nat where
  "max_value_length = 200"

definition forbidden_words :: "string list" where
  "forbidden_words = [''token'', ''secret'', ''password'', ''passwd'', ''key'', ''cookie'',
     ''authorization'', ''content'', ''text'', ''transcript'', ''summary'', ''body'', ''note'']"

definition is_forbidden_key :: "string \<Rightarrow> bool" where
  "is_forbidden_key key \<longleftrightarrow> list_ex (contains_sub (to_lower key)) forbidden_words"

fun clean_value :: "js_value \<Rightarrow> js_value option" where
  "clean_value Js_Null = Some Js_Null"
| "clean_value (Js_Bool b) = Some (Js_Bool b)"
| "clean_value (Js_Number n) = (case n of JsNum q \<Rightarrow> Some (Js_Number n) | _ \<Rightarrow> None)"
| "clean_value (Js_String s) = Some (Js_String (take max_value_length s))"
| "clean_value Js_Other = None"

text \<open>The loop over the entries; the keys of an object are distinct, so an assignment appends.\<close>

fun sanitize_loop :: "metadata \<Rightarrow> metadata \<Rightarrow> metadata" where
  "sanitize_loop [] clean = clean"
| "sanitize_loop ((key, v) # entries) clean =
     (if max_metadata_keys \<le> length clean then clean
      else if is_forbidden_key key \<or> 60 < length key then sanitize_loop entries clean
      else (case clean_value v of
              None \<Rightarrow> sanitize_loop entries clean
            | Some w \<Rightarrow> sanitize_loop entries (clean @ [(key, w)])))"

definition sanitize_audit_metadata :: "metadata option \<Rightarrow> metadata option" where
  "sanitize_audit_metadata md =
     (case md of
        None \<Rightarrow> None
      | Some entries \<Rightarrow>
          (let clean = sanitize_loop entries [] in if clean \<noteq> [] then Some clean else None))"

subsection \<open>Events\<close>

record audit_event =
  ev_id :: ident
  ev_workspace :: ident
  ev_actor :: "ident option"
  ev_action :: string
  ev_target_type :: "string option"
  ev_target_id :: "string option"
  ev_metadata :: "metadata option"
  ev_created :: millis

definition record_audit ::
  "bool \<Rightarrow> ident \<Rightarrow> millis \<Rightarrow> ident \<Rightarrow> ident option \<Rightarrow> string \<Rightarrow> string option \<Rightarrow> string option \<Rightarrow> metadata option
   \<Rightarrow> audit_event list \<Rightarrow> bool \<times> audit_event list" where
  "record_audit writes new_id now ws actor action target_type target_id md events =
     (if writes
      then (True, events @ [\<lparr>ev_id = new_id, ev_workspace = ws, ev_actor = actor, ev_action = action,
              ev_target_type = target_type, ev_target_id = map_option (take 128) target_id,
              ev_metadata = sanitize_audit_metadata md, ev_created = now\<rparr>])
      else (False, events))"

definition audit_purge_interval :: millis where
  "audit_purge_interval = 60 * 60 * 1000"

definition audit_purge_batch :: nat where
  "audit_purge_batch = 1000"

text \<open>
  \<open>findMany\<close> without an order returns any rows of the batch size; the model takes the oldest rows
  of the table. The process variable \<open>lastPurgeAt\<close> is the first component of the state.
\<close>

definition purge_expired_audit_events ::
  "millis \<Rightarrow> bool \<Rightarrow> millis \<times> audit_event list \<Rightarrow> nat \<times> millis \<times> audit_event list" where
  "purge_expired_audit_events now force st =
     (let (last_purge, events) = st in
      if \<not> force \<and> now - last_purge < audit_purge_interval then (0, last_purge, events)
      else
        let cutoff = now - audit_retention_days * 24 * 60 * 60 * 1000;
            expired = take audit_purge_batch (filter (\<lambda>e. ev_created e < cutoff) events)
        in if expired = [] then (0, now, events)
           else let kept = delete_rows (\<lambda>e. ev_id e \<in> ev_id ` set expired) events
                in (length events - length kept, now, kept))"

subsection \<open>What a written event can hold\<close>

fun bounded_value :: "js_value \<Rightarrow> bool" where
  "bounded_value (Js_String s) \<longleftrightarrow> length s \<le> max_value_length"
| "bounded_value (Js_Number n) \<longleftrightarrow> (case n of JsNum q \<Rightarrow> True | _ \<Rightarrow> False)"
| "bounded_value Js_Other \<longleftrightarrow> False"
| "bounded_value _ \<longleftrightarrow> True"

definition metadata_ok :: "metadata \<Rightarrow> bool" where
  "metadata_ok md \<longleftrightarrow> length md \<le> max_metadata_keys \<and>
     list_all (\<lambda>(key, v). \<not> is_forbidden_key key \<and> length key \<le> 60 \<and> bounded_value v) md"

lemma clean_value_bounded: "clean_value v = Some w \<Longrightarrow> bounded_value w"
  by (cases v) (auto split: js_number.splits)

lemma clean_value_fixed: "bounded_value v \<Longrightarrow> clean_value v = Some v"
  by (cases v) (auto split: js_number.splits)

lemma sanitize_loop_ok: "metadata_ok clean \<Longrightarrow> metadata_ok (sanitize_loop entries clean)"
  by (induction entries clean rule: sanitize_loop.induct)
    (auto simp: metadata_ok_def clean_value_bounded split: option.splits)

lemma sanitize_loop_fixed: "metadata_ok (clean @ entries) \<Longrightarrow> sanitize_loop entries clean = clean @ entries"
  by (induction entries clean rule: sanitize_loop.induct)
    (auto simp: metadata_ok_def clean_value_fixed)

text \<open>
  Audit metadata is bounded and free of credentials. Whatever a caller passes, the stored
  metadata has at most twelve keys of at most sixty characters, no key contains one of the
  forbidden words in any letter case, every value is a finite scalar and every string at most two
  hundred characters; storing it again changes nothing.
\<close>

theorem audit_metadata_sanitized:
  "sanitize_audit_metadata md = None \<or>
   (\<exists>clean. sanitize_audit_metadata md = Some clean \<and> clean \<noteq> [] \<and> metadata_ok clean \<and>
      sanitize_audit_metadata (Some clean) = Some clean)"
  using sanitize_loop_ok [of "[]"] sanitize_loop_fixed [of "[]"]
  by (auto simp: sanitize_audit_metadata_def Let_def metadata_ok_def split: option.splits)

end
