(* ===== verification/Audit_Log.thy ===== *)
theory Audit_Log
  imports Audit_Trail Plans "HOL-Library.List_Lexorder" "HOL-Library.Char_ord" "HOL-Library.Product_Lexorder"
begin

text \<open>
  Reading the audit trail (\<^verbatim>\<open>webapp/src/lib/auditLog.ts\<close>): categories and filters, the pages of
  the list with their cursors, and the CSV export with cells that a spreadsheet cannot run.

  Ids are compared as lists of characters. Membership and note rows are the pairs of id and
  display value that the queries select; \<open>show_number\<close> and \<open>show_date\<close> stand for the decimal rendering of
  a double and of a date, which the properties do not depend on.
\<close>

subsection \<open>Categories and filters\<close>

definition audit_page_size :: nat where
  "audit_page_size = 50"

definition audit_export_limit :: nat where
  "audit_export_limit = 10000"

definition audit_categories :: "string list" where
  "audit_categories = [''members'', ''notes'', ''library'', ''sharing'', ''integrations'', ''tokens'', ''settings'']"

definition audit_action_info :: "(string \<times> string \<times> string) list" where
  "audit_action_info =
    [(''member.add'', ''Added a member'', ''members''),
     (''member.invite'', ''Invited someone'', ''members''),
     (''member.invite_revoke'', ''Cancelled an invitation'', ''members''),
     (''member.remove'', ''Removed a member'', ''members''),
     (''member.leave'', ''Left the workspace'', ''members''),
     (''member.role_change'', ''Changed a member'' @ [CHR 0x27] @ ''s role'', ''members''),
     (''member.password_reset'', ''Sent a password reset'', ''members''),
     (''workspace.retention_update'', ''Changed the retention policy'', ''settings''),
     (''workspace.export'', ''Exported all notes'', ''settings''),
     (''workspace.language_update'', ''Changed vocabulary or summary language'', ''settings''),
     (''meeting.delete'', ''Deleted a note'', ''notes''),
     (''meeting.create'', ''Created a note'', ''notes''),
     (''meeting.edit'', ''Edited a note'', ''notes''),
     (''meeting.move'', ''Moved notes'', ''library''),
     (''meeting.trash'', ''Moved a note to Trash'', ''library''),
     (''meeting.restore'', ''Restored a note'', ''library''),
     (''meeting.purge'', ''Deleted a note forever'', ''library''),
     (''meeting.import'', ''Imported a recording'', ''notes''),
     (''meeting.regenerate_notes'', ''Regenerated a note'' @ [CHR 0x27] @ ''s text'', ''notes''),
     (''meeting.retention_delete'', ''Notes removed by the retention policy'', ''settings''),
     (''folder.create'', ''Created a folder'', ''library''),
     (''folder.rename'', ''Renamed a folder'', ''library''),
     (''folder.move'', ''Moved a folder'', ''library''),
     (''folder.trash'', ''Moved a folder to Trash'', ''library''),
     (''folder.restore'', ''Restored a folder'', ''library''),
     (''folder.purge'', ''Deleted a folder forever'', ''library''),
     (''trash.empty'', ''Emptied the Trash'', ''library''),
     (''trash.purge'', ''Trash cleared automatically after 30 days'', ''library''),
     (''share.create'', ''Created a share link'', ''sharing''),
     (''share.revoke'', ''Revoked a share link'', ''sharing''),
     (''integration.create'', ''Added an integration'', ''integrations''),
     (''integration.update'', ''Turned an integration on or off'', ''integrations''),
     (''integration.delete'', ''Removed an integration'', ''integrations''),
     (''integration.test'', ''Sent an integration test'', ''integrations''),
     (''integration.rotate_secret'', ''Rotated a webhook secret'', ''integrations''),
     (''api_token.create'', ''Created an API token'', ''tokens''),
     (''api_token.revoke'', ''Revoked an API token'', ''tokens'')]"

definition is_audit_category :: "string option \<Rightarrow> bool" where
  "is_audit_category v \<longleftrightarrow> (case v of None \<Rightarrow> False | Some c \<Rightarrow> c \<in> set audit_categories)"

definition actions_in :: "string \<Rightarrow> string list" where
  "actions_in category =
     filter (\<lambda>a. map_option snd (map_of audit_action_info a) = Some category) audit_actions"

definition audit_log_available :: "bool \<Rightarrow> subscription option \<Rightarrow> millis \<Rightarrow> bool" where
  "audit_log_available managed_hosting sub now =
     (if \<not> managed_hosting then True else team_plan_active managed_hosting sub now)"

record audit_filters =
  af_category :: "string option"
  af_actor :: "string option"

definition event_where :: "ident \<Rightarrow> audit_filters \<Rightarrow> audit_event \<Rightarrow> bool" where
  "event_where ws filters e \<longleftrightarrow>
     ev_workspace e = ws \<and>
     (truthy (af_category filters) \<longrightarrow> ev_action e \<in> set (actions_in (the (af_category filters)))) \<and>
     (if af_actor filters = Some ''system'' then ev_actor e = None
      else truthy (af_actor filters) \<longrightarrow> ev_actor e = af_actor filters)"

subsection \<open>Presenting events\<close>

record audit_row =
  ar_id :: ident
  ar_at :: millis
  ar_action :: string
  ar_label :: string
  ar_actor :: string
  ar_target_type :: "string option"
  ar_target_id :: "string option"
  ar_target_title :: "string option"
  ar_details :: string

fun value_text :: "(js_number \<Rightarrow> string) \<Rightarrow> js_value \<Rightarrow> string" where
  "value_text show_number Js_Null = ''null''"
| "value_text show_number (Js_Bool b) = (if b then ''true'' else ''false'')"
| "value_text show_number (Js_Number n) = show_number n"
| "value_text show_number (Js_String s) = s"
| "value_text show_number Js_Other = ''[object Object]''"

definition detail_text :: "(js_number \<Rightarrow> string) \<Rightarrow> metadata option \<Rightarrow> string" where
  "detail_text show_number md =
     (case md of
        None \<Rightarrow> []
      | Some entries \<Rightarrow> join_names '', '' (map (\<lambda>(k, v). k @ '': '' @ value_text show_number v) entries))"

text \<open>\<open>members\<close> and \<open>notes\<close> are the rows the two queries would find for any of the ids.\<close>

definition present_event ::
  "(js_number \<Rightarrow> string) \<Rightarrow> (ident \<Rightarrow> string option) \<Rightarrow> (ident \<Rightarrow> string option) \<Rightarrow> audit_event list \<Rightarrow> audit_event \<Rightarrow> audit_row" where
  "present_event show_number members notes events e =
     \<lparr>ar_id = ev_id e, ar_at = ev_created e, ar_action = ev_action e,
      ar_label = (case map_of audit_action_info (ev_action e) of Some (l, c) \<Rightarrow> l | None \<Rightarrow> ev_action e),
      ar_actor = (case ev_actor e of
          None \<Rightarrow> ''System''
        | Some a \<Rightarrow> (case (if a = [] then None else members a) of Some mail \<Rightarrow> mail | None \<Rightarrow> ''Former member'')),
      ar_target_type = ev_target_type e, ar_target_id = ev_target_id e,
      ar_target_title =
        (if truthy (ev_target_id e) \<and>
            list_ex (\<lambda>x. ev_target_type x = Some ''meeting'' \<and> ev_target_id x = ev_target_id e) events
         then notes (the (ev_target_id e)) else None),
      ar_details = detail_text show_number (ev_metadata e)\<rparr>"

definition present_events ::
  "(js_number \<Rightarrow> string) \<Rightarrow> (ident \<Rightarrow> string option) \<Rightarrow> (ident \<Rightarrow> string option) \<Rightarrow> audit_event list \<Rightarrow> audit_row list" where
  "present_events show_number members notes events = map (present_event show_number members notes events) events"

subsection \<open>Pages\<close>

text \<open>\<open>orderBy: [{ createdAt: "desc" }, { id: "desc" }]\<close>.\<close>

definition newest_first :: "audit_event list \<Rightarrow> audit_event list" where
  "newest_first events = rev (sort_key (\<lambda>e. (ev_created e, ev_id e)) events)"

definition is_uuid_char :: "char \<Rightarrow> bool" where
  "is_uuid_char c \<longleftrightarrow> is_ascii_digit c \<or> c = CHR ''-'' \<or> 97 \<le> (of_char c :: nat) \<and> (of_char c :: nat) \<le> 102"

text \<open>\<open>/^(\d{10,16})_([0-9a-f-]{36})$/\<close>: an underscore is not a digit, so the digits are the longest prefix.\<close>

definition parse_cursor :: "string \<Rightarrow> (millis \<times> ident) option" where
  "parse_cursor s =
     (let ds = takeWhile is_ascii_digit s; r = dropWhile is_ascii_digit s in
      if 10 \<le> length ds \<and> length ds \<le> 16 \<and> r \<noteq> [] \<and> hd r = CHR ''_'' \<and>
         length (tl r) = 36 \<and> list_all is_uuid_char (tl r)
      then Some (int (digits_value ds), tl r) else None)"

definition cursor_text :: "audit_event \<Rightarrow> string" where
  "cursor_text e = int_str (ev_created e) @ ''_'' @ ev_id e"

definition before_cursor :: "(millis \<times> ident) option \<Rightarrow> audit_event \<Rightarrow> bool" where
  "before_cursor b e \<longleftrightarrow>
     (case b of None \<Rightarrow> True
      | Some (t, uid) \<Rightarrow> ev_created e < t \<or> ev_created e = t \<and> ev_id e < uid)"

definition list_audit_events ::
  "ident \<Rightarrow> audit_filters \<Rightarrow> string option \<Rightarrow> audit_event list \<Rightarrow> audit_event list \<times> string option" where
  "list_audit_events ws filters cursor events =
     (let before = (if truthy cursor then parse_cursor (the cursor) else None);
          found = take (Suc audit_page_size)
            (newest_first (filter (\<lambda>e. event_where ws filters e \<and> before_cursor before e) events));
          page = take audit_page_size found
      in (page, if audit_page_size < length found \<and> page \<noteq> [] then Some (cursor_text (last page)) else None))"

subsection \<open>CSV\<close>

definition csv_guard :: "string \<Rightarrow> string" where
  "csv_guard v =
     (if v \<noteq> [] \<and> hd v \<in> {CHR ''='', CHR ''+'', CHR ''-'', CHR ''@'', CHR 0x09, CHR 0x0D}
      then CHR 0x27 # v else v)"

definition csv_cell :: "string \<Rightarrow> string" where
  "csv_cell v =
     (let safe = csv_guard v in
      if list_ex (\<lambda>c. c \<in> {CHR 0x22, CHR '','', CHR 0x0A, CHR 0x0D}) safe
      then [CHR 0x22] @ replace_char CHR 0x22 [CHR 0x22, CHR 0x22] safe @ [CHR 0x22]
      else safe)"

definition csv_fields :: "(millis \<Rightarrow> string) \<Rightarrow> audit_row \<Rightarrow> string list" where
  "csv_fields show_date row =
     [show_date (ar_at row), ar_actor row, ar_action row, ar_label row, case_option [] id (ar_target_type row),
      case_option [] id (ar_target_id row), ar_details row]"

definition csv_header :: "string list" where
  "csv_header = [''time_utc'', ''actor'', ''action'', ''description'', ''target_type'', ''target_id'', ''details'']"

definition csv_line :: "string list \<Rightarrow> string" where
  "csv_line cells = join_names '','' (map csv_cell cells)"

text \<open>\<open>for (offset = 0; offset < events.length; offset += 500)\<close>: slices of five hundred.\<close>

definition audit_csv ::
  "(js_number \<Rightarrow> string) \<Rightarrow> (millis \<Rightarrow> string) \<Rightarrow> (ident \<Rightarrow> string option) \<Rightarrow> (ident \<Rightarrow> string option)
   \<Rightarrow> ident \<Rightarrow> audit_filters \<Rightarrow> audit_event list \<Rightarrow> string" where
  "audit_csv show_number show_date members notes ws filters events =
     (let found = take audit_export_limit (newest_first (filter (event_where ws filters) events));
          rows = concat (map (present_events show_number members notes) (slices_of 500 found))
      in join_names [CHR 0x0D, CHR 0x0A] (join_names '','' csv_header # map (\<lambda>r. csv_line (csv_fields show_date r)) rows)
         @ [CHR 0x0D, CHR 0x0A])"

subsection \<open>Cursors round trip\<close>

definition cursor_ok :: "audit_event \<Rightarrow> bool" where
  "cursor_ok e \<longleftrightarrow> 10 ^ 9 \<le> ev_created e \<and> ev_created e < 10 ^ 16 \<and>
     length (ev_id e) = 36 \<and> list_all is_uuid_char (ev_id e)"

lemma parse_cursor_text:
  assumes "cursor_ok e"
  shows "parse_cursor (cursor_text e) = Some (ev_created e, ev_id e)"
proof -
  define n where "n = nat (ev_created e)"
  have n: "ev_created e = int n" "10 ^ 9 \<le> n" "n < 10 ^ Suc 15"
    using assms by (simp_all add: n_def cursor_ok_def nat_le_iff le_nat_iff nat_less_iff)
  have c: "cursor_text e = digits_of n @ CHR ''_'' # ev_id e"
    by (simp add: cursor_text_def int_str_def n(1))
  have "\<not> is_ascii_digit CHR ''_''" by (simp add: is_ascii_digit_def)
  then have "takeWhile is_ascii_digit (cursor_text e) = digits_of n"
    "dropWhile is_ascii_digit (cursor_text e) = CHR ''_'' # ev_id e"
    using digits_of_digits [of n]
    by (simp_all add: c takeWhile_append2 dropWhile_append2 list_all_iff)
  with assms n length_digits_ge [OF n(2)] length_digits_le [OF n(3)] show ?thesis
    by (simp add: parse_cursor_def Let_def cursor_ok_def digits_value_digits_of)
qed

subsection \<open>Following the cursors\<close>

definition event_key :: "audit_event \<Rightarrow> millis \<times> ident" where
  "event_key e = (ev_created e, ev_id e)"

lemma newest_first_filter: "newest_first (filter P xs) = filter P (newest_first xs)"
  by (simp add: newest_first_def filter_sort [symmetric] rev_filter)

lemma newest_first_descending:
  "unique_on event_key xs \<Longrightarrow> sorted_wrt (\<lambda>a b. event_key b < event_key a) (newest_first xs)"
proof -
  assume "unique_on event_key xs"
  then have "distinct (map event_key (sort_key event_key xs))"
    by (simp add: unique_on_def distinct_map)
  then have "sorted_wrt (<) (map event_key (sort_key event_key xs))"
    using sorted_sort_key [of event_key xs] by (simp add: strict_sorted_iff)
  then show ?thesis
    by (simp add: newest_first_def sorted_wrt_rev sorted_wrt_map event_key_def [abs_def])
qed

lemma before_cursor_key: "before_cursor (Some (event_key e)) x \<longleftrightarrow> event_key x < event_key e"
  by (auto simp: before_cursor_def event_key_def less_prod_def)

lemma filter_after:
  assumes "sorted_wrt (\<lambda>a b. event_key b < event_key a) (A @ B)" "A \<noteq> []"
  shows "filter (before_cursor (Some (event_key (last A)))) (A @ B) = B"
proof -
  have "\<not> event_key x < event_key (last A)" if "x \<in> set A" for x
  proof (cases "x = last A")
    case False
    with that obtain A' where "A = A' @ [last A]" "x \<in> set A'" using assms(2)
      by (metis append_butlast_last_id in_set_conv_decomp rotate1.simps(2) set_ConsD set_rotate1)
    then show ?thesis using assms(1) by (metis order_less_asym sorted_wrt_append list.set_intros(1))
  qed simp
  moreover have "event_key x < event_key (last A)" if "x \<in> set B" for x
    using that assms by (simp add: sorted_wrt_append)
  ultimately show ?thesis by (simp add: before_cursor_key filter_id_conv)
qed

text \<open>The pages a reader gets by following \<open>nextCursor\<close>, for a number of requests.\<close>

fun walk_pages :: "nat \<Rightarrow> ident \<Rightarrow> audit_filters \<Rightarrow> string option \<Rightarrow> audit_event list \<Rightarrow> audit_event list" where
  "walk_pages 0 ws filters cursor events = []"
| "walk_pages (Suc n) ws filters cursor events =
     (let (page, nxt) = list_audit_events ws filters cursor events
      in page @ (case nxt of None \<Rightarrow> [] | Some c \<Rightarrow> walk_pages n ws filters (Some c) events))"

lemma list_audit_events_suffix:
  assumes "newest_first (filter (event_where ws filters) events) = A @ B"
    and "sorted_wrt (\<lambda>a b. event_key b < event_key a) (A @ B)"
    and "\<forall>e \<in> set (A @ B). cursor_ok e"
    and "if A = [] then cursor = None else cursor = Some (cursor_text (last A))"
  shows "list_audit_events ws filters cursor events =
    (take audit_page_size B,
     if audit_page_size < length B then Some (cursor_text (last (take audit_page_size B))) else None)"
proof -
  define before where "before = (if truthy cursor then parse_cursor (the cursor) else None)"
  have "filter (before_cursor before) (A @ B) = B"
  proof (cases "A = []")
    case True
    then show ?thesis using assms(4) by (simp add: before_def truthy_def before_cursor_def)
  next
    case False
    then have c: "cursor = Some (cursor_text (last A))" "cursor_ok (last A)" using assms(3,4) by simp_all
    have "truthy cursor" by (simp add: c truthy_def cursor_text_def)
    then have "before = Some (event_key (last A))"
      using parse_cursor_text [OF c(2)] c(1) by (simp add: before_def event_key_def)
    with filter_after [OF assms(2) False] show ?thesis by simp
  qed
  then have "newest_first (filter (\<lambda>e. event_where ws filters e \<and> before_cursor before e) events) = B"
    using assms(1) newest_first_filter [of "before_cursor before" "filter (event_where ws filters) events"]
    by (simp add: conj_commute)
  then show ?thesis
    by (auto simp: list_audit_events_def Let_def before_def [symmetric] audit_page_size_def)
qed

lemma walk_pages_suffix:
  assumes "newest_first (filter (event_where ws filters) events) = A @ B"
    and "sorted_wrt (\<lambda>a b. event_key b < event_key a) (A @ B)"
    and "\<forall>e \<in> set (A @ B). cursor_ok e"
    and "if A = [] then cursor = None else cursor = Some (cursor_text (last A))"
    and "length B \<le> audit_page_size * n"
  shows "walk_pages n ws filters cursor events = B"
  using assms
proof (induction n arbitrary: A B cursor)
  case (Suc n)
  note page = list_audit_events_suffix [OF Suc.prems(1-4)]
  show ?case
  proof (cases "audit_page_size < length B")
    case True
    define P where "P = take audit_page_size B"
    have P: "P \<noteq> []" "B = P @ drop audit_page_size B"
      using True by (auto simp: P_def audit_page_size_def)
    have "walk_pages n ws filters (Some (cursor_text (last P))) events = drop audit_page_size B"
    proof (rule Suc.IH [of "A @ P"])
      show "newest_first (filter (event_where ws filters) events) = (A @ P) @ drop audit_page_size B"
        using Suc.prems(1) P(2) by simp
      show "sorted_wrt (\<lambda>a b. event_key b < event_key a) ((A @ P) @ drop audit_page_size B)"
        using Suc.prems(2) P(2) by simp
      show "\<forall>e \<in> set ((A @ P) @ drop audit_page_size B). cursor_ok e"
        using Suc.prems(3) P(2) by simp
    qed (use P(1) Suc.prems(5) in auto)
    then show ?thesis using page True P(2) by (simp add: P_def [symmetric])
  qed (simp add: page)
qed simp

text \<open>
  C8 Paging through the audit log shows every event once. For events with uuid ids and plausible
  times, following the cursors for enough pages concatenates to exactly the workspace's events that
  match the filters, newest first: nothing is skipped or repeated at a page boundary, events of
  one millisecond included.
\<close>

theorem audit_pages_complete:
  assumes "unique_on ev_id events" "list_all cursor_ok events" "length events \<le> audit_page_size * n"
  shows "walk_pages n ws filters None events = newest_first (filter (event_where ws filters) events)"
proof (rule walk_pages_suffix [of _ _ _ "[]"])
  have "unique_on event_key (filter (event_where ws filters) events)"
    using assms(1) by (auto simp: unique_on_def distinct_map event_key_def inj_on_def)
  then show "sorted_wrt (\<lambda>a b. event_key b < event_key a)
      ([] @ newest_first (filter (event_where ws filters) events))"
    by (simp add: newest_first_descending)
  show "length (newest_first (filter (event_where ws filters) events)) \<le> audit_page_size * n"
    using order.trans [OF length_filter_le assms(3)] by (simp add: newest_first_def)
qed (use assms(2) in \<open>auto simp: newest_first_def list_all_iff\<close>)

definition sample_event :: "char \<Rightarrow> millis \<Rightarrow> audit_event" where
  "sample_event c t = \<lparr>ev_id = replicate 36 c, ev_workspace = ''w'', ev_actor = None, ev_action = ''folder.move'',
     ev_target_type = None, ev_target_id = None, ev_metadata = None, ev_created = t\<rparr>"

theorem audit_pages_complete_witness:
  "walk_pages 1 ''w'' \<lparr>af_category = Some ''library'', af_actor = None\<rparr> None
     [sample_event CHR ''a'' 1700000000000, sample_event CHR ''b'' 1700000000000]
   = [sample_event CHR ''b'' 1700000000000, sample_event CHR ''a'' 1700000000000]"
proof -
  let ?es = "[sample_event CHR ''a'' 1700000000000, sample_event CHR ''b'' 1700000000000]"
  let ?f = "\<lparr>af_category = Some ''library'', af_actor = None\<rparr>"
  have "unique_on ev_id ?es" by code_simp
  moreover have "list_all cursor_ok ?es" by code_simp
  moreover have "length ?es \<le> audit_page_size * 1" by (simp add: audit_page_size_def)
  moreover have "newest_first (filter (event_where ''w'' ?f) ?es) =
      [sample_event CHR ''b'' 1700000000000, sample_event CHR ''a'' 1700000000000]" by code_simp
  ultimately show ?thesis using audit_pages_complete by metis
qed

subsection \<open>Reading the CSV back\<close>

text \<open>A reader of one CSV record (RFC 4180): quoted cells double their quotes.\<close>

fun read_quoted :: "string \<Rightarrow> string \<times> string" where
  "read_quoted [] = ([], [])"
| "read_quoted [c] = (if c = CHR 0x22 then ([], []) else ([c], []))"
| "read_quoted (c # d # ds) =
     (if c \<noteq> CHR 0x22 then apfst ((#) c) (read_quoted (d # ds))
      else if d = CHR 0x22 then apfst ((#) d) (read_quoted ds)
      else ([], d # ds))"

definition read_cell :: "string \<Rightarrow> string \<times> string" where
  "read_cell s =
     (if s \<noteq> [] \<and> hd s = CHR 0x22 then read_quoted (tl s)
      else (takeWhile (\<lambda>c. c \<noteq> CHR '','') s, dropWhile (\<lambda>c. c \<noteq> CHR '','') s))"

lemma read_quoted_length: "length (snd (read_quoted s)) \<le> length s"
  by (induction s rule: read_quoted.induct) auto

lemma read_quoted_other: "c \<noteq> CHR 0x22 \<Longrightarrow> read_quoted (c # cs) = apfst ((#) c) (read_quoted cs)"
  by (cases cs) auto

lemma read_cell_length: "length (snd (read_cell s)) \<le> length s"
  using read_quoted_length [of "tl s"] by (auto simp: read_cell_def length_dropWhile_le)

function read_line :: "string \<Rightarrow> string list" where
  "read_line s =
     (let (cell, rest) = read_cell s in
      case rest of [] \<Rightarrow> [cell] | c # cs \<Rightarrow> cell # read_line cs)"
  by pat_completeness auto
termination
proof (relation "measure length", goal_cases)
  case (2 s p cell rest c cs)
  then show ?case using read_cell_length [of s] by (metis in_measure length_Cons less_eq_Suc_le snd_conv)
qed simp

declare read_line.simps [simp del]

lemma read_quoted_replace:
  "r = [] \<or> hd r \<noteq> CHR 0x22 \<Longrightarrow>
   read_quoted (replace_char CHR 0x22 [CHR 0x22, CHR 0x22] s @ CHR 0x22 # r) = (s, r)"
proof (induction s)
  case Nil
  then show ?case by (cases r) (simp_all add: replace_char_def)
next
  case (Cons c s)
  then show ?case by (cases "c = CHR 0x22") (simp_all add: replace_char_def read_quoted_other)
qed

lemma takeWhile_no_comma:
  "CHR '','' \<notin> set s \<Longrightarrow> r = [] \<or> hd r = CHR '','' \<Longrightarrow>
   takeWhile (\<lambda>c. c \<noteq> CHR '','') (s @ r) = s \<and> dropWhile (\<lambda>c. c \<noteq> CHR '','') (s @ r) = r"
  by (induction s) (cases r; auto)+

lemma read_cell_csv_cell:
  assumes "r = [] \<or> hd r = CHR '',''"
  shows "read_cell (csv_cell v @ r) = (csv_guard v, r)"
proof (cases "list_ex (\<lambda>c. c \<in> {CHR 0x22, CHR '','', CHR 0x0A, CHR 0x0D}) (csv_guard v)")
  case True
  with assms read_quoted_replace [of r "csv_guard v"] show ?thesis
    by (auto simp: csv_cell_def Let_def read_cell_def)
next
  case False
  then have "CHR '','' \<notin> set (csv_guard v)" "CHR 0x22 \<notin> set (csv_guard v)" by (auto simp: list_ex_iff)
  with False assms takeWhile_no_comma [of "csv_guard v" r] show ?thesis
    by (cases "csv_guard v") (auto simp: csv_cell_def Let_def read_cell_def)
qed

text \<open>
  The CSV export is unambiguous and inert. Reading an exported line back yields exactly the
  exported cells, whatever commas, quotes or line breaks they hold, each cell either unchanged or
  protected by a leading apostrophe; and no cell that is read starts with a character that a
  spreadsheet takes as the start of a formula.
\<close>

theorem csv_line_round_trip:
  assumes "cells \<noteq> []"
  shows "read_line (csv_line cells) = map csv_guard cells \<and>
    (\<forall>v. csv_guard v = v \<or> csv_guard v = CHR 0x27 # v) \<and>
    (\<forall>v. csv_guard v \<noteq> [] \<longrightarrow>
       hd (csv_guard v) \<notin> {CHR ''='', CHR ''+'', CHR ''-'', CHR ''@'', CHR 0x09, CHR 0x0D})"
proof -
  have "read_line (join_names '','' (map csv_cell cells)) = map csv_guard cells"
    using assms
  proof (induction cells rule: induct_list012)
    case (2 v)
    then show ?case using read_cell_csv_cell [of "[]" v] by (subst read_line.simps) simp
  next
    case (3 v w cells)
    then show ?case
      using read_cell_csv_cell [of "CHR '','' # join_names '','' (map csv_cell (w # cells))" v]
      by (subst read_line.simps) simp
  qed simp
  then show ?thesis by (auto simp: csv_line_def csv_guard_def)
qed

theorem csv_line_round_trip_witness:
  "read_line (csv_line [''=1+2'', ''a,b'', [CHR 0x22]]) = [CHR 0x27 # ''=1+2'', ''a,b'', [CHR 0x22]]"
proof -
  have "map csv_guard [''=1+2'', ''a,b'', [CHR 0x22]] = [CHR 0x27 # ''=1+2'', ''a,b'', [CHR 0x22]]"
    by code_simp
  then show ?thesis using csv_line_round_trip [of "[''=1+2'', ''a,b'', [CHR 0x22]]"] by simp
qed

end
