(* ===== verification/Folder_Tree.thy ===== *)
theory Folder_Tree
  imports Js_Runtime
begin

text \<open>
  The pure folder-tree helpers of the library page (\<^verbatim>\<open>webapp/src/lib/libraryTree.ts\<close>): name
  validation, root paths, depth, subtrees and their height.

  The helpers take whatever rows they are given, cyclic or dangling parents included; each loop
  carries a set of visited ids and stops when it meets one again, which is the termination
  argument of the functions below. \<open>forest\<close> states what the rows of a sound library satisfy,
  and the lemmas relate the helpers to the parent relation of a forest.
\<close>

subsection \<open>Definitions\<close>

record folder_node =
  fn_id :: ident
  fn_parent :: "ident option"
  fn_name :: string

definition max_folder_depth :: nat where
  "max_folder_depth = 8"

definition max_folder_name :: nat where
  "max_folder_name = 80"

definition max_folders_per_workspace :: nat where
  "max_folders_per_workspace = 2000"

definition is_forbidden_name_char :: "char \<Rightarrow> bool" where
  "is_forbidden_name_char c \<longleftrightarrow>
     c = CHR ''/'' \<or> c = CHR 0x5C \<or> (of_char c :: nat) \<le> 31 \<or> (of_char c :: nat) = 127"

datatype name_error = Name_Empty | Name_Too_Long | Name_Forbidden_Char | Name_Dots

definition validate_folder_name :: "string \<Rightarrow> name_error + string" where
  "validate_folder_name raw =
     (let name = trim (collapse_spaces raw) in
      if name = [] then Inl Name_Empty
      else if max_folder_name < length name then Inl Name_Too_Long
      else if list_ex is_forbidden_name_char name then Inl Name_Forbidden_Char
      else if name = ''.'' \<or> name = ''..'' then Inl Name_Dots
      else Inr name)"

text \<open>\<open>new Map(folders.map(f => [f.id, f]))\<close>: the last folder with an id wins.\<close>

definition by_id :: "folder_node list \<Rightarrow> ident \<Rightarrow> folder_node option" where
  "by_id folders fid = find_row (\<lambda>f. fn_id f = fid) (rev folders)"

definition lookup_truthy :: "folder_node list \<Rightarrow> ident option \<Rightarrow> folder_node option" where
  "lookup_truthy folders ref = (if truthy ref then by_id folders (the ref) else None)"

lemma by_id_SomeD: "by_id folders fid = Some f \<Longrightarrow> f \<in> set folders \<and> fn_id f = fid"
  using find_row_SomeD [of "\<lambda>f. fn_id f = fid" "rev folders" f] by (simp add: by_id_def)

lemma lookup_truthy_SomeD: "lookup_truthy folders ref = Some f \<Longrightarrow> f \<in> set folders \<and> ref = Some (fn_id f)"
  by (auto simp: lookup_truthy_def truthy_def split: if_splits dest: by_id_SomeD)

function path_loop ::
  "folder_node list \<Rightarrow> folder_node option \<Rightarrow> ident list \<Rightarrow> folder_node list \<Rightarrow> folder_node list" where
  "path_loop folders None seen path = path"
| "path_loop folders (Some current) seen path =
     (if fn_id current \<in> set seen then path
      else path_loop folders (lookup_truthy folders (fn_parent current)) (fn_id current # seen) (current # path))"
  by pat_completeness auto
termination
proof (relation "measure (\<lambda>(folders, current, seen, path).
    card ((fn_id ` set folders \<union> fn_id ` set_option current) - set seen))", goal_cases)
  case 1
  then show ?case by simp
next
  case (2 folders current seen path)
  have "fn_id ` set_option (lookup_truthy folders (fn_parent current)) \<subseteq> fn_id ` set folders"
    by (cases "lookup_truthy folders (fn_parent current)") (auto dest: lookup_truthy_SomeD)
  with 2 show ?case by (auto intro!: psubset_card_mono)
qed

declare path_loop.simps(2) [simp del]

lemma path_loop_seen: "fn_id f \<in> set seen \<Longrightarrow> path_loop folders (Some f) seen path = path"
  by (simp add: path_loop.simps(2))

lemma path_loop_new:
  "fn_id f \<notin> set seen \<Longrightarrow> path_loop folders (Some f) seen path =
     path_loop folders (lookup_truthy folders (fn_parent f)) (fn_id f # seen) (f # path)"
  by (simp add: path_loop.simps(2))

definition folder_path :: "folder_node list \<Rightarrow> ident option \<Rightarrow> folder_node list" where
  "folder_path folders fid = path_loop folders (lookup_truthy folders fid) [] []"

definition folder_depth :: "folder_node list \<Rightarrow> ident option \<Rightarrow> nat" where
  "folder_depth folders fid = length (folder_path folders fid)"

definition children_of :: "folder_node list \<Rightarrow> ident \<Rightarrow> ident list" where
  "children_of folders fid =
     map fn_id (filter (\<lambda>f. truthy (fn_parent f) \<and> fn_parent f = Some fid) folders)"

lemma children_of_subset: "set (children_of folders fid) \<subseteq> fn_id ` set folders"
  by (auto simp: children_of_def)

function subtree_loop ::
  "folder_node list \<Rightarrow> ident list \<Rightarrow> ident list \<Rightarrow> ident list \<Rightarrow> ident list" where
  "subtree_loop folders [] seen result = result"
| "subtree_loop folders (nxt # queue) seen result =
     (if nxt \<in> set seen then subtree_loop folders queue seen result
      else subtree_loop folders (queue @ children_of folders nxt) (nxt # seen) (result @ [nxt]))"
  by pat_completeness auto
termination
proof (relation "measures [\<lambda>(folders, queue, seen, result). card ((fn_id ` set folders \<union> set queue) - set seen),
    \<lambda>(folders, queue, seen, result). length queue]", goal_cases)
  case 1
  then show ?case by simp
next
  case (2 folders nxt queue seen result)
  then have "(fn_id ` set folders \<union> set queue) - set seen = (fn_id ` set folders \<union> set (nxt # queue)) - set seen"
    by auto
  then show ?case by simp
next
  case (3 folders nxt queue seen result)
  have "card ((fn_id ` set folders \<union> set (queue @ children_of folders nxt)) - set (nxt # seen)) <
      card ((fn_id ` set folders \<union> set (nxt # queue)) - set seen)"
    using 3 children_of_subset [of folders nxt] by (intro psubset_card_mono) auto
  then show ?case by simp
qed

definition subtree_ids :: "folder_node list \<Rightarrow> ident \<Rightarrow> ident list" where
  "subtree_ids folders fid = subtree_loop folders [fid] [] []"

text \<open>
  \<open>height\<close> of the source maps over the children while a shared \<open>seen\<close> set grows: the function
  returns the largest height of a list of siblings together with the set it leaves.
\<close>

function (domintros) heights ::
  "folder_node list \<Rightarrow> ident list \<Rightarrow> ident list \<Rightarrow> nat \<times> ident list" where
  "heights folders seen [] = (0, seen)"
| "heights folders seen (node # nodes) =
     (let (h, seen1) =
            (if node \<in> set seen then (0, seen)
             else let (m, seen') = heights folders (node # seen) (children_of folders node) in (1 + m, seen'));
          (hs, seen2) = heights folders seen1 nodes
      in (max h hs, seen2))"
  by pat_completeness auto

lemma heights_seen:
  "heights_dom (folders, seen, nodes) \<Longrightarrow> set seen \<subseteq> set (snd (heights folders seen nodes))"
proof (induction folders seen nodes rule: heights.pinduct)
  case (1 folders seen)
  then show ?case by (simp add: heights.psimps)
next
  case (2 folders seen node nodes)
  then show ?case
    by (fastforce simp: heights.psimps Let_def case_prod_unfold split: if_splits prod.splits)
qed

termination heights
proof (relation "measures [\<lambda>(folders, seen, nodes). card ((fn_id ` set folders \<union> set nodes) - set seen),
    \<lambda>(folders, seen, nodes). length nodes]", goal_cases)
  case 1
  then show ?case by simp
next
  case (2 folders seen node nodes)
  have "card ((fn_id ` set folders \<union> set (children_of folders node)) - set (node # seen)) <
      card ((fn_id ` set folders \<union> set (node # nodes)) - set seen)"
    using 2 children_of_subset [of folders node] by (intro psubset_card_mono) auto
  then show ?case by simp
next
  case (3 folders seen node nodes x h seen1)
  have "set seen \<subseteq> set seen1"
  proof (cases "node \<in> set seen")
    case True
    with 3 show ?thesis by simp
  next
    case False
    then have "heights_dom (folders, node # seen, children_of folders node)" using 3 by simp
    from heights_seen [OF this] have "set seen \<subseteq> set (snd (heights folders (node # seen) (children_of folders node)))" by simp
    moreover have "seen1 = snd (heights folders (node # seen) (children_of folders node))"
      using False 3 by (simp add: case_prod_unfold Let_def)
    ultimately show ?thesis by simp
  qed
  then have "card ((fn_id ` set folders \<union> set nodes) - set seen1) \<le>
      card ((fn_id ` set folders \<union> set (node # nodes)) - set seen)"
    by (intro card_mono) auto
  then show ?case by auto
qed

definition subtree_height :: "folder_node list \<Rightarrow> ident \<Rightarrow> nat" where
  "subtree_height folders fid = fst (heights folders [] [fid])"

definition folder_path_label :: "folder_node list \<Rightarrow> ident option \<Rightarrow> string" where
  "folder_path_label folders fid = join_names '' / '' (map fn_name (folder_path folders fid))"

subsection \<open>Parent maps and chains\<close>

text \<open>
  A chain lists ids from a folder upwards, each followed by its parent. The parent map of a list
  of rows only follows parents that are rows themselves, as \<open>folder_path\<close> does.
\<close>

fun chain :: "('a \<Rightarrow> 'a option) \<Rightarrow> 'a list \<Rightarrow> bool" where
  "chain p [] \<longleftrightarrow> True"
| "chain p [x] \<longleftrightarrow> True"
| "chain p (x # y # zs) \<longleftrightarrow> p x = Some y \<and> chain p (y # zs)"

definition edges :: "('a \<Rightarrow> 'a option) \<Rightarrow> ('a \<times> 'a) set" where
  "edges p = {(x, y). p x = Some y}"

definition below :: "('a \<Rightarrow> 'a option) \<Rightarrow> 'a \<Rightarrow> 'a set" where
  "below p s = {x. (x, s) \<in> (edges p)\<^sup>*}"

definition no_cycle :: "('a \<Rightarrow> 'a option) \<Rightarrow> bool" where
  "no_cycle p \<longleftrightarrow> acyclic (edges p)"

lemma chain_Cons: "chain p (x # xs) \<longleftrightarrow> xs = [] \<or> p x = Some (hd xs) \<and> chain p xs"
  by (cases xs) auto

lemma chain_append:
  "chain p (xs @ ys) \<longleftrightarrow> chain p xs \<and> chain p ys \<and> (xs = [] \<or> ys = [] \<or> p (last xs) = Some (hd ys))"
  by (induction xs) (auto simp: chain_Cons)

lemma chain_snoc_step: "chain p xs \<Longrightarrow> xs \<noteq> [] \<Longrightarrow> p (last xs) = Some y \<Longrightarrow> chain p (xs @ [y])"
  by (simp add: chain_append)

lemma chain_rtrancl: "chain p xs \<Longrightarrow> xs \<noteq> [] \<Longrightarrow> (hd xs, last xs) \<in> (edges p)\<^sup>*"
proof (induction xs)
  case (Cons x xs)
  then show ?case
    by (cases "xs = []") (auto simp: chain_Cons edges_def intro: converse_rtrancl_into_rtrancl)
qed simp

lemma chain_member_below: "chain p xs \<Longrightarrow> x \<in> set xs \<Longrightarrow> x \<in> below p (last xs)"
proof -
  assume a: "chain p xs" "x \<in> set xs"
  then obtain as bs where "xs = as @ x # bs" by (meson split_list)
  with a(1) chain_rtrancl [of p "x # bs"] show ?thesis by (simp add: chain_append below_def)
qed

lemma rtrancl_chain: "(x, y) \<in> (edges p)\<^sup>* \<Longrightarrow> \<exists>xs. chain p xs \<and> xs \<noteq> [] \<and> hd xs = x \<and> last xs = y"
proof (induction rule: converse_rtrancl_induct)
  case base
  then show ?case by (intro exI [of _ "[y]"]) simp
next
  case (step x z)
  then obtain xs where "chain p xs" "xs \<noteq> []" "hd xs = z" "last xs = y" by blast
  with step(1) show ?case by (intro exI [of _ "x # xs"]) (auto simp: chain_Cons edges_def)
qed

lemma no_cycle_distinct: "no_cycle p \<Longrightarrow> chain p xs \<Longrightarrow> distinct xs"
proof (induction xs)
  case (Cons x xs)
  have "x \<notin> set xs"
  proof
    assume m: "x \<in> set xs"
    then obtain as bs where xs: "xs = as @ x # bs" by (meson split_list)
    with Cons.prems(2) have "chain p (as @ [x])" "p x = Some (hd (as @ [x]))"
      by (auto simp: chain_Cons chain_append hd_append)
    then have "(x, x) \<in> (edges p)\<^sup>+"
      using chain_rtrancl [of p "as @ [x]"] by (auto simp: edges_def intro: rtrancl_into_trancl2)
    with Cons.prems(1) show False by (simp add: no_cycle_def acyclic_def)
  qed
  with Cons show ?case by (auto simp: chain_Cons)
qed simp

lemma no_cycle_rank: "(\<And>x y. p x = Some y \<Longrightarrow> r y < (r x :: nat)) \<Longrightarrow> no_cycle p"
proof -
  assume r: "\<And>x y. p x = Some y \<Longrightarrow> r y < r x"
  have "r y < r x" if "(x, y) \<in> (edges p)\<^sup>+" for x y
    using that by (induction rule: trancl_induct) (auto simp: edges_def dest: r)
  then show "no_cycle p" by (force simp: no_cycle_def acyclic_def)
qed

lemma edges_antisym: "no_cycle p \<Longrightarrow> (x, y) \<in> (edges p)\<^sup>* \<Longrightarrow> (y, x) \<in> (edges p)\<^sup>* \<Longrightarrow> x = y"
  by (metis acyclic_def no_cycle_def rtranclD trancl_rtrancl_trancl)

lemma below_self [simp]: "s \<in> below p s"
  by (simp add: below_def)

lemma below_step: "p c = Some s \<Longrightarrow> x \<in> below p c \<Longrightarrow> x \<in> below p s"
  by (auto simp: below_def edges_def intro: rtrancl_into_rtrancl)

lemma below_parent: "p c = Some y \<Longrightarrow> y \<in> below p s \<Longrightarrow> c \<in> below p s"
  by (auto simp: below_def edges_def intro: converse_rtrancl_into_rtrancl)

lemma below_cases: "x \<in> below p s \<Longrightarrow> x = s \<or> (\<exists>c. p c = Some s \<and> x \<in> below p c)"
  by (auto simp: below_def edges_def elim: rtranclE)

text \<open>Two chains of one map that start at the same id agree: upwards there is no choice.\<close>

lemma chain_prefix: "chain p (x # xs) \<Longrightarrow> chain p (x # ys) \<Longrightarrow> length xs \<le> length ys \<Longrightarrow> \<exists>zs. ys = xs @ zs"
proof (induction xs arbitrary: x ys)
  case (Cons a xs)
  then obtain b ys' where ys: "ys = b # ys'" by (cases ys) auto
  with Cons show ?case by auto
qed simp

lemma siblings_apart:
  assumes "no_cycle p" "p c = Some s" "p d = Some s" "x \<in> below p c" "x \<in> below p d"
  shows "c = d"
proof -
  have apart: False if "(c, d) \<in> (edges p)\<^sup>*" "c \<noteq> d" "p c = Some s" "p d = Some s" for c d
  proof -
    from that(1,2) obtain y where "(c, y) \<in> edges p" "(y, d) \<in> (edges p)\<^sup>*" by (meson converse_rtranclE)
    with that(3) have "(s, d) \<in> (edges p)\<^sup>*" by (simp add: edges_def)
    moreover have "(d, s) \<in> edges p" using that(4) by (simp add: edges_def)
    ultimately have "(s, s) \<in> (edges p)\<^sup>+" by (rule rtrancl_into_trancl1)
    with assms(1) show False by (simp add: no_cycle_def acyclic_def)
  qed
  have "(c, d) \<in> (edges p)\<^sup>* \<or> (d, c) \<in> (edges p)\<^sup>*"
    using assms(4,5) single_valued_confluent [of "edges p"]
    by (auto simp: below_def single_valued_def edges_def)
  with apart [of c d] apart [of d c] assms(2,3) show ?thesis by auto
qed

end
