(* ===== verification/Folder_Forest.thy ===== *)
theory Folder_Forest
  imports Folder_Tree
begin

text \<open>
  What the tree helpers compute on the rows of a sound library. \<open>parent_of\<close> is the parent map the
  helpers follow; a \<open>forest\<close> has unique non-empty ids and no cycle. On a forest \<open>subtreeIds\<close> lists
  exactly the folders below its argument, \<open>folderPath\<close> is the complete chain to the top, and
  \<open>subtreeHeight\<close> is at least the length of every chain that ends at its argument, so the depth
  check of a move bounds the depth of every folder after the move.
\<close>

subsection \<open>The parent map of the rows\<close>

definition parent_of :: "folder_node list \<Rightarrow> ident \<Rightarrow> ident option" where
  "parent_of ns x =
     (case by_id ns x of
        None \<Rightarrow> None
      | Some f \<Rightarrow> map_option fn_id (lookup_truthy ns (fn_parent f)))"

definition sound_ids :: "folder_node list \<Rightarrow> bool" where
  "sound_ids ns \<longleftrightarrow> unique_on fn_id ns \<and> (\<forall>f \<in> set ns. fn_id f \<noteq> [])"

definition forest :: "folder_node list \<Rightarrow> bool" where
  "forest ns \<longleftrightarrow> sound_ids ns \<and> no_cycle (parent_of ns)"

lemma by_id_iff: "sound_ids ns \<Longrightarrow> by_id ns x = Some f \<longleftrightarrow> f \<in> set ns \<and> fn_id f = x"
  using find_row_key_iff [of fn_id "rev ns" x f]
  by (simp add: by_id_def sound_ids_def unique_on_def rev_map [symmetric])

lemma by_id_None_iff: "by_id ns x = None \<longleftrightarrow> x \<notin> fn_id ` set ns"
  by (auto simp: by_id_def find_row_None_iff)

lemma parent_of_iff:
  assumes "sound_ids ns"
  shows "parent_of ns x = Some y \<longleftrightarrow>
    (\<exists>f \<in> set ns. fn_id f = x \<and> fn_parent f = Some y) \<and> y \<in> fn_id ` set ns"
proof
  assume "parent_of ns x = Some y"
  then obtain f g where "by_id ns x = Some f" "lookup_truthy ns (fn_parent f) = Some g" "fn_id g = y"
    by (auto simp: parent_of_def split: option.splits)
  then show "(\<exists>f \<in> set ns. fn_id f = x \<and> fn_parent f = Some y) \<and> y \<in> fn_id ` set ns"
    by (auto dest!: by_id_SomeD lookup_truthy_SomeD)
next
  assume r: "(\<exists>f \<in> set ns. fn_id f = x \<and> fn_parent f = Some y) \<and> y \<in> fn_id ` set ns"
  then obtain f g where f: "f \<in> set ns" "fn_id f = x" "fn_parent f = Some y" and g: "g \<in> set ns" "fn_id g = y"
    by auto
  then have "by_id ns x = Some f" "by_id ns y = Some g" "y \<noteq> []"
    using assms by (auto simp: by_id_iff sound_ids_def)
  with f(3) g(2) show "parent_of ns x = Some y" by (simp add: parent_of_def lookup_truthy_def truthy_def)
qed

lemma parent_of_dom: "parent_of ns x = Some y \<Longrightarrow> x \<in> fn_id ` set ns \<and> y \<in> fn_id ` set ns"
  by (auto simp: parent_of_def split: option.splits dest!: by_id_SomeD lookup_truthy_SomeD)

lemma chain_ids: "chain (parent_of ns) xs \<Longrightarrow> xs \<noteq> [] \<Longrightarrow> last xs \<in> fn_id ` set ns \<Longrightarrow> set xs \<subseteq> fn_id ` set ns"
  by (induction xs) (auto simp: chain_Cons split: if_splits dest: parent_of_dom)

lemma children_of_iff:
  "sound_ids ns \<Longrightarrow> x \<in> fn_id ` set ns \<Longrightarrow> c \<in> set (children_of ns x) \<longleftrightarrow> parent_of ns c = Some x"
  by (auto simp: children_of_def parent_of_iff truthy_def sound_ids_def)

lemma distinct_children: "sound_ids ns \<Longrightarrow> distinct (children_of ns x)"
  by (simp add: children_of_def sound_ids_def unique_on_def distinct_map_filter)

subsection \<open>Paths\<close>

lemma path_loop_chain:
  assumes "by_id folders x = Some f"
  shows "\<exists>xs. path_loop folders (Some f) seen path = rev xs @ path \<and> chain (parent_of folders) (map fn_id xs) \<and>
    (xs = [] \<longleftrightarrow> fn_id f \<in> set seen) \<and> (xs \<noteq> [] \<longrightarrow> hd xs = f) \<and> set xs \<subseteq> set folders \<and>
    (xs \<noteq> [] \<longrightarrow> set_option (parent_of folders (fn_id (last xs))) \<subseteq> set seen \<union> fn_id ` set xs)"
  using assms
proof (induction folders "Some f" seen path arbitrary: x f rule: path_loop.induct)
  case (2 folders f seen path)
  have x: "x = fn_id f" "f \<in> set folders" using by_id_SomeD [OF 2(2)] by simp_all
  show ?case
  proof (cases "fn_id f \<in> set seen")
    case True
    then show ?thesis by (intro exI [of _ "[]"]) (simp add: path_loop_seen)
  next
    case False
    show ?thesis
    proof (cases "lookup_truthy folders (fn_parent f)")
      case None
      then show ?thesis using False x 2(2)
        by (intro exI [of _ "[f]"]) (simp add: parent_of_def path_loop_new)
    next
      case (Some g)
      then have g: "by_id folders (fn_id g) = Some g" "parent_of folders (fn_id f) = Some (fn_id g)"
        using lookup_truthy_SomeD [OF Some] 2(2) x
        by (auto simp: lookup_truthy_def parent_of_def split: if_splits)
      from 2(1) [OF False Some g(1)] obtain xs where xs:
        "path_loop folders (Some g) (fn_id f # seen) (f # path) = rev xs @ f # path"
        "chain (parent_of folders) (map fn_id xs)" "xs = [] \<longleftrightarrow> fn_id g \<in> set (fn_id f # seen)"
        "xs \<noteq> [] \<longrightarrow> hd xs = g" "set xs \<subseteq> set folders"
        "xs \<noteq> [] \<longrightarrow> set_option (parent_of folders (fn_id (last xs))) \<subseteq> set (fn_id f # seen) \<union> fn_id ` set xs"
        by (elim exE conjE) blast
      have "path_loop folders (Some f) seen path = rev (f # xs) @ path"
        using xs(1) Some by (simp add: path_loop_new [OF False])
      moreover have "chain (parent_of folders) (map fn_id (f # xs))"
        using xs(2,4) g(2) by (cases xs) auto
      moreover have "set_option (parent_of folders (fn_id (last (f # xs)))) \<subseteq> set seen \<union> fn_id ` set (f # xs)"
        using xs(3,6) g(2) by (cases "xs = []") auto
      ultimately show ?thesis using False x(2) xs(5) by (intro exI [of _ "f # xs"]) simp
    qed
  qed
qed

text \<open>On a forest the path is the complete chain from the folder to the top.\<close>

lemma folder_path_chain:
  assumes "forest folders" "x \<in> fn_id ` set folders"
  obtains xs where "map fn_id (folder_path folders (Some x)) = rev (x # xs)"
    "chain (parent_of folders) (x # xs)" "parent_of folders (last (x # xs)) = None"
proof -
  have s: "sound_ids folders" and nc: "no_cycle (parent_of folders)" using assms(1) by (simp_all add: forest_def)
  from assms(2) obtain f where f: "f \<in> set folders" "fn_id f = x" by auto
  then have "by_id folders x = Some f" "x \<noteq> []" using s by (auto simp: by_id_iff sound_ids_def)
  then have p: "folder_path folders (Some x) = path_loop folders (Some f) [] []"
    by (simp add: folder_path_def lookup_truthy_def truthy_def)
  from path_loop_chain [OF \<open>by_id folders x = Some f\<close>, of "[]" "[]"] obtain xs where xs:
    "path_loop folders (Some f) [] [] = rev xs" "chain (parent_of folders) (map fn_id xs)" "xs \<noteq> []" "hd xs = f"
    "set_option (parent_of folders (fn_id (last xs))) \<subseteq> fn_id ` set xs"
    by auto
  have h: "map fn_id xs = x # map fn_id (tl xs)" using xs(3,4) f(2) by (cases xs) auto
  have "parent_of folders (last (map fn_id xs)) = None"
  proof (rule ccontr)
    assume "parent_of folders (last (map fn_id xs)) \<noteq> None"
    then obtain y where y: "parent_of folders (last (map fn_id xs)) = Some y" by blast
    then have "y \<in> set (map fn_id xs)" using xs(3,5) by (simp add: last_map)
    moreover have "chain (parent_of folders) (map fn_id xs @ [y])"
      using chain_snoc_step [OF xs(2) _ y] xs(3) by simp
    ultimately show False using no_cycle_distinct [OF nc, of "map fn_id xs @ [y]"] by auto
  qed
  with that [of "map fn_id (tl xs)"] xs(1,2) h p show ?thesis by (simp add: rev_map [symmetric])
qed

lemma folder_depth_top [simp]: "folder_depth folders None = 0"
  by (simp add: folder_depth_def folder_path_def lookup_truthy_def truthy_def)

lemma folder_depth_unknown: "x \<notin> fn_id ` set folders \<Longrightarrow> folder_depth folders (Some x) = 0"
  using by_id_None_iff [of folders x]
  by (auto simp: folder_depth_def folder_path_def lookup_truthy_def)

text \<open>The depth of a folder bounds every chain that starts at it.\<close>

lemma chain_le_depth:
  assumes "forest folders" "x \<in> fn_id ` set folders" "chain (parent_of folders) (x # ys)"
  shows "length (x # ys) \<le> folder_depth folders (Some x)"
proof -
  from folder_path_chain [OF assms(1,2)] obtain xs where xs:
    "map fn_id (folder_path folders (Some x)) = rev (x # xs)" "chain (parent_of folders) (x # xs)"
    "parent_of folders (last (x # xs)) = None" by blast
  have "length ys \<le> length xs"
  proof (rule ccontr)
    assume "\<not> ?thesis"
    then obtain zs where zs: "ys = xs @ zs" "zs \<noteq> []"
      using chain_prefix [OF xs(2) assms(3)] by fastforce
    with assms(3) have "chain (parent_of folders) ((x # xs) @ zs)" by simp
    with zs(2) xs(3) show False by (simp only: chain_append) auto
  qed
  moreover have "length (folder_path folders (Some x)) = length (x # xs)"
    using arg_cong [OF xs(1), of length] by simp
  ultimately show ?thesis by (simp add: folder_depth_def)
qed

lemma folder_depth_le_iff:
  assumes "forest folders" "x \<in> fn_id ` set folders"
  shows "folder_depth folders (Some x) \<le> n \<longleftrightarrow> (\<forall>ys. chain (parent_of folders) (x # ys) \<longrightarrow> length (x # ys) \<le> n)"
proof
  show "\<forall>ys. chain (parent_of folders) (x # ys) \<longrightarrow> length (x # ys) \<le> n" if "folder_depth folders (Some x) \<le> n"
    using that chain_le_depth [OF assms] by (meson order.trans)
  show "folder_depth folders (Some x) \<le> n" if r: "\<forall>ys. chain (parent_of folders) (x # ys) \<longrightarrow> length (x # ys) \<le> n"
  proof -
    from folder_path_chain [OF assms] obtain xs where
      "map fn_id (folder_path folders (Some x)) = rev (x # xs)" "chain (parent_of folders) (x # xs)" by blast
    with r show ?thesis by (metis folder_depth_def length_map length_rev)
  qed
qed

subsection \<open>Subtrees\<close>

lemma subtree_loop_closed:
  assumes "set seen = set result" "distinct result" "set queue \<union> set result \<subseteq> R"
    and "\<And>x. x \<in> R \<Longrightarrow> set (children_of folders x) \<subseteq> R"
    and "\<And>x. x \<in> set result \<Longrightarrow> set (children_of folders x) \<subseteq> set result \<union> set queue"
  shows "distinct (subtree_loop folders queue seen result) \<and>
    set result \<union> set queue \<subseteq> set (subtree_loop folders queue seen result) \<and>
    set (subtree_loop folders queue seen result) \<subseteq> R \<and>
    (\<forall>x \<in> set (subtree_loop folders queue seen result).
       set (children_of folders x) \<subseteq> set (subtree_loop folders queue seen result))"
  using assms
proof (induction folders queue seen result rule: subtree_loop.induct)
  case (1 folders seen result)
  then show ?case by simp
next
  case (2 folders nxt queue seen result)
  show ?case
  proof (cases "nxt \<in> set seen")
    case True
    let ?l = "subtree_loop folders queue seen result"
    have nxt: "nxt \<in> set result" using True 2(3) by simp
    have "distinct ?l \<and> set result \<union> set queue \<subseteq> set ?l \<and> set ?l \<subseteq> R \<and>
      (\<forall>x \<in> set ?l. set (children_of folders x) \<subseteq> set ?l)"
    proof (rule 2(1) [OF True 2(3,4)])
      show "set queue \<union> set result \<subseteq> R" using 2(5) by simp
      show "set (children_of folders x) \<subseteq> R" if "x \<in> R" for x using that by (rule 2(6))
      show "set (children_of folders x) \<subseteq> set result \<union> set queue" if "x \<in> set result" for x
        using 2(7) [OF that] nxt by auto
    qed
    then show ?thesis using True nxt by (simp add: subset_iff)
  next
    case False
    let ?l = "subtree_loop folders (queue @ children_of folders nxt) (nxt # seen) (result @ [nxt])"
    have "distinct ?l \<and> set (result @ [nxt]) \<union> set (queue @ children_of folders nxt) \<subseteq> set ?l \<and>
      set ?l \<subseteq> R \<and> (\<forall>x \<in> set ?l. set (children_of folders x) \<subseteq> set ?l)"
    proof (rule 2(2) [OF False])
      show "set (nxt # seen) = set (result @ [nxt])" "distinct (result @ [nxt])"
        using 2(3,4) False by auto
      show "set (queue @ children_of folders nxt) \<union> set (result @ [nxt]) \<subseteq> R"
        using 2(5) 2(6) [of nxt] by auto
      show "set (children_of folders x) \<subseteq> R" if "x \<in> R" for x using that by (rule 2(6))
      show "set (children_of folders x) \<subseteq> set (result @ [nxt]) \<union> set (queue @ children_of folders nxt)"
        if "x \<in> set (result @ [nxt])" for x
        using that 2(7) [of x] by auto
    qed
    then show ?thesis using False by (simp add: subset_iff)
  qed
qed

text \<open>\<open>subtreeIds\<close> lists every folder at or below its argument, once.\<close>

lemma subtree_ids_below:
  assumes "sound_ids folders" "x \<in> fn_id ` set folders"
  shows "set (subtree_ids folders x) = below (parent_of folders) x \<and> distinct (subtree_ids folders x)"
proof -
  let ?p = "parent_of folders" and ?l = "subtree_ids folders x"
  have sub: "below ?p x \<subseteq> fn_id ` set folders"
  proof
    fix y assume "y \<in> below ?p x"
    then show "y \<in> fn_id ` set folders"
      using assms(2) by (auto simp: below_def edges_def dest: parent_of_dom elim: converse_rtranclE)
  qed
  have closed: "set (children_of folders y) \<subseteq> below ?p x" if "y \<in> below ?p x" for y
  proof -
    have "y \<in> fn_id ` set folders" using that sub by blast
    with that show ?thesis using children_of_iff [OF assms(1)] by (auto intro: below_parent)
  qed
  from subtree_loop_closed [of "[]" "[]" "[x]" "below ?p x" folders, OF _ _ _ closed]
  have l: "distinct ?l" "x \<in> set ?l" "set ?l \<subseteq> below ?p x"
    "\<And>y. y \<in> set ?l \<Longrightarrow> set (children_of folders y) \<subseteq> set ?l"
    by (simp_all add: subtree_ids_def)
  have "y \<in> set ?l" if "(y, x) \<in> (edges ?p)\<^sup>*" for y
    using that
  proof (induction rule: converse_rtrancl_induct)
    case (step y z)
    then have "z \<in> fn_id ` set folders" "?p y = Some z" by (auto simp: edges_def dest: parent_of_dom)
    with l(4) [OF step(3)] show ?case using children_of_iff [OF assms(1)] by auto
  qed (rule l(2))
  with l show ?thesis by (auto simp: below_def)
qed

subsection \<open>Heights\<close>

lemma heights_seen_upper:
  assumes "sound_ids folders" "set nodes \<subseteq> fn_id ` set folders"
  shows "set (snd (heights folders seen nodes)) \<subseteq> set seen \<union> (\<Union>n \<in> set nodes. below (parent_of folders) n)"
  using assms
proof (induction folders seen nodes rule: heights.induct)
  case (2 folders seen node nodes)
  let ?B = "\<lambda>n. below (parent_of folders) n"
  define r where "r = (if node \<in> set seen then (0, seen)
     else let (m, seen') = heights folders (node # seen) (children_of folders node) in (1 + m, seen'))"
  have "set (snd r) \<subseteq> set seen \<union> ?B node"
  proof (cases "node \<in> set seen")
    case False
    have "(\<Union>n \<in> set (children_of folders node). ?B n) \<subseteq> ?B node"
      using 2(3,4) children_of_iff [of folders node] below_step by fastforce
    moreover have "set (snd (heights folders (node # seen) (children_of folders node)))
      \<subseteq> set (node # seen) \<union> (\<Union>n \<in> set (children_of folders node). ?B n)"
      using 2(1) [OF False 2(3)] children_of_subset [of folders node] by simp
    ultimately have "set (snd (heights folders (node # seen) (children_of folders node))) \<subseteq> set seen \<union> ?B node"
      using below_self [of node "parent_of folders"] by (simp only: set_simps) blast
    then show ?thesis using False by (simp add: r_def case_prod_unfold Let_def)
  qed (simp add: r_def)
  moreover have "set (snd (heights folders (snd r) nodes)) \<subseteq> set (snd r) \<union> (\<Union>n \<in> set nodes. ?B n)"
    using 2(2) [OF r_def _ 2(3), of "fst r" "snd r"] 2(4) by simp
  moreover have "snd (heights folders seen (node # nodes)) = snd (heights folders (snd r) nodes)"
    by (simp add: r_def case_prod_unfold Let_def)
  ultimately show ?case by auto
qed simp

definition apart :: "(ident \<Rightarrow> ident option) \<Rightarrow> ident list \<Rightarrow> bool" where
  "apart p nodes \<longleftrightarrow> distinct nodes \<and>
     (\<forall>m \<in> set nodes. \<forall>n \<in> set nodes. m \<noteq> n \<longrightarrow> below p m \<inter> below p n = {})"

lemma apart_Cons:
  "apart p (m # nodes) \<longleftrightarrow> apart p nodes \<and> m \<notin> set nodes \<and> (\<forall>n \<in> set nodes. below p m \<inter> below p n = {})"
  unfolding apart_def list.set distinct.simps by (metis Int_commute insertE insertI1 insertI2)

lemma children_apart:
  assumes "forest folders" "node \<in> fn_id ` set folders"
  shows "apart (parent_of folders) (children_of folders node)"
proof -
  have s: "sound_ids folders" and n: "no_cycle (parent_of folders)" using assms(1) by (simp_all add: forest_def)
  show ?thesis
    unfolding apart_def
    using distinct_children [OF s] children_of_iff [OF s assms(2)] siblings_apart [OF n, of _ node]
    by blast
qed

lemma child_not_above:
  assumes "no_cycle p" "p c = Some node"
  shows "node \<notin> below p c"
proof
  assume "node \<in> below p c"
  then have "(node, c) \<in> (edges p)\<^sup>*" by (simp add: below_def)
  then have "(node, node) \<in> (edges p)\<^sup>+" by (rule rtrancl_into_trancl1) (simp add: edges_def assms(2))
  with assms(1) show False by (simp add: no_cycle_def acyclic_def)
qed

lemma heights_bound_chains:
  assumes "forest folders" "set nodes \<subseteq> fn_id ` set folders" "apart (parent_of folders) nodes"
    and "\<And>n. n \<in> set nodes \<Longrightarrow> below (parent_of folders) n \<inter> set seen = {}"
    and "n \<in> set nodes" "chain (parent_of folders) (xs @ [n])"
  shows "length (xs @ [n]) \<le> fst (heights folders seen nodes)"
  using assms
proof (induction folders seen nodes arbitrary: n xs rule: heights.induct)
  case (2 folders seen node nodes)
  let ?p = "parent_of folders"
  have s: "sound_ids folders" and nc: "no_cycle ?p" using 2(3) by (simp_all add: forest_def)
  have node: "node \<in> fn_id ` set folders" using 2(4) by simp
  have node_new: "node \<notin> set seen" using 2(6) [OF list.set_intros(1)] below_self [of node ?p] by blast
  have kid: "below ?p c \<inter> set (node # seen) = {}" if "c \<in> set (children_of folders node)" for c
  proof -
    have c: "?p c = Some node" using that children_of_iff [OF s node] by simp
    have "below ?p c \<subseteq> below ?p node" using below_step [of ?p c node, OF c] by blast
    with 2(6) [of node] child_not_above [of ?p c node, OF nc c] show ?thesis by auto
  qed
  define r where "r = (if node \<in> set seen then (0, seen)
     else let (m, seen') = heights folders (node # seen) (children_of folders node) in (1 + m, seen'))"
  have r: "r = (1 + fst (heights folders (node # seen) (children_of folders node)),
      snd (heights folders (node # seen) (children_of folders node)))"
    using node_new by (simp add: r_def case_prod_unfold Let_def)
  have split: "fst (heights folders seen (node # nodes)) = max (fst r) (fst (heights folders (snd r) nodes))"
    by (simp add: r_def case_prod_unfold Let_def)
  show ?case
  proof (cases "n = node")
    case True
    have "length (xs @ [node]) \<le> fst r"
    proof (cases xs rule: rev_cases)
      case (snoc ys c)
      then have c: "?p c = Some node" "chain ?p (ys @ [c])" using 2(8) True by (auto simp: chain_append)
      then have "c \<in> set (children_of folders node)" using children_of_iff [OF s node] by simp
      from 2(1) [OF node_new 2(3) _ children_apart [OF 2(3) node] kid this c(2)] children_of_subset
      have "length (ys @ [c]) \<le> fst (heights folders (node # seen) (children_of folders node))" by blast
      with snoc r show ?thesis by simp
    qed (simp add: r)
    with True split show ?thesis by simp
  next
    case False
    then have n: "n \<in> set nodes" using 2(7) by simp
    have "set (snd r) \<subseteq> set seen \<union> below ?p node"
    proof -
      have "set (snd r) \<subseteq> set (node # seen) \<union> (\<Union>c \<in> set (children_of folders node). below ?p c)"
        using heights_seen_upper [OF s children_of_subset, of "node # seen" node] by (simp add: r)
      moreover have "below ?p c \<subseteq> below ?p node" if "c \<in> set (children_of folders node)" for c
        using that children_of_iff [OF s node, of c] below_step [of ?p c node] by blast
      ultimately show ?thesis using below_self [of node ?p] by (simp only: set_simps) blast
    qed
    then have "below ?p m \<inter> set (snd r) = {}" if "m \<in> set nodes" for m
      using that 2(6) [of m] 2(5) by (auto simp: apart_Cons)
    moreover have "set nodes \<subseteq> fn_id ` set folders" "apart ?p nodes" using 2(4,5) by (auto simp: apart_Cons)
    ultimately have "length (xs @ [n]) \<le> fst (heights folders (snd r) nodes)"
      using 2(2) [OF r_def _ 2(3), of "fst r" "snd r"] n 2(8) by simp
    with split show ?thesis by simp
  qed
qed simp

text \<open>The height bounds every chain that ends at the folder.\<close>

lemma chain_le_height:
  assumes "forest folders" "x \<in> fn_id ` set folders" "chain (parent_of folders) (xs @ [x])"
  shows "length (xs @ [x]) \<le> subtree_height folders x"
  unfolding subtree_height_def
  by (rule heights_bound_chains [OF assms(1) _ _ _ _ assms(3)]) (use assms(2) in \<open>auto simp: apart_def\<close>)

end
