(* ===== verification/Object_Queue.thy ===== *)
theory Object_Queue
  imports Js_Runtime
begin

text \<open>
  Object keys and the queue of deferred object deletions (\<^verbatim>\<open>webapp/src/lib/objectStorage.ts\<close>). A
  queue row is identified by a digest of backend and key; the model, which has one backend, uses
  the key. Deleting the object itself is a call to the object store and is not modelled: whether
  it succeeds is an argument.
\<close>

definition max_object_key_length :: nat where
  "max_object_key_length = 300"

definition is_key_char :: "char \<Rightarrow> bool" where
  "is_key_char c \<longleftrightarrow> is_ascii_digit c \<or> is_ascii_lower c \<or> is_ascii_upper c \<or>
     c = CHR ''/'' \<or> c = CHR ''_'' \<or> c = CHR ''-''"

definition safe_key :: "string \<Rightarrow> string option" where
  "safe_key key =
     (if key = [] \<or> max_object_key_length < length key \<or> hd key = CHR ''/'' \<or> contains_sub key ''..''
      then None
      else Some (map (\<lambda>c. if is_key_char c then c else CHR ''_'') key))"

record queued_deletion =
  qd_key :: string
  qd_next :: millis
  qd_attempts :: nat

definition queue_object_deletion :: "string \<Rightarrow> millis \<Rightarrow> queued_deletion list \<Rightarrow> queued_deletion list option" where
  "queue_object_deletion key not_before q =
     (case safe_key key of
        None \<Rightarrow> None
      | Some k \<Rightarrow> Some
          (if find_row (\<lambda>r. qd_key r = k) q = None
           then q @ [\<lparr>qd_key = k, qd_next = not_before, qd_attempts = 0\<rparr>]
           else update_rows (\<lambda>r. qd_key r = k) (\<lambda>r. r\<lparr>qd_next := not_before\<rparr>) q))"

text \<open>\<open>createMany({ skipDuplicates: true })\<close>: an existing row, also one inserted by the same call, stays.\<close>

fun queue_object_deletions ::
  "millis \<Rightarrow> (string \<times> millis option) list \<Rightarrow> queued_deletion list \<Rightarrow> queued_deletion list" where
  "queue_object_deletions now [] q = q"
| "queue_object_deletions now ((key, signed_until) # objects) q =
     (case safe_key key of
        None \<Rightarrow> queue_object_deletions now objects q
      | Some k \<Rightarrow>
          queue_object_deletions now objects
            (if find_row (\<lambda>r. qd_key r = k) q = None
             then q @ [\<lparr>qd_key = k, qd_next = case_option now (\<lambda>t. t) signed_until, qd_attempts = 0\<rparr>]
             else q))"

definition deletion_backoff :: "nat \<Rightarrow> millis" where
  "deletion_backoff attempts = min 3600000 (60000 * 2 ^ min attempts 6)"

text \<open>
  One pass over the at most one hundred rows that are due, oldest first: a row whose object was
  deleted goes, the others are put back with a growing delay.
\<close>

definition drain_object_deletions :: "millis \<Rightarrow> (string \<Rightarrow> bool) \<Rightarrow> queued_deletion list \<Rightarrow> queued_deletion list" where
  "drain_object_deletions now deletes q =
     (let due = take 100 (sort_key qd_next (filter (\<lambda>r. qd_next r \<le> now) q)) in
      update_rows (\<lambda>r. r \<in> set due)
        (\<lambda>r. r\<lparr>qd_attempts := qd_attempts r + 1, qd_next := now + deletion_backoff (qd_attempts r)\<rparr>)
        (delete_rows (\<lambda>r. r \<in> set due \<and> deletes (qd_key r)) q))"

lemma safe_key_chars: "safe_key key = Some k \<Longrightarrow> list_all is_key_char k \<and> length k = length key \<and> k \<noteq> []"
  by (auto simp: safe_key_def list_all_iff is_key_char_def split: if_splits)

lemma safe_key_idem: "safe_key key = Some k \<Longrightarrow> hd k \<noteq> CHR ''/'' \<Longrightarrow> safe_key k = Some k"
proof -
  assume a: "safe_key key = Some k" "hd k \<noteq> CHR ''/''"
  then have k: "list_all is_key_char k" "length k = length key" "k \<noteq> []" using safe_key_chars by auto
  have "\<not> is_key_char CHR ''.''" by (simp add: is_key_char_def is_ascii_digit_def is_ascii_lower_def is_ascii_upper_def)
  with k(1) have "\<not> sublist ''..'' k" by (auto simp: sublist_def list_all_iff)
  moreover have "map (\<lambda>c. if is_key_char c then c else CHR ''_'') k = k"
    using k(1) by (simp add: list_all_iff map_idI)
  ultimately show ?thesis using a k by (auto simp: safe_key_def contains_sub_iff split: if_splits)
qed

text \<open>Every stored object of a batch whose key is valid is in the queue afterwards.\<close>

lemma queue_object_deletions_keeps: "r \<in> set q \<Longrightarrow> r \<in> set (queue_object_deletions now objects q)"
  by (induction now objects q rule: queue_object_deletions.induct) (auto split: option.splits)

lemma queue_object_deletions_covers:
  "(key, u) \<in> set objects \<Longrightarrow> safe_key key = Some k \<Longrightarrow> k \<in> qd_key ` set (queue_object_deletions now objects q)"
proof (induction now objects q rule: queue_object_deletions.induct)
  case (2 now key' u' objects q)
  show ?case
  proof (cases "(key, u) = (key', u')")
    case True
    let ?q = "if find_row (\<lambda>r. qd_key r = k) q = None
      then q @ [\<lparr>qd_key = k, qd_next = case_option now (\<lambda>t. t) u', qd_attempts = 0\<rparr>] else q"
    have "k \<in> qd_key ` set ?q" by (auto simp: find_row_None_iff)
    then show ?thesis using True 2(4) queue_object_deletions_keeps [of _ ?q now objects] by fastforce
  next
    case False
    with 2 show ?thesis by (auto split: option.splits)
  qed
qed simp

lemma deletion_backoff_bounds: "60000 \<le> deletion_backoff n \<and> deletion_backoff n \<le> 3600000"
proof -
  have "(1 :: int) \<le> 2 ^ min n 6" by simp
  then show ?thesis by (simp add: deletion_backoff_def)
qed

end
