(* ===== verification/Library.thy ===== *)
theory Library
  imports Folder_Forest Audit_Trail Object_Queue
begin

text \<open>
  The library (\<^verbatim>\<open>webapp/src/lib/library.ts\<close>, and \<^verbatim>\<open>deleteMeeting\<close> of \<^verbatim>\<open>meetings.ts\<close>): nested
  folders, notes placed in them and a Trash.

  The state holds the tables \<^verbatim>\<open>Folder\<close>, \<^verbatim>\<open>Meeting\<close> and \<^verbatim>\<open>AuditEvent\<close>, the queue of object
  deletions and the process variable \<open>lastPurgeAt\<close>. An environment carries what a request gets from
  outside: the clock, fresh ids, the order of \<^verbatim>\<open>ORDER BY name\<close>, the errors the database throws,
  and, as \<open>lv_meanwhile\<close>, what other requests commit after this one has read the tables and before
  it writes: creating, moving, trashing and restoring check what they read and write later, with no
  lock and no transaction around both. Permanent deletion and the expiry sweep are a chain of
  statements of their own; they are modelled without other requests in between.
  The constraints of the schema are part of the writes: the foreign key of the parent with its
  cascading delete, the foreign key of a note's folder, which a delete sets to null, and the
  unique index on live names.
\<close>

subsection \<open>Rows and state\<close>

record folder_row =
  fo_id :: ident
  fo_workspace :: ident
  fo_parent :: "ident option"
  fo_name :: string
  fo_creator :: "ident option"
  fo_deleted :: "millis option"
  fo_root :: "ident option"

record note_row =
  nt_id :: ident
  nt_workspace :: "ident option"
  nt_author :: ident
  nt_folder :: "ident option"
  nt_title :: string
  nt_deleted :: "millis option"
  nt_root :: "ident option"
  nt_objects :: "(string \<times> millis option) list"

record lib_state =
  ls_folders :: "folder_row list"
  ls_notes :: "note_row list"
  ls_queue :: "queued_deletion list"
  ls_audit :: "audit_event list"
  ls_last_purge :: millis

record lib_session =
  se_workspace :: ident
  se_user :: ident
  se_owner :: bool

record lib_env =
  lv_now :: millis
  lv_new_id :: ident
  lv_by_name :: "folder_row list \<Rightarrow> folder_row list"
  lv_meanwhile :: "lib_state \<Rightarrow> lib_state"
  lv_write_fault :: "thrown option"
  lv_purge_fault :: "ident \<Rightarrow> bool"
  lv_audit_ok :: bool
  lv_audit_id :: ident

datatype lib_error =
    Bad_Name name_error
  | Too_Many_Folders
  | Folder_Gone
  | Destination_Gone
  | Too_Deep
  | Name_Taken
  | Into_Itself
  | No_Notes_Chosen
  | Too_Many_Notes
  | Note_Gone
  | Not_Your_Note
  | Not_Your_Items
  | Not_In_Trash
  | Owner_Only

datatype 'a lib_result = Lib_Ok 'a | Lib_Fail lib_error | Lib_Throws thrown

definition trash_retention_days :: int where
  "trash_retention_days = 30"

definition max_move_batch :: nat where
  "max_move_batch = 200"

definition day_ms :: millis where
  "day_ms = 24 * 60 * 60 * 1000"

subsection \<open>Errors of the database\<close>

definition is_unique_violation :: "thrown \<Rightarrow> bool" where
  "is_unique_violation t \<longleftrightarrow>
     th_code t = Some ''P2002'' \<or> th_code t = Some ''23505'' \<or>
     (case th_message t of
        None \<Rightarrow> False
      | Some m \<Rightarrow> contains_sub (to_lower m) ''duplicate key'' \<or> contains_sub (to_lower m) ''unique constraint'')"

definition unique_index_error :: thrown where
  "unique_index_error = \<lparr>th_code = Some ''P2002'', th_name = Some ''PrismaClientKnownRequestError'', th_message = None\<rparr>"

definition foreign_key_error :: thrown where
  "foreign_key_error = \<lparr>th_code = Some ''P2003'', th_name = Some ''PrismaClientKnownRequestError'', th_message = None\<rparr>"

definition other_error :: thrown where
  "other_error = \<lparr>th_code = None, th_name = Some ''Error'', th_message = None\<rparr>"

text \<open>
  \<^verbatim>\<open>Folder_live_name_key\<close>: unique on workspace, \<open>coalesce(parent, '')\<close> and the lower-case name of
  the rows that are not deleted.
\<close>

definition live_key :: "folder_row \<Rightarrow> ident \<times> ident \<times> string" where
  "live_key f = (fo_workspace f, case_option [] (\<lambda>p. p) (fo_parent f), to_lower (fo_name f))"

definition live_row :: "folder_row \<Rightarrow> bool" where
  "live_row f \<longleftrightarrow> fo_deleted f = None"

definition live_names_unique :: "folder_row list \<Rightarrow> bool" where
  "live_names_unique folders \<longleftrightarrow> unique_on live_key (filter live_row folders)"

text \<open>A write of the folder table: it throws what the database throws, or its constraints refuse it.\<close>

definition write_folders :: "thrown option \<Rightarrow> folder_row list \<Rightarrow> thrown + folder_row list" where
  "write_folders fault folders =
     (case fault of
        Some t \<Rightarrow> Inl t
      | None \<Rightarrow>
          if \<not> live_names_unique folders then Inl unique_index_error
          else if list_ex (\<lambda>f. fo_parent f \<noteq> None \<and> the (fo_parent f) \<notin> fo_id ` set folders) folders
          then Inl foreign_key_error
          else Inr folders)"

subsection \<open>Reading folders\<close>

definition node_of :: "folder_row \<Rightarrow> folder_node" where
  "node_of f = \<lparr>fn_id = fo_id f, fn_parent = fo_parent f, fn_name = fo_name f\<rparr>"

definition live_in :: "ident \<Rightarrow> folder_row \<Rightarrow> bool" where
  "live_in ws f \<longleftrightarrow> fo_workspace f = ws \<and> fo_deleted f = None"

definition list_folders :: "lib_env \<Rightarrow> ident \<Rightarrow> lib_state \<Rightarrow> folder_node list" where
  "list_folders env ws st =
     map node_of (take (max_folders_per_workspace + 1) (lv_by_name env (filter (live_in ws) (ls_folders st))))"

definition add_audit ::
  "lib_env \<Rightarrow> ident \<Rightarrow> ident option \<Rightarrow> string \<Rightarrow> string \<Rightarrow> string option \<Rightarrow> metadata option \<Rightarrow> lib_state \<Rightarrow> lib_state" where
  "add_audit env ws actor action target_type target_id md st =
     st\<lparr>ls_audit := snd (record_audit (lv_audit_ok env) (lv_audit_id env) (lv_now env) ws actor action
         (Some target_type) target_id md (ls_audit st))\<rparr>"

definition js_count :: "nat \<Rightarrow> js_value" where
  "js_count n = Js_Number (JsNum (of_nat n))"

subsection \<open>Creating, renaming and moving\<close>

definition create_folder ::
  "lib_env \<Rightarrow> lib_session \<Rightarrow> ident option \<Rightarrow> string \<Rightarrow> lib_state \<Rightarrow> (ident \<times> string) lib_result \<times> lib_state" where
  "create_folder env se parent raw st =
     (case validate_folder_name raw of
        Inl e \<Rightarrow> (Lib_Fail (Bad_Name e), st)
      | Inr name \<Rightarrow>
          let folders = list_folders env (se_workspace se) st in
          if max_folders_per_workspace \<le> length folders then (Lib_Fail Too_Many_Folders, st)
          else if truthy parent \<and> the parent \<notin> fn_id ` set folders then (Lib_Fail Folder_Gone, st)
          else if max_folder_depth < folder_depth folders parent + 1 then (Lib_Fail Too_Deep, st)
          else (let st = lv_meanwhile env st in case write_folders (lv_write_fault env)
                  (ls_folders st @ [\<lparr>fo_id = lv_new_id env, fo_workspace = se_workspace se, fo_parent = parent,
                     fo_name = name, fo_creator = Some (se_user se), fo_deleted = None, fo_root = None\<rparr>]) of
                  Inl t \<Rightarrow> (if is_unique_violation t then Lib_Fail Name_Taken else Lib_Throws t, st)
                | Inr rows \<Rightarrow>
                    (Lib_Ok (lv_new_id env, name),
                     add_audit env (se_workspace se) (Some (se_user se)) ''folder.create'' ''folder'' (Some (lv_new_id env)) None
                       (st\<lparr>ls_folders := rows\<rparr>))))"

definition rename_folder ::
  "lib_env \<Rightarrow> lib_session \<Rightarrow> ident \<Rightarrow> string \<Rightarrow> lib_state \<Rightarrow> string lib_result \<times> lib_state" where
  "rename_folder env se fid raw st =
     (case validate_folder_name raw of
        Inl e \<Rightarrow> (Lib_Fail (Bad_Name e), st)
      | Inr name \<Rightarrow>
          let hit = (\<lambda>f. fo_id f = fid \<and> live_in (se_workspace se) f) in
          (case write_folders (lv_write_fault env) (update_rows hit (\<lambda>f. f\<lparr>fo_name := name\<rparr>) (ls_folders st)) of
             Inl t \<Rightarrow> (if is_unique_violation t then Lib_Fail Name_Taken else Lib_Throws t, st)
           | Inr rows \<Rightarrow>
               if count_rows hit (ls_folders st) \<noteq> 1 then (Lib_Fail Folder_Gone, st\<lparr>ls_folders := rows\<rparr>)
               else (Lib_Ok name,
                     add_audit env (se_workspace se) (Some (se_user se)) ''folder.rename'' ''folder'' (Some fid) None
                       (st\<lparr>ls_folders := rows\<rparr>))))"

definition move_folder ::
  "lib_env \<Rightarrow> lib_session \<Rightarrow> ident \<Rightarrow> ident option \<Rightarrow> lib_state \<Rightarrow> unit lib_result \<times> lib_state" where
  "move_folder env se fid new_parent st =
     (let folders = list_folders env (se_workspace se) st in
      case find_row (\<lambda>f. fn_id f = fid) folders of
        None \<Rightarrow> (Lib_Fail Folder_Gone, st)
      | Some folder \<Rightarrow>
          if fn_parent folder = new_parent then (Lib_Ok (), st)
          else if new_parent \<noteq> None \<and> the new_parent \<notin> fn_id ` set folders then (Lib_Fail Destination_Gone, st)
          else if new_parent \<noteq> None \<and> the new_parent \<in> set (subtree_ids folders fid) then (Lib_Fail Into_Itself, st)
          else if max_folder_depth < folder_depth folders new_parent + subtree_height folders fid
          then (Lib_Fail Too_Deep, st)
          else
            let st = lv_meanwhile env st; hit = (\<lambda>f. fo_id f = fid \<and> live_in (se_workspace se) f) in
            (case write_folders (lv_write_fault env)
                    (update_rows hit (\<lambda>f. f\<lparr>fo_parent := new_parent\<rparr>) (ls_folders st)) of
               Inl t \<Rightarrow> (if is_unique_violation t then Lib_Fail Name_Taken else Lib_Throws t, st)
             | Inr rows \<Rightarrow>
                 if count_rows hit (ls_folders st) \<noteq> 1 then (Lib_Fail Folder_Gone, st\<lparr>ls_folders := rows\<rparr>)
                 else (Lib_Ok (),
                       add_audit env (se_workspace se) (Some (se_user se)) ''folder.move'' ''folder'' (Some fid) None
                         (st\<lparr>ls_folders := rows\<rparr>))))"

text \<open>\<open>[...new Set(xs)]\<close> keeps the first of equal elements.\<close>

definition dedupe_first :: "'a list \<Rightarrow> 'a list" where
  "dedupe_first xs = rev (remdups (rev xs))"

definition move_notes ::
  "lib_env \<Rightarrow> lib_session \<Rightarrow> ident list \<Rightarrow> ident option \<Rightarrow> lib_state \<Rightarrow> nat lib_result \<times> lib_state" where
  "move_notes env se meeting_ids folder st =
     (let ids = dedupe_first (filter (\<lambda>i. 0 < length i \<and> length i \<le> 128) meeting_ids);
          ws = se_workspace se;
          hit = (\<lambda>n. nt_id n \<in> set ids \<and> nt_workspace n = Some ws \<and> nt_deleted n = None)
      in if ids = [] then (Lib_Fail No_Notes_Chosen, st)
         else if max_move_batch < length ids then (Lib_Fail Too_Many_Notes, st)
         else if folder \<noteq> None \<and> find_row (\<lambda>f. fo_id f = the folder \<and> live_in ws f) (ls_folders st) = None
         then (Lib_Fail Destination_Gone, st)
         else
           let st = lv_meanwhile env st;
               moved = count_rows hit (ls_notes st);
               st' = st\<lparr>ls_notes := update_rows hit (\<lambda>n. n\<lparr>nt_folder := folder\<rparr>) (ls_notes st)\<rparr>
           in (Lib_Ok moved,
               if 0 < moved
               then add_audit env ws (Some (se_user se)) ''meeting.move'' ''folder'' folder
                      (Some [(''count'', js_count moved), (''toTopLevel'', Js_Bool (folder = None))]) st'
               else st'))"

subsection \<open>Moving to Trash\<close>

definition can_trash_note :: "lib_session \<Rightarrow> ident \<Rightarrow> bool" where
  "can_trash_note se author \<longleftrightarrow> se_owner se \<or> author = se_user se"

definition live_note :: "ident \<Rightarrow> ident \<Rightarrow> note_row \<Rightarrow> bool" where
  "live_note ws nid n \<longleftrightarrow> nt_id n = nid \<and> nt_workspace n = Some ws \<and> nt_deleted n = None"

definition trash_note :: "lib_env \<Rightarrow> lib_session \<Rightarrow> ident \<Rightarrow> lib_state \<Rightarrow> unit lib_result \<times> lib_state" where
  "trash_note env se nid st =
     (case find_row (live_note (se_workspace se) nid) (ls_notes st) of
        None \<Rightarrow> (Lib_Fail Note_Gone, st)
      | Some n \<Rightarrow>
          if \<not> can_trash_note se (nt_author n) then (Lib_Fail Not_Your_Note, st)
          else let st = lv_meanwhile env st in (Lib_Ok (),
            add_audit env (se_workspace se) (Some (se_user se)) ''meeting.trash'' ''meeting'' (Some nid) None
              (st\<lparr>ls_notes := update_rows (live_note (se_workspace se) nid)
                 (\<lambda>n. n\<lparr>nt_deleted := Some (lv_now env), nt_root := Some nid\<rparr>) (ls_notes st)\<rparr>)))"

definition note_in :: "ident \<Rightarrow> ident list \<Rightarrow> note_row \<Rightarrow> bool" where
  "note_in ws tree n \<longleftrightarrow> nt_workspace n = Some ws \<and> nt_folder n \<noteq> None \<and> the (nt_folder n) \<in> set tree \<and> nt_deleted n = None"

definition trash_folder ::
  "lib_env \<Rightarrow> lib_session \<Rightarrow> ident \<Rightarrow> lib_state \<Rightarrow> (nat \<times> nat) lib_result \<times> lib_state" where
  "trash_folder env se fid st =
     (let ws = se_workspace se;
          live = take (max_folders_per_workspace + 1) (filter (live_in ws) (ls_folders st))
      in if fid \<notin> fo_id ` set live then (Lib_Fail Folder_Gone, st)
         else
           let tree = subtree_ids (map node_of live) fid;
               inside = filter (note_in ws tree) (ls_notes st)
           in if \<not> se_owner se \<and>
                 (list_ex (\<lambda>f. fo_id f \<in> set tree \<and> fo_creator f \<noteq> Some (se_user se)) live \<or>
                  list_ex (\<lambda>n. nt_author n \<noteq> se_user se) inside)
              then (Lib_Fail Not_Your_Items, st)
              else let st = lv_meanwhile env st in (Lib_Ok (length tree, length inside),
                add_audit env ws (Some (se_user se)) ''folder.trash'' ''folder'' (Some fid)
                  (Some [(''folders'', js_count (length tree)), (''notes'', js_count (length inside))])
                  (st\<lparr>ls_folders := update_rows (\<lambda>f. fo_id f \<in> set tree \<and> live_in ws f)
                        (\<lambda>f. f\<lparr>fo_deleted := Some (lv_now env), fo_root := Some fid\<rparr>) (ls_folders st),
                      ls_notes := update_rows (note_in ws tree)
                        (\<lambda>n. n\<lparr>nt_deleted := Some (lv_now env), nt_root := Some fid\<rparr>) (ls_notes st)\<rparr>)))"

subsection \<open>Listing the Trash\<close>

datatype trash_kind = Kind_Folder | Kind_Note

record trash_item =
  ti_kind :: trash_kind
  ti_id :: ident
  ti_name :: string
  ti_deleted :: millis
  ti_days_left :: int
  ti_notes :: nat
  ti_folders :: nat

definition folder_root_in :: "ident \<Rightarrow> folder_row \<Rightarrow> bool" where
  "folder_root_in ws f \<longleftrightarrow> fo_workspace f = ws \<and> fo_deleted f \<noteq> None \<and> fo_root f = Some (fo_id f)"

definition note_root_in :: "ident \<Rightarrow> note_row \<Rightarrow> bool" where
  "note_root_in ws n \<longleftrightarrow> nt_workspace n = Some ws \<and> nt_deleted n \<noteq> None \<and> nt_root n = Some (nt_id n)"

definition count_trash_roots :: "ident \<Rightarrow> lib_state \<Rightarrow> nat" where
  "count_trash_roots ws st =
     count_rows (folder_root_in ws) (ls_folders st) + count_rows (note_root_in ws) (ls_notes st)"

definition days_left :: "millis \<Rightarrow> millis \<Rightarrow> int" where
  "days_left now deleted_at = max 0 (ceil_div (deleted_at + trash_retention_days * day_ms - now) day_ms)"

definition list_trash :: "ident \<Rightarrow> millis \<Rightarrow> lib_state \<Rightarrow> trash_item list" where
  "list_trash ws now st =
     (let folders = take 500 (sort_key (\<lambda>f. - the (fo_deleted f)) (filter (folder_root_in ws) (ls_folders st)));
          notes = take 500 (sort_key (\<lambda>n. - the (nt_deleted n)) (filter (note_root_in ws) (ls_notes st)))
      in sort_key (\<lambda>i. - ti_deleted i)
           (map (\<lambda>f. \<lparr>ti_kind = Kind_Folder, ti_id = fo_id f, ti_name = fo_name f, ti_deleted = the (fo_deleted f),
               ti_days_left = days_left now (the (fo_deleted f)),
               ti_notes = count_rows (\<lambda>n. nt_workspace n = Some ws \<and> nt_root n = Some (fo_id f)) (ls_notes st),
               ti_folders = count_rows (\<lambda>g. fo_workspace g = ws \<and> fo_root g = Some (fo_id f)) (ls_folders st)\<rparr>) folders
            @ map (\<lambda>n. \<lparr>ti_kind = Kind_Note, ti_id = nt_id n, ti_name = nt_title n, ti_deleted = the (nt_deleted n),
               ti_days_left = days_left now (the (nt_deleted n)), ti_notes = 0, ti_folders = 0\<rparr>) notes))"

subsection \<open>Restoring\<close>

definition restored_name :: "string \<Rightarrow> nat \<Rightarrow> string" where
  "restored_name name attempt =
     take 80 (name @ '' (restored'' @ (if 1 < attempt then '' '' @ digits_of attempt else []) @ '')'')"

fun free_name_from :: "string list \<Rightarrow> string \<Rightarrow> string \<Rightarrow> nat list \<Rightarrow> string" where
  "free_name_from taken name uuid [] = take 60 name @ '' ('' @ take 8 uuid @ '')''"
| "free_name_from taken name uuid (attempt # attempts) =
     (if to_lower (restored_name name attempt) \<notin> set taken then restored_name name attempt
      else free_name_from taken name uuid attempts)"

definition free_folder_name :: "lib_env \<Rightarrow> ident \<Rightarrow> ident option \<Rightarrow> string \<Rightarrow> lib_state \<Rightarrow> string" where
  "free_folder_name env ws parent name st =
     (let taken = map (\<lambda>f. to_lower (fo_name f)) (filter (\<lambda>f. live_in ws f \<and> fo_parent f = parent) (ls_folders st)) in
      if to_lower name \<notin> set taken then name
      else free_name_from taken name (lv_new_id env) [1..<50])"

definition trashed_note :: "ident \<Rightarrow> ident \<Rightarrow> note_row \<Rightarrow> bool" where
  "trashed_note ws nid n \<longleftrightarrow> nt_id n = nid \<and> note_root_in ws n"

definition trashed_folder :: "ident \<Rightarrow> ident \<Rightarrow> folder_row \<Rightarrow> bool" where
  "trashed_folder ws fid f \<longleftrightarrow> fo_id f = fid \<and> folder_root_in ws f"

definition folder_is_live :: "ident \<Rightarrow> ident option \<Rightarrow> lib_state \<Rightarrow> bool" where
  "folder_is_live ws folder st \<longleftrightarrow>
     (truthy folder \<longrightarrow> find_row (\<lambda>f. fo_id f = the folder \<and> live_in ws f) (ls_folders st) \<noteq> None)"

definition restore_note ::
  "lib_env \<Rightarrow> lib_session \<Rightarrow> ident \<Rightarrow> lib_state \<Rightarrow> unit lib_result \<times> lib_state" where
  "restore_note env se nid st =
     (let ws = se_workspace se in
      case find_row (trashed_note ws nid) (ls_notes st) of
        None \<Rightarrow> (Lib_Fail Not_In_Trash, st)
      | Some n \<Rightarrow>
          let live = folder_is_live ws (nt_folder n) st; st = lv_meanwhile env st in
          (Lib_Ok (),
           add_audit env ws (Some (se_user se)) ''meeting.restore'' ''meeting'' (Some nid) None
             (st\<lparr>ls_notes := update_rows (\<lambda>r. nt_id r = nid \<and> nt_workspace r = Some ws \<and> nt_deleted r \<noteq> None)
                (\<lambda>r. r\<lparr>nt_deleted := None, nt_root := None, nt_folder := (if live then nt_folder r else None)\<rparr>)
                (ls_notes st)\<rparr>)))"

definition restore_folder_rows :: "ident \<Rightarrow> ident \<Rightarrow> ident option \<Rightarrow> string \<Rightarrow> folder_row list \<Rightarrow> folder_row list" where
  "restore_folder_rows ws fid parent name folders =
     update_rows (\<lambda>f. fo_workspace f = ws \<and> fo_root f = Some fid \<and> fo_deleted f \<noteq> None)
       (\<lambda>f. f\<lparr>fo_deleted := None, fo_root := None\<rparr>)
       (update_rows (\<lambda>f. fo_id f = fid \<and> fo_workspace f = ws)
         (\<lambda>f. f\<lparr>fo_deleted := None, fo_root := None, fo_parent := parent, fo_name := name\<rparr>) folders)"

definition restore_note_rows :: "ident \<Rightarrow> ident \<Rightarrow> note_row list \<Rightarrow> note_row list" where
  "restore_note_rows ws fid notes =
     update_rows (\<lambda>n. nt_workspace n = Some ws \<and> nt_root n = Some fid \<and> nt_deleted n \<noteq> None)
       (\<lambda>n. n\<lparr>nt_deleted := None, nt_root := None\<rparr>) notes"

definition restore_folder ::
  "lib_env \<Rightarrow> lib_session \<Rightarrow> ident \<Rightarrow> lib_state \<Rightarrow> unit lib_result \<times> lib_state" where
  "restore_folder env se fid st =
     (let ws = se_workspace se in
      case find_row (trashed_folder ws fid) (ls_folders st) of
        None \<Rightarrow> (Lib_Fail Not_In_Trash, st)
      | Some f \<Rightarrow>
          let parent = (if folder_is_live ws (fo_parent f) st then fo_parent f else None);
              name = free_folder_name env ws parent (fo_name f) st;
              st = lv_meanwhile env st
          in (case write_folders (lv_write_fault env) (restore_folder_rows ws fid parent name (ls_folders st)) of
                Inl t \<Rightarrow> (if is_unique_violation t then Lib_Fail Name_Taken else Lib_Throws t, st)
              | Inr rows \<Rightarrow>
                  (Lib_Ok (),
                   add_audit env ws (Some (se_user se)) ''folder.restore'' ''folder'' (Some fid) None
                     (st\<lparr>ls_folders := rows, ls_notes := restore_note_rows ws fid (ls_notes st)\<rparr>))))"

definition restore_from_trash ::
  "lib_env \<Rightarrow> lib_session \<Rightarrow> trash_kind \<Rightarrow> ident \<Rightarrow> lib_state \<Rightarrow> unit lib_result \<times> lib_state" where
  "restore_from_trash env se kind i st =
     (case kind of Kind_Note \<Rightarrow> restore_note env se i st | Kind_Folder \<Rightarrow> restore_folder env se i st)"

subsection \<open>Deleting for good\<close>

text \<open>
  \<open>deleteMeeting\<close>: the meeting's objects are queued in the transaction that deletes the row. Its
  uploads are marked expired first and go with the row through their foreign keys; deleting the
  objects at once is best effort and leaves the queue as it is.
\<close>

definition delete_meeting :: "millis \<Rightarrow> ident \<Rightarrow> ident \<Rightarrow> lib_state \<Rightarrow> lib_state" where
  "delete_meeting now ws nid st =
     (case find_row (\<lambda>n. nt_id n = nid \<and> nt_workspace n = Some ws) (ls_notes st) of
        None \<Rightarrow> st
      | Some n \<Rightarrow>
          st\<lparr>ls_queue := queue_object_deletions now (filter (\<lambda>(key, u). key \<noteq> []) (nt_objects n)) (ls_queue st),
             ls_notes := delete_rows (\<lambda>n. nt_id n = nid \<and> nt_workspace n = Some ws) (ls_notes st)\<rparr>)"

fun delete_meetings :: "lib_env \<Rightarrow> ident \<Rightarrow> ident list \<Rightarrow> lib_state \<Rightarrow> bool \<times> lib_state" where
  "delete_meetings env ws [] st = (True, st)"
| "delete_meetings env ws (n # ns) st =
     (if lv_purge_fault env n then (False, st)
      else delete_meetings env ws ns (delete_meeting (lv_now env) ws n st))"

text \<open>The parent foreign key deletes the rows below a deleted folder; notes placed in them lose their folder.\<close>

definition delete_folder_row :: "ident \<Rightarrow> ident \<Rightarrow> lib_state \<Rightarrow> lib_state" where
  "delete_folder_row ws fid st =
     (if find_row (\<lambda>f. fo_id f = fid \<and> fo_workspace f = ws \<and> fo_deleted f \<noteq> None) (ls_folders st) = None then st
      else
        let gone = subtree_ids (map node_of (ls_folders st)) fid in
        st\<lparr>ls_folders := delete_rows (\<lambda>f. fo_id f \<in> set gone) (ls_folders st),
           ls_notes := update_rows (\<lambda>n. nt_folder n \<noteq> None \<and> the (nt_folder n) \<in> set gone)
             (\<lambda>n. n\<lparr>nt_folder := None\<rparr>) (ls_notes st)\<rparr>)"

definition purge_root :: "lib_env \<Rightarrow> ident \<Rightarrow> trash_kind \<Rightarrow> ident \<Rightarrow> lib_state \<Rightarrow> nat option \<times> lib_state" where
  "purge_root env ws kind i st =
     (case kind of
        Kind_Note \<Rightarrow> let (ok, st') = delete_meetings env ws [i] st in (if ok then Some 1 else None, st')
      | Kind_Folder \<Rightarrow>
          let ids = map nt_id (filter (\<lambda>n. nt_workspace n = Some ws \<and> nt_root n = Some i \<and> nt_deleted n \<noteq> None) (ls_notes st));
              (ok, st') = delete_meetings env ws ids st
          in if \<not> ok \<or> lv_purge_fault env i then (None, st')
             else (Some (length ids + 1), delete_folder_row ws i st'))"

definition delete_forever_check :: "lib_session \<Rightarrow> trash_kind \<Rightarrow> ident \<Rightarrow> lib_state \<Rightarrow> lib_error option" where
  "delete_forever_check se kind i st =
     (let ws = se_workspace se in
      case kind of
        Kind_Note \<Rightarrow>
          (case find_row (trashed_note ws i) (ls_notes st) of
             None \<Rightarrow> Some Not_In_Trash
           | Some n \<Rightarrow> if \<not> can_trash_note se (nt_author n) then Some Not_Your_Note else None)
      | Kind_Folder \<Rightarrow>
          (case find_row (trashed_folder ws i) (ls_folders st) of
             None \<Rightarrow> Some Not_In_Trash
           | Some f \<Rightarrow>
               if \<not> se_owner se \<and>
                  (0 < count_rows (\<lambda>n. nt_workspace n = Some ws \<and> nt_root n = Some i \<and> nt_author n \<noteq> se_user se) (ls_notes st) \<or>
                   0 < count_rows (\<lambda>g. fo_workspace g = ws \<and> fo_root g = Some i \<and> fo_creator g \<noteq> Some (se_user se)) (ls_folders st))
               then Some Not_Your_Items else None))"

definition delete_forever ::
  "lib_env \<Rightarrow> lib_session \<Rightarrow> trash_kind \<Rightarrow> ident \<Rightarrow> lib_state \<Rightarrow> unit lib_result \<times> lib_state" where
  "delete_forever env se kind i st =
     (case delete_forever_check se kind i st of
        Some e \<Rightarrow> (Lib_Fail e, st)
      | None \<Rightarrow>
          (case purge_root env (se_workspace se) kind i st of
             (None, st') \<Rightarrow> (Lib_Throws other_error, st')
           | (Some n, st') \<Rightarrow>
               (Lib_Ok (),
                add_audit env (se_workspace se) (Some (se_user se))
                  (case kind of Kind_Folder \<Rightarrow> ''folder.purge'' | Kind_Note \<Rightarrow> ''meeting.purge'')
                  (case kind of Kind_Folder \<Rightarrow> ''folder'' | Kind_Note \<Rightarrow> ''meeting'') (Some i) None st')))"

fun purge_items :: "lib_env \<Rightarrow> ident \<Rightarrow> trash_item list \<Rightarrow> lib_state \<Rightarrow> bool \<times> lib_state" where
  "purge_items env ws [] st = (True, st)"
| "purge_items env ws (item # items) st =
     (case purge_root env ws (ti_kind item) (ti_id item) st of
        (None, st') \<Rightarrow> (False, st')
      | (Some n, st') \<Rightarrow> purge_items env ws items st')"

definition empty_trash :: "lib_env \<Rightarrow> lib_session \<Rightarrow> lib_state \<Rightarrow> nat lib_result \<times> lib_state" where
  "empty_trash env se st =
     (if \<not> se_owner se then (Lib_Fail Owner_Only, st)
      else
        let ws = se_workspace se; items = list_trash ws (lv_now env) st; (ok, st') = purge_items env ws items st
        in if \<not> ok then (Lib_Throws other_error, st')
           else (Lib_Ok (length items),
             if items \<noteq> []
             then add_audit env ws (Some (se_user se)) ''trash.empty'' ''workspace'' (Some ws)
                    (Some [(''items'', js_count (length items))]) st'
             else st'))"

subsection \<open>The expiry sweep\<close>

definition trash_purge_interval :: millis where
  "trash_purge_interval = 60 * 60 * 1000"

definition trash_purge_batch :: nat where
  "trash_purge_batch = 50"

text \<open>\<open>perWorkspace.set(ws, (perWorkspace.get(ws) ?? 0) + 1)\<close> on a map in insertion order.\<close>

fun count_for :: "ident \<Rightarrow> (ident \<times> nat) list \<Rightarrow> (ident \<times> nat) list" where
  "count_for ws [] = [(ws, 1)]"
| "count_for ws ((w, n) # counts) = (if w = ws then (w, n + 1) # counts else (w, n) # count_for ws counts)"

fun purge_expired_items ::
  "lib_env \<Rightarrow> (ident \<times> trash_kind \<times> ident) list \<Rightarrow> (ident \<times> nat) list \<Rightarrow> nat \<Rightarrow> lib_state
   \<Rightarrow> (ident \<times> nat) list \<times> nat \<times> lib_state" where
  "purge_expired_items env [] counts removed st = (counts, removed, st)"
| "purge_expired_items env ((ws, kind, i) # items) counts removed st =
     (case purge_root env ws kind i st of
        (None, st') \<Rightarrow> purge_expired_items env items counts removed st'
      | (Some n, st') \<Rightarrow> purge_expired_items env items (count_for ws counts) (removed + 1) st')"

definition purge_expired_trash :: "lib_env \<Rightarrow> bool \<Rightarrow> lib_state \<Rightarrow> nat \<times> lib_state" where
  "purge_expired_trash env force st =
     (if \<not> force \<and> lv_now env - ls_last_purge st < trash_purge_interval then (0, st)
      else
        let st = st\<lparr>ls_last_purge := lv_now env\<rparr>;
            cutoff = lv_now env - trash_retention_days * day_ms;
            folders = take trash_purge_batch (sort_key (\<lambda>f. the (fo_deleted f))
              (filter (\<lambda>f. fo_deleted f \<noteq> None \<and> the (fo_deleted f) < cutoff \<and> fo_root f = Some (fo_id f)) (ls_folders st)));
            notes = take trash_purge_batch (sort_key (\<lambda>n. the (nt_deleted n))
              (filter (\<lambda>n. nt_deleted n \<noteq> None \<and> the (nt_deleted n) < cutoff \<and> nt_root n = Some (nt_id n) \<and>
                 nt_workspace n \<noteq> None) (ls_notes st)));
            (counts, removed, st') = purge_expired_items env
              (map (\<lambda>f. (fo_workspace f, Kind_Folder, fo_id f)) folders @
               map (\<lambda>n. (the (nt_workspace n), Kind_Note, nt_id n)) (filter (\<lambda>n. truthy (nt_workspace n)) notes)) [] 0 st
        in (removed,
            fold (\<lambda>(ws, items). add_audit env ws None ''trash.purge'' ''workspace'' (Some ws)
              (Some [(''items'', js_count items), (''retentionDays'', Js_Number (JsNum (of_int trash_retention_days)))]))
              counts st'))"

end
