(* ===== verification/Library_Invariant.thy ===== *)
theory Library_Invariant
  imports Library "HOL-Library.Multiset"
begin

text \<open>
  The invariant of the library and its preservation by every operation. Folders form a forest over
  live and trashed rows alike; the parent of a live folder is live; an item that left with a
  deletion lies in a folder that left with the same deletion; a live note lies in a live folder;
  and the root an item in Trash names is, while that folder exists, a root of the Trash itself.
\<close>

subsection \<open>The invariant\<close>

definition parent_map :: "folder_row list \<Rightarrow> ident \<Rightarrow> ident option" where
  "parent_map fs = parent_of (map node_of fs)"

definition folder_fits :: "folder_row list \<Rightarrow> folder_row \<Rightarrow> bool" where
  "folder_fits fs f \<longleftrightarrow> fo_id f \<noteq> [] \<and> (fo_root f = None \<longleftrightarrow> fo_deleted f = None) \<and>
     (fo_parent f = None \<and> fo_deleted f \<noteq> None \<longrightarrow> fo_root f = Some (fo_id f)) \<and>
     (\<forall>p. fo_parent f = Some p \<longrightarrow>
        (\<exists>g \<in> set fs. fo_id g = p \<and> fo_workspace g = fo_workspace f \<and>
           (if fo_deleted f = None then fo_deleted g = None
            else fo_root f \<noteq> Some (fo_id f) \<longrightarrow> fo_root g = fo_root f)))"

definition note_fits :: "folder_row list \<Rightarrow> note_row \<Rightarrow> bool" where
  "note_fits fs n \<longleftrightarrow> (nt_root n = None \<longleftrightarrow> nt_deleted n = None) \<and> nt_id n \<notin> fo_id ` set fs \<and>
     (\<forall>c. nt_folder n = Some c \<longrightarrow>
        (\<exists>g \<in> set fs. fo_id g = c \<and> nt_workspace n = Some (fo_workspace g) \<and>
           (if nt_deleted n = None then fo_deleted g = None
            else nt_root n \<noteq> Some (nt_id n) \<longrightarrow> fo_root g = nt_root n))) \<and>
     (\<forall>g \<in> set fs. nt_root n = Some (fo_id g) \<longrightarrow>
        fo_root g = Some (fo_id g) \<and> nt_workspace n = Some (fo_workspace g))"

definition folders_ok :: "folder_row list \<Rightarrow> bool" where
  "folders_ok fs \<longleftrightarrow> unique_on fo_id fs \<and> no_cycle (parent_map fs) \<and> (\<forall>f \<in> set fs. folder_fits fs f)"

definition notes_ok :: "folder_row list \<Rightarrow> note_row list \<Rightarrow> bool" where
  "notes_ok fs ns \<longleftrightarrow> unique_on nt_id ns \<and> (\<forall>n \<in> set ns. note_fits fs n)"

definition lib_ok :: "lib_state \<Rightarrow> bool" where
  "lib_ok st \<longleftrightarrow> folders_ok (ls_folders st) \<and> notes_ok (ls_folders st) (ls_notes st)"

lemma folders_okD:
  assumes "folders_ok fs"
  shows "unique_on fo_id fs" "no_cycle (parent_map fs)" "f \<in> set fs \<Longrightarrow> folder_fits fs f"
  using assms by (simp_all add: folders_ok_def)

lemma folder_unique: "folders_ok fs \<Longrightarrow> f \<in> set fs \<Longrightarrow> g \<in> set fs \<Longrightarrow> fo_id f = fo_id g \<Longrightarrow> f = g"
  by (rule unique_onD [OF folders_okD(1)])

lemma node_of_simps [simp]:
  "fn_id (node_of f) = fo_id f" "fn_parent (node_of f) = fo_parent f" "fn_name (node_of f) = fo_name f"
  by (simp_all add: node_of_def)

lemma sound_ids_nodes: "unique_on fo_id fs \<Longrightarrow> (\<And>f. f \<in> set fs \<Longrightarrow> fo_id f \<noteq> []) \<Longrightarrow> sound_ids (map node_of fs)"
  by (simp add: sound_ids_def unique_on_def comp_def)

lemma folders_ok_sound: "folders_ok fs \<Longrightarrow> sound_ids (map node_of fs)"
  by (rule sound_ids_nodes) (auto simp: folders_ok_def folder_fits_def)

lemma parent_map_iff:
  assumes "folders_ok fs"
  shows "parent_map fs x = Some y \<longleftrightarrow> (\<exists>f \<in> set fs. fo_id f = x \<and> fo_parent f = Some y)"
proof -
  have "y \<in> fo_id ` set fs" if "f \<in> set fs" "fo_parent f = Some y" for f
    using folders_okD(3) [OF assms that(1)] that(2) by (auto simp: folder_fits_def)
  then show ?thesis
    by (auto simp: parent_map_def parent_of_iff [OF folders_ok_sound [OF assms]] image_image)
qed

lemma parent_map_row: "folders_ok fs \<Longrightarrow> f \<in> set fs \<Longrightarrow> parent_map fs (fo_id f) = fo_parent f"
  using parent_map_iff [of fs "fo_id f"] folder_unique [of fs f]
  by (cases "parent_map fs (fo_id f)"; cases "fo_parent f") metis+

text \<open>Rows whose edges are among those of a sound table cannot form a cycle.\<close>

lemma no_cycle_edges:
  assumes "no_cycle p" "\<And>x y. q x = Some y \<Longrightarrow> p x = Some y"
  shows "no_cycle q"
  using assms acyclic_subset [of "edges p" "edges q"] by (auto simp: no_cycle_def edges_def)

lemma no_cycle_insert:
  assumes "no_cycle p" "y \<notin> below p x" "\<And>a b. q a = Some b \<Longrightarrow> p a = Some b \<or> a = x \<and> b = y"
  shows "no_cycle q"
proof -
  have "acyclic (insert (x, y) (edges p))"
    using assms(1,2) by (simp add: no_cycle_def acyclic_insert below_def)
  moreover have "edges q \<subseteq> insert (x, y) (edges p)" using assms(3) by (auto simp: edges_def)
  ultimately show ?thesis unfolding no_cycle_def by (rule acyclic_subset)
qed

lemma parent_map_dest:
  "parent_map fs x = Some y \<Longrightarrow> \<exists>f \<in> set fs. fo_id f = x \<and> fo_parent f = Some y"
proof -
  assume "parent_map fs x = Some y"
  then obtain f g where "by_id (map node_of fs) x = Some f" "lookup_truthy (map node_of fs) (fn_parent f) = Some g" "fn_id g = y"
    by (auto simp: parent_map_def parent_of_def split: option.splits)
  then show ?thesis using by_id_SomeD [of "map node_of fs" x f] lookup_truthy_SomeD [of "map node_of fs" "fn_parent f" g]
    by (metis (no_types, lifting) image_iff list.set_map node_of_simps(1,2))
qed

subsection \<open>Live folders\<close>

text \<open>
  \<open>live_nodes\<close> is any listing of the live folders of a workspace. On a sound table their parent map
  is the parent map of the whole table restricted to them.
\<close>

definition lists_live :: "ident \<Rightarrow> folder_row list \<Rightarrow> folder_node list \<Rightarrow> bool" where
  "lists_live ws fs ns \<longleftrightarrow> mset ns = mset (map node_of (filter (live_in ws) fs))"

lemma lists_live_set: "lists_live ws fs ns \<Longrightarrow> set ns = node_of ` {f \<in> set fs. live_in ws f}"
  by (metis lists_live_def set_mset_mset set_map set_filter)

lemma lists_live_ids: "lists_live ws fs ns \<Longrightarrow> x \<in> fn_id ` set ns \<longleftrightarrow> (\<exists>f \<in> set fs. live_in ws f \<and> fo_id f = x)"
  by (auto simp: lists_live_set image_image)

lemma live_parent:
  assumes "folders_ok fs" "f \<in> set fs" "live_in ws f" "fo_parent f = Some p"
  obtains g where "g \<in> set fs" "fo_id g = p" "live_in ws g"
  using folders_okD(3) [OF assms(1,2)] assms(3,4) by (auto simp: folder_fits_def live_in_def split: if_splits)

lemma lists_live_sound:
  assumes "folders_ok fs" "lists_live ws fs ns"
  shows "sound_ids ns"
proof -
  have "unique_on fn_id (map node_of (filter (live_in ws) fs))"
    using folders_okD(1) [OF assms(1)] by (simp add: unique_on_def comp_def distinct_map_filter)
  then have "unique_on fn_id ns"
    using assms(2) unfolding unique_on_def lists_live_def by (metis mset_map mset_eq_imp_distinct_iff)
  moreover have "\<forall>f \<in> set ns. fn_id f \<noteq> []"
    using folders_okD(3) [OF assms(1)] by (auto simp: lists_live_set [OF assms(2)] folder_fits_def)
  ultimately show ?thesis by (simp add: sound_ids_def)
qed

lemma live_parent_of:
  assumes "folders_ok fs" "lists_live ws fs ns"
  shows "parent_of ns x = Some y \<longleftrightarrow> parent_map fs x = Some y \<and> x \<in> fn_id ` set ns"
proof -
  have "y \<in> fn_id ` set ns" if "f \<in> set fs" "live_in ws f" "fo_parent f = Some y" for f
    using live_parent [OF assms(1) that] by (metis (mono_tags, lifting) assms(2) imageI lists_live_set mem_Collect_eq node_of_simps(1))
  then have "parent_of ns x = Some y \<longleftrightarrow> (\<exists>f \<in> set fs. live_in ws f \<and> fo_id f = x \<and> fo_parent f = Some y)"
    by (auto simp: parent_of_iff [OF lists_live_sound [OF assms]] lists_live_set [OF assms(2)])
  moreover have "(\<exists>f \<in> set fs. live_in ws f \<and> fo_id f = x \<and> fo_parent f = Some y) \<longleftrightarrow>
      parent_map fs x = Some y \<and> x \<in> fn_id ` set ns"
    using folder_unique [OF assms(1)] unfolding parent_map_iff [OF assms(1)] lists_live_ids [OF assms(2)] by metis
  ultimately show ?thesis by simp
qed

lemma live_forest: "folders_ok fs \<Longrightarrow> lists_live ws fs ns \<Longrightarrow> forest ns"
  using no_cycle_edges [OF folders_okD(2), of fs "parent_of ns"]
  by (simp add: forest_def lists_live_sound live_parent_of)

lemma live_below:
  assumes "folders_ok fs" "lists_live ws fs ns" "x \<in> fn_id ` set ns" "x \<in> below (parent_map fs) s"
  shows "x \<in> below (parent_of ns) s \<and> s \<in> fn_id ` set ns"
proof -
  have "(x, s) \<in> (edges (parent_map fs))\<^sup>*" using assms(4) by (simp add: below_def)
  then show ?thesis using assms(3)
  proof (induction rule: converse_rtrancl_induct)
    case (step x y)
    then have "parent_of ns x = Some y"
      using live_parent_of [OF assms(1,2)] by (simp add: edges_def)
    then show ?case using step.IH parent_of_dom [of ns x y] below_parent [of "parent_of ns" x y s] by blast
  qed simp
qed

text \<open>The subtree of a live folder in a listing of the live folders is its subtree in the table.\<close>

lemma live_subtree:
  assumes "folders_ok fs" "lists_live ws fs ns" "s \<in> fn_id ` set ns"
  shows "x \<in> set (subtree_ids ns s) \<longleftrightarrow> x \<in> fn_id ` set ns \<and> x \<in> below (parent_map fs) s"
proof -
  have "set (subtree_ids ns s) = below (parent_of ns) s"
    using subtree_ids_below [OF lists_live_sound [OF assms(1,2)] assms(3)] by simp
  moreover have "x \<in> fn_id ` set ns \<and> x \<in> below (parent_map fs) s" if "x \<in> below (parent_of ns) s"
  proof -
    have "(x, s) \<in> (edges (parent_of ns))\<^sup>*" using that by (simp add: below_def)
    then show ?thesis
    proof (induction rule: converse_rtrancl_induct)
      case (step x y)
      then have p: "parent_of ns x = Some y" by (simp add: edges_def)
      then have "parent_map fs x = Some y" using live_parent_of [OF assms(1,2)] by simp
      with p step.IH show ?case
        using parent_of_dom [of ns x y] below_parent [of "parent_map fs" x y s] by blast
    qed (simp add: assms(3))
  qed
  ultimately show ?thesis using live_below [OF assms(1,2)] by blast
qed

subsection \<open>Folder tables stay sound\<close>

lemma no_cycle_map:
  assumes "folders_ok fs" "\<And>f. fo_id (u f) = fo_id f"
    and "\<And>f p. f \<in> set fs \<Longrightarrow> fo_parent (u f) = Some p \<Longrightarrow> fo_parent f = Some p"
  shows "no_cycle (parent_map (map u fs))"
proof (rule no_cycle_edges [OF folders_okD(2) [OF assms(1)]])
  fix x y assume "parent_map (map u fs) x = Some y"
  from parent_map_dest [OF this] show "parent_map fs x = Some y"
    using assms(2,3) by (auto simp: parent_map_iff [OF assms(1)])
qed

lemma parent_exists:
  assumes "folders_ok fs" "f \<in> set fs" "fo_parent f = Some p"
  obtains g where "g \<in> set fs" "fo_id g = p" "fo_workspace g = fo_workspace f"
    "fo_deleted f = None \<Longrightarrow> fo_deleted g = None"
    "fo_deleted f \<noteq> None \<Longrightarrow> fo_root f \<noteq> Some (fo_id f) \<Longrightarrow> fo_root g = fo_root f"
  using folders_okD(3) [OF assms(1,2)] assms(3) by (auto simp: folder_fits_def split: if_splits)

lemma folder_fits_simple:
  assumes "folders_ok fs" "f \<in> set fs"
  shows "fo_id f \<noteq> []" "fo_root f = None \<longleftrightarrow> fo_deleted f = None"
    "fo_parent f = None \<Longrightarrow> fo_deleted f \<noteq> None \<Longrightarrow> fo_root f = Some (fo_id f)"
  using folders_okD(3) [OF assms] by (auto simp: folder_fits_def)

text \<open>An update of the rows that keeps ids and workspaces: what has to hold of each row after it.\<close>

lemma folders_ok_map:
  assumes "folders_ok fs" "\<And>f. fo_id (u f) = fo_id f" "\<And>f. fo_workspace (u f) = fo_workspace f"
    and "no_cycle (parent_map (map u fs))"
    and "\<And>f. f \<in> set fs \<Longrightarrow> fo_root (u f) = None \<longleftrightarrow> fo_deleted (u f) = None"
    and "\<And>f. f \<in> set fs \<Longrightarrow> fo_parent (u f) = None \<Longrightarrow> fo_deleted (u f) \<noteq> None \<Longrightarrow> fo_root (u f) = Some (fo_id f)"
    and "\<And>f p. f \<in> set fs \<Longrightarrow> fo_parent (u f) = Some p \<Longrightarrow>
      \<exists>h \<in> set fs. fo_id h = p \<and> fo_workspace h = fo_workspace f \<and>
        (fo_deleted (u f) = None \<longrightarrow> fo_deleted (u h) = None) \<and>
        (fo_deleted (u f) \<noteq> None \<and> fo_root (u f) \<noteq> Some (fo_id f) \<longrightarrow> fo_root (u h) = fo_root (u f))"
  shows "folders_ok (map u fs)"
proof -
  have "folder_fits (map u fs) (u f)" if f: "f \<in> set fs" for f
  proof -
    have "\<exists>g \<in> set (map u fs). fo_id g = p \<and> fo_workspace g = fo_workspace (u f) \<and>
        (if fo_deleted (u f) = None then fo_deleted g = None
         else fo_root (u f) \<noteq> Some (fo_id (u f)) \<longrightarrow> fo_root g = fo_root (u f))"
      if "fo_parent (u f) = Some p" for p
      using assms(7) [OF f that] by (auto simp: assms(2,3))
    then show ?thesis
      using folder_fits_simple(1) [OF assms(1) f] assms(5,6) [OF f] by (simp add: folder_fits_def assms(2))
  qed
  then show ?thesis
    using folders_okD(1) [OF assms(1)] assms(2,4) by (auto simp: folders_ok_def unique_on_def comp_def)
qed

lemma folders_ok_rename:
  assumes "folders_ok fs"
  shows "folders_ok (update_rows hit (\<lambda>f. f\<lparr>fo_name := name\<rparr>) fs)"
  unfolding update_rows_def
proof (rule folders_ok_map [OF assms])
  let ?u = "\<lambda>f. if hit f then f\<lparr>fo_name := name\<rparr> else f"
  have u: "fo_parent (?u f) = fo_parent f" "fo_deleted (?u f) = fo_deleted f" "fo_root (?u f) = fo_root f" for f
    by simp_all
  show "no_cycle (parent_map (map ?u fs))" by (rule no_cycle_map [OF assms]) (auto split: if_splits)
  fix f assume f: "f \<in> set fs"
  show "fo_root (?u f) = None \<longleftrightarrow> fo_deleted (?u f) = None"
    and "fo_parent (?u f) = None \<Longrightarrow> fo_deleted (?u f) \<noteq> None \<Longrightarrow> fo_root (?u f) = Some (fo_id f)"
    unfolding u by (rule folder_fits_simple [OF assms f]; assumption)+
  fix p assume "fo_parent (?u f) = Some p"
  then have "fo_parent f = Some p" unfolding u .
  from parent_exists [OF assms f this] show "\<exists>h \<in> set fs. fo_id h = p \<and> fo_workspace h = fo_workspace f \<and>
      (fo_deleted (?u f) = None \<longrightarrow> fo_deleted (?u h) = None) \<and>
      (fo_deleted (?u f) \<noteq> None \<and> fo_root (?u f) \<noteq> Some (fo_id f) \<longrightarrow> fo_root (?u h) = fo_root (?u f))"
    unfolding u by metis
qed simp_all

lemma folders_ok_append:
  assumes "folders_ok fs" "fo_id f \<notin> fo_id ` set fs" "fo_id f \<noteq> []" "fo_deleted f = None" "fo_root f = None"
    and "\<And>p. fo_parent f = Some p \<Longrightarrow> \<exists>g \<in> set fs. fo_id g = p \<and> live_in (fo_workspace f) g"
  shows "folders_ok (fs @ [f])"
proof -
  have parents: "fo_parent g \<noteq> Some (fo_id f)" if "g \<in> set fs" for g
    using that assms(2) parent_exists [OF assms(1), of g "fo_id f"] by (metis imageI)
  have "no_cycle (parent_map (fs @ [f]))"
  proof (cases "fo_parent f")
    case None
    show ?thesis
    proof (rule no_cycle_edges [OF folders_okD(2) [OF assms(1)]])
      fix x y assume "parent_map (fs @ [f]) x = Some y"
      from parent_map_dest [OF this] show "parent_map fs x = Some y"
        using None by (auto simp: parent_map_iff [OF assms(1)])
    qed
  next
    case (Some q)
    show ?thesis
    proof (rule no_cycle_insert [OF folders_okD(2) [OF assms(1)], of q "fo_id f"])
      show "q \<notin> below (parent_map fs) (fo_id f)"
      proof
        assume "q \<in> below (parent_map fs) (fo_id f)"
        moreover have "q \<noteq> fo_id f" using assms(2) assms(6) [OF Some] by (metis imageI)
        ultimately obtain c where "parent_map fs c = Some (fo_id f)" using below_cases [of q "parent_map fs" "fo_id f"] by blast
        then show False using parents by (auto simp: parent_map_iff [OF assms(1)])
      qed
      fix a b assume "parent_map (fs @ [f]) a = Some b"
      from parent_map_dest [OF this] show "parent_map fs a = Some b \<or> a = fo_id f \<and> b = q"
        using Some by (auto simp: parent_map_iff [OF assms(1)])
    qed
  qed
  moreover have "folder_fits (fs @ [f]) g" if "g \<in> set fs" for g
    using folders_okD(3) [OF assms(1) that] by (auto simp: folder_fits_def)
  moreover have "folder_fits (fs @ [f]) f"
    using assms(3-6) by (auto simp: folder_fits_def live_in_def)
  ultimately show ?thesis
    using folders_okD(1) [OF assms(1)] assms(2) by (auto simp: folders_ok_def unique_on_append)
qed

lemma folders_ok_reparent:
  assumes "folders_ok fs" "live_in ws f" "f \<in> set fs"
    and "\<And>q. new_parent = Some q \<Longrightarrow>
      (\<exists>g \<in> set fs. fo_id g = q \<and> live_in ws g) \<and> q \<notin> below (parent_map fs) (fo_id f)"
  shows "folders_ok (update_rows (\<lambda>g. fo_id g = fo_id f \<and> live_in ws g) (\<lambda>g. g\<lparr>fo_parent := new_parent\<rparr>) fs)"
  unfolding update_rows_def
proof (rule folders_ok_map [OF assms(1)])
  let ?u = "\<lambda>g. if fo_id g = fo_id f \<and> live_in ws g then g\<lparr>fo_parent := new_parent\<rparr> else g"
  have u: "fo_id (?u g) = fo_id g" "fo_workspace (?u g) = fo_workspace g" "fo_deleted (?u g) = fo_deleted g"
    "fo_root (?u g) = fo_root g" for g by simp_all
  show "no_cycle (parent_map (map ?u fs))"
  proof (cases new_parent)
    case None
    show ?thesis by (rule no_cycle_map [OF assms(1)]) (auto simp: None split: if_splits)
  next
    case (Some q)
    show ?thesis
    proof (rule no_cycle_insert [OF folders_okD(2) [OF assms(1)], of q "fo_id f"])
      show "q \<notin> below (parent_map fs) (fo_id f)" using assms(4) Some by simp
      fix a b assume "parent_map (map ?u fs) a = Some b"
      from parent_map_dest [OF this] show "parent_map fs a = Some b \<or> a = fo_id f \<and> b = q"
        using Some by (auto simp: parent_map_iff [OF assms(1)] split: if_splits)
    qed
  qed
  fix g assume g: "g \<in> set fs"
  show "fo_root (?u g) = None \<longleftrightarrow> fo_deleted (?u g) = None"
    unfolding u by (rule folder_fits_simple(2) [OF assms(1) g])
  show "fo_root (?u g) = Some (fo_id g)" if "fo_parent (?u g) = None" "fo_deleted (?u g) \<noteq> None"
  proof -
    have "fo_parent g = None" using that by (auto simp: live_in_def split: if_splits)
    from folder_fits_simple(3) [OF assms(1) g this] that(2) show ?thesis unfolding u by blast
  qed
  fix p assume p: "fo_parent (?u g) = Some p"
  show "\<exists>h \<in> set fs. fo_id h = p \<and> fo_workspace h = fo_workspace g \<and>
      (fo_deleted (?u g) = None \<longrightarrow> fo_deleted (?u h) = None) \<and>
      (fo_deleted (?u g) \<noteq> None \<and> fo_root (?u g) \<noteq> Some (fo_id g) \<longrightarrow> fo_root (?u h) = fo_root (?u g))"
  proof (cases "fo_id g = fo_id f \<and> live_in ws g")
    case True
    then show ?thesis unfolding u using p assms(4) [of p] by (auto simp: live_in_def)
  next
    case False
    then have "fo_parent g = Some p" using p by (simp only: if_False)
    from parent_exists [OF assms(1) g this] show ?thesis unfolding u by metis
  qed
qed simp_all

text \<open>A subtree of live folders: closed downwards, and upwards except at its root.\<close>

definition live_tree :: "ident \<Rightarrow> folder_row list \<Rightarrow> ident \<Rightarrow> ident set \<Rightarrow> bool" where
  "live_tree ws fs s tree \<longleftrightarrow>
     tree = {x. x \<in> below (parent_map fs) s \<and> (\<exists>f \<in> set fs. fo_id f = x \<and> live_in ws f)} \<and>
     (\<exists>f \<in> set fs. fo_id f = s \<and> live_in ws f)"

lemma live_tree_subtree:
  assumes "folders_ok fs" "lists_live ws fs ns" "s \<in> fn_id ` set ns"
  shows "live_tree ws fs s (set (subtree_ids ns s))"
  using live_subtree [OF assms] assms(3) unfolding live_tree_def lists_live_ids [OF assms(2)] by blast

lemma below_up:
  assumes "x \<in> below p s" "x \<noteq> s" "p x = Some y"
  shows "y \<in> below p s"
proof -
  from assms(1,2) obtain z where "(x, z) \<in> edges p" "(z, s) \<in> (edges p)\<^sup>*"
    unfolding below_def mem_Collect_eq by (meson converse_rtranclE)
  with assms(3) show ?thesis by (simp add: edges_def below_def)
qed

lemma live_tree_live: "live_tree ws fs s tree \<Longrightarrow> folders_ok fs \<Longrightarrow> f \<in> set fs \<Longrightarrow> fo_id f \<in> tree \<Longrightarrow> live_in ws f"
  using folder_unique by (fastforce simp: live_tree_def)

lemma live_tree_up:
  assumes "folders_ok fs" "live_tree ws fs s tree" "f \<in> set fs" "fo_id f \<in> tree" "fo_id f \<noteq> s" "fo_parent f = Some p"
  shows "p \<in> tree"
proof -
  have p: "parent_map fs (fo_id f) = Some p" using assms(3,6) by (auto simp: parent_map_iff [OF assms(1)])
  have "live_in ws f" by (rule live_tree_live [OF assms(2,1,3,4)])
  from live_parent [OF assms(1,3) this assms(6)] obtain g where "g \<in> set fs" "fo_id g = p" "live_in ws g" .
  moreover have "p \<in> below (parent_map fs) s"
    using below_up [of "fo_id f" "parent_map fs" s p, OF _ assms(5) p] assms(2,4) by (simp add: live_tree_def)
  ultimately show ?thesis using assms(2) by (auto simp: live_tree_def)
qed

lemma live_tree_down:
  assumes "folders_ok fs" "live_tree ws fs s tree" "f \<in> set fs" "live_in ws f" "fo_parent f = Some p" "p \<in> tree"
  shows "fo_id f \<in> tree"
proof -
  have "parent_map fs (fo_id f) = Some p" using assms(3,5) by (auto simp: parent_map_iff [OF assms(1)])
  with assms(2,6) have "fo_id f \<in> below (parent_map fs) s" by (auto simp: live_tree_def intro: below_parent)
  with assms(2,3,4) show ?thesis by (auto simp: live_tree_def)
qed

lemma folders_ok_trash:
  assumes "folders_ok fs" "live_tree ws fs s tree"
  shows "folders_ok (update_rows (\<lambda>f. fo_id f \<in> tree \<and> live_in ws f)
    (\<lambda>f. f\<lparr>fo_deleted := Some t, fo_root := Some s\<rparr>) fs)"
  unfolding update_rows_def
proof (rule folders_ok_map [OF assms(1)])
  let ?u = "\<lambda>f. if fo_id f \<in> tree \<and> live_in ws f then f\<lparr>fo_deleted := Some t, fo_root := Some s\<rparr> else f"
  have p: "fo_parent (?u f) = fo_parent f" for f by simp
  show "no_cycle (parent_map (map ?u fs))" by (rule no_cycle_map [OF assms(1)]) (simp_all add: p split: if_splits)
  fix f assume f: "f \<in> set fs"
  show "fo_root (?u f) = None \<longleftrightarrow> fo_deleted (?u f) = None"
    using folder_fits_simple(2) [OF assms(1) f] by simp
  show "fo_root (?u f) = Some (fo_id f)" if "fo_parent (?u f) = None" "fo_deleted (?u f) \<noteq> None"
  proof (cases "fo_id f \<in> tree \<and> live_in ws f")
    case True
    have "fo_id f = s"
    proof (rule ccontr)
      assume "fo_id f \<noteq> s"
      then obtain y where "parent_map fs (fo_id f) = Some y"
        using True assms(2) unfolding live_tree_def below_def edges_def by (auto elim: converse_rtranclE)
      then show False using that(1) unfolding p parent_map_row [OF assms(1) f] by simp
    qed
    with True show ?thesis by simp
  next
    case False
    then show ?thesis using folder_fits_simple(3) [OF assms(1) f] that by auto
  qed
  fix q assume "fo_parent (?u f) = Some q"
  then have q: "fo_parent f = Some q" unfolding p .
  from parent_exists [OF assms(1) f q] obtain g where g: "g \<in> set fs" "fo_id g = q" "fo_workspace g = fo_workspace f"
    "fo_deleted f = None \<Longrightarrow> fo_deleted g = None"
    "fo_deleted f \<noteq> None \<Longrightarrow> fo_root f \<noteq> Some (fo_id f) \<Longrightarrow> fo_root g = fo_root f" by blast
  show "\<exists>h \<in> set fs. fo_id h = q \<and> fo_workspace h = fo_workspace f \<and>
      (fo_deleted (?u f) = None \<longrightarrow> fo_deleted (?u h) = None) \<and>
      (fo_deleted (?u f) \<noteq> None \<and> fo_root (?u f) \<noteq> Some (fo_id f) \<longrightarrow> fo_root (?u h) = fo_root (?u f))"
  proof (intro bexI [OF _ g(1)] conjI impI)
    assume d: "fo_deleted (?u f) = None"
    then have "fo_deleted f = None" "\<not> (fo_id f \<in> tree \<and> live_in ws f)" by (auto split: if_splits)
    moreover have "\<not> (q \<in> tree \<and> live_in ws g)"
    proof
      assume a: "q \<in> tree \<and> live_in ws g"
      then have "live_in ws f" using g(3) \<open>fo_deleted f = None\<close> by (simp add: live_in_def)
      with live_tree_down [OF assms f _ q] a \<open>\<not> (fo_id f \<in> tree \<and> live_in ws f)\<close> show False by blast
    qed
    ultimately show "fo_deleted (?u g) = None" using g(2,4) by auto
  next
    assume d: "fo_deleted (?u f) \<noteq> None \<and> fo_root (?u f) \<noteq> Some (fo_id f)"
    show "fo_root (?u g) = fo_root (?u f)"
    proof (cases "fo_id f \<in> tree \<and> live_in ws f")
      case True
      then have "q \<in> tree" using live_tree_up [OF assms f _ _ q] d by auto
      then show ?thesis using True live_tree_live [OF assms(2,1) g(1)] g(2) by auto
    next
      case False
      then have "fo_deleted f \<noteq> None" "fo_root f \<noteq> Some (fo_id f)" using d by auto
      then have "fo_root g = fo_root f" "fo_deleted g \<noteq> None"
        using g(5) folder_fits_simple(2) [OF assms(1) f] folder_fits_simple(2) [OF assms(1) g(1)] by auto
      then show ?thesis using False by (auto simp: live_in_def)
    qed
  qed (use g in simp_all)
qed simp_all

lemma restore_rows_eq:
  "restore_folder_rows ws s parent name fs =
   map (\<lambda>f. if fo_id f = s \<and> fo_workspace f = ws
       then f\<lparr>fo_deleted := None, fo_root := None, fo_parent := parent, fo_name := name\<rparr>
       else if fo_workspace f = ws \<and> fo_root f = Some s \<and> fo_deleted f \<noteq> None
       then f\<lparr>fo_deleted := None, fo_root := None\<rparr> else f) fs"
  by (simp add: restore_folder_rows_def update_rows_def comp_def)

lemma folders_ok_restore:
  assumes "folders_ok fs" "f0 \<in> set fs" "fo_id f0 = s" "folder_root_in ws f0"
    and "parent = None \<or> parent = fo_parent f0 \<and> (\<exists>g \<in> set fs. Some (fo_id g) = parent \<and> live_in ws g)"
  shows "folders_ok (restore_folder_rows ws s parent name fs)"
  unfolding restore_rows_eq
proof (rule folders_ok_map [OF assms(1)])
  let ?u = "\<lambda>f. if fo_id f = s \<and> fo_workspace f = ws
       then f\<lparr>fo_deleted := None, fo_root := None, fo_parent := parent, fo_name := name\<rparr>
       else if fo_workspace f = ws \<and> fo_root f = Some s \<and> fo_deleted f \<noteq> None
       then f\<lparr>fo_deleted := None, fo_root := None\<rparr> else f"
  have root: "f = f0" if "f \<in> set fs" "fo_id f = s" for f
    using folder_unique [OF assms(1) that(1) assms(2)] that(2) assms(3) by simp
  have f0: "fo_workspace f0 = ws" "fo_root f0 = Some s" "fo_deleted f0 \<noteq> None"
    using assms(3,4) by (auto simp: folder_root_in_def)
  have same_parent: "fo_parent f = Some p" if "f \<in> set fs" "fo_parent (?u f) = Some p" for f p
    using that root [of f] assms(5) by (auto split: if_splits)
  show "no_cycle (parent_map (map ?u fs))" by (rule no_cycle_map [OF assms(1)]) (use same_parent in auto)
  fix f assume f: "f \<in> set fs"
  show "fo_root (?u f) = None \<longleftrightarrow> fo_deleted (?u f) = None"
    using folder_fits_simple(2) [OF assms(1) f] by auto
  show "fo_root (?u f) = Some (fo_id f)" if "fo_parent (?u f) = None" "fo_deleted (?u f) \<noteq> None"
    using folder_fits_simple(3) [OF assms(1) f] that by (auto split: if_splits)
  fix p assume p: "fo_parent (?u f) = Some p"
  from parent_exists [OF assms(1) f same_parent [OF f p]] obtain g where g: "g \<in> set fs" "fo_id g = p"
    "fo_workspace g = fo_workspace f" "fo_deleted f = None \<Longrightarrow> fo_deleted g = None"
    "fo_deleted f \<noteq> None \<Longrightarrow> fo_root f \<noteq> Some (fo_id f) \<Longrightarrow> fo_root g = fo_root f" by blast
  show "\<exists>h \<in> set fs. fo_id h = p \<and> fo_workspace h = fo_workspace f \<and>
      (fo_deleted (?u f) = None \<longrightarrow> fo_deleted (?u h) = None) \<and>
      (fo_deleted (?u f) \<noteq> None \<and> fo_root (?u f) \<noteq> Some (fo_id f) \<longrightarrow> fo_root (?u h) = fo_root (?u f))"
  proof (intro bexI [OF _ g(1)] conjI impI)
    assume d: "fo_deleted (?u f) = None"
    show "fo_deleted (?u g) = None"
    proof (cases "fo_id f = s \<and> fo_workspace f = ws")
      case True
      then have "parent = Some p" using p by simp
      then obtain h where "h \<in> set fs" "fo_id h = p" "live_in ws h" using assms(5) by auto
      then have "fo_deleted g = None" using folder_unique [OF assms(1) _ g(1)] g(2) by (auto simp: live_in_def)
      then show ?thesis by simp
    next
      case False
      have ids: "fo_id f \<noteq> s" if "fo_root f = Some s" using that False root [OF f] f0(1) by auto
      show ?thesis
      proof (cases "fo_deleted f = None")
        case True
        then show ?thesis using g(4) by simp
      next
        case trashed: False
        then have "fo_workspace f = ws" "fo_root f = Some s" using d False by (auto split: if_splits)
        then have "fo_root g = Some s" using g(5) [OF trashed] ids by auto
        then show ?thesis using g(3) \<open>fo_workspace f = ws\<close> by auto
      qed
    qed
  next
    assume d: "fo_deleted (?u f) \<noteq> None \<and> fo_root (?u f) \<noteq> Some (fo_id f)"
    then have u: "?u f = f" by (auto split: if_splits)
    then have gf: "fo_root g = fo_root f" "fo_deleted f \<noteq> None" using d g(5) by auto
    then have "fo_deleted g \<noteq> None"
      using folder_fits_simple(2) [OF assms(1) f] folder_fits_simple(2) [OF assms(1) g(1)] by auto
    have n: "\<not> (fo_workspace f = ws \<and> fo_root f = Some s)" using d gf(2) by (auto split: if_splits)
    moreover have "\<not> (fo_id g = s \<and> fo_workspace g = ws)"
      using n root [OF g(1)] f0(2) gf(1) g(3) by auto
    ultimately show "fo_root (?u g) = fo_root (?u f)" unfolding u using gf(1) g(3) by auto
  qed (use g in simp_all)
qed simp_all

text \<open>The rows a cascading delete leaves: no row below a deleted one stays.\<close>

lemma folders_ok_filter:
  assumes "folders_ok fs"
    and "\<And>f g. f \<in> set fs \<Longrightarrow> g \<in> set fs \<Longrightarrow> fo_parent f = Some (fo_id g) \<Longrightarrow> keep f \<Longrightarrow> keep g"
  shows "folders_ok (filter keep fs)"
proof -
  have "no_cycle (parent_map (filter keep fs))"
  proof (rule no_cycle_edges [OF folders_okD(2) [OF assms(1)]])
    fix x y assume "parent_map (filter keep fs) x = Some y"
    from parent_map_dest [OF this] show "parent_map fs x = Some y" by (auto simp: parent_map_iff [OF assms(1)])
  qed
  moreover have "folder_fits (filter keep fs) f" if f: "f \<in> set fs" "keep f" for f
  proof -
    have "\<exists>g \<in> set (filter keep fs). fo_id g = p \<and> fo_workspace g = fo_workspace f \<and>
        (if fo_deleted f = None then fo_deleted g = None
         else fo_root f \<noteq> Some (fo_id f) \<longrightarrow> fo_root g = fo_root f)" if p: "fo_parent f = Some p" for p
      using parent_exists [OF assms(1) f(1) p] assms(2) [OF f(1) _ _ f(2)] p by auto metis
    then show ?thesis using folder_fits_simple [OF assms(1) f(1)] by (simp add: folder_fits_def)
  qed
  moreover have "unique_on fo_id (filter keep fs)"
    using folders_okD(1) [OF assms(1)] by (simp add: unique_on_def distinct_map_filter)
  ultimately show ?thesis by (simp add: folders_ok_def)
qed

subsection \<open>Note tables stay sound\<close>

lemma note_fitsD:
  assumes "note_fits fs n"
  shows "nt_root n = None \<longleftrightarrow> nt_deleted n = None" "nt_id n \<notin> fo_id ` set fs"
    "nt_folder n = Some c \<Longrightarrow> \<exists>g \<in> set fs. fo_id g = c \<and> nt_workspace n = Some (fo_workspace g) \<and>
       (nt_deleted n = None \<longrightarrow> fo_deleted g = None) \<and>
       (nt_deleted n \<noteq> None \<and> nt_root n \<noteq> Some (nt_id n) \<longrightarrow> fo_root g = nt_root n)"
    "g \<in> set fs \<Longrightarrow> nt_root n = Some (fo_id g) \<Longrightarrow> fo_root g = Some (fo_id g) \<and> nt_workspace n = Some (fo_workspace g)"
  using assms by (auto simp: note_fits_def split: if_splits)

lemma note_fitsI:
  assumes "nt_root n = None \<longleftrightarrow> nt_deleted n = None" "nt_id n \<notin> fo_id ` set fs"
    "\<And>c. nt_folder n = Some c \<Longrightarrow> \<exists>g \<in> set fs. fo_id g = c \<and> nt_workspace n = Some (fo_workspace g) \<and>
       (nt_deleted n = None \<longrightarrow> fo_deleted g = None) \<and>
       (nt_deleted n \<noteq> None \<and> nt_root n \<noteq> Some (nt_id n) \<longrightarrow> fo_root g = nt_root n)"
    "\<And>g. g \<in> set fs \<Longrightarrow> nt_root n = Some (fo_id g) \<Longrightarrow> fo_root g = Some (fo_id g) \<and> nt_workspace n = Some (fo_workspace g)"
  shows "note_fits fs n"
proof -
  have "\<exists>g \<in> set fs. fo_id g = c \<and> nt_workspace n = Some (fo_workspace g) \<and>
      (if nt_deleted n = None then fo_deleted g = None
       else nt_root n \<noteq> Some (nt_id n) \<longrightarrow> fo_root g = nt_root n)" if "nt_folder n = Some c" for c
    using assms(3) [OF that] by auto
  then show ?thesis unfolding note_fits_def using assms(1,2,4) by blast
qed

lemma notes_ok_map:
  assumes "notes_ok fs ns" "\<And>n. nt_id (v n) = nt_id n" "\<And>n. n \<in> set ns \<Longrightarrow> note_fits fs n \<Longrightarrow> note_fits fs' (v n)"
  shows "notes_ok fs' (map v ns)"
  using assms by (auto simp: notes_ok_def unique_on_def comp_def)

lemma notes_ok_filter: "notes_ok fs ns \<Longrightarrow> notes_ok fs (filter p ns)"
  by (auto simp: notes_ok_def unique_on_def distinct_map_filter)

lemma notes_ok_same_folders:
  assumes "notes_ok fs ns" "\<And>f. fo_id (u f) = fo_id f \<and> fo_workspace (u f) = fo_workspace f \<and>
    fo_deleted (u f) = fo_deleted f \<and> fo_root (u f) = fo_root f"
  shows "notes_ok (map u fs) ns"
proof -
  have "notes_ok (map u fs) (map (\<lambda>n. n) ns)"
  proof (rule notes_ok_map [OF assms(1)])
    fix n assume n: "note_fits fs n"
    show "note_fits (map u fs) n"
    proof (rule note_fitsI)
      show "nt_id n \<notin> fo_id ` set (map u fs)" using note_fitsD(2) [OF n] assms(2) by (auto simp: image_image)
      fix c assume "nt_folder n = Some c"
      from note_fitsD(3) [OF n this] obtain g where g: "g \<in> set fs" "fo_id g = c" "nt_workspace n = Some (fo_workspace g)"
        "nt_deleted n = None \<longrightarrow> fo_deleted g = None"
        "nt_deleted n \<noteq> None \<and> nt_root n \<noteq> Some (nt_id n) \<longrightarrow> fo_root g = nt_root n" by (elim bexE conjE) (rule that)
      have u: "fo_id (u g) = fo_id g" "fo_workspace (u g) = fo_workspace g" "fo_deleted (u g) = fo_deleted g"
        "fo_root (u g) = fo_root g" using assms(2) [of g] by simp_all
      show "\<exists>g \<in> set (map u fs). fo_id g = c \<and> nt_workspace n = Some (fo_workspace g) \<and>
          (nt_deleted n = None \<longrightarrow> fo_deleted g = None) \<and>
          (nt_deleted n \<noteq> None \<and> nt_root n \<noteq> Some (nt_id n) \<longrightarrow> fo_root g = nt_root n)"
      proof (rule bexI [of _ "u g"])
        show "u g \<in> set (map u fs)" using g(1) by simp
      qed (unfold u, use g(2-5) in blast)
    next
      fix g assume "g \<in> set (map u fs)" "nt_root n = Some (fo_id g)"
      then show "fo_root g = Some (fo_id g) \<and> nt_workspace n = Some (fo_workspace g)"
        using note_fitsD(4) [OF n] assms(2) by auto
    qed (rule note_fitsD(1) [OF n])
  qed simp
  then show ?thesis by simp
qed

lemma notes_ok_append_folder:
  assumes "notes_ok fs ns" "fo_id f \<notin> nt_id ` set ns" "Some (fo_id f) \<notin> nt_root ` set ns"
  shows "notes_ok (fs @ [f]) ns"
proof -
  have "note_fits (fs @ [f]) n" if n: "n \<in> set ns" "note_fits fs n" for n
  proof (rule note_fitsI)
    fix c assume "nt_folder n = Some c"
    from note_fitsD(3) [OF n(2) this] show "\<exists>g \<in> set (fs @ [f]). fo_id g = c \<and> nt_workspace n = Some (fo_workspace g) \<and>
        (nt_deleted n = None \<longrightarrow> fo_deleted g = None) \<and>
        (nt_deleted n \<noteq> None \<and> nt_root n \<noteq> Some (nt_id n) \<longrightarrow> fo_root g = nt_root n)" by auto
  next
    fix g assume "g \<in> set (fs @ [f])" "nt_root n = Some (fo_id g)"
    moreover have "nt_root n \<noteq> Some (fo_id f)" using n(1) assms(3) by force
    ultimately show "fo_root g = Some (fo_id g) \<and> nt_workspace n = Some (fo_workspace g)"
      using note_fitsD(4) [OF n(2)] by auto
  next
    have "nt_id n \<noteq> fo_id f" using n(1) assms(2) by (metis imageI)
    then show "nt_id n \<notin> fo_id ` set (fs @ [f])" using note_fitsD(2) [OF n(2)] by simp
  qed (rule note_fitsD(1) [OF n(2)])
  with assms(1) show ?thesis by (auto simp: notes_ok_def)
qed

lemma notes_ok_place:
  assumes "notes_ok fs ns" "\<And>c. folder = Some c \<Longrightarrow> \<exists>g \<in> set fs. fo_id g = c \<and> live_in ws g"
    and "\<And>n. hit n \<Longrightarrow> nt_workspace n = Some ws \<and> nt_deleted n = None"
  shows "notes_ok fs (update_rows hit (\<lambda>n. n\<lparr>nt_folder := folder\<rparr>) ns)"
  unfolding update_rows_def
proof (rule notes_ok_map [OF assms(1)])
  fix n assume n: "n \<in> set ns" "note_fits fs n"
  show "note_fits fs (if hit n then n\<lparr>nt_folder := folder\<rparr> else n)"
  proof (cases "hit n")
    case True
    have "note_fits fs (n\<lparr>nt_folder := folder\<rparr>)"
    proof (rule note_fitsI)
      fix c assume "nt_folder (n\<lparr>nt_folder := folder\<rparr>) = Some c"
      then show "\<exists>g \<in> set fs. fo_id g = c \<and> nt_workspace (n\<lparr>nt_folder := folder\<rparr>) = Some (fo_workspace g) \<and>
          (nt_deleted (n\<lparr>nt_folder := folder\<rparr>) = None \<longrightarrow> fo_deleted g = None) \<and>
          (nt_deleted (n\<lparr>nt_folder := folder\<rparr>) \<noteq> None \<and> nt_root (n\<lparr>nt_folder := folder\<rparr>) \<noteq> Some (nt_id (n\<lparr>nt_folder := folder\<rparr>))
             \<longrightarrow> fo_root g = nt_root (n\<lparr>nt_folder := folder\<rparr>))"
        using assms(2) [of c] assms(3) [OF True] by (auto simp: live_in_def)
    qed (use note_fitsD(1,2,4) [OF n(2)] in simp_all)
    with True show ?thesis by simp
  qed (simp add: n)
qed simp

lemma notes_ok_trash_note:
  assumes "notes_ok fs ns"
  shows "notes_ok fs (update_rows (live_note ws nid) (\<lambda>n. n\<lparr>nt_deleted := Some t, nt_root := Some nid\<rparr>) ns)"
  unfolding update_rows_def
proof (rule notes_ok_map [OF assms])
  fix n assume n: "n \<in> set ns" "note_fits fs n"
  show "note_fits fs (if live_note ws nid n then n\<lparr>nt_deleted := Some t, nt_root := Some nid\<rparr> else n)"
  proof (cases "live_note ws nid n")
    case True
    then have nid: "nid = nt_id n" by (simp add: live_note_def)
    have "note_fits fs (n\<lparr>nt_deleted := Some t, nt_root := Some nid\<rparr>)"
    proof (rule note_fitsI)
      fix g assume "g \<in> set fs" "nt_root (n\<lparr>nt_deleted := Some t, nt_root := Some nid\<rparr>) = Some (fo_id g)"
      then have False using note_fitsD(2) [OF n(2)] nid by auto
      then show "fo_root g = Some (fo_id g) \<and> nt_workspace (n\<lparr>nt_deleted := Some t, nt_root := Some nid\<rparr>) = Some (fo_workspace g)" ..
    next
      fix c assume "nt_folder (n\<lparr>nt_deleted := Some t, nt_root := Some nid\<rparr>) = Some c"
      with note_fitsD(3) [OF n(2), of c] show "\<exists>g \<in> set fs. fo_id g = c \<and>
          nt_workspace (n\<lparr>nt_deleted := Some t, nt_root := Some nid\<rparr>) = Some (fo_workspace g) \<and>
          (nt_deleted (n\<lparr>nt_deleted := Some t, nt_root := Some nid\<rparr>) = None \<longrightarrow> fo_deleted g = None) \<and>
          (nt_deleted (n\<lparr>nt_deleted := Some t, nt_root := Some nid\<rparr>) \<noteq> None \<and>
             nt_root (n\<lparr>nt_deleted := Some t, nt_root := Some nid\<rparr>) \<noteq> Some (nt_id (n\<lparr>nt_deleted := Some t, nt_root := Some nid\<rparr>))
             \<longrightarrow> fo_root g = nt_root (n\<lparr>nt_deleted := Some t, nt_root := Some nid\<rparr>))"
        by (auto simp: nid)
    qed (use note_fitsD(2) [OF n(2)] in simp_all)
    with True show ?thesis by simp
  qed (simp add: n)
qed simp

lemma notes_ok_trash_folder:
  assumes "folders_ok fs" "notes_ok fs ns" "live_tree ws fs s (set tree)"
  shows "notes_ok (update_rows (\<lambda>f. fo_id f \<in> set tree \<and> live_in ws f) (\<lambda>f. f\<lparr>fo_deleted := Some t, fo_root := Some s\<rparr>) fs)
    (update_rows (note_in ws tree) (\<lambda>n. n\<lparr>nt_deleted := Some t, nt_root := Some s\<rparr>) ns)"
  unfolding update_rows_def
proof (rule notes_ok_map [OF assms(2)])
  let ?u = "\<lambda>f. if fo_id f \<in> set tree \<and> live_in ws f then f\<lparr>fo_deleted := Some t, fo_root := Some s\<rparr> else f"
  let ?v = "\<lambda>n. if note_in ws tree n then n\<lparr>nt_deleted := Some t, nt_root := Some s\<rparr> else n"
  obtain f0 where f0: "f0 \<in> set fs" "fo_id f0 = s" "live_in ws f0"
    using assms(3) by (auto simp: live_tree_def)
  have s: "s \<in> set tree" using assms(3) f0 by (auto simp: live_tree_def)
  fix n assume n: "n \<in> set ns" "note_fits fs n"
  have ids: "nt_id n \<notin> fo_id ` set (map ?u fs)" using note_fitsD(2) [OF n(2)] by (auto simp: image_image)
  show "note_fits (map ?u fs) (?v n)"
  proof (cases "note_in ws tree n")
    case True
    then have n': "nt_workspace n = Some ws" "nt_folder n \<noteq> None" "the (nt_folder n) \<in> set tree" "nt_deleted n = None"
      by (auto simp: note_in_def)
    have "note_fits (map ?u fs) (n\<lparr>nt_deleted := Some t, nt_root := Some s\<rparr>)"
    proof (rule note_fitsI)
      fix c assume c: "nt_folder (n\<lparr>nt_deleted := Some t, nt_root := Some s\<rparr>) = Some c"
      from note_fitsD(3) [OF n(2), of c] c n'(4) obtain g where
        g: "g \<in> set fs" "fo_id g = c" "nt_workspace n = Some (fo_workspace g)" "fo_deleted g = None" by auto
      with n' c have "fo_id g \<in> set tree \<and> live_in ws g" by (simp add: live_in_def)
      then show "\<exists>h \<in> set (map ?u fs). fo_id h = c \<and>
          nt_workspace (n\<lparr>nt_deleted := Some t, nt_root := Some s\<rparr>) = Some (fo_workspace h) \<and>
          (nt_deleted (n\<lparr>nt_deleted := Some t, nt_root := Some s\<rparr>) = None \<longrightarrow> fo_deleted h = None) \<and>
          (nt_deleted (n\<lparr>nt_deleted := Some t, nt_root := Some s\<rparr>) \<noteq> None \<and>
             nt_root (n\<lparr>nt_deleted := Some t, nt_root := Some s\<rparr>) \<noteq> Some (nt_id (n\<lparr>nt_deleted := Some t, nt_root := Some s\<rparr>))
             \<longrightarrow> fo_root h = nt_root (n\<lparr>nt_deleted := Some t, nt_root := Some s\<rparr>))"
        using g by (intro bexI [of _ "?u g"]) auto
    next
      fix h assume h: "h \<in> set (map ?u fs)" "nt_root (n\<lparr>nt_deleted := Some t, nt_root := Some s\<rparr>) = Some (fo_id h)"
      then obtain g where g: "g \<in> set fs" "h = ?u g" by auto
      moreover have "fo_id g = s" using g(2) h(2) by (simp split: if_splits)
      ultimately have "g = f0" using folder_unique [OF assms(1) g(1) f0(1)] f0(2) by simp
      with g show "fo_root h = Some (fo_id h) \<and> nt_workspace (n\<lparr>nt_deleted := Some t, nt_root := Some s\<rparr>) = Some (fo_workspace h)"
        using g f0 s n'(1) by (simp add: live_in_def)
    qed (use ids in simp_all)
    with True show ?thesis by simp
  next
    case False
    have "note_fits (map ?u fs) n"
    proof (rule note_fitsI)
      fix c assume c: "nt_folder n = Some c"
      from note_fitsD(3) [OF n(2) c] obtain g where g: "g \<in> set fs" "fo_id g = c" "nt_workspace n = Some (fo_workspace g)"
        "nt_deleted n = None \<longrightarrow> fo_deleted g = None"
        "nt_deleted n \<noteq> None \<and> nt_root n \<noteq> Some (nt_id n) \<longrightarrow> fo_root g = nt_root n"
        by (elim bexE conjE) (rule that)
      show "\<exists>h \<in> set (map ?u fs). fo_id h = c \<and> nt_workspace n = Some (fo_workspace h) \<and>
          (nt_deleted n = None \<longrightarrow> fo_deleted h = None) \<and>
          (nt_deleted n \<noteq> None \<and> nt_root n \<noteq> Some (nt_id n) \<longrightarrow> fo_root h = nt_root n)"
      proof (rule bexI [of _ "?u g"], intro conjI impI)
        assume "nt_deleted n = None"
        then have "\<not> (fo_id g \<in> set tree \<and> live_in ws g)"
          using False c g(2,3) by (auto simp: note_in_def live_in_def)
        then show "fo_deleted (?u g) = None" using g(4) \<open>nt_deleted n = None\<close> by auto
      next
        assume d: "nt_deleted n \<noteq> None \<and> nt_root n \<noteq> Some (nt_id n)"
        then have "fo_root g = nt_root n" "nt_root n \<noteq> None" using g(5) note_fitsD(1) [OF n(2)] by auto
        then have "fo_deleted g \<noteq> None" using folder_fits_simple(2) [OF assms(1) g(1)] by auto
        then show "fo_root (?u g) = nt_root n" using \<open>fo_root g = nt_root n\<close> by (auto simp: live_in_def)
      qed (use g in auto)
    next
      fix h assume h: "h \<in> set (map ?u fs)" "nt_root n = Some (fo_id h)"
      then obtain g where g: "g \<in> set fs" "h = ?u g" by auto
      then have r: "fo_root g = Some (fo_id g) \<and> nt_workspace n = Some (fo_workspace g)"
        using note_fitsD(4) [OF n(2) g(1)] h(2) by (simp split: if_splits)
      then have "fo_deleted g \<noteq> None" using folder_fits_simple(2) [OF assms(1) g(1)] by auto
      then show "fo_root h = Some (fo_id h) \<and> nt_workspace n = Some (fo_workspace h)"
        using g r by (auto simp: live_in_def)
    qed (use ids note_fitsD(1) [OF n(2)] in simp_all)
    with False show ?thesis by simp
  qed
qed simp

lemma notes_ok_restore_folder:
  assumes "folders_ok fs" "notes_ok fs ns" "f0 \<in> set fs" "fo_id f0 = s" "folder_root_in ws f0"
  shows "notes_ok (restore_folder_rows ws s parent name fs) (restore_note_rows ws s ns)"
  unfolding restore_rows_eq restore_note_rows_def update_rows_def
proof (rule notes_ok_map [OF assms(2)])
  let ?u = "\<lambda>f. if fo_id f = s \<and> fo_workspace f = ws
       then f\<lparr>fo_deleted := None, fo_root := None, fo_parent := parent, fo_name := name\<rparr>
       else if fo_workspace f = ws \<and> fo_root f = Some s \<and> fo_deleted f \<noteq> None
       then f\<lparr>fo_deleted := None, fo_root := None\<rparr> else f"
  let ?hit = "\<lambda>n. nt_workspace n = Some ws \<and> nt_root n = Some s \<and> nt_deleted n \<noteq> None"
  have root: "f = f0" if "f \<in> set fs" "fo_id f = s" for f
    using folder_unique [OF assms(1) that(1) assms(3)] that(2) assms(4) by simp
  have f0: "fo_workspace f0 = ws" "fo_root f0 = Some s" "fo_deleted f0 \<noteq> None"
    using assms(4,5) by (auto simp: folder_root_in_def)
  have live: "fo_deleted (?u g) = None" if "g \<in> set fs" "fo_workspace g = ws" "fo_root g = Some s" for g
    using that folder_fits_simple(2) [OF assms(1) that(1)] by auto
  have same: "?u g = g" if "g \<in> set fs" "fo_root g \<noteq> Some s \<or> fo_workspace g \<noteq> ws" for g
    using that root [OF that(1)] f0 by auto
  fix n assume n: "n \<in> set ns" "note_fits fs n"
  have ids: "nt_id n \<notin> fo_id ` set (map ?u fs)" using note_fitsD(2) [OF n(2)] by (auto simp: image_image)
  have own: "nt_id n \<noteq> s" using note_fitsD(2) [OF n(2)] assms(3,4) by auto
  show "note_fits (map ?u fs) (if ?hit n then n\<lparr>nt_deleted := None, nt_root := None\<rparr> else n)"
  proof (cases "?hit n")
    case True
    have "note_fits (map ?u fs) (n\<lparr>nt_deleted := None, nt_root := None\<rparr>)"
    proof (rule note_fitsI)
      fix c assume c: "nt_folder (n\<lparr>nt_deleted := None, nt_root := None\<rparr>) = Some c"
      from note_fitsD(3) [OF n(2), of c] c True own obtain g where
        g: "g \<in> set fs" "fo_id g = c" "nt_workspace n = Some (fo_workspace g)" "fo_root g = Some s" by auto
      with True have "fo_deleted (?u g) = None" by (intro live) auto
      with g show "\<exists>h \<in> set (map ?u fs). fo_id h = c \<and>
          nt_workspace (n\<lparr>nt_deleted := None, nt_root := None\<rparr>) = Some (fo_workspace h) \<and>
          (nt_deleted (n\<lparr>nt_deleted := None, nt_root := None\<rparr>) = None \<longrightarrow> fo_deleted h = None) \<and>
          (nt_deleted (n\<lparr>nt_deleted := None, nt_root := None\<rparr>) \<noteq> None \<and>
             nt_root (n\<lparr>nt_deleted := None, nt_root := None\<rparr>) \<noteq> Some (nt_id (n\<lparr>nt_deleted := None, nt_root := None\<rparr>))
             \<longrightarrow> fo_root h = nt_root (n\<lparr>nt_deleted := None, nt_root := None\<rparr>))"
        by (intro bexI [of _ "?u g"]) auto
    qed (use ids in simp_all)
    with True show ?thesis by (simp only: if_True simp_thms)
  next
    case False
    have "note_fits (map ?u fs) n"
    proof (rule note_fitsI)
      fix c assume c: "nt_folder n = Some c"
      from note_fitsD(3) [OF n(2) c] obtain g where g: "g \<in> set fs" "fo_id g = c" "nt_workspace n = Some (fo_workspace g)"
        "nt_deleted n = None \<longrightarrow> fo_deleted g = None"
        "nt_deleted n \<noteq> None \<and> nt_root n \<noteq> Some (nt_id n) \<longrightarrow> fo_root g = nt_root n"
        by (elim bexE conjE) (rule that)
      show "\<exists>h \<in> set (map ?u fs). fo_id h = c \<and> nt_workspace n = Some (fo_workspace h) \<and>
          (nt_deleted n = None \<longrightarrow> fo_deleted h = None) \<and>
          (nt_deleted n \<noteq> None \<and> nt_root n \<noteq> Some (nt_id n) \<longrightarrow> fo_root h = nt_root n)"
      proof (rule bexI [of _ "?u g"], intro conjI impI)
        assume d: "nt_deleted n \<noteq> None \<and> nt_root n \<noteq> Some (nt_id n)"
        then have "fo_root g = nt_root n" using g(5) by simp
        moreover have "fo_root g \<noteq> Some s \<or> fo_workspace g \<noteq> ws" using False d g(3) calculation by auto
        ultimately show "fo_root (?u g) = nt_root n" using same [OF g(1)] by simp
      qed (use g in auto)
    next
      fix h assume h: "h \<in> set (map ?u fs)" "nt_root n = Some (fo_id h)"
      then obtain g where g: "g \<in> set fs" "h = ?u g" by auto
      then have r: "fo_root g = Some (fo_id g) \<and> nt_workspace n = Some (fo_workspace g)" "nt_root n = Some (fo_id g)"
        using note_fitsD(4) [OF n(2) g(1)] h(2) by (simp_all split: if_splits)
      then have "fo_root g \<noteq> Some s \<or> fo_workspace g \<noteq> ws" using False note_fitsD(1) [OF n(2)] by auto
      then have "h = g" using same [OF g(1)] g(2) by simp
      then show "fo_root h = Some (fo_id h) \<and> nt_workspace n = Some (fo_workspace h)" using r by simp
    qed (use ids note_fitsD(1) [OF n(2)] in simp_all)
    with False show ?thesis by (simp only: if_False)
  qed
qed simp

lemma notes_ok_restore_note:
  assumes "notes_ok fs ns" "n0 \<in> set ns" "trashed_note ws nid n0"
    and "live = (truthy (nt_folder n0) \<longrightarrow> (\<exists>g \<in> set fs. Some (fo_id g) = nt_folder n0 \<and> live_in ws g))"
    and "\<And>f. f \<in> set fs \<Longrightarrow> fo_id f \<noteq> []"
  shows "notes_ok fs (update_rows (\<lambda>r. nt_id r = nid \<and> nt_workspace r = Some ws \<and> nt_deleted r \<noteq> None)
    (\<lambda>r. r\<lparr>nt_deleted := None, nt_root := None, nt_folder := (if live then nt_folder r else None)\<rparr>) ns)"
  unfolding update_rows_def
proof (rule notes_ok_map [OF assms(1)])
  let ?hit = "\<lambda>r. nt_id r = nid \<and> nt_workspace r = Some ws \<and> nt_deleted r \<noteq> None"
  fix n assume n: "n \<in> set ns" "note_fits fs n"
  let ?n = "n\<lparr>nt_deleted := None, nt_root := None, nt_folder := (if live then nt_folder n else None)\<rparr>"
  show "note_fits fs (if ?hit n then ?n else n)"
  proof (cases "?hit n")
    case True
    have "nt_id n = nt_id n0" using True assms(3) by (simp add: trashed_note_def)
    moreover have "unique_on nt_id ns" using assms(1) by (simp add: notes_ok_def)
    ultimately have n0: "n = n0" using unique_onD [of nt_id ns n n0] n(1) assms(2) by blast
    have "note_fits fs ?n"
    proof (rule note_fitsI)
      fix c assume "nt_folder ?n = Some c"
      then have c: "nt_folder n = Some c" "live" by (simp_all split: if_splits)
      from note_fitsD(3) [OF n(2) c(1)] obtain h where "h \<in> set fs" "fo_id h = c" by blast
      then have "truthy (nt_folder n0)" using assms(5) c(1) n0 by (auto simp: truthy_def)
      then obtain g where "g \<in> set fs" "fo_id g = c" "live_in ws g" using c assms(4) n0 by auto
      then show "\<exists>g \<in> set fs. fo_id g = c \<and> nt_workspace ?n = Some (fo_workspace g) \<and>
          (nt_deleted ?n = None \<longrightarrow> fo_deleted g = None) \<and>
          (nt_deleted ?n \<noteq> None \<and> nt_root ?n \<noteq> Some (nt_id ?n) \<longrightarrow> fo_root g = nt_root ?n)"
        using True by (auto simp: live_in_def)
    qed (use note_fitsD(2) [OF n(2)] in simp_all)
    with True show ?thesis by (simp only: if_True simp_thms)
  next
    case False
    with n show ?thesis by (simp only: if_False)
  qed
qed simp

lemma notes_ok_filter_folders:
  assumes "notes_ok fs ns"
  shows "notes_ok (filter keep fs)
    (update_rows (\<lambda>n. nt_folder n \<noteq> None \<and> (\<exists>f \<in> set fs. fo_id f = the (nt_folder n) \<and> \<not> keep f)) (\<lambda>n. n\<lparr>nt_folder := None\<rparr>) ns)"
  unfolding update_rows_def
proof (rule notes_ok_map [OF assms])
  let ?hit = "\<lambda>n. nt_folder n \<noteq> None \<and> (\<exists>f \<in> set fs. fo_id f = the (nt_folder n) \<and> \<not> keep f)"
  fix n assume n: "n \<in> set ns" "note_fits fs n"
  let ?n = "if ?hit n then n\<lparr>nt_folder := None\<rparr> else n"
  have same: "nt_root ?n = nt_root n" "nt_deleted ?n = nt_deleted n" "nt_id ?n = nt_id n" "nt_workspace ?n = nt_workspace n"
    by simp_all
  show "note_fits (filter keep fs) ?n"
  proof (rule note_fitsI)
    fix c assume "nt_folder ?n = Some c"
    then have c: "nt_folder n = Some c" "\<not> ?hit n" by (auto split: if_splits)
    from note_fitsD(3) [OF n(2) c(1)] c(2) show "\<exists>g \<in> set (filter keep fs). fo_id g = c \<and> nt_workspace ?n = Some (fo_workspace g) \<and>
          (nt_deleted ?n = None \<longrightarrow> fo_deleted g = None) \<and>
          (nt_deleted ?n \<noteq> None \<and> nt_root ?n \<noteq> Some (nt_id ?n) \<longrightarrow> fo_root g = nt_root ?n)"
      unfolding same using c(1) by (auto; metis)
  qed (use note_fitsD(1,2,4) [OF n(2)] in \<open>unfold same, auto\<close>)
qed simp

subsection \<open>Every operation preserves the invariant\<close>

text \<open>
  What the database guarantees a request: ids are fresh, \<^verbatim>\<open>ORDER BY name\<close> permutes the rows, and
  the workspace's live folders fit into the listing of at most 2,001 rows. And the request is not
  overlapped by another one: nothing is committed between its reads and its writes.
\<close>

definition env_ok :: "lib_env \<Rightarrow> ident \<Rightarrow> lib_state \<Rightarrow> bool" where
  "env_ok env ws st \<longleftrightarrow>
     (\<forall>fs. mset (lv_by_name env fs) = mset fs) \<and> lv_new_id env \<noteq> [] \<and>
     lv_new_id env \<notin> fo_id ` set (ls_folders st) \<union> nt_id ` set (ls_notes st) \<and>
     Some (lv_new_id env) \<notin> nt_root ` set (ls_notes st) \<and>
     count_rows (live_in ws) (ls_folders st) \<le> max_folders_per_workspace + 1 \<and>
     (\<forall>s. lv_meanwhile env s = s)"

lemma env_ok_alone: "env_ok env ws st \<Longrightarrow> lv_meanwhile env s = s"
  by (simp add: env_ok_def)

lemma list_folders_live: "env_ok env ws st \<Longrightarrow> lists_live ws (ls_folders st) (list_folders env ws st)"
proof -
  assume a: "env_ok env ws st"
  then have m: "mset (lv_by_name env (filter (live_in ws) (ls_folders st))) = mset (filter (live_in ws) (ls_folders st))"
    by (simp add: env_ok_def)
  then have "length (lv_by_name env (filter (live_in ws) (ls_folders st))) \<le> max_folders_per_workspace + 1"
    using a by (metis env_ok_def count_rows_def size_mset)
  with m show ?thesis by (simp add: lists_live_def list_folders_def mset_map)
qed

lemma take_live: "env_ok env ws st \<Longrightarrow>
  take (max_folders_per_workspace + 1) (filter (live_in ws) (ls_folders st)) = filter (live_in ws) (ls_folders st)"
  by (simp add: env_ok_def count_rows_def)

lemma write_folders_Inr: "write_folders fault fs = Inr rows \<Longrightarrow> rows = fs \<and> live_names_unique fs"
  by (auto simp: write_folders_def split: option.splits if_splits)

lemma add_audit_tables [simp]:
  "ls_folders (add_audit env ws actor action tt ti md st) = ls_folders st"
  "ls_notes (add_audit env ws actor action tt ti md st) = ls_notes st"
  "ls_queue (add_audit env ws actor action tt ti md st) = ls_queue st"
  by (simp_all add: add_audit_def)

lemma lib_ok_add_audit [simp]: "lib_ok (add_audit env ws actor action tt ti md st) = lib_ok st"
  by (simp add: lib_ok_def)

lemma create_folder_ok:
  assumes "lib_ok st" "env_ok env (se_workspace se) st"
  shows "lib_ok (snd (create_folder env se parent raw st))"
proof -
  let ?ws = "se_workspace se" and ?fs = "ls_folders st"
  note live = list_folders_live [OF assms(2)]
  have ok: "folders_ok ?fs" "notes_ok ?fs (ls_notes st)" using assms(1) by (simp_all add: lib_ok_def)
  have "lib_ok (st\<lparr>ls_folders := rows\<rparr>)"
    if p: "\<not> (truthy parent \<and> the parent \<notin> fn_id ` set (list_folders env ?ws st))"
      and w: "write_folders (lv_write_fault env) (?fs @ [\<lparr>fo_id = lv_new_id env, fo_workspace = ?ws, fo_parent = parent,
          fo_name = name, fo_creator = Some (se_user se), fo_deleted = None, fo_root = None\<rparr>]) = Inr rows" for rows name
  proof -
    let ?f = "\<lparr>fo_id = lv_new_id env, fo_workspace = ?ws, fo_parent = parent, fo_name = name,
       fo_creator = Some (se_user se), fo_deleted = None, fo_root = None\<rparr>"
    have r: "rows = ?fs @ [?f]" using write_folders_Inr [OF w] by simp
    have fk: "\<exists>g \<in> set ?fs. fo_id g = q \<and> live_in (fo_workspace ?f) g" if "fo_parent ?f = Some q" for q
    proof (cases "q = []")
      case False
      then have "q \<in> fn_id ` set (list_folders env ?ws st)" using p that by (simp add: truthy_def)
      then show ?thesis unfolding lists_live_ids [OF live] by auto
    next
      case True
      have "[] \<in> fo_id ` set (?fs @ [?f])"
        using w that True by (auto simp: write_folders_def split: option.splits if_splits)
      then have "[] \<in> fo_id ` set ?fs" using assms(2) by (auto simp: env_ok_def)
      then show ?thesis using folder_fits_simple(1) [OF ok(1)] by (metis imageE)
    qed
    have "folders_ok (?fs @ [?f])"
      by (rule folders_ok_append [OF ok(1) _ _ _ _ fk]) (use assms(2) in \<open>simp_all add: env_ok_def\<close>)
    moreover have "notes_ok (?fs @ [?f]) (ls_notes st)"
      by (rule notes_ok_append_folder [OF ok(2)]) (use assms(2) in \<open>simp_all add: env_ok_def\<close>)
    ultimately show ?thesis by (simp add: r lib_ok_def)
  qed
  then show ?thesis using assms(1) by (auto simp: create_folder_def Let_def env_ok_alone [OF assms(2)] split: sum.splits)
qed

lemma rename_folder_ok:
  assumes "lib_ok st"
  shows "lib_ok (snd (rename_folder env se fid raw st))"
proof -
  have "lib_ok (st\<lparr>ls_folders := rows\<rparr>)"
    if "write_folders fault (update_rows hit (\<lambda>f. f\<lparr>fo_name := name\<rparr>) (ls_folders st)) = Inr rows" for fault hit name rows
  proof -
    have "rows = update_rows hit (\<lambda>f. f\<lparr>fo_name := name\<rparr>) (ls_folders st)" using write_folders_Inr [OF that] by simp
    then show ?thesis
      using assms folders_ok_rename [of "ls_folders st" hit name]
        notes_ok_same_folders [of "ls_folders st" "ls_notes st" "\<lambda>f. if hit f then f\<lparr>fo_name := name\<rparr> else f"]
      by (simp add: lib_ok_def update_rows_def)
  qed
  then show ?thesis using assms by (auto simp: rename_folder_def Let_def split: sum.splits)
qed

lemma find_live_folder:
  assumes "lists_live ws fs ns" "find_row (\<lambda>f. fn_id f = fid) ns = Some nd"
  obtains f where "f \<in> set fs" "live_in ws f" "fo_id f = fid" "fid \<in> fn_id ` set ns" "fn_parent nd = fo_parent f"
proof -
  from find_row_SomeD [OF assms(2)] have n: "nd \<in> set ns" "fn_id nd = fid" by simp_all
  then obtain f where "f \<in> set fs" "live_in ws f" "nd = node_of f" by (auto simp: lists_live_set [OF assms(1)])
  moreover have "fid \<in> fn_id ` set ns" using n by (metis imageI)
  ultimately show thesis using that [of f] n by simp
qed

lemma move_folder_ok:
  assumes "lib_ok st" "env_ok env (se_workspace se) st"
  shows "lib_ok (snd (move_folder env se fid new_parent st))"
proof -
  let ?ws = "se_workspace se" and ?fs = "ls_folders st"
  let ?ns = "list_folders env ?ws st"
  let ?hit = "\<lambda>f. fo_id f = fid \<and> live_in ?ws f"
  note live = list_folders_live [OF assms(2)]
  have ok: "folders_ok ?fs" "notes_ok ?fs (ls_notes st)" using assms(1) by (simp_all add: lib_ok_def)
  have "lib_ok (st\<lparr>ls_folders := rows\<rparr>)"
    if h: "find_row (\<lambda>f. fn_id f = fid) ?ns = Some nd"
      and d: "\<not> (new_parent \<noteq> None \<and> the new_parent \<notin> fn_id ` set ?ns)"
      and s: "\<not> (new_parent \<noteq> None \<and> the new_parent \<in> set (subtree_ids ?ns fid))"
      and w: "write_folders (lv_write_fault env) (update_rows ?hit (\<lambda>f. f\<lparr>fo_parent := new_parent\<rparr>) ?fs) = Inr rows" for nd rows
  proof -
    have r: "rows = update_rows ?hit (\<lambda>f. f\<lparr>fo_parent := new_parent\<rparr>) ?fs" using write_folders_Inr [OF w] by simp
    from find_live_folder [OF live h] obtain f where f: "f \<in> set ?fs" "live_in ?ws f" "fo_id f = fid" "fid \<in> fn_id ` set ?ns" .
    have "(\<exists>g \<in> set ?fs. fo_id g = q \<and> live_in ?ws g) \<and> q \<notin> below (parent_map ?fs) (fo_id f)" if "new_parent = Some q" for q
      using d s that live_subtree [OF ok(1) live f(4), of q] unfolding lists_live_ids [OF live] f(3) by auto
    from folders_ok_reparent [OF ok(1) f(2,1) this] have "folders_ok rows" by (simp add: r f(3))
    moreover have "notes_ok rows (ls_notes st)"
      using notes_ok_same_folders [OF ok(2), of "\<lambda>f. if ?hit f then f\<lparr>fo_parent := new_parent\<rparr> else f"]
      by (simp add: r update_rows_def)
    ultimately show ?thesis by (simp add: lib_ok_def)
  qed
  then show ?thesis using assms(1) by (auto simp: move_folder_def Let_def env_ok_alone [OF assms(2)] split: option.splits sum.splits)
qed

lemma move_notes_ok:
  assumes "lib_ok st" "env_ok env (se_workspace se) st"
  shows "lib_ok (snd (move_notes env se ids folder st))"
proof -
  let ?hit = "\<lambda>xs n. nt_id n \<in> set xs \<and> nt_workspace n = Some (se_workspace se) \<and> nt_deleted n = None"
  have "lib_ok (st\<lparr>ls_notes := update_rows (?hit xs) (\<lambda>n. n\<lparr>nt_folder := folder\<rparr>) (ls_notes st)\<rparr>)"
    if "\<not> (folder \<noteq> None \<and> find_row (\<lambda>f. fo_id f = the folder \<and> live_in (se_workspace se) f) (ls_folders st) = None)" for xs
  proof -
    have "\<exists>g \<in> set (ls_folders st). fo_id g = c \<and> live_in (se_workspace se) g" if "folder = Some c" for c
      using \<open>\<not> _\<close> that by (auto dest!: find_row_SomeD)
    from notes_ok_place [of "ls_folders st" "ls_notes st" folder "se_workspace se" "?hit xs", OF _ this] assms show ?thesis by (auto simp: lib_ok_def)
  qed
  then show ?thesis using assms by (cases folder) (auto simp: move_notes_def Let_def env_ok_alone [OF assms(2)])
qed

lemma trash_note_ok:
  assumes "lib_ok st" "env_ok env (se_workspace se) st"
  shows "lib_ok (snd (trash_note env se nid st))"
proof -
  have "lib_ok (st\<lparr>ls_notes := update_rows (live_note (se_workspace se) nid)
      (\<lambda>n. n\<lparr>nt_deleted := Some (lv_now env), nt_root := Some nid\<rparr>) (ls_notes st)\<rparr>)"
    using assms notes_ok_trash_note by (simp add: lib_ok_def)
  then show ?thesis using assms by (simp add: trash_note_def Let_def env_ok_alone [OF assms(2)] split: option.splits)
qed

lemma lists_live_take:
  assumes "env_ok env ws st"
  shows "lists_live ws (ls_folders st)
    (map node_of (take (max_folders_per_workspace + 1) (filter (live_in ws) (ls_folders st))))"
  unfolding take_live [OF assms] by (simp add: lists_live_def)

lemma trash_folder_ok:
  assumes "lib_ok st" "env_ok env (se_workspace se) st"
  shows "lib_ok (snd (trash_folder env se fid st))"
proof -
  let ?ws = "se_workspace se" and ?fs = "ls_folders st" and ?ns = "ls_notes st"
  let ?live = "take (max_folders_per_workspace + 1) (filter (live_in ?ws) ?fs)"
  let ?tree = "subtree_ids (map node_of ?live) fid"
  have ok: "folders_ok ?fs" "notes_ok ?fs ?ns" using assms(1) by (simp_all add: lib_ok_def)
  have "lib_ok (st\<lparr>ls_folders := update_rows (\<lambda>f. fo_id f \<in> set ?tree \<and> live_in ?ws f)
        (\<lambda>f. f\<lparr>fo_deleted := Some (lv_now env), fo_root := Some fid\<rparr>) ?fs,
      ls_notes := update_rows (note_in ?ws ?tree) (\<lambda>n. n\<lparr>nt_deleted := Some (lv_now env), nt_root := Some fid\<rparr>) ?ns\<rparr>)"
    if "fid \<in> fo_id ` set ?live"
  proof -
    have "fid \<in> fn_id ` set (map node_of ?live)" using that by (auto simp: image_image)
    from live_tree_subtree [OF ok(1) lists_live_take [OF assms(2)] this]
    have t: "live_tree ?ws ?fs fid (set ?tree)" .
    show ?thesis using folders_ok_trash [OF ok(1) t] notes_ok_trash_folder [OF ok t] by (simp add: lib_ok_def)
  qed
  then show ?thesis using assms(1) by (auto simp: trash_folder_def Let_def env_ok_alone [OF assms(2)])
qed

lemma restore_note_ok:
  assumes "lib_ok st" "env_ok env (se_workspace se) st"
  shows "lib_ok (snd (restore_note env se nid st))"
proof (cases "find_row (trashed_note (se_workspace se) nid) (ls_notes st)")
  case (Some n)
  let ?live = "folder_is_live (se_workspace se) (nt_folder n) st"
  have n: "n \<in> set (ls_notes st)" "trashed_note (se_workspace se) nid n" using find_row_SomeD [OF Some] by simp_all
  have l: "?live = (truthy (nt_folder n) \<longrightarrow>
      (\<exists>g \<in> set (ls_folders st). Some (fo_id g) = nt_folder n \<and> live_in (se_workspace se) g))"
    by (auto simp: folder_is_live_def truthy_def find_row_None_iff)
  have ids: "f \<in> set (ls_folders st) \<Longrightarrow> fo_id f \<noteq> []" for f
    using assms folder_fits_simple(1) by (auto simp: lib_ok_def)
  from notes_ok_restore_note [OF _ n l ids] assms
  show ?thesis by (simp add: restore_note_def Some Let_def lib_ok_def env_ok_alone [OF assms(2)])
qed (simp add: restore_note_def assms)

lemma restore_folder_ok:
  assumes "lib_ok st" "env_ok env (se_workspace se) st"
  shows "lib_ok (snd (restore_folder env se fid st))"
proof -
  let ?ws = "se_workspace se" and ?fs = "ls_folders st"
  have ok: "folders_ok ?fs" "notes_ok ?fs (ls_notes st)" using assms by (simp_all add: lib_ok_def)
  have "lib_ok (st\<lparr>ls_folders := rows, ls_notes := restore_note_rows ?ws fid (ls_notes st)\<rparr>)"
    if h: "find_row (trashed_folder ?ws fid) ?fs = Some f"
      and w: "write_folders fault (restore_folder_rows ?ws fid
        (if folder_is_live ?ws (fo_parent f) st then fo_parent f else None) name ?fs) = Inr rows" for f fault name rows
  proof -
    let ?parent = "if folder_is_live ?ws (fo_parent f) st then fo_parent f else None"
    from find_row_SomeD [OF h] have f: "f \<in> set ?fs" "fo_id f = fid" "folder_root_in ?ws f"
      by (simp_all add: trashed_folder_def)
    have p: "?parent = None \<or> ?parent = fo_parent f \<and> (\<exists>g \<in> set ?fs. Some (fo_id g) = ?parent \<and> live_in ?ws g)"
    proof (cases "fo_parent f")
      case (Some q)
      from parent_exists [OF ok(1) f(1) Some] have "q \<noteq> []" using folder_fits_simple(1) [OF ok(1)] by metis
      then show ?thesis using Some by (auto simp: folder_is_live_def truthy_def find_row_None_iff)
    qed simp
    have "rows = restore_folder_rows ?ws fid ?parent name ?fs" using write_folders_Inr [OF w] by simp
    then show ?thesis
      using folders_ok_restore [OF ok(1) f p] notes_ok_restore_folder [OF ok f] by (simp add: lib_ok_def)
  qed
  then show ?thesis using assms by (auto simp: restore_folder_def Let_def env_ok_alone [OF assms(2)] split: option.splits sum.splits)
qed

lemma delete_meeting_ok: "lib_ok st \<Longrightarrow> lib_ok (delete_meeting now ws nid st)"
  by (auto simp: delete_meeting_def lib_ok_def delete_rows_def notes_ok_filter split: option.splits)

lemma delete_meetings_ok: "lib_ok st \<Longrightarrow> lib_ok (snd (delete_meetings env ws ids st))"
  by (induction env ws ids st rule: delete_meetings.induct) (auto intro: delete_meeting_ok)

lemma table_subtree:
  assumes "folders_ok fs" "x \<in> fo_id ` set fs"
  shows "set (subtree_ids (map node_of fs) x) = below (parent_map fs) x"
  using subtree_ids_below [OF folders_ok_sound [OF assms(1)], of x] assms(2)
  by (simp add: parent_map_def image_image)

lemma delete_folder_row_ok:
  assumes "lib_ok st"
  shows "lib_ok (delete_folder_row ws fid st)"
proof (cases "find_row (\<lambda>f. fo_id f = fid \<and> fo_workspace f = ws \<and> fo_deleted f \<noteq> None) (ls_folders st)")
  case None
  then show ?thesis using assms by (simp add: delete_folder_row_def)
next
  case (Some f)
  let ?fs = "ls_folders st" and ?gone = "subtree_ids (map node_of (ls_folders st)) fid"
  let ?keep = "\<lambda>f. fo_id f \<notin> set ?gone"
  have ok: "folders_ok ?fs" "notes_ok ?fs (ls_notes st)" using assms by (simp_all add: lib_ok_def)
  have fid: "fid \<in> fo_id ` set ?fs" using find_row_SomeD [OF Some] by auto
  have "folders_ok (filter ?keep ?fs)"
  proof (rule folders_ok_filter [OF ok(1)])
    fix f g assume fg: "f \<in> set ?fs" "g \<in> set ?fs" "fo_parent f = Some (fo_id g)" "?keep f"
    then have "parent_map ?fs (fo_id f) = Some (fo_id g)" using parent_map_row [OF ok(1)] by simp
    then show "?keep g"
      using fg(4) below_parent [of "parent_map ?fs" "fo_id f" "fo_id g" fid]
      unfolding table_subtree [OF ok(1) fid] by blast
  qed
  moreover have "update_rows (\<lambda>n. nt_folder n \<noteq> None \<and> (\<exists>f \<in> set ?fs. fo_id f = the (nt_folder n) \<and> \<not> ?keep f))
        (\<lambda>n. n\<lparr>nt_folder := None\<rparr>) (ls_notes st) =
      update_rows (\<lambda>n. nt_folder n \<noteq> None \<and> the (nt_folder n) \<in> set ?gone) (\<lambda>n. n\<lparr>nt_folder := None\<rparr>) (ls_notes st)"
    unfolding update_rows_def
  proof (rule map_cong [OF refl])
    fix n assume n: "n \<in> set (ls_notes st)"
    then have "note_fits ?fs n" using ok(2) by (simp add: notes_ok_def)
    then have "\<exists>g \<in> set ?fs. fo_id g = c" if "nt_folder n = Some c" for c
      using note_fitsD(3) [OF _ that] by blast
    then have "(nt_folder n \<noteq> None \<and> (\<exists>f \<in> set ?fs. fo_id f = the (nt_folder n) \<and> \<not> ?keep f)) =
        (nt_folder n \<noteq> None \<and> the (nt_folder n) \<in> set ?gone)"
      by (cases "nt_folder n") auto
    then show "(if nt_folder n \<noteq> None \<and> (\<exists>f \<in> set ?fs. fo_id f = the (nt_folder n) \<and> \<not> ?keep f)
         then n\<lparr>nt_folder := None\<rparr> else n) =
        (if nt_folder n \<noteq> None \<and> the (nt_folder n) \<in> set ?gone then n\<lparr>nt_folder := None\<rparr> else n)" by simp
  qed
  ultimately show ?thesis
    using notes_ok_filter_folders [OF ok(2), of ?keep] ok
    by (simp add: delete_folder_row_def Some Let_def lib_ok_def delete_rows_def)
qed

lemma purge_root_ok: "lib_ok st \<Longrightarrow> lib_ok (snd (purge_root env ws kind i st))"
  by (auto simp: purge_root_def case_prod_unfold Let_def split: trash_kind.splits
      intro!: delete_folder_row_ok intro: delete_meetings_ok delete_meeting_ok)

lemma delete_forever_ok: "lib_ok st \<Longrightarrow> lib_ok (snd (delete_forever env se kind i st))"
  using purge_root_ok [of st env "se_workspace se" kind i]
  by (auto simp: delete_forever_def split: option.splits prod.splits)

lemma purge_items_ok: "lib_ok st \<Longrightarrow> lib_ok (snd (purge_items env ws items st))"
proof (induction env ws items st rule: purge_items.induct)
  case (2 env ws item items st)
  then show ?case using purge_root_ok [OF 2(2), of env ws "ti_kind item" "ti_id item"]
    by (auto split: prod.splits option.splits)
qed simp

lemma empty_trash_ok: "lib_ok st \<Longrightarrow> lib_ok (snd (empty_trash env se st))"
  using purge_items_ok [of st env "se_workspace se" "list_trash (se_workspace se) (lv_now env) st"]
  by (auto simp: empty_trash_def Let_def split: prod.splits)

lemma purge_expired_items_ok: "lib_ok st \<Longrightarrow> lib_ok (snd (snd (purge_expired_items env items counts removed st)))"
proof (induction env items counts removed st rule: purge_expired_items.induct)
  case (2 env ws kind i items counts removed st)
  then show ?case using purge_root_ok [OF 2(3), of env ws kind i] by (auto split: prod.splits option.splits)
qed simp

lemma fold_lib_ok: "(\<And>x s. lib_ok (g x s) = lib_ok s) \<Longrightarrow> lib_ok (fold g xs st) = lib_ok st"
  by (induction xs arbitrary: st) auto

lemma purge_expired_trash_ok:
  assumes "lib_ok st"
  shows "lib_ok (snd (purge_expired_trash env force st))"
proof -
  have "lib_ok (st\<lparr>ls_last_purge := lv_now env\<rparr>)" using assms by (simp add: lib_ok_def)
  from purge_expired_items_ok [OF this] show ?thesis
    using assms by (simp add: purge_expired_trash_def Let_def case_prod_unfold fold_lib_ok)
qed

subsection \<open>Runs\<close>

datatype lib_op =
    Op_Create "ident option" string
  | Op_Rename ident string
  | Op_Move ident "ident option"
  | Op_Move_Notes "ident list" "ident option"
  | Op_Trash_Note ident
  | Op_Trash_Folder ident
  | Op_Restore trash_kind ident
  | Op_Delete_Forever trash_kind ident
  | Op_Empty_Trash
  | Op_Purge_Expired bool

fun lib_step :: "lib_env \<Rightarrow> lib_session \<Rightarrow> lib_op \<Rightarrow> lib_state \<Rightarrow> lib_state" where
  "lib_step env se (Op_Create parent raw) st = snd (create_folder env se parent raw st)"
| "lib_step env se (Op_Rename fid raw) st = snd (rename_folder env se fid raw st)"
| "lib_step env se (Op_Move fid parent) st = snd (move_folder env se fid parent st)"
| "lib_step env se (Op_Move_Notes ids folder) st = snd (move_notes env se ids folder st)"
| "lib_step env se (Op_Trash_Note nid) st = snd (trash_note env se nid st)"
| "lib_step env se (Op_Trash_Folder fid) st = snd (trash_folder env se fid st)"
| "lib_step env se (Op_Restore kind i) st = snd (restore_from_trash env se kind i st)"
| "lib_step env se (Op_Delete_Forever kind i) st = snd (delete_forever env se kind i st)"
| "lib_step env se Op_Empty_Trash st = snd (empty_trash env se st)"
| "lib_step env se (Op_Purge_Expired force) st = snd (purge_expired_trash env force st)"

inductive lib_run :: "lib_state \<Rightarrow> lib_state \<Rightarrow> bool" for start :: lib_state where
  lib_refl: "lib_run start start"
| lib_then: "lib_run start st \<Longrightarrow> env_ok env (se_workspace se) st \<Longrightarrow> lib_run start (lib_step env se op st)"

lemma lib_step_ok: "lib_ok st \<Longrightarrow> env_ok env (se_workspace se) st \<Longrightarrow> lib_ok (lib_step env se op st)"
  by (cases op)
    (simp_all add: create_folder_ok rename_folder_ok move_folder_ok move_notes_ok trash_note_ok trash_folder_ok
      restore_from_trash_def restore_note_ok restore_folder_ok delete_forever_ok empty_trash_ok purge_expired_trash_ok
      split: trash_kind.splits)

lemma lib_run_ok: "lib_run start st \<Longrightarrow> lib_ok start \<Longrightarrow> lib_ok st"
  by (induction rule: lib_run.induct) (auto intro: lib_step_ok)

end
