(* ===== verification/Library_Properties.thy ===== *)
theory Library_Properties
  imports Library_Invariant
begin

text \<open>
  The properties of the library: the invariant along every run, the depth limit, the round trip
  through Trash, what permanent deletion can and cannot remove, and a way past the depth limit.
\<close>

subsection \<open>Depth\<close>

definition live_nodes :: "ident \<Rightarrow> folder_row list \<Rightarrow> folder_node list" where
  "live_nodes ws fs = map node_of (filter (live_in ws) fs)"

definition depth_within :: "ident \<Rightarrow> folder_row list \<Rightarrow> bool" where
  "depth_within ws fs \<longleftrightarrow>
     list_all (\<lambda>f. folder_depth (live_nodes ws fs) (Some (fo_id f)) \<le> max_folder_depth) (filter (live_in ws) fs)"

lemma lists_live_nodes: "lists_live ws fs (live_nodes ws fs)"
  by (simp add: lists_live_def live_nodes_def)

definition chains_within :: "('a \<Rightarrow> 'a option) \<Rightarrow> nat \<Rightarrow> bool" where
  "chains_within p m \<longleftrightarrow> (\<forall>ys. chain p ys \<longrightarrow> length ys \<le> m)"

lemma depth_within_chains:
  assumes "folders_ok fs"
  shows "depth_within ws fs \<longleftrightarrow> chains_within (parent_of (live_nodes ws fs)) max_folder_depth"
proof -
  let ?ns = "live_nodes ws fs"
  have fo: "forest ?ns" by (rule live_forest [OF assms lists_live_nodes])
  have outside: "length ys \<le> max_folder_depth"
    if "chain (parent_of ?ns) ys" "ys = [] \<or> hd ys \<notin> fn_id ` set ?ns" for ys
  proof (cases ys)
    case (Cons y zs)
    then have "zs = []" using that parent_of_dom [of ?ns y] by (cases zs) auto
    with Cons show ?thesis by (simp add: max_folder_depth_def)
  qed simp
  have "depth_within ws fs \<longleftrightarrow> (\<forall>x \<in> fn_id ` set ?ns. folder_depth ?ns (Some x) \<le> max_folder_depth)"
    by (auto simp: depth_within_def live_nodes_def list_all_iff)
  also have "\<dots> \<longleftrightarrow> (\<forall>x \<in> fn_id ` set ?ns. \<forall>ys. chain (parent_of ?ns) (x # ys) \<longrightarrow> length (x # ys) \<le> max_folder_depth)"
    using folder_depth_le_iff [OF fo] by blast
  also have "\<dots> \<longleftrightarrow> chains_within (parent_of ?ns) max_folder_depth"
    unfolding chains_within_def using outside by (metis hd_Cons_tl list.sel(1))
  finally show ?thesis .
qed


lemma chains_within_mono:
  "chains_within p m \<Longrightarrow> (\<And>x y. q x = Some y \<Longrightarrow> p x = Some y) \<Longrightarrow> chains_within q m"
proof -
  assume a: "chains_within p m" "\<And>x y. q x = Some y \<Longrightarrow> p x = Some y"
  have "chain q ys \<Longrightarrow> chain p ys" for ys by (induction ys) (auto simp: chain_Cons a(2))
  with a(1) show ?thesis by (simp add: chains_within_def)
qed


lemma live_nodes_ids: "x \<in> fn_id ` set (live_nodes ws fs) \<longleftrightarrow> (\<exists>f \<in> set fs. live_in ws f \<and> fo_id f = x)"
  by (rule lists_live_ids [OF lists_live_nodes])

lemma live_parent_iff:
  assumes "folders_ok fs"
  shows "parent_of (live_nodes ws fs) x = Some y \<longleftrightarrow> (\<exists>f \<in> set fs. live_in ws f \<and> fo_id f = x \<and> fo_parent f = Some y)"
  unfolding live_parent_of [OF assms lists_live_nodes] parent_map_iff [OF assms] live_nodes_ids
  using folder_unique [OF assms] by metis


text \<open>Nothing becomes deeper when every live row is a live row of before with the same parent.\<close>

lemma depth_within_fewer:
  assumes "folders_ok fs" "folders_ok fs'" "depth_within ws fs"
    and "\<And>f'. f' \<in> set fs' \<Longrightarrow> live_in ws f' \<Longrightarrow>
      \<exists>f \<in> set fs. live_in ws f \<and> fo_id f = fo_id f' \<and> fo_parent f = fo_parent f'"
  shows "depth_within ws fs'"
proof -
  have "parent_of (live_nodes ws fs) x = Some y" if "parent_of (live_nodes ws fs') x = Some y" for x y
    using that assms(4) unfolding live_parent_iff [OF assms(1)] live_parent_iff [OF assms(2)] by metis
  with assms(3) show ?thesis
    unfolding depth_within_chains [OF assms(1)] depth_within_chains [OF assms(2)] by (rule chains_within_mono)
qed




subsection \<open>What a purge keeps\<close>

definition objects_queued :: "note_row \<Rightarrow> queued_deletion list \<Rightarrow> bool" where
  "objects_queued n q \<longleftrightarrow>
     list_all (\<lambda>(key, u). case safe_key key of None \<Rightarrow> True | Some k \<Rightarrow> k \<in> qd_key ` set q) (nt_objects n)"

definition purge_keeps :: "lib_state \<Rightarrow> lib_state \<Rightarrow> bool" where
  "purge_keeps st st' \<longleftrightarrow>
     set (ls_folders st') \<subseteq> set (ls_folders st) \<and>
     {f \<in> set (ls_folders st). fo_deleted f = None} \<subseteq> set (ls_folders st') \<and>
     {n \<in> set (ls_notes st). nt_deleted n = None} \<subseteq> set (ls_notes st') \<and>
     (\<forall>n' \<in> set (ls_notes st'). \<exists>n \<in> set (ls_notes st).
        nt_id n = nt_id n' \<and> nt_workspace n = nt_workspace n' \<and> nt_deleted n = nt_deleted n' \<and> nt_objects n = nt_objects n') \<and>
     (\<forall>n \<in> set (ls_notes st). nt_id n \<notin> nt_id ` set (ls_notes st') \<longrightarrow> objects_queued n (ls_queue st')) \<and>
     qd_key ` set (ls_queue st) \<subseteq> qd_key ` set (ls_queue st')"






lemma purge_keeps_audit [simp]: "purge_keeps st (add_audit env ws actor action tt ti md st') = purge_keeps st st'"
  by (simp add: purge_keeps_def)


















subsection \<open>The round trip through Trash\<close>

lemma live_folder_no_root:
  assumes "lib_ok st" "f0 \<in> set (ls_folders st)" "fo_deleted f0 = None"
  shows "f \<in> set (ls_folders st) \<Longrightarrow> fo_root f \<noteq> Some (fo_id f0)"
    and "n \<in> set (ls_notes st) \<Longrightarrow> nt_root n \<noteq> Some (fo_id f0)"
proof -
  let ?fs = "ls_folders st"
  have ok: "folders_ok ?fs" "notes_ok ?fs (ls_notes st)" using assms(1) by (simp_all add: lib_ok_def)
  have r0: "fo_root f0 = None" using folder_fits_simple(2) [OF ok(1) assms(2)] assms(3) by simp
  have "fo_root f \<noteq> Some (fo_id f0)" if "chain (parent_map ?fs) (fo_id f # xs)" "parent_map ?fs (last (fo_id f # xs)) = None"
    "f \<in> set ?fs" for f xs
    using that
  proof (induction xs arbitrary: f)
    case Nil
    then have "fo_parent f = None" using parent_map_row [OF ok(1)] by simp
    show ?case
    proof
      assume r: "fo_root f = Some (fo_id f0)"
      then have "fo_deleted f \<noteq> None" using folder_fits_simple(2) [OF ok(1) Nil(3)] by simp
      from folder_fits_simple(3) [OF ok(1) Nil(3) \<open>fo_parent f = None\<close> this] r have "fo_id f = fo_id f0" by simp
      from folder_unique [OF ok(1) Nil(3) assms(2) this] r r0 show False by simp
    qed
  next
    case (Cons y ys)
    then have p: "fo_parent f = Some y" "chain (parent_map ?fs) (y # ys)" using parent_map_row [OF ok(1)] by auto
    show ?case
    proof
      assume r: "fo_root f = Some (fo_id f0)"
      then have "fo_deleted f \<noteq> None" using folder_fits_simple(2) [OF ok(1) Cons(4)] by simp
      moreover have "fo_id f \<noteq> fo_id f0" using folder_unique [OF ok(1) Cons(4) assms(2)] r r0 by fastforce
      ultimately have d: "fo_deleted f \<noteq> None" "fo_root f \<noteq> Some (fo_id f)" using r by simp_all
      from parent_exists [OF ok(1) Cons(4) p(1)] d r obtain g where g: "g \<in> set ?fs" "fo_id g = y" "fo_root g = Some (fo_id f0)" by metis
      with Cons.IH [of g] p(2) Cons.prems(2) show False by simp
    qed
  qed
  moreover have "\<exists>xs. chain (parent_map ?fs) (fo_id f # xs) \<and> parent_map ?fs (last (fo_id f # xs)) = None"
    if "f \<in> set ?fs" for f
  proof -
    have "forest (map node_of ?fs)" using folders_ok_sound [OF ok(1)] folders_okD(2) [OF ok(1)]
      by (simp add: forest_def parent_map_def)
    moreover have "fo_id f \<in> fn_id ` set (map node_of ?fs)" using that by (auto simp: image_image)
    ultimately show ?thesis unfolding parent_map_def by (rule folder_path_chain) blast
  qed
  ultimately show "f \<in> set ?fs \<Longrightarrow> fo_root f \<noteq> Some (fo_id f0)" by blast
  show "nt_root n \<noteq> Some (fo_id f0)" if "n \<in> set (ls_notes st)"
  proof
    assume r: "nt_root n = Some (fo_id f0)"
    have "note_fits ?fs n" using ok(2) that by (simp add: notes_ok_def)
    from note_fitsD(4) [OF this assms(2) r] r0 show False by simp
  qed
qed

lemma write_folders_ok:
  assumes "folders_ok fs" "live_names_unique fs"
  shows "write_folders None fs = Inr fs"
proof -
  have "the (fo_parent f) \<in> fo_id ` set fs" if "f \<in> set fs" "fo_parent f \<noteq> None" for f
    using that parent_exists [OF assms(1) that(1)] by (metis imageI option.collapse)
  then have "\<not> list_ex (\<lambda>f. fo_parent f \<noteq> None \<and> the (fo_parent f) \<notin> fo_id ` set fs) fs"
    unfolding list_ex_iff by blast
  with assms(2) show ?thesis unfolding write_folders_def by (simp only: if_False simp_thms option.case)
qed

lemma trash_folder_OkD:
  assumes "trash_folder env se fid st = (Lib_Ok c, st1)" "lib_ok st" "env_ok env (se_workspace se) st"
  obtains tree where "live_tree (se_workspace se) (ls_folders st) fid (set tree)"
    "ls_folders st1 = update_rows (\<lambda>f. fo_id f \<in> set tree \<and> live_in (se_workspace se) f)
       (\<lambda>f. f\<lparr>fo_deleted := Some (lv_now env), fo_root := Some fid\<rparr>) (ls_folders st)"
    "ls_notes st1 = update_rows (note_in (se_workspace se) tree)
       (\<lambda>n. n\<lparr>nt_deleted := Some (lv_now env), nt_root := Some fid\<rparr>) (ls_notes st)"
    "se_owner se \<or> (\<forall>f \<in> set (ls_folders st). fo_id f \<in> set tree \<longrightarrow> fo_creator f = Some (se_user se)) \<and>
       (\<forall>n \<in> set (ls_notes st). note_in (se_workspace se) tree n \<longrightarrow> nt_author n = se_user se)"
proof -
  let ?ws = "se_workspace se" and ?fs = "ls_folders st"
  let ?live = "filter (live_in ?ws) ?fs"
  let ?tree = "subtree_ids (map node_of ?live) fid"
  have ok: "folders_ok ?fs" using assms(2) by (simp add: lib_ok_def)
  note t = take_live [OF assms(3)]
  have fid: "fid \<in> fo_id ` set ?live"
    using assms(1) unfolding trash_folder_def Let_def t by (simp del: set_filter split: if_splits)
  have auth: "se_owner se \<or> \<not> (list_ex (\<lambda>f. fo_id f \<in> set ?tree \<and> fo_creator f \<noteq> Some (se_user se)) ?live \<or>
      list_ex (\<lambda>n. nt_author n \<noteq> se_user se) (filter (note_in ?ws ?tree) (ls_notes st)))"
    using assms(1) fid unfolding trash_folder_def Let_def t by (simp del: set_filter split: if_splits)
  have "fid \<in> fn_id ` set (map node_of ?live)" using fid by (auto simp: image_image)
  from live_tree_subtree [OF ok _ this, of ?ws] have tree: "live_tree ?ws ?fs fid (set ?tree)"
    by (simp add: lists_live_def)
  have st1: "st1 = snd (trash_folder env se fid st)" using assms(1) by simp
  show thesis
  proof (rule that [OF tree])
    show "ls_folders st1 = update_rows (\<lambda>f. fo_id f \<in> set ?tree \<and> live_in ?ws f)
       (\<lambda>f. f\<lparr>fo_deleted := Some (lv_now env), fo_root := Some fid\<rparr>) ?fs"
      and "ls_notes st1 = update_rows (note_in ?ws ?tree)
       (\<lambda>n. n\<lparr>nt_deleted := Some (lv_now env), nt_root := Some fid\<rparr>) (ls_notes st)"
      using fid auth unfolding st1 trash_folder_def Let_def t env_ok_alone [OF assms(3)] by auto
    show "se_owner se \<or> (\<forall>f \<in> set ?fs. fo_id f \<in> set ?tree \<longrightarrow> fo_creator f = Some (se_user se)) \<and>
       (\<forall>n \<in> set (ls_notes st). note_in ?ws ?tree n \<longrightarrow> nt_author n = se_user se)"
      using auth live_tree_live [OF tree ok] unfolding list_ex_iff set_filter by blast
  qed
qed

lemma restore_undoes_trash:
  assumes "lib_ok st" "live_names_unique (ls_folders st)"
    and tree: "live_tree ws (ls_folders st) fid (set tree)"
    and st1: "ls_folders st1 = update_rows (\<lambda>f. fo_id f \<in> set tree \<and> live_in ws f)
        (\<lambda>f. f\<lparr>fo_deleted := Some t, fo_root := Some fid\<rparr>) (ls_folders st)"
      "ls_notes st1 = update_rows (note_in ws tree) (\<lambda>n. n\<lparr>nt_deleted := Some t, nt_root := Some fid\<rparr>) (ls_notes st)"
    and env: "lv_write_fault env = None" "\<And>s. lv_meanwhile env s = s" and se: "se_workspace se = ws"
  shows "\<exists>st2. restore_folder env se fid st1 = (Lib_Ok (), st2) \<and>
    ls_folders st2 = ls_folders st \<and> ls_notes st2 = ls_notes st"
proof -
  let ?fs = "ls_folders st" and ?fs1 = "ls_folders st1"
  let ?u = "\<lambda>f. if fo_id f \<in> set tree \<and> live_in ws f then f\<lparr>fo_deleted := Some t, fo_root := Some fid\<rparr> else f"
  have ok: "folders_ok ?fs" "notes_ok ?fs (ls_notes st)" using assms(1) by (simp_all add: lib_ok_def)
  have fs1: "?fs1 = map ?u ?fs" by (simp add: st1 update_rows_def)
  from tree obtain f0 where f0: "f0 \<in> set ?fs" "fo_id f0 = fid" "live_in ws f0" by (auto simp: live_tree_def)
  have in_tree: "fid \<in> set tree" using tree f0 by (auto simp: live_tree_def)
  note no_root = live_folder_no_root [OF assms(1) f0(1)]
  have f0_live: "fo_deleted f0 = None" "fo_workspace f0 = ws" using f0(3) by (simp_all add: live_in_def)
  have u0: "?u f0 = f0\<lparr>fo_deleted := Some t, fo_root := Some fid\<rparr>" using f0 in_tree by simp
  have only: "f = f0" if "f \<in> set ?fs" "fo_id f = fid" for f
    using folder_unique [OF ok(1) that(1) f0(1)] that(2) f0(2) by simp
  have found: "find_row (trashed_folder ws fid) ?fs1 = Some (?u f0)"
  proof -
    have "trashed_folder ws fid (?u f0)" unfolding u0 by (simp add: trashed_folder_def folder_root_in_def f0_live f0(2))
    moreover have "?u f0 \<in> set ?fs1" using f0(1) by (auto simp: fs1)
    ultimately have "find_row (trashed_folder ws fid) ?fs1 \<noteq> None" unfolding find_row_None_iff by blast
    then obtain g where g: "find_row (trashed_folder ws fid) ?fs1 = Some g" by blast
    from find_row_SomeD [OF g] obtain f where "f \<in> set ?fs" "g = ?u f" "fo_id g = fid"
      by (auto simp: fs1 trashed_folder_def)
    moreover have "fo_id (?u f) = fo_id f" by simp
    ultimately have "g = ?u f0" using only by simp
    with g show ?thesis by simp
  qed
  have live_parent: "folder_is_live ws (fo_parent f0) st1"
  proof (cases "fo_parent f0")
    case (Some p)
    from live_parent [OF ok(1) f0(1,3) Some] obtain g where g: "g \<in> set ?fs" "fo_id g = p" "live_in ws g" .
    have "parent_map ?fs fid = Some p" using parent_map_row [OF ok(1) f0(1)] f0(2) Some by simp
    then have "p \<notin> below (parent_map ?fs) fid"
      using child_not_above [OF folders_okD(2) [OF ok(1)], of p fid] no_cycle_distinct [OF folders_okD(2) [OF ok(1)]]
      by (metis below_def below_parent below_self folders_okD(2) mem_Collect_eq edges_antisym child_not_above ok(1))
    then have "p \<notin> set tree" using tree by (auto simp: live_tree_def)
    then have "g \<in> set ?fs1" using g by (force simp: fs1)
    with g show ?thesis using Some by (auto simp: folder_is_live_def find_row_None_iff)
  qed (simp add: folder_is_live_def truthy_def)
  have name: "free_folder_name env ws (fo_parent f0) (fo_name f0) st1 = fo_name f0"
  proof -
    have clash: "to_lower (fo_name h) \<noteq> to_lower (fo_name f0)"
      if h: "h \<in> set ?fs1" "live_in ws h" "fo_parent h = fo_parent f0" for h
    proof
      assume n: "to_lower (fo_name h) = to_lower (fo_name f0)"
      from h(1) obtain f where f: "f \<in> set ?fs" "h = ?u f" by (auto simp: fs1)
      with h(2) have f': "h = f" "\<not> (fo_id f \<in> set tree \<and> live_in ws f)" by (auto simp: live_in_def split: if_splits)
      have "live_key f = live_key f0" using n h(2,3) f'(1) f0_live by (simp add: live_key_def live_in_def)
      moreover have "f \<in> set (filter live_row ?fs)" "f0 \<in> set (filter live_row ?fs)"
        using f(1) h(2) f'(1) f0 by (simp_all add: live_row_def live_in_def)
      ultimately have "f = f0" using unique_onD [OF assms(2) [unfolded live_names_unique_def]] by blast
      with f'(2) f0 in_tree show False by simp
    qed
    have "to_lower (fo_name f0) \<notin>
        set (map (\<lambda>f. to_lower (fo_name f)) (filter (\<lambda>f. live_in ws f \<and> fo_parent f = fo_parent f0) ?fs1))"
    proof
      assume "to_lower (fo_name f0) \<in>
        set (map (\<lambda>f. to_lower (fo_name f)) (filter (\<lambda>f. live_in ws f \<and> fo_parent f = fo_parent f0) ?fs1))"
      then obtain h where "h \<in> set ?fs1" "live_in ws h" "fo_parent h = fo_parent f0" "to_lower (fo_name f0) = to_lower (fo_name h)"
        unfolding set_map set_filter by blast
      with clash [of h] show False by simp
    qed
    then show ?thesis by (simp only: free_folder_name_def Let_def if_True simp_thms)
  qed
  have rows: "restore_folder_rows ws fid (fo_parent f0) (fo_name f0) ?fs1 = ?fs"
  proof -
    let ?r = "\<lambda>f. if fo_id f = fid \<and> fo_workspace f = ws
       then f\<lparr>fo_deleted := None, fo_root := None, fo_parent := fo_parent f0, fo_name := fo_name f0\<rparr>
       else if fo_workspace f = ws \<and> fo_root f = Some fid \<and> fo_deleted f \<noteq> None
       then f\<lparr>fo_deleted := None, fo_root := None\<rparr> else f"
    have "?r (?u f) = f" if f: "f \<in> set ?fs" for f
    proof (cases "fo_id f \<in> set tree \<and> live_in ws f")
      case True
      then have l: "fo_deleted f = None" "fo_workspace f = ws" "fo_root f = None"
        using folder_fits_simple(2) [OF ok(1) f] by (auto simp: live_in_def)
      have "?u f = f\<lparr>fo_deleted := Some t, fo_root := Some fid\<rparr>" using True by simp
      then show ?thesis using l only [OF f] by (cases f) auto
    next
      case False
      then have "?u f = f" "fo_id f \<noteq> fid" using only [OF f] in_tree f0 by auto
      then show ?thesis using no_root(1) [OF f0_live(1) f] f0(2) by simp
    qed
    then show ?thesis unfolding restore_rows_eq fs1 map_map comp_def by (simp add: map_idI)
  qed
  have noted: "restore_note_rows ws fid (ls_notes st1) = ls_notes st"
  proof -
    let ?v = "\<lambda>n. if note_in ws tree n then n\<lparr>nt_deleted := Some t, nt_root := Some fid\<rparr> else n"
    let ?w = "\<lambda>n. if nt_workspace n = Some ws \<and> nt_root n = Some fid \<and> nt_deleted n \<noteq> None
       then n\<lparr>nt_deleted := None, nt_root := None\<rparr> else n"
    have "?w (?v n) = n" if n: "n \<in> set (ls_notes st)" for n
    proof (cases "note_in ws tree n")
      case True
      have "note_fits ?fs n" using ok(2) n by (simp add: notes_ok_def)
      from note_fitsD(1) [OF this] True have "nt_deleted n = None" "nt_root n = None" "nt_workspace n = Some ws"
        by (auto simp: note_in_def)
      with True show ?thesis by (cases n) auto
    next
      case False
      then show ?thesis using no_root(2) [OF f0_live(1) n] f0(2) by simp
    qed
    then show ?thesis unfolding restore_note_rows_def st1(2) update_rows_def map_map comp_def by (simp add: map_idI)
  qed
  have p: "fo_parent (?u f0) = fo_parent f0" "fo_name (?u f0) = fo_name f0" by simp_all
  show ?thesis
    unfolding restore_folder_def se Let_def found option.case p env
    by (simp only: live_parent if_True name rows write_folders_ok [OF ok(1) assms(2)] sum.case noted) simp
qed

subsection \<open>A sample library\<close>

definition sample_env :: "ident \<Rightarrow> lib_env" where
  "sample_env new_id = \<lparr>lv_now = 1000, lv_new_id = new_id, lv_by_name = (\<lambda>fs. fs), lv_meanwhile = (\<lambda>st. st), lv_write_fault = None,
     lv_purge_fault = (\<lambda>i. False), lv_audit_ok = False, lv_audit_id = ''a''\<rparr>"

definition owner :: lib_session where
  "owner = \<lparr>se_workspace = ''w'', se_user = ''olga'', se_owner = True\<rparr>"

definition member :: lib_session where
  "member = \<lparr>se_workspace = ''w'', se_user = ''mia'', se_owner = False\<rparr>"

definition sample_note :: note_row where
  "sample_note = \<lparr>nt_id = ''n1'', nt_workspace = Some ''w'', nt_author = ''olga'', nt_folder = None, nt_title = ''Notes'',
     nt_deleted = None, nt_root = None, nt_objects = [(''rec'', None)]\<rparr>"

definition empty_library :: "note_row list \<Rightarrow> lib_state" where
  "empty_library notes = \<lparr>ls_folders = [], ls_notes = notes, ls_queue = [], ls_audit = [], ls_last_purge = 0\<rparr>"

lemma empty_library_ok: "lib_ok (empty_library [])" "lib_ok (empty_library [sample_note])"
proof -
  have "no_cycle (parent_map [])"
    by (rule no_cycle_rank [of _ "\<lambda>x. 0"]) (simp add: parent_map_def parent_of_def by_id_def)
  then show "lib_ok (empty_library [])" "lib_ok (empty_library [sample_note])"
    by (simp_all add: lib_ok_def empty_library_def folders_ok_def notes_ok_def note_fits_def sample_note_def)
qed

text \<open>A run of requests, each with its session and the id a creation would use.\<close>

definition run_ops :: "(ident \<times> lib_session \<times> lib_op) list \<Rightarrow> lib_state \<Rightarrow> lib_state" where
  "run_ops ops st = fold (\<lambda>(new_id, se, op). lib_step (sample_env new_id) se op) ops st"

definition run_fresh :: "(ident \<times> lib_session \<times> lib_op) \<Rightarrow> lib_state \<Rightarrow> bool" where
  "run_fresh o' st = (case o' of (new_id, se, op) \<Rightarrow>
     new_id \<noteq> [] \<and> new_id \<notin> fo_id ` set (ls_folders st) \<union> nt_id ` set (ls_notes st) \<and>
     Some new_id \<notin> nt_root ` set (ls_notes st) \<and>
     count_rows (live_in (se_workspace se)) (ls_folders st) \<le> max_folders_per_workspace + 1)"

fun all_fresh :: "(ident \<times> lib_session \<times> lib_op) list \<Rightarrow> lib_state \<Rightarrow> bool" where
  "all_fresh [] st = True"
| "all_fresh (o' # ops) st = (run_fresh o' st \<and> all_fresh ops (run_ops [o'] st))"

lemma run_ops_run: "all_fresh ops st \<Longrightarrow> lib_run start st \<Longrightarrow> lib_run start (run_ops ops st)"
proof (induction ops arbitrary: st)
  case (Cons o' ops)
  obtain new_id se op where o': "o' = (new_id, se, op)" by (cases o')
  have "env_ok (sample_env new_id) (se_workspace se) st"
    using Cons.prems(1) by (simp add: o' run_fresh_def env_ok_def sample_env_def)
  then have "lib_run start (run_ops [o'] st)" using Cons.prems(2) by (simp add: o' run_ops_def lib_then)
  with Cons show ?case by (simp add: run_ops_def)
qed (simp add: run_ops_def)

definition sample_ops :: "(ident \<times> lib_session \<times> lib_op) list" where
  "sample_ops = [(''f1'', owner, Op_Create None ''Clients''), (''f2'', owner, Op_Create (Some ''f1'') ''Acme''),
     (''x'', owner, Op_Move_Notes [''n1''] (Some ''f2''))]"

definition sample_library :: lib_state where
  "sample_library = run_ops sample_ops (empty_library [sample_note])"

lemma sample_library_run: "lib_run (empty_library [sample_note]) sample_library"
  unfolding sample_library_def by (rule run_ops_run [OF _ lib_refl]) code_simp

lemma sample_library_ok: "lib_ok sample_library"
  by (rule lib_run_ok [OF sample_library_run empty_library_ok(2)])

lemma sample_env_ok: "run_fresh (new_id, se, op) st \<Longrightarrow> env_ok (sample_env new_id) (se_workspace se) st"
  by (simp add: run_fresh_def env_ok_def sample_env_def)

subsection \<open>Properties\<close>





text \<open>
  C4 Restoring undoes trashing. When a folder was moved to Trash, restoring it next brings back exactly
  the folders and notes that left with it, with their names, parents and places: both tables are
  what they were before, and nothing trashed separately comes back with it.
\<close>

theorem trash_restore_round_trip:
  assumes "lib_ok st" "env_ok env (se_workspace se) st" "live_names_unique (ls_folders st)"
    and "trash_folder env se fid st = (Lib_Ok c, st1)"
    and "lv_write_fault env' = None" "\<And>s. lv_meanwhile env' s = s" "se_workspace se' = se_workspace se"
  shows "\<exists>st2. restore_from_trash env' se' Kind_Folder fid st1 = (Lib_Ok (), st2) \<and>
    ls_folders st2 = ls_folders st \<and> ls_notes st2 = ls_notes st"
proof -
  from trash_folder_OkD [OF assms(4,1,2)] obtain tree where t:
    "live_tree (se_workspace se) (ls_folders st) fid (set tree)"
    "ls_folders st1 = update_rows (\<lambda>f. fo_id f \<in> set tree \<and> live_in (se_workspace se) f)
       (\<lambda>f. f\<lparr>fo_deleted := Some (lv_now env), fo_root := Some fid\<rparr>) (ls_folders st)"
    "ls_notes st1 = update_rows (note_in (se_workspace se) tree)
       (\<lambda>n. n\<lparr>nt_deleted := Some (lv_now env), nt_root := Some fid\<rparr>) (ls_notes st)" .
  from restore_undoes_trash [OF assms(1,3) t assms(5,6,7)] show ?thesis by (simp add: restore_from_trash_def)
qed

theorem trash_restore_round_trip_witness:
  "ls_folders (snd (restore_from_trash (sample_env ''x'') member Kind_Folder ''f1''
      (snd (trash_folder (sample_env ''f3'') owner ''f1'' sample_library)))) = ls_folders sample_library"
proof -
  have "env_ok (sample_env ''f3'') (se_workspace owner) sample_library"
    by (rule sample_env_ok [of _ _ Op_Empty_Trash]) code_simp
  moreover have "live_names_unique (ls_folders sample_library)" by code_simp
  moreover have "fst (trash_folder (sample_env ''f3'') owner ''f1'' sample_library) = Lib_Ok (2, 1)" by code_simp
  then have "trash_folder (sample_env ''f3'') owner ''f1'' sample_library =
      (Lib_Ok (2, 1), snd (trash_folder (sample_env ''f3'') owner ''f1'' sample_library))" by (simp add: prod_eq_iff)
  moreover have "lv_write_fault (sample_env ''x'') = None" "\<And>s. lv_meanwhile (sample_env ''x'') s = s"
    "se_workspace member = se_workspace owner"
    by (simp_all add: sample_env_def member_def owner_def)
  ultimately show ?thesis using trash_restore_round_trip [OF sample_library_ok] by (metis snd_conv)
qed



text \<open>
  A member trashes only their own items. When a member who is not an owner moves a folder to
  Trash, every folder of the subtree was created by them and every note in it written by them.
\<close>

theorem member_trashes_own_items:
  assumes "lib_ok st" "env_ok env (se_workspace se) st" "\<not> se_owner se"
    and "trash_folder env se fid st = (Lib_Ok c, st1)"
  shows "(\<forall>f \<in> set (ls_folders st). f \<notin> set (ls_folders st1) \<longrightarrow> fo_creator f = Some (se_user se)) \<and>
    (\<forall>n \<in> set (ls_notes st). n \<notin> set (ls_notes st1) \<longrightarrow> nt_author n = se_user se)"
proof -
  from trash_folder_OkD [OF assms(4,1,2)] obtain tree where
    "live_tree (se_workspace se) (ls_folders st) fid (set tree)" and t:
    "ls_folders st1 = update_rows (\<lambda>f. fo_id f \<in> set tree \<and> live_in (se_workspace se) f)
       (\<lambda>f. f\<lparr>fo_deleted := Some (lv_now env), fo_root := Some fid\<rparr>) (ls_folders st)"
    "ls_notes st1 = update_rows (note_in (se_workspace se) tree)
       (\<lambda>n. n\<lparr>nt_deleted := Some (lv_now env), nt_root := Some fid\<rparr>) (ls_notes st)"
    "se_owner se \<or> (\<forall>f \<in> set (ls_folders st). fo_id f \<in> set tree \<longrightarrow> fo_creator f = Some (se_user se)) \<and>
       (\<forall>n \<in> set (ls_notes st). note_in (se_workspace se) tree n \<longrightarrow> nt_author n = se_user se)" .
  have "f \<in> set (ls_folders st1)" if "f \<in> set (ls_folders st)" "fo_id f \<notin> set tree" for f
    using that unfolding t(1) set_update_rows by (intro image_eqI [of _ _ f]) simp_all
  moreover have "n \<in> set (ls_notes st1)" if "n \<in> set (ls_notes st)" "\<not> note_in (se_workspace se) tree n" for n
    using that unfolding t(2) set_update_rows by (intro image_eqI [of _ _ n]) simp_all
  ultimately show ?thesis using t(3) assms(3) by blast
qed

definition member_library :: lib_state where
  "member_library = run_ops [(''g1'', member, Op_Create None ''Mine'')] (empty_library [sample_note])"

theorem member_trashes_own_items_witness:
  "fo_creator (hd (ls_folders member_library)) = Some (se_user member)"
proof -
  have "lib_run (empty_library [sample_note]) member_library"
    unfolding member_library_def by (rule run_ops_run [OF _ lib_refl]) code_simp
  then have ok: "lib_ok member_library" by (rule lib_run_ok [OF _ empty_library_ok(2)])
  have env: "env_ok (sample_env ''g2'') (se_workspace member) member_library"
    by (rule sample_env_ok [of _ _ Op_Empty_Trash]) code_simp
  have m: "\<not> se_owner member" by (simp add: member_def)
  have "fst (trash_folder (sample_env ''g2'') member ''g1'' member_library) = Lib_Ok (1, 0)" by code_simp
  then have t: "trash_folder (sample_env ''g2'') member ''g1'' member_library =
      (Lib_Ok (1, 0), snd (trash_folder (sample_env ''g2'') member ''g1'' member_library))" by (simp add: prod_eq_iff)
  have "hd (ls_folders member_library) \<notin> set (ls_folders (snd (trash_folder (sample_env ''g2'') member ''g1'' member_library)))"
    by code_simp
  moreover have "hd (ls_folders member_library) \<in> set (ls_folders member_library)" by code_simp
  ultimately show ?thesis using member_trashes_own_items [OF ok env m t] by blast
qed

subsection \<open>The depth limit and the Trash\<close>

definition nest :: "nat \<Rightarrow> (ident \<times> lib_session \<times> lib_op) list" where
  "nest n = map (\<lambda>i. (digits_of i, owner, Op_Create (if i = 1 then None else Some (digits_of (i - 1))) (digits_of i))) [1..<Suc n]"

text \<open>
  Restoring does not respect the depth limit. A folder goes to Trash, its parent is then moved
  to a place where the whole would not have fitted, which the move allows because it only counts
  live folders, and the folder is restored under its parent: the library has a folder on the ninth
  level although creating and moving refuse more than eight.
\<close>

theorem restore_exceeds_depth:
  "let st = run_ops (nest 7 @ [(''p'', owner, Op_Create None ''p''), (''q'', owner, Op_Create (Some ''p'') ''q''),
        (''x'', owner, Op_Trash_Folder ''q''), (''x'', owner, Op_Move ''p'' (Some ''7''))]) (empty_library []);
       (result, st') = restore_from_trash (sample_env ''x'') owner Kind_Folder ''q'' st
   in depth_within ''w'' (ls_folders st) \<and> result = Lib_Ok () \<and>
      folder_depth (live_nodes ''w'' (ls_folders st')) (Some ''q'') = 9 \<and> \<not> depth_within ''w'' (ls_folders st')"
  by code_simp

end
