(* ===== verification/Library_Faults.thy ===== *)
theory Library_Faults
  imports Library_Properties
begin

text \<open>
  Two behaviours of \<^verbatim>\<open>webapp/src/lib/library.ts\<close> that its comments and checks do not intend: a
  member's permanent deletion takes what somebody else trashed separately, and two moves that
  overlap close a cycle.
\<close>

subsection \<open>Deleting forever what belongs to others\<close>

lemma delete_meeting_folders [simp]: "ls_folders (delete_meeting now ws nid st) = ls_folders st"
  by (simp add: delete_meeting_def split: option.split)

lemma delete_meetings_all:
  "(\<And>i. \<not> lv_purge_fault env i) \<Longrightarrow> fst (delete_meetings env ws ids st) \<and>
     ls_folders (snd (delete_meetings env ws ids st)) = ls_folders st"
  by (induction ids arbitrary: st) auto

lemma delete_meetings_other:
  "n \<in> set (ls_notes st) \<Longrightarrow> nt_id n \<notin> set ids \<Longrightarrow> n \<in> set (ls_notes (snd (delete_meetings env ws ids st)))"
proof (induction ids arbitrary: st)
  case (Cons i ids)
  have "n \<in> set (ls_notes (delete_meeting (lv_now env) ws i st))"
    using Cons.prems by (auto simp: delete_meeting_def split: option.split)
  with Cons show ?case by simp
qed simp

lemma delete_folder_row_cascades:
  assumes "lib_ok st" "g \<in> set (ls_folders st)" "fo_parent g = Some i"
    and "find_row (\<lambda>f. fo_id f = i \<and> fo_workspace f = ws \<and> fo_deleted f \<noteq> None) (ls_folders st) \<noteq> None"
  shows "fo_id g \<notin> fo_id ` set (ls_folders (delete_folder_row ws i st))"
    and "n \<in> set (ls_notes st) \<Longrightarrow> nt_folder n = Some (fo_id g) \<Longrightarrow>
      n\<lparr>nt_folder := None\<rparr> \<in> set (ls_notes (delete_folder_row ws i st))"
proof -
  let ?gone = "subtree_ids (map node_of (ls_folders st)) i"
  have ok: "folders_ok (ls_folders st)" using assms(1) by (simp add: lib_ok_def)
  from assms(4) obtain f where "find_row (\<lambda>f. fo_id f = i \<and> fo_workspace f = ws \<and> fo_deleted f \<noteq> None) (ls_folders st) = Some f"
    by blast
  from find_row_SomeD [OF this] have "i \<in> fo_id ` set (ls_folders st)" by auto
  moreover have "fo_id g \<in> below (parent_map (ls_folders st)) i"
    using parent_map_row [OF ok assms(2)] assms(3) by (auto intro: below_parent [OF _ below_self])
  ultimately have g: "fo_id g \<in> set ?gone" using table_subtree [OF ok] by blast
  then show "fo_id g \<notin> fo_id ` set (ls_folders (delete_folder_row ws i st))"
    using assms(4) by (auto simp: delete_folder_row_def Let_def)
  show "n\<lparr>nt_folder := None\<rparr> \<in> set (ls_notes (delete_folder_row ws i st))"
    if "n \<in> set (ls_notes st)" "nt_folder n = Some (fo_id g)"
  proof -
    have "n\<lparr>nt_folder := None\<rparr> = (if nt_folder n \<noteq> None \<and> the (nt_folder n) \<in> set ?gone then n\<lparr>nt_folder := None\<rparr> else n)"
      using that g by simp
    then have "n\<lparr>nt_folder := None\<rparr> \<in>
        set (update_rows (\<lambda>n. nt_folder n \<noteq> None \<and> the (nt_folder n) \<in> set ?gone) (\<lambda>n. n\<lparr>nt_folder := None\<rparr>) (ls_notes st))"
      unfolding set_update_rows using that(1) by (intro image_eqI [of _ _ n])
    then show ?thesis using assms(4) by (auto simp: delete_folder_row_def Let_def)
  qed
qed

text \<open>
  C7 Deleting a folder forever takes folders that were trashed separately, whoever owns them.
  Suppose a member who is no owner may delete a folder of the Trash forever, and inside that
  folder lies one of somebody else that was trashed on its own, with a note in it. Asked for the
  other's folder the code refuses; asked for the outer one it answers success, because the check
  only looks at rows with that root, and the cascading foreign key removes the other's folder as
  well. The note that left with it stays in the table under a root that no longer exists: it is
  not a root of the Trash itself, so no listing, count or sweep of the Trash reaches it again.
\<close>

theorem member_purge_takes_foreign_folder:
  assumes "lib_ok st" "\<not> se_owner se" "\<And>i. \<not> lv_purge_fault env i"
    and "delete_forever_check se Kind_Folder outer st = None"
    and "g \<in> set (ls_folders st)" "fo_parent g = Some outer" "fo_root g = Some (fo_id g)" "fo_creator g \<noteq> Some (se_user se)"
    and "n \<in> set (ls_notes st)" "nt_folder n = Some (fo_id g)" "nt_root n = Some (fo_id g)"
  shows "fst (delete_forever env se Kind_Folder (fo_id g) st) = Lib_Fail Not_Your_Items \<and>
    (\<exists>st'. delete_forever env se Kind_Folder outer st = (Lib_Ok (), st') \<and>
       fo_id g \<notin> fo_id ` set (ls_folders st') \<and>
       (\<exists>n' \<in> set (ls_notes st'). nt_id n' = nt_id n \<and> nt_deleted n' \<noteq> None \<and> nt_root n' = Some (fo_id g) \<and>
          \<not> note_root_in (se_workspace se) n'))"
proof -
  let ?ws = "se_workspace se" and ?fs = "ls_folders st"
  let ?ids = "map nt_id (filter (\<lambda>n. nt_workspace n = Some ?ws \<and> nt_root n = Some outer \<and> nt_deleted n \<noteq> None) (ls_notes st))"
  let ?mid = "snd (delete_meetings env ?ws ?ids st)"
  have ok: "folders_ok ?fs" "notes_ok ?fs (ls_notes st)" using assms(1) by (simp_all add: lib_ok_def)
  from assms(4) obtain f where found: "find_row (trashed_folder ?ws outer) ?fs = Some f"
    by (auto simp: delete_forever_check_def Let_def split: option.splits)
  from find_row_SomeD [OF found] have f: "f \<in> set ?fs" "fo_id f = outer" "fo_workspace f = ?ws" "fo_deleted f \<noteq> None"
    by (auto simp: trashed_folder_def folder_root_in_def)
  have gd: "fo_deleted g \<noteq> None" using folder_fits_simple(2) [OF ok(1) assms(5)] assms(7) by simp
  have gw: "fo_workspace g = ?ws"
    using parent_exists [OF ok(1) assms(5,6)] f(1-3) folder_unique [OF ok(1)] by metis
  have outer: "fo_id g \<noteq> outer"
    using folders_okD(2) [OF ok(1)] parent_map_row [OF ok(1) assms(5)] assms(6)
    by (auto simp: no_cycle_def acyclic_def edges_def)
  have fits: "note_fits ?fs n" using ok(2) assms(9) by (simp add: notes_ok_def)
  have nd: "nt_deleted n \<noteq> None" using note_fitsD(1) [OF fits] assms(11) by simp
  have apart: "nt_id n \<noteq> fo_id g" using note_fitsD(2) [OF fits] assms(5) by (metis imageI)
  have "find_row (trashed_folder ?ws (fo_id g)) ?fs = Some g"
  proof -
    have "trashed_folder ?ws (fo_id g) g" using gd gw assms(7) by (simp add: trashed_folder_def folder_root_in_def)
    then have "find_row (trashed_folder ?ws (fo_id g)) ?fs \<noteq> None" using assms(5) unfolding find_row_None_iff by blast
    then obtain h where h: "find_row (trashed_folder ?ws (fo_id g)) ?fs = Some h" by blast
    from find_row_SomeD [OF h] have "h = g"
      using folder_unique [OF ok(1) _ assms(5)] by (simp add: trashed_folder_def)
    with h show ?thesis by simp
  qed
  moreover have "0 < count_rows (\<lambda>h. fo_workspace h = ?ws \<and> fo_root h = Some (fo_id g) \<and> fo_creator h \<noteq> Some (se_user se)) ?fs"
    using assms(5,7,8) gw by (auto simp: count_rows_def filter_empty_conv)
  ultimately have refused: "fst (delete_forever env se Kind_Folder (fo_id g) st) = Lib_Fail Not_Your_Items"
    using assms(2) by (simp add: delete_forever_def delete_forever_check_def Let_def)
  note all = delete_meetings_all [of env ?ws ?ids st, OF assms(3)]
  have mid: "lib_ok ?mid" by (rule delete_meetings_ok [OF assms(1)])
  have row: "find_row (\<lambda>f. fo_id f = outer \<and> fo_workspace f = ?ws \<and> fo_deleted f \<noteq> None) (ls_folders ?mid) \<noteq> None"
    using f all by (auto simp: find_row_None_iff)
  have "nt_id n \<notin> set ?ids"
  proof
    assume "nt_id n \<in> set ?ids"
    then obtain m where m: "m \<in> set (ls_notes st)" "nt_id m = nt_id n" "nt_root m = Some outer" by auto
    moreover have "unique_on nt_id (ls_notes st)" using ok(2) by (simp add: notes_ok_def)
    ultimately have "m = n" using unique_onD [of nt_id "ls_notes st" m n] assms(9) by simp
    with m(3) assms(11) outer show False by simp
  qed
  from delete_meetings_other [OF assms(9) this] have n: "n \<in> set (ls_notes ?mid)" .
  have g: "g \<in> set (ls_folders ?mid)" using all assms(5) by simp
  let ?st' = "snd (delete_forever env se Kind_Folder outer st)"
  have go: "delete_forever env se Kind_Folder outer st = (Lib_Ok (), ?st')"
    and tables: "ls_folders ?st' = ls_folders (delete_folder_row ?ws outer ?mid)"
      "ls_notes ?st' = ls_notes (delete_folder_row ?ws outer ?mid)"
    using assms(3,4) all by (simp_all add: delete_forever_def purge_root_def case_prod_unfold Let_def)
  note gone = delete_folder_row_cascades [OF mid g assms(6) row]
  have "n\<lparr>nt_folder := None\<rparr> \<in> set (ls_notes ?st')" unfolding tables by (rule gone(2) [OF n assms(10)])
  moreover have "\<not> note_root_in ?ws (n\<lparr>nt_folder := None\<rparr>)" using assms(11) apart by (simp add: note_root_in_def)
  ultimately show ?thesis using refused go gone(1) nd assms(11) unfolding tables(1) [symmetric]
    by (intro conjI exI [of _ ?st'] bexI [of _ "n\<lparr>nt_folder := None\<rparr>"]) simp_all
qed

text \<open>The owner's folder and note in a member's folder, both trashed on their own.\<close>

definition shared_ops :: "(ident \<times> lib_session \<times> lib_op) list" where
  "shared_ops = [(''f1'', member, Op_Create None ''Mine''), (''f2'', owner, Op_Create (Some ''f1'') ''Hers''),
     (''x'', owner, Op_Move_Notes [''n1''] (Some ''f2'')), (''x'', owner, Op_Trash_Folder ''f2''),
     (''x'', member, Op_Trash_Folder ''f1'')]"

theorem member_purge_takes_foreign_folder_witness:
  "fst (delete_forever (sample_env ''x'') member Kind_Folder ''f2'' (run_ops shared_ops (empty_library [sample_note])))
     = Lib_Fail Not_Your_Items \<and>
   fst (delete_forever (sample_env ''x'') member Kind_Folder ''f1'' (run_ops shared_ops (empty_library [sample_note]))) = Lib_Ok ()"
proof -
  let ?st = "run_ops shared_ops (empty_library [sample_note])"
  have run: "lib_run (empty_library [sample_note]) ?st"
    by (rule run_ops_run [OF _ lib_refl]) code_simp
  have ok: "lib_ok ?st" by (rule lib_run_ok [OF run empty_library_ok(2)])
  let ?g = "ls_folders ?st ! 1" and ?n = "ls_notes ?st ! 0"
  have fs: "length (ls_folders ?st) = 2" and ns: "length (ls_notes ?st) = 1" by code_simp+
  have g: "?g \<in> set (ls_folders ?st)" using fs by simp
  have n: "?n \<in> set (ls_notes ?st)" using ns by simp
  have i: "fo_id ?g = ''f2''" by code_simp
  have m: "\<not> se_owner member" by (simp add: member_def)
  have fault: "\<not> lv_purge_fault (sample_env ''x'') i" for i by (simp add: sample_env_def)
  have c: "delete_forever_check member Kind_Folder ''f1'' ?st = None" by code_simp
  have p: "fo_parent ?g = Some ''f1''" "fo_root ?g = Some (fo_id ?g)" "fo_creator ?g \<noteq> Some (se_user member)" by code_simp+
  have q: "nt_folder ?n = Some (fo_id ?g)" "nt_root ?n = Some (fo_id ?g)" by code_simp+
  from member_purge_takes_foreign_folder [OF ok m fault c g p n q] show ?thesis unfolding i by auto
qed

subsection \<open>Two moves at once\<close>

definition reparented :: "ident \<Rightarrow> ident \<Rightarrow> ident option \<Rightarrow> folder_row list \<Rightarrow> folder_row list" where
  "reparented ws fid parent = update_rows (\<lambda>f. fo_id f = fid \<and> live_in ws f) (\<lambda>f. f\<lparr>fo_parent := parent\<rparr>)"

text \<open>The checks of \<open>move_folder\<close> on what it has read.\<close>

definition move_checked :: "lib_env \<Rightarrow> ident \<Rightarrow> ident \<Rightarrow> ident option \<Rightarrow> lib_state \<Rightarrow> bool" where
  "move_checked env ws fid parent st \<longleftrightarrow>
     (let folders = list_folders env ws st in
      (\<exists>f. find_row (\<lambda>f. fn_id f = fid) folders = Some f \<and> fn_parent f \<noteq> parent) \<and>
      (parent \<noteq> None \<longrightarrow> the parent \<in> fn_id ` set folders \<and> the parent \<notin> set (subtree_ids folders fid)) \<and>
      folder_depth folders parent + subtree_height folders fid \<le> max_folder_depth)"

lemma move_folder_checked:
  assumes "move_checked env (se_workspace se) fid parent st"
  shows "move_folder env se fid parent st =
    (let st = lv_meanwhile env st; hit = (\<lambda>f. fo_id f = fid \<and> live_in (se_workspace se) f) in
      case write_folders (lv_write_fault env) (reparented (se_workspace se) fid parent (ls_folders st)) of
         Inl t \<Rightarrow> (if is_unique_violation t then Lib_Fail Name_Taken else Lib_Throws t, st)
       | Inr rows \<Rightarrow>
           if count_rows hit (ls_folders st) \<noteq> 1 then (Lib_Fail Folder_Gone, st\<lparr>ls_folders := rows\<rparr>)
           else (Lib_Ok (), add_audit env (se_workspace se) (Some (se_user se)) ''folder.move'' ''folder'' (Some fid) None
                  (st\<lparr>ls_folders := rows\<rparr>)))"
  using assms by (auto simp: move_folder_def move_checked_def Let_def reparented_def)

lemma move_folder_OkD:
  assumes "fst (move_folder env se fid (Some q) st) = Lib_Ok ()" "env_ok env (se_workspace se) st"
    and "f \<in> set (ls_folders st)" "live_in (se_workspace se) f" "fo_id f = fid" "fo_parent f \<noteq> Some q" "folders_ok (ls_folders st)"
  shows "move_checked env (se_workspace se) fid (Some q) st" "lv_write_fault env = None"
    "live_names_unique (reparented (se_workspace se) fid (Some q) (ls_folders st))"
    "ls_folders (snd (move_folder env se fid (Some q) st)) = reparented (se_workspace se) fid (Some q) (ls_folders st)"
proof -
  let ?ns = "list_folders env (se_workspace se) st"
  have "find_row (\<lambda>f. fn_id f = fid) ?ns \<noteq> None"
    using assms(1) by (auto simp: move_folder_def Let_def split: option.splits)
  then obtain nd where nd: "find_row (\<lambda>f. fn_id f = fid) ?ns = Some nd" by blast
  from find_live_folder [OF list_folders_live [OF assms(2)] nd] have "fn_parent nd = fo_parent f"
    using folder_unique [OF assms(7) _ assms(3)] assms(5) by metis
  then have parent: "fn_parent nd \<noteq> Some q" using assms(6) by simp
  show c: "move_checked env (se_workspace se) fid (Some q) st"
    using assms(1) nd parent by (auto simp: move_folder_def move_checked_def Let_def not_less split: if_splits)
  have "\<exists>rows. write_folders (lv_write_fault env) (reparented (se_workspace se) fid (Some q) (ls_folders st)) = Inr rows"
    using assms(1) unfolding move_folder_checked [OF c] env_ok_alone [OF assms(2)] Let_def
    by (auto split: sum.splits if_splits)
  then obtain rows where w: "write_folders (lv_write_fault env) (reparented (se_workspace se) fid (Some q) (ls_folders st)) = Inr rows" ..
  then show "lv_write_fault env = None" by (simp add: write_folders_def split: option.splits)
  show "live_names_unique (reparented (se_workspace se) fid (Some q) (ls_folders st))" using write_folders_Inr [OF w] by blast
  show "ls_folders (snd (move_folder env se fid (Some q) st)) = reparented (se_workspace se) fid (Some q) (ls_folders st)"
    unfolding move_folder_checked [OF c] env_ok_alone [OF assms(2)] Let_def
    using write_folders_Inr [OF w] by (simp add: w)
qed

lemma count_by_id:
  assumes "folders_ok fs" "f \<in> set fs" "live_in ws f"
  shows "count_rows (\<lambda>g. fo_id g = fo_id f \<and> live_in ws g) fs = 1"
proof -
  have "count_rows (\<lambda>g. fo_id g = fo_id f \<and> live_in ws g) fs \<le> card {fo_id f}"
    by (rule count_rows_keyed [OF folders_okD(1) [OF assms(1)]]) auto
  moreover have "0 < count_rows (\<lambda>g. fo_id g = fo_id f \<and> live_in ws g) fs"
    unfolding count_rows_pos_iff using assms(2,3) by blast
  ultimately show ?thesis by simp
qed

lemma reparented_map: "reparented ws fid parent fs = map (\<lambda>f. if fo_id f = fid \<and> live_in ws f then f\<lparr>fo_parent := parent\<rparr> else f) fs"
  by (simp add: reparented_def update_rows_def)

lemma count_reparented:
  "count_rows (\<lambda>h. fo_id h = a \<and> live_in ws h) (reparented ws b parent fs) = count_rows (\<lambda>h. fo_id h = a \<and> live_in ws h) fs"
  by (induction fs) (simp_all add: reparented_map live_in_def)

lemma live_names_map:
  assumes "folders_ok fs" "\<And>f. live_row (h f) = live_row f"
  shows "live_names_unique (map h fs) \<longleftrightarrow> inj_on (\<lambda>f. live_key (h f)) {f \<in> set fs. live_row f}"
proof -
  have "distinct fs" using folders_okD(1) [OF assms(1)] by (simp add: unique_on_def distinct_map)
  then show ?thesis
    by (simp add: live_names_unique_def unique_on_def filter_map comp_def assms(2) distinct_map)
qed

lemma reparented_twice:
  assumes "a \<noteq> b"
  shows "reparented ws a (Some b) (reparented ws b (Some a) fs) = map (\<lambda>f.
    if fo_id f = a \<and> live_in ws f then f\<lparr>fo_parent := Some b\<rparr>
    else if fo_id f = b \<and> live_in ws f then f\<lparr>fo_parent := Some a\<rparr> else f) fs"
  unfolding reparented_map map_map comp_def using assms by (intro map_cong refl) (auto simp: live_in_def)

lemma crossed_names_unique:
  assumes "folders_ok fs" "a \<noteq> b"
    and "live_names_unique (reparented ws a (Some b) fs)" "live_names_unique (reparented ws b (Some a) fs)"
  shows "live_names_unique (reparented ws a (Some b) (reparented ws b (Some a) fs))"
proof -
  let ?u = "\<lambda>x y f. if fo_id f = x \<and> live_in ws f then f\<lparr>fo_parent := Some y\<rparr> else f"
  let ?h = "\<lambda>f. if fo_id f = a \<and> live_in ws f then f\<lparr>fo_parent := Some b\<rparr>
    else if fo_id f = b \<and> live_in ws f then f\<lparr>fo_parent := Some a\<rparr> else f"
  have one: "inj_on (\<lambda>f. live_key (?u a b f)) {f \<in> set fs. live_row f}"
    using live_names_map [OF assms(1), of "?u a b"] assms(3) unfolding reparented_map by (simp add: live_row_def)
  have two: "inj_on (\<lambda>f. live_key (?u b a f)) {f \<in> set fs. live_row f}"
    using live_names_map [OF assms(1), of "?u b a"] assms(4) unfolding reparented_map by (simp add: live_row_def)
  have "f = g" if fg: "f \<in> set fs" "live_row f" "g \<in> set fs" "live_row g" "live_key (?h f) = live_key (?h g)" for f g
  proof -
    consider "\<not> (fo_id f = a \<and> live_in ws f)" "\<not> (fo_id g = a \<and> live_in ws g)"
      | "\<not> (fo_id f = b \<and> live_in ws f)" "\<not> (fo_id g = b \<and> live_in ws g)"
      | "fo_id f = a \<and> live_in ws f" "fo_id g = b \<and> live_in ws g"
      | "fo_id f = b \<and> live_in ws f" "fo_id g = a \<and> live_in ws g"
      using assms(2) by blast
    then show ?thesis
    proof cases
      case 1
      then have "?h f = ?u b a f" "?h g = ?u b a g" by (simp_all only: if_False)
      with fg(5) have "live_key (?u b a f) = live_key (?u b a g)" by (simp only:)
      with two fg show ?thesis unfolding inj_on_def by blast
    next
      case 2
      then have "?h f = ?u a b f" "?h g = ?u a b g" by (simp_all only: if_False)
      with fg(5) have "live_key (?u a b f) = live_key (?u a b g)" by (simp only:)
      with one fg show ?thesis unfolding inj_on_def by blast
    qed (use fg(5) assms(2) in \<open>auto simp: live_key_def\<close>)
  qed
  then have "inj_on (\<lambda>f. live_key (?h f)) {f \<in> set fs. live_row f}" unfolding inj_on_def by blast
  then show ?thesis
    using live_names_map [OF assms(1), of ?h] unfolding reparented_twice [OF assms(2)] by (simp add: live_row_def)
qed

lemma crossed_writes:
  assumes "folders_ok fs" "a \<noteq> b" "a \<in> fo_id ` set fs" "b \<in> fo_id ` set fs"
    and "live_names_unique (reparented ws a (Some b) fs)" "live_names_unique (reparented ws b (Some a) fs)"
  shows "write_folders None (reparented ws a (Some b) (reparented ws b (Some a) fs)) =
    Inr (reparented ws a (Some b) (reparented ws b (Some a) fs))"
proof -
  let ?rows = "reparented ws a (Some b) (reparented ws b (Some a) fs)"
  have ids: "fo_id ` set ?rows = fo_id ` set fs"
    unfolding reparented_twice [OF assms(2)] set_map image_image by (rule image_cong) auto
  have "the (fo_parent f) \<in> fo_id ` set fs" if "f \<in> set ?rows" "fo_parent f \<noteq> None" for f
  proof -
    from that(2) obtain q where q: "fo_parent f = Some q" by blast
    from that(1) obtain h where h: "h \<in> set fs" "fo_parent f \<in> {fo_parent h, Some a, Some b}"
      unfolding reparented_twice [OF assms(2)] by (auto split: if_splits)
    have "q \<in> fo_id ` set fs" if "fo_parent h = Some q"
      using parent_exists [OF assms(1) h(1) that] by (metis imageI)
    then show ?thesis using h(2) q assms(3,4) by auto
  qed
  then have "\<not> list_ex (\<lambda>f. fo_parent f \<noteq> None \<and> the (fo_parent f) \<notin> fo_id ` set ?rows) ?rows"
    unfolding list_ex_iff ids by blast
  with crossed_names_unique [OF assms(1,2,5,6)] show ?thesis
    unfolding write_folders_def by (simp only: if_False simp_thms option.case)
qed

text \<open>
  Two moves at once close a cycle. Take two live folders and two moves, of the first under the
  second and of the second under the first, each of which the library accepts when it is the only
  request. When the second is carried out between the checks and the write of the first, both are
  accepted, since nothing locks or reads the folders again: each folder is then the parent of the
  other, so the table no longer is a forest.
\<close>

theorem overlapping_moves_close_cycle:
  assumes "lib_ok st" "env_ok env (se_workspace se) st" "env_ok env' (se_workspace se) st" "se_workspace se' = se_workspace se"
    and "f \<in> set (ls_folders st)" "live_in (se_workspace se) f" "fo_parent f \<noteq> Some (fo_id g)"
    and "g \<in> set (ls_folders st)" "live_in (se_workspace se) g" "fo_parent g \<noteq> Some (fo_id f)"
    and "fst (move_folder env se (fo_id f) (Some (fo_id g)) st) = Lib_Ok ()"
    and "fst (move_folder env' se' (fo_id g) (Some (fo_id f)) st) = Lib_Ok ()"
  shows "\<exists>st'. move_folder (env\<lparr>lv_meanwhile := lib_step env' se' (Op_Move (fo_id g) (Some (fo_id f)))\<rparr>) se
        (fo_id f) (Some (fo_id g)) st = (Lib_Ok (), st') \<and>
      f\<lparr>fo_parent := Some (fo_id g)\<rparr> \<in> set (ls_folders st') \<and> g\<lparr>fo_parent := Some (fo_id f)\<rparr> \<in> set (ls_folders st') \<and>
      \<not> lib_ok st'"
proof -
  let ?ws = "se_workspace se" and ?fs = "ls_folders st" and ?a = "fo_id f" and ?b = "fo_id g"
  let ?mid = "lib_step env' se' (Op_Move ?b (Some ?a)) st"
  let ?env = "env\<lparr>lv_meanwhile := lib_step env' se' (Op_Move ?b (Some ?a))\<rparr>"
  let ?rows = "reparented ?ws ?a (Some ?b) (reparented ?ws ?b (Some ?a) ?fs)"
  have ok: "folders_ok ?fs" using assms(1) by (simp add: lib_ok_def)
  note one = move_folder_OkD [OF assms(11,2,5,6) refl assms(7) ok]
  have env': "env_ok env' (se_workspace se') st" "live_in (se_workspace se') g" using assms(3,4,9) by simp_all
  note two = move_folder_OkD [OF assms(12) env'(1) assms(8) env'(2) refl assms(10) ok, unfolded assms(4)]
  have apart: "?a \<noteq> ?b"
  proof
    assume "?a = ?b"
    then have "?b \<in> fn_id ` set (list_folders env ?ws st)" "?b \<notin> set (subtree_ids (list_folders env ?ws st) ?b)"
      using one(1) by (simp_all add: move_checked_def Let_def)
    then show False
      using live_subtree [OF ok list_folders_live [OF assms(2)], of ?b ?b] by simp
  qed
  have checked: "move_checked ?env ?ws ?a (Some ?b) st"
    using one(1) by (simp add: move_checked_def list_folders_def)
  have mid: "ls_folders ?mid = reparented ?ws ?b (Some ?a) ?fs" using two(4) by simp
  have w: "write_folders (lv_write_fault env) ?rows = Inr ?rows"
    unfolding one(2) using crossed_writes [OF ok apart _ _ one(3) two(3)] assms(5,8) by blast
  have "count_rows (\<lambda>h. fo_id h = ?a \<and> live_in ?ws h) (reparented ?ws ?b (Some ?a) ?fs) =
      count_rows (\<lambda>h. fo_id h = ?a \<and> live_in ?ws h) ?fs"
    by (rule count_reparented)
  then have once: "count_rows (\<lambda>h. fo_id h = ?a \<and> live_in ?ws h) (ls_folders ?mid) = 1"
    unfolding mid using count_by_id [OF ok assms(5,6)] by simp
  let ?st' = "snd (move_folder ?env se ?a (Some ?b) st)"
  have e: "lv_meanwhile ?env = lib_step env' se' (Op_Move ?b (Some ?a))" "lv_write_fault ?env = lv_write_fault env" by simp_all
  have go: "move_folder ?env se ?a (Some ?b) st = (Lib_Ok (), ?st')" and rows: "ls_folders ?st' = ?rows"
    unfolding move_folder_checked [OF checked] e Let_def mid w using once unfolding mid by simp_all
  have f: "f\<lparr>fo_parent := Some ?b\<rparr> \<in> set (ls_folders ?st')"
    unfolding rows reparented_twice [OF apart] set_map using assms(5,6) by (intro image_eqI [of _ _ f]) simp_all
  have g: "g\<lparr>fo_parent := Some ?a\<rparr> \<in> set (ls_folders ?st')"
    unfolding rows reparented_twice [OF apart] set_map using assms(8,9) apart by (intro image_eqI [of _ _ g]) simp_all
  have "\<not> lib_ok ?st'"
  proof
    assume "lib_ok ?st'"
    then have sound: "folders_ok (ls_folders ?st')" by (simp add: lib_ok_def)
    from parent_map_row [OF sound f] parent_map_row [OF sound g]
    have "(?a, ?b) \<in> edges (parent_map (ls_folders ?st'))" "(?b, ?a) \<in> edges (parent_map (ls_folders ?st'))"
      by (simp_all add: edges_def)
    then have "(?a, ?a) \<in> (edges (parent_map (ls_folders ?st')))\<^sup>+" by (rule trancl.intros(2) [OF trancl.intros(1)])
    with folders_okD(2) [OF sound] show False by (auto simp: no_cycle_def acyclic_def)
  qed
  with go f g show ?thesis by blast
qed

definition two_ops :: "(ident \<times> lib_session \<times> lib_op) list" where
  "two_ops = [(''a'', owner, Op_Create None ''A''), (''b'', member, Op_Create None ''B'')]"

theorem overlapping_moves_close_cycle_witness:
  "\<not> lib_ok (snd (move_folder (sample_env ''x''\<lparr>lv_meanwhile := lib_step (sample_env ''y'') member (Op_Move ''b'' (Some ''a''))\<rparr>)
      owner ''a'' (Some ''b'') (run_ops two_ops (empty_library []))))"
proof -
  let ?st = "run_ops two_ops (empty_library [])"
  have "lib_run (empty_library []) ?st" by (rule run_ops_run [OF _ lib_refl]) code_simp
  then have ok: "lib_ok ?st" by (rule lib_run_ok [OF _ empty_library_ok(1)])
  have "env_ok (sample_env new) (se_workspace owner) ?st" if "new = ''x'' \<or> new = ''y''" for new
    using that by (elim disjE; simp only:; intro sample_env_ok [of _ _ Op_Empty_Trash]) code_simp+
  then have env: "env_ok (sample_env ''x'') (se_workspace owner) ?st" "env_ok (sample_env ''y'') (se_workspace owner) ?st" by simp_all
  have w: "se_workspace member = se_workspace owner" by (simp add: member_def owner_def)
  let ?f = "ls_folders ?st ! 0" and ?g = "ls_folders ?st ! 1"
  have "length (ls_folders ?st) = 2" by code_simp
  then have fs: "?f \<in> set (ls_folders ?st)" "?g \<in> set (ls_folders ?st)" by simp_all
  have i: "fo_id ?f = ''a''" "fo_id ?g = ''b''" by code_simp+
  have l: "live_in (se_workspace owner) ?f" "live_in (se_workspace owner) ?g" by code_simp+
  have p: "fo_parent ?f \<noteq> Some (fo_id ?g)" "fo_parent ?g \<noteq> Some (fo_id ?f)" by code_simp+
  have m: "fst (move_folder (sample_env ''x'') owner (fo_id ?f) (Some (fo_id ?g)) ?st) = Lib_Ok ()"
    "fst (move_folder (sample_env ''y'') member (fo_id ?g) (Some (fo_id ?f)) ?st) = Lib_Ok ()" unfolding i by code_simp+
  from overlapping_moves_close_cycle [OF ok env w fs(1) l(1) p(1) fs(2) l(2) p(2) m] show ?thesis unfolding i by auto
qed

end
