(* ===== verification/Js_Data.thy ===== *)
theory Js_Data
  imports Js_Runtime
begin

text \<open>
  More of the JavaScript standard library: environment variables, \<open>Number(text)\<close>, calendar
  days in ISO form, and JSON values with \<open>JSON.parse\<close>.

  A parsed number is kept as the exact rational its text denotes; a double is the nearest
  one of 53 bits, and the code that follows rounds it to milliseconds or micro-dollars. An
  object is the list of its members in order; a later member with the same name wins. An
  escape outside the code units of \<open>char\<close> has no image here and counts as a syntax error.
\<close>

subsection \<open>Environment variables\<close>

type_synonym env = "string \<Rightarrow> string option"

definition env_is :: "env \<Rightarrow> string \<Rightarrow> string \<Rightarrow> bool" where
  "env_is env name value' \<longleftrightarrow> env name = Some value'"

text \<open>\<open>/^\d+$/\<close>.\<close>

definition all_digits :: "string \<Rightarrow> bool" where
  "all_digits s \<longleftrightarrow> s \<noteq> [] \<and> list_all is_ascii_digit s"

subsection \<open>\<open>Number(text)\<close>\<close>

definition strip_prefix :: "string \<Rightarrow> string \<Rightarrow> string option" where
  "strip_prefix p s = (if take (length p) s = p then Some (drop (length p) s) else None)"

fun digit_in :: "nat \<Rightarrow> char \<Rightarrow> nat option" where
  "digit_in base c =
     (let n = (of_char c :: nat);
          v = (if 48 \<le> n \<and> n \<le> 57 then Some (n - 48)
               else if 97 \<le> n \<and> n \<le> 102 then Some (n - 87)
               else if 65 \<le> n \<and> n \<le> 70 then Some (n - 55) else None)
      in case v of Some k \<Rightarrow> if k < base then Some k else None | None \<Rightarrow> None)"

fun radix_value :: "nat \<Rightarrow> nat \<Rightarrow> string \<Rightarrow> nat option" where
  "radix_value base acc [] = Some acc"
| "radix_value base acc (c # cs) =
     (case digit_in base c of None \<Rightarrow> None | Some k \<Rightarrow> radix_value base (acc * base + k) cs)"

text \<open>The first magnitude that rounds to infinity, \<open>2 ^ 1024 - 2 ^ 970\<close>, as a literal.\<close>

definition double_overflow :: rat where
  "double_overflow = 179769313486231580793728971405303415079934132710037826936173778980444968292764750946649017977587207096330286416692887910946555547851940402630657488671505820681908902000708383676273854845817711531764475730270069855571366959622842914819860834936475292719074168444365510704342711559699508093042880177904174497792"

definition js_num :: "rat \<Rightarrow> js_number" where
  "js_num q = (if double_overflow \<le> q then JsPosInf else if q \<le> - double_overflow then JsNegInf else JsNum q)"

definition scale10 :: "rat \<Rightarrow> bool \<Rightarrow> nat \<Rightarrow> rat" where
  "scale10 q negative e = (if negative then q / 10 ^ e else q * 10 ^ e)"

text \<open>An optional exponent part: \<open>(negative, magnitude, rest)\<close>; \<open>None\<close> when \<open>e\<close> has no digits.\<close>

definition read_exponent :: "string \<Rightarrow> (bool \<times> nat \<times> string) option" where
  "read_exponent s =
     (if s \<noteq> [] \<and> (hd s = CHR ''e'' \<or> hd s = CHR ''E'') then
        (let s1 = tl s;
             negative = (s1 \<noteq> [] \<and> hd s1 = CHR ''-'');
             s2 = (if s1 \<noteq> [] \<and> (hd s1 = CHR ''-'' \<or> hd s1 = CHR ''+'') then tl s1 else s1);
             ds = takeWhile is_ascii_digit s2
         in if ds = [] then None
            else Some (negative, digits_value ds, dropWhile is_ascii_digit s2))
      else Some (False, 0, s))"

text \<open>An unsigned decimal literal of \<open>Number\<close>: \<open>12\<close>, \<open>1.5\<close>, \<open>.5\<close>, \<open>1.\<close>, \<open>1e3\<close>.\<close>

definition decimal_literal :: "string \<Rightarrow> rat option" where
  "decimal_literal s =
     (let whole = takeWhile is_ascii_digit s;
          r = dropWhile is_ascii_digit s;
          dotted = (r \<noteq> [] \<and> hd r = CHR ''.'');
          frac = (if dotted then takeWhile is_ascii_digit (tl r) else []);
          r' = (if dotted then dropWhile is_ascii_digit (tl r) else r)
      in if whole = [] \<and> frac = [] then None
         else case read_exponent r' of
             Some (negative, e, rest) \<Rightarrow>
               if rest = []
               then Some (scale10 (of_nat (digits_value (whole @ frac)) / 10 ^ length frac) negative e)
               else None
           | None \<Rightarrow> None)"

definition signed_literal :: "string \<Rightarrow> js_number" where
  "signed_literal s =
     (let negative = (s \<noteq> [] \<and> hd s = CHR ''-'');
          body = (if s \<noteq> [] \<and> (hd s = CHR ''-'' \<or> hd s = CHR ''+'') then tl s else s)
      in if body = ''Infinity'' then (if negative then JsNegInf else JsPosInf)
         else case decimal_literal body of
             Some q \<Rightarrow> js_num (if negative then - q else q)
           | None \<Rightarrow> JsNaN)"

definition radix_literal :: "nat \<Rightarrow> string \<Rightarrow> js_number" where
  "radix_literal base s =
     (if s = [] then JsNaN
      else case radix_value base 0 s of Some n \<Rightarrow> js_num (of_nat n) | None \<Rightarrow> JsNaN)"

definition number_of_text :: "string \<Rightarrow> js_number" where
  "number_of_text text =
     (let s = trim text in
      if s = [] then JsNum 0
      else if take 2 s = ''0x'' \<or> take 2 s = ''0X'' then radix_literal 16 (drop 2 s)
      else if take 2 s = ''0o'' \<or> take 2 s = ''0O'' then radix_literal 8 (drop 2 s)
      else if take 2 s = ''0b'' \<or> take 2 s = ''0B'' then radix_literal 2 (drop 2 s)
      else signed_literal s)"

definition js_finite :: "js_number \<Rightarrow> rat option" where
  "js_finite n = (case n of JsNum q \<Rightarrow> Some q | _ \<Rightarrow> None)"

text \<open>\<open>Math.round\<close>: the nearest integer, halves upwards.\<close>

definition math_round :: "rat \<Rightarrow> int" where
  "math_round q = \<lfloor>q + 1 / 2\<rfloor>"

lemma math_round_of_int [simp]: "math_round (of_int i) = i"
  unfolding math_round_def by (rule floor_unique) simp_all

lemma math_round_mono: "p \<le> q \<Longrightarrow> math_round p \<le> math_round q"
  by (simp add: math_round_def floor_mono)

subsection \<open>Calendar days\<close>

definition pad_left :: "nat \<Rightarrow> string \<Rightarrow> string" where
  "pad_left n s = replicate (n - length s) CHR ''0'' @ s"

definition utc_date :: "millis \<Rightarrow> int" where
  "utc_date t =
     (let y = utc_full_year t in day_of t - day_from_year y - month_start (is_leap y) (utc_month t) + 1)"

text \<open>\<open>toISOString().slice(0, 10)\<close>: years outside \<open>0\<close> to \<open>9999\<close> have a sign and six digits.\<close>

definition iso_day :: "millis \<Rightarrow> string" where
  "iso_day t =
     (let y = utc_full_year t;
          year = (if 0 \<le> y \<and> y \<le> 9999 then pad_left 4 (int_str y)
                  else (if y < 0 then ''-'' else ''+'') @ pad_left 6 (int_str \<bar>y\<bar>))
      in take 10 (year @ ''-'' @ pad_left 2 (int_str (utc_month t + 1)) @ ''-'' @ pad_left 2 (int_str (utc_date t))))"

text \<open>\<open>Buffer.byteLength(text)\<close>: code units below 128 take one byte of UTF-8, those up to 255 two.\<close>

definition utf8_length :: "string \<Rightarrow> int" where
  "utf8_length s = sum_list (map (\<lambda>c. if (of_char c :: nat) < 128 then 1 else 2) s)"

subsection \<open>Query parameters\<close>

definition hex_digit :: "nat \<Rightarrow> char" where
  "hex_digit n = (if n < 10 then char_of (48 + n) else char_of (55 + n))"

definition percent_byte :: "nat \<Rightarrow> string" where
  "percent_byte n = [CHR ''%'', hex_digit (n div 16), hex_digit (n mod 16)]"

definition is_uri_unreserved :: "char \<Rightarrow> bool" where
  "is_uri_unreserved c \<longleftrightarrow> is_ascii_digit c \<or> is_ascii_lower c \<or> is_ascii_upper c \<or>
     c \<in> set ''-_.!~*()'' \<or> c = CHR 0x27"

text \<open>\<open>encodeURIComponent\<close>: the UTF-8 bytes of everything that is not unreserved.\<close>

definition encode_uri_char :: "char \<Rightarrow> string" where
  "encode_uri_char c =
     (if is_uri_unreserved c then [c]
      else let n = (of_char c :: nat) in
        if n < 128 then percent_byte n
        else percent_byte (192 + n div 64) @ percent_byte (128 + n mod 64))"

definition encode_uri_component :: "string \<Rightarrow> string" where
  "encode_uri_component s = concat (map encode_uri_char s)"

subsection \<open>JSON values\<close>

datatype json =
    JNull
  | JBool bool
  | JNumber js_number
  | JString string
  | JArray "json list"
  | JObject "(string \<times> json) list"

text \<open>\<open>value?.name\<close> on a parsed value; \<open>None\<close> is \<open>undefined\<close>.\<close>

definition json_get :: "string \<Rightarrow> json option \<Rightarrow> json option" where
  "json_get name v =
     (case v of Some (JObject members) \<Rightarrow> map_of (rev members) name | _ \<Rightarrow> None)"

definition json_string :: "json option \<Rightarrow> string option" where
  "json_string v = (case v of Some (JString s) \<Rightarrow> Some s | _ \<Rightarrow> None)"

text \<open>\<open>Array.isArray(v) ? v : []\<close>.\<close>

definition json_items :: "json option \<Rightarrow> json list" where
  "json_items v = (case v of Some (JArray xs) \<Rightarrow> xs | _ \<Rightarrow> [])"

text \<open>\<open>typeof v === "object" && v !== null\<close>.\<close>

definition is_json_object :: "json option \<Rightarrow> bool" where
  "is_json_object v = (case v of Some (JArray _) \<Rightarrow> True | Some (JObject _) \<Rightarrow> True | _ \<Rightarrow> False)"

text \<open>\<open>a ?? b\<close>.\<close>

definition json_or :: "json option \<Rightarrow> json option \<Rightarrow> json option" where
  "json_or a b = (case a of None \<Rightarrow> b | Some JNull \<Rightarrow> b | Some v \<Rightarrow> Some v)"

subsection \<open>\<open>JSON.parse\<close>\<close>

definition is_json_space :: "char \<Rightarrow> bool" where
  "is_json_space c \<longleftrightarrow> (of_char c :: nat) \<in> {9, 10, 13, 32}"

definition skip_space :: "string \<Rightarrow> string" where
  "skip_space s = dropWhile is_json_space s"

definition simple_escape :: "char \<Rightarrow> char option" where
  "simple_escape c =
     (if c = CHR 0x22 \<or> c = CHR 0x5C \<or> c = CHR ''/'' then Some c
      else if c = CHR ''b'' then Some (CHR 0x08)
      else if c = CHR ''f'' then Some (CHR 0x0C)
      else if c = CHR ''n'' then Some (CHR 0x0A)
      else if c = CHR ''r'' then Some (CHR 0x0D)
      else if c = CHR ''t'' then Some (CHR 0x09)
      else None)"

text \<open>The characters after the opening quote, up to and without the closing one.\<close>

fun read_chars :: "string \<Rightarrow> (string \<times> string) option" where
  "read_chars [] = None"
| "read_chars (c # cs) =
     (if c = CHR 0x22 then Some ([], cs)
      else if (of_char c :: nat) < 32 then None
      else if c = CHR 0x5C then
        (case cs of
           [] \<Rightarrow> None
         | e # es \<Rightarrow>
             if e = CHR ''u'' then
               (case es of
                  a # b # h # l # rest \<Rightarrow>
                    (case radix_value 16 0 [a, b, h, l] of
                       Some n \<Rightarrow>
                         if n < 256 then map_option (apfst (Cons (char_of n))) (read_chars rest) else None
                     | None \<Rightarrow> None)
                | _ \<Rightarrow> None)
             else (case simple_escape e of
                 Some d \<Rightarrow> map_option (apfst (Cons d)) (read_chars es)
               | None \<Rightarrow> None))
      else map_option (apfst (Cons c)) (read_chars cs))"

text \<open>A JSON number: no leading zeros, digits on both sides of the point.\<close>

definition read_number :: "string \<Rightarrow> (js_number \<times> string) option" where
  "read_number s =
     (let negative = (s \<noteq> [] \<and> hd s = CHR ''-'');
          s1 = (if negative then tl s else s);
          ds = takeWhile is_ascii_digit s1;
          whole = (if ds \<noteq> [] \<and> hd ds = CHR ''0'' then take 1 ds else ds);
          r = drop (length whole) s1;
          dotted = (r \<noteq> [] \<and> hd r = CHR ''.'');
          frac = (if dotted then takeWhile is_ascii_digit (tl r) else []);
          r' = (if dotted then dropWhile is_ascii_digit (tl r) else r)
      in if whole = [] \<or> (dotted \<and> frac = []) then None
         else case read_exponent r' of
             Some (down, e, rest) \<Rightarrow>
               (let q = scale10 (of_nat (digits_value (whole @ frac)) / 10 ^ length frac) down e
                in Some (js_num (if negative then - q else q), rest))
           | None \<Rightarrow> None)"

text \<open>
  Recursive descent. Every recursive call has consumed a character, so a fuel above the
  length of the text is never used up.
\<close>

fun parse_value :: "nat \<Rightarrow> string \<Rightarrow> (json \<times> string) option"
and parse_items :: "nat \<Rightarrow> string \<Rightarrow> (json list \<times> string) option"
and parse_members :: "nat \<Rightarrow> string \<Rightarrow> ((string \<times> json) list \<times> string) option" where
  "parse_value 0 s = None"
| "parse_value (Suc n) s =
     (case strip_prefix ''null'' s of Some r \<Rightarrow> Some (JNull, r) | None \<Rightarrow>
     (case strip_prefix ''true'' s of Some r \<Rightarrow> Some (JBool True, r) | None \<Rightarrow>
     (case strip_prefix ''false'' s of Some r \<Rightarrow> Some (JBool False, r) | None \<Rightarrow>
     (if s = [] then None
      else if hd s = CHR 0x22 then map_option (apfst JString) (read_chars (tl s))
      else if hd s = CHR ''['' then
        (let r = skip_space (tl s) in
         if r \<noteq> [] \<and> hd r = CHR '']'' then Some (JArray [], tl r)
         else map_option (apfst JArray) (parse_items n r))
      else if hd s = CHR ''{'' then
        (let r = skip_space (tl s) in
         if r \<noteq> [] \<and> hd r = CHR ''}'' then Some (JObject [], tl r)
         else map_option (apfst JObject) (parse_members n r))
      else map_option (apfst JNumber) (read_number s)))))"
| "parse_items 0 s = None"
| "parse_items (Suc n) s =
     (case parse_value n s of
        None \<Rightarrow> None
      | Some (v, r) \<Rightarrow>
          (let r1 = skip_space r in
           if r1 = [] then None
           else if hd r1 = CHR '']'' then Some ([v], tl r1)
           else if hd r1 = CHR '','' then map_option (apfst (Cons v)) (parse_items n (skip_space (tl r1)))
           else None))"
| "parse_members 0 s = None"
| "parse_members (Suc n) s =
     (if s = [] \<or> hd s \<noteq> CHR 0x22 then None
      else case read_chars (tl s) of
        None \<Rightarrow> None
      | Some (name, r) \<Rightarrow>
          (let r1 = skip_space r in
           if r1 = [] \<or> hd r1 \<noteq> CHR '':'' then None
           else case parse_value n (skip_space (tl r1)) of
             None \<Rightarrow> None
           | Some (v, r2) \<Rightarrow>
               (let r3 = skip_space r2 in
                if r3 = [] then None
                else if hd r3 = CHR ''}'' then Some ([(name, v)], tl r3)
                else if hd r3 = CHR '','' then
                  map_option (apfst (Cons (name, v))) (parse_members n (skip_space (tl r3)))
                else None)))"

definition json_parse :: "string \<Rightarrow> json option" where
  "json_parse text =
     (case parse_value (2 * length text + 2) (skip_space text) of
        Some (v, rest) \<Rightarrow> if skip_space rest = [] then Some v else None
      | None \<Rightarrow> None)"

end
