(* ===== verification/Provider_Spend.thy ===== *)
theory Provider_Spend
  imports Plans Js_Data "HOL-Library.List_Lexorder" "HOL-Library.Char_ord"
begin

text \<open>
  The ledger of money spent at the hosted providers: \<^verbatim>\<open>webapp/src/lib/providerSpend.ts\<close>, and
  the daily ceiling on trial grants of \<^verbatim>\<open>trialGrants.ts\<close>.

  A call first reserves its estimate in one bucket per ceiling (global, workspace, trial) and
  later settles to the reported cost. Each of the two is one transaction. The asynchronous
  context of the source (\<open>withProviderSpend\<close>) is the \<open>spend_scope\<close> argument; its guards are
  given by what they do at this point, in order: \<open>None\<close> passes, \<open>Some e\<close> throws. The bucket
  identifiers start with different letters, so \<open>localeCompare\<close> orders them as their code units.
\<close>

subsection \<open>Rows and limits\<close>

record spend_bucket =
  sb_id :: string
  sb_day :: string
  sb_committed :: int

record spend_attempt =
  sa_id :: ident
  sa_workspace :: ident
  sa_operation :: ident
  sa_provider :: string
  sa_day :: string
  sa_reserved :: int
  sa_charged :: int
  sa_buckets :: "string list"
  sa_status :: string
  sa_http :: "int option"
  sa_settled :: "millis option"

record spend_db =
  sp_buckets :: "spend_bucket list"
  sp_attempts :: "spend_attempt list"

record spend_scope =
  sc_workspace :: ident
  sc_operation :: ident

datatype provider_error =
    Provider_Budget_Error
  | Managed_Worker_Error string
  | Managed_Capacity_Error string
  | Spend_Row_Missing
  | Plain_Error string

definition spend_cap :: int where
  "spend_cap = 1000000000000"

definition configured_limit :: "env \<Rightarrow> string \<Rightarrow> provider_error + int" where
  "configured_limit env name =
     (if \<not> truthy (env name) \<and> \<not> env_is env ''MANAGED_HOSTING'' ''true'' then Inr spend_cap
      else case env name of
          None \<Rightarrow> Inl Provider_Budget_Error
        | Some v \<Rightarrow>
            if v = [] \<or> \<not> all_digits v \<or> spend_cap < int (digits_value v) then Inl Provider_Budget_Error
            else Inr (int (digits_value v)))"

definition global_bucket :: "string \<Rightarrow> string" where
  "global_bucket day = ''global:'' @ day"

definition workspace_bucket :: "ident \<Rightarrow> string \<Rightarrow> string" where
  "workspace_bucket ws day = ''workspace:'' @ ws @ '':'' @ day"

definition trial_bucket :: "string \<Rightarrow> string" where
  "trial_bucket day = ''trial:'' @ day"

text \<open>The buckets a spend is checked against, with the variable that limits each.\<close>

definition spend_checks :: "ident \<Rightarrow> bool \<Rightarrow> string \<Rightarrow> (string \<times> string) list" where
  "spend_checks ws trial day =
     [(global_bucket day, ''MANAGED_DAILY_SPEND_MICROS''),
      (workspace_bucket ws day, ''MANAGED_WORKSPACE_DAILY_SPEND_MICROS'')] @
     (if trial then [(trial_bucket day, ''MANAGED_TRIAL_DAILY_SPEND_MICROS'')] else [])"

definition committed :: "string \<Rightarrow> spend_bucket list \<Rightarrow> int" where
  "committed b rows = (case find_row (\<lambda>r. sb_id r = b) rows of Some r \<Rightarrow> sb_committed r | None \<Rightarrow> 0)"

fun admission_loop :: "env \<Rightarrow> (string \<times> string) list \<Rightarrow> spend_bucket list \<Rightarrow> provider_error option" where
  "admission_loop env [] rows = None"
| "admission_loop env ((b, name) # checks) rows =
     (case configured_limit env name of
        Inl e \<Rightarrow> Some e
      | Inr limit \<Rightarrow>
          if limit \<le> committed b rows then Some Provider_Budget_Error
          else admission_loop env checks rows)"

definition assert_provider_admission ::
  "env \<Rightarrow> millis \<Rightarrow> ident \<Rightarrow> string \<Rightarrow> spend_db \<Rightarrow> provider_error option" where
  "assert_provider_admission env now ws plan db =
     admission_loop env (spend_checks ws (plan = ''hosted_trial'') (iso_day now)) (sp_buckets db)"

subsection \<open>Reserving\<close>

text \<open>\<open>upsert({ where: { id }, create: { id, day }, update: {} })\<close>.\<close>

definition upsert_bucket :: "string \<Rightarrow> string \<Rightarrow> spend_bucket list \<Rightarrow> spend_bucket list" where
  "upsert_bucket b day rows =
     (case find_row (\<lambda>r. sb_id r = b) rows of
        Some r \<Rightarrow> rows
      | None \<Rightarrow> rows @ [\<lparr>sb_id = b, sb_day = day, sb_committed = 0\<rparr>])"

text \<open>The conditional increment, the atomic admission point; \<open>None\<close> when no row was updated.\<close>

definition claim_bucket :: "string \<Rightarrow> int \<Rightarrow> int \<Rightarrow> spend_bucket list \<Rightarrow> spend_bucket list option" where
  "claim_bucket b limit amount rows =
     (let hit = (\<lambda>r. sb_id r = b \<and> sb_committed r \<le> limit - amount) in
      if count_rows hit rows = 1
      then Some (update_rows hit (\<lambda>r. r\<lparr>sb_committed := sb_committed r + amount\<rparr>) rows)
      else None)"

fun claim_buckets ::
  "string \<Rightarrow> int \<Rightarrow> (string \<times> int) list \<Rightarrow> spend_bucket list \<Rightarrow> spend_bucket list option" where
  "claim_buckets day amount [] rows = Some rows"
| "claim_buckets day amount ((b, limit) # bs) rows =
     (case claim_bucket b limit amount (upsert_bucket b day rows) of
        None \<Rightarrow> None
      | Some rows' \<Rightarrow> claim_buckets day amount bs rows')"

fun limits_of :: "env \<Rightarrow> (string \<times> string) list \<Rightarrow> provider_error + (string \<times> int) list" where
  "limits_of env [] = Inr []"
| "limits_of env ((b, name) # checks) =
     (case configured_limit env name of
        Inl e \<Rightarrow> Inl e
      | Inr l \<Rightarrow> (case limits_of env checks of Inl e \<Rightarrow> Inl e | Inr ls \<Rightarrow> Inr ((b, l) # ls)))"

fun first_guard_error :: "provider_error option list \<Rightarrow> provider_error option" where
  "first_guard_error [] = None"
| "first_guard_error (Some e # gs) = Some e"
| "first_guard_error (None # gs) = first_guard_error gs"

definition reserve_spend_tx ::
  "env \<Rightarrow> millis \<Rightarrow> ident \<Rightarrow> spend_scope \<Rightarrow> string \<Rightarrow> int \<Rightarrow> subscription list \<Rightarrow> spend_db
   \<Rightarrow> provider_error + ident \<times> spend_db" where
  "reserve_spend_tx env now new_id scope provider amount subs db =
     (let day = iso_day now;
          sub = find_row (\<lambda>s. sub_workspace s = sc_workspace scope) subs;
          trial = (case sub of Some s \<Rightarrow> sub_plan s = ''hosted_trial'' | None \<Rightarrow> False)
      in case limits_of env (spend_checks (sc_workspace scope) trial day) of
           Inl e \<Rightarrow> Inl e
         | Inr limits \<Rightarrow>
             (let buckets = sort_key fst limits in
              case claim_buckets day amount buckets (sp_buckets db) of
                None \<Rightarrow> Inl Provider_Budget_Error
              | Some rows \<Rightarrow>
                  Inr (new_id,
                    \<lparr> sp_buckets = rows,
                      sp_attempts = sp_attempts db @
                        [\<lparr>sa_id = new_id, sa_workspace = sc_workspace scope,
                          sa_operation = sc_operation scope, sa_provider = provider, sa_day = day,
                          sa_reserved = amount, sa_charged = amount, sa_buckets = map fst buckets,
                          sa_status = ''reserved'', sa_http = None, sa_settled = None\<rparr>] \<rparr>)))"

definition reserve_provider_attempt ::
  "env \<Rightarrow> millis \<Rightarrow> ident \<Rightarrow> spend_scope option \<Rightarrow> provider_error option list \<Rightarrow> string \<Rightarrow> js_number
   \<Rightarrow> subscription list \<Rightarrow> spend_db \<Rightarrow> provider_error + ident option \<times> spend_db" where
  "reserve_provider_attempt env now new_id scope guards provider estimated subs db =
     (case scope of
        None \<Rightarrow>
          if \<not> env_is env ''NODE_ENV'' ''test'' \<and> env_is env ''MANAGED_HOSTING'' ''true''
          then Inl Provider_Budget_Error else Inr (None, db)
      | Some sc \<Rightarrow>
          (case estimated of
             JsNum q \<Rightarrow>
               if \<not> is_safe_integer estimated \<or> q < 1 then Inl Provider_Budget_Error
               else (case first_guard_error guards of
                   Some e \<Rightarrow> Inl e
                 | None \<Rightarrow>
                     (case reserve_spend_tx env now new_id sc provider \<lfloor>q\<rfloor> subs db of
                        Inl e \<Rightarrow> Inl e
                      | Inr (aid, db') \<Rightarrow> Inr (Some aid, db')))
           | _ \<Rightarrow> Inl Provider_Budget_Error))"

subsection \<open>Settling\<close>

definition reported_micros :: "js_number option \<Rightarrow> int option" where
  "reported_micros actual =
     (case actual of
        Some (JsNum q) \<Rightarrow> if is_safe_integer (JsNum q) \<and> 0 \<le> q then Some \<lfloor>q\<rfloor> else None
      | _ \<Rightarrow> None)"

text \<open>\<open>update\<close> of a row that must exist.\<close>

definition add_committed :: "string \<Rightarrow> int \<Rightarrow> spend_bucket list \<Rightarrow> spend_bucket list option" where
  "add_committed b delta rows =
     (if find_row (\<lambda>r. sb_id r = b) rows = None then None
      else Some (update_rows (\<lambda>r. sb_id r = b) (\<lambda>r. r\<lparr>sb_committed := sb_committed r + delta\<rparr>) rows))"

fun add_all_committed :: "string list \<Rightarrow> int \<Rightarrow> spend_bucket list \<Rightarrow> spend_bucket list option" where
  "add_all_committed [] delta rows = Some rows"
| "add_all_committed (b # bs) delta rows =
     (case add_committed b delta rows of
        None \<Rightarrow> None | Some rows' \<Rightarrow> add_all_committed bs delta rows')"

definition settle_provider_attempt ::
  "millis \<Rightarrow> ident option \<Rightarrow> js_number option \<Rightarrow> int option \<Rightarrow> spend_db \<Rightarrow> provider_error + spend_db" where
  "settle_provider_attempt now attempt_id actual http db =
     (case attempt_id of
        None \<Rightarrow> Inr db
      | Some aid \<Rightarrow>
          if aid = [] then Inr db
          else (case find_row (\<lambda>a. sa_id a = aid) (sp_attempts db) of
              None \<Rightarrow> Inr db
            | Some a \<Rightarrow>
                if sa_settled a \<noteq> None then Inr db
                else
                  (let known = reported_micros actual;
                       charged = (case known of Some n \<Rightarrow> n | None \<Rightarrow> sa_reserved a)
                   in case add_all_committed (sort (sa_buckets a)) (charged - sa_charged a) (sp_buckets db) of
                        None \<Rightarrow> Inl Spend_Row_Missing
                      | Some rows \<Rightarrow>
                          Inr \<lparr> sp_buckets = rows,
                            sp_attempts = update_rows (\<lambda>r. sa_id r = aid)
                              (\<lambda>r. r\<lparr>sa_charged := charged,
                                    sa_status := (if known \<noteq> None then ''reported'' else ''ambiguous''),
                                    sa_http := http, sa_settled := Some now\<rparr>)
                              (sp_attempts db) \<rparr>)))"

subsection \<open>Trial grants\<close>

record grant_day =
  gd_day :: string
  gd_grants :: int

definition reserve_trial_grant :: "env \<Rightarrow> millis \<Rightarrow> grant_day list \<Rightarrow> grant_day list option" where
  "reserve_trial_grant env now rows =
     (let v = env ''MANAGED_TRIAL_DAILY_GRANTS'' in
      if \<not> truthy v \<and> \<not> env_is env ''MANAGED_HOSTING'' ''true'' then Some rows
      else case v of
          None \<Rightarrow> None
        | Some s \<Rightarrow>
            if s = [] \<or> \<not> all_digits s \<or> 100000 < digits_value s then None
            else
              (let day = iso_day now;
                   rows1 = (if find_row (\<lambda>r. gd_day r = day) rows = None
                            then rows @ [\<lparr>gd_day = day, gd_grants = 0\<rparr>] else rows);
                   hit = (\<lambda>r. gd_day r = day \<and> gd_grants r < int (digits_value s))
               in if count_rows hit rows1 = 0 then None
                  else Some (update_rows hit (\<lambda>r. r\<lparr>gd_grants := gd_grants r + 1\<rparr>) rows1)))"

subsection \<open>Buckets\<close>

lemma committed_upsert [simp]: "committed c (upsert_bucket b day rows) = committed c rows"
  by (cases "find_row (\<lambda>r. sb_id r = b) rows")
    (auto simp: committed_def upsert_bucket_def find_row_append split: option.splits)

lemma unique_upsert: "unique_on sb_id rows \<Longrightarrow> unique_on sb_id (upsert_bucket b day rows)"
  by (auto simp: upsert_bucket_def unique_on_append find_row_None_iff split: option.splits)

lemma ids_upsert: "sb_id ` set (upsert_bucket b day rows) = insert b (sb_id ` set rows)"
  by (auto simp: upsert_bucket_def find_row_None_iff split: option.splits dest: find_row_SomeD)

lemma committed_update:
  "b \<in> sb_id ` set rows \<Longrightarrow>
   committed c (update_rows (\<lambda>r. sb_id r = b) (\<lambda>r. r\<lparr>sb_committed := sb_committed r + n\<rparr>) rows) =
   committed c rows + (if c = b then n else 0)"
proof -
  assume "b \<in> sb_id ` set rows"
  then have "find_row (\<lambda>r. sb_id r = b) rows \<noteq> None" by (auto simp: find_row_None_iff)
  then show ?thesis
    by (auto simp: committed_def find_row_update_key split: option.splits)
qed

lemma claim_bucket_Some:
  assumes u: "unique_on sb_id rows" and c: "claim_bucket b limit n rows = Some rows'"
  shows "rows' = update_rows (\<lambda>r. sb_id r = b) (\<lambda>r. r\<lparr>sb_committed := sb_committed r + n\<rparr>) rows"
    and "b \<in> sb_id ` set rows" and "committed b rows + n \<le> limit"
proof -
  let ?hit = "\<lambda>r. sb_id r = b \<and> sb_committed r \<le> limit - n"
  from c have one: "count_rows ?hit rows = 1"
    and r': "rows' = update_rows ?hit (\<lambda>r. r\<lparr>sb_committed := sb_committed r + n\<rparr>) rows"
    by (auto simp: claim_bucket_def Let_def split: if_splits)
  from one obtain r where r: "r \<in> set rows" "?hit r"
    using count_rows_pos_iff [of ?hit rows] by auto
  have only: "s = r" if "s \<in> set rows" "sb_id s = b" for s
    using unique_onD [OF u that(1) r(1)] that(2) r(2) by simp
  show "rows' = update_rows (\<lambda>r. sb_id r = b) (\<lambda>r. r\<lparr>sb_committed := sb_committed r + n\<rparr>) rows"
    unfolding r' by (rule update_rows_cong) (use only r in auto)
  show "b \<in> sb_id ` set rows" using r by auto
  have "find_row (\<lambda>x. sb_id x = b) rows = Some r"
    using find_row_key_iff [OF u] r by auto
  then show "committed b rows + n \<le> limit" using r by (simp add: committed_def)
qed

lemma unique_add: "unique_on sb_id (update_rows p (\<lambda>r. r\<lparr>sb_committed := sb_committed r + n\<rparr>) rows) =
    unique_on sb_id rows"
  by (rule unique_on_update) simp

lemma ids_add: "sb_id ` set (update_rows p (\<lambda>r. r\<lparr>sb_committed := sb_committed r + n\<rparr>) rows) = sb_id ` set rows"
  by (rule keys_update_rows) simp

lemma claim_buckets_Some:
  "unique_on sb_id rows \<Longrightarrow> claim_buckets day n bs rows = Some rows' \<Longrightarrow> distinct (map fst bs) \<Longrightarrow>
    unique_on sb_id rows' \<and> sb_id ` set rows' = sb_id ` set rows \<union> fst ` set bs \<and>
    (\<forall>c. committed c rows' = committed c rows + (if c \<in> fst ` set bs then n else 0)) \<and>
    (\<forall>(b, limit) \<in> set bs. committed b rows' \<le> limit)"
proof (induction bs arbitrary: rows)
  case Nil
  then show ?case by simp
next
  case (Cons bl bs)
  obtain b limit where bl: "bl = (b, limit)" by (cases bl)
  let ?up = "upsert_bucket b day rows"
  from Cons.prems(2) bl obtain rows1 where cl: "claim_bucket b limit n ?up = Some rows1"
    and rest: "claim_buckets day n bs rows1 = Some rows'" by (auto split: option.splits)
  note up = unique_upsert [OF Cons.prems(1), of b day]
  note c = claim_bucket_Some [OF up cl]
  have u1: "unique_on sb_id rows1" using up by (simp add: c(1) unique_add)
  have ids1: "sb_id ` set rows1 = insert b (sb_id ` set rows)" by (simp add: c(1) ids_add ids_upsert)
  have com1: "committed d rows1 = committed d rows + (if d = b then n else 0)" for d
    using committed_update [OF c(2), of d n] by (simp add: c(1))
  have nb: "b \<notin> fst ` set bs" and d: "distinct (map fst bs)" using Cons.prems(3) bl by auto
  note ih = Cons.IH [OF u1 rest d]
  have "committed b rows' = committed b rows1" using ih nb by simp
  then have "committed b rows' \<le> limit" using com1 [of b] c(3) by simp
  with ih ids1 com1 bl nb show ?case by auto
qed

subsection \<open>The ledger balances\<close>

text \<open>
  Every bucket holds exactly what the attempts that name it were charged.
\<close>

definition spend_ok :: "spend_db \<Rightarrow> bool" where
  "spend_ok db \<longleftrightarrow>
     unique_on sb_id (sp_buckets db) \<and> unique_on sa_id (sp_attempts db) \<and>
     (\<forall>a \<in> set (sp_attempts db). distinct (sa_buckets a) \<and> set (sa_buckets a) \<subseteq> sb_id ` set (sp_buckets db)) \<and>
     (\<forall>b. committed b (sp_buckets db) =
        sum_rows sa_charged (\<lambda>a. b \<in> set (sa_buckets a)) (sp_attempts db))"

lemma limits_of_fst: "limits_of env checks = Inr ls \<Longrightarrow> map fst ls = map fst checks"
  by (induction env checks arbitrary: ls rule: limits_of.induct) (auto split: sum.splits)

lemma limits_of_mem:
  "limits_of env checks = Inr ls \<Longrightarrow> (b, l) \<in> set ls \<Longrightarrow>
    \<exists>name. (b, name) \<in> set checks \<and> configured_limit env name = Inr l"
  by (induction env checks arbitrary: ls rule: limits_of.induct) (fastforce split: sum.splits)+

lemma limits_of_covers:
  "limits_of env checks = Inr ls \<Longrightarrow> (b, name) \<in> set checks \<Longrightarrow>
    \<exists>l. (b, l) \<in> set ls \<and> configured_limit env name = Inr l"
  by (induction env checks arbitrary: ls rule: limits_of.induct) (fastforce split: sum.splits)+

lemma bucket_ids_distinct:
  "global_bucket d \<noteq> workspace_bucket ws d'" "global_bucket d \<noteq> trial_bucket d'"
  "workspace_bucket ws d \<noteq> trial_bucket d'" "workspace_bucket ws d \<noteq> global_bucket d'"
  "trial_bucket d \<noteq> workspace_bucket ws d'" "trial_bucket d \<noteq> global_bucket d'"
  "workspace_bucket ws d = workspace_bucket ws' d \<longleftrightarrow> ws = ws'"
  by (simp_all add: global_bucket_def workspace_bucket_def trial_bucket_def)

lemma spend_checks_distinct: "distinct (map fst (spend_checks ws trial day))"
  by (simp add: spend_checks_def bucket_ids_distinct)

lemma reserve_spend_Inr:
  assumes "reserve_spend_tx env now new_id scope provider n subs db = Inr (aid, db')"
    and u: "unique_on sb_id (sp_buckets db)"
  obtains bs trial where "limits_of env (spend_checks (sc_workspace scope) trial (iso_day now)) = Inr bs"
    and "claim_buckets (iso_day now) n (sort_key fst bs) (sp_buckets db) = Some (sp_buckets db')"
    and "distinct (map fst (sort_key fst bs))"
    and "sp_attempts db' = sp_attempts db @
          [\<lparr>sa_id = new_id, sa_workspace = sc_workspace scope, sa_operation = sc_operation scope,
            sa_provider = provider, sa_day = iso_day now, sa_reserved = n, sa_charged = n,
            sa_buckets = map fst (sort_key fst bs), sa_status = ''reserved'', sa_http = None,
            sa_settled = None\<rparr>]"
proof -
  define trial where "trial = (case find_row (\<lambda>s. sub_workspace s = sc_workspace scope) subs of
      Some s \<Rightarrow> sub_plan s = ''hosted_trial'' | None \<Rightarrow> False)"
  from assms(1) obtain bs where bs: "limits_of env (spend_checks (sc_workspace scope) trial (iso_day now)) = Inr bs"
    by (auto simp: reserve_spend_tx_def Let_def trial_def split: sum.splits)
  have "distinct (map fst bs)" using limits_of_fst [OF bs] spend_checks_distinct by metis
  then have "distinct (map fst (sort_key fst bs))" by (simp add: distinct_map)
  moreover from assms(1) have "(case claim_buckets (iso_day now) n (sort_key fst bs) (sp_buckets db) of
      None \<Rightarrow> Inl Provider_Budget_Error
    | Some rows \<Rightarrow> Inr (new_id,
        \<lparr> sp_buckets = rows,
          sp_attempts = sp_attempts db @
            [\<lparr>sa_id = new_id, sa_workspace = sc_workspace scope, sa_operation = sc_operation scope,
              sa_provider = provider, sa_day = iso_day now, sa_reserved = n, sa_charged = n,
              sa_buckets = map fst (sort_key fst bs), sa_status = ''reserved'', sa_http = None,
              sa_settled = None\<rparr>] \<rparr>)) = Inr (aid, db')"
    unfolding reserve_spend_tx_def Let_def trial_def [symmetric] bs by simp
  moreover obtain rows where rows: "claim_buckets (iso_day now) n (sort_key fst bs) (sp_buckets db) = Some rows"
    using calculation(2) by (cases "claim_buckets (iso_day now) n (sort_key fst bs) (sp_buckets db)") simp_all
  ultimately have db': "db' = \<lparr> sp_buckets = rows,
      sp_attempts = sp_attempts db @
        [\<lparr>sa_id = new_id, sa_workspace = sc_workspace scope, sa_operation = sc_operation scope,
          sa_provider = provider, sa_day = iso_day now, sa_reserved = n, sa_charged = n,
          sa_buckets = map fst (sort_key fst bs), sa_status = ''reserved'', sa_http = None,
          sa_settled = None\<rparr>] \<rparr>" by (metis option.case(2) Inr_inject Pair_inject)
  show ?thesis
    by (rule that [OF bs]) (simp_all only: db' rows spend_db.simps \<open>distinct (map fst (sort_key fst bs))\<close>)
qed

lemma spend_ok_reserve:
  assumes ok: "spend_ok db" and fresh: "new_id \<notin> sa_id ` set (sp_attempts db)"
    and r: "reserve_spend_tx env now new_id scope provider n subs db = Inr (aid, db')"
  shows "spend_ok db'"
proof -
  from ok have u: "unique_on sb_id (sp_buckets db)" by (simp add: spend_ok_def)
  from r u obtain bs trial where c: "claim_buckets (iso_day now) n (sort_key fst bs) (sp_buckets db) = Some (sp_buckets db')"
    and d: "distinct (map fst (sort_key fst bs))"
    and a: "sp_attempts db' = sp_attempts db @
          [\<lparr>sa_id = new_id, sa_workspace = sc_workspace scope, sa_operation = sc_operation scope,
            sa_provider = provider, sa_day = iso_day now, sa_reserved = n, sa_charged = n,
            sa_buckets = map fst (sort_key fst bs), sa_status = ''reserved'', sa_http = None,
            sa_settled = None\<rparr>]"
    by (rule reserve_spend_Inr)
  note cl = claim_buckets_Some [OF u c d]
  let ?ids = "map fst (sort_key fst bs)"
  have sub: "set ?ids \<subseteq> sb_id ` set (sp_buckets db')" using cl by auto
  have keep: "sb_id ` set (sp_buckets db) \<subseteq> sb_id ` set (sp_buckets db')" using cl by simp
  have "distinct (sa_buckets x) \<and> set (sa_buckets x) \<subseteq> sb_id ` set (sp_buckets db')"
    if "x \<in> set (sp_attempts db')" for x
  proof (cases "x \<in> set (sp_attempts db)")
    case True
    with ok have "distinct (sa_buckets x) \<and> set (sa_buckets x) \<subseteq> sb_id ` set (sp_buckets db)"
      unfolding spend_ok_def by (elim conjE) (rule bspec)
    with keep show ?thesis by (metis order_trans)
  next
    case False
    with that have "sa_buckets x = ?ids" unfolding a by auto
    with d sub show ?thesis by metis
  qed
  moreover have "committed b (sp_buckets db') = sum_rows sa_charged (\<lambda>x. b \<in> set (sa_buckets x)) (sp_attempts db')" for b
  proof -
    have "committed b (sp_buckets db') = committed b (sp_buckets db) + (if b \<in> fst ` set (sort_key fst bs) then n else 0)"
      using cl by blast
    moreover have "committed b (sp_buckets db) = sum_rows sa_charged (\<lambda>x. b \<in> set (sa_buckets x)) (sp_attempts db)"
      using ok by (simp add: spend_ok_def)
    ultimately show ?thesis unfolding a by simp
  qed
  moreover have "unique_on sa_id (sp_attempts db')"
    using ok fresh unfolding a by (auto simp: spend_ok_def unique_on_append)
  ultimately show ?thesis using cl unfolding spend_ok_def by blast
qed

lemma add_all_committed_Some:
  "distinct bs \<Longrightarrow> add_all_committed bs d rows = Some rows' \<Longrightarrow>
    (unique_on sb_id rows' = unique_on sb_id rows) \<and> sb_id ` set rows' = sb_id ` set rows \<and>
    (\<forall>c. committed c rows' = committed c rows + (if c \<in> set bs then d else 0))"
proof (induction bs arbitrary: rows)
  case Nil
  then show ?case by simp
next
  case (Cons b bs)
  from Cons.prems(2) obtain rows1 where a: "add_committed b d rows = Some rows1"
    and rest: "add_all_committed bs d rows1 = Some rows'" by (auto split: option.splits)
  from a have r1: "rows1 = update_rows (\<lambda>r. sb_id r = b) (\<lambda>r. r\<lparr>sb_committed := sb_committed r + d\<rparr>) rows"
    and "find_row (\<lambda>r. sb_id r = b) rows \<noteq> None" by (auto simp: add_committed_def split: if_splits)
  then have b: "b \<in> sb_id ` set rows" by (auto simp: find_row_None_iff)
  have ih: "(unique_on sb_id rows' = unique_on sb_id rows1) \<and> sb_id ` set rows' = sb_id ` set rows1 \<and>
      (\<forall>c. committed c rows' = committed c rows1 + (if c \<in> set bs then d else 0))"
    using Cons.prems(1) rest by (intro Cons.IH) simp_all
  with Cons.prems(1) show ?case
    by (simp add: r1 unique_add ids_add committed_update [OF b])
qed

lemma add_all_committed_total:
  "set bs \<subseteq> sb_id ` set rows \<Longrightarrow> add_all_committed bs d rows \<noteq> None"
proof (induction bs arbitrary: rows)
  case Nil
  then show ?case by simp
next
  case (Cons b bs)
  then have "find_row (\<lambda>r. sb_id r = b) rows \<noteq> None" by (auto simp: find_row_None_iff)
  then have "add_committed b d rows =
      Some (update_rows (\<lambda>r. sb_id r = b) (\<lambda>r. r\<lparr>sb_committed := sb_committed r + d\<rparr>) rows)"
    by (simp add: add_committed_def)
  with Cons.IH Cons.prems show ?case by (simp add: ids_add)
qed

text \<open>The attempt a settlement would charge, if it is still open.\<close>

definition open_attempt :: "ident option \<Rightarrow> spend_db \<Rightarrow> spend_attempt option" where
  "open_attempt attempt_id db =
     (case attempt_id of
        None \<Rightarrow> None
      | Some aid \<Rightarrow>
          if aid = [] then None
          else (case find_row (\<lambda>a. sa_id a = aid) (sp_attempts db) of
              None \<Rightarrow> None | Some a \<Rightarrow> if sa_settled a \<noteq> None then None else Some a))"

definition settled_row ::
  "millis \<Rightarrow> js_number option \<Rightarrow> int option \<Rightarrow> int \<Rightarrow> spend_attempt \<Rightarrow> spend_attempt" where
  "settled_row now actual http charged r =
     r\<lparr>sa_charged := charged,
       sa_status := (if reported_micros actual \<noteq> None then ''reported'' else ''ambiguous''),
       sa_http := http, sa_settled := Some now\<rparr>"

lemma settled_row_simps [simp]:
  "sa_id (settled_row now actual http n r) = sa_id r"
  "sa_charged (settled_row now actual http n r) = n"
  "sa_buckets (settled_row now actual http n r) = sa_buckets r"
  "sa_settled (settled_row now actual http n r) = Some now"
  by (simp_all add: settled_row_def)

lemma open_attempt_Some:
  "open_attempt attempt_id db = Some a \<Longrightarrow>
    attempt_id = Some (sa_id a) \<and> sa_id a \<noteq> [] \<and> a \<in> set (sp_attempts db) \<and> sa_settled a = None \<and>
    find_row (\<lambda>x. sa_id x = sa_id a) (sp_attempts db) = Some a"
  by (auto simp: open_attempt_def split: option.splits if_splits dest: find_row_SomeD)

lemma settle_closed: "open_attempt attempt_id db = None \<Longrightarrow> settle_provider_attempt now attempt_id actual http db = Inr db"
  by (auto simp: open_attempt_def settle_provider_attempt_def split: option.splits if_splits)

lemma settle_open:
  assumes "open_attempt attempt_id db = Some a"
    and "add_all_committed (sort (sa_buckets a))
      ((case reported_micros actual of Some n \<Rightarrow> n | None \<Rightarrow> sa_reserved a) - sa_charged a) (sp_buckets db) = Some rows"
  shows "settle_provider_attempt now attempt_id actual http db = Inr \<lparr> sp_buckets = rows,
      sp_attempts = update_rows (\<lambda>r. sa_id r = sa_id a)
        (settled_row now actual http (case reported_micros actual of Some n \<Rightarrow> n | None \<Rightarrow> sa_reserved a))
        (sp_attempts db) \<rparr>"
  using open_attempt_Some [OF assms(1)] assms(2)
  by (simp add: settle_provider_attempt_def settled_row_def [abs_def] Let_def)

lemma settle_total:
  assumes ok: "spend_ok db" and o: "open_attempt attempt_id db = Some a"
  obtains rows where "add_all_committed (sort (sa_buckets a)) d (sp_buckets db) = Some rows"
proof -
  have "set (sort (sa_buckets a)) \<subseteq> sb_id ` set (sp_buckets db)"
    using ok open_attempt_Some [OF o] unfolding spend_ok_def by (metis set_sort)
  then have "add_all_committed (sort (sa_buckets a)) d (sp_buckets db) \<noteq> None"
    by (rule add_all_committed_total)
  then show ?thesis using that by blast
qed

lemma sum_rows_settled:
  "unique_on sa_id rows \<Longrightarrow> a \<in> set rows \<Longrightarrow>
   sum_rows sa_charged (\<lambda>x. b \<in> set (sa_buckets x))
     (update_rows (\<lambda>r. sa_id r = sa_id a) (settled_row now actual http n) rows) =
   sum_rows sa_charged (\<lambda>x. b \<in> set (sa_buckets x)) rows + (if b \<in> set (sa_buckets a) then n - sa_charged a else 0)"
proof (induction rows)
  case Nil
  then show ?case by simp
next
  case (Cons x rows)
  show ?case
  proof (cases "x = a")
    case True
    with Cons.prems have "\<And>y. y \<in> set rows \<Longrightarrow> sa_id y \<noteq> sa_id a" by (auto simp: image_iff)
    then have "update_rows (\<lambda>r. sa_id r = sa_id a) (settled_row now actual http n) rows = rows"
      by (rule update_rows_idle)
    with Cons.prems True show ?thesis by simp
  next
    case False
    with Cons.prems have a: "a \<in> set rows" "sa_id x \<noteq> sa_id a" by (auto simp: image_iff)
    with Cons.IH Cons.prems(1) show ?thesis by simp
  qed
qed

lemma spend_ok_settle:
  assumes ok: "spend_ok db" and s: "settle_provider_attempt now attempt_id actual http db = Inr db'"
  shows "spend_ok db'"
proof (cases "open_attempt attempt_id db")
  case None
  with s ok show ?thesis by (simp add: settle_closed)
next
  case (Some a)
  define n where "n = (case reported_micros actual of Some n \<Rightarrow> n | None \<Rightarrow> sa_reserved a)"
  obtain rows where add: "add_all_committed (sort (sa_buckets a)) (n - sa_charged a) (sp_buckets db) = Some rows"
    by (rule settle_total [OF ok Some])
  have db': "db' = \<lparr> sp_buckets = rows, sp_attempts =
      update_rows (\<lambda>r. sa_id r = sa_id a) (settled_row now actual http n) (sp_attempts db) \<rparr>"
    using settle_open [OF Some add [unfolded n_def], of now http] s by (simp add: n_def)
  note a = open_attempt_Some [OF Some]
  have "distinct (sort (sa_buckets a))" using ok a by (simp add: spend_ok_def)
  note add' = add_all_committed_Some [OF this add]
  have u: "unique_on sa_id (sp_attempts db)" using ok by (simp add: spend_ok_def)
  have "a \<in> set (sp_attempts db)" using a by blast
  note sums = sum_rows_settled [OF u this]
  have "unique_on sa_id (update_rows (\<lambda>r. sa_id r = sa_id a) (settled_row now actual http n) (sp_attempts db))"
    using u by (subst unique_on_update) simp_all
  moreover have "\<forall>x \<in> set (update_rows (\<lambda>r. sa_id r = sa_id a) (settled_row now actual http n) (sp_attempts db)).
      distinct (sa_buckets x) \<and> set (sa_buckets x) \<subseteq> sb_id ` set rows"
    using ok add' unfolding spend_ok_def set_update_rows ball_simps by simp
  ultimately show ?thesis using ok add' by (simp add: spend_ok_def db' sums)
qed

lemma settle_twice:
  assumes ok: "spend_ok db" and s: "settle_provider_attempt now attempt_id actual http db = Inr db'"
  shows "settle_provider_attempt now' attempt_id actual' http' db' = Inr db'"
proof (cases "open_attempt attempt_id db")
  case None
  with s show ?thesis by (simp add: settle_closed)
next
  case (Some a)
  obtain rows where add: "add_all_committed (sort (sa_buckets a))
      ((case reported_micros actual of Some n \<Rightarrow> n | None \<Rightarrow> sa_reserved a) - sa_charged a) (sp_buckets db) = Some rows"
    by (rule settle_total [OF ok Some])
  have "open_attempt attempt_id db' = None"
    using settle_open [OF Some add, of now http] s open_attempt_Some [OF Some]
    by (auto simp: open_attempt_def find_row_update_key)
  then show ?thesis by (rule settle_closed)
qed

subsection \<open>Daily ceilings\<close>

record spend_op =
  so_now :: millis
  so_id :: ident
  so_scope :: spend_scope
  so_provider :: string
  so_amount :: int
  so_subs :: "subscription list"

definition admit_spend :: "env \<Rightarrow> spend_op \<Rightarrow> spend_db \<Rightarrow> spend_db option" where
  "admit_spend env op db =
     (case reserve_spend_tx env (so_now op) (so_id op) (so_scope op) (so_provider op) (so_amount op) (so_subs op) db of
        Inl _ \<Rightarrow> None | Inr (_, db') \<Rightarrow> Some db')"

lemma admit_spend_effect:
  assumes u: "unique_on sb_id (sp_buckets db)" and a: "admit_spend env op db = Some db'"
  obtains trial where "unique_on sb_id (sp_buckets db')"
    and "\<And>c. committed c (sp_buckets db') = committed c (sp_buckets db) +
      (if c \<in> fst ` set (spend_checks (sc_workspace (so_scope op)) trial (iso_day (so_now op))) then so_amount op else 0)"
    and "\<And>b name. (b, name) \<in> set (spend_checks (sc_workspace (so_scope op)) trial (iso_day (so_now op))) \<Longrightarrow>
      \<exists>l. configured_limit env name = Inr l \<and> committed b (sp_buckets db') \<le> l"
proof -
  from a obtain aid where r: "reserve_spend_tx env (so_now op) (so_id op) (so_scope op) (so_provider op)
      (so_amount op) (so_subs op) db = Inr (aid, db')"
    by (auto simp: admit_spend_def split: sum.splits)
  from r u obtain bs trial where l: "limits_of env (spend_checks (sc_workspace (so_scope op)) trial (iso_day (so_now op))) = Inr bs"
    and c: "claim_buckets (iso_day (so_now op)) (so_amount op) (sort_key fst bs) (sp_buckets db) = Some (sp_buckets db')"
    and d: "distinct (map fst (sort_key fst bs))"
    by (rule reserve_spend_Inr)
  let ?checks = "spend_checks (sc_workspace (so_scope op)) trial (iso_day (so_now op))"
  note cl = claim_buckets_Some [OF u c d]
  have names: "fst ` set (sort_key fst bs) = fst ` set ?checks"
    using limits_of_fst [OF l] by (metis list.set_map set_sort)
  show ?thesis
  proof (rule that)
    show "unique_on sb_id (sp_buckets db')" using cl by blast
    show "committed c (sp_buckets db') = committed c (sp_buckets db) +
      (if c \<in> fst ` set ?checks then so_amount op else 0)" for c using cl names by simp
    show "\<exists>l. configured_limit env name = Inr l \<and> committed b (sp_buckets db') \<le> l"
      if check: "(b, name) \<in> set ?checks" for b name
    proof -
      obtain lim where lim: "(b, lim) \<in> set bs" "configured_limit env name = Inr lim"
        using limits_of_covers [OF l check] by blast
      have "\<forall>(b, limit) \<in> set (sort_key fst bs). committed b (sp_buckets db') \<le> limit" using cl by blast
      with lim show ?thesis by auto
    qed
  qed
qed

definition limit_or_zero :: "env \<Rightarrow> string \<Rightarrow> int" where
  "limit_or_zero env name = (case configured_limit env name of Inr l \<Rightarrow> l | Inl _ \<Rightarrow> 0)"

definition spend_op_on :: "string \<Rightarrow> spend_op \<Rightarrow> bool" where
  "spend_op_on day op \<longleftrightarrow> iso_day (so_now op) = day"

interpretation global_spend: bounded_budget
  "admit_spend env" so_amount "\<lambda>db. committed (global_bucket day) (sp_buckets db)"
  "limit_or_zero env ''MANAGED_DAILY_SPEND_MICROS''" "\<lambda>db. unique_on sb_id (sp_buckets db)" "spend_op_on day"
  for env day
proof unfold_locales
  fix s o' s'
  assume u: "unique_on sb_id (sp_buckets s)" and d: "spend_op_on day o'" and a: "admit_spend env o' s = Some s'"
  from u a obtain trial where e: "unique_on sb_id (sp_buckets s')"
    "\<And>c. committed c (sp_buckets s') = committed c (sp_buckets s) +
      (if c \<in> fst ` set (spend_checks (sc_workspace (so_scope o')) trial (iso_day (so_now o'))) then so_amount o' else 0)"
    "\<And>b name. (b, name) \<in> set (spend_checks (sc_workspace (so_scope o')) trial (iso_day (so_now o'))) \<Longrightarrow>
      \<exists>l. configured_limit env name = Inr l \<and> committed b (sp_buckets s') \<le> l"
    by (rule admit_spend_effect) blast
  show "unique_on sb_id (sp_buckets s')" by (rule e(1))
  show "committed (global_bucket day) (sp_buckets s') = committed (global_bucket day) (sp_buckets s) + so_amount o'"
    using e(2) [of "global_bucket day"] d by (simp add: spend_checks_def spend_op_on_def)
  show "so_amount o' = 0 \<or> committed (global_bucket day) (sp_buckets s') \<le> limit_or_zero env ''MANAGED_DAILY_SPEND_MICROS''"
    using e(3) [of "global_bucket day" "''MANAGED_DAILY_SPEND_MICROS''"] d
    by (auto simp: spend_checks_def spend_op_on_def limit_or_zero_def)
qed

definition cost_for :: "ident \<Rightarrow> spend_op \<Rightarrow> int" where
  "cost_for ws op = (if sc_workspace (so_scope op) = ws then so_amount op else 0)"

interpretation workspace_spend: bounded_budget
  "admit_spend env" "cost_for ws" "\<lambda>db. committed (workspace_bucket ws day) (sp_buckets db)"
  "limit_or_zero env ''MANAGED_WORKSPACE_DAILY_SPEND_MICROS''" "\<lambda>db. unique_on sb_id (sp_buckets db)" "spend_op_on day"
  for env ws day
proof unfold_locales
  fix s o' s'
  assume u: "unique_on sb_id (sp_buckets s)" and d: "spend_op_on day o'" and a: "admit_spend env o' s = Some s'"
  from u a obtain trial where e: "unique_on sb_id (sp_buckets s')"
    "\<And>c. committed c (sp_buckets s') = committed c (sp_buckets s) +
      (if c \<in> fst ` set (spend_checks (sc_workspace (so_scope o')) trial (iso_day (so_now o'))) then so_amount o' else 0)"
    "\<And>b name. (b, name) \<in> set (spend_checks (sc_workspace (so_scope o')) trial (iso_day (so_now o'))) \<Longrightarrow>
      \<exists>l. configured_limit env name = Inr l \<and> committed b (sp_buckets s') \<le> l"
    by (rule admit_spend_effect) blast
  show "unique_on sb_id (sp_buckets s')" by (rule e(1))
  show "committed (workspace_bucket ws day) (sp_buckets s') = committed (workspace_bucket ws day) (sp_buckets s) + cost_for ws o'"
    using e(2) [of "workspace_bucket ws day"] d
    by (auto simp: spend_checks_def spend_op_on_def cost_for_def bucket_ids_distinct)
  show "cost_for ws o' = 0 \<or>
      committed (workspace_bucket ws day) (sp_buckets s') \<le> limit_or_zero env ''MANAGED_WORKSPACE_DAILY_SPEND_MICROS''"
    using e(3) [of "workspace_bucket ws day" "''MANAGED_WORKSPACE_DAILY_SPEND_MICROS''"] d
    by (auto simp: spend_checks_def spend_op_on_def limit_or_zero_def cost_for_def)
qed

text \<open>A sequence of reservations; a refused one changes nothing.\<close>

fun spend_run :: "env \<Rightarrow> spend_op list \<Rightarrow> spend_db \<Rightarrow> spend_db" where
  "spend_run env [] db = db"
| "spend_run env (op # ops) db =
     (case admit_spend env op db of
        None \<Rightarrow> spend_run env ops db | Some db' \<Rightarrow> spend_run env ops db')"

lemma spend_run_locale: "spend_run env ops db = fold (global_spend.admit_or_keep env) ops db"
  by (induction ops arbitrary: db) (simp_all add: global_spend.admit_or_keep_def split: option.split)

lemma spend_run_workspace: "spend_run env ops db = fold (workspace_spend.admit_or_keep env) ops db"
  by (induction ops arbitrary: db) (simp_all add: workspace_spend.admit_or_keep_def split: option.split)

subsection \<open>Properties\<close>

text \<open>
  C9. Hosted AI never commits more in a day than the configured ceilings, globally and for
  each workspace, whatever sequence of reservations the workers make that day.
\<close>

theorem daily_spend_within_ceilings:
  assumes "unique_on sb_id (sp_buckets db)"
    and "list_all (\<lambda>op. iso_day (so_now op) = day) ops"
    and "configured_limit env ''MANAGED_DAILY_SPEND_MICROS'' = Inr g"
    and "configured_limit env ''MANAGED_WORKSPACE_DAILY_SPEND_MICROS'' = Inr w"
    and "committed (global_bucket day) (sp_buckets db) \<le> g"
    and "committed (workspace_bucket ws day) (sp_buckets db) \<le> w"
  shows "committed (global_bucket day) (sp_buckets (spend_run env ops db)) \<le> g \<and>
    committed (workspace_bucket ws day) (sp_buckets (spend_run env ops db)) \<le> w"
  using global_spend.run_within [of db day ops env] workspace_spend.run_within [of db day ops ws env] assms
  by (simp add: spend_run_locale [symmetric] spend_run_workspace [symmetric] limit_or_zero_def
      spend_op_on_def [abs_def])

definition sample_env :: env where
  "sample_env name =
     (if name = ''MANAGED_HOSTING'' then Some ''true''
      else if name = ''MANAGED_DAILY_SPEND_MICROS'' then Some ''100''
      else if name = ''MANAGED_WORKSPACE_DAILY_SPEND_MICROS'' then Some ''60'' else None)"

definition sample_spend :: "ident \<Rightarrow> ident \<Rightarrow> int \<Rightarrow> spend_op" where
  "sample_spend aid ws n =
     \<lparr>so_now = 1700000000000, so_id = aid, so_scope = \<lparr>sc_workspace = ws, sc_operation = ''job''\<rparr>,
       so_provider = ''Groq transcription'', so_amount = n, so_subs = []\<rparr>"

definition empty_spend :: spend_db where
  "empty_spend = \<lparr>sp_buckets = [], sp_attempts = []\<rparr>"

theorem daily_spend_within_ceilings_witness:
  "committed (global_bucket ''2023-11-14'') (sp_buckets (spend_run sample_env
      [sample_spend ''a'' ''w1'' 50, sample_spend ''b'' ''w1'' 20] empty_spend)) = 50 \<and>
   committed (global_bucket ''2023-11-14'') (sp_buckets (spend_run sample_env
      [sample_spend ''a'' ''w1'' 50, sample_spend ''b'' ''w1'' 20] empty_spend)) \<le> 100 \<and>
   committed (workspace_bucket ''w1'' ''2023-11-14'') (sp_buckets (spend_run sample_env
      [sample_spend ''a'' ''w1'' 50, sample_spend ''b'' ''w1'' 20] empty_spend)) \<le> 60"
proof -
  have d: "iso_day 1700000000000 = ''2023-11-14''" by code_simp
  have "committed (global_bucket ''2023-11-14'') (sp_buckets (spend_run sample_env
      [sample_spend ''a'' ''w1'' 50, sample_spend ''b'' ''w1'' 20] empty_spend)) = 50"
    by code_simp
  moreover have "list_all (\<lambda>op. iso_day (so_now op) = ''2023-11-14'')
      [sample_spend ''a'' ''w1'' 50, sample_spend ''b'' ''w1'' 20]" by (simp add: sample_spend_def d)
  moreover have "configured_limit sample_env ''MANAGED_DAILY_SPEND_MICROS'' = Inr 100" by code_simp
  moreover have "configured_limit sample_env ''MANAGED_WORKSPACE_DAILY_SPEND_MICROS'' = Inr 60" by code_simp
  moreover have "unique_on sb_id (sp_buckets empty_spend)" by (simp add: empty_spend_def)
  moreover have "committed (global_bucket ''2023-11-14'') (sp_buckets empty_spend) \<le> 100" by code_simp
  moreover have "committed (workspace_bucket ''w1'' ''2023-11-14'') (sp_buckets empty_spend) \<le> 60" by code_simp
  ultimately show ?thesis
    using daily_spend_within_ceilings [of empty_spend "''2023-11-14''"
        "[sample_spend ''a'' ''w1'' 50, sample_spend ''b'' ''w1'' 20]"
        sample_env 100 60 "''w1''"]
    by blast
qed

text \<open>
  C10. The spend ledger balances: reserving with a fresh attempt id and settling keep, for
  every bucket, the committed amount equal to the charges of the attempts that name it; and a
  settled attempt is never charged again.
\<close>

theorem spend_ledger_balanced:
  assumes "spend_ok db"
  shows "(\<forall>env now new_id scope guards provider estimated subs r db'.
      new_id \<notin> sa_id ` set (sp_attempts db) \<longrightarrow>
      reserve_provider_attempt env now new_id scope guards provider estimated subs db = Inr (r, db') \<longrightarrow> spend_ok db') \<and>
    (\<forall>now attempt_id actual http. \<exists>db'. settle_provider_attempt now attempt_id actual http db = Inr db' \<and> spend_ok db' \<and>
      (\<forall>now' actual' http'. settle_provider_attempt now' attempt_id actual' http' db' = Inr db'))"
proof (intro conjI allI impI)
  fix env now new_id scope guards provider estimated subs r db'
  assume "new_id \<notin> sa_id ` set (sp_attempts db)"
    and "reserve_provider_attempt env now new_id scope guards provider estimated subs db = Inr (r, db')"
  with assms show "spend_ok db'"
    by (auto simp: reserve_provider_attempt_def intro: spend_ok_reserve
        split: option.splits if_splits js_number.splits sum.splits)
next
  fix now attempt_id actual http
  obtain db' where s: "settle_provider_attempt now attempt_id actual http db = Inr db'"
  proof (cases "open_attempt attempt_id db")
    case None
    then show ?thesis by (intro that) (rule settle_closed)
  next
    case (Some a)
    obtain rows where "add_all_committed (sort (sa_buckets a))
        ((case reported_micros actual of Some n \<Rightarrow> n | None \<Rightarrow> sa_reserved a) - sa_charged a) (sp_buckets db) = Some rows"
      by (rule settle_total [OF assms Some])
    from settle_open [OF Some this] show ?thesis by (rule that)
  qed
  then show "\<exists>db'. settle_provider_attempt now attempt_id actual http db = Inr db' \<and> spend_ok db' \<and>
      (\<forall>now' actual' http'. settle_provider_attempt now' attempt_id actual' http' db' = Inr db')"
    using spend_ok_settle [OF assms s] settle_twice [OF assms s] by blast
qed

theorem spend_ledger_balanced_witness:
  "\<exists>db'. settle_provider_attempt 5 (Some ''a'') (Some (JsNum 30)) (Some 200)
      (spend_run sample_env [sample_spend ''a'' ''w1'' 50] empty_spend) = Inr db' \<and> spend_ok db'"
proof -
  have e: "spend_ok empty_spend"
    by (simp add: spend_ok_def empty_spend_def committed_def)
  have r: "reserve_provider_attempt sample_env 1700000000000 ''a''
      (Some \<lparr>sc_workspace = ''w1'', sc_operation = ''job''\<rparr>) [] ''Groq transcription'' (JsNum 50) [] empty_spend =
    Inr (Some ''a'', spend_run sample_env [sample_spend ''a'' ''w1'' 50] empty_spend)" by code_simp
  have "spend_ok (spend_run sample_env [sample_spend ''a'' ''w1'' 50] empty_spend)"
    using spend_ledger_balanced [OF e] r by (fastforce simp: empty_spend_def)
  from conjunct2 [OF spend_ledger_balanced [OF this]] show ?thesis by blast
qed

end
