(* ===== verification/Worker_Slots.thy ===== *)
theory Worker_Slots
  imports Provider_Spend
begin

text \<open>
  Maintenance cursors and leases: \<^verbatim>\<open>webapp/src/lib/maintenanceCursor.ts\<close>. A lease is a row
  with a token and an expiry; it is taken by a conditional update and renewed or given back
  only under the same token. The heartbeat timer of the source is the operation
  \<open>renew_lease\<close>; the work done under a lease is an argument.
\<close>

subsection \<open>Rows and leases\<close>

record cursor_row =
  mc_id :: string
  mc_value :: "string option"
  mc_token :: "ident option"
  mc_until :: "millis option"

definition lease_ms :: millis where
  "lease_ms = 5 * 60000"

definition new_cursor :: "string \<Rightarrow> cursor_row" where
  "new_cursor cid = \<lparr>mc_id = cid, mc_value = None, mc_token = None, mc_until = None\<rparr>"

definition upsert_cursor :: "string \<Rightarrow> cursor_row list \<Rightarrow> cursor_row list" where
  "upsert_cursor cid rows =
     (if find_row (\<lambda>r. mc_id r = cid) rows = None then rows @ [new_cursor cid] else rows)"

definition lease_free :: "millis \<Rightarrow> cursor_row \<Rightarrow> bool" where
  "lease_free now r \<longleftrightarrow> (case mc_until r of None \<Rightarrow> True | Some u \<Rightarrow> u < now)"

definition take_lease :: "string \<Rightarrow> ident \<Rightarrow> millis \<Rightarrow> cursor_row list \<Rightarrow> cursor_row list option" where
  "take_lease cid token now rows =
     (let free = (\<lambda>r. mc_id r = cid \<and> lease_free now r) in
      if count_rows free rows = 0 then None
      else Some (update_rows free (\<lambda>r. r\<lparr>mc_token := Some token, mc_until := Some (now + lease_ms)\<rparr>) rows))"

definition renew_lease :: "string \<Rightarrow> ident \<Rightarrow> millis \<Rightarrow> cursor_row list \<Rightarrow> cursor_row list" where
  "renew_lease cid token now rows =
     update_rows (\<lambda>r. mc_id r = cid \<and> mc_token r = Some token)
       (\<lambda>r. r\<lparr>mc_until := Some (now + lease_ms)\<rparr>) rows"

definition lease_valid :: "string \<Rightarrow> ident \<Rightarrow> millis \<Rightarrow> cursor_row list \<Rightarrow> bool" where
  "lease_valid cid token now rows \<longleftrightarrow>
     count_rows (\<lambda>r. mc_id r = cid \<and> mc_token r = Some token \<and>
       (case mc_until r of None \<Rightarrow> False | Some u \<Rightarrow> now < u)) rows \<noteq> 0"

definition assert_slot_lease :: "string \<Rightarrow> ident \<Rightarrow> millis \<Rightarrow> cursor_row list \<Rightarrow> provider_error option" where
  "assert_slot_lease cid token now rows =
     (if lease_valid cid token now rows then None
      else Some (Managed_Capacity_Error ''Hosted processing lease was lost''))"

definition release_lease :: "string \<Rightarrow> ident \<Rightarrow> cursor_row list \<Rightarrow> cursor_row list" where
  "release_lease cid token rows =
     update_rows (\<lambda>r. mc_id r = cid \<and> mc_token r = Some token)
       (\<lambda>r. r\<lparr>mc_token := None, mc_until := None\<rparr>) rows"

subsection \<open>Worker slots\<close>

definition worker_concurrency :: "env \<Rightarrow> nat option" where
  "worker_concurrency env =
     (let raw = (case env ''MANAGED_WORKER_CONCURRENCY'' of Some v \<Rightarrow> v | None \<Rightarrow> ''2'') in
      if \<not> all_digits raw \<or> digits_value raw < 1 \<or> 32 < digits_value raw then None
      else Some (digits_value raw))"

definition slot_id :: "nat \<Rightarrow> string" where
  "slot_id i = ''worker-slot:'' @ digits_of i"

text \<open>The loop over the slot indices; \<open>clock i\<close> is the time read at index \<open>i\<close>.\<close>

fun slot_loop ::
  "(nat \<Rightarrow> millis) \<Rightarrow> ident \<Rightarrow> nat list \<Rightarrow> cursor_row list \<Rightarrow> string option \<times> cursor_row list" where
  "slot_loop clock token [] rows = (None, rows)"
| "slot_loop clock token (i # is) rows =
     (let rows1 = upsert_cursor (slot_id i) rows in
      case take_lease (slot_id i) token (clock i) rows1 of
        None \<Rightarrow> slot_loop clock token is rows1
      | Some rows2 \<Rightarrow> (Some (slot_id i), rows2))"

definition with_worker_slot ::
  "env \<Rightarrow> (nat \<Rightarrow> millis) \<Rightarrow> ident
   \<Rightarrow> (string \<Rightarrow> cursor_row list \<Rightarrow> provider_error option \<times> cursor_row list)
   \<Rightarrow> cursor_row list \<Rightarrow> provider_error option \<times> cursor_row list" where
  "with_worker_slot env clock token work rows =
     (case worker_concurrency env of
        None \<Rightarrow> (Some (Plain_Error ''MANAGED_WORKER_CONCURRENCY must be between 1 and 32''), rows)
      | Some n \<Rightarrow>
          (case slot_loop clock token [0..<n] rows of
             (None, rows1) \<Rightarrow> (Some (Managed_Capacity_Error ''Hosted processing capacity is busy''), rows1)
           | (Some cid, rows1) \<Rightarrow>
               (let (result, rows2) = work cid rows1 in (result, release_lease cid token rows2))))"

subsection \<open>Cursors and the cleaner lease\<close>

definition read_maintenance_cursor :: "string \<Rightarrow> cursor_row list \<Rightarrow> string option" where
  "read_maintenance_cursor cid rows =
     (case find_row (\<lambda>r. mc_id r = cid) rows of Some r \<Rightarrow> mc_value r | None \<Rightarrow> None)"

definition write_maintenance_cursor :: "string \<Rightarrow> string option \<Rightarrow> cursor_row list \<Rightarrow> cursor_row list" where
  "write_maintenance_cursor cid v rows =
     (if find_row (\<lambda>r. mc_id r = cid) rows = None then rows @ [(new_cursor cid)\<lparr>mc_value := v\<rparr>]
      else update_rows (\<lambda>r. mc_id r = cid) (\<lambda>r. r\<lparr>mc_value := v\<rparr>) rows)"

definition with_maintenance_lease ::
  "millis \<Rightarrow> ident \<Rightarrow> (cursor_row list \<Rightarrow> cursor_row list) \<Rightarrow> cursor_row list \<Rightarrow> cursor_row list" where
  "with_maintenance_lease now token work rows =
     (let cid = ''cleaner-lease''; rows1 = upsert_cursor cid rows in
      case take_lease cid token now rows1 of
        None \<Rightarrow> rows1
      | Some rows2 \<Rightarrow> release_lease cid token (work rows2))"

subsection \<open>What the others can do to a lease\<close>

text \<open>The operations other workers and the cleaner perform on the table, with their token and time.\<close>

datatype slot_event =
    Ev_Acquire nat millis
  | Ev_Renew string millis
  | Ev_Release string
  | Ev_Clean_Start millis
  | Ev_Write string "string option"

fun slot_event_time :: "slot_event \<Rightarrow> millis option" where
  "slot_event_time (Ev_Acquire n t) = Some t"
| "slot_event_time (Ev_Renew cid t) = Some t"
| "slot_event_time (Ev_Clean_Start t) = Some t"
| "slot_event_time _ = None"

fun slot_event_step :: "ident \<times> slot_event \<Rightarrow> cursor_row list \<Rightarrow> cursor_row list" where
  "slot_event_step (tok, Ev_Acquire n t) rows = snd (slot_loop (\<lambda>_. t) tok [0..<n] rows)"
| "slot_event_step (tok, Ev_Renew cid t) rows = renew_lease cid tok t rows"
| "slot_event_step (tok, Ev_Release cid) rows = release_lease cid tok rows"
| "slot_event_step (tok, Ev_Clean_Start t) rows =
     (case take_lease ''cleaner-lease'' tok t (upsert_cursor ''cleaner-lease'' rows) of
        None \<Rightarrow> rows | Some rows' \<Rightarrow> rows')"
| "slot_event_step (tok, Ev_Write cid v) rows = write_maintenance_cursor cid v rows"

text \<open>\<open>holds cid tok u rows\<close>: the only row \<open>cid\<close> carries the token \<open>tok\<close> until \<open>u\<close>.\<close>

definition holds :: "string \<Rightarrow> ident \<Rightarrow> millis \<Rightarrow> cursor_row list \<Rightarrow> bool" where
  "holds cid tok u rows \<longleftrightarrow>
     (\<exists>r \<in> set rows. mc_id r = cid) \<and>
     (\<forall>r \<in> set rows. mc_id r = cid \<longrightarrow> mc_token r = Some tok \<and> mc_until r = Some u)"

lemma holds_update:
  assumes "holds cid tok u rows" and "\<And>r. mc_id (f r) = mc_id r"
    and "\<And>r. mc_id r = cid \<Longrightarrow> mc_token r = Some tok \<Longrightarrow> mc_until r = Some u \<Longrightarrow> p r \<Longrightarrow>
      mc_token (f r) = Some tok \<and> mc_until (f r) = Some u"
  shows "holds cid tok u (update_rows p f rows)"
proof -
  have "cid \<in> mc_id ` set (update_rows p f rows)"
    using assms(1) keys_update_rows [of mc_id f p rows, OF assms(2)] by (auto simp: holds_def)
  then have "\<exists>r \<in> set (update_rows p f rows). mc_id r = cid" by force
  moreover have "\<forall>r \<in> set (update_rows p f rows). mc_id r = cid \<longrightarrow> mc_token r = Some tok \<and> mc_until r = Some u"
    using assms by (auto simp: holds_def set_update_rows)
  ultimately show ?thesis by (simp add: holds_def)
qed

lemma holds_upsert: "holds cid tok u rows \<Longrightarrow> holds cid tok u (upsert_cursor c rows)"
  by (auto simp: holds_def upsert_cursor_def find_row_None_iff new_cursor_def)

lemma holds_take:
  "holds cid tok u rows \<Longrightarrow> t \<le> u \<Longrightarrow> take_lease c tok' t rows = Some rows' \<Longrightarrow> holds cid tok u rows'"
  by (auto simp: take_lease_def Let_def lease_free_def split: if_splits intro!: holds_update)

lemma holds_slot_loop:
  "holds cid tok u rows \<Longrightarrow> (\<And>i. clock i \<le> u) \<Longrightarrow> holds cid tok u (snd (slot_loop clock tok' is rows))"
proof (induction "is" arbitrary: rows)
  case Nil
  then show ?case by simp
next
  case (Cons i "is")
  let ?rows1 = "upsert_cursor (slot_id i) rows"
  have h: "holds cid tok u ?rows1" by (rule holds_upsert) (rule Cons.prems)
  show ?case
  proof (cases "take_lease (slot_id i) tok' (clock i) ?rows1")
    case None
    with Cons.IH [OF h] Cons.prems(2) show ?thesis by (simp add: Let_def)
  next
    case (Some rows2)
    with holds_take [OF h Cons.prems(2)] show ?thesis by (simp add: Let_def)
  qed
qed

lemma holds_step:
  assumes "holds cid tok u rows" and "other \<noteq> tok"
    and "\<And>t. slot_event_time ev = Some t \<Longrightarrow> t \<le> u"
  shows "holds cid tok u (slot_event_step (other, ev) rows)"
proof (cases ev)
  case (Ev_Acquire n t)
  with assms show ?thesis by (auto intro: holds_slot_loop)
next
  case (Ev_Renew c t)
  with assms show ?thesis by (auto simp: renew_lease_def intro!: holds_update)
next
  case (Ev_Release c)
  with assms show ?thesis by (auto simp: release_lease_def intro!: holds_update)
next
  case (Ev_Clean_Start t)
  have h: "holds cid tok u (upsert_cursor ''cleaner-lease'' rows)" by (rule holds_upsert) (rule assms(1))
  show ?thesis
    using assms(1) Ev_Clean_Start holds_take [OF h] assms(3) by (simp split: option.split)
next
  case (Ev_Write c v)
  show ?thesis
  proof (cases "find_row (\<lambda>r. mc_id r = c) rows")
    case None
    with assms(1) Ev_Write show ?thesis
      by (auto simp: write_maintenance_cursor_def holds_def find_row_None_iff new_cursor_def)
  next
    case (Some r)
    have "holds cid tok u (update_rows (\<lambda>r. mc_id r = c) (\<lambda>r. r\<lparr>mc_value := v\<rparr>) rows)"
      by (rule holds_update [OF assms(1)]) simp_all
    with Some Ev_Write show ?thesis by (simp add: write_maintenance_cursor_def)
  qed
qed

lemma holds_run:
  "holds cid tok u rows \<Longrightarrow> list_all (\<lambda>(other, ev). other \<noteq> tok \<and>
      (case slot_event_time ev of None \<Rightarrow> True | Some t \<Rightarrow> t \<le> u)) evs \<Longrightarrow>
    holds cid tok u (fold slot_event_step evs rows)"
proof (induction evs arbitrary: rows)
  case Nil
  then show ?case by simp
next
  case (Cons e evs)
  obtain other ev where e: "e = (other, ev)" by (cases e)
  have "holds cid tok u (slot_event_step (other, ev) rows)"
    by (rule holds_step [OF Cons.prems(1)]) (use Cons.prems(2) e in auto)
  with Cons.IH Cons.prems(2) e show ?case by simp
qed

lemma holds_valid: "holds cid tok u rows \<Longrightarrow> now < u \<Longrightarrow> lease_valid cid tok now rows"
  by (auto simp: holds_def lease_valid_def count_rows_0_iff)

lemma take_lease_holds:
  "unique_on mc_id rows \<Longrightarrow> take_lease cid tok now rows = Some rows' \<Longrightarrow> holds cid tok (now + lease_ms) rows'"
proof -
  assume u: "unique_on mc_id rows" and t: "take_lease cid tok now rows = Some rows'"
  let ?free = "\<lambda>r. mc_id r = cid \<and> lease_free now r"
  let ?f = "\<lambda>r. r\<lparr>mc_token := Some tok, mc_until := Some (now + lease_ms)\<rparr>"
  from t have "count_rows ?free rows \<noteq> 0" and r': "rows' = update_rows ?free ?f rows"
    by (auto simp: take_lease_def Let_def split: if_splits)
  then obtain r where r: "r \<in> set rows" "?free r" by (auto simp: count_rows_0_iff)
  then have "?f r \<in> set rows'" by (auto simp: r' set_update_rows image_iff intro!: bexI [of _ r])
  moreover have "mc_token s = Some tok \<and> mc_until s = Some (now + lease_ms)"
    if "s \<in> set rows'" "mc_id s = cid" for s
  proof -
    from that(1) obtain q where q: "q \<in> set rows" "s = (if ?free q then ?f q else q)"
      unfolding r' set_update_rows by blast
    then have "mc_id q = mc_id s" by simp
    with that(2) r(2) have "q = r" by (intro unique_onD [OF u q(1) r(1)]) simp
    with q r show ?thesis by simp
  qed
  moreover have "mc_id (?f r) = cid" using r(2) by simp
  ultimately show ?thesis unfolding holds_def by blast
qed

lemma unique_upsert_cursor: "unique_on mc_id rows \<Longrightarrow> unique_on mc_id (upsert_cursor c rows)"
  by (auto simp: upsert_cursor_def unique_on_append find_row_None_iff new_cursor_def)

lemma slot_loop_holds:
  "unique_on mc_id rows \<Longrightarrow> slot_loop clock tok is rows = (Some cid, rows') \<Longrightarrow>
    \<exists>i \<in> set is. cid = slot_id i \<and> holds cid tok (clock i + lease_ms) rows'"
proof (induction "is" arbitrary: rows)
  case Nil
  then show ?case by simp
next
  case (Cons i "is")
  let ?rows1 = "upsert_cursor (slot_id i) rows"
  show ?case
  proof (cases "take_lease (slot_id i) tok (clock i) ?rows1")
    case None
    with Cons.prems have "slot_loop clock tok is ?rows1 = (Some cid, rows')" by (simp add: Let_def)
    from Cons.IH [OF unique_upsert_cursor [OF Cons.prems(1)] this] show ?thesis by auto
  next
    case (Some rows2)
    with Cons.prems have "cid = slot_id i" "rows' = rows2" by (simp_all add: Let_def)
    with take_lease_holds [OF unique_upsert_cursor [OF Cons.prems(1)] Some] show ?thesis by auto
  qed
qed

subsection \<open>Properties\<close>

text \<open>
  C11. Worker slots are exclusive. A worker that acquired a slot keeps it until its lease
  runs out, whatever the other workers and the cleaner do meanwhile, and its lease check
  keeps passing until then.
\<close>

theorem worker_slot_exclusive:
  assumes "unique_on mc_id rows"
    and "slot_loop (\<lambda>_. t0) tok [0..<n] rows = (Some cid, rows')"
    and "list_all (\<lambda>(other, ev). other \<noteq> tok \<and>
      (case slot_event_time ev of None \<Rightarrow> True | Some t \<Rightarrow> t \<le> t0 + lease_ms)) evs"
    and "now < t0 + lease_ms"
  shows "assert_slot_lease cid tok now (fold slot_event_step evs rows') = None \<and>
    (\<forall>r \<in> set (fold slot_event_step evs rows'). mc_id r = cid \<longrightarrow> mc_token r = Some tok)"
proof -
  have "holds cid tok (t0 + lease_ms) (fold slot_event_step evs rows')"
    using slot_loop_holds [OF assms(1,2)] assms(3) by (auto intro: holds_run)
  with holds_valid [OF this assms(4)] show ?thesis by (simp add: assert_slot_lease_def holds_def)
qed

theorem worker_slot_exclusive_witness:
  "assert_slot_lease ''worker-slot:0'' ''w1'' 200000
      (fold slot_event_step [(''w2'', Ev_Acquire 2 1000), (''w3'', Ev_Acquire 2 250000), (''w3'', Ev_Release ''worker-slot:0'')]
        (snd (slot_loop (\<lambda>_. 0) ''w1'' [0..<2] []))) = None"
proof -
  have l: "slot_loop (\<lambda>_. 0) ''w1'' [0..<2] [] =
      (Some ''worker-slot:0'', snd (slot_loop (\<lambda>_. 0) ''w1'' [0..<2] []))" by code_simp
  have e: "list_all (\<lambda>(other, ev). other \<noteq> ''w1'' \<and>
      (case slot_event_time ev of None \<Rightarrow> True | Some t \<Rightarrow> t \<le> 0 + lease_ms))
    [(''w2'', Ev_Acquire 2 1000), (''w3'', Ev_Acquire 2 250000), (''w3'', Ev_Release ''worker-slot:0'')]"
    by (simp add: lease_ms_def)
  have n: "200000 < 0 + lease_ms" by (simp add: lease_ms_def)
  have "unique_on mc_id []" by simp
  from worker_slot_exclusive [OF this l e n] show ?thesis by (rule conjunct1)
qed

definition slot_taken :: "millis \<Rightarrow> nat \<Rightarrow> cursor_row list \<Rightarrow> bool" where
  "slot_taken now i rows \<longleftrightarrow>
     (case find_row (\<lambda>r. mc_id r = slot_id i) rows of
        None \<Rightarrow> False | Some r \<Rightarrow> \<not> lease_free now r)"

lemma take_lease_None:
  assumes u: "unique_on mc_id rows"
  shows "take_lease (slot_id i) tok now (upsert_cursor (slot_id i) rows) = None \<longleftrightarrow> slot_taken now i rows"
proof (cases "find_row (\<lambda>r. mc_id r = slot_id i) rows")
  case None
  have "lease_free now (new_cursor (slot_id i))" by (simp add: lease_free_def new_cursor_def)
  with None show ?thesis
    by (simp add: take_lease_def upsert_cursor_def slot_taken_def Let_def new_cursor_def)
next
  case (Some r)
  then have r: "r \<in> set rows" "mc_id r = slot_id i" using find_row_SomeD [OF Some] by auto
  have only: "x = r" if "x \<in> set rows" "mc_id x = slot_id i" for x
    by (rule unique_onD [OF u that(1) r(1)]) (simp add: that(2) r(2))
  have "count_rows (\<lambda>r. mc_id r = slot_id i \<and> lease_free now r) rows = 0 \<longleftrightarrow> \<not> lease_free now r"
    unfolding count_rows_0_iff using r only by blast
  with Some show ?thesis by (simp add: take_lease_def upsert_cursor_def slot_taken_def Let_def)
qed

lemma slot_loop_None:
  "unique_on mc_id rows \<Longrightarrow>
    fst (slot_loop clock tok is rows) = None \<longleftrightarrow> (\<forall>i \<in> set is. slot_taken (clock i) i rows)"
proof (induction "is" arbitrary: rows)
  case Nil
  then show ?case by simp
next
  case (Cons i "is")
  let ?rows1 = "upsert_cursor (slot_id i) rows"
  show ?case
  proof (cases "slot_taken (clock i) i rows")
    case True
    then have "?rows1 = rows" by (auto simp: slot_taken_def upsert_cursor_def split: option.splits)
    moreover have "take_lease (slot_id i) tok (clock i) ?rows1 = None"
      using take_lease_None [OF Cons.prems] True by simp
    ultimately show ?thesis using Cons.IH [OF Cons.prems] True by (simp add: Let_def)
  next
    case False
    then obtain rows2 where "take_lease (slot_id i) tok (clock i) ?rows1 = Some rows2"
      using take_lease_None [OF Cons.prems] by blast
    with False show ?thesis by (simp add: Let_def)
  qed
qed

text \<open>
  C12. Capacity comes back. A worker finds a slot exactly when some slot below the configured
  concurrency is unused, given back, or has a lease that ran out, so a crashed worker blocks
  its slot for at most one lease.
\<close>

theorem worker_slot_available:
  assumes "unique_on mc_id rows" and "worker_concurrency env = Some n"
  shows "((\<forall>i < n. slot_taken (clock i) i rows) \<longrightarrow>
      fst (with_worker_slot env clock tok work rows) =
        Some (Managed_Capacity_Error ''Hosted processing capacity is busy'')) \<and>
    ((\<exists>i < n. \<not> slot_taken (clock i) i rows) \<longrightarrow>
      (\<exists>i < n. \<exists>rows1. holds (slot_id i) tok (clock i + lease_ms) rows1 \<and>
        with_worker_slot env clock tok work rows =
          (fst (work (slot_id i) rows1), release_lease (slot_id i) tok (snd (work (slot_id i) rows1)))))"
proof -
  note none = slot_loop_None [OF assms(1), of clock tok "[0..<n]"]
  obtain res rows1 where l: "slot_loop clock tok [0..<n] rows = (res, rows1)"
    by (cases "slot_loop clock tok [0..<n] rows")
  show ?thesis
  proof (cases res)
    case None
    with none l have "\<forall>i < n. slot_taken (clock i) i rows" by simp
    with None l assms(2) show ?thesis by (auto simp: with_worker_slot_def)
  next
    case (Some cid)
    with none l have "\<not> (\<forall>i < n. slot_taken (clock i) i rows)" by auto
    moreover from slot_loop_holds [OF assms(1) l [unfolded Some]]
    obtain i where "i < n" "cid = slot_id i" "holds (slot_id i) tok (clock i + lease_ms) rows1" by auto
    moreover from Some l assms(2) have "with_worker_slot env clock tok work rows =
        (fst (work cid rows1), release_lease cid tok (snd (work cid rows1)))"
      by (simp add: with_worker_slot_def case_prod_unfold Let_def)
    ultimately show ?thesis by blast
  qed
qed

theorem worker_slot_available_witness:
  "\<exists>i < 2. \<exists>rows1. holds (slot_id i) ''w3'' (400000 + lease_ms) rows1 \<and>
    with_worker_slot (\<lambda>_. None) (\<lambda>_. 400000) ''w3'' (\<lambda>_ rows. (None, rows))
      [\<lparr>mc_id = ''worker-slot:0'', mc_value = None, mc_token = Some ''dead'', mc_until = Some 300000\<rparr>,
       \<lparr>mc_id = ''worker-slot:1'', mc_value = None, mc_token = Some ''w2'', mc_until = Some 500000\<rparr>]
    = (None, release_lease (slot_id i) ''w3'' rows1)"
proof -
  let ?rows = "[\<lparr>mc_id = ''worker-slot:0'', mc_value = None, mc_token = Some ''dead'', mc_until = Some 300000\<rparr>,
       \<lparr>mc_id = ''worker-slot:1'', mc_value = None, mc_token = Some ''w2'', mc_until = Some 500000\<rparr>]"
  have c: "worker_concurrency (\<lambda>_. None) = Some 2" by code_simp
  have "\<not> slot_taken 400000 0 ?rows" by code_simp
  then have e: "\<exists>i < 2. \<not> slot_taken 400000 i ?rows" by (intro exI [of _ 0] conjI) simp_all
  have "unique_on mc_id ?rows" by simp
  from mp [OF conjunct2 [OF worker_slot_available [OF this c]] e, of "''w3''" "\<lambda>_ rows. (None, rows)"]
  show ?thesis by simp
qed

end
