(* ===== verification/Provider_Client.thy ===== *)
theory Provider_Client
  imports Provider_Spend
begin

text \<open>
  One call to a hosted provider with bounded retries: \<open>providerRequest\<close> of
  \<^verbatim>\<open>webapp/src/lib/managedWorker.ts\<close> with its prices and retry delays, and the choice of
  providers from the environment.

  The network is an argument: for each attempt, what \<open>fetch\<close> did, the clock, the fresh
  attempt id and what the lease guards say. \<open>Date.parse\<close> of a \<open>retry-after\<close> date is
  implementation-defined and an argument too. Waiting is recorded as the list of delays. What other
  calls commit to the spend tables while an attempt is under way and while it waits for the next
  one are the arguments \<open>rw_calling\<close> and \<open>rw_waiting\<close>.
\<close>

subsection \<open>Providers\<close>

datatype transcription_provider = Provider_Groq | Provider_Deepgram
datatype summary_provider = Provider_OpenAI | Provider_Anthropic

definition env_word :: "env \<Rightarrow> string \<Rightarrow> string option" where
  "env_word env name = map_option (\<lambda>v. to_lower (trim v)) (env name)"

definition managed_transcription_provider :: "env \<Rightarrow> provider_error + transcription_provider" where
  "managed_transcription_provider env =
     (let v = env_word env ''MANAGED_TRANSCRIPTION_PROVIDER'' in
      if \<not> truthy v \<or> v = Some ''groq'' then Inr Provider_Groq
      else if v = Some ''deepgram'' then Inr Provider_Deepgram
      else Inl (Managed_Worker_Error ''MANAGED_TRANSCRIPTION_PROVIDER must be groq or deepgram''))"

definition managed_import_transcription_provider :: "env \<Rightarrow> provider_error + transcription_provider" where
  "managed_import_transcription_provider env =
     (let v = env_word env ''MANAGED_IMPORT_TRANSCRIPTION_PROVIDER'' in
      if \<not> truthy v then managed_transcription_provider env
      else if v = Some ''groq'' then Inr Provider_Groq
      else if v = Some ''deepgram'' then Inr Provider_Deepgram
      else Inl (Managed_Worker_Error ''MANAGED_IMPORT_TRANSCRIPTION_PROVIDER must be groq or deepgram''))"

definition managed_summary_provider :: "env \<Rightarrow> provider_error + summary_provider" where
  "managed_summary_provider env =
     (let v = env_word env ''MANAGED_SUMMARY_PROVIDER'' in
      if \<not> truthy v \<or> v = Some ''openai'' then Inr Provider_OpenAI
      else if v = Some ''anthropic'' then Inr Provider_Anthropic
      else Inl (Managed_Worker_Error ''MANAGED_SUMMARY_PROVIDER must be openai or anthropic''))"

definition default_managed_summary_model :: string where
  "default_managed_summary_model = ''gpt-6-luna''"

definition default_anthropic_summary_model :: string where
  "default_anthropic_summary_model = ''claude-sonnet-5''"

definition managed_summary_model :: "env \<Rightarrow> provider_error + string" where
  "managed_summary_model env =
     (let v = map_option trim (env ''MANAGED_SUMMARY_MODEL'') in
      if truthy v then Inr (the v)
      else case managed_summary_provider env of
          Inl e \<Rightarrow> Inl e
        | Inr Provider_Anthropic \<Rightarrow> Inr default_anthropic_summary_model
        | Inr Provider_OpenAI \<Rightarrow> Inr default_managed_summary_model)"

subsection \<open>Retries\<close>

definition provider_max_attempts :: nat where
  "provider_max_attempts = 3"

definition provider_retryable :: "int \<Rightarrow> bool" where
  "provider_retryable status \<longleftrightarrow> status = 408 \<or> status = 425 \<or> status = 429 \<or> 500 \<le> status"

record http_response =
  hr_status :: int
  hr_retry_after :: "string option"
  hr_body :: "json option"

definition response_ok :: "http_response \<Rightarrow> bool" where
  "response_ok r \<longleftrightarrow> 200 \<le> hr_status r \<and> hr_status r \<le> 299"

definition provider_retry_delay ::
  "(string \<Rightarrow> js_number) \<Rightarrow> millis \<Rightarrow> http_response option \<Rightarrow> nat \<Rightarrow> rat" where
  "provider_retry_delay date_parse now response attempt =
     (let header = Option.bind response hr_retry_after;
          backoff = min (250 * 2 ^ attempt) 2000
      in if \<not> truthy header then backoff
         else case js_finite (number_of_text (the header)) of
             Some seconds \<Rightarrow>
               if 0 \<le> seconds then min (seconds * 1000) 5000
               else (case js_finite (date_parse (the header)) of
                   Some date \<Rightarrow> min (max (date - of_int now) 0) 5000 | None \<Rightarrow> backoff)
           | None \<Rightarrow>
               (case js_finite (date_parse (the header)) of
                  Some date \<Rightarrow> min (max (date - of_int now) 0) 5000 | None \<Rightarrow> backoff))"

subsection \<open>Prices\<close>

definition finite_number :: "json option \<Rightarrow> rat option" where
  "finite_number v = (case v of Some (JNumber (JsNum q)) \<Rightarrow> if 0 \<le> q then Some q else None | _ \<Rightarrow> None)"

definition json_truthy :: "json option \<Rightarrow> bool" where
  "json_truthy v =
     (case v of
        None \<Rightarrow> False | Some JNull \<Rightarrow> False | Some (JBool b) \<Rightarrow> b
      | Some (JNumber n) \<Rightarrow> n \<noteq> JsNaN \<and> n \<noteq> JsNum 0
      | Some (JString s) \<Rightarrow> s \<noteq> [] | Some (JArray _) \<Rightarrow> True | Some (JObject _) \<Rightarrow> True)"

text \<open>Whether a JSON body names a model other than the default one.\<close>

definition custom_model :: "bool \<Rightarrow> string option \<Rightarrow> bool" where
  "custom_model anthropic body =
     (case body of
        None \<Rightarrow> False
      | Some text \<Rightarrow>
          (case json_parse text of
             None \<Rightarrow> False
           | Some v \<Rightarrow>
               (let model = json_get ''model'' (Some v) in
                json_truthy model \<and>
                model \<noteq> Some (JString (if anthropic then default_anthropic_summary_model
                                       else default_managed_summary_model)))))"

definition micros_rate :: "env \<Rightarrow> string \<Rightarrow> bool \<Rightarrow> string \<Rightarrow> rat \<Rightarrow> provider_error + rat" where
  "micros_rate env prefix' custom kind fallback =
     (let configured = env (prefix' @ ''_'' @ kind @ ''_MICROS_PER_TOKEN'') in
      if custom \<and> \<not> truthy configured \<and> env_is env ''NODE_ENV'' ''production'' \<and>
         env_is env ''MANAGED_HOSTING'' ''true''
      then Inl (Managed_Worker_Error ''Custom managed model pricing is not configured'')
      else if \<not> truthy configured then Inr fallback
      else case js_finite (number_of_text (the configured)) of
          None \<Rightarrow> Inl (Managed_Worker_Error ''Managed model pricing is invalid'')
        | Some v \<Rightarrow>
            if v \<le> 0 \<or> 1000 < v then Inl (Managed_Worker_Error ''Managed model pricing is invalid'')
            else Inr v)"

definition summary_estimate :: "string option \<Rightarrow> rat \<Rightarrow> rat \<Rightarrow> int" where
  "summary_estimate body input_rate output_rate =
     \<lceil>of_int (case body of Some s \<Rightarrow> utf8_length s | None \<Rightarrow> 0) * input_rate + 8192 * output_rate\<rceil>"

definition token_cost :: "rat \<Rightarrow> rat \<Rightarrow> json \<Rightarrow> int option" where
  "token_cost input_rate output_rate body =
     (let usage = json_get ''usage'' (Some body) in
      case (finite_number (json_get ''input_tokens'' usage), finite_number (json_get ''output_tokens'' usage)) of
        (Some i, Some out) \<Rightarrow> Some \<lceil>i * input_rate + out * output_rate\<rceil>
      | _ \<Rightarrow> None)"

subsection \<open>The request\<close>

text \<open>
  What others commit to the spend ledger while attempt \<open>i\<close> of this call waits for its provider is
  \<open>rw_calling i\<close>, what they commit while it waits before the next attempt \<open>rw_waiting i\<close>: reserving
  and settling are transactions of their own. \<open>Fetch_Throws True\<close> is the abort of the deadline;
  \<open>hr_body = None\<close> is a body that is not JSON.
\<close>

datatype fetch_outcome = Fetch_Throws bool | Fetch_Answers http_response

record request_world =
  rw_scope :: "spend_scope option"
  rw_subs :: "subscription list"
  rw_date_parse :: "string \<Rightarrow> js_number"
  rw_clock :: "nat \<Rightarrow> millis"
  rw_id :: "nat \<Rightarrow> ident"
  rw_guards :: "nat \<Rightarrow> provider_error option list"
  rw_fetch :: "nat \<Rightarrow> fetch_outcome"
  rw_calling :: "nat \<Rightarrow> spend_db \<Rightarrow> spend_db"
  rw_waiting :: "nat \<Rightarrow> spend_db \<Rightarrow> spend_db"

record request_result =
  rr_result :: "provider_error + http_response"
  rr_db :: spend_db
  rr_delays :: "rat list"
  rr_calls :: nat

text \<open>What an attempt reports when it settles: cost, status.\<close>

definition settle_report ::
  "(json \<Rightarrow> int option) \<Rightarrow> fetch_outcome \<Rightarrow> js_number option \<times> int option" where
  "settle_report cost outcome =
     (case outcome of
        Fetch_Throws _ \<Rightarrow> (None, None)
      | Fetch_Answers r \<Rightarrow>
          (if response_ok r
           then map_option (\<lambda>n. JsNum (of_int n)) (Option.bind (hr_body r) cost)
           else None, Some (hr_status r)))"

text \<open>The verdict after an attempt: return, throw, or retry after a delay.\<close>

datatype verdict = Verdict_Return http_response | Verdict_Throw provider_error | Verdict_Retry rat

definition attempt_verdict ::
  "request_world \<Rightarrow> string \<Rightarrow> nat \<Rightarrow> verdict" where
  "attempt_verdict w label attempt =
     (case rw_fetch w attempt of
        Fetch_Throws aborted \<Rightarrow>
          if attempt = provider_max_attempts - 1
          then Verdict_Throw (Managed_Worker_Error
                 (label @ (if aborted then '' provider request timed out'' else '' provider request failed'')))
          else Verdict_Retry (provider_retry_delay (rw_date_parse w) (rw_clock w attempt) None attempt)
      | Fetch_Answers r \<Rightarrow>
          if response_ok r then Verdict_Return r
          else if \<not> provider_retryable (hr_status r) \<or> attempt = provider_max_attempts - 1
          then Verdict_Throw (Managed_Worker_Error (label @ '' provider returned '' @ int_str (hr_status r)))
          else Verdict_Retry (provider_retry_delay (rw_date_parse w) (rw_clock w attempt) (Some r) attempt))"

function request_loop ::
  "env \<Rightarrow> request_world \<Rightarrow> string \<Rightarrow> js_number \<Rightarrow> (json \<Rightarrow> int option) \<Rightarrow> nat \<Rightarrow> spend_db \<Rightarrow> request_result" where
  "request_loop env w label spend cost attempt db =
     (if provider_max_attempts \<le> attempt
      then \<lparr>rr_result = Inl (Managed_Worker_Error (label @ '' provider request failed'')), rr_db = db,
            rr_delays = [], rr_calls = 0\<rparr>
      else case reserve_provider_attempt env (rw_clock w attempt) (rw_id w attempt) (rw_scope w)
             (rw_guards w attempt) label spend (rw_subs w) db of
          Inl e \<Rightarrow> \<lparr>rr_result = Inl e, rr_db = db, rr_delays = [], rr_calls = 0\<rparr>
        | Inr (spend_id, db1) \<Rightarrow>
            (let (actual, http) = settle_report cost (rw_fetch w attempt); called = rw_calling w attempt db1 in
             case settle_provider_attempt (rw_clock w attempt) spend_id actual http called of
               Inl e \<Rightarrow> \<lparr>rr_result = Inl e, rr_db = called, rr_delays = [], rr_calls = 1\<rparr>
             | Inr db2 \<Rightarrow>
                 (case attempt_verdict w label attempt of
                    Verdict_Return r \<Rightarrow> \<lparr>rr_result = Inr r, rr_db = db2, rr_delays = [], rr_calls = 1\<rparr>
                  | Verdict_Throw e \<Rightarrow> \<lparr>rr_result = Inl e, rr_db = db2, rr_delays = [], rr_calls = 1\<rparr>
                  | Verdict_Retry d \<Rightarrow>
                      (let rest = request_loop env w label spend cost (Suc attempt) (rw_waiting w attempt db2)
                       in rest\<lparr>rr_delays := d # rr_delays rest, rr_calls := Suc (rr_calls rest)\<rparr>))))"
  by pat_completeness auto
termination
  by (relation "measure (\<lambda>(env, w, label, spend, cost, attempt, db). provider_max_attempts - attempt)") auto

declare request_loop.simps [simp del]

text \<open>
  \<open>url_anthropic\<close> is \<open>input.startsWith("https://api.anthropic.com/")\<close>; \<open>body\<close> is the request
  body when it is a string; \<open>spend\<close> and \<open>cost\<close> are the options \<open>spendMicros\<close> and \<open>reportedCost\<close>.
\<close>

definition provider_request ::
  "env \<Rightarrow> request_world \<Rightarrow> string \<Rightarrow> string option \<Rightarrow> string \<Rightarrow> js_number option
   \<Rightarrow> (json \<Rightarrow> int option) option \<Rightarrow> spend_db \<Rightarrow> request_result" where
  "provider_request env w url body label spend cost db =
     (let anthropic = (strip_prefix ''https://api.anthropic.com/'' url \<noteq> None);
          prefix' = (if anthropic then ''MANAGED_ANTHROPIC'' else ''MANAGED_OPENAI'');
          custom = custom_model anthropic body;
          failed = (\<lambda>e. \<lparr>rr_result = Inl e, rr_db = db, rr_delays = [], rr_calls = 0\<rparr>)
      in case micros_rate env prefix' custom ''INPUT'' (if anthropic then 2 else 1 / 10) of
           Inl e \<Rightarrow> failed e
         | Inr input_rate \<Rightarrow>
             (case micros_rate env prefix' custom ''OUTPUT'' (if anthropic then 10 else 1 / 2) of
                Inl e \<Rightarrow> failed e
              | Inr output_rate \<Rightarrow>
                  request_loop env w label
                    (case spend of Some n \<Rightarrow> n
                     | None \<Rightarrow> JsNum (of_int (max 1 (summary_estimate body input_rate output_rate))))
                    (case cost of Some f \<Rightarrow> f | None \<Rightarrow> token_cost input_rate output_rate) 0 db))"

subsection \<open>Bounds of the loop\<close>

lemma retry_delay_bounds: "0 \<le> provider_retry_delay dp now r attempt \<and> provider_retry_delay dp now r attempt \<le> 5000"
  by (auto simp: provider_retry_delay_def Let_def split: option.split)

definition transient :: "fetch_outcome \<Rightarrow> bool" where
  "transient outcome =
     (case outcome of Fetch_Throws _ \<Rightarrow> True
      | Fetch_Answers r \<Rightarrow> \<not> response_ok r \<and> provider_retryable (hr_status r))"

lemma verdict_retry:
  "attempt_verdict w label attempt = Verdict_Retry d \<Longrightarrow>
    transient (rw_fetch w attempt) \<and> attempt \<noteq> provider_max_attempts - 1 \<and> 0 \<le> d \<and> d \<le> 5000"
  using retry_delay_bounds
  by (auto simp: attempt_verdict_def transient_def split: fetch_outcome.splits if_splits)

lemma verdict_return:
  "attempt_verdict w label attempt = Verdict_Return r \<Longrightarrow> rw_fetch w attempt = Fetch_Answers r \<and> response_ok r"
  by (auto simp: attempt_verdict_def split: fetch_outcome.splits if_splits)

definition open_attempts :: "spend_db \<Rightarrow> nat" where
  "open_attempts db = count_rows (\<lambda>a. sa_settled a = None) (sp_attempts db)"

lemma count_rows_drop_one:
  "unique_on key rows \<Longrightarrow> a \<in> set rows \<Longrightarrow> p a \<Longrightarrow> \<not> p (f a) \<Longrightarrow>
    Suc (count_rows p (update_rows (\<lambda>r. key r = key a) f rows)) = count_rows p rows"
proof (induction rows)
  case Nil
  then show ?case by simp
next
  case (Cons x rows)
  show ?case
  proof (cases "x = a")
    case True
    with Cons.prems have "\<And>y. y \<in> set rows \<Longrightarrow> key y \<noteq> key a" by (auto simp: image_iff)
    then have "update_rows (\<lambda>r. key r = key a) f rows = rows" by (rule update_rows_idle)
    with Cons.prems True show ?thesis by simp
  next
    case False
    with Cons.prems have "a \<in> set rows" "key x \<noteq> key a" by (auto simp: image_iff)
    with Cons show ?thesis by simp
  qed
qed

lemma settle_result:
  assumes ok: "spend_ok db" and o: "open_attempt attempt_id db = Some a"
    and s: "settle_provider_attempt now attempt_id actual http db = Inr db'"
  shows "sa_id ` set (sp_attempts db') = sa_id ` set (sp_attempts db)"
    and "Suc (open_attempts db') = open_attempts db"
    and "x \<in> set (sp_attempts db') \<Longrightarrow> sa_settled x = None \<Longrightarrow> x \<in> set (sp_attempts db) \<and> sa_id x \<noteq> sa_id a"
proof -
  let ?n = "case reported_micros actual of Some n \<Rightarrow> n | None \<Rightarrow> sa_reserved a"
  obtain rows where "add_all_committed (sort (sa_buckets a)) (?n - sa_charged a) (sp_buckets db) = Some rows"
    by (rule settle_total [OF ok o])
  from settle_open [OF o this, of now http] s
  have a': "sp_attempts db' = update_rows (\<lambda>r. sa_id r = sa_id a) (settled_row now actual http ?n) (sp_attempts db)"
    by auto
  note a = open_attempt_Some [OF o]
  show "sa_id ` set (sp_attempts db') = sa_id ` set (sp_attempts db)"
    unfolding a' by (rule keys_update_rows) simp
  show "Suc (open_attempts db') = open_attempts db"
    unfolding open_attempts_def a' by (rule count_rows_drop_one) (use ok a in \<open>auto simp: spend_ok_def\<close>)
  show "x \<in> set (sp_attempts db') \<Longrightarrow> sa_settled x = None \<Longrightarrow> x \<in> set (sp_attempts db) \<and> sa_id x \<noteq> sa_id a"
    unfolding a' set_update_rows by (auto split: if_splits)
qed

lemma reserve_result:
  assumes ok: "spend_ok db" and fresh: "new_id \<notin> sa_id ` set (sp_attempts db)" and ne: "new_id \<noteq> []"
    and r: "reserve_provider_attempt env now new_id scope guards provider spend subs db = Inr (sid, db1)"
  shows "sid = None \<and> db1 = db \<or>
    spend_ok db1 \<and> sid = Some new_id \<and> (\<exists>a. open_attempt sid db1 = Some a \<and> sp_attempts db1 = sp_attempts db @ [a]) \<and>
    sa_id ` set (sp_attempts db1) = insert new_id (sa_id ` set (sp_attempts db)) \<and>
    open_attempts db1 = Suc (open_attempts db)"
proof (cases scope)
  case None
  with r show ?thesis by (auto simp: reserve_provider_attempt_def split: if_splits)
next
  case (Some sc)
  from r Some obtain q where q: "spend = JsNum q"
    by (auto simp: reserve_provider_attempt_def split: js_number.splits)
  with r Some have tx: "reserve_spend_tx env now new_id sc provider \<lfloor>q\<rfloor> subs db = Inr (the sid, db1)"
    and sid: "sid = Some (the sid)"
    by (auto simp: reserve_provider_attempt_def split: if_splits option.splits sum.splits)
  have u: "unique_on sb_id (sp_buckets db)" using ok by (simp add: spend_ok_def)
  from tx u obtain bs trial where "limits_of env (spend_checks (sc_workspace sc) trial (iso_day now)) = Inr bs"
    and "claim_buckets (iso_day now) \<lfloor>q\<rfloor> (sort_key fst bs) (sp_buckets db) = Some (sp_buckets db1)"
    and "distinct (map fst (sort_key fst bs))" and new: "sp_attempts db1 = sp_attempts db @
          [\<lparr>sa_id = new_id, sa_workspace = sc_workspace sc, sa_operation = sc_operation sc,
            sa_provider = provider, sa_day = iso_day now, sa_reserved = \<lfloor>q\<rfloor>, sa_charged = \<lfloor>q\<rfloor>,
            sa_buckets = map fst (sort_key fst bs), sa_status = ''reserved'', sa_http = None,
            sa_settled = None\<rparr>]"
    by (rule reserve_spend_Inr)
  have "the sid = new_id" using tx by (auto simp: reserve_spend_tx_def Let_def split: sum.splits option.splits)
  then have "sid = Some new_id" using sid by simp
  moreover have "find_row (\<lambda>a. sa_id a = new_id) (sp_attempts db) = None"
    using fresh by (auto simp: find_row_None_iff)
  ultimately have "\<exists>a. open_attempt sid db1 = Some a \<and> sp_attempts db1 = sp_attempts db @ [a]"
    using ne by (simp add: open_attempt_def new find_row_append)
  moreover have "spend_ok db1" by (rule spend_ok_reserve [OF ok fresh tx])
  ultimately show ?thesis using \<open>sid = Some new_id\<close> by (simp add: new open_attempts_def)
qed

text \<open>Attempt ids that no stored attempt carries yet.\<close>

definition fresh_ids :: "request_world \<Rightarrow> nat \<Rightarrow> spend_db \<Rightarrow> bool" where
  "fresh_ids w attempt db \<longleftrightarrow> inj (rw_id w) \<and>
     (\<forall>i \<ge> attempt. rw_id w i \<noteq> [] \<and> rw_id w i \<notin> sa_id ` set (sp_attempts db))"

text \<open>
  The attempts of this call in the ledger. Others are polite: they keep the ledger sound and leave
  these rows alone.
\<close>

definition own_attempts :: "request_world \<Rightarrow> spend_db \<Rightarrow> spend_attempt list" where
  "own_attempts w db = filter (\<lambda>a. sa_id a \<in> range (rw_id w)) (sp_attempts db)"

definition polite :: "request_world \<Rightarrow> bool" where
  "polite w \<longleftrightarrow> (\<forall>i db. spend_ok db \<longrightarrow>
     spend_ok (rw_calling w i db) \<and> own_attempts w (rw_calling w i db) = own_attempts w db \<and>
     spend_ok (rw_waiting w i db) \<and> own_attempts w (rw_waiting w i db) = own_attempts w db)"

definition unaccompanied :: "request_world \<Rightarrow> bool" where
  "unaccompanied w \<longleftrightarrow> (\<forall>i db. rw_calling w i db = db \<and> rw_waiting w i db = db)"

definition own_settled :: "request_world \<Rightarrow> spend_db \<Rightarrow> bool" where
  "own_settled w db \<longleftrightarrow> list_all (\<lambda>a. sa_settled a \<noteq> None) (own_attempts w db)"

lemma own_settled_iff:
  "own_settled w db \<longleftrightarrow> (\<forall>a \<in> set (sp_attempts db). sa_id a \<in> range (rw_id w) \<longrightarrow> sa_settled a \<noteq> None)"
  by (auto simp: own_settled_def own_attempts_def list_all_iff)

lemma find_row_filter:
  "(\<And>r. p r \<Longrightarrow> q r) \<Longrightarrow> find_row p (filter q rows) = find_row p rows"
  by (induction rows) auto

lemma own_lookup:
  assumes "own_attempts w db' = own_attempts w db"
  shows "find_row (\<lambda>a. sa_id a = rw_id w i) (sp_attempts db') = find_row (\<lambda>a. sa_id a = rw_id w i) (sp_attempts db)"
proof -
  have "find_row (\<lambda>a. sa_id a = rw_id w i) (own_attempts w d) = find_row (\<lambda>a. sa_id a = rw_id w i) (sp_attempts d)" for d
    unfolding own_attempts_def by (rule find_row_filter) auto
  from this [of db'] this [of db] show ?thesis by (simp only: assms)
qed

lemma own_same:
  assumes "own_attempts w db' = own_attempts w db"
  shows "own_settled w db' = own_settled w db" "fresh_ids w i db' = fresh_ids w i db"
    "open_attempt (Some (rw_id w k)) db' = open_attempt (Some (rw_id w k)) db"
proof -
  have stored: "rw_id w n \<in> sa_id ` set rows \<longleftrightarrow> find_row (\<lambda>a. sa_id a = rw_id w n) rows \<noteq> None" for n rows
    unfolding find_row_None_iff by (metis imageE imageI)
  have "rw_id w n \<in> sa_id ` set (sp_attempts db') \<longleftrightarrow> rw_id w n \<in> sa_id ` set (sp_attempts db)" for n
    unfolding stored own_lookup [OF assms] ..
  then show "fresh_ids w i db' = fresh_ids w i db" by (simp add: fresh_ids_def)
  show "own_settled w db' = own_settled w db" by (simp add: own_settled_def assms)
  show "open_attempt (Some (rw_id w k)) db' = open_attempt (Some (rw_id w k)) db"
    by (simp add: open_attempt_def own_lookup [OF assms])
qed

lemma politeD:
  assumes "polite w" "spend_ok db"
  shows "spend_ok (rw_calling w i db)" "own_attempts w (rw_calling w i db) = own_attempts w db"
    "spend_ok (rw_waiting w i db)" "own_attempts w (rw_waiting w i db) = own_attempts w db"
  using assms by (simp_all add: polite_def)

lemma attempt_step:
  assumes ok: "spend_ok db" and f: "fresh_ids w attempt db" and s: "own_settled w db" and p: "polite w"
    and r: "reserve_provider_attempt env (rw_clock w attempt) (rw_id w attempt) (rw_scope w)
             (rw_guards w attempt) label spend (rw_subs w) db = Inr (sid, db1)"
  obtains db2 where "settle_provider_attempt now sid actual http (rw_calling w attempt db1) = Inr db2"
    and "spend_ok db2" and "fresh_ids w (Suc attempt) db2" and "own_settled w db2"
    and "unaccompanied w \<Longrightarrow> open_attempts db2 = open_attempts db"
proof -
  let ?called = "rw_calling w attempt db1"
  have fr: "rw_id w attempt \<notin> sa_id ` set (sp_attempts db)" "rw_id w attempt \<noteq> []"
    using f by (auto simp: fresh_ids_def)
  have later: "rw_id w i \<noteq> rw_id w attempt" if "Suc attempt \<le> i" for i
    using f that by (auto simp: fresh_ids_def dest: injD)
  have next': "fresh_ids w (Suc attempt) db" using f by (auto simp: fresh_ids_def)
  from reserve_result [OF ok fr r] show ?thesis
  proof (elim disjE conjE exE)
    assume none: "sid = None" "db1 = db"
    note c = politeD(1,2) [OF p ok, of attempt]
    show ?thesis
      by (rule that [of ?called]) (use none c own_same(1,2) [OF c(2)] s next' in \<open>simp_all add: settle_provider_attempt_def unaccompanied_def\<close>)
  next
    fix a
    assume sid: "sid = Some (rw_id w attempt)" and row: "open_attempt sid db1 = Some a" "sp_attempts db1 = sp_attempts db @ [a]"
      and ids: "sa_id ` set (sp_attempts db1) = insert (rw_id w attempt) (sa_id ` set (sp_attempts db))"
      and ok1: "spend_ok db1" and n: "open_attempts db1 = Suc (open_attempts db)"
    note c = politeD(1,2) [OF p ok1, of attempt]
    have o: "open_attempt sid ?called = Some a" using own_same(3) [OF c(2)] row(1) sid by simp
    have aid: "sa_id a = rw_id w attempt" using open_attempt_Some [OF o] sid by simp
    obtain rows where "add_all_committed (sort (sa_buckets a))
        ((case reported_micros actual of Some n \<Rightarrow> n | None \<Rightarrow> sa_reserved a) - sa_charged a) (sp_buckets ?called) = Some rows"
      by (rule settle_total [OF c(1) o])
    from settle_open [OF o this] obtain db2
      where d: "settle_provider_attempt now sid actual http ?called = Inr db2" by blast
    note res = settle_result [OF c(1) o d]
    have "sa_settled x \<noteq> None" if x: "x \<in> set (sp_attempts db2)" "sa_id x \<in> range (rw_id w)" for x
    proof
      assume "sa_settled x = None"
      from res(3) [OF x(1) this] x(2) have "x \<in> set (own_attempts w ?called)" "sa_id x \<noteq> sa_id a"
        by (auto simp: own_attempts_def)
      then have "x \<in> set (sp_attempts db)" unfolding c(2) by (auto simp: own_attempts_def row(2) split: if_splits)
      with s x(2) \<open>sa_settled x = None\<close> show False by (auto simp: own_settled_iff)
    qed
    then have settled: "own_settled w db2" by (simp add: own_settled_iff)
    have "fresh_ids w (Suc attempt) db1" using next' later unfolding fresh_ids_def ids by auto
    then have "fresh_ids w (Suc attempt) ?called" using own_same(2) [OF c(2)] by blast
    then have fresh: "fresh_ids w (Suc attempt) db2" by (simp add: fresh_ids_def res(1))
    show ?thesis
      by (rule that [OF d spend_ok_settle [OF c(1) d] fresh settled]) (use res(2) n in \<open>simp add: unaccompanied_def\<close>)
  qed
qed

lemma request_loop_ledger:
  "spend_ok db \<Longrightarrow> fresh_ids w attempt db \<Longrightarrow> own_settled w db \<Longrightarrow> polite w \<Longrightarrow>
    spend_ok (rr_db (request_loop env w label spend cost attempt db)) \<and>
    own_settled w (rr_db (request_loop env w label spend cost attempt db)) \<and>
    (unaccompanied w \<longrightarrow>
      open_attempts (rr_db (request_loop env w label spend cost attempt db)) = open_attempts db)"
proof (induction env w label spend cost attempt db rule: request_loop.induct)
  case (1 env w label spend cost attempt db)
  show ?case
  proof (cases "provider_max_attempts \<le> attempt")
    case True
    with 1 show ?thesis by (subst (1 2 3) request_loop.simps) simp
  next
    case False
    show ?thesis
    proof (cases "reserve_provider_attempt env (rw_clock w attempt) (rw_id w attempt) (rw_scope w)
             (rw_guards w attempt) label spend (rw_subs w) db")
      case (Inl e)
      with False 1 show ?thesis by (subst (1 2 3) request_loop.simps) simp
    next
      case (Inr p)
      obtain sid db1 where p: "p = (sid, db1)" by (cases p)
      obtain actual http where sr: "settle_report cost (rw_fetch w attempt) = (actual, http)"
        by (cases "settle_report cost (rw_fetch w attempt)")
      from attempt_step [OF "1.prems" Inr [unfolded p], of "rw_clock w attempt" actual http]
      obtain db2 where d: "settle_provider_attempt (rw_clock w attempt) sid actual http (rw_calling w attempt db1) = Inr db2"
        "spend_ok db2" "fresh_ids w (Suc attempt) db2" "own_settled w db2"
        "unaccompanied w \<Longrightarrow> open_attempts db2 = open_attempts db" by blast
      have step: "request_loop env w label spend cost attempt db =
          (case attempt_verdict w label attempt of
             Verdict_Return r \<Rightarrow> \<lparr>rr_result = Inr r, rr_db = db2, rr_delays = [], rr_calls = 1\<rparr>
           | Verdict_Throw e \<Rightarrow> \<lparr>rr_result = Inl e, rr_db = db2, rr_delays = [], rr_calls = 1\<rparr>
           | Verdict_Retry dl \<Rightarrow>
               (let rest = request_loop env w label spend cost (Suc attempt) (rw_waiting w attempt db2)
                in rest\<lparr>rr_delays := dl # rr_delays rest, rr_calls := Suc (rr_calls rest)\<rparr>))"
        using False by (subst request_loop.simps) (simp add: Inr p sr d(1))
      note waited = politeD(3,4) [OF "1.prems"(4) d(2), of attempt]
      show ?thesis
      proof (cases "attempt_verdict w label attempt")
        case (Verdict_Retry dl)
        note ih = "1.IH" [OF False Inr p [symmetric] refl sr [symmetric] refl d(1) Verdict_Retry waited(1)]
        from ih own_same(1,2) [OF waited(2)] d "1.prems"(4) Verdict_Retry
        show ?thesis by (auto simp: step Let_def unaccompanied_def)
      qed (use d in \<open>simp_all add: step\<close>)
    qed
  qed
qed

lemma request_loop_calls:
  "rr_calls (request_loop env w label spend cost attempt db) \<le> provider_max_attempts - attempt \<and>
   list_all (\<lambda>d. 0 \<le> d \<and> d \<le> 5000) (rr_delays (request_loop env w label spend cost attempt db)) \<and>
   (\<forall>i. attempt \<le> i \<and> Suc i < attempt + rr_calls (request_loop env w label spend cost attempt db) \<longrightarrow>
      transient (rw_fetch w i)) \<and>
   (\<forall>r. rr_result (request_loop env w label spend cost attempt db) = Inr r \<longrightarrow>
      0 < rr_calls (request_loop env w label spend cost attempt db) \<and> response_ok r \<and>
      rw_fetch w (attempt + rr_calls (request_loop env w label spend cost attempt db) - 1) = Fetch_Answers r)"
proof (induction env w label spend cost attempt db rule: request_loop.induct)
  case (1 env w label spend cost attempt db)
  show ?case
  proof (cases "provider_max_attempts \<le> attempt")
    case True
    then have "request_loop env w label spend cost attempt db =
        \<lparr>rr_result = Inl (Managed_Worker_Error (label @ '' provider request failed'')), rr_db = db,
          rr_delays = [], rr_calls = 0\<rparr>"
      by (subst request_loop.simps) simp
    then show ?thesis by auto
  next
    case False
    show ?thesis
    proof (cases "reserve_provider_attempt env (rw_clock w attempt) (rw_id w attempt) (rw_scope w)
             (rw_guards w attempt) label spend (rw_subs w) db")
      case (Inl e)
      with False have "request_loop env w label spend cost attempt db =
          \<lparr>rr_result = Inl e, rr_db = db, rr_delays = [], rr_calls = 0\<rparr>"
        by (subst request_loop.simps) simp
      then show ?thesis by auto
    next
      case (Inr p)
      obtain sid db1 where p: "p = (sid, db1)" by (cases p)
      obtain actual http where sr: "settle_report cost (rw_fetch w attempt) = (actual, http)"
        by (cases "settle_report cost (rw_fetch w attempt)")
      show ?thesis
      proof (cases "settle_provider_attempt (rw_clock w attempt) sid actual http (rw_calling w attempt db1)")
        case (Inl e)
        with False Inr p sr have "request_loop env w label spend cost attempt db =
            \<lparr>rr_result = Inl e, rr_db = rw_calling w attempt db1, rr_delays = [], rr_calls = 1\<rparr>"
          by (subst request_loop.simps) simp
        with False show ?thesis by auto
      next
        case s: (Inr db2)
        have step: "request_loop env w label spend cost attempt db =
            (case attempt_verdict w label attempt of
               Verdict_Return r \<Rightarrow> \<lparr>rr_result = Inr r, rr_db = db2, rr_delays = [], rr_calls = 1\<rparr>
             | Verdict_Throw e \<Rightarrow> \<lparr>rr_result = Inl e, rr_db = db2, rr_delays = [], rr_calls = 1\<rparr>
             | Verdict_Retry dl \<Rightarrow>
                 (let rest = request_loop env w label spend cost (Suc attempt) (rw_waiting w attempt db2)
                  in rest\<lparr>rr_delays := dl # rr_delays rest, rr_calls := Suc (rr_calls rest)\<rparr>))"
          using False by (subst request_loop.simps) (simp add: Inr p sr s)
        show ?thesis
        proof (cases "attempt_verdict w label attempt")
          case (Verdict_Return r)
          with verdict_return [OF Verdict_Return] False show ?thesis by (auto simp: step)
        next
          case (Verdict_Throw e)
          with False show ?thesis by (auto simp: step)
        next
          case (Verdict_Retry dl)
          define rest where "rest = request_loop env w label spend cost (Suc attempt) (rw_waiting w attempt db2)"
          note ih = "1.IH" [OF False Inr p [symmetric] refl sr [symmetric] refl s Verdict_Retry, folded rest_def]
          note v = verdict_retry [OF Verdict_Retry]
          have lt: "attempt < provider_max_attempts" using False by simp
          have "transient (rw_fetch w i)" if "attempt \<le> i" "Suc i < attempt + Suc (rr_calls rest)" for i
            using that v ih by (cases "i = attempt") auto
          moreover have "Suc (rr_calls rest) \<le> provider_max_attempts - attempt" using ih lt by linarith
          ultimately show ?thesis using ih v by (simp add: step Verdict_Retry rest_def [symmetric] Let_def)
        qed
      qed
    qed
  qed
qed

subsection \<open>Properties\<close>

text \<open>
  C13. A provider call fetches at most three times, waits at most five seconds between the
  attempts, repeats only after a network failure or a transient status, returns only a
  successful answer of its last attempt, and leaves no spend reservation of its own open behind it,
  whatever others commit to the ledger meanwhile, as long as they keep it sound and leave the rows
  of this call alone. When nobody else is at work, as many reservations are open as before.
\<close>

theorem provider_request_bounded:
  fixes w :: request_world and db :: spend_db and env :: env
    and url label :: string and body :: "string option" and spend :: "js_number option"
    and cost :: "(json \<Rightarrow> int option) option"
  assumes "spend_ok db" and "fresh_ids w 0 db" and "polite w"
  defines "res \<equiv> provider_request env w url body label spend cost db"
  shows "rr_calls res \<le> 3 \<and> list_all (\<lambda>d. 0 \<le> d \<and> d \<le> 5000) (rr_delays res) \<and>
    (\<forall>i. Suc i < rr_calls res \<longrightarrow> transient (rw_fetch w i)) \<and>
    (\<forall>r. rr_result res = Inr r \<longrightarrow> response_ok r \<and> rw_fetch w (rr_calls res - 1) = Fetch_Answers r) \<and>
    spend_ok (rr_db res) \<and>
    (\<forall>a \<in> set (sp_attempts (rr_db res)). sa_id a \<in> range (rw_id w) \<longrightarrow> sa_settled a \<noteq> None) \<and>
    (unaccompanied w \<longrightarrow> open_attempts (rr_db res) = open_attempts db)"
proof -
  have s: "own_settled w db" using assms(2) by (force simp: fresh_ids_def own_settled_iff)
  have "rr_calls r \<le> 3 \<and> list_all (\<lambda>d. 0 \<le> d \<and> d \<le> 5000) (rr_delays r) \<and>
    (\<forall>i. Suc i < rr_calls r \<longrightarrow> transient (rw_fetch w i)) \<and>
    (\<forall>a. rr_result r = Inr a \<longrightarrow> response_ok a \<and> rw_fetch w (rr_calls r - 1) = Fetch_Answers a) \<and>
    spend_ok (rr_db r) \<and> own_settled w (rr_db r) \<and>
    (unaccompanied w \<longrightarrow> open_attempts (rr_db r) = open_attempts db)"
    if "r = request_loop env w label sp co 0 db \<or>
      (\<exists>e. r = \<lparr>rr_result = Inl e, rr_db = db, rr_delays = [], rr_calls = 0\<rparr>)" for r sp co
    using that request_loop_calls [of env w label sp co 0 db] request_loop_ledger [OF assms(1,2) s assms(3), of env label sp co]
      assms(1) s
    by (auto simp: provider_max_attempts_def)
  moreover have "(\<exists>sp co. res = request_loop env w label sp co 0 db) \<or>
      (\<exists>e. res = \<lparr>rr_result = Inl e, rr_db = db, rr_delays = [], rr_calls = 0\<rparr>)"
    unfolding res_def provider_request_def Let_def by (auto split: sum.split)
  ultimately show ?thesis unfolding own_settled_iff by blast
qed

definition sample_world :: request_world where
  "sample_world =
     \<lparr>rw_scope = Some \<lparr>sc_workspace = ''w1'', sc_operation = ''job''\<rparr>, rw_subs = [],
       rw_date_parse = (\<lambda>_. JsNaN), rw_clock = (\<lambda>_. 1700000000000),
       rw_id = (\<lambda>i. replicate (Suc i) CHR ''a''), rw_guards = (\<lambda>_. []),
       rw_fetch = (\<lambda>i. if i = 0
         then Fetch_Answers \<lparr>hr_status = 429, hr_retry_after = Some ''2'', hr_body = None\<rparr>
         else Fetch_Answers \<lparr>hr_status = 200, hr_retry_after = None, hr_body = None\<rparr>),
       rw_calling = (\<lambda>_. id), rw_waiting = (\<lambda>_. id)\<rparr>"

theorem provider_request_bounded_witness:
  "rr_calls (provider_request sample_env sample_world ''https://api.groq.com/'' None ''Groq'' (Some (JsNum 10)) None
      empty_spend) \<le> 3 \<and>
   open_attempts (rr_db (provider_request sample_env sample_world ''https://api.groq.com/'' None ''Groq''
      (Some (JsNum 10)) None empty_spend)) = 0"
proof -
  have e: "spend_ok empty_spend" by (simp add: spend_ok_def empty_spend_def committed_def)
  have "inj (rw_id sample_world)" by (rule injI) (simp add: sample_world_def)
  then have f: "fresh_ids sample_world 0 empty_spend"
    by (simp add: fresh_ids_def empty_spend_def sample_world_def)
  have g: "polite sample_world" by (simp add: polite_def sample_world_def)
  have "unaccompanied sample_world" by (simp add: unaccompanied_def sample_world_def)
  moreover have "open_attempts empty_spend = 0" by (simp add: open_attempts_def empty_spend_def)
  ultimately show ?thesis
    using provider_request_bounded [OF e f g, of sample_env "''https://api.groq.com/''" None "''Groq''" "Some (JsNum 10)" None] by simp
qed

end
