(* ===== verification/Languages.thy ===== *)
theory Languages
  imports Js_Data
begin

text \<open>
  Language codes and vocabulary terms: \<^verbatim>\<open>webapp/src/lib/languages.ts\<close>, and the query
  parameters the worker derives from them (\<open>deepgramLanguageParams\<close>).
\<close>

definition languages :: "(string \<times> string) list" where
  "languages =
     [(''ar'', ''Arabic''), (''zh'', ''Chinese''), (''cs'', ''Czech''), (''da'', ''Danish''),
      (''nl'', ''Dutch''), (''en'', ''English''), (''fi'', ''Finnish''), (''fr'', ''French''),
      (''de'', ''German''), (''el'', ''Greek''), (''he'', ''Hebrew''), (''hi'', ''Hindi''),
      (''id'', ''Indonesian''), (''it'', ''Italian''), (''ja'', ''Japanese''), (''ko'', ''Korean''),
      (''no'', ''Norwegian''), (''pl'', ''Polish''), (''pt'', ''Portuguese''), (''ru'', ''Russian''),
      (''es'', ''Spanish''), (''sv'', ''Swedish''), (''tr'', ''Turkish''), (''uk'', ''Ukrainian''),
      (''vi'', ''Vietnamese'')]"

definition is_language_code :: "string option \<Rightarrow> bool" where
  "is_language_code v = (case v of Some s \<Rightarrow> s \<in> fst ` set languages | None \<Rightarrow> False)"

definition language_name :: "string option \<Rightarrow> string option" where
  "language_name code = (case code of Some c \<Rightarrow> map_of languages c | None \<Rightarrow> None)"

definition language_code_from_name :: "json option \<Rightarrow> string option" where
  "language_code_from_name name =
     (case json_string name of
        None \<Rightarrow> None
      | Some s \<Rightarrow>
          (let wanted = to_lower (trim s) in
           if wanted = ''mandarin'' then Some ''zh''
           else case List.find (\<lambda>(code, label). to_lower label = wanted) languages of
               Some (code, _) \<Rightarrow> Some code
             | None \<Rightarrow> if is_language_code (Some wanted) then Some wanted else None))"

definition max_vocabulary_terms :: nat where
  "max_vocabulary_terms = 100"

definition max_vocabulary_term_length :: nat where
  "max_vocabulary_term_length = 40"

text \<open>\<open>text.split(/[\n,;]/)\<close>.\<close>

definition is_term_separator :: "char \<Rightarrow> bool" where
  "is_term_separator c \<longleftrightarrow> c = CHR 0x0A \<or> c = CHR '','' \<or> c = CHR '';''"

fun split_terms :: "string \<Rightarrow> string list" where
  "split_terms [] = [[]]"
| "split_terms (c # cs) =
     (if is_term_separator c then [] # split_terms cs
      else (case split_terms cs of [] \<Rightarrow> [[c]] | w # ws \<Rightarrow> (c # w) # ws))"

definition blank_control :: "char \<Rightarrow> char" where
  "blank_control c = (if (of_char c :: nat) \<le> 31 \<or> (of_char c :: nat) = 127 then CHR '' '' else c)"

definition clean_term :: "string \<Rightarrow> string" where
  "clean_term raw = take max_vocabulary_term_length (trim (collapse_spaces (map blank_control raw)))"

text \<open>The loop over the raw terms, with the lower-case forms seen and the terms kept so far.\<close>

fun vocabulary_loop :: "string list \<Rightarrow> string list \<Rightarrow> string list \<Rightarrow> string list" where
  "vocabulary_loop [] seen terms = terms"
| "vocabulary_loop (raw # raws) seen terms =
     (let t = clean_term raw in
      if t = [] \<or> to_lower t \<in> set seen then vocabulary_loop raws seen terms
      else if max_vocabulary_terms \<le> Suc (length terms) then terms @ [t]
      else vocabulary_loop raws (seen @ [to_lower t]) (terms @ [t]))"

definition parse_vocabulary :: "string \<Rightarrow> string list" where
  "parse_vocabulary text = vocabulary_loop (split_terms text) [] []"

fun vocabulary_prompt_loop :: "nat \<Rightarrow> string list \<Rightarrow> string \<Rightarrow> string" where
  "vocabulary_prompt_loop max_chars [] out = out"
| "vocabulary_prompt_loop max_chars (t # ts) out =
     (let nxt = (if out \<noteq> [] then out @ '', '' @ t else t) in
      if max_chars < length nxt then out else vocabulary_prompt_loop max_chars ts nxt)"

definition vocabulary_prompt :: "string list \<Rightarrow> string" where
  "vocabulary_prompt terms = vocabulary_prompt_loop 600 terms []"

subsection \<open>Query parameters\<close>

record transcribe_hints =
  th_terms :: "string list"
  th_language :: "string option"

definition deepgram_language_params :: "transcribe_hints \<Rightarrow> string" where
  "deepgram_language_params hints =
     (if truthy (th_language hints)
      then ''&language='' @ encode_uri_component (the (th_language hints))
      else ''&detect_language=true'') @
     concat (map (\<lambda>t. ''&keyterm='' @ encode_uri_component t) (take 50 (th_terms hints)))"

subsection \<open>What the vocabulary parser guarantees\<close>

definition vocabulary_ok :: "string list \<Rightarrow> bool" where
  "vocabulary_ok terms \<longleftrightarrow>
     length terms \<le> max_vocabulary_terms \<and> distinct (map to_lower terms) \<and>
     (\<forall>t \<in> set terms. t \<noteq> [] \<and> length t \<le> max_vocabulary_term_length \<and> \<not> list_ex is_term_separator t)"

lemma split_terms_clean: "w \<in> set (split_terms s) \<Longrightarrow> \<not> list_ex is_term_separator w"
proof (induction s arbitrary: w)
  case Nil
  then show ?case by simp
next
  case (Cons c cs)
  then show ?case by (cases "split_terms cs") (auto split: if_splits)
qed

lemma set_collapse_spaces: "set (collapse_spaces s) \<subseteq> insert CHR '' '' (set s)"
proof (induction s)
  case Nil
  then show ?case by simp
next
  case (Cons c cs)
  then show ?case by (cases cs) auto
qed

lemma set_trim: "set (trim s) \<subseteq> set s"
  unfolding trim_def trim_end_def trim_start_def by (auto dest!: set_dropWhileD)

lemma clean_term_clean: "\<not> list_ex is_term_separator raw \<Longrightarrow> \<not> list_ex is_term_separator (clean_term raw)"
proof -
  assume raw: "\<not> list_ex is_term_separator raw"
  have "\<not> is_term_separator c" if "c \<in> set (clean_term raw)" for c
  proof -
    have "c \<in> insert CHR '' '' (blank_control ` set raw)"
      using that set_trim [of "collapse_spaces (map blank_control raw)"]
        set_collapse_spaces [of "map blank_control raw"]
      by (auto simp: clean_term_def dest!: in_set_takeD)
    then show ?thesis using raw
      by (auto simp: is_term_separator_def blank_control_def list_ex_iff)
  qed
  then show ?thesis by (simp add: list_ex_iff)
qed

lemma vocabulary_loop_ok:
  "\<forall>raw \<in> set raws. \<not> list_ex is_term_separator raw \<Longrightarrow> vocabulary_ok terms \<Longrightarrow>
    length terms < max_vocabulary_terms \<Longrightarrow> set seen = to_lower ` set terms \<Longrightarrow>
    vocabulary_ok (vocabulary_loop raws seen terms)"
proof (induction raws seen terms rule: vocabulary_loop.induct)
  case (1 seen terms)
  then show ?case by simp
next
  case (2 raw raws seen terms)
  show ?case
  proof (cases "clean_term raw = [] \<or> to_lower (clean_term raw) \<in> set seen")
    case True
    have "vocabulary_ok (vocabulary_loop raws seen terms)"
      by (rule "2.IH"(1) [OF refl True]) (use "2.prems" in simp_all)
    with True show ?thesis by (simp add: Let_def)
  next
    case False
    have "\<not> list_ex is_term_separator (clean_term raw)"
      by (rule clean_term_clean) (use "2.prems" in simp)
    moreover have "length (clean_term raw) \<le> max_vocabulary_term_length" by (simp add: clean_term_def)
    ultimately have ok: "vocabulary_ok (terms @ [clean_term raw])"
      using "2.prems" False by (simp add: vocabulary_ok_def)
    show ?thesis
    proof (cases "max_vocabulary_terms \<le> Suc (length terms)")
      case True
      with False ok show ?thesis by (simp add: Let_def)
    next
      case le: False
      have "vocabulary_ok (vocabulary_loop raws (seen @ [to_lower (clean_term raw)]) (terms @ [clean_term raw]))"
        by (rule "2.IH"(2) [OF refl False le]) (use "2.prems" ok le in simp_all)
      with False le show ?thesis by (simp add: Let_def)
    qed
  qed
qed

lemma parse_vocabulary_ok: "vocabulary_ok (parse_vocabulary text)"
  unfolding parse_vocabulary_def
  by (rule vocabulary_loop_ok) (auto simp: vocabulary_ok_def max_vocabulary_terms_def dest: split_terms_clean)

lemma vocabulary_prompt_loop_bound:
  "length out \<le> max_chars \<Longrightarrow> length (vocabulary_prompt_loop max_chars terms out) \<le> max_chars"
  by (induction max_chars terms out rule: vocabulary_prompt_loop.induct) (simp_all add: Let_def)

lemma vocabulary_prompt_bound: "length (vocabulary_prompt terms) \<le> 600"
  by (simp add: vocabulary_prompt_def vocabulary_prompt_loop_bound)

end
