(* ===== verification/Note_Templates.thy ===== *)
theory Note_Templates
  imports Js_Runtime
begin

text \<open>
  The hosted notes templates: \<^verbatim>\<open>webapp/src/lib/noteTemplates.ts\<close>. The table is the source's,
  entry by entry; the lookups fall back to the General template.
\<close>

datatype note_template_id =
    Template_General | Template_Standup | Template_Sales | Template_One_On_One
  | Template_Interview | Template_Lecture | Template_Custom

record note_template_section =
  ts_heading :: string
  ts_hint :: string

record note_template =
  nt_id :: string
  nt_label :: string
  nt_description :: string
  nt_sections :: "note_template_section list"
  nt_guidance :: string

fun template_id_text :: "note_template_id \<Rightarrow> string" where
  "template_id_text Template_General = ''general''"
| "template_id_text Template_Standup = ''standup''"
| "template_id_text Template_Sales = ''sales''"
| "template_id_text Template_One_On_One = ''one_on_one''"
| "template_id_text Template_Interview = ''interview''"
| "template_id_text Template_Lecture = ''lecture''"
| "template_id_text Template_Custom = ''custom''"

definition template_section :: "string \<Rightarrow> string \<Rightarrow> note_template_section" where
  "template_section heading hint = \<lparr>ts_heading = heading, ts_hint = hint\<rparr>"

fun note_templates :: "note_template_id \<Rightarrow> note_template" where
  "note_templates Template_General =
     \<lparr>nt_id = ''general'', nt_label = ''General'',
       nt_description = ''Overview, key points, decisions and action items.'',
       nt_sections =
        [],
       nt_guidance = ''''\<rparr>"
| "note_templates Template_Standup =
     \<lparr>nt_id = ''standup'', nt_label = ''Standup'',
       nt_description = ''Progress, plans and blockers, person by person.'',
       nt_sections =
        [template_section (''Progress'')
           (''What each person says they finished or moved forward, naming the person.''),
         template_section (''Plans'')
           (''What each person says they will work on next, naming the person.''),
         template_section (''Blockers'')
           (''Anything blocking or slowing someone, and who could unblock it.'')],
       nt_guidance = ''This is a team standup. Keep bullets short and attribute each one to the person who said it.''\<rparr>"
| "note_templates Template_Sales =
     \<lparr>nt_id = ''sales'', nt_label = ''Sales call'',
       nt_description = ''Needs, objections, buying process and next steps.'',
       nt_sections =
        [template_section (''Customer needs'')
           (''Problems, goals and requirements the prospect described.''),
         template_section (''Objections and concerns'')
           (''Hesitations, risks, competitors or pricing pushback raised.''),
         template_section (''Budget, timeline and decision makers'')
           (''Any stated budget, deadlines, approval steps or people involved.''),
         template_section (''Next steps'')
           (''Agreed follow-ups with owners and dates when stated.'')],
       nt_guidance = ''This is a sales or customer call. Distinguish what the customer said from what the seller said. Do not assume a deal stage that was not stated.''\<rparr>"
| "note_templates Template_One_On_One =
     \<lparr>nt_id = ''one_on_one'', nt_label = ''1:1'',
       nt_description = ''Topics, feedback, support needed and commitments.'',
       nt_sections =
        [template_section (''Topics discussed'')
           (''The subjects covered, in the order discussed.''),
         template_section (''Feedback and recognition'')
           (''Feedback given in either direction and wins that were called out.''),
         template_section (''Concerns and support needed'')
           (''Worries, obstacles or help one person asked of the other.''),
         template_section (''Commitments'')
           (''What each person agreed to do, naming the person.'')],
       nt_guidance = ''This is a private one-on-one conversation. Keep a respectful, factual tone and avoid characterising the people.''\<rparr>"
| "note_templates Template_Interview =
     \<lparr>nt_id = ''interview'', nt_label = ''Interview'',
       nt_description = ''Background, strengths, concerns and questions asked.'',
       nt_sections =
        [template_section (''Background'')
           (''Role discussed and the candidate'' @ [CHR 0x27] @ ''s stated experience.''),
         template_section (''Strengths'')
           (''Evidence of skills or accomplishments the candidate gave, in their own words.''),
         template_section (''Concerns'')
           (''Gaps or unclear answers, stated neutrally.''),
         template_section (''Questions asked'')
           (''The main questions the interviewer asked.''),
         template_section (''Open questions'')
           (''Topics worth following up on.'')],
       nt_guidance = ''This is a job interview. Report only what was said. Do not recommend hiring or rejecting, do not rate the candidate, and never infer or mention protected characteristics.''\<rparr>"
| "note_templates Template_Lecture =
     \<lparr>nt_id = ''lecture'', nt_label = ''Lecture'',
       nt_description = ''Key concepts, definitions, examples and review questions.'',
       nt_sections =
        [template_section (''Key concepts'')
           (''The main ideas taught, each as one self-contained bullet.''),
         template_section (''Definitions'')
           (''Terms the speaker defined, as '' @ [CHR 0x27] @ ''Term: meaning'' @ [CHR 0x27] @ ''.''),
         template_section (''Examples'')
           (''Worked examples, demonstrations or case studies mentioned.''),
         template_section (''Questions to review'')
           (''Questions a student could use to test their understanding, based only on what was taught.'')],
       nt_guidance = ''This is a lecture or talk. Capture the content accurately for later study. Decisions and action items are usually empty; leave them empty rather than inventing any.''\<rparr>"
| "note_templates Template_Custom =
     \<lparr>nt_id = ''custom'', nt_label = ''Custom'',
       nt_description = ''Treated like General for hosted notes.'',
       nt_sections =
        [],
       nt_guidance = ''''\<rparr>"

definition pickable_templates :: "note_template list" where
  "pickable_templates =
     map note_templates
       [Template_General, Template_Standup, Template_Sales, Template_One_On_One, Template_Interview, Template_Lecture]"

definition template_ids :: "note_template_id list" where
  "template_ids =
     [Template_General, Template_Standup, Template_Sales, Template_One_On_One, Template_Interview,
      Template_Lecture, Template_Custom]"

definition template_id_of :: "string option \<Rightarrow> note_template_id option" where
  "template_id_of v =
     (case v of None \<Rightarrow> None | Some s \<Rightarrow> List.find (\<lambda>t. template_id_text t = s) template_ids)"

definition is_note_template_id :: "string option \<Rightarrow> bool" where
  "is_note_template_id v \<longleftrightarrow> template_id_of v \<noteq> None"

definition note_template_for :: "string option \<Rightarrow> note_template" where
  "note_template_for v =
     (case template_id_of v of Some t \<Rightarrow> note_templates t | None \<Rightarrow> note_templates Template_General)"

definition max_notes_regenerations :: nat where
  "max_notes_regenerations = 3"

lemma note_template_id: "nt_id (note_templates t) = template_id_text t"
  by (cases t) simp_all

lemma template_id_round_trip: "template_id_of (Some (template_id_text t)) = Some t"
  by (cases t) (simp_all add: template_id_of_def template_ids_def)

lemma note_template_for_id:
  "nt_id (note_template_for v) = (if is_note_template_id v then the v else ''general'')"
  by (cases v) (auto simp: note_template_for_def is_note_template_id_def template_id_of_def template_ids_def
      note_template_id split: if_splits)

end
