(* ===== verification/Provider_Output.thy ===== *)
theory Provider_Output
  imports Provider_Client Languages Note_Templates "HOL-Library.Product_Lexorder" "HOL-Library.Word"
begin

text \<open>
  What the worker makes of audio and of provider answers: the pure part of
  \<^verbatim>\<open>webapp/src/lib/managedWorker.ts\<close>. Transcripts become utterances, audio becomes windows
  with a WAV header, model output becomes a summary with bounded fields, and a summary
  becomes the text of a note.

  A parsed answer is a \<open>json\<close> value (\<open>None\<close> is \<open>undefined\<close>); times are exact rationals of
  milliseconds; bytes are 8-bit words. \<open>Date.parse\<close> is an argument.
\<close>

subsection \<open>Utterances\<close>

datatype voice_channel = Channel_You | Channel_Them

record utterance =
  ut_speaker :: string
  ut_text :: string
  ut_start :: rat
  ut_end :: rat

record channel_transcript =
  ct_utterances :: "utterance list"
  ct_duration :: int

definition text_of :: "json option \<Rightarrow> string" where
  "text_of v = (case json_string v of Some s \<Rightarrow> trim s | None \<Rightarrow> [])"

definition seconds_ms :: "json option \<Rightarrow> int" where
  "seconds_ms v = math_round ((case finite_number v of Some q \<Rightarrow> q | None \<Rightarrow> 0) * 1000)"

text \<open>The \<open>Map\<close> from raw diarization ids to dense numbers is the list of the ids in order of first appearance.\<close>

fun index_in :: "rat list \<Rightarrow> rat \<Rightarrow> nat option" where
  "index_in [] x = None"
| "index_in (y # ys) x = (if y = x then Some 1 else map_option Suc (index_in ys x))"

definition them_label :: "nat \<Rightarrow> string" where
  "them_label n = ''them-'' @ digits_of n"

fun deepgram_loop :: "voice_channel \<Rightarrow> rat list \<Rightarrow> json list \<Rightarrow> utterance list" where
  "deepgram_loop channel order [] = []"
| "deepgram_loop channel order (raw # raws) =
     (let text = text_of (json_get ''transcript'' (Some raw));
          start = seconds_ms (json_get ''start'' (Some raw));
          stop = max start (seconds_ms (json_get ''end'' (Some raw)))
      in if text = [] then deepgram_loop channel order raws
         else if channel = Channel_You
         then \<lparr>ut_speaker = ''you'', ut_text = text, ut_start = of_int start, ut_end = of_int stop\<rparr>
                # deepgram_loop channel order raws
         else case finite_number (json_get ''speaker'' (Some raw)) of
             None \<Rightarrow>
               \<lparr>ut_speaker = ''them'', ut_text = text, ut_start = of_int start, ut_end = of_int stop\<rparr>
                 # deepgram_loop channel order raws
           | Some raw_id \<Rightarrow>
               (let order' = (if raw_id \<in> set order then order else order @ [raw_id]) in
                \<lparr>ut_speaker = them_label (the (index_in order' raw_id)), ut_text = text,
                  ut_start = of_int start, ut_end = of_int stop\<rparr>
                 # deepgram_loop channel order' raws))"

definition first_item :: "json option \<Rightarrow> json option" where
  "first_item v = (case json_items v of x # _ \<Rightarrow> Some x | [] \<Rightarrow> None)"

definition max_end :: "utterance list \<Rightarrow> int" where
  "max_end us = \<lfloor>foldr (\<lambda>u m. max (ut_end u) m) us 0\<rfloor>"

definition parse_deepgram_utterances :: "json option \<Rightarrow> voice_channel \<Rightarrow> channel_transcript" where
  "parse_deepgram_utterances value' channel =
     (if \<not> is_json_object value' then \<lparr>ct_utterances = [], ct_duration = 0\<rparr>
      else
        let results = json_get ''results'' value';
            us = deepgram_loop channel [] (json_items (json_get ''utterances'' results));
            whole = text_of (json_get ''transcript''
              (first_item (json_get ''alternatives'' (first_item (json_get ''channels'' results)))));
            us' = (if us = [] \<and> whole \<noteq> []
              then [\<lparr>ut_speaker = (if channel = Channel_You then ''you'' else ''them''), ut_text = whole,
                     ut_start = 0, ut_end = 0\<rparr>]
              else us)
        in \<lparr>ct_utterances = us',
            ct_duration = (case finite_number (json_get ''duration'' (json_get ''metadata'' value')) of
                Some q \<Rightarrow> math_round (q * 1000) | None \<Rightarrow> max_end us')\<rparr>)"

definition groq_segment :: "string \<Rightarrow> rat \<Rightarrow> json \<Rightarrow> utterance list" where
  "groq_segment channel offset segment =
     (let text = text_of (json_get ''text'' (Some segment));
          start = offset + of_int (seconds_ms (json_get ''start'' (Some segment)));
          stop = max start (offset + of_int (seconds_ms (json_get ''end'' (Some segment))))
      in if text = [] then []
         else [\<lparr>ut_speaker = channel, ut_text = text, ut_start = start, ut_end = stop\<rparr>])"

definition parse_groq_utterances :: "json option \<Rightarrow> string \<Rightarrow> rat \<Rightarrow> channel_transcript" where
  "parse_groq_utterances value' channel offset =
     (if \<not> is_json_object value' then \<lparr>ct_utterances = [], ct_duration = 0\<rparr>
      else \<lparr>ct_utterances =
             concat (map (groq_segment channel offset) (json_items (json_get ''segments'' value'))),
           ct_duration = (case finite_number (json_get ''duration'' value') of
               Some q \<Rightarrow> math_round (q * 1000) | None \<Rightarrow> 0)\<rparr>)"

text \<open>The comparator orders by start, end, own voice first, then position; a stable sort on the first three.\<close>

definition utterance_key :: "utterance \<Rightarrow> rat \<times> rat \<times> int" where
  "utterance_key u = (ut_start u, ut_end u, if ut_speaker u = ''you'' then -1 else 0)"

definition merge_utterances :: "utterance list list \<Rightarrow> utterance list" where
  "merge_utterances channels = sort_key utterance_key (concat channels)"

subsection \<open>Audio\<close>

type_synonym byte = "8 word"

definition pcm_sample_rate :: nat where
  "pcm_sample_rate = 48000"

definition pcm_bytes_per_sample :: nat where
  "pcm_bytes_per_sample = 2"

definition byte_at :: "nat \<Rightarrow> nat \<Rightarrow> byte" where
  "byte_at k n = word_of_nat (n div 256 ^ k)"

definition u16le :: "nat \<Rightarrow> byte list" where
  "u16le n = [byte_at 0 n, byte_at 1 n]"

definition u32le :: "nat \<Rightarrow> byte list" where
  "u32le n = [byte_at 0 n, byte_at 1 n, byte_at 2 n, byte_at 3 n]"

definition ascii_bytes :: "string \<Rightarrow> byte list" where
  "ascii_bytes s = map (\<lambda>c. word_of_nat (of_char c)) s"

text \<open>\<open>None\<close>: \<open>writeUInt32LE\<close> throws on a value of 33 bits or more.\<close>

definition pcm_to_wav :: "byte list \<Rightarrow> nat \<Rightarrow> byte list option" where
  "pcm_to_wav pcm sample_rate =
     (let data_length = length pcm - length pcm mod pcm_bytes_per_sample in
      if 2 ^ 32 \<le> 36 + data_length \<or> 2 ^ 32 \<le> sample_rate * pcm_bytes_per_sample then None
      else Some
        (ascii_bytes ''RIFF'' @ u32le (36 + data_length) @ ascii_bytes ''WAVE'' @ ascii_bytes ''fmt '' @
         u32le 16 @ u16le 1 @ u16le 1 @ u32le sample_rate @ u32le (sample_rate * pcm_bytes_per_sample) @
         u16le pcm_bytes_per_sample @ u16le (8 * pcm_bytes_per_sample) @ ascii_bytes ''data'' @
         u32le data_length @ take data_length pcm))"

text \<open>
  The inner loop over one chunk: \<open>acc\<close> is what \<open>parts\<close> holds, and the windows completed
  within the chunk are emitted in order.
\<close>

function window_chunk :: "nat \<Rightarrow> 'b list \<Rightarrow> 'b list \<Rightarrow> 'b list list \<times> 'b list" where
  "window_chunk m acc chunk =
     (if chunk = [] \<or> m \<le> length acc then ([], acc)
      else
        let k = min (m - length acc) (length chunk);
            acc' = acc @ take k chunk
        in if length acc' = m then apfst (Cons acc') (window_chunk m [] (drop k chunk))
           else window_chunk m acc' (drop k chunk))"
  by pat_completeness auto
termination
  by (relation "measure (\<lambda>(m, acc, chunk). length chunk)") auto

declare window_chunk.simps [simp del]

fun window_chunks :: "nat \<Rightarrow> 'b list \<Rightarrow> 'b list list \<Rightarrow> 'b list list" where
  "window_chunks m acc [] = (if acc \<noteq> [] then [acc] else [])"
| "window_chunks m acc (chunk # chunks) =
     (let (windows, acc') = window_chunk m acc chunk in windows @ window_chunks m acc' chunks)"

text \<open>\<open>None\<close>: a window of no bytes would never advance.\<close>

definition audio_windows :: "nat \<Rightarrow> nat \<Rightarrow> 'b list list \<Rightarrow> 'b list list option" where
  "audio_windows sample_rate window_ms chunks =
     (let max_window = (sample_rate * pcm_bytes_per_sample * window_ms) div 1000 in
      if max_window = 0 then None else Some (window_chunks max_window [] chunks))"

subsection \<open>Summaries\<close>

record summary_section =
  ss_heading :: string
  ss_items :: "string list"

record summary_action =
  as_text :: string
  as_owner :: "string option"
  as_due :: "rat option"

record managed_summary =
  ms_title :: "string option"
  ms_overview :: string
  ms_key_points :: "string list"
  ms_decisions :: "string list"
  ms_actions :: "summary_action list"
  ms_sections :: "summary_section list"

definition string_list :: "json option \<Rightarrow> nat \<Rightarrow> nat \<Rightarrow> string list" where
  "string_list v max_items max_length =
     take max_items (map (\<lambda>s. take max_length (trim s))
       (filter (\<lambda>s. trim s \<noteq> []) (List.map_filter (\<lambda>x. json_string (Some x)) (json_items v))))"

text \<open>\<open>/^\d{4}-\d{2}-\d{2}/\<close> on the trimmed text.\<close>

definition starts_with_date :: "string \<Rightarrow> bool" where
  "starts_with_date s \<longleftrightarrow> 10 \<le> length s \<and>
     list_all is_ascii_digit (take 4 s) \<and> s ! 4 = CHR ''-'' \<and>
     list_all is_ascii_digit (take 2 (drop 5 s)) \<and> s ! 7 = CHR ''-'' \<and>
     list_all is_ascii_digit (take 2 (drop 8 s))"

definition parse_due :: "(string \<Rightarrow> js_number) \<Rightarrow> json option \<Rightarrow> rat option" where
  "parse_due date_parse v =
     (case json_string v of
        None \<Rightarrow> None
      | Some s \<Rightarrow>
          if \<not> starts_with_date (trim s) then None
          else js_finite (date_parse (take 10 (trim s) @ ''T00:00:00.000Z'')))"

definition parse_section :: "json \<Rightarrow> summary_section list" where
  "parse_section entry =
     (if \<not> is_json_object (Some entry) then []
      else
        let heading = (case json_string (json_get ''heading'' (Some entry)) of
              Some s \<Rightarrow> take 80 (collapse_spaces (trim s)) | None \<Rightarrow> []);
            items = string_list (json_get ''items'' (Some entry)) 30 1000
        in if heading \<noteq> [] \<and> items \<noteq> [] then [\<lparr>ss_heading = heading, ss_items = items\<rparr>] else [])"

definition parse_sections :: "json option \<Rightarrow> summary_section list" where
  "parse_sections v = take 12 (concat (map parse_section (json_items v)))"

definition parse_action :: "(string \<Rightarrow> js_number) \<Rightarrow> json \<Rightarrow> summary_action list" where
  "parse_action date_parse item =
     (case json_string (json_get ''text'' (Some item)) of
        None \<Rightarrow> []
      | Some raw \<Rightarrow>
          (let text = take 2000 (trim raw) in
           if text = [] then []
           else [\<lparr>as_text = text,
                  as_owner = (case json_string (json_get ''owner'' (Some item)) of
                      Some o' \<Rightarrow> if trim o' \<noteq> [] then Some (take 200 (trim o')) else None
                    | None \<Rightarrow> None),
                  as_due = parse_due date_parse
                    (json_or (json_get ''due'' (Some item)) (json_get ''dueAt'' (Some item)))\<rparr>]))"

definition worker_error :: "string \<Rightarrow> provider_error + 'a" where
  "worker_error m = Inl (Managed_Worker_Error m)"

definition is_array :: "json option \<Rightarrow> bool" where
  "is_array v = (case v of Some (JArray _) \<Rightarrow> True | _ \<Rightarrow> False)"

definition summary_title :: "json option \<Rightarrow> string option" where
  "summary_title v =
     (case json_string v of
        Some t \<Rightarrow> if trim t \<noteq> [] then Some (take 120 (collapse_spaces (trim t))) else None
      | None \<Rightarrow> None)"

definition overview_source :: "json option \<Rightarrow> string" where
  "overview_source v =
     (case json_string (json_get ''overview'' v) of
        Some s \<Rightarrow> s
      | None \<Rightarrow> (case json_string (json_get ''summary'' v) of Some s \<Rightarrow> s | None \<Rightarrow> []))"

definition raw_actions :: "json option \<Rightarrow> json list" where
  "raw_actions v =
     (if is_array (json_get ''action_items'' v) then json_items (json_get ''action_items'' v)
      else json_items (json_get ''actionItems'' v))"

definition summary_fields :: "(string \<Rightarrow> js_number) \<Rightarrow> json option \<Rightarrow> managed_summary" where
  "summary_fields date_parse v =
     \<lparr>ms_title = summary_title (json_get ''title'' v),
       ms_overview = take 20000 (trim (overview_source v)),
       ms_key_points = string_list (json_or (json_get ''key_points'' v) (json_get ''keyPoints'' v)) 50 1000,
       ms_decisions = string_list (json_get ''decisions'' v) 50 1000,
       ms_actions = take 1000 (concat (map (parse_action date_parse) (raw_actions v))),
       ms_sections = parse_sections (json_get ''sections'' v)\<rparr>"

definition summary_empty :: "managed_summary \<Rightarrow> bool" where
  "summary_empty s \<longleftrightarrow> ms_overview s = [] \<and> ms_key_points s = [] \<and> ms_decisions s = [] \<and>
     ms_actions s = [] \<and> ms_sections s = []"

definition parse_summary ::
  "(string \<Rightarrow> js_number) \<Rightarrow> json option \<Rightarrow> provider_error + managed_summary" where
  "parse_summary date_parse v =
     (if \<not> is_json_object v \<or> is_array v then worker_error ''summary response is not an object''
      else if summary_empty (summary_fields date_parse v)
      then worker_error ''summary response has no usable content''
      else Inr (summary_fields date_parse v))"

subsection \<open>Free text around the JSON\<close>

text \<open>\<open>.replace(/^```(?:json)?\s*/i, "")\<close>.\<close>

definition strip_open_fence :: "string \<Rightarrow> string" where
  "strip_open_fence s =
     (case strip_prefix ''```'' s of
        None \<Rightarrow> s
      | Some r \<Rightarrow>
          dropWhile is_js_space (if to_lower (take 4 r) = ''json'' then drop 4 r else r))"

text \<open>\<open>.replace(/\s*```$/, "")\<close>.\<close>

definition strip_close_fence :: "string \<Rightarrow> string" where
  "strip_close_fence s =
     (if suffix ''```'' s then trim_end (take (length s - 3) s) else s)"

fun index_of_char :: "char \<Rightarrow> string \<Rightarrow> nat option" where
  "index_of_char c [] = None"
| "index_of_char c (d # ds) = (if d = c then Some 0 else map_option Suc (index_of_char c ds))"

definition last_index_of_char :: "char \<Rightarrow> string \<Rightarrow> nat option" where
  "last_index_of_char c s = map_option (\<lambda>i. length s - 1 - i) (index_of_char c (rev s))"

definition extract_json_object :: "string \<Rightarrow> provider_error + json" where
  "extract_json_object text =
     (let stripped = strip_close_fence (strip_open_fence (trim text)) in
      case json_parse stripped of
        Some v \<Rightarrow> Inr v
      | None \<Rightarrow>
          (case (index_of_char CHR ''{'' stripped, last_index_of_char CHR ''}'' stripped) of
             (Some first, Some last') \<Rightarrow>
               if last' \<le> first then worker_error ''summary provider returned malformed output''
               else (case json_parse (take (last' + 1 - first) (drop first stripped)) of
                   Some v \<Rightarrow> Inr v
                 | None \<Rightarrow> worker_error ''summary provider returned malformed output'')
           | _ \<Rightarrow> worker_error ''summary provider returned malformed output''))"

definition type_is :: "string \<Rightarrow> json \<Rightarrow> bool" where
  "type_is t v \<longleftrightarrow> json_get ''type'' (Some v) = Some (JString t)"

definition output_text :: "json \<Rightarrow> string list" where
  "output_text item =
     (if \<not> type_is ''message'' item then []
      else List.map_filter
        (\<lambda>part. if type_is ''output_text'' part \<or> type_is ''text'' part
                then json_string (json_get ''text'' (Some part)) else None)
        (json_items (json_get ''content'' (Some item))))"

definition is_tool_block :: "json \<Rightarrow> bool" where
  "is_tool_block block \<longleftrightarrow> type_is ''tool_use'' block \<and>
     json_get ''name'' (Some block) = Some (JString ''record_meeting_notes'') \<and>
     is_json_object (json_get ''input'' (Some block))"

definition response_text :: "json option \<Rightarrow> string" where
  "response_text response =
     (let from_output = trim (concat (concat (map output_text (json_items (json_get ''output'' response)))));
          top_level = (case json_string (json_get ''output_text'' response) of Some s \<Rightarrow> s | None \<Rightarrow> []);
          from_blocks = concat (map (\<lambda>block.
              if type_is ''text'' block
              then (case json_string (json_get ''text'' (Some block)) of Some s \<Rightarrow> s | None \<Rightarrow> []) else [])
            (json_items (json_get ''content'' response)))
      in trim (if from_output \<noteq> [] then from_output
               else if top_level \<noteq> [] then top_level else from_blocks))"

definition summary_from_text :: "(string \<Rightarrow> js_number) \<Rightarrow> string \<Rightarrow> provider_error + managed_summary" where
  "summary_from_text date_parse text =
     (if text = [] then worker_error ''summary provider returned no content''
      else
        let plain = \<lparr>ms_title = None, ms_overview = take 20000 text, ms_key_points = [],
                     ms_decisions = [], ms_actions = [], ms_sections = []\<rparr>
        in case extract_json_object text of
             Inl _ \<Rightarrow> Inr plain
           | Inr v \<Rightarrow> (case parse_summary date_parse (Some v) of Inr s \<Rightarrow> Inr s | Inl _ \<Rightarrow> Inr plain))"

definition summary_from_response ::
  "(string \<Rightarrow> js_number) \<Rightarrow> json option \<Rightarrow> provider_error + managed_summary" where
  "summary_from_response date_parse response =
     (case List.find is_tool_block (json_items (json_get ''content'' response)) of
        Some block \<Rightarrow>
          (case parse_summary date_parse (json_get ''input'' (Some block)) of
             Inr s \<Rightarrow> Inr s
           | Inl _ \<Rightarrow> summary_from_text date_parse (response_text response))
      | None \<Rightarrow> summary_from_text date_parse (response_text response))"

subsection \<open>The text of a note\<close>

definition strip_nul :: "string \<Rightarrow> string" where
  "strip_nul s = filter (\<lambda>c. c \<noteq> CHR 0x00) s"

definition bullet_block :: "string \<Rightarrow> string list \<Rightarrow> string" where
  "bullet_block heading items =
     join_names [CHR 0x0A] ((''## '' @ heading) # map (\<lambda>item. ''- '' @ item) items)"

definition format_summary_text :: "managed_summary \<Rightarrow> string" where
  "format_summary_text s =
     (let sections =
        [ms_overview s] @
        (if ms_key_points s \<noteq> [] then [bullet_block ''Key points'' (ms_key_points s)] else []) @
        (if ms_decisions s \<noteq> [] then [bullet_block ''Decisions'' (ms_decisions s)] else []) @
        map (\<lambda>sec. bullet_block (ss_heading sec) (ss_items sec)) (ms_sections s)
      in take 100000 (join_names [CHR 0x0A, CHR 0x0A] (filter (\<lambda>t. t \<noteq> []) sections)))"

text \<open>\<open>/\b[a-z]{3}-[a-z]{4}-[a-z]{3}\b/i\<close>: \<open>prev\<close> is whether the character before is a word character.\<close>

definition meet_code_here :: "string \<Rightarrow> bool" where
  "meet_code_here s \<longleftrightarrow> 12 \<le> length s \<and>
     list_all is_ascii_lower (take 3 s) \<and> s ! 3 = CHR ''-'' \<and>
     list_all is_ascii_lower (take 4 (drop 4 s)) \<and> s ! 8 = CHR ''-'' \<and>
     list_all is_ascii_lower (take 3 (drop 9 s)) \<and>
     (length s = 12 \<or> \<not> is_word_char (s ! 12))"

fun has_meet_code :: "bool \<Rightarrow> string \<Rightarrow> bool" where
  "has_meet_code prev [] = False"
| "has_meet_code prev (c # cs) =
     ((\<not> prev \<and> meet_code_here (c # cs)) \<or> has_meet_code (is_word_char c) cs)"

text \<open>\<open>/^p\b/\<close> for a prefix that ends in a word character.\<close>

definition starts_word :: "string \<Rightarrow> string \<Rightarrow> bool" where
  "starts_word p s =
     (case strip_prefix p s of None \<Rightarrow> False | Some r \<Rightarrow> r = [] \<or> \<not> is_word_char (hd r))"

definition is_placeholder_title :: "string \<Rightarrow> bool" where
  "is_placeholder_title title =
     (let v = to_lower (trim title) in
      v = [] \<or>
      v \<in> {''untitled'', ''new'', ''untitled meeting'', ''new meeting''} \<or>
      (case strip_prefix ''meeting on '' v of
         None \<Rightarrow> False | Some r \<Rightarrow> length r = 10 \<and> starts_with_date r) \<or>
      starts_word ''meet'' v \<or> starts_word ''google meet'' v \<or>
      has_meet_code False v)"

definition format_clock :: "rat \<Rightarrow> string" where
  "format_clock ms =
     (let total = \<lfloor>ms / 1000\<rfloor>;
          hours = total div 3600;
          minutes = (total mod 3600) div 60;
          seconds = total mod 60;
          pad = (\<lambda>n. pad_left 2 (int_str n))
      in if 0 < hours then int_str hours @ '':'' @ pad minutes @ '':'' @ pad seconds
         else pad minutes @ '':'' @ pad seconds)"

definition speaker_name :: "(string \<times> string) list \<Rightarrow> string \<Rightarrow> string" where
  "speaker_name names speaker =
     (if truthy (map_of names speaker) then the (map_of names speaker)
      else if speaker = ''you'' then ''You''
      else if speaker = ''speaker'' then ''Speaker''
      else case strip_prefix ''speaker-'' speaker of
          Some n \<Rightarrow> if all_digits n then ''Speaker '' @ n else ''Them''
        | None \<Rightarrow>
            (case strip_prefix ''them-'' speaker of
               Some n \<Rightarrow> if all_digits n then ''Them '' @ n else ''Them''
             | None \<Rightarrow> ''Them''))"

definition transcript_to_prompt :: "(string \<times> string) list \<Rightarrow> utterance list \<Rightarrow> string" where
  "transcript_to_prompt names us =
     join_names [CHR 0x0A]
       (map (\<lambda>u. ''['' @ format_clock (ut_start u) @ ''] '' @ speaker_name names (ut_speaker u) @ '': '' @ ut_text u) us)"

text \<open>\<open>/^them(?=-\d+$|$)/\<close> becomes \<open>speaker\<close>.\<close>

definition relabel_speaker :: "string \<Rightarrow> string" where
  "relabel_speaker s =
     (if s = ''them'' then ''speaker''
      else case strip_prefix ''them-'' s of
          Some n \<Rightarrow> if all_digits n then ''speaker-'' @ n else s
        | None \<Rightarrow> s)"

definition relabel_imported_speakers :: "utterance list \<Rightarrow> utterance list" where
  "relabel_imported_speakers us = map (\<lambda>u. u\<lparr>ut_speaker := relabel_speaker (ut_speaker u)\<rparr>) us"

end
