(* ===== verification/Output_Properties.thy ===== *)
theory Output_Properties
  imports Provider_Output
begin

text \<open>
  What the worker's pure functions guarantee: audio windows are slices of the stream however
  it is chunked, WAV headers describe their data, utterances are well formed and speakers are
  numbered by first appearance, and accepted summaries are bounded and never empty.
\<close>

subsection \<open>Audio windows\<close>

lemma slices_of_Nil [simp]: "slices_of n [] = []"
  by (subst slices_of.simps) simp

lemma slices_of_full: "0 < m \<Longrightarrow> length w = m \<Longrightarrow> slices_of m (w @ xs) = w # slices_of m xs"
  by (subst slices_of.simps) auto

lemma slices_of_short: "acc \<noteq> [] \<Longrightarrow> length acc < m \<Longrightarrow> slices_of m acc = [acc]"
  by (subst slices_of.simps) auto

lemma slices_of_windows:
  "0 < m \<Longrightarrow> \<forall>w \<in> set ws. length w = m \<Longrightarrow> slices_of m (concat ws @ xs) = ws @ slices_of m xs"
  by (induction ws) (simp_all add: slices_of_full)

lemma window_chunk_spec:
  "length acc < m \<Longrightarrow>
    concat (fst (window_chunk m acc chunk)) @ snd (window_chunk m acc chunk) = acc @ chunk \<and>
    (\<forall>w \<in> set (fst (window_chunk m acc chunk)). length w = m) \<and> length (snd (window_chunk m acc chunk)) < m"
proof (induction m acc chunk rule: window_chunk.induct)
  case (1 m acc chunk)
  show ?case
  proof (cases "chunk = []")
    case True
    then have "window_chunk m acc chunk = ([], acc)" by (subst window_chunk.simps) simp
    with True "1.prems" show ?thesis by simp
  next
    case ne: False
    with "1.prems" have go: "\<not> (chunk = [] \<or> m \<le> length acc)" by simp
    define k where "k = min (m - length acc) (length chunk)"
    define acc' where "acc' = acc @ take k chunk"
    have len: "length acc' \<le> m" using "1.prems" by (simp add: acc'_def k_def)
    show ?thesis
    proof (cases "length acc' = m")
      case True
      have eq: "window_chunk m acc chunk = apfst (Cons acc') (window_chunk m [] (drop k chunk))"
        using go True by (subst window_chunk.simps) (simp add: Let_def k_def acc'_def)
      have "concat (fst (window_chunk m [] (drop k chunk))) @ snd (window_chunk m [] (drop k chunk)) = [] @ drop k chunk \<and>
          (\<forall>w \<in> set (fst (window_chunk m [] (drop k chunk))). length w = m) \<and>
          length (snd (window_chunk m [] (drop k chunk))) < m"
        by (rule "1.IH"(1) [OF go k_def acc'_def True]) (use "1.prems" in simp)
      moreover have "acc' @ drop k chunk = acc @ chunk" by (simp add: acc'_def)
      ultimately show ?thesis unfolding eq using True by simp
    next
      case False
      have eq: "window_chunk m acc chunk = window_chunk m acc' (drop k chunk)"
        using go False by (subst window_chunk.simps) (simp add: Let_def k_def acc'_def)
      have "concat (fst (window_chunk m acc' (drop k chunk))) @ snd (window_chunk m acc' (drop k chunk)) = acc' @ drop k chunk \<and>
          (\<forall>w \<in> set (fst (window_chunk m acc' (drop k chunk))). length w = m) \<and>
          length (snd (window_chunk m acc' (drop k chunk))) < m"
        by (rule "1.IH"(2) [OF go k_def acc'_def False]) (use len False in simp)
      moreover have "acc' @ drop k chunk = acc @ chunk" by (simp add: acc'_def)
      ultimately show ?thesis unfolding eq by simp
    qed
  qed
qed

lemma window_chunks_slices:
  "length acc < m \<Longrightarrow> window_chunks m acc chunks = slices_of m (acc @ concat chunks)"
proof (induction m acc chunks rule: window_chunks.induct)
  case (1 m acc)
  then show ?case by (simp add: slices_of_short)
next
  case (2 m acc chunk chunks)
  obtain ws acc' where w: "window_chunk m acc chunk = (ws, acc')" by (cases "window_chunk m acc chunk")
  with window_chunk_spec [OF "2.prems", of chunk]
  have spec: "concat ws @ acc' = acc @ chunk" "\<forall>w \<in> set ws. length w = m" "length acc' < m" by simp_all
  have "window_chunks m acc (chunk # chunks) = ws @ slices_of m (acc' @ concat chunks)"
    using "2.IH" [OF w [symmetric] refl spec(3)] w by simp
  also have "\<dots> = slices_of m (concat ws @ acc' @ concat chunks)"
    using spec(2,3) by (subst slices_of_windows) simp_all
  also have "concat ws @ acc' @ concat chunks = acc @ concat (chunk # chunks)"
    using spec(1) by (metis append.assoc concat.simps(2))
  finally show ?case .
qed

text \<open>
  C14. The audio sent to the transcriber does not depend on how the recording was cut into
  stored chunks: the windows are the consecutive slices of the whole stream, all full but the
  last, and putting them together gives the recording back.
\<close>

theorem audio_windows_slice_stream:
  "(\<forall>windows. audio_windows rate ms chunks = Some windows \<longrightarrow>
      windows = slices_of (rate * 2 * ms div 1000) (concat chunks) \<and> concat windows = concat chunks) \<and>
   (audio_windows rate ms chunks = None \<longleftrightarrow> rate * 2 * ms < 1000)"
proof -
  let ?m = "rate * 2 * ms div 1000"
  have "audio_windows rate ms chunks =
      (if ?m = 0 then None else Some (slices_of ?m (concat chunks)))"
    using window_chunks_slices [of "[]" ?m chunks]
    by (simp add: audio_windows_def pcm_bytes_per_sample_def Let_def)
  moreover have "?m = 0 \<longleftrightarrow> rate * 2 * ms < 1000" by (simp add: div_eq_0_iff)
  ultimately show ?thesis using concat_slices_of [of ?m "concat chunks"] by auto
qed

theorem audio_windows_slice_stream_witness:
  "audio_windows 1 2000 [[1, 2, 3], [], [4, 5, 6, 7, 8, 9 :: nat]] = Some [[1, 2, 3, 4], [5, 6, 7, 8], [9]] \<and>
   concat [[1, 2, 3, 4], [5, 6, 7, 8], [9]] = concat [[1, 2, 3], [], [4, 5, 6, 7, 8, 9 :: nat]]"
proof -
  have "audio_windows 1 2000 [[1, 2, 3], [], [4, 5, 6, 7, 8, 9 :: nat]] = Some [[1, 2, 3, 4], [5, 6, 7, 8], [9]]"
    by (simp add: audio_windows_def window_chunk.simps pcm_bytes_per_sample_def)
  with audio_windows_slice_stream [of 1 2000 "[[1, 2, 3], [], [4, 5, 6, 7, 8, 9 :: nat]]"] show ?thesis by blast
qed

subsection \<open>WAV headers\<close>

definition read_le :: "nat \<Rightarrow> nat \<Rightarrow> byte list \<Rightarrow> nat" where
  "read_le pos k bytes = foldr (\<lambda>b n. unat b + 256 * n) (take k (drop pos bytes)) 0"

lemma unat_byte_at: "unat (byte_at k n) = n div 256 ^ k mod 256"
  by (simp add: byte_at_def unat_of_nat)

lemma bytes4:
  fixes n :: nat
  shows "n mod 256 + 256 * (n div 256 mod 256 + 256 * (n div 65536 mod 256 + 256 * (n div 16777216))) = n"
proof -
  have e: "n div 65536 = n div 256 div 256" "n div 16777216 = n div 256 div 256 div 256"
    by (simp_all add: div_mult2_eq [symmetric])
  show ?thesis unfolding e by (simp only: mod_mult_div_eq)
qed

text \<open>
  The WAV file built around a window describes it exactly: 44 bytes of header, sizes and
  rate that read back as written, one 16-bit channel, and the samples without a trailing
  half sample.
\<close>

theorem wav_header_round_trip:
  assumes "pcm_to_wav pcm rate = Some wav"
  shows "drop 44 wav = take (2 * (length pcm div 2)) pcm \<and>
    read_le 40 4 wav = 2 * (length pcm div 2) \<and> read_le 4 4 wav = length wav - 8 \<and>
    read_le 24 4 wav = rate \<and> read_le 28 4 wav = 2 * rate \<and>
    read_le 22 2 wav = 1 \<and> read_le 34 2 wav = 16"
proof -
  let ?d = "length pcm - length pcm mod 2"
  have d: "?d = 2 * (length pcm div 2)" by (simp add: minus_mod_eq_mult_div)
  from assms have small: "36 + ?d < 2 ^ 32" "rate * 2 < 2 ^ 32"
    and wav: "wav = ascii_bytes ''RIFF'' @ u32le (36 + ?d) @ ascii_bytes ''WAVE'' @ ascii_bytes ''fmt '' @
         u32le 16 @ u16le 1 @ u16le 1 @ u32le rate @ u32le (rate * 2) @
         u16le 2 @ u16le 16 @ ascii_bytes ''data'' @ u32le ?d @ take ?d pcm"
    by (auto simp: pcm_to_wav_def Let_def pcm_bytes_per_sample_def split: if_splits)
  have len: "length wav = 44 + ?d" by (simp add: wav ascii_bytes_def u32le_def u16le_def)
  have small': "?d < 2 ^ 32" "rate < 2 ^ 32" using small by linarith+
  have r4: "read_le p 4 wav = n" if "take 4 (drop p wav) = u32le n" "n < 2 ^ 32" for p n
  proof -
    have "n div 16777216 < 256" using that(2) by (simp add: div_less_iff_less_mult)
    then have "n div 16777216 mod 256 = n div 16777216" by simp
    then show ?thesis using bytes4 [of n] by (simp add: read_le_def that(1) u32le_def unat_byte_at)
  qed
  have r2: "read_le p 2 wav = n" if "take 2 (drop p wav) = u16le n" "n < 256" for p n
    using that(2) by (simp add: read_le_def that(1) u16le_def unat_byte_at)
  have "drop 44 wav = take ?d pcm" by (simp add: wav ascii_bytes_def u32le_def u16le_def)
  moreover have "read_le 40 4 wav = ?d"
    by (rule r4) (use small' in \<open>simp_all add: wav ascii_bytes_def u32le_def u16le_def\<close>)
  moreover have "read_le 4 4 wav = 36 + ?d"
    by (rule r4) (use small in \<open>simp_all add: wav ascii_bytes_def u32le_def u16le_def\<close>)
  moreover have "read_le 24 4 wav = rate"
    by (rule r4) (use small' in \<open>simp_all add: wav ascii_bytes_def u32le_def u16le_def\<close>)
  moreover have "read_le 28 4 wav = rate * 2"
    by (rule r4) (use small in \<open>simp_all add: wav ascii_bytes_def u32le_def u16le_def\<close>)
  moreover have "read_le 22 2 wav = 1"
    by (rule r2) (simp_all add: wav ascii_bytes_def u32le_def u16le_def)
  moreover have "read_le 34 2 wav = 16"
    by (rule r2) (simp_all add: wav ascii_bytes_def u32le_def u16le_def)
  ultimately show ?thesis using d len by simp
qed

theorem wav_header_round_trip_witness:
  "\<exists>wav. pcm_to_wav [1, 2, 3] 16000 = Some wav \<and> read_le 24 4 wav = 16000 \<and> drop 44 wav = [1, 2]"
proof -
  obtain wav where w: "pcm_to_wav [1, 2, 3] 16000 = Some wav"
    by (simp add: pcm_to_wav_def Let_def pcm_bytes_per_sample_def)
  from wav_header_round_trip [OF w] show ?thesis by (auto intro!: exI [of _ wav] simp: w)
qed

subsection \<open>Speakers\<close>

fun first_seen :: "'a list \<Rightarrow> 'a list \<Rightarrow> 'a list" where
  "first_seen seen [] = seen"
| "first_seen seen (x # xs) = first_seen (if x \<in> set seen then seen else seen @ [x]) xs"

lemma first_seen_extends: "\<exists>more. first_seen seen xs = seen @ more"
proof (induction seen xs rule: first_seen.induct)
  case (2 seen x xs)
  then show ?case by (cases "x \<in> set seen") auto
qed simp

lemma set_first_seen: "set (first_seen seen xs) = set seen \<union> set xs"
  by (induction seen xs rule: first_seen.induct) auto

lemma distinct_first_seen: "distinct seen \<Longrightarrow> distinct (first_seen seen xs)"
  by (induction seen xs rule: first_seen.induct) auto

lemma index_in_append: "x \<in> set ys \<Longrightarrow> index_in (ys @ zs) x = index_in ys x"
  by (induction ys) auto

lemma index_in_first_seen: "x \<in> set order \<Longrightarrow> index_in (first_seen order xs) x = index_in order x"
  using first_seen_extends [of order xs] index_in_append by metis

lemma index_in_nth:
  "distinct ys \<Longrightarrow> i < length ys \<Longrightarrow> index_in ys (ys ! i) = Some (Suc i)"
proof (induction ys arbitrary: i)
  case Nil
  then show ?case by simp
next
  case (Cons y ys)
  show ?case
  proof (cases i)
    case (Suc j)
    with Cons.prems have "ys ! j \<noteq> y" "j < length ys" by auto
    with Cons Suc show ?thesis by auto
  qed simp
qed

definition spoken :: "json list \<Rightarrow> json list" where
  "spoken raws = filter (\<lambda>r. text_of (json_get ''transcript'' (Some r)) \<noteq> []) raws"

definition voice_id :: "json \<Rightarrow> rat option" where
  "voice_id r = finite_number (json_get ''speaker'' (Some r))"

definition voice_ids :: "json list \<Rightarrow> rat list" where
  "voice_ids raws = first_seen [] (List.map_filter voice_id (spoken raws))"

definition voice_label :: "rat list \<Rightarrow> rat option \<Rightarrow> string" where
  "voice_label ids v = (case v of None \<Rightarrow> ''them'' | Some x \<Rightarrow> them_label (the (index_in ids x)))"

lemma deepgram_loop_speakers:
  "map ut_speaker (deepgram_loop Channel_Them order raws) =
    map (\<lambda>r. voice_label (first_seen order (List.map_filter voice_id (spoken raws))) (voice_id r)) (spoken raws)"
proof (induction raws arbitrary: order)
  case Nil
  then show ?case by (simp add: spoken_def)
next
  case (Cons raw raws)
  show ?case
  proof (cases "text_of (json_get ''transcript'' (Some raw)) = []")
    case True
    with Cons show ?thesis by (simp add: spoken_def Let_def)
  next
    case False
    then have s: "spoken (raw # raws) = raw # spoken raws" by (simp add: spoken_def)
    show ?thesis
    proof (cases "voice_id raw")
      case None
      then have n: "finite_number (json_get ''speaker'' (Some raw)) = None" by (simp add: voice_id_def)
      show ?thesis using False Cons [of order]
        by (simp add: s n None Let_def voice_label_def List.map_filter_simps)
    next
      case (Some x)
      then have n: "finite_number (json_get ''speaker'' (Some raw)) = Some x" by (simp add: voice_id_def)
      define order' where "order' = (if x \<in> set order then order else order @ [x])"
      have x: "x \<in> set order'" by (simp add: order'_def)
      show ?thesis using False Cons [of order'] index_in_first_seen [OF x]
        by (simp add: s n Some Let_def voice_label_def List.map_filter_simps order'_def [symmetric])
    qed
  qed
qed

lemma them_label_inject: "them_label m = them_label n \<longleftrightarrow> m = n"
  by (simp add: them_label_def digits_of_inject)

text \<open>
  Voices of the other side are numbered by first appearance: the labels of a Deepgram
  answer are those of a first-seen numbering of its voice ids, without gaps from 1 on, and two
  utterances carry the same label exactly when they carry the same voice id.
\<close>

theorem speakers_numbered_by_appearance:
  "map ut_speaker (deepgram_loop Channel_Them [] raws) =
      map (\<lambda>r. voice_label (voice_ids raws) (voice_id r)) (spoken raws) \<and>
   distinct (voice_ids raws) \<and>
   map (index_in (voice_ids raws)) (voice_ids raws) = map Some [1..<Suc (length (voice_ids raws))] \<and>
   (\<forall>x \<in> set (voice_ids raws). \<forall>y \<in> set (voice_ids raws).
      voice_label (voice_ids raws) (Some x) = voice_label (voice_ids raws) (Some y) \<longleftrightarrow> x = y) \<and>
   (\<forall>u \<in> set (deepgram_loop Channel_You [] raws). ut_speaker u = ''you'')"
proof (intro conjI)
  let ?ids = "voice_ids raws"
  show d: "distinct ?ids" by (simp add: voice_ids_def distinct_first_seen)
  show "map ut_speaker (deepgram_loop Channel_Them [] raws) =
      map (\<lambda>r. voice_label ?ids (voice_id r)) (spoken raws)"
    using deepgram_loop_speakers [of "[]" raws] by (simp add: voice_ids_def)
  show "map (index_in ?ids) ?ids = map Some [1..<Suc (length ?ids)]"
    by (rule nth_equalityI) (simp_all add: index_in_nth [OF d] nth_upt del: upt_Suc)
  have "voice_label ?ids (Some x) = voice_label ?ids (Some y) \<longleftrightarrow> x = y"
    if x: "x \<in> set ?ids" and y: "y \<in> set ?ids" for x y
  proof -
    obtain i j where "i < length ?ids" "x = ?ids ! i" "j < length ?ids" "y = ?ids ! j"
      using x y by (auto simp: in_set_conv_nth)
    with d show ?thesis
      by (simp add: voice_label_def index_in_nth them_label_inject nth_eq_iff_index_eq)
  qed
  then show "\<forall>x \<in> set ?ids. \<forall>y \<in> set ?ids. voice_label ?ids (Some x) = voice_label ?ids (Some y) \<longleftrightarrow> x = y"
    by blast
  have "\<forall>u \<in> set (deepgram_loop Channel_You order raws). ut_speaker u = ''you''" for order
    by (induction raws) (auto simp: Let_def)
  then show "\<forall>u \<in> set (deepgram_loop Channel_You [] raws). ut_speaker u = ''you''" .
qed

definition sample_raw :: "rat \<Rightarrow> json" where
  "sample_raw v = JObject [(''transcript'', JString ''hi''), (''speaker'', JNumber (JsNum v))]"

theorem speakers_numbered_by_appearance_witness:
  "map ut_speaker (deepgram_loop Channel_Them [] [sample_raw 7, sample_raw 0, sample_raw 7]) =
     [''them-1'', ''them-2'', ''them-1''] \<and>
   voice_label (voice_ids [sample_raw 7, sample_raw 0, sample_raw 7]) (Some 7) \<noteq>
     voice_label (voice_ids [sample_raw 7, sample_raw 0, sample_raw 7]) (Some 0)"
proof -
  have "map ut_speaker (deepgram_loop Channel_Them [] [sample_raw 7, sample_raw 0, sample_raw 7]) =
     [''them-1'', ''them-2'', ''them-1'']" by code_simp
  moreover have i: "voice_ids [sample_raw 7, sample_raw 0, sample_raw 7] = [7, 0]" by code_simp
  moreover have "(7 :: rat) \<in> set [7, 0]" "(0 :: rat) \<in> set [7, 0]" "(7 :: rat) \<noteq> 0" by simp_all
  ultimately show ?thesis
    using speakers_numbered_by_appearance [of "[sample_raw 7, sample_raw 0, sample_raw 7]"] by metis
qed

subsection \<open>Summaries\<close>

definition strings_ok :: "nat \<Rightarrow> nat \<Rightarrow> string list \<Rightarrow> bool" where
  "strings_ok max_items max_length xs \<longleftrightarrow>
     length xs \<le> max_items \<and> (\<forall>x \<in> set xs. x \<noteq> [] \<and> length x \<le> max_length)"

definition action_ok :: "summary_action \<Rightarrow> bool" where
  "action_ok a \<longleftrightarrow> as_text a \<noteq> [] \<and> length (as_text a) \<le> 2000 \<and>
     (case as_owner a of None \<Rightarrow> True | Some w \<Rightarrow> w \<noteq> [] \<and> length w \<le> 200)"

definition section_ok :: "summary_section \<Rightarrow> bool" where
  "section_ok s \<longleftrightarrow> ss_heading s \<noteq> [] \<and> length (ss_heading s) \<le> 80 \<and>
     ss_items s \<noteq> [] \<and> strings_ok 30 1000 (ss_items s)"

definition summary_ok :: "managed_summary \<Rightarrow> bool" where
  "summary_ok s \<longleftrightarrow>
     (case ms_title s of None \<Rightarrow> True | Some t \<Rightarrow> t \<noteq> [] \<and> length t \<le> 120) \<and>
     length (ms_overview s) \<le> 20000 \<and>
     strings_ok 50 1000 (ms_key_points s) \<and> strings_ok 50 1000 (ms_decisions s) \<and>
     length (ms_actions s) \<le> 1000 \<and> (\<forall>a \<in> set (ms_actions s). action_ok a) \<and>
     length (ms_sections s) \<le> 12 \<and> (\<forall>x \<in> set (ms_sections s). section_ok x) \<and>
     \<not> (ms_overview s = [] \<and> ms_key_points s = [] \<and> ms_decisions s = [] \<and> ms_actions s = [] \<and> ms_sections s = [])"

lemma string_list_ok: "0 < n \<Longrightarrow> strings_ok k n (string_list v k n)"
  by (auto simp: strings_ok_def string_list_def dest!: in_set_takeD)

lemma collapse_spaces_nonempty: "s \<noteq> [] \<Longrightarrow> collapse_spaces s \<noteq> []"
proof (induction s)
  case Nil
  then show ?case by simp
next
  case (Cons c cs)
  then show ?case by (cases cs) auto
qed

lemma parse_section_ok: "x \<in> set (parse_section e) \<Longrightarrow> section_ok x"
  by (auto simp: parse_section_def section_ok_def Let_def string_list_ok split: if_splits option.splits)

lemma parse_action_ok: "a \<in> set (parse_action dp item) \<Longrightarrow> action_ok a"
  by (auto simp: parse_action_def action_ok_def Let_def split: if_splits option.splits)

lemma parse_summary_ok:
  assumes "parse_summary dp v = Inr s"
  shows "summary_ok s"
proof -
  have s: "s = summary_fields dp v" "\<not> summary_empty s"
    using assms by (auto simp: parse_summary_def worker_error_def split: if_splits)
  have "\<forall>a \<in> set (ms_actions s). action_ok a"
    unfolding s(1) summary_fields_def by (auto dest!: in_set_takeD intro: parse_action_ok)
  moreover have "\<forall>x \<in> set (ms_sections s). section_ok x"
    unfolding s(1) summary_fields_def parse_sections_def by (auto dest!: in_set_takeD intro: parse_section_ok)
  moreover have "case ms_title s of None \<Rightarrow> True | Some t \<Rightarrow> t \<noteq> [] \<and> length t \<le> 120"
    unfolding s(1) summary_fields_def
    by (auto simp: summary_title_def collapse_spaces_nonempty split: option.splits)
  ultimately show ?thesis using s(2) unfolding s(1)
    by (simp add: summary_ok_def summary_empty_def summary_fields_def string_list_ok parse_sections_def)
qed

lemma summary_from_text_ok:
  assumes "summary_from_text dp t = Inr s"
  shows "summary_ok s"
proof -
  let ?plain = "\<lparr>ms_title = None, ms_overview = take 20000 t, ms_key_points = [],
                     ms_decisions = [], ms_actions = [], ms_sections = []\<rparr>"
  from assms have "t \<noteq> []" by (auto simp: summary_from_text_def worker_error_def)
  then have "summary_ok ?plain" by (simp add: summary_ok_def strings_ok_def)
  moreover from assms \<open>t \<noteq> []\<close> have "s = ?plain \<or> (\<exists>v. parse_summary dp v = Inr s)"
    by (auto simp: summary_from_text_def Let_def split: sum.splits)
  ultimately show ?thesis using parse_summary_ok by blast
qed

text \<open>
  C15. Whatever a model answers, an accepted summary is well formed: every field within its
  bound, no empty entries, and some content; the note text made from it fits its column. The
  answer is refused only when it has no usable tool call and no text.
\<close>

theorem accepted_summary_well_formed:
  "(\<forall>s. summary_from_response dp response = Inr s \<longrightarrow>
      summary_ok s \<and> length (format_summary_text s) \<le> 100000) \<and>
   ((\<exists>e. summary_from_response dp response = Inl e) \<longleftrightarrow>
      response_text response = [] \<and>
      (\<forall>block. List.find is_tool_block (json_items (json_get ''content'' response)) = Some block \<longrightarrow>
        (\<exists>e. parse_summary dp (json_get ''input'' (Some block)) = Inl e)))"
proof -
  have from_text: "(\<exists>e. summary_from_text dp t = Inl e) \<longleftrightarrow> t = []" for t
    by (auto simp: summary_from_text_def worker_error_def Let_def split: sum.split)
  have fmt: "length (format_summary_text s) \<le> 100000" for s
    by (simp add: format_summary_text_def Let_def)
  show ?thesis
    by (auto simp: summary_from_response_def fmt from_text [symmetric] split: option.splits sum.splits
        dest: parse_summary_ok summary_from_text_ok)
qed

theorem accepted_summary_well_formed_witness:
  "\<exists>s. summary_from_response (\<lambda>_. JsNaN)
      (Some (JObject [(''output_text'', JString ''Notes: all agreed.'')])) = Inr s \<and> summary_ok s"
proof -
  let ?r = "Some (JObject [(''output_text'', JString ''Notes: all agreed.'')])"
  have "response_text ?r \<noteq> []" by code_simp
  then obtain s where "summary_from_response (\<lambda>_. JsNaN) ?r = Inr s"
    using accepted_summary_well_formed [of "\<lambda>_. JsNaN" ?r]
    by (cases "summary_from_response (\<lambda>_. JsNaN) ?r") auto
  with accepted_summary_well_formed [of "\<lambda>_. JsNaN" ?r] show ?thesis by blast
qed

end
