(* ===== verification/Managed_Uploads.thy ===== *)
theory Managed_Uploads
  imports Usage_Ledger Provider_Spend Provider_Output
begin

text \<open>
  Managed uploads, the staging of hosted recordings: the upload half of
  \<^verbatim>\<open>webapp/src/lib/managedJobs.ts\<close>, \<^verbatim>\<open>managedUploadChunk.ts\<close>, \<^verbatim>\<open>directUpload.ts\<close>
  and \<^verbatim>\<open>importFormats.ts\<close>.

  The state \<open>hosted_db\<close> holds the tables these files share with the job queue, and the object
  store as a list of keys and bytes. Each \<open>$transaction\<close> is one step on the state; what other
  requests commit between the first reads and the transaction (or the last write) is the argument \<open>ux_other\<close>, an
  abort of the transaction by the database is \<open>ux_abort\<close>, and \<open>ux_fails\<close> says for which keys
  the object store refuses to delete. The clock is read once per request, SHA-256 is an
  argument, and a successful answer is the value the route serialises.
\<close>

subsection \<open>Tables\<close>

record upload_row =
  mu_id :: ident
  mu_workspace :: ident
  mu_meeting :: ident
  mu_key :: string
  mu_chunks :: int
  mu_bytes :: int
  mu_status :: string
  mu_kind :: string
  mu_format :: "string option"
  mu_declared :: "int option"
  mu_expires :: millis
  mu_completed :: "millis option"

text \<open>\<open>UploadChunk\<close> and \<open>DirectUploadTicket\<close> have the same columns.\<close>

record chunk_row =
  uc_id :: ident
  uc_upload :: ident
  uc_index :: int
  uc_channel :: string
  uc_bytes :: int
  uc_checksum :: string
  uc_object :: string
  uc_signed :: "millis option"

record job_row =
  jb_id :: ident
  jb_workspace :: ident
  jb_meeting :: ident
  jb_upload :: ident
  jb_key :: string
  jb_status :: string
  jb_stage :: "string option"
  jb_error :: "string option"
  jb_cost :: int
  jb_created :: millis
  jb_started :: "millis option"
  jb_token :: "ident option"
  jb_attempts :: nat
  jb_completed :: "millis option"

record hosted_meeting =
  hm_id :: ident
  hm_workspace :: "ident option"
  hm_deleted :: "millis option"
  hm_title :: string
  hm_summary :: string
  hm_capture :: string
  hm_processing :: string
  hm_mode :: string
  hm_language :: "string option"
  hm_started :: millis
  hm_ended :: millis
  hm_recording :: "string option"

record transcript_row =
  tr_meeting :: ident
  tr_speaker :: string
  tr_text :: string
  tr_time :: millis
  tr_order :: nat

record action_row =
  ar_meeting :: ident
  ar_text :: string
  ar_owner :: "string option"
  ar_due :: "rat option"

record hosted_db =
  hd_workspaces :: "ident list"
  hd_meetings :: "hosted_meeting list"
  hd_uploads :: "upload_row list"
  hd_chunks :: "chunk_row list"
  hd_tickets :: "chunk_row list"
  hd_jobs :: "job_row list"
  hd_ledger :: "usage_entry list"
  hd_transcript :: "transcript_row list"
  hd_actions :: "action_row list"
  hd_objects :: "(string \<times> byte list) list"

datatype upload_error =
    Managed_Validation_Error string
  | Managed_Quota_Error string
  | Upload_Ledger_Error ledger_error
  | Upload_Spend_Error provider_error
  | Upload_Thrown thrown
  | Storage_Error
  | Json_Error string nat

record upload_world =
  ux_env :: env
  ux_hosted_ai :: bool
  ux_subs :: "subscription list"
  ux_spend :: spend_db
  ux_fails :: "string \<Rightarrow> bool"
  ux_put_fails :: bool
  ux_sha :: "byte list \<Rightarrow> string"
  ux_new_id :: ident
  ux_uuid :: string
  ux_abort :: "thrown option"
  ux_other :: "hosted_db \<Rightarrow> hosted_db"

subsection \<open>Limits\<close>

definition max_upload_chunks :: int where
  "max_upload_chunks = 10000"

definition max_upload_bytes :: int where
  "max_upload_bytes = 1900000000"

definition max_chunk_bytes :: int where
  "max_chunk_bytes = 8 * 1024 * 1024"

definition managed_upload_ttl :: millis where
  "managed_upload_ttl = 24 * 60 * 60 * 1000"

definition max_pending_uploads :: nat where
  "max_pending_uploads = 5"

definition max_pending_bytes :: int where
  "max_pending_bytes = 2000000000"

definition is_expired :: "millis \<Rightarrow> upload_row \<Rightarrow> bool" where
  "is_expired now u \<longleftrightarrow> mu_status u = ''expired'' \<or> mu_expires u \<le> now"

subsection \<open>Reading a request body\<close>

fun read_stream :: "int \<Rightarrow> int \<Rightarrow> byte list list \<Rightarrow> byte list option" where
  "read_stream limit seen [] = Some []"
| "read_stream limit seen (chunk # chunks) =
     (if limit < seen + int (length chunk) then None
      else map_option (\<lambda>rest. chunk @ rest) (read_stream limit (seen + int (length chunk)) chunks))"

definition body_too_large :: upload_error where
  "body_too_large = Managed_Validation_Error ''request body is too large''"

definition read_managed_bytes ::
  "string option \<Rightarrow> byte list list \<Rightarrow> int \<Rightarrow> upload_error + byte list" where
  "read_managed_bytes content_length stream limit =
     (if truthy content_length \<and>
         (\<not> all_digits (the content_length) \<or> limit < int (digits_value (the content_length)))
      then Inl body_too_large
      else case read_stream limit 0 stream of None \<Rightarrow> Inl body_too_large | Some bytes \<Rightarrow> Inr bytes)"

subsection \<open>Audio seconds and import formats\<close>

definition upload_audio_seconds :: "upload_row \<Rightarrow> int" where
  "upload_audio_seconds u =
     (if mu_kind u = ''import''
      then estimate_import_seconds (mu_bytes u) (map_option (\<lambda>n. JsNum (of_int n)) (mu_declared u))
      else audio_seconds_for_bytes (mu_bytes u))"

definition import_extensions :: "string list" where
  "import_extensions =
     [''mp3'', ''m4a'', ''aac'', ''wav'', ''ogg'', ''oga'', ''opus'', ''flac'', ''weba'',
      ''webm'', ''mp4'', ''m4v'', ''mov'', ''mkv'', ''3gp'']"

text \<open>\<open>/\.([A-Za-z0-9]+)$/\<close>: the letters and digits at the end, after a dot.\<close>

definition import_format_from_name :: "string \<Rightarrow> string option" where
  "import_format_from_name name =
     (let r = rev (trim name);
          alnum = (\<lambda>c. is_ascii_digit c \<or> is_ascii_lower c \<or> is_ascii_upper c);
          ext = rev (takeWhile alnum r);
          before = dropWhile alnum r;
          extension = to_lower ext
      in if ext \<noteq> [] \<and> before \<noteq> [] \<and> hd before = CHR ''.'' \<and> extension \<in> set import_extensions
         then Some extension else None)"

subsection \<open>Creating an upload\<close>

record upload_input =
  ui_meeting :: string
  ui_chunks :: js_number
  ui_bytes :: js_number
  ui_key :: string
  ui_kind :: "string option"
  ui_format :: "string option"
  ui_declared :: "js_number option"

definition safe_int :: "js_number \<Rightarrow> int option" where
  "safe_int n = (case n of JsNum q \<Rightarrow> if is_safe_integer n then Some \<lfloor>q\<rfloor> else None | _ \<Rightarrow> None)"

definition input_kind :: "upload_input \<Rightarrow> string" where
  "input_kind input = (case ui_kind input of Some k \<Rightarrow> k | None \<Rightarrow> ''capture'')"

definition in_range :: "js_number \<Rightarrow> int \<Rightarrow> int \<Rightarrow> bool" where
  "in_range n lo hi \<longleftrightarrow> (case safe_int n of Some i \<Rightarrow> lo \<le> i \<and> i \<le> hi | None \<Rightarrow> False)"

definition validate_upload_input :: "upload_input \<Rightarrow> upload_error option" where
  "validate_upload_input input =
     (let kind = input_kind input; bad = (\<lambda>m. Some (Managed_Validation_Error m)) in
      if kind \<noteq> ''capture'' \<and> kind \<noteq> ''import'' then bad ''upload kind is invalid''
      else if kind = ''import'' \<and> \<not> (truthy (ui_format input) \<and> the (ui_format input) \<in> set import_extensions)
      then bad ''this file type is not supported for import''
      else if kind = ''import'' \<and>
              (case ui_declared input of Some d \<Rightarrow> \<not> in_range d 1 (7 * 24 * 3600) | None \<Rightarrow> False)
      then bad ''declared duration is out of range''
      else if ui_meeting input = [] \<or> ui_key input = [] \<or> 200 < length (ui_key input)
      then bad ''meetingId and idempotencyKey are required''
      else if \<not> in_range (ui_chunks input) 1 max_upload_chunks then bad ''totalChunks is out of range''
      else if \<not> in_range (ui_bytes input) 1 max_upload_bytes then bad ''totalBytes is out of range''
      else None)"

definition int_of_number :: "js_number \<Rightarrow> int" where
  "int_of_number n = (case safe_int n of Some i \<Rightarrow> i | None \<Rightarrow> 0)"

definition upload_by_key :: "ident \<Rightarrow> string \<Rightarrow> hosted_db \<Rightarrow> upload_row option" where
  "upload_by_key ws key db = find_row (\<lambda>u. mu_workspace u = ws \<and> mu_key u = key) (hd_uploads db)"

definition upload_by_id :: "ident \<Rightarrow> hosted_db \<Rightarrow> upload_row option" where
  "upload_by_id uid db = find_row (\<lambda>u. mu_id u = uid) (hd_uploads db)"

definition chunks_of :: "ident \<Rightarrow> hosted_db \<Rightarrow> chunk_row list" where
  "chunks_of uid db = filter (\<lambda>c. uc_upload c = uid) (hd_chunks db)"

definition tickets_of :: "ident \<Rightarrow> hosted_db \<Rightarrow> chunk_row list" where
  "tickets_of uid db = filter (\<lambda>c. uc_upload c = uid) (hd_tickets db)"

definition same_manifest :: "upload_input \<Rightarrow> upload_row \<Rightarrow> bool" where
  "same_manifest input u \<longleftrightarrow>
     mu_meeting u = ui_meeting input \<and> mu_chunks u = int_of_number (ui_chunks input) \<and>
     mu_bytes u = int_of_number (ui_bytes input) \<and> mu_kind u = input_kind input"

text \<open>The answer to the client: the row and its chunks without their object keys.\<close>

type_synonym manifest = "upload_row \<times> (int \<times> int \<times> string) list"

definition manifest_of :: "hosted_db \<Rightarrow> upload_row \<Rightarrow> manifest" where
  "manifest_of db u = (u, map (\<lambda>c. (uc_index c, uc_bytes c, uc_checksum c)) (chunks_of (mu_id u) db))"

definition mark_expired :: "millis \<Rightarrow> ident \<Rightarrow> hosted_db \<Rightarrow> hosted_db" where
  "mark_expired now uid db =
     db\<lparr>hd_uploads := update_rows (\<lambda>u. mu_id u = uid \<and> mu_status u \<noteq> ''expired'' \<and> mu_expires u \<le> now)
       (\<lambda>u. u\<lparr>mu_status := ''expired''\<rparr>) (hd_uploads db)\<rparr>"

text \<open>Deleting an upload row takes its chunks, tickets and jobs (\<open>onDelete: Cascade\<close>).\<close>

definition delete_upload_row :: "ident \<Rightarrow> hosted_db \<Rightarrow> hosted_db" where
  "delete_upload_row uid db =
     db\<lparr>hd_uploads := delete_rows (\<lambda>u. mu_id u = uid) (hd_uploads db),
        hd_chunks := delete_rows (\<lambda>c. uc_upload c = uid) (hd_chunks db),
        hd_tickets := delete_rows (\<lambda>c. uc_upload c = uid) (hd_tickets db),
        hd_jobs := delete_rows (\<lambda>j. jb_upload j = uid) (hd_jobs db)\<rparr>"

definition delete_objects :: "(string \<Rightarrow> bool) \<Rightarrow> string list \<Rightarrow> hosted_db \<Rightarrow> hosted_db" where
  "delete_objects fails keys db =
     db\<lparr>hd_objects := filter (\<lambda>(k, _). \<not> (k \<in> set keys \<and> \<not> fails k)) (hd_objects db)\<rparr>"

text \<open>
  The batches of sixteen keep going after a failure, so every key is tried once. The rows are deleted
  by the ids read before; other requests in between are not modelled.
\<close>

definition delete_managed_upload_audio ::
  "millis \<Rightarrow> (string \<Rightarrow> bool) \<Rightarrow> ident \<Rightarrow> hosted_db \<Rightarrow> bool \<times> hosted_db" where
  "delete_managed_upload_audio now fails uid db =
     (let registered = chunks_of uid db; tickets = tickets_of uid db;
          chunks = registered @ tickets;
          keys = map uc_object chunks
      in if list_ex (\<lambda>c. case uc_signed c of Some t \<Rightarrow> now < t | None \<Rightarrow> False) chunks then (False, db)
         else if chunks = [] then (True, db)
         else if list_ex fails (concat (slices_of 16 keys)) then (False, delete_objects fails keys db)
         else (True, (delete_objects fails keys db)
           \<lparr>hd_chunks := delete_rows (\<lambda>c. uc_upload c = uid \<and> uc_id c \<in> set (map uc_id registered)) (hd_chunks db),
            hd_tickets := delete_rows (\<lambda>c. uc_upload c = uid \<and> uc_id c \<in> set (map uc_id tickets)) (hd_tickets db)\<rparr>))"

datatype existing_outcome = Existing_Error upload_error | Existing_Returned manifest | Existing_Clear

definition conflict_error :: upload_error where
  "conflict_error = Managed_Validation_Error ''idempotency key conflicts with an existing upload''"

definition cleanup_error :: upload_error where
  "cleanup_error = Managed_Validation_Error ''expired upload cleanup is still in progress; retry shortly''"

definition resolve_existing ::
  "millis \<Rightarrow> (string \<Rightarrow> bool) \<Rightarrow> ident \<Rightarrow> upload_input \<Rightarrow> hosted_db \<Rightarrow> existing_outcome \<times> hosted_db" where
  "resolve_existing now fails ws input db =
     (case upload_by_key ws (ui_key input) db of
        None \<Rightarrow> (Existing_Clear, db)
      | Some existing \<Rightarrow>
          if \<not> same_manifest input existing then (Existing_Error conflict_error, db)
          else if \<not> is_expired now existing then (Existing_Returned (manifest_of db existing), db)
          else
            let db1 = mark_expired now (mu_id existing) db in
            case upload_by_id (mu_id existing) db1 of
              None \<Rightarrow> (Existing_Clear, db1)
            | Some expired \<Rightarrow>
                if mu_status expired \<noteq> ''expired'' then (Existing_Clear, db1)
                else
                  let (ok, db2) = delete_managed_upload_audio now fails (mu_id expired) db1 in
                  if \<not> ok then (Existing_Error cleanup_error, db2)
                  else (Existing_Clear, delete_upload_row (mu_id expired) db2))"

definition admission_error ::
  "upload_world \<Rightarrow> millis \<Rightarrow> ident \<Rightarrow> upload_input \<Rightarrow> hosted_db \<Rightarrow> upload_error option" where
  "admission_error w now ws input db =
     (let en = get_entitlements (ux_hosted_ai w) now ws (ux_subs w) (hd_ledger db);
          bytes = int_of_number (ui_bytes input)
      in if \<not> en_can_process en then Some (Upload_Ledger_Error Entitlement_Error)
         else case assert_provider_admission (ux_env w) now ws (en_plan en) (ux_spend w) of
             Some e \<Rightarrow> Some (Upload_Spend_Error e)
           | None \<Rightarrow>
               if input_kind input = ''import'' then
                 (let max_seconds = (case managed_plan_of (en_plan en) of
                        Some p \<Rightarrow> plan_import_max_seconds p | None \<Rightarrow> 0);
                      estimate = estimate_import_seconds bytes (ui_declared input)
                  in if max_seconds \<le> 0 then Some (Upload_Ledger_Error Entitlement_Error)
                     else if (case ui_declared input of Some d \<Rightarrow> max_seconds < int_of_number d | None \<Rightarrow> False)
                     then Some (Managed_Validation_Error
                       (''recordings over '' @ int_str (max_seconds div 3600) @ '' hours are not supported on your plan''))
                     else if en_audio_remaining en < estimate then Some (Upload_Ledger_Error Audio_Budget_Error)
                     else None)
               else if en_audio_remaining en < audio_seconds_for_bytes bytes
               then Some (Upload_Ledger_Error Audio_Budget_Error)
               else None)"

text \<open>A manifest that can still have staged bytes, as the aggregate counts them.\<close>

definition pending_upload :: "ident \<Rightarrow> hosted_db \<Rightarrow> upload_row \<Rightarrow> bool" where
  "pending_upload ws db u \<longleftrightarrow> mu_workspace u = ws \<and>
     (mu_status u \<in> {''created'', ''uploading'', ''expired''} \<or> (\<exists>c \<in> set (hd_chunks db). uc_upload c = mu_id u))"

definition pending_count :: "ident \<Rightarrow> hosted_db \<Rightarrow> nat" where
  "pending_count ws db = count_rows (pending_upload ws db) (hd_uploads db)"

definition pending_bytes :: "ident \<Rightarrow> hosted_db \<Rightarrow> int" where
  "pending_bytes ws db = sum_rows mu_bytes (pending_upload ws db) (hd_uploads db)"

definition new_upload :: "millis \<Rightarrow> ident \<Rightarrow> ident \<Rightarrow> upload_input \<Rightarrow> upload_row" where
  "new_upload now new_id ws input =
     \<lparr>mu_id = new_id, mu_workspace = ws, mu_meeting = ui_meeting input, mu_key = ui_key input,
       mu_chunks = int_of_number (ui_chunks input), mu_bytes = int_of_number (ui_bytes input),
       mu_status = ''created'', mu_kind = input_kind input,
       mu_format = (if input_kind input = ''import'' then ui_format input else None),
       mu_declared = (if input_kind input = ''import'' then map_option int_of_number (ui_declared input) else None),
       mu_expires = now + managed_upload_ttl, mu_completed = None\<rparr>"

definition reserve_staging_tx ::
  "millis \<Rightarrow> ident \<Rightarrow> ident \<Rightarrow> upload_input \<Rightarrow> hosted_db \<Rightarrow> upload_error + upload_row \<times> hosted_db" where
  "reserve_staging_tx now new_id ws input db =
     (if ws \<notin> set (hd_workspaces db) then Inl (Managed_Validation_Error ''workspace not found'')
      else case upload_by_key ws (ui_key input) db of
          Some concurrent \<Rightarrow>
            if \<not> same_manifest input concurrent then Inl conflict_error
            else if is_expired now concurrent then Inl cleanup_error
            else Inr (concurrent, db)
        | None \<Rightarrow>
            if max_pending_uploads \<le> pending_count ws db
            then Inl (Managed_Quota_Error ''workspace has too much temporary audio processing in progress; wait for a job or cleanup to finish before starting another'')
            else if max_pending_bytes < pending_bytes ws db + int_of_number (ui_bytes input)
            then Inl (Managed_Quota_Error ''workspace temporary audio staging limit exceeded; wait for a job or cleanup to finish before starting another'')
            else Inr (new_upload now new_id ws input,
                      db\<lparr>hd_uploads := hd_uploads db @ [new_upload now new_id ws input]\<rparr>))"

definition create_managed_upload ::
  "upload_world \<Rightarrow> millis \<Rightarrow> ident \<Rightarrow> upload_input \<Rightarrow> hosted_db \<Rightarrow> (upload_error + manifest) \<times> hosted_db" where
  "create_managed_upload w now ws input db =
     (case validate_upload_input input of
        Some e \<Rightarrow> (Inl e, db)
      | None \<Rightarrow>
          if find_row (\<lambda>m. hm_id m = ui_meeting input \<and> hm_workspace m = Some ws \<and> hm_deleted m = None)
               (hd_meetings db) = None
          then (Inl (Managed_Validation_Error ''meeting not found''), db)
          else case resolve_existing now (ux_fails w) ws input db of
              (Existing_Error e, db1) \<Rightarrow> (Inl e, db1)
            | (Existing_Returned m, db1) \<Rightarrow> (Inr m, db1)
            | (Existing_Clear, db1) \<Rightarrow>
                (case admission_error w now ws input db1 of
                   Some e \<Rightarrow> (Inl e, db1)
                 | None \<Rightarrow>
                     (let db2 = ux_other w db1 in
                      case ux_abort w of
                        None \<Rightarrow>
                          (case reserve_staging_tx now (ux_new_id w) ws input db2 of
                             Inl e \<Rightarrow> (Inl e, db2)
                           | Inr (created, db3) \<Rightarrow> (Inr (manifest_of db3 created), db3))
                      | Some t \<Rightarrow>
                          if th_code t \<noteq> Some ''P2002'' then (Inl (Upload_Thrown t), db2)
                          else (case upload_by_key ws (ui_key input) db2 of
                              None \<Rightarrow> (Inl (Upload_Thrown t), db2)
                            | Some winner \<Rightarrow>
                                if \<not> same_manifest input winner then (Inl conflict_error, db2)
                                else (Inr (manifest_of db2 winner), db2)))))"

subsection \<open>Reading and completing an upload\<close>

definition get_upload :: "millis \<Rightarrow> ident \<Rightarrow> ident \<Rightarrow> hosted_db \<Rightarrow> upload_row option \<times> hosted_db" where
  "get_upload now ws uid db =
     (case find_row (\<lambda>u. mu_id u = uid \<and> mu_workspace u = ws) (hd_uploads db) of
        None \<Rightarrow> (None, db)
      | Some u \<Rightarrow>
          if \<not> is_expired now u then (Some u, db)
          else (Some (u\<lparr>mu_status := ''expired''\<rparr>), mark_expired now (mu_id u) db))"

definition expired_session :: upload_error where
  "expired_session = Managed_Validation_Error ''upload session expired; start the upload again''"

definition missing_upload :: thrown where
  "missing_upload = \<lparr>th_code = Some ''P2025'', th_name = Some ''PrismaClientKnownRequestError'', th_message = None\<rparr>"

text \<open>
  Completing reads the upload with its chunks and writes its row in a second statement, which finds
  the row by its id alone and throws when it is gone; \<open>ux_other\<close> is what others commit in between.
\<close>

definition complete_managed_upload ::
  "upload_world \<Rightarrow> millis \<Rightarrow> ident \<Rightarrow> ident \<Rightarrow> hosted_db \<Rightarrow> (upload_error + upload_row) \<times> hosted_db" where
  "complete_managed_upload w now ws uid db =
     (case get_upload now ws uid db of
        (None, db1) \<Rightarrow> (Inl (Managed_Validation_Error ''upload not found''), db1)
      | (Some u, db1) \<Rightarrow>
          if mu_status u = ''expired'' then (Inl expired_session, db1)
          else if int (length (chunks_of uid db)) \<noteq> mu_chunks u
          then (Inl (Managed_Validation_Error ''not all upload chunks have arrived''), db1)
          else if sum_list (map uc_bytes (chunks_of uid db)) \<noteq> mu_bytes u
          then (Inl (Managed_Validation_Error ''uploaded bytes do not match the manifest''), db1)
          else (let db2 = ux_other w db1 in
                case find_row (\<lambda>r. mu_id r = mu_id u) (hd_uploads db2) of
                  None \<Rightarrow> (Inl (Upload_Thrown missing_upload), db2)
                | Some r \<Rightarrow>
                    (Inr (r\<lparr>mu_status := ''complete'', mu_completed := Some now\<rparr>),
                     db2\<lparr>hd_uploads := update_rows (\<lambda>r. mu_id r = mu_id u)
                       (\<lambda>r. r\<lparr>mu_status := ''complete'', mu_completed := Some now\<rparr>) (hd_uploads db2)\<rparr>)))"

end
