(* ===== verification/Upload_Chunks.thy ===== *)
theory Upload_Chunks
  imports Managed_Uploads
begin

text \<open>
  Storing the pieces of a managed upload: \<^verbatim>\<open>webapp/src/lib/managedUploadChunk.ts\<close> (through the
  server) and \<^verbatim>\<open>directUpload.ts\<close> (straight to the object store under a signed ticket).

  Both put their row under the upload row: the conditional update of its status is the point
  where requests of one upload serialise. \<open>ux_other\<close> is what other requests commit between
  the first reads and that transaction.
\<close>

subsection \<open>Rows of one index\<close>

definition chunk_at :: "ident \<Rightarrow> int \<Rightarrow> hosted_db \<Rightarrow> chunk_row option" where
  "chunk_at uid i db = find_row (\<lambda>c. uc_upload c = uid \<and> uc_index c = i) (hd_chunks db)"

definition ticket_at :: "ident \<Rightarrow> int \<Rightarrow> hosted_db \<Rightarrow> chunk_row option" where
  "ticket_at uid i db = find_row (\<lambda>c. uc_upload c = uid \<and> uc_index c = i) (hd_tickets db)"

definition stored_bytes :: "ident \<Rightarrow> hosted_db \<Rightarrow> int" where
  "stored_bytes uid db = sum_rows uc_bytes (\<lambda>c. uc_upload c = uid) (hd_chunks db)"

definition reserved_bytes :: "ident \<Rightarrow> hosted_db \<Rightarrow> int" where
  "reserved_bytes uid db = sum_rows uc_bytes (\<lambda>c. uc_upload c = uid) (hd_tickets db)"

definition writable :: "millis \<Rightarrow> upload_row \<Rightarrow> bool" where
  "writable now u \<longleftrightarrow> mu_status u \<in> {''created'', ''uploading''} \<and> now < mu_expires u"

text \<open>The conditional update of the upload row; \<open>None\<close> when it matched no row.\<close>

definition touch_upload :: "millis \<Rightarrow> (upload_row \<Rightarrow> bool) \<Rightarrow> hosted_db \<Rightarrow> hosted_db option" where
  "touch_upload now p db =
     (if count_rows (\<lambda>u. p u \<and> writable now u) (hd_uploads db) = 0 then None
      else Some (db\<lparr>hd_uploads := update_rows (\<lambda>u. p u \<and> writable now u)
             (\<lambda>u. u\<lparr>mu_status := ''uploading''\<rparr>) (hd_uploads db)\<rparr>))"

definition same_chunk :: "string \<Rightarrow> int \<Rightarrow> string \<Rightarrow> chunk_row \<Rightarrow> bool" where
  "same_chunk checksum bytes channel c \<longleftrightarrow>
     uc_checksum c = checksum \<and> uc_bytes c = bytes \<and> uc_channel c = channel"

definition parse_index :: "string \<Rightarrow> int option" where
  "parse_index raw =
     (if all_digits raw \<and> length raw \<le> 9 then Some (int (digits_value raw)) else None)"

definition is_channel :: "string \<Rightarrow> bool" where
  "is_channel c \<longleftrightarrow> c = ''mic'' \<or> c = ''speaker''"

definition invalid :: "string \<Rightarrow> upload_error + 'a" where
  "invalid m = Inl (Managed_Validation_Error m)"

subsection \<open>Chunks through the server\<close>

record chunk_request =
  cr_index :: string
  cr_length :: "string option"
  cr_body :: "byte list list"
  cr_channel :: "string option"
  cr_sha :: "string option"

record chunk_answer =
  ca_index :: int
  ca_checksum :: string
  ca_bytes :: int
  ca_replayed :: bool

definition put_object :: "string \<Rightarrow> byte list \<Rightarrow> hosted_db \<Rightarrow> hosted_db" where
  "put_object key bytes db =
     db\<lparr>hd_objects := (key, bytes) # filter (\<lambda>(k, _). k \<noteq> key) (hd_objects db)\<rparr>"

definition remove_object :: "(string \<Rightarrow> bool) \<Rightarrow> string \<Rightarrow> hosted_db \<Rightarrow> hosted_db" where
  "remove_object fails key db = delete_objects fails [key] db"

text \<open>The transaction that commits the chunk row; \<open>Inr False\<close> is a parallel retry that won.\<close>

definition insert_chunk_tx ::
  "millis \<Rightarrow> ident \<Rightarrow> upload_row \<Rightarrow> int \<Rightarrow> string \<Rightarrow> int \<Rightarrow> string \<Rightarrow> string \<Rightarrow> hosted_db
   \<Rightarrow> upload_error + bool \<times> hosted_db" where
  "insert_chunk_tx now new_id upload i checksum bytes channel object_key db =
     (let uid = mu_id upload in
      case touch_upload now (\<lambda>u. mu_id u = uid) db of
        None \<Rightarrow> Inl expired_session
      | Some db1 \<Rightarrow>
          (case chunk_at uid i db1 of
             Some concurrent \<Rightarrow>
               if \<not> same_chunk checksum bytes channel concurrent
               then invalid ''chunk conflicts with an existing retry'' else Inr (False, db1)
           | None \<Rightarrow>
               if ticket_at uid i db1 \<noteq> None
               then invalid ''chunk has a direct upload reservation; finish the direct upload''
               else if mu_bytes upload < stored_bytes uid db1 + reserved_bytes uid db1 + bytes
               then invalid ''uploaded chunks exceed the declared upload byte limit''
               else Inr (True, db1\<lparr>hd_chunks := hd_chunks db1 @
                 [\<lparr>uc_id = new_id, uc_upload = uid, uc_index = i, uc_channel = channel, uc_bytes = bytes,
                   uc_checksum = checksum, uc_object = object_key, uc_signed = None\<rparr>]\<rparr>)))"

definition object_key_for :: "upload_world \<Rightarrow> ident \<Rightarrow> ident \<Rightarrow> int \<Rightarrow> string \<Rightarrow> string" where
  "object_key_for w ws uid i checksum =
     ''uploads/'' @ ws @ ''/'' @ uid @ ''/'' @ int_str i @ ''-'' @
     ux_sha w (ascii_bytes (ws @ '':'' @ uid @ '':'' @ int_str i @ '':'' @ checksum)) @ ''.chunk-'' @ ux_uuid w"

definition store_chunk ::
  "upload_world \<Rightarrow> millis \<Rightarrow> ident \<Rightarrow> upload_row \<Rightarrow> int \<Rightarrow> byte list \<Rightarrow> string \<Rightarrow> string \<Rightarrow> hosted_db
   \<Rightarrow> (upload_error + chunk_answer) \<times> hosted_db" where
  "store_chunk w now ws upload i bytes checksum channel db =
     (let uid = mu_id upload;
          n = int (length bytes);
          key = object_key_for w ws uid i checksum;
          answer = (\<lambda>replayed. \<lparr>ca_index = i, ca_checksum = checksum, ca_bytes = n, ca_replayed = replayed\<rparr>);
          conflict = Inl (Json_Error ''chunk conflicts with an existing retry'' 409)
      in if ux_put_fails w then (Inl Storage_Error, db)
         else
           let db1 = ux_other w (put_object key bytes db) in
           case (case ux_abort w of
                   Some t \<Rightarrow> Inl (Upload_Thrown t)
                 | None \<Rightarrow> insert_chunk_tx now (ux_new_id w) upload i checksum n channel key db1) of
             Inr (True, db2) \<Rightarrow> (Inr (answer False), db2)
           | Inr (False, db2) \<Rightarrow>
               if ux_fails w key then (Inl Storage_Error, db2)
               else (Inr (answer True), remove_object (ux_fails w) key db2)
           | Inl e \<Rightarrow>
               if (case e of Upload_Thrown t \<Rightarrow> th_code t = Some ''P2002'' | _ \<Rightarrow> False) then
                 (case chunk_at uid i db1 of
                    Some committed_row \<Rightarrow>
                      if same_chunk checksum n channel committed_row
                      then (if ux_fails w key then (Inl Storage_Error, db1)
                            else (Inr (answer True), remove_object (ux_fails w) key db1))
                      else (conflict, remove_object (ux_fails w) key db1)
                  | None \<Rightarrow> (conflict, remove_object (ux_fails w) key db1))
               else (Inl e, remove_object (ux_fails w) key db1))"

definition handle_managed_chunk_upload ::
  "upload_world \<Rightarrow> millis \<Rightarrow> ident \<Rightarrow> ident \<Rightarrow> chunk_request \<Rightarrow> hosted_db
   \<Rightarrow> (upload_error + chunk_answer) \<times> hosted_db" where
  "handle_managed_chunk_upload w now ws uid req db =
     (case parse_index (cr_index req) of
        None \<Rightarrow> (invalid ''chunk index is invalid'', db)
      | Some i \<Rightarrow>
          (case read_managed_bytes (cr_length req) (cr_body req) max_chunk_bytes of
             Inl e \<Rightarrow> (Inl e, db)
           | Inr bytes \<Rightarrow>
               (let n = int (length bytes);
                    checksum = ux_sha w bytes;
                    channel = (case cr_channel req of Some c \<Rightarrow> c | None \<Rightarrow> ''speaker'')
                in if n = 0 \<or> max_chunk_bytes < n then (invalid ''chunk size is invalid'', db)
                   else if \<not> is_channel channel then (invalid ''audio channel is invalid'', db)
                   else if \<not> truthy (cr_sha req) \<or> to_lower (the (cr_sha req)) \<noteq> checksum
                   then (Inl (Json_Error ''chunk checksum mismatch'' 400), db)
                   else case get_upload now ws uid db of
                       (None, db1) \<Rightarrow> (Inl (Json_Error ''upload not found'' 404), db1)
                     | (Some upload, db1) \<Rightarrow>
                         if mu_chunks upload \<le> i then (invalid ''chunk index is outside the manifest'', db1)
                         else if mu_status upload = ''complete'' then (invalid ''upload is already complete'', db1)
                         else if mu_status upload = ''expired'' then (Inl expired_session, db1)
                         else (case chunk_at uid i db1 of
                             Some existing \<Rightarrow>
                               if \<not> same_chunk checksum n channel existing
                               then (Inl (Json_Error ''chunk conflicts with an existing retry'' 409), db1)
                               else (Inr \<lparr>ca_index = i, ca_checksum = checksum, ca_bytes = n, ca_replayed = True\<rparr>, db1)
                           | None \<Rightarrow> store_chunk w now ws upload i bytes checksum channel db1))))"

subsection \<open>Direct uploads\<close>

text \<open>\<open>/^[a-f0-9]{64}$/\<close>.\<close>

definition is_sha_text :: "string \<Rightarrow> bool" where
  "is_sha_text s \<longleftrightarrow> length s = 64 \<and>
     list_all (\<lambda>c. is_ascii_digit c \<or> 97 \<le> (of_char c :: nat) \<and> (of_char c :: nat) \<le> 102) s"

definition chunk_metadata :: "json option \<Rightarrow> (int \<times> string \<times> string) option" where
  "chunk_metadata body =
     (case (json_get ''byteLength'' body, json_string (json_get ''checksum'' body), json_string (json_get ''channel'' body)) of
        (Some (JNumber n), Some checksum, Some channel) \<Rightarrow>
          if in_range n 1 max_chunk_bytes \<and> is_sha_text checksum \<and> is_channel channel
          then Some (int_of_number n, checksum, channel) else None
      | _ \<Rightarrow> None)"

text \<open>The first transaction: an existing chunk (\<open>None\<close>), an existing ticket, or a new one.\<close>

definition reserve_ticket_tx ::
  "upload_world \<Rightarrow> millis \<Rightarrow> ident \<Rightarrow> ident \<Rightarrow> int \<Rightarrow> int \<Rightarrow> string \<Rightarrow> string \<Rightarrow> hosted_db
   \<Rightarrow> upload_error + (chunk_row \<times> millis) option \<times> hosted_db" where
  "reserve_ticket_tx w now ws uid i bytes checksum channel db =
     (case touch_upload now (\<lambda>u. mu_id u = uid \<and> mu_workspace u = ws) db of
        None \<Rightarrow> invalid ''upload session expired or unavailable''
      | Some db1 \<Rightarrow>
          (case upload_by_id uid db1 of
             None \<Rightarrow> Inl Storage_Error
           | Some upload \<Rightarrow>
               if mu_chunks upload \<le> i then invalid ''chunk index is outside the manifest''
               else
                 let existing = chunk_at uid i db1;
                     reserved = ticket_at uid i db1;
                     prior = (case existing of Some c \<Rightarrow> Some c | None \<Rightarrow> reserved)
                 in if (case prior of Some c \<Rightarrow> \<not> same_chunk checksum bytes channel c | None \<Rightarrow> False)
                    then invalid ''chunk conflicts with an existing retry''
                    else if existing \<noteq> None then Inr (None, db1)
                    else (case reserved of
                        Some t \<Rightarrow> Inr (Some (t, mu_expires upload), db1)
                      | None \<Rightarrow>
                          if mu_bytes upload < stored_bytes uid db1 + reserved_bytes uid db1 + bytes
                          then invalid ''uploaded chunks exceed the declared upload byte limit''
                          else
                            let t = \<lparr>uc_id = ux_new_id w, uc_upload = uid, uc_index = i, uc_channel = channel,
                                     uc_bytes = bytes, uc_checksum = checksum,
                                     uc_object = ''uploads/'' @ ws @ ''/'' @ uid @ ''/direct-'' @ ux_uuid w,
                                     uc_signed = None\<rparr>
                            in Inr (Some (t, mu_expires upload), db1\<lparr>hd_tickets := hd_tickets db1 @ [t]\<rparr>))))"

definition renew_ticket_tx ::
  "millis \<Rightarrow> ident \<Rightarrow> ident \<Rightarrow> ident \<Rightarrow> int \<Rightarrow> hosted_db \<Rightarrow> upload_error + hosted_db" where
  "renew_ticket_tx now ws uid ticket_id expires_in db =
     (case touch_upload now (\<lambda>u. mu_id u = uid \<and> mu_workspace u = ws) db of
        None \<Rightarrow> invalid ''upload session expired or unavailable''
      | Some db1 \<Rightarrow>
          if count_rows (\<lambda>t. uc_id t = ticket_id) (hd_tickets db1) = 0
          then invalid ''chunk was completed; retry the manifest''
          else Inr (db1\<lparr>hd_tickets := update_rows (\<lambda>t. uc_id t = ticket_id)
                 (\<lambda>t. t\<lparr>uc_signed := Some (now + (expires_in + 120) * 1000)\<rparr>) (hd_tickets db1)\<rparr>))"

datatype direct_answer = Direct_Replayed | Direct_Signed string int int

text \<open>\<open>enabled\<close> is \<open>directUploadsEnabled()\<close>; signing the URL is the object store's.\<close>

definition prepare_direct_upload ::
  "bool \<Rightarrow> upload_world \<Rightarrow> millis \<Rightarrow> ident \<Rightarrow> ident \<Rightarrow> string \<Rightarrow> json option \<Rightarrow> hosted_db
   \<Rightarrow> (upload_error + direct_answer) \<times> hosted_db" where
  "prepare_direct_upload enabled w now ws uid raw_index body db =
     (case parse_index raw_index of
        None \<Rightarrow> (invalid ''chunk index is invalid'', db)
      | Some i \<Rightarrow>
          if \<not> enabled then (invalid ''direct uploads are disabled'', db)
          else case chunk_metadata body of
              None \<Rightarrow> (invalid ''chunk metadata is invalid'', db)
            | Some (bytes, checksum, channel) \<Rightarrow>
                (case reserve_ticket_tx w now ws uid i bytes checksum channel db of
                   Inl e \<Rightarrow> (Inl e, db)
                 | Inr (None, db1) \<Rightarrow> (Inr Direct_Replayed, db1)
                 | Inr (Some (t, expires), db1) \<Rightarrow>
                     (let expires_in = min 120 ((expires - now) div 1000) in
                      if expires_in < 1 then (invalid ''upload session expired'', db1)
                      else
                        let db2 = ux_other w db1 in
                        case renew_ticket_tx now ws uid (uc_id t) expires_in db2 of
                          Inl e \<Rightarrow> (Inl e, db2)
                        | Inr db3 \<Rightarrow> (Inr (Direct_Signed (uc_object t) (uc_bytes t) expires_in), db3))))"

definition commit_direct_tx ::
  "upload_world \<Rightarrow> millis \<Rightarrow> ident \<Rightarrow> ident \<Rightarrow> int \<Rightarrow> chunk_row \<Rightarrow> hosted_db \<Rightarrow> upload_error + hosted_db" where
  "commit_direct_tx w now ws uid i ticket db =
     (case touch_upload now (\<lambda>u. mu_id u = uid \<and> mu_workspace u = ws) db of
        None \<Rightarrow> invalid ''upload session expired or unavailable''
      | Some db1 \<Rightarrow>
          (let current = find_row (\<lambda>t. uc_id t = uc_id ticket) (hd_tickets db1);
               drop_ticket = (\<lambda>d. d\<lparr>hd_tickets := delete_rows (\<lambda>t. uc_id t = uc_id ticket) (hd_tickets d)\<rparr>)
           in case chunk_at uid i db1 of
                Some prior \<Rightarrow>
                  if \<not> same_chunk (uc_checksum ticket) (uc_bytes ticket) (uc_channel ticket) prior
                  then invalid ''chunk conflicts with an existing retry''
                  else Inr (drop_ticket db1)
              | None \<Rightarrow>
                  (case current of
                     None \<Rightarrow> invalid ''direct upload reservation is no longer available''
                   | Some t \<Rightarrow>
                       Inr (drop_ticket (db1\<lparr>hd_chunks := hd_chunks db1 @
                         [ticket\<lparr>uc_id := ux_new_id w, uc_upload := uid, uc_index := i, uc_signed := uc_signed t\<rparr>]\<rparr>)))))"

definition complete_direct_chunk ::
  "upload_world \<Rightarrow> millis \<Rightarrow> ident \<Rightarrow> ident \<Rightarrow> string \<Rightarrow> hosted_db \<Rightarrow> (upload_error + bool) \<times> hosted_db" where
  "complete_direct_chunk w now ws uid raw_index db =
     (case parse_index raw_index of
        None \<Rightarrow> (invalid ''chunk index is invalid'', db)
      | Some i \<Rightarrow>
          (case get_upload now ws uid db of
             (None, db1) \<Rightarrow> (invalid ''upload session expired or unavailable'', db1)
           | (Some upload, db1) \<Rightarrow>
               if mu_status upload = ''expired'' \<or> mu_expires upload \<le> now
               then (invalid ''upload session expired or unavailable'', db1)
               else
                 let existing = chunk_at uid i db1 in
                 case ticket_at uid i db1 of
                   None \<Rightarrow>
                     if existing \<noteq> None then (Inr True, db1)
                     else (invalid ''no direct upload reservation'', db1)
                 | Some ticket \<Rightarrow>
                     (case map_of (hd_objects db1) (uc_object ticket) of
                        None \<Rightarrow> (Inl Storage_Error, db1)
                      | Some bytes \<Rightarrow>
                          if int (length bytes) \<noteq> uc_bytes ticket \<or> ux_sha w bytes \<noteq> uc_checksum ticket
                          then (invalid ''stored chunk checksum or size mismatch'', db1)
                          else
                            let db2 = ux_other w db1 in
                            case commit_direct_tx w now ws uid i ticket db2 of
                              Inl e \<Rightarrow> (Inl e, db2)
                            | Inr db3 \<Rightarrow> (Inr (existing \<noteq> None), db3))))"

end
