(* ===== verification/Upload_Staging.thy ===== *)
theory Upload_Staging
  imports Upload_Chunks
begin

text \<open>
  What the staging tables promise: the pieces of an upload occupy distinct indices of its
  manifest, whether stored or only reserved by a direct ticket, and never add up to more than
  the declared bytes.

  Requests run in several transactions with other requests in between, and a handler decides on
  rows it read earlier. What makes this sound is that the columns it relies on never change and
  that \<open>randomUUID()\<close> never names two rows. \<open>issued\<close> is the register of what each identifier was
  given out for; the invariant says that the tables agree with it, and a request is admissible
  when what it issues is registered and what happens in between keeps the invariant.
\<close>

named_theorems staging_intros \<open>transactions keep the staging invariant\<close>

record issued =
  is_upload :: "ident \<Rightarrow> ident \<times> int \<times> int"
  is_ticket :: "ident \<Rightarrow> ident \<times> int \<times> int"

definition declared_chunks :: "issued \<Rightarrow> ident \<Rightarrow> int" where
  "declared_chunks reg uid = fst (snd (is_upload reg uid))"

definition declared_bytes :: "issued \<Rightarrow> ident \<Rightarrow> int" where
  "declared_bytes reg uid = snd (snd (is_upload reg uid))"

definition slot_key :: "chunk_row \<Rightarrow> ident \<times> int" where
  "slot_key c = (uc_upload c, uc_index c)"

definition pieces :: "hosted_db \<Rightarrow> chunk_row list" where
  "pieces db = hd_chunks db @ hd_tickets db"

definition piece_bytes :: "ident \<Rightarrow> chunk_row list \<Rightarrow> int" where
  "piece_bytes uid rows = sum_rows uc_bytes (\<lambda>c. uc_upload c = uid) rows"

definition uploads_registered :: "issued \<Rightarrow> upload_row list \<Rightarrow> bool" where
  "uploads_registered reg rows \<longleftrightarrow>
     list_all (\<lambda>u. is_upload reg (mu_id u) = (mu_workspace u, mu_chunks u, mu_bytes u)) rows"

definition tickets_registered :: "issued \<Rightarrow> chunk_row list \<Rightarrow> bool" where
  "tickets_registered reg rows \<longleftrightarrow>
     list_all (\<lambda>t. is_ticket reg (uc_id t) = (uc_upload t, uc_index t, uc_bytes t)) rows"

definition piece_ok :: "issued \<Rightarrow> chunk_row list \<Rightarrow> chunk_row \<Rightarrow> bool" where
  "piece_ok reg rows c \<longleftrightarrow>
     0 \<le> uc_index c \<and> uc_index c < declared_chunks reg (uc_upload c) \<and> 0 < uc_bytes c \<and>
     piece_bytes (uc_upload c) rows \<le> declared_bytes reg (uc_upload c)"

definition staging_ok :: "issued \<Rightarrow> hosted_db \<Rightarrow> bool" where
  "staging_ok reg db \<longleftrightarrow>
     uploads_registered reg (hd_uploads db) \<and> tickets_registered reg (hd_tickets db) \<and>
     unique_on slot_key (pieces db) \<and> list_all (piece_ok reg (pieces db)) (pieces db)"

subsection \<open>Sums over the pieces\<close>

lemma piece_bytes_append [simp]: "piece_bytes uid (xs @ ys) = piece_bytes uid xs + piece_bytes uid ys"
  by (simp add: piece_bytes_def)

lemma piece_bytes_Cons [simp]:
  "piece_bytes uid (c # cs) = (if uc_upload c = uid then uc_bytes c else 0) + piece_bytes uid cs"
  by (simp add: piece_bytes_def)

lemma piece_bytes_Nil [simp]: "piece_bytes uid [] = 0"
  by (simp add: piece_bytes_def)

lemma piece_bytes_pieces: "piece_bytes uid (pieces db) = stored_bytes uid db + reserved_bytes uid db"
  by (simp add: pieces_def piece_bytes_def stored_bytes_def reserved_bytes_def)

lemma piece_bytes_delete:
  "(\<And>c. c \<in> set rows \<Longrightarrow> 0 \<le> uc_bytes c) \<Longrightarrow> piece_bytes uid (delete_rows p rows) \<le> piece_bytes uid rows"
  by (induction rows) (auto simp: add_increasing)

lemma find_slot_None:
  "find_row (\<lambda>c. uc_upload c = uid \<and> uc_index c = i) rows = None \<longleftrightarrow> (uid, i) \<notin> slot_key ` set rows"
  by (auto simp: find_row_None_iff slot_key_def)

lemma chunk_ticket_free:
  "chunk_at uid i db = None \<Longrightarrow> ticket_at uid i db = None \<Longrightarrow> (uid, i) \<notin> slot_key ` set (pieces db)"
  by (auto simp: chunk_at_def ticket_at_def find_slot_None pieces_def)

subsection \<open>Changes that keep the invariant\<close>

lemma uploads_registered_update:
  assumes "\<And>u. mu_id (f u) = mu_id u" "\<And>u. mu_workspace (f u) = mu_workspace u"
    "\<And>u. mu_chunks (f u) = mu_chunks u" "\<And>u. mu_bytes (f u) = mu_bytes u"
  shows "uploads_registered reg (update_rows p f rows) = uploads_registered reg rows"
  by (induction rows) (auto simp: uploads_registered_def assms)

lemma staging_uploads:
  "staging_ok reg db \<Longrightarrow> uploads_registered reg rows \<Longrightarrow> staging_ok reg (db\<lparr>hd_uploads := rows\<rparr>)"
  by (simp add: staging_ok_def pieces_def)

lemma piece_positive: "staging_ok reg db \<Longrightarrow> c \<in> set (pieces db) \<Longrightarrow> 0 < uc_bytes c"
  by (auto simp: staging_ok_def list_all_iff piece_ok_def)

lemma staging_delete:
  assumes ok: "staging_ok reg db"
    and rows: "hd_uploads db' = delete_rows r (hd_uploads db)" "hd_chunks db' = delete_rows p (hd_chunks db)"
      "hd_tickets db' = delete_rows q (hd_tickets db)"
  shows "staging_ok reg db'"
proof -
  have nonneg: "0 \<le> uc_bytes c" if "c \<in> set (hd_chunks db) \<or> c \<in> set (hd_tickets db)" for c
    using piece_positive [OF ok, of c] that by (auto simp: pieces_def)
  have le: "piece_bytes uid (pieces db') \<le> piece_bytes uid (pieces db)" for uid
    unfolding pieces_def rows piece_bytes_append by (intro add_mono piece_bytes_delete nonneg) auto
  have sub: "set (pieces db') \<subseteq> set (pieces db)" by (auto simp: pieces_def rows)
  have "piece_ok reg (pieces db') c" if c: "c \<in> set (pieces db')" for c
  proof -
    have "piece_ok reg (pieces db) c" using ok sub c by (auto simp: staging_ok_def list_all_iff)
    then show ?thesis using le [of "uc_upload c"] by (simp add: piece_ok_def)
  qed
  moreover have "unique_on slot_key (pieces db')"
    using ok unfolding staging_ok_def pieces_def rows unique_on_append by (auto intro: unique_on_delete)
  ultimately show ?thesis
    using ok by (auto simp: staging_ok_def list_all_iff uploads_registered_def tickets_registered_def rows)
qed

lemma staging_objects [simp]: "staging_ok reg (db\<lparr>hd_objects := obj\<rparr>) = staging_ok reg db"
  by (simp add: staging_ok_def pieces_def)

text \<open>
  Adding a piece at a free index within the declared bytes. \<open>base\<close> are the pieces that stay;
  a direct upload replaces its ticket by a chunk of the same index and size.
\<close>

definition fits :: "issued \<Rightarrow> chunk_row list \<Rightarrow> chunk_row \<Rightarrow> bool" where
  "fits reg base c \<longleftrightarrow>
     slot_key c \<notin> slot_key ` set base \<and> 0 \<le> uc_index c \<and> uc_index c < declared_chunks reg (uc_upload c) \<and>
     0 < uc_bytes c \<and> piece_bytes (uc_upload c) base + uc_bytes c \<le> declared_bytes reg (uc_upload c)"

lemma pieces_ok_add:
  assumes "list_all (piece_ok reg (xs @ ys)) (xs @ ys)" "fits reg (xs @ ys) c"
  shows "list_all (piece_ok reg (xs @ c # ys)) (xs @ c # ys)"
  using assms unfolding list_all_iff fits_def piece_ok_def by auto

lemma unique_pieces_add:
  "unique_on slot_key (xs @ ys) \<Longrightarrow> fits reg (xs @ ys) c \<Longrightarrow> unique_on slot_key (xs @ c # ys)"
  by (auto simp: unique_on_append fits_def)

lemma staging_add_chunk:
  assumes "staging_ok reg db" "fits reg (pieces db) c"
  shows "staging_ok reg (db\<lparr>hd_chunks := hd_chunks db @ [c]\<rparr>)"
  using assms pieces_ok_add [of reg "hd_chunks db" "hd_tickets db" c]
    unique_pieces_add [of "hd_chunks db" "hd_tickets db" reg c]
  by (simp add: staging_ok_def pieces_def)

lemma staging_add_ticket:
  assumes "staging_ok reg db" "fits reg (pieces db) t"
    and "is_ticket reg (uc_id t) = (uc_upload t, uc_index t, uc_bytes t)"
  shows "staging_ok reg (db\<lparr>hd_tickets := hd_tickets db @ [t]\<rparr>)"
  using assms pieces_ok_add [of reg "hd_chunks db @ hd_tickets db" "[]" t]
    unique_pieces_add [of "hd_chunks db @ hd_tickets db" "[]" reg t]
  by (simp add: staging_ok_def pieces_def tickets_registered_def)

lemma ticket_registered:
  "staging_ok reg db \<Longrightarrow> t \<in> set (hd_tickets db) \<Longrightarrow>
    is_ticket reg (uc_id t) = (uc_upload t, uc_index t, uc_bytes t)"
  by (simp add: staging_ok_def tickets_registered_def list_all_iff)

lemma upload_registered:
  "staging_ok reg db \<Longrightarrow> u \<in> set (hd_uploads db) \<Longrightarrow>
    is_upload reg (mu_id u) = (mu_workspace u, mu_chunks u, mu_bytes u)"
  by (simp add: staging_ok_def uploads_registered_def list_all_iff)

lemma ticket_ids_unique:
  assumes ok: "staging_ok reg db"
  shows "unique_on uc_id (hd_tickets db)"
proof -
  have "unique_on slot_key (hd_tickets db)" using ok by (simp add: staging_ok_def pieces_def unique_on_append)
  moreover have "slot_key a = slot_key b"
    if "a \<in> set (hd_tickets db)" "b \<in> set (hd_tickets db)" "uc_id a = uc_id b" for a b
    using ticket_registered [OF ok that(1)] ticket_registered [OF ok that(2)] that(3)
    by (simp add: slot_key_def)
  ultimately show ?thesis by (auto simp: unique_on_def distinct_map intro!: inj_onI dest: inj_onD)
qed

lemma piece_bytes_delete_ticket:
  assumes "unique_on uc_id rows" "t \<in> set rows"
  shows "piece_bytes uid rows =
    (if uc_upload t = uid then uc_bytes t else 0) + piece_bytes uid (delete_rows (\<lambda>x. uc_id x = uc_id t) rows)"
  using assms
proof (induction rows)
  case (Cons x rows)
  show ?case
  proof (cases "x = t")
    case True
    with Cons.prems have "delete_rows (\<lambda>x. uc_id x = uc_id t) rows = rows"
      by (auto simp: delete_rows_def filter_id_conv image_iff)
    with True show ?thesis by simp
  next
    case False
    with Cons show ?thesis by (auto simp: image_iff)
  qed
qed simp

lemma fits_after_delete:
  assumes ok: "staging_ok reg db" and t: "t \<in> set (hd_tickets db)"
    and c: "slot_key c = slot_key t" "uc_bytes c = uc_bytes t"
  shows "fits reg (hd_chunks db @ delete_rows (\<lambda>x. uc_id x = uc_id t) (hd_tickets db)) c"
proof -
  have up: "uc_upload c = uc_upload t" "uc_index c = uc_index t" using c by (simp_all add: slot_key_def)
  have t_ok: "piece_ok reg (pieces db) t" using ok t by (simp add: staging_ok_def list_all_iff pieces_def)
  have uniq: "unique_on slot_key (hd_tickets db)" "slot_key t \<notin> slot_key ` set (hd_chunks db)"
    using ok t by (auto simp: staging_ok_def pieces_def unique_on_append)
  have "slot_key t \<notin> slot_key ` set (delete_rows (\<lambda>x. uc_id x = uc_id t) (hd_tickets db))"
    using unique_onD [OF uniq(1) t] by auto
  then show ?thesis
    using t_ok uniq(2) piece_bytes_delete_ticket [OF ticket_ids_unique [OF ok] t, of "uc_upload t"] c
    by (simp add: fits_def up piece_ok_def pieces_def image_Un)
qed

lemma staging_replace_ticket:
  assumes ok: "staging_ok reg db" and t: "t \<in> set (hd_tickets db)"
    and c: "slot_key c = slot_key t" "uc_bytes c = uc_bytes t"
  shows "staging_ok reg (db\<lparr>hd_chunks := hd_chunks db @ [c],
    hd_tickets := delete_rows (\<lambda>x. uc_id x = uc_id t) (hd_tickets db)\<rparr>)"
proof -
  let ?db = "db\<lparr>hd_tickets := delete_rows (\<lambda>x. uc_id x = uc_id t) (hd_tickets db)\<rparr>"
  have "staging_ok reg ?db"
    by (rule staging_delete [OF ok, where r = "\<lambda>_. False" and p = "\<lambda>_. False"])
      (simp_all add: delete_rows_def)
  from staging_add_chunk [OF this, of c] fits_after_delete [OF ok t c]
  show ?thesis by (simp add: pieces_def staging_ok_def)
qed

subsection \<open>The transactions\<close>

lemma staging_update_uploads:
  assumes "staging_ok reg db"
    and "\<And>u. mu_id (f u) = mu_id u" "\<And>u. mu_workspace (f u) = mu_workspace u"
    "\<And>u. mu_chunks (f u) = mu_chunks u" "\<And>u. mu_bytes (f u) = mu_bytes u"
  shows "staging_ok reg (db\<lparr>hd_uploads := update_rows p f (hd_uploads db)\<rparr>)"
  using assms by (intro staging_uploads) (simp_all add: staging_ok_def uploads_registered_update)

lemma staging_mark_expired [staging_intros]: "staging_ok reg db \<Longrightarrow> staging_ok reg (mark_expired now uid db)"
  unfolding mark_expired_def by (rule staging_update_uploads) simp_all

lemma staging_touch:
  "staging_ok reg db \<Longrightarrow> touch_upload now p db = Some db' \<Longrightarrow> staging_ok reg db'"
  unfolding touch_upload_def by (auto split: if_splits intro!: staging_update_uploads)

lemma touch_keeps [simp]:
  assumes "touch_upload now p db = Some db'"
  shows "hd_chunks db' = hd_chunks db" "hd_tickets db' = hd_tickets db" "hd_objects db' = hd_objects db"
  using assms by (auto simp: touch_upload_def split: if_splits)

lemma staging_delete_upload_row [staging_intros]:
  "staging_ok reg db \<Longrightarrow> staging_ok reg (delete_upload_row uid db)"
  by (rule staging_delete [where r = "\<lambda>u. mu_id u = uid"]) (auto simp: delete_upload_row_def)

lemma staging_delete_objects [simp]: "staging_ok reg (delete_objects fails keys db) = staging_ok reg db"
  by (simp add: delete_objects_def)

lemma staging_put_object [simp]: "staging_ok reg (put_object key bytes db) = staging_ok reg db"
  by (simp add: put_object_def)

lemma staging_remove_object [simp]: "staging_ok reg (remove_object fails key db) = staging_ok reg db"
  by (simp add: remove_object_def)

lemma staging_delete_audio [staging_intros]:
  "staging_ok reg db \<Longrightarrow> staging_ok reg (snd (delete_managed_upload_audio now fails uid db))"
  by (auto simp: delete_managed_upload_audio_def Let_def
      intro!: staging_delete [where db = db and r = "\<lambda>_. False"])
    (simp_all add: delete_rows_def delete_objects_def)

lemma staging_get_upload [staging_intros]:
  "staging_ok reg db \<Longrightarrow> staging_ok reg (snd (get_upload now ws uid db))"
  by (auto simp: get_upload_def staging_mark_expired split: option.splits)

lemma get_upload_Some:
  assumes "get_upload now ws uid db = (Some u, db1)" "staging_ok reg db"
  shows "mu_id u = uid" "is_upload reg uid = (ws, mu_chunks u, mu_bytes u)"
proof -
  obtain r where r: "find_row (\<lambda>u. mu_id u = uid \<and> mu_workspace u = ws) (hd_uploads db) = Some r"
    and u: "u = r \<or> u = r\<lparr>mu_status := ''expired''\<rparr>"
    using assms(1) by (auto simp: get_upload_def split: option.splits if_splits)
  have "r \<in> set (hd_uploads db)" "mu_id r = uid" "mu_workspace r = ws" using find_row_SomeD [OF r] by simp_all
  with upload_registered [OF assms(2), of r] u
  show "mu_id u = uid" "is_upload reg uid = (ws, mu_chunks u, mu_bytes u)" by auto
qed

lemma staging_insert_chunk:
  assumes ok: "staging_ok reg db" and tx: "insert_chunk_tx now new_id u i ck n ch key db = Inr (b, db')"
    and u: "is_upload reg (mu_id u) = (ws, mu_chunks u, mu_bytes u)"
    and i: "0 \<le> i" "i < mu_chunks u" "0 < n"
  shows "staging_ok reg db'"
proof -
  obtain db1 where t: "touch_upload now (\<lambda>x. mu_id x = mu_id u) db = Some db1"
    using tx by (auto simp: insert_chunk_tx_def Let_def split: option.splits)
  have ok1: "staging_ok reg db1" by (rule staging_touch [OF ok t])
  show ?thesis
  proof (cases "chunk_at (mu_id u) i db1")
    case None
    with tx t have f: "ticket_at (mu_id u) i db1 = None"
      "piece_bytes (mu_id u) (pieces db1) + n \<le> mu_bytes u"
      and db': "db' = db1\<lparr>hd_chunks := hd_chunks db1 @ [\<lparr>uc_id = new_id, uc_upload = mu_id u, uc_index = i,
        uc_channel = ch, uc_bytes = n, uc_checksum = ck, uc_object = key, uc_signed = None\<rparr>]\<rparr>"
      by (auto simp: insert_chunk_tx_def Let_def invalid_def piece_bytes_pieces split: if_splits)
    show ?thesis unfolding db' using chunk_ticket_free [OF None f(1)] f(2) i u
      by (intro staging_add_chunk ok1) (simp add: fits_def slot_key_def declared_chunks_def declared_bytes_def)
  next
    case (Some c)
    with tx t ok1 show ?thesis by (auto simp: insert_chunk_tx_def Let_def invalid_def split: if_splits)
  qed
qed

lemma staging_reserve_ticket:
  assumes ok: "staging_ok reg db" and tx: "reserve_ticket_tx w now ws uid i n ck ch db = Inr (r, db')"
    and i: "0 \<le> i" "0 < n" and new: "is_ticket reg (ux_new_id w) = (uid, i, n)"
  shows "staging_ok reg db'"
proof -
  obtain db1 u where t: "touch_upload now (\<lambda>x. mu_id x = uid \<and> mu_workspace x = ws) db = Some db1"
    and u: "upload_by_id uid db1 = Some u" and iu: "i < mu_chunks u"
    using tx by (auto simp: reserve_ticket_tx_def Let_def invalid_def split: option.splits if_splits)
  have ok1: "staging_ok reg db1" by (rule staging_touch [OF ok t])
  have reg: "is_upload reg uid = (mu_workspace u, mu_chunks u, mu_bytes u)"
    using upload_registered [OF ok1] find_row_SomeD [OF u [unfolded upload_by_id_def]] by auto
  consider (kept) "db' = db1"
    | (made) "chunk_at uid i db1 = None" "ticket_at uid i db1 = None"
      "piece_bytes uid (pieces db1) + n \<le> mu_bytes u"
      "db' = db1\<lparr>hd_tickets := hd_tickets db1 @ [\<lparr>uc_id = ux_new_id w, uc_upload = uid, uc_index = i,
        uc_channel = ch, uc_bytes = n, uc_checksum = ck,
        uc_object = ''uploads/'' @ ws @ ''/'' @ uid @ ''/direct-'' @ ux_uuid w, uc_signed = None\<rparr>]\<rparr>"
    using tx t u iu
    by (cases "chunk_at uid i db1"; cases "ticket_at uid i db1")
      (auto simp: reserve_ticket_tx_def Let_def invalid_def piece_bytes_pieces split: if_splits)
  then show ?thesis
  proof cases
    case kept
    with ok1 show ?thesis by simp
  next
    case made
    show ?thesis unfolding made(4) using chunk_ticket_free [OF made(1,2)] made(3) i iu new reg
      by (intro staging_add_ticket ok1) (simp_all add: fits_def slot_key_def declared_chunks_def declared_bytes_def)
  qed
qed

lemma pieces_signed_cong:
  assumes "\<And>t. slot_key (f t) = slot_key t" "\<And>t. uc_bytes (f t) = uc_bytes t"
  shows "piece_bytes uid (update_rows p f rows) = piece_bytes uid rows"
    "slot_key ` set (update_rows p f rows) = slot_key ` set rows"
    "unique_on slot_key (update_rows p f rows) = unique_on slot_key rows"
proof -
  have "uc_upload (f t) = uc_upload t" for t using assms(1) [of t] by (simp add: slot_key_def)
  then show "piece_bytes uid (update_rows p f rows) = piece_bytes uid rows"
    using assms(2) by (induction rows) auto
  show "slot_key ` set (update_rows p f rows) = slot_key ` set rows" by (rule keys_update_rows) (rule assms(1))
  show "unique_on slot_key (update_rows p f rows) = unique_on slot_key rows"
    by (rule unique_on_update) (rule assms(1))
qed

lemma staging_renew_ticket:
  assumes ok: "staging_ok reg db" and tx: "renew_ticket_tx now ws uid tid k db = Inr db'"
  shows "staging_ok reg db'"
proof -
  define until where "until = Some (now + (k + 120) * 1000)"
  let ?f = "\<lambda>t. t\<lparr>uc_signed := until\<rparr>"
  obtain db1 where t: "touch_upload now (\<lambda>x. mu_id x = uid \<and> mu_workspace x = ws) db = Some db1"
    and db': "db' = db1\<lparr>hd_tickets := update_rows (\<lambda>t. uc_id t = tid) ?f (hd_tickets db1)\<rparr>"
    using tx unfolding until_def by (auto simp: renew_ticket_tx_def invalid_def split: option.splits if_splits)
  have ok1: "staging_ok reg db1" by (rule staging_touch [OF ok t])
  have f: "\<And>t. slot_key (?f t) = slot_key t" "\<And>t. uc_bytes (?f t) = uc_bytes t" by (simp_all add: slot_key_def)
  note cong = pieces_signed_cong [of ?f, OF f]
  have "tickets_registered reg (hd_tickets db')"
    using ok1 by (simp add: db' staging_ok_def tickets_registered_def list_all_update_rows)
  moreover have "unique_on slot_key (pieces db')"
    using ok1 by (simp add: db' staging_ok_def pieces_def unique_on_append cong)
  moreover have "list_all (piece_ok reg (pieces db')) (pieces db')"
    using ok1 unfolding db' staging_ok_def pieces_def
    by (simp add: piece_ok_def [abs_def] cong list_all_update_rows)
  ultimately show ?thesis using ok1 by (simp add: staging_ok_def db')
qed

lemma staging_commit_direct:
  assumes ok: "staging_ok reg db" and tx: "commit_direct_tx w now ws uid i ticket db = Inr db'"
    and ticket: "is_ticket reg (uc_id ticket) = (uid, i, uc_bytes ticket)"
  shows "staging_ok reg db'"
proof -
  obtain db1 where t: "touch_upload now (\<lambda>x. mu_id x = uid \<and> mu_workspace x = ws) db = Some db1"
    using tx by (auto simp: commit_direct_tx_def invalid_def split: option.splits)
  have ok1: "staging_ok reg db1" by (rule staging_touch [OF ok t])
  show ?thesis
  proof (cases "chunk_at uid i db1")
    case (Some c)
    with tx t have "db' = db1\<lparr>hd_tickets := delete_rows (\<lambda>t. uc_id t = uc_id ticket) (hd_tickets db1)\<rparr>"
      by (auto simp: commit_direct_tx_def Let_def invalid_def split: if_splits)
    then show ?thesis
      by (intro staging_delete [OF ok1, where r = "\<lambda>_. False" and p = "\<lambda>_. False"]) (simp_all add: delete_rows_def)
  next
    case None
    with tx t obtain cur where cur: "find_row (\<lambda>t. uc_id t = uc_id ticket) (hd_tickets db1) = Some cur"
      and db': "db' = db1\<lparr>hd_chunks := hd_chunks db1 @
          [ticket\<lparr>uc_id := ux_new_id w, uc_upload := uid, uc_index := i, uc_signed := uc_signed cur\<rparr>],
        hd_tickets := delete_rows (\<lambda>t. uc_id t = uc_id ticket) (hd_tickets db1)\<rparr>"
      by (auto simp: commit_direct_tx_def Let_def invalid_def split: option.splits)
    have "cur \<in> set (hd_tickets db1)" and same: "uc_id cur = uc_id ticket" using find_row_SomeD [OF cur] by simp_all
    with staging_replace_ticket [OF ok1 this(1)] ticket_registered [OF ok1 this(1)] ticket
    show ?thesis by (simp add: db' slot_key_def)
  qed
qed

subsection \<open>The requests\<close>

definition keeps_staging :: "issued \<Rightarrow> (hosted_db \<Rightarrow> hosted_db) \<Rightarrow> bool" where
  "keeps_staging reg f \<longleftrightarrow> (\<forall>db. staging_ok reg db \<longrightarrow> staging_ok reg (f db))"

lemma keeps_stagingD: "keeps_staging reg f \<Longrightarrow> staging_ok reg db \<Longrightarrow> staging_ok reg (f db)"
  by (simp add: keeps_staging_def)

lemma parse_index_nonneg: "parse_index raw = Some i \<Longrightarrow> 0 \<le> i"
  by (auto simp: parse_index_def split: if_splits)

lemma chunk_metadata_positive: "chunk_metadata body = Some (n, ck, ch) \<Longrightarrow> 0 < n"
  by (auto simp: chunk_metadata_def in_range_def int_of_number_def split: option.splits json.splits if_splits)

lemma staging_store_chunk:
  assumes ok: "staging_ok reg db" and other: "keeps_staging reg (ux_other w)"
    and u: "is_upload reg (mu_id u) = (ws', mu_chunks u, mu_bytes u)"
    and i: "0 \<le> i" "i < mu_chunks u" "bytes \<noteq> []"
  shows "staging_ok reg (snd (store_chunk w now ws u i bytes ck ch db))"
proof -
  let ?key = "object_key_for w ws (mu_id u) i ck"
  let ?db = "ux_other w (put_object ?key bytes db)"
  have ok1: "staging_ok reg ?db" using ok by (intro keeps_stagingD [OF other]) simp
  have ins: "staging_ok reg d"
    if "insert_chunk_tx now (ux_new_id w) u i ck (int (length bytes)) ch ?key ?db = Inr (b, d)" for b d
    using staging_insert_chunk [OF ok1 that u] i by simp
  show ?thesis
  proof (cases "ux_put_fails w")
    case True
    with ok show ?thesis by (simp add: store_chunk_def)
  next
    case False
    show ?thesis
    proof (cases "ux_abort w")
      case None
      with False ok1 ins show ?thesis
        by (auto simp: store_chunk_def Let_def split: sum.splits option.splits bool.splits prod.splits)
    next
      case (Some t)
      with False ok1 show ?thesis by (auto simp: store_chunk_def Let_def split: option.splits)
    qed
  qed
qed

lemma staging_chunk_upload:
  assumes ok: "staging_ok reg db" and other: "keeps_staging reg (ux_other w)"
  shows "staging_ok reg (snd (handle_managed_chunk_upload w now ws uid req db))"
proof (cases "parse_index (cr_index req)")
  case None
  with ok show ?thesis by (simp add: handle_managed_chunk_upload_def)
next
  case (Some i)
  note i = Some
  show ?thesis
  proof (cases "read_managed_bytes (cr_length req) (cr_body req) max_chunk_bytes")
    case (Inl e)
    with ok i show ?thesis by (simp add: handle_managed_chunk_upload_def)
  next
    case (Inr bytes)
    obtain u db1 where g: "get_upload now ws uid db = (u, db1)" by (cases "get_upload now ws uid db")
    have ok1: "staging_ok reg db1" using staging_get_upload [OF ok, of now ws uid] g by simp
    have store: "staging_ok reg (snd (store_chunk w now ws r i bytes ck ch db1))"
      if "u = Some r" "i < mu_chunks r" "bytes \<noteq> []" for r ck ch
      using staging_store_chunk [OF ok1 other] get_upload_Some [OF g [unfolded that(1)] ok] that
        parse_index_nonneg [OF i] by simp
    show ?thesis
      using ok ok1 store unfolding handle_managed_chunk_upload_def i Inr g
      by (auto simp: Let_def split: option.splits)
  qed
qed

lemma staging_prepare_direct:
  assumes ok: "staging_ok reg db" and other: "keeps_staging reg (ux_other w)"
    and new: "\<And>i n ck ch. parse_index raw = Some i \<Longrightarrow> chunk_metadata body = Some (n, ck, ch) \<Longrightarrow>
      is_ticket reg (ux_new_id w) = (uid, i, n)"
  shows "staging_ok reg (snd (prepare_direct_upload enabled w now ws uid raw body db))"
proof (cases "parse_index raw")
  case None
  with ok show ?thesis by (simp add: prepare_direct_upload_def)
next
  case (Some i)
  note i = Some
  show ?thesis
  proof (cases "chunk_metadata body")
    case None
    with ok i show ?thesis by (simp add: prepare_direct_upload_def)
  next
    case (Some m)
    obtain n ck ch where m: "chunk_metadata body = Some (n, ck, ch)" using Some by (cases m) auto
    have tx: "staging_ok reg d" if "reserve_ticket_tx w now ws uid i n ck ch db = Inr (r, d)" for r d
      using staging_reserve_ticket [OF ok that parse_index_nonneg [OF i] chunk_metadata_positive [OF m] new [OF i m]] .
    have renew: "staging_ok reg d" if "staging_ok reg e" "renew_ticket_tx now ws uid tid k (ux_other w e) = Inr d" for d e tid k
      using staging_renew_ticket [OF keeps_stagingD [OF other that(1)] that(2)] .
    show ?thesis
    proof (cases "reserve_ticket_tx w now ws uid i n ck ch db")
      case (Inl e)
      with ok show ?thesis by (simp add: prepare_direct_upload_def i m)
    next
      case (Inr r)
      obtain t db1 where r: "r = (t, db1)" by (cases r)
      have ok1: "staging_ok reg db1" using tx Inr r by simp
      have ok2: "staging_ok reg (ux_other w db1)" by (rule keeps_stagingD [OF other ok1])
      show ?thesis
        using ok ok1 ok2 renew [OF ok1] Inr [unfolded r]
        by (cases t) (auto simp: prepare_direct_upload_def i m Let_def split: sum.splits)
    qed
  qed
qed

lemma staging_complete_direct:
  assumes ok: "staging_ok reg db" and other: "keeps_staging reg (ux_other w)"
  shows "staging_ok reg (snd (complete_direct_chunk w now ws uid raw db))"
proof (cases "parse_index raw")
  case None
  with ok show ?thesis by (simp add: complete_direct_chunk_def)
next
  case (Some i)
  obtain u db1 where g: "get_upload now ws uid db = (u, db1)" by (cases "get_upload now ws uid db")
  have ok1: "staging_ok reg db1" using staging_get_upload [OF ok, of now ws uid] g by simp
  have ok2: "staging_ok reg (ux_other w db1)" by (rule keeps_stagingD [OF other ok1])
  have tx: "staging_ok reg d"
    if t: "ticket_at uid i db1 = Some t" and c: "commit_direct_tx w now ws uid i t (ux_other w db1) = Inr d" for t d
  proof -
    have "t \<in> set (hd_tickets db1)" "uc_upload t = uid" "uc_index t = i"
      using find_row_SomeD [OF t [unfolded ticket_at_def]] by simp_all
    with staging_commit_direct [OF ok2 c] ticket_registered [OF ok1] show ?thesis by simp
  qed
  show ?thesis
    using ok ok1 ok2 tx unfolding complete_direct_chunk_def Some g
    by (auto simp: Let_def split: option.splits sum.splits)
qed

lemma staging_resolve_existing [staging_intros]:
  "staging_ok reg db \<Longrightarrow> staging_ok reg (snd (resolve_existing now fails ws input db))"
  using staging_delete_audio [of reg "mark_expired now (mu_id u) db" now fails "mu_id v" for u v]
  by (auto simp: resolve_existing_def Let_def staging_mark_expired case_prod_unfold
      intro!: staging_delete_upload_row staging_delete_audio staging_mark_expired split: option.splits)

lemma staging_reserve_staging:
  assumes ok: "staging_ok reg db" and tx: "reserve_staging_tx now new_id ws input db = Inr (u, db')"
    and new: "is_upload reg new_id = (ws, int_of_number (ui_chunks input), int_of_number (ui_bytes input))"
  shows "staging_ok reg db'"
proof -
  have "db' = db \<or> db' = db\<lparr>hd_uploads := hd_uploads db @ [new_upload now new_id ws input]\<rparr>"
    using tx by (auto simp: reserve_staging_tx_def split: option.splits if_splits)
  moreover have "uploads_registered reg (hd_uploads db @ [new_upload now new_id ws input])"
    using ok new by (simp add: staging_ok_def uploads_registered_def new_upload_def)
  ultimately show ?thesis using ok staging_uploads by auto
qed

lemma staging_create:
  assumes ok: "staging_ok reg db" and other: "keeps_staging reg (ux_other w)"
    and new: "is_upload reg (ux_new_id w) = (ws, int_of_number (ui_chunks input), int_of_number (ui_bytes input))"
  shows "staging_ok reg (snd (create_managed_upload w now ws input db))"
proof -
  obtain r db1 where r: "resolve_existing now (ux_fails w) ws input db = (r, db1)"
    by (cases "resolve_existing now (ux_fails w) ws input db")
  have ok1: "staging_ok reg db1" using staging_resolve_existing [OF ok, of now "ux_fails w" ws input] r by simp
  have ok2: "staging_ok reg (ux_other w db1)" by (rule keeps_stagingD [OF other ok1])
  have tx: "staging_ok reg d" if "reserve_staging_tx now (ux_new_id w) ws input (ux_other w db1) = Inr (u, d)" for u d
    by (rule staging_reserve_staging [OF ok2 that new])
  show ?thesis
    using ok ok1 ok2 tx unfolding create_managed_upload_def r
    by (auto simp: Let_def split: option.splits sum.splits existing_outcome.splits)
qed

lemma staging_complete:
  assumes ok: "staging_ok reg db" and other: "keeps_staging reg (ux_other w)"
  shows "staging_ok reg (snd (complete_managed_upload w now ws uid db))"
proof -
  obtain u db1 where g: "get_upload now ws uid db = (u, db1)" by (cases "get_upload now ws uid db")
  have ok1: "staging_ok reg db1" using staging_get_upload [OF ok, of now ws uid] g by simp
  have ok2: "staging_ok reg (ux_other w db1)" by (rule keeps_stagingD [OF other ok1])
  show ?thesis using ok1 ok2 unfolding complete_managed_upload_def g
    by (auto intro!: staging_update_uploads simp: Let_def split: option.splits)
qed

text \<open>One request of any kind, with the world it runs in.\<close>

datatype upload_request =
    Create_Upload upload_input
  | Send_Chunk ident chunk_request
  | Prepare_Direct bool ident string "json option"
  | Complete_Direct ident string
  | Complete_Upload ident
  | Read_Upload ident
  | Delete_Audio ident

record request_event =
  re_world :: upload_world
  re_now :: millis
  re_workspace :: ident
  re_request :: upload_request

definition serve :: "request_event \<Rightarrow> hosted_db \<Rightarrow> hosted_db" where
  "serve e db =
     (let w = re_world e; now = re_now e; ws = re_workspace e in
      case re_request e of
        Create_Upload input \<Rightarrow> snd (create_managed_upload w now ws input db)
      | Send_Chunk uid req \<Rightarrow> snd (handle_managed_chunk_upload w now ws uid req db)
      | Prepare_Direct enabled uid raw body \<Rightarrow> snd (prepare_direct_upload enabled w now ws uid raw body db)
      | Complete_Direct uid raw \<Rightarrow> snd (complete_direct_chunk w now ws uid raw db)
      | Complete_Upload uid \<Rightarrow> snd (complete_managed_upload w now ws uid db)
      | Read_Upload uid \<Rightarrow> snd (get_upload now ws uid db)
      | Delete_Audio uid \<Rightarrow> snd (delete_managed_upload_audio now (ux_fails w) uid db))"

definition issues :: "issued \<Rightarrow> request_event \<Rightarrow> bool" where
  "issues reg e \<longleftrightarrow>
     (case re_request e of
        Create_Upload input \<Rightarrow> is_upload reg (ux_new_id (re_world e)) =
          (re_workspace e, int_of_number (ui_chunks input), int_of_number (ui_bytes input))
      | Prepare_Direct enabled uid raw body \<Rightarrow>
          (case (parse_index raw, chunk_metadata body) of
             (Some i, Some (n, _, _)) \<Rightarrow> is_ticket reg (ux_new_id (re_world e)) = (uid, i, n)
           | _ \<Rightarrow> True)
      | _ \<Rightarrow> True)"

definition admissible :: "issued \<Rightarrow> request_event \<Rightarrow> bool" where
  "admissible reg e \<longleftrightarrow> keeps_staging reg (ux_other (re_world e)) \<and> issues reg e"

lemma serve_keeps_staging:
  assumes "staging_ok reg db" "admissible reg e"
  shows "staging_ok reg (serve e db)"
  using assms
  by (cases "re_request e")
    (auto simp: serve_def Let_def admissible_def issues_def
      intro: staging_create staging_chunk_upload staging_prepare_direct staging_complete_direct
        staging_complete staging_get_upload staging_delete_audio)

interpretation staging: invariant_machine serve "staging_ok reg" "admissible reg" for reg
  by unfold_locales (rule serve_keeps_staging)

end
