(* ===== verification/Upload_Properties.thy ===== *)
theory Upload_Properties
  imports Upload_Staging "HOL-Library.Multiset"
begin

text \<open>
  The properties of managed uploads: the staging tables stay within the manifests over any run
  of requests, a completed upload is whole, a chunk can be sent again safely, and a refused
  chunk leaves nothing behind in the object store.
\<close>

subsection \<open>Lemmas\<close>

lemma length_chunks_bound:
  assumes ok: "staging_ok reg db" and n: "int (length (chunks_of uid db)) = declared_chunks reg uid"
  shows "distinct (map uc_index (chunks_of uid db))"
    "set (map uc_index (chunks_of uid db)) = {0..<declared_chunks reg uid}"
proof -
  have u: "unique_on slot_key (hd_chunks db)" using ok by (simp add: staging_ok_def pieces_def unique_on_append)
  have "inj_on slot_key (set (chunks_of uid db))" "distinct (chunks_of uid db)"
    using u by (auto simp: unique_on_def distinct_map chunks_of_def inj_on_def)
  then show d: "distinct (map uc_index (chunks_of uid db))"
    by (auto simp: distinct_map inj_on_def slot_key_def chunks_of_def)
  have sub: "set (map uc_index (chunks_of uid db)) \<subseteq> {0..<declared_chunks reg uid}"
    using ok by (auto simp: chunks_of_def staging_ok_def list_all_iff piece_ok_def pieces_def)
  have "card {0..<declared_chunks reg uid} = card (set (map uc_index (chunks_of uid db)))"
    using distinct_card [OF d] n by simp
  with card_subset_eq [OF _ sub] show "set (map uc_index (chunks_of uid db)) = {0..<declared_chunks reg uid}"
    by simp
qed

lemma no_ticket_when_full:
  assumes ok: "staging_ok reg db" and n: "int (length (chunks_of uid db)) = declared_chunks reg uid"
  shows "tickets_of uid db = []"
proof (rule ccontr)
  assume "tickets_of uid db \<noteq> []"
  then obtain t where t: "t \<in> set (hd_tickets db)" "uc_upload t = uid"
    by (auto simp: tickets_of_def filter_empty_conv)
  then have "uc_index t \<in> set (map uc_index (chunks_of uid db))"
    using ok length_chunks_bound(2) [OF ok n]
    by (auto simp: staging_ok_def list_all_iff piece_ok_def pieces_def)
  then obtain c where "c \<in> set (hd_chunks db)" "slot_key c = slot_key t"
    using t by (auto simp: chunks_of_def slot_key_def)
  then show False using ok t(1) by (auto simp: staging_ok_def pieces_def unique_on_append)
qed

lemma complete_managed_upload_Inr:
  assumes "complete_managed_upload w now ws uid db = (Inr u, db')"
  shows "\<exists>r r'. get_upload now ws uid db = (Some r, db) \<and> int (length (chunks_of uid db)) = mu_chunks r \<and>
    sum_list (map uc_bytes (chunks_of uid db)) = mu_bytes r \<and>
    find_row (\<lambda>x. mu_id x = mu_id r) (hd_uploads (ux_other w db)) = Some r' \<and>
    u = r'\<lparr>mu_status := ''complete'', mu_completed := Some now\<rparr> \<and>
    hd_chunks db' = hd_chunks (ux_other w db) \<and> hd_tickets db' = hd_tickets (ux_other w db)"
proof -
  obtain r db1 where g: "get_upload now ws uid db = (Some r, db1)" and s: "mu_status r \<noteq> ''expired''"
    using assms by (auto simp: complete_managed_upload_def split: prod.splits option.splits if_splits)
  moreover have "db1 = db"
    using g s by (auto simp: get_upload_def is_expired_def split: option.splits if_splits)
  ultimately show ?thesis
    using assms by (auto simp: complete_managed_upload_def Let_def split: if_splits option.splits)
qed

text \<open>Stored pieces that nobody deletes cannot be joined by others once the manifest is full.\<close>

lemma full_upload_stable:
  assumes ok: "staging_ok reg db" and ok2: "staging_ok reg db2"
    and n: "int (length (chunks_of uid db)) = declared_chunks reg uid"
    and kept: "set (chunks_of uid db) \<subseteq> set (chunks_of uid db2)"
  shows "int (length (chunks_of uid db2)) = declared_chunks reg uid"
    "mset (chunks_of uid db2) = mset (chunks_of uid db)"
proof -
  have d: "distinct (map uc_index (chunks_of uid d))" "set (map uc_index (chunks_of uid d)) \<subseteq> {0..<declared_chunks reg uid}"
    if "staging_ok reg d" for d
    using that by (auto simp: staging_ok_def unique_on_def list_all_iff piece_ok_def pieces_def
        distinct_map chunks_of_def inj_on_def slot_key_def)
  have "set (map uc_index (chunks_of uid db2)) \<subseteq> set (map uc_index (chunks_of uid db))"
    using d(2) [OF ok2] length_chunks_bound(2) [OF ok n] by simp
  moreover have "x \<in> set (chunks_of uid db)"
    if x: "x \<in> set (chunks_of uid db2)" and i: "uc_index x \<in> uc_index ` set (chunks_of uid db)" for x
  proof -
    obtain y where y: "y \<in> set (chunks_of uid db)" "uc_index y = uc_index x" using i by auto
    with kept d(1) [OF ok2] x have "y = x" by (auto simp: distinct_map inj_on_def)
    with y show ?thesis by simp
  qed
  ultimately have same: "set (chunks_of uid db2) = set (chunks_of uid db)" using kept by auto
  show m: "mset (chunks_of uid db2) = mset (chunks_of uid db)"
    using d(1) [OF ok] d(1) [OF ok2] same by (simp add: distinct_map set_eq_iff_mset_eq_distinct)
  show "int (length (chunks_of uid db2)) = declared_chunks reg uid"
    using n mset_eq_length [OF m] by simp
qed

subsection \<open>Properties\<close>

text \<open>
  C16. Whatever requests are served, in whatever order and with whatever other requests in between
  their transactions, the pieces of every upload occupy distinct indices below the declared
  number of chunks, and stored plus reserved bytes never exceed the declared bytes.
\<close>
theorem staged_pieces_within_manifest:
  assumes "staging_ok reg db" "list_all (admissible reg) events"
    and "u \<in> set (hd_uploads (fold serve events db))"
    and "c \<in> set (chunks_of (mu_id u) (fold serve events db) @ tickets_of (mu_id u) (fold serve events db))"
  shows "0 \<le> uc_index c \<and> uc_index c < mu_chunks u \<and>
    stored_bytes (mu_id u) (fold serve events db) + reserved_bytes (mu_id u) (fold serve events db) \<le> mu_bytes u \<and>
    distinct (map uc_index (chunks_of (mu_id u) (fold serve events db) @ tickets_of (mu_id u) (fold serve events db)))"
proof -
  let ?db = "fold serve events db"
  have ok: "staging_ok reg ?db" by (rule staging.run_inv [OF assms(1,2)])
  have reg: "declared_chunks reg (mu_id u) = mu_chunks u" "declared_bytes reg (mu_id u) = mu_bytes u"
    using upload_registered [OF ok assms(3)] by (simp_all add: declared_chunks_def declared_bytes_def)
  have c: "c \<in> set (pieces ?db)" "uc_upload c = mu_id u"
    using assms(4) by (auto simp: pieces_def chunks_of_def tickets_of_def)
  have "piece_ok reg (pieces ?db) c" using ok c(1) by (simp add: staging_ok_def list_all_iff)
  moreover have "distinct (map uc_index (filter (\<lambda>x. uc_upload x = mu_id u) (pieces ?db)))"
    using ok by (auto simp: staging_ok_def unique_on_def distinct_map inj_on_def slot_key_def)
  ultimately show ?thesis
    using c(2) reg piece_bytes_pieces [of "mu_id u" ?db]
    by (simp add: piece_ok_def pieces_def chunks_of_def tickets_of_def)
qed

text \<open>
  C17. A completed upload is whole: when \<open>completeManagedUpload\<close> succeeds, the chunks of the upload
  it has read are exactly the indices of its manifest, each once, they add up to its declared bytes,
  and no direct ticket is open. This still holds of the tables it leaves, whatever other
  requests did between its read and its write, unless they deleted pieces of this upload.
\<close>
theorem completed_upload_is_whole:
  assumes "staging_ok reg db" "keeps_staging reg (ux_other w)"
    and "complete_managed_upload w now ws uid db = (Inr u, db')"
    and "d = db \<or> d = db' \<and> set (chunks_of uid db) \<subseteq> set (chunks_of uid (ux_other w db))"
  shows "mu_status u = ''complete'' \<and> distinct (map uc_index (chunks_of uid d)) \<and>
    set (map uc_index (chunks_of uid d)) = {0..<mu_chunks u} \<and>
    sum_list (map uc_bytes (chunks_of uid d)) = mu_bytes u \<and> tickets_of uid d = []"
proof -
  let ?db2 = "ux_other w db"
  obtain r r' where r: "get_upload now ws uid db = (Some r, db)"
    "int (length (chunks_of uid db)) = mu_chunks r" "sum_list (map uc_bytes (chunks_of uid db)) = mu_bytes r"
    "find_row (\<lambda>x. mu_id x = mu_id r) (hd_uploads ?db2) = Some r'"
    "u = r'\<lparr>mu_status := ''complete'', mu_completed := Some now\<rparr>"
    "hd_chunks db' = hd_chunks ?db2" "hd_tickets db' = hd_tickets ?db2"
    using complete_managed_upload_Inr [OF assms(3)] by blast
  have ok2: "staging_ok reg ?db2" by (rule keeps_stagingD [OF assms(2,1)])
  have reg: "mu_id r = uid" "declared_chunks reg uid = mu_chunks r" "declared_bytes reg uid = mu_bytes r"
    using get_upload_Some [OF r(1) assms(1)] by (simp_all add: declared_chunks_def declared_bytes_def)
  have "r' \<in> set (hd_uploads ?db2)" and "mu_id r' = uid" using find_row_SomeD [OF r(4)] reg(1) by simp_all
  then have r': "mu_chunks r' = mu_chunks r" "mu_bytes r' = mu_bytes r"
    using upload_registered [OF ok2, of r'] reg(2,3) by (simp_all add: declared_chunks_def declared_bytes_def)
  have n: "int (length (chunks_of uid db)) = declared_chunks reg uid" using r(2) reg(2) by simp
  have same: "chunks_of uid db' = chunks_of uid ?db2" "tickets_of uid db' = tickets_of uid ?db2"
    using r(6,7) by (simp_all add: chunks_of_def tickets_of_def)
  from assms(4) show ?thesis
  proof
    assume "d = db"
    with length_chunks_bound [OF assms(1) n] no_ticket_when_full [OF assms(1) n] r(3,5) r' reg(2)
    show ?thesis by simp
  next
    assume d: "d = db' \<and> set (chunks_of uid db) \<subseteq> set (chunks_of uid ?db2)"
    note full = full_upload_stable [OF assms(1) ok2 n conjunct2 [OF d]]
    have "sum_list (map uc_bytes (chunks_of uid ?db2)) = mu_bytes r"
      using r(3) full(2) by (metis mset_map sum_mset_sum_list)
    with length_chunks_bound [OF ok2 full(1)] no_ticket_when_full [OF ok2 full(1)] d r(5) r' reg(2)
    show ?thesis by (simp add: same)
  qed
qed

lemma get_upload_open:
  assumes "find_row (\<lambda>u. mu_id u = uid \<and> mu_workspace u = ws) (hd_uploads db) = Some u" "\<not> is_expired now u"
  shows "get_upload now ws uid db = (Some u, db)"
  using assms by (simp add: get_upload_def)

text \<open>A successful request leaves its chunk in the table, whichever path it took.\<close>

lemma chunk_at_append:
  "chunk_at uid i db = None \<Longrightarrow> uc_upload c = uid \<Longrightarrow> uc_index c = i \<Longrightarrow>
    chunk_at uid i (db\<lparr>hd_chunks := hd_chunks db @ [c]\<rparr>) = Some c"
  by (simp add: chunk_at_def find_row_append)

lemma insert_chunk_stored:
  assumes "insert_chunk_tx now new_id u i ck n ch key db = Inr (b, db')"
  shows "\<exists>c. chunk_at (mu_id u) i db' = Some c \<and> same_chunk ck n ch c"
proof -
  obtain db1 where t: "touch_upload now (\<lambda>x. mu_id x = mu_id u) db = Some db1"
    using assms by (auto simp: insert_chunk_tx_def Let_def split: option.splits)
  show ?thesis
  proof (cases "chunk_at (mu_id u) i db1")
    case None
    with assms t show ?thesis
      by (auto simp: insert_chunk_tx_def Let_def invalid_def chunk_at_append same_chunk_def
          simp del: touch_keeps split: if_splits)
  next
    case (Some c)
    with assms t show ?thesis by (auto simp: insert_chunk_tx_def Let_def invalid_def split: if_splits)
  qed
qed

lemma chunk_at_remove [simp]: "chunk_at uid i (remove_object fails key db) = chunk_at uid i db"
  by (simp add: chunk_at_def remove_object_def delete_objects_def)

lemma store_chunk_stored:
  assumes "store_chunk w now ws u i bytes ck ch db = (Inr a, db')"
  shows "ca_index a = i \<and> ca_checksum a = ck \<and> ca_bytes a = int (length bytes) \<and>
    (\<exists>c. chunk_at (mu_id u) i db' = Some c \<and> same_chunk ck (int (length bytes)) ch c)"
proof (cases "ux_put_fails w")
  case True
  with assms show ?thesis by (simp add: store_chunk_def)
next
  case False
  let ?key = "object_key_for w ws (mu_id u) i ck"
  let ?db = "ux_other w (put_object ?key bytes db)"
  let ?tx = "insert_chunk_tx now (ux_new_id w) u i ck (int (length bytes)) ch ?key ?db"
  show ?thesis
  proof (cases "ux_abort w")
    case (Some t)
    with False assms show ?thesis
      by (auto simp: store_chunk_def Let_def split: option.splits if_splits)
  next
    case None
    note abort = None
    show ?thesis
    proof (cases ?tx)
      case (Inl e)
      with False abort assms show ?thesis
        by (auto simp: store_chunk_def Let_def split: option.splits if_splits upload_error.splits)
    next
      case (Inr r)
      obtain b d where r: "r = (b, d)" by (cases r)
      from insert_chunk_stored [OF Inr [unfolded r]] False abort assms Inr r show ?thesis
        by (cases b) (auto simp: store_chunk_def Let_def split: if_splits)
    qed
  qed
qed

definition chunk_valid :: "upload_world \<Rightarrow> chunk_request \<Rightarrow> int \<Rightarrow> byte list \<Rightarrow> string \<Rightarrow> bool" where
  "chunk_valid w req i bytes ch \<longleftrightarrow>
     parse_index (cr_index req) = Some i \<and>
     read_managed_bytes (cr_length req) (cr_body req) max_chunk_bytes = Inr bytes \<and>
     bytes \<noteq> [] \<and> int (length bytes) \<le> max_chunk_bytes \<and>
     ch = (case cr_channel req of Some c \<Rightarrow> c | None \<Rightarrow> ''speaker'') \<and> is_channel ch \<and>
     truthy (cr_sha req) \<and> to_lower (the (cr_sha req)) = ux_sha w bytes"

lemma chunk_upload_valid:
  assumes "chunk_valid w req i bytes ch"
  shows "handle_managed_chunk_upload w now ws uid req db =
    (case get_upload now ws uid db of
       (None, db1) \<Rightarrow> (Inl (Json_Error ''upload not found'' 404), db1)
     | (Some u, db1) \<Rightarrow>
         if mu_chunks u \<le> i then (invalid ''chunk index is outside the manifest'', db1)
         else if mu_status u = ''complete'' then (invalid ''upload is already complete'', db1)
         else if mu_status u = ''expired'' then (Inl expired_session, db1)
         else (case chunk_at uid i db1 of
             Some existing \<Rightarrow>
               if \<not> same_chunk (ux_sha w bytes) (int (length bytes)) ch existing
               then (Inl (Json_Error ''chunk conflicts with an existing retry'' 409), db1)
               else (Inr \<lparr>ca_index = i, ca_checksum = ux_sha w bytes, ca_bytes = int (length bytes), ca_replayed = True\<rparr>, db1)
           | None \<Rightarrow> store_chunk w now ws u i bytes (ux_sha w bytes) ch db1))"
proof -
  have ch: "(case cr_channel req of Some c \<Rightarrow> c | None \<Rightarrow> ''speaker'') = ch" using assms by (simp add: chunk_valid_def)
  have "parse_index (cr_index req) = Some i" "is_channel ch" "bytes \<noteq> []" "int (length bytes) \<le> max_chunk_bytes"
    "read_managed_bytes (cr_length req) (cr_body req) max_chunk_bytes = Inr bytes"
    "truthy (cr_sha req)" "to_lower (the (cr_sha req)) = ux_sha w bytes"
    using assms unfolding chunk_valid_def by blast+
  then show ?thesis unfolding handle_managed_chunk_upload_def ch by (simp add: Let_def)
qed

lemma chunk_upload_Inr:
  assumes "handle_managed_chunk_upload w now ws uid req db = (Inr a, db')"
  shows "\<exists>bytes ch. chunk_valid w req (ca_index a) bytes ch \<and>
    a = \<lparr>ca_index = ca_index a, ca_checksum = ux_sha w bytes, ca_bytes = int (length bytes), ca_replayed = ca_replayed a\<rparr> \<and>
    (\<exists>c. chunk_at uid (ca_index a) db' = Some c \<and> same_chunk (ux_sha w bytes) (int (length bytes)) ch c)"
proof -
  let ?ch = "case cr_channel req of Some c \<Rightarrow> c | None \<Rightarrow> ''speaker''"
  obtain i bytes where i: "parse_index (cr_index req) = Some i"
    "read_managed_bytes (cr_length req) (cr_body req) max_chunk_bytes = Inr bytes"
    using assms by (auto simp: handle_managed_chunk_upload_def invalid_def split: option.splits sum.splits)
  have v: "chunk_valid w req i bytes ?ch"
  proof (rule ccontr)
    assume "\<not> chunk_valid w req i bytes ?ch"
    then have "fst (handle_managed_chunk_upload w now ws uid req db) \<in> range Inl"
      unfolding handle_managed_chunk_upload_def i chunk_valid_def by (auto simp: Let_def invalid_def i)
    with assms show False by auto
  qed
  obtain u db1 where g: "get_upload now ws uid db = (Some u, db1)"
    using assms unfolding chunk_upload_valid [OF v]
    by (cases "get_upload now ws uid db"; cases "fst (get_upload now ws uid db)") auto
  have uid: "mu_id u = uid"
    using g by (auto simp: get_upload_def split: option.splits if_splits dest: find_row_SomeD)
  have "ca_index a = i \<and> ca_checksum a = ux_sha w bytes \<and> ca_bytes a = int (length bytes) \<and>
    (\<exists>c. chunk_at uid i db' = Some c \<and> same_chunk (ux_sha w bytes) (int (length bytes)) ?ch c)"
  proof (cases "chunk_at uid i db1")
    case None
    with assms g have "store_chunk w now ws u i bytes (ux_sha w bytes) ?ch db1 = (Inr a, db')"
      unfolding chunk_upload_valid [OF v] by (simp add: invalid_def split: if_splits)
    from store_chunk_stored [OF this] show ?thesis by (simp add: uid)
  next
    case (Some c)
    with assms g show ?thesis
      unfolding chunk_upload_valid [OF v] by (auto simp: invalid_def split: if_splits)
  qed
  with v show ?thesis by (intro exI [of _ bytes] exI [of _ ?ch]) (auto simp: chunk_answer.defs)
qed

lemma chunk_upload_replay:
  assumes v: "chunk_valid w req i bytes ch" and c: "chunk_at uid i db = Some c"
    and same: "same_chunk (ux_sha w bytes) (int (length bytes)) ch c"
    and u: "find_row (\<lambda>u. mu_id u = uid \<and> mu_workspace u = ws) (hd_uploads db) = Some u"
      "mu_status u \<noteq> ''complete''" "\<not> is_expired now u" "i < mu_chunks u"
  shows "handle_managed_chunk_upload w now ws uid req db =
    (Inr \<lparr>ca_index = i, ca_checksum = ux_sha w bytes, ca_bytes = int (length bytes), ca_replayed = True\<rparr>, db)"
proof -
  have "mu_status u \<noteq> ''expired''" using u(3) by (simp add: is_expired_def)
  then show ?thesis
    using c same u get_upload_open [OF u(1,3)] by (simp add: chunk_upload_valid [OF v])
qed

text \<open>
  C23. A chunk can be sent again: after a request succeeded, repeating it while the upload is still
  open answers the same with \<open>replayed\<close> set, and changes neither the tables nor the object store,
  whatever the storage or the database would do.
\<close>
theorem chunk_retry_idempotent:
  assumes "handle_managed_chunk_upload w now ws uid req db = (Inr a, db')"
    and "find_row (\<lambda>u. mu_id u = uid \<and> mu_workspace u = ws) (hd_uploads db') = Some u"
    and "mu_status u \<noteq> ''complete''" "\<not> is_expired now' u" "ca_index a < mu_chunks u"
    and "ux_sha w' = ux_sha w"
  shows "handle_managed_chunk_upload w' now' ws uid req db' = (Inr (a\<lparr>ca_replayed := True\<rparr>), db')"
proof -
  obtain bytes ch c where v: "chunk_valid w req (ca_index a) bytes ch"
    and a: "a = \<lparr>ca_index = ca_index a, ca_checksum = ux_sha w bytes, ca_bytes = int (length bytes), ca_replayed = ca_replayed a\<rparr>"
    and c: "chunk_at uid (ca_index a) db' = Some c" "same_chunk (ux_sha w bytes) (int (length bytes)) ch c"
    using chunk_upload_Inr [OF assms(1)] by blast
  have "chunk_valid w' req (ca_index a) bytes ch" using v unfolding chunk_valid_def assms(6) by blast
  from chunk_upload_replay [OF this c(1) _ assms(2-5)] c(2) a assms(6) show ?thesis
    by (metis chunk_answer.update_convs(4))
qed

lemma insert_chunk_objects:
  assumes "insert_chunk_tx now new_id u i ck n ch key db = Inr (b, db')"
  shows "hd_objects db' = hd_objects db"
proof -
  obtain db1 where t: "touch_upload now (\<lambda>x. mu_id x = mu_id u) db = Some db1"
    using assms by (auto simp: insert_chunk_tx_def Let_def split: option.splits)
  then show ?thesis using assms
    by (cases "chunk_at (mu_id u) i db1") (auto simp: insert_chunk_tx_def Let_def invalid_def split: if_splits)
qed

lemma get_upload_objects: "hd_objects (snd (get_upload now ws uid db)) = hd_objects db"
  by (simp add: get_upload_def mark_expired_def split: option.splits)

text \<open>Putting an object under a fresh key and removing it again.\<close>

lemma objects_put_remove:
  assumes "hd_objects d = hd_objects (put_object key bytes db)" "key \<notin> fst ` set (hd_objects db)" "\<not> fails key"
  shows "hd_objects (remove_object fails key d) = hd_objects db"
proof -
  have "filter (\<lambda>p. fst p \<noteq> key) (hd_objects db) = hd_objects db"
    using assms(2) by (auto simp: filter_id_conv)
  then show ?thesis
    using assms by (simp add: remove_object_def delete_objects_def put_object_def case_prod_unfold)
qed

lemma store_chunk_objects:
  assumes s: "store_chunk w now ws u i bytes ck ch db = (r, db')" and "\<And>a. r = Inr a \<Longrightarrow> ca_replayed a"
    and other: "\<And>d. hd_objects (ux_other w d) = hd_objects d" and fails: "\<And>k. \<not> ux_fails w k"
    and fresh: "object_key_for w ws (mu_id u) i ck \<notin> fst ` set (hd_objects db)"
  shows "hd_objects db' = hd_objects db"
proof (cases "ux_put_fails w")
  case True
  with s show ?thesis by (simp add: store_chunk_def)
next
  case False
  let ?key = "object_key_for w ws (mu_id u) i ck"
  let ?db = "ux_other w (put_object ?key bytes db)"
  let ?tx = "insert_chunk_tx now (ux_new_id w) u i ck (int (length bytes)) ch ?key ?db"
  note removed = objects_put_remove [OF _ fresh, of _ bytes "ux_fails w"]
  have gone: "hd_objects (remove_object (ux_fails w) ?key ?db) = hd_objects db"
    by (rule removed) (simp_all add: other fails)
  show ?thesis
  proof (cases "ux_abort w")
    case (Some t)
    with False s gone fails show ?thesis
      by (auto simp: store_chunk_def Let_def split: option.splits if_splits)
  next
    case None
    note abort = None
    show ?thesis
    proof (cases ?tx)
      case (Inl e)
      with False abort s gone fails show ?thesis
        by (auto simp: store_chunk_def Let_def split: option.splits if_splits upload_error.splits)
    next
      case (Inr p)
      obtain b d where p: "p = (b, d)" by (cases p)
      have "hd_objects (remove_object (ux_fails w) ?key d) = hd_objects db"
        by (rule removed) (simp_all add: other fails insert_chunk_objects [OF Inr [unfolded p]])
      with False abort s Inr p fails assms(2) show ?thesis
        by (cases b) (auto simp: store_chunk_def Let_def split: if_splits)
    qed
  qed
qed

text \<open>
  A chunk that is not committed leaves nothing in the object store: whenever the request fails
  (bad input, expired session, conflict, a failed or aborted transaction) or turns out to be a
  replay, the objects are those from before, provided the store deletes what it is asked to.
\<close>
theorem uncommitted_chunk_leaves_no_object:
  assumes "handle_managed_chunk_upload w now ws uid req db = (r, db')" "\<And>a. r = Inr a \<Longrightarrow> ca_replayed a"
    and "\<And>d. hd_objects (ux_other w d) = hd_objects d" "\<And>k. \<not> ux_fails w k"
    and "\<And>i ck. object_key_for w ws uid i ck \<notin> fst ` set (hd_objects db)"
  shows "hd_objects db' = hd_objects db"
proof (cases "\<exists>i bytes ch. chunk_valid w req i bytes ch")
  case False
  have "db' = db"
  proof (cases "parse_index (cr_index req)")
    case None
    with assms(1) show ?thesis by (simp add: handle_managed_chunk_upload_def)
  next
    case i: (Some i)
    show ?thesis
    proof (cases "read_managed_bytes (cr_length req) (cr_body req) max_chunk_bytes")
      case (Inl e)
      with assms(1) i show ?thesis by (simp add: handle_managed_chunk_upload_def)
    next
      case (Inr bytes)
      have "\<not> chunk_valid w req i bytes (case cr_channel req of Some c \<Rightarrow> c | None \<Rightarrow> ''speaker'')"
        using False by blast
      then have "snd (handle_managed_chunk_upload w now ws uid req db) = db"
        unfolding handle_managed_chunk_upload_def i Inr chunk_valid_def by (auto simp: Let_def i Inr)
      with assms(1) show ?thesis by simp
    qed
  qed
  then show ?thesis by simp
next
  case True
  then obtain i bytes ch where v: "chunk_valid w req i bytes ch" by blast
  obtain u db1 where g: "get_upload now ws uid db = (u, db1)" by (cases "get_upload now ws uid db")
  have db1: "hd_objects db1 = hd_objects db" using get_upload_objects [of now ws uid db] g by simp
  have uid: "mu_id x = uid" if "u = Some x" for x
    using g that by (auto simp: get_upload_def split: option.splits if_splits dest: find_row_SomeD)
  have store: "hd_objects db' = hd_objects db"
    if "u = Some x" "store_chunk w now ws x i bytes (ux_sha w bytes) ch db1 = (r, db')" for x
    using store_chunk_objects [OF that(2) assms(2-4)] assms(5) uid [OF that(1)] db1 by simp
  show ?thesis
  proof (cases u)
    case None
    with assms(1) g db1 show ?thesis unfolding chunk_upload_valid [OF v] by simp
  next
    case (Some x)
    with assms(1) g db1 store show ?thesis
      unfolding chunk_upload_valid [OF v] by (cases "chunk_at uid i db1") (auto split: if_splits)
  qed
qed

subsection \<open>Witnesses\<close>

definition sample_upload :: upload_row where
  "sample_upload =
     \<lparr>mu_id = ''u1'', mu_workspace = ''w1'', mu_meeting = ''m1'', mu_key = ''meeting:m1'', mu_chunks = 2, mu_bytes = 3,
      mu_status = ''created'', mu_kind = ''capture'', mu_format = None, mu_declared = None, mu_expires = 1000,
      mu_completed = None\<rparr>"

definition empty_hosted :: hosted_db where
  "empty_hosted =
     \<lparr>hd_workspaces = [''w1''], hd_meetings = [], hd_uploads = [], hd_chunks = [], hd_tickets = [], hd_jobs = [],
      hd_ledger = [], hd_transcript = [], hd_actions = [], hd_objects = []\<rparr>"

definition sample_hosted :: hosted_db where
  "sample_hosted = empty_hosted\<lparr>hd_uploads := [sample_upload]\<rparr>"

definition hosted_world :: "string \<Rightarrow> upload_world" where
  "hosted_world uuid =
     \<lparr>ux_env = sample_env, ux_hosted_ai = True, ux_subs = [], ux_spend = empty_spend, ux_fails = (\<lambda>_. False),
      ux_put_fails = False, ux_sha = (\<lambda>bytes. ''sha'' @ digits_of (length bytes)), ux_new_id = uuid, ux_uuid = uuid,
      ux_abort = None, ux_other = (\<lambda>db. db)\<rparr>"

definition sample_chunk :: "string \<Rightarrow> byte list \<Rightarrow> string \<Rightarrow> chunk_request" where
  "sample_chunk index bytes sha =
     \<lparr>cr_index = index, cr_length = None, cr_body = [bytes], cr_channel = Some ''mic'', cr_sha = Some sha\<rparr>"

definition sample_issued :: issued where
  "sample_issued = \<lparr>is_upload = (\<lambda>_. (''w1'', 2, 3)), is_ticket = (\<lambda>_. (''u1'', 0, 1))\<rparr>"

definition sample_send :: "string \<Rightarrow> string \<Rightarrow> byte list \<Rightarrow> string \<Rightarrow> request_event" where
  "sample_send uuid index bytes sha =
     \<lparr>re_world = hosted_world uuid, re_now = 10, re_workspace = ''w1'',
      re_request = Send_Chunk ''u1'' (sample_chunk index bytes sha)\<rparr>"

definition sample_sends :: "request_event list" where
  "sample_sends = [sample_send ''a'' ''0'' [1, 2] ''SHA2'', sample_send ''b'' ''1'' [3] ''sha1'']"

lemma sample_staging: "staging_ok sample_issued sample_hosted"
  by code_simp

lemma sample_admissible: "list_all (admissible sample_issued) sample_sends"
  by (simp add: sample_sends_def sample_send_def hosted_world_def admissible_def issues_def keeps_staging_def)

definition sample_row :: "string \<Rightarrow> int \<Rightarrow> int \<Rightarrow> string \<Rightarrow> chunk_row" where
  "sample_row uuid i n sha =
     \<lparr>uc_id = uuid, uc_upload = ''u1'', uc_index = i, uc_channel = ''mic'', uc_bytes = n, uc_checksum = sha,
      uc_object = ''uploads/w1/u1/'' @ int_str i @ ''-sha'' @ digits_of (length (''w1:u1:'' @ int_str i @ '':'' @ sha)) @ ''.chunk-'' @ uuid,
      uc_signed = None\<rparr>"

lemma sample_served:
  "hd_uploads (fold serve sample_sends sample_hosted) = [sample_upload\<lparr>mu_status := ''uploading''\<rparr>]"
  "hd_chunks (fold serve sample_sends sample_hosted) = [sample_row ''a'' 0 2 ''sha2'', sample_row ''b'' 1 1 ''sha1'']"
  "hd_tickets (fold serve sample_sends sample_hosted) = []"
  by code_simp+

text \<open>After both chunks were sent, the first of them lies within the manifest of the upload.\<close>
theorem staged_pieces_within_manifest_witness:
  "uc_index (sample_row ''a'' 0 2 ''sha2'') < 2 \<and>
   stored_bytes ''u1'' (fold serve sample_sends sample_hosted) +
     reserved_bytes ''u1'' (fold serve sample_sends sample_hosted) \<le> 3"
  using staged_pieces_within_manifest [OF sample_staging sample_admissible,
      of "sample_upload\<lparr>mu_status := ''uploading''\<rparr>" "sample_row ''a'' 0 2 ''sha2''"]
  by (simp add: sample_served chunks_of_def tickets_of_def sample_upload_def sample_row_def)

definition sample_sent :: hosted_db where
  "sample_sent = fold serve sample_sends sample_hosted"

lemma sample_sent_ok: "staging_ok sample_issued sample_sent"
  unfolding sample_sent_def by (rule staging.run_inv [OF sample_staging sample_admissible])

lemma sample_completed:
  "fst (complete_managed_upload (hosted_world ''c'') 20 ''w1'' ''u1'' sample_sent) =
    Inr (sample_upload\<lparr>mu_status := ''complete'', mu_completed := Some 20\<rparr>)"
  by code_simp

text \<open>Completing the upload after both chunks.\<close>
theorem completed_upload_is_whole_witness:
  "let db' = snd (complete_managed_upload (hosted_world ''c'') 20 ''w1'' ''u1'' sample_sent) in
   set (map uc_index (chunks_of ''u1'' db')) = {0..<2} \<and> sum_list (map uc_bytes (chunks_of ''u1'' db')) = 3"
  using completed_upload_is_whole [OF sample_sent_ok, of "hosted_world ''c''" 20 "''w1''" "''u1''"
      "sample_upload\<lparr>mu_status := ''complete'', mu_completed := Some 20\<rparr>"
      "snd (complete_managed_upload (hosted_world ''c'') 20 ''w1'' ''u1'' sample_sent)"
      "snd (complete_managed_upload (hosted_world ''c'') 20 ''w1'' ''u1'' sample_sent)"]
    sample_completed
  by (cases "complete_managed_upload (hosted_world ''c'') 20 ''w1'' ''u1'' sample_sent")
    (simp add: sample_upload_def hosted_world_def keeps_staging_def)

definition sample_answer :: chunk_answer where
  "sample_answer = \<lparr>ca_index = 0, ca_checksum = ''sha2'', ca_bytes = 2, ca_replayed = False\<rparr>"

definition sample_first :: "(upload_error + chunk_answer) \<times> hosted_db" where
  "sample_first =
     handle_managed_chunk_upload (hosted_world ''a'') 10 ''w1'' ''u1'' (sample_chunk ''0'' [1, 2] ''SHA2'') sample_hosted"

lemma sample_first_eval:
  "fst sample_first = Inr sample_answer"
  "hd_uploads (snd sample_first) = [sample_upload\<lparr>mu_status := ''uploading''\<rparr>]"
  by code_simp+

text \<open>Sending the first chunk twice.\<close>
theorem chunk_retry_idempotent_witness:
  "handle_managed_chunk_upload (hosted_world ''z'') 500 ''w1'' ''u1'' (sample_chunk ''0'' [1, 2] ''SHA2'') (snd sample_first) =
     (Inr (sample_answer\<lparr>ca_replayed := True\<rparr>), snd sample_first)"
proof (rule chunk_retry_idempotent)
  show "handle_managed_chunk_upload (hosted_world ''a'') 10 ''w1'' ''u1'' (sample_chunk ''0'' [1, 2] ''SHA2'') sample_hosted
      = (Inr sample_answer, snd sample_first)"
    using sample_first_eval(1) unfolding sample_first_def by (metis prod.collapse)
  show "find_row (\<lambda>u. mu_id u = ''u1'' \<and> mu_workspace u = ''w1'') (hd_uploads (snd sample_first)) =
      Some (sample_upload\<lparr>mu_status := ''uploading''\<rparr>)"
    by (simp add: sample_first_eval sample_upload_def)
qed (simp_all add: sample_upload_def is_expired_def sample_answer_def hosted_world_def)

definition aborting_world :: upload_world where
  "aborting_world = (hosted_world ''a'')
     \<lparr>ux_abort := Some \<lparr>th_code = Some ''P2034'', th_name = None, th_message = None\<rparr>\<rparr>"

definition sample_aborted :: "(upload_error + chunk_answer) \<times> hosted_db" where
  "sample_aborted =
     handle_managed_chunk_upload aborting_world 10 ''w1'' ''u1'' (sample_chunk ''0'' [1, 2] ''SHA2'') sample_hosted"

lemma sample_aborted_eval: "case fst sample_aborted of Inl _ \<Rightarrow> True | Inr _ \<Rightarrow> False"
  by code_simp

text \<open>A chunk whose transaction the database aborts.\<close>
theorem uncommitted_chunk_leaves_no_object_witness: "hd_objects (snd sample_aborted) = []"
proof -
  have "hd_objects (snd sample_aborted) = hd_objects sample_hosted"
  proof (rule uncommitted_chunk_leaves_no_object)
    show "handle_managed_chunk_upload aborting_world 10 ''w1'' ''u1'' (sample_chunk ''0'' [1, 2] ''SHA2'') sample_hosted
        = (fst sample_aborted, snd sample_aborted)"
      by (simp add: sample_aborted_def)
    show "ca_replayed a" if "fst sample_aborted = Inr a" for a using that sample_aborted_eval by simp
  qed (simp_all add: aborting_world_def hosted_world_def sample_hosted_def empty_hosted_def)
  then show ?thesis by (simp add: sample_hosted_def empty_hosted_def)
qed

end
