(* ===== verification/Transcription.thy ===== *)
theory Transcription
  imports Managed_Uploads
begin

text \<open>
  The steps of a managed job that call providers, \<^verbatim>\<open>webapp/src/lib/managedWorker.ts\<close>: transcribing
  a channel with Deepgram or window by window with Groq, decoding and transcribing an imported
  file, and summarising.

  A provider call is the value \<open>provider_call\<close> of what is sent; \<open>ask k call\<close> is the answer to the
  \<open>k\<close>-th call of the step, the JSON body or the error that \<open>providerRequest\<close> or \<open>response.json()\<close>
  throws (\<open>Plain_Error\<close> when the error is not the worker's own). Audio is given as bytes; reading
  it piece by piece from the object store is covered by the audio windows.
\<close>

subsection \<open>Calls and results\<close>

record provider_call =
  pc_url :: string
  pc_label :: string
  pc_form :: "(string \<times> string) list"
  pc_audio :: "byte list"
  pc_spend :: int
  pc_cost :: "json \<Rightarrow> int option"

record transcription_result =
  tx_utterances :: "utterance list"
  tx_duration :: int
  tx_cost :: int
  tx_language :: "string option"

type_synonym provider = "nat \<Rightarrow> provider_call \<Rightarrow> provider_error + json"

definition groq_micros_per_hour :: rat where
  "groq_micros_per_hour = 40000"

definition deepgram_micros_per_minute :: rat where
  "deepgram_micros_per_minute = 4300"

definition groq_audio_window_ms :: nat where
  "groq_audio_window_ms = 4 * 60 * 1000"

definition groq_import_window_ms :: nat where
  "groq_import_window_ms = 10 * 60 * 1000"

definition bytes_per_second :: "nat \<Rightarrow> rat" where
  "bytes_per_second rate = of_nat (rate * pcm_bytes_per_sample)"

definition api_key :: "env \<Rightarrow> string \<Rightarrow> provider_error + string" where
  "api_key env name =
     (if truthy (env name) then Inr (the (env name)) else worker_error (name @ '' is not configured''))"

subsection \<open>Deepgram\<close>

definition deepgram_duration_cost :: "json \<Rightarrow> int option" where
  "deepgram_duration_cost body =
     map_option (\<lambda>d. \<lceil>d / 60 * deepgram_micros_per_minute\<rceil>)
       (finite_number (json_get ''duration'' (json_get ''metadata'' (Some body))))"

definition deepgram_call :: "nat \<Rightarrow> byte list \<Rightarrow> int \<Rightarrow> transcribe_hints \<Rightarrow> provider_call" where
  "deepgram_call rate audio total_bytes hints =
     \<lparr>pc_url = ''https://api.deepgram.com/v1/listen?model=nova-3&encoding=linear16&sample_rate='' @ digits_of rate @
        ''&channels=1&utterances=true&smart_format=true&diarize=true'' @ deepgram_language_params hints,
      pc_label = ''transcription'', pc_form = [], pc_audio = audio,
      pc_spend = \<lceil>max 1 (of_int total_bytes / bytes_per_second rate) / 60 * deepgram_micros_per_minute\<rceil>,
      pc_cost = deepgram_duration_cost\<rparr>"

definition transcribe_deepgram_stream ::
  "env \<Rightarrow> provider \<Rightarrow> nat \<Rightarrow> byte list \<Rightarrow> int \<Rightarrow> voice_channel \<Rightarrow> transcribe_hints \<Rightarrow> provider_error + transcription_result" where
  "transcribe_deepgram_stream env ask rate audio total_bytes channel hints =
     (case api_key env ''MANAGED_DEEPGRAM_API_KEY'' of
        Inl e \<Rightarrow> Inl e
      | Inr key \<Rightarrow>
          (case ask 0 (deepgram_call rate audio total_bytes hints) of
             Inl e \<Rightarrow> Inl e
           | Inr body \<Rightarrow>
               (let parsed = parse_deepgram_utterances (Some body) channel;
                    detected = json_get ''detected_language''
                      (first_item (json_get ''channels'' (json_get ''results'' (Some body))));
                    audio_ms = (if ct_duration parsed \<noteq> 0 then ct_duration parsed
                      else math_round (of_int total_bytes / bytes_per_second rate * 1000))
                in Inr \<lparr>tx_utterances = ct_utterances parsed, tx_duration = audio_ms,
                     tx_cost = math_round (of_int audio_ms / 60000 * deepgram_micros_per_minute),
                     tx_language = language_code_from_name detected\<rparr>)))"

subsection \<open>Groq\<close>

definition groq_duration_cost :: "json \<Rightarrow> int option" where
  "groq_duration_cost body =
     map_option (\<lambda>d. \<lceil>max 10 d / 3600 * groq_micros_per_hour\<rceil>) (finite_number (json_get ''duration'' (Some body)))"

definition groq_call :: "nat \<Rightarrow> byte list \<Rightarrow> transcribe_hints \<Rightarrow> provider_call option" where
  "groq_call rate pcm hints =
     map_option (\<lambda>wav.
       \<lparr>pc_url = ''https://api.groq.com/openai/v1/audio/transcriptions'', pc_label = ''Groq transcription'',
        pc_form = [(''model'', ''whisper-large-v3-turbo''), (''response_format'', ''verbose_json''),
                   (''timestamp_granularities[]'', ''segment''), (''temperature'', ''0'')] @
                  (let p = vocabulary_prompt (th_terms hints) in if p \<noteq> [] then [(''prompt'', p)] else []) @
                  (if truthy (th_language hints) then [(''language'', the (th_language hints))] else []),
        pc_audio = wav,
        pc_spend = \<lceil>max 10 (of_nat (length pcm) / bytes_per_second rate) / 3600 * groq_micros_per_hour\<rceil>,
        pc_cost = groq_duration_cost\<rparr>) (pcm_to_wav pcm rate)"

record groq_state =
  gs_utterances :: "utterance list"
  gs_offset :: rat
  gs_cost :: int
  gs_language :: "string option"

definition groq_window ::
  "nat \<Rightarrow> string \<Rightarrow> transcribe_hints \<Rightarrow> byte list \<Rightarrow> json \<Rightarrow> groq_state \<Rightarrow> groq_state" where
  "groq_window rate speaker hints pcm body st =
     (let parsed = parse_groq_utterances (Some body) speaker (gs_offset st);
          segment_ms = of_nat (length pcm) / bytes_per_second rate * 1000
      in \<lparr>gs_utterances = gs_utterances st @ ct_utterances parsed,
          gs_offset = gs_offset st + segment_ms,
          gs_cost = gs_cost st + math_round (max 10000 segment_ms * groq_micros_per_hour / 3600000),
          gs_language = (case gs_language st of
              Some l \<Rightarrow> Some l | None \<Rightarrow> language_code_from_name (json_get ''language'' (Some body)))\<rparr>)"

definition usable_bytes :: "byte list \<Rightarrow> byte list" where
  "usable_bytes pcm = take (length pcm - length pcm mod pcm_bytes_per_sample) pcm"

text \<open>The loop over the windows; \<open>k\<close> counts the calls made.\<close>

fun groq_loop ::
  "provider \<Rightarrow> nat \<Rightarrow> string \<Rightarrow> transcribe_hints \<Rightarrow> byte list list \<Rightarrow> nat \<Rightarrow> groq_state \<Rightarrow> provider_error + groq_state" where
  "groq_loop ask rate speaker hints [] k st = Inr st"
| "groq_loop ask rate speaker hints (pcm # windows) k st =
     (if usable_bytes pcm = [] then groq_loop ask rate speaker hints windows k st
      else case groq_call rate (usable_bytes pcm) hints of
          None \<Rightarrow> Inl (Plain_Error ''RangeError'')
        | Some call \<Rightarrow>
            (case ask k call of
               Inl e \<Rightarrow> Inl e
             | Inr body \<Rightarrow> groq_loop ask rate speaker hints windows (Suc k)
                 (groq_window rate speaker hints (usable_bytes pcm) body st)))"

definition transcribe_groq_windows ::
  "env \<Rightarrow> provider \<Rightarrow> byte list list \<Rightarrow> nat \<Rightarrow> int \<Rightarrow> string \<Rightarrow> transcribe_hints \<Rightarrow> provider_error + transcription_result" where
  "transcribe_groq_windows env ask windows rate total_bytes speaker hints =
     (case api_key env ''MANAGED_GROQ_API_KEY'' of
        Inl e \<Rightarrow> Inl e
      | Inr key \<Rightarrow>
          (case groq_loop ask rate speaker hints windows 0
                  \<lparr>gs_utterances = [], gs_offset = 0, gs_cost = 0, gs_language = None\<rparr> of
             Inl e \<Rightarrow> Inl e
           | Inr st \<Rightarrow>
               Inr \<lparr>tx_utterances = gs_utterances st,
                    tx_duration = math_round (of_int total_bytes / bytes_per_second rate * 1000),
                    tx_cost = gs_cost st, tx_language = gs_language st\<rparr>))"

subsection \<open>One channel, or an imported file\<close>

definition window_audio :: "nat \<Rightarrow> nat \<Rightarrow> byte list list \<Rightarrow> byte list list" where
  "window_audio rate window_ms chunks = (case audio_windows rate window_ms chunks of Some ws \<Rightarrow> ws | None \<Rightarrow> [])"

text \<open>
  The staged objects in order; \<open>None\<close> when one of them cannot be read. Deepgram's request streams
  them, so a failed read is a failed fetch; the Groq loop reads them itself.
\<close>

definition read_objects :: "string list \<Rightarrow> hosted_db \<Rightarrow> byte list list option" where
  "read_objects keys db = those (map (map_of (hd_objects db)) keys)"

definition transcribe ::
  "env \<Rightarrow> provider \<Rightarrow> byte list list option \<Rightarrow> int \<Rightarrow> voice_channel \<Rightarrow> transcribe_hints
   \<Rightarrow> provider_error + transcription_result" where
  "transcribe env ask audio total_bytes channel hints =
     (case managed_transcription_provider env of
        Inl e \<Rightarrow> Inl e
      | Inr Provider_Deepgram \<Rightarrow>
          (case (audio, api_key env ''MANAGED_DEEPGRAM_API_KEY'') of
             (None, Inr key) \<Rightarrow> worker_error ''transcription provider request failed''
           | (None, Inl e) \<Rightarrow> Inl e
           | (Some chunks, _) \<Rightarrow>
               transcribe_deepgram_stream env ask pcm_sample_rate (concat chunks) total_bytes channel hints)
      | Inr Provider_Groq \<Rightarrow>
          (case (audio, api_key env ''MANAGED_GROQ_API_KEY'') of
             (None, Inr key) \<Rightarrow> Inl (Plain_Error ''object not found'')
           | (None, Inl e) \<Rightarrow> Inl e
           | (Some chunks, _) \<Rightarrow>
               transcribe_groq_windows env ask (window_audio pcm_sample_rate groq_audio_window_ms chunks)
                 pcm_sample_rate total_bytes (if channel = Channel_You then ''you'' else ''them'') hints))"

text \<open>A decoded file: its PCM in pieces of a megabyte, and the duration ffprobe measured.\<close>

record decoded_audio =
  da_pcm :: "byte list list"
  da_rate :: nat
  da_seconds :: rat

definition decoded_bytes :: "decoded_audio \<Rightarrow> int" where
  "decoded_bytes d = int (length (concat (da_pcm d)))"

definition transcribe_imported_audio ::
  "env \<Rightarrow> provider \<Rightarrow> decoded_audio \<Rightarrow> transcribe_hints \<Rightarrow> provider_error + transcription_result" where
  "transcribe_imported_audio env ask d hints =
     (case managed_import_transcription_provider env of
        Inl e \<Rightarrow> Inl e
      | Inr Provider_Deepgram \<Rightarrow>
          (case transcribe_deepgram_stream env ask (da_rate d) (concat (da_pcm d)) (decoded_bytes d) Channel_Them hints of
             Inl e \<Rightarrow> Inl e
           | Inr r \<Rightarrow> Inr (r\<lparr>tx_utterances := relabel_imported_speakers (tx_utterances r)\<rparr>))
      | Inr Provider_Groq \<Rightarrow>
          transcribe_groq_windows env ask (window_audio (da_rate d) groq_import_window_ms (da_pcm d))
            (da_rate d) (decoded_bytes d) ''speaker'' hints)"

subsection \<open>Summaries\<close>

definition summary_rates :: "summary_provider \<Rightarrow> rat \<times> rat" where
  "summary_rates provider = (case provider of Provider_OpenAI \<Rightarrow> (1 / 10, 1 / 2) | Provider_Anthropic \<Rightarrow> (2, 10))"

text \<open>What the request to the summary provider is built from; the system prompt itself is not modelled.\<close>

record summary_request =
  sr_provider :: summary_provider
  sr_key :: string
  sr_date :: string
  sr_template :: note_template
  sr_named :: bool
  sr_language :: "string option"
  sr_terms :: "string list"
  sr_prompt :: string

definition summary_tokens :: "string \<Rightarrow> json \<Rightarrow> rat" where
  "summary_tokens name body =
     (case finite_number (json_get name (json_get ''usage'' (Some body))) of Some n \<Rightarrow> n | None \<Rightarrow> 0)"

definition summary_cost :: "summary_provider \<Rightarrow> json \<Rightarrow> int" where
  "summary_cost provider body =
     (let (input_rate, output_rate) = summary_rates provider
      in math_round (summary_tokens ''input_tokens'' body * input_rate + summary_tokens ''output_tokens'' body * output_rate))"

definition summarize ::
  "env \<Rightarrow> (string \<Rightarrow> js_number) \<Rightarrow> (summary_request \<Rightarrow> provider_error + json) \<Rightarrow> utterance list \<Rightarrow> string
   \<Rightarrow> note_template \<Rightarrow> (string \<times> string) list \<Rightarrow> string option \<Rightarrow> string list
   \<Rightarrow> provider_error + managed_summary \<times> int" where
  "summarize env date_parse answer utterances date template names language terms =
     (case managed_summary_provider env of
        Inl e \<Rightarrow> Inl e
      | Inr provider \<Rightarrow>
          (case api_key env (case provider of Provider_OpenAI \<Rightarrow> ''MANAGED_OPENAI_API_KEY''
                                            | Provider_Anthropic \<Rightarrow> ''MANAGED_ANTHROPIC_API_KEY'') of
             Inl e \<Rightarrow> Inl e
           | Inr key \<Rightarrow>
               (case answer \<lparr>sr_provider = provider, sr_key = key, sr_date = date, sr_template = template,
                       sr_named = (names \<noteq> []), sr_language = language, sr_terms = terms,
                       sr_prompt = transcript_to_prompt names utterances\<rparr> of
                  Inl e \<Rightarrow> Inl e
                | Inr body \<Rightarrow>
                    if provider = Provider_OpenAI \<and>
                       (json_string (json_get ''status'' (Some body)) = Some ''incomplete'' \<or>
                        json_truthy (json_get ''error'' (Some body)))
                    then worker_error ''OpenAI summary provider returned an incomplete response''
                    else
                      (case summary_from_response date_parse (Some body) of
                         Inl e \<Rightarrow> Inl e
                       | Inr summary \<Rightarrow> Inr (summary, summary_cost provider body)))))"

end
