(* ===== verification/Managed_Jobs.thy ===== *)
theory Managed_Jobs
  imports Transcription Worker_Slots
begin

text \<open>
  The queue of managed jobs: \<open>enqueueManagedJob\<close> of \<^verbatim>\<open>webapp/src/lib/managedJobs.ts\<close> and
  \<open>nextManagedJob\<close>, \<open>failExhaustedJobs\<close>, \<open>setJobStage\<close>, \<open>transcribeImport\<close> and \<open>executeManagedJob\<close> of
  \<^verbatim>\<open>managedWorker.ts\<close>.

  A job row is claimed by a lease token; every later write of the worker is conditional on that
  token. \<open>jx_other\<close> is what the rest of the system commits while the worker calls its providers,
  \<open>jx_commit\<close> an abort of the final transaction, and \<open>jx_release_fails\<close> says that giving back the
  reservation fails (it is logged). The timer that renews the lease is the operation
  \<open>renew_job_lease\<close>.
\<close>

definition managed_job_lease_ms :: millis where
  "managed_job_lease_ms = 15 * 60 * 1000"

definition managed_job_max_attempts :: nat where
  "managed_job_max_attempts = 4"

definition no_speech_summary :: string where
  "no_speech_summary = ''No speech detected''"

definition lease_lost :: provider_error where
  "lease_lost = Managed_Worker_Error ''managed job lease was lost''"

definition release_usage :: "millis \<Rightarrow> ident \<Rightarrow> string \<Rightarrow> hosted_db \<Rightarrow> hosted_db" where
  "release_usage now ws key db = db\<lparr>hd_ledger := release_meeting_processing now ws key (hd_ledger db)\<rparr>"

definition update_jobs :: "(job_row \<Rightarrow> bool) \<Rightarrow> (job_row \<Rightarrow> job_row) \<Rightarrow> hosted_db \<Rightarrow> nat \<times> hosted_db" where
  "update_jobs p f db = (count_rows p (hd_jobs db), db\<lparr>hd_jobs := update_rows p f (hd_jobs db)\<rparr>)"

subsection \<open>Enqueueing\<close>

definition job_by_key :: "ident \<Rightarrow> string \<Rightarrow> hosted_db \<Rightarrow> job_row option" where
  "job_by_key ws key db = find_row (\<lambda>j. jb_workspace j = ws \<and> jb_key j = key) (hd_jobs db)"

definition job_by_upload :: "ident \<Rightarrow> hosted_db \<Rightarrow> job_row option" where
  "job_by_upload uid db = find_row (\<lambda>j. jb_upload j = uid) (hd_jobs db)"

text \<open>\<open>findFirst\<close> by creation time.\<close>

definition first_job_of_upload :: "ident \<Rightarrow> ident \<Rightarrow> hosted_db \<Rightarrow> job_row option" where
  "first_job_of_upload ws uid db =
     (case sort_key jb_created (filter (\<lambda>j. jb_workspace j = ws \<and> jb_upload j = uid) (hd_jobs db)) of
        j # _ \<Rightarrow> Some j | [] \<Rightarrow> None)"

definition existing_job :: "ident \<Rightarrow> ident \<Rightarrow> string \<Rightarrow> hosted_db \<Rightarrow> job_row option" where
  "existing_job ws uid key db =
     (case job_by_key ws key db of Some j \<Rightarrow> Some j | None \<Rightarrow> first_job_of_upload ws uid db)"

record enqueue_world =
  eq_hosted_ai :: bool
  eq_aborts :: "nat \<Rightarrow> thrown option"
  eq_clock :: "nat \<Rightarrow> millis"
  eq_subs :: "nat \<Rightarrow> subscription list"
  eq_entry_id :: ident
  eq_job_id :: ident
  eq_other :: "hosted_db \<Rightarrow> hosted_db"
  eq_write_fault :: "thrown option"

definition reserve_for_upload ::
  "enqueue_world \<Rightarrow> ident \<Rightarrow> string \<Rightarrow> upload_row \<Rightarrow> hosted_db \<Rightarrow> upload_error + hosted_db" where
  "reserve_for_upload w ws key upload db =
     (case reserve_meeting_processing (eq_hosted_ai w) (eq_aborts w) (eq_clock w) (eq_subs w) (\<lambda>_. hd_ledger db)
             (eq_entry_id w) ws key (mu_bytes upload) (Some (upload_audio_seconds upload)) of
        Inl e \<Rightarrow> Inl (Upload_Ledger_Error e)
      | Inr (_, ledger) \<Rightarrow> Inr (db\<lparr>hd_ledger := ledger\<rparr>))"

text \<open>
  The writes that can meet a unique index. The primary key and the indices on
  \<open>(workspaceId, idempotencyKey)\<close> and \<open>uploadId\<close> refuse a duplicate (P2002); the database may refuse for other reasons too.
\<close>

definition job_index_error :: thrown where
  "job_index_error = \<lparr>th_code = Some ''P2002'', th_name = None, th_message = None\<rparr>"

definition job_keys_unique :: "job_row list \<Rightarrow> bool" where
  "job_keys_unique jobs \<longleftrightarrow> unique_on jb_id jobs \<and> unique_on (\<lambda>j. (jb_workspace j, jb_key j)) jobs \<and> unique_on jb_upload jobs"

definition write_jobs :: "thrown option \<Rightarrow> job_row list \<Rightarrow> hosted_db \<Rightarrow> thrown + hosted_db" where
  "write_jobs fault jobs db =
     (case fault of Some t \<Rightarrow> Inl t
      | None \<Rightarrow> if job_keys_unique jobs then Inr (db\<lparr>hd_jobs := jobs\<rparr>) else Inl job_index_error)"

definition requeue :: "ident \<Rightarrow> job_row \<Rightarrow> job_row" where
  "requeue uid j = j\<lparr>jb_upload := uid, jb_status := ''queued'', jb_stage := None, jb_error := None,
     jb_started := None, jb_token := None, jb_completed := None, jb_attempts := 0\<rparr>"

definition new_job :: "millis \<Rightarrow> ident \<Rightarrow> ident \<Rightarrow> ident \<Rightarrow> ident \<Rightarrow> string \<Rightarrow> job_row" where
  "new_job now jid ws mid uid key =
     \<lparr>jb_id = jid, jb_workspace = ws, jb_meeting = mid, jb_upload = uid, jb_key = key, jb_status = ''queued'',
      jb_stage = None, jb_error = None, jb_cost = 0, jb_created = now, jb_started = None, jb_token = None,
      jb_attempts = 0, jb_completed = None\<rparr>"

definition conflicting_job :: upload_error where
  "conflicting_job = Managed_Validation_Error ''idempotency key conflicts with an existing meeting job''"

definition retry_job ::
  "enqueue_world \<Rightarrow> millis \<Rightarrow> ident \<Rightarrow> ident \<Rightarrow> upload_row \<Rightarrow> job_row \<Rightarrow> hosted_db
   \<Rightarrow> (upload_error + job_row) \<times> hosted_db" where
  "retry_job w now ws mid upload existing db =
     (let uid = mu_id upload in
      if jb_upload existing \<noteq> uid \<and>
         (case upload_by_id (jb_upload existing) db of
            None \<Rightarrow> True | Some original \<Rightarrow> mu_bytes original \<noteq> mu_bytes upload)
      then (Inl (Managed_Validation_Error ''replacement upload must contain the same recording bytes''), db)
      else case reserve_for_upload w ws (jb_key existing) upload db of
          Inl e \<Rightarrow> (Inl e, db)
        | Inr db1 \<Rightarrow>
            (let db2 = eq_other w db1 in
             case write_jobs (eq_write_fault w)
                    (update_rows (\<lambda>j. jb_id j = jb_id existing \<and> jb_status j = ''error'') (requeue uid) (hd_jobs db2)) db2 of
               Inl t \<Rightarrow>
                 if th_code t \<noteq> Some ''P2002'' then (Inl (Upload_Thrown t), db2)
                 else (case job_by_upload uid db2 of
                     None \<Rightarrow> (Inl (Upload_Thrown t), db2)
                   | Some winner \<Rightarrow>
                       if jb_meeting winner \<noteq> mid \<or> jb_workspace winner \<noteq> ws then (Inl (Upload_Thrown t), db2)
                       else (Inr winner,
                         if jb_key winner \<noteq> jb_key existing then release_usage now ws (jb_key existing) db2 else db2))
             | Inr db3 \<Rightarrow>
                 (case find_row (\<lambda>j. jb_id j = jb_id existing) (hd_jobs db3) of
                    None \<Rightarrow> (Inl Storage_Error, db3)
                  | Some j \<Rightarrow> (Inr j, db3))))"

definition create_job ::
  "enqueue_world \<Rightarrow> millis \<Rightarrow> ident \<Rightarrow> ident \<Rightarrow> upload_row \<Rightarrow> string \<Rightarrow> hosted_db
   \<Rightarrow> (upload_error + job_row) \<times> hosted_db" where
  "create_job w now ws mid upload key db =
     (let uid = mu_id upload; job = new_job now (eq_job_id w) ws mid uid key in
      case reserve_for_upload w ws key upload db of
        Inl e \<Rightarrow> (Inl e, db)
      | Inr db1 \<Rightarrow>
          (let db2 = eq_other w db1 in
           case write_jobs (eq_write_fault w) (hd_jobs db2 @ [job]) db2 of
             Inr db3 \<Rightarrow> (Inr job, db3)
           | Inl t \<Rightarrow>
               if th_code t \<noteq> Some ''P2002'' then (Inl (Upload_Thrown t), db2)
               else (case (case job_by_key ws key db2 of Some j \<Rightarrow> Some j | None \<Rightarrow> job_by_upload uid db2) of
                   None \<Rightarrow> (Inl (Upload_Thrown t), db2)
                 | Some replay \<Rightarrow>
                     if jb_meeting replay \<noteq> mid then (Inl conflicting_job, db2)
                     else (Inr replay, if jb_key replay \<noteq> key then release_usage now ws key db2 else db2))))"

definition enqueue_managed_job ::
  "enqueue_world \<Rightarrow> millis \<Rightarrow> ident \<Rightarrow> ident \<Rightarrow> ident \<Rightarrow> string \<Rightarrow> hosted_db
   \<Rightarrow> (upload_error + job_row) \<times> hosted_db" where
  "enqueue_managed_job w now ws mid uid key db =
     (case get_upload now ws uid db of
        (None, db1) \<Rightarrow> (Inl (Managed_Validation_Error ''a completed upload for this meeting is required''), db1)
      | (Some upload, db1) \<Rightarrow>
          if mu_meeting upload \<noteq> mid \<or> mu_status upload \<noteq> ''complete''
          then (Inl (Managed_Validation_Error ''a completed upload for this meeting is required''), db1)
          else (case existing_job ws uid key db1 of
              Some existing \<Rightarrow>
                if jb_meeting existing \<noteq> mid then (Inl conflicting_job, db1)
                else if jb_status existing \<noteq> ''error'' then (Inr existing, db1)
                else retry_job w now ws mid upload existing db1
            | None \<Rightarrow> create_job w now ws mid upload key db1))"

subsection \<open>Polling and claiming\<close>

definition is_stale :: "millis \<Rightarrow> job_row \<Rightarrow> bool" where
  "is_stale stale_before j \<longleftrightarrow> (case jb_started j of None \<Rightarrow> True | Some t \<Rightarrow> t < stale_before)"

definition claimable :: "millis \<Rightarrow> job_row \<Rightarrow> bool" where
  "claimable stale_before j \<longleftrightarrow>
     jb_status j = ''queued'' \<or>
     (jb_status j = ''processing'' \<and> is_stale stale_before j \<and> jb_attempts j < managed_job_max_attempts)"

definition exhausted :: "millis \<Rightarrow> job_row \<Rightarrow> bool" where
  "exhausted stale_before j \<longleftrightarrow>
     jb_status j = ''processing'' \<and> managed_job_max_attempts \<le> jb_attempts j \<and> is_stale stale_before j"

definition exhausted_message :: string where
  "exhausted_message = ''Processing did not finish after several attempts. Use Retry on this meeting to try again.''"

text \<open>The loop over the jobs found; \<open>fails\<close> says for which of them the release fails.\<close>

fun fail_each :: "millis \<Rightarrow> (ident \<Rightarrow> bool) \<Rightarrow> job_row list \<Rightarrow> hosted_db \<Rightarrow> hosted_db" where
  "fail_each now fails [] db = db"
| "fail_each now fails (job # jobs) db =
     (let (n, db1) = update_jobs
            (\<lambda>j. jb_id j = jb_id job \<and> jb_status j = ''processing'' \<and> managed_job_max_attempts \<le> jb_attempts j)
            (\<lambda>j. j\<lparr>jb_status := ''error'', jb_token := None, jb_error := Some exhausted_message\<rparr>) db
      in fail_each now fails jobs
           (if n = 1 \<and> \<not> fails (jb_id job) then release_usage now (jb_workspace job) (jb_key job) db1 else db1))"

definition fail_exhausted_jobs :: "millis \<Rightarrow> (ident \<Rightarrow> bool) \<Rightarrow> hosted_db \<Rightarrow> hosted_db" where
  "fail_exhausted_jobs now fails db =
     fail_each now fails (take 20 (filter (exhausted (now - managed_job_lease_ms)) (hd_jobs db))) db"

definition next_managed_job :: "millis \<Rightarrow> (ident \<Rightarrow> bool) \<Rightarrow> hosted_db \<Rightarrow> (ident \<times> ident) option \<times> hosted_db" where
  "next_managed_job now fails db =
     (let db1 = fail_exhausted_jobs now fails db in
      (case sort_key jb_created (filter (claimable (now - managed_job_lease_ms)) (hd_jobs db1)) of
         j # _ \<Rightarrow> Some (jb_id j, jb_workspace j) | [] \<Rightarrow> None, db1))"

text \<open>The claim transaction; \<open>locked\<close> is whether the advisory lock was free.\<close>

definition claim_job ::
  "millis \<Rightarrow> ident \<Rightarrow> bool \<Rightarrow> ident \<Rightarrow> ident \<Rightarrow> hosted_db \<Rightarrow> job_row option \<times> hosted_db" where
  "claim_job now token locked ws jid db =
     (if \<not> locked then (None, db)
      else
        let (n, db1) = update_jobs
              (\<lambda>j. jb_id j = jid \<and> jb_workspace j = ws \<and> claimable (now - managed_job_lease_ms) j)
              (\<lambda>j. j\<lparr>jb_status := ''processing'', jb_started := Some now, jb_token := Some token, jb_error := None,
                     jb_attempts := jb_attempts j + 1\<rparr>) db
        in if n \<noteq> 1 then (None, db1) else (find_row (\<lambda>j. jb_id j = jid) (hd_jobs db1), db1))"

definition owned :: "ident \<Rightarrow> ident \<Rightarrow> ident \<Rightarrow> job_row \<Rightarrow> bool" where
  "owned ws jid token j \<longleftrightarrow>
     jb_id j = jid \<and> jb_workspace j = ws \<and> jb_status j = ''processing'' \<and> jb_token j = Some token"

definition set_job_stage :: "ident \<Rightarrow> ident \<Rightarrow> ident \<Rightarrow> string option \<Rightarrow> hosted_db \<Rightarrow> hosted_db" where
  "set_job_stage jid ws token stage db = snd (update_jobs (owned ws jid token) (\<lambda>j. j\<lparr>jb_stage := stage\<rparr>) db)"

definition renew_job_lease :: "millis \<Rightarrow> ident \<Rightarrow> ident \<Rightarrow> ident \<Rightarrow> hosted_db \<Rightarrow> bool \<times> hosted_db" where
  "renew_job_lease now jid ws token db =
     (let (n, db1) = update_jobs (owned ws jid token) (\<lambda>j. j\<lparr>jb_started := Some now\<rparr>) db in (n = 1, db1))"

definition job_lease_guard :: "ident \<Rightarrow> ident \<Rightarrow> ident \<Rightarrow> hosted_db \<Rightarrow> provider_error option" where
  "job_lease_guard jid ws token db =
     (if count_rows (owned ws jid token) (hd_jobs db) = 0 then Some lease_lost else None)"

subsection \<open>The work of a job\<close>

datatype decode_error = Media_Decode_Error string | Decode_Thrown

record job_world =
  jx_env :: env
  jx_now :: millis
  jx_finished :: millis
  jx_token :: ident
  jx_locked :: bool
  jx_vocabulary :: "string option"
  jx_language :: "string option"
  jx_media :: bool
  jx_subs :: "subscription list"
  jx_decode :: "byte list \<Rightarrow> int \<Rightarrow> decode_error + decoded_audio"
  jx_aborts :: "nat \<Rightarrow> thrown option"
  jx_date_parse :: "string \<Rightarrow> js_number"
  jx_ask :: "string \<Rightarrow> provider"
  jx_answer :: "summary_request \<Rightarrow> provider_error + json"
  jx_other :: "hosted_db \<Rightarrow> hosted_db"
  jx_commit :: "thrown option"
  jx_fails :: "string \<Rightarrow> bool"
  jx_release_fails :: bool

definition adjust_import ::
  "job_world \<Rightarrow> job_row \<Rightarrow> rat \<Rightarrow> hosted_db \<Rightarrow> provider_error + hosted_db" where
  "adjust_import w job seconds db =
     (case adjust_reserved_audio_seconds (jx_aborts w) (\<lambda>_. jx_now w) (\<lambda>_. jx_subs w) (\<lambda>_. hd_ledger db)
             (jb_workspace job) (jb_key job) seconds of
        Inl Audio_Budget_Error \<Rightarrow>
          worker_error ''This recording is longer than the audio time left on your plan this period.''
      | Inl e \<Rightarrow> Inl (Plain_Error ''usage ledger'')
      | Inr (False, _) \<Rightarrow>
          worker_error ''Your usage reservation for this file is no longer active. Use Retry to try again.''
      | Inr (True, ledger) \<Rightarrow> Inr (db\<lparr>hd_ledger := ledger\<rparr>))"

definition transcribe_import ::
  "job_world \<Rightarrow> job_row \<Rightarrow> chunk_row list \<Rightarrow> transcribe_hints \<Rightarrow> hosted_db
   \<Rightarrow> (provider_error + transcription_result) \<times> hosted_db" where
  "transcribe_import w job chunks hints db =
     (let max_seconds = (case find_row (\<lambda>s. sub_workspace s = jb_workspace job) (jx_subs w) of
            Some s \<Rightarrow> (case managed_plan_of (sub_plan s) of Some p \<Rightarrow> plan_import_max_seconds p | None \<Rightarrow> 0)
          | None \<Rightarrow> 0);
          stage = (\<lambda>t. set_job_stage (jb_id job) (jb_workspace job) (jx_token w) (Some t))
      in if \<not> jx_media w then (worker_error (''File import isn'' @ [CHR 0x27] @ ''t available on this server.''), db)
         else if max_seconds \<le> 0 then (worker_error (''Your plan doesn'' @ [CHR 0x27] @ ''t include file import.''), db)
         else
           let db1 = stage ''decoding'' db in
           case read_objects (map uc_object chunks) db1 of
             None \<Rightarrow> (Inl (Plain_Error ''object not found''), db1)
           | Some pieces \<Rightarrow>
               (case jx_decode w (concat pieces) max_seconds of
                  Inl (Media_Decode_Error m) \<Rightarrow> (worker_error m, db1)
                | Inl Decode_Thrown \<Rightarrow> (Inl (Plain_Error ''decode''), db1)
                | Inr decoded \<Rightarrow>
                    (case adjust_import w job (da_seconds decoded) db1 of
                       Inl e \<Rightarrow> (Inl e, db1)
                     | Inr db2 \<Rightarrow>
                         (transcribe_imported_audio (jx_env w) (jx_ask w ''import'') decoded hints,
                          stage ''transcribing'' db2))))"

definition job_chunks :: "job_row \<Rightarrow> hosted_db \<Rightarrow> chunk_row list" where
  "job_chunks job db = sort_key uc_index (chunks_of (jb_upload job) db)"

definition transcribe_channel ::
  "job_world \<Rightarrow> string \<Rightarrow> chunk_row list \<Rightarrow> transcribe_hints \<Rightarrow> hosted_db
   \<Rightarrow> provider_error + transcription_result option" where
  "transcribe_channel w channel chunks hints db =
     (let mine = filter (\<lambda>c. uc_channel c = channel) chunks; bytes = sum_list (map uc_bytes mine) in
      if bytes = 0 then Inr None
      else map_sum id Some
             (transcribe (jx_env w) (jx_ask w channel) (read_objects (map uc_object mine) db) bytes
               (if channel = ''mic'' then Channel_You else Channel_Them) hints))"

definition result_cost :: "provider_error + transcription_result option \<Rightarrow> int" where
  "result_cost r = (case r of Inr (Some t) \<Rightarrow> tx_cost t | _ \<Rightarrow> 0)"

text \<open>
  \<open>Promise.allSettled\<close> over the two channels: both run, the first failure in that order is thrown,
  and the cost of a channel that succeeded counts either way.
\<close>

definition transcribe_capture ::
  "job_world \<Rightarrow> chunk_row list \<Rightarrow> transcribe_hints \<Rightarrow> hosted_db
   \<Rightarrow> (provider_error + transcription_result option \<times> transcription_result option) \<times> int" where
  "transcribe_capture w chunks hints db =
     (let mic = transcribe_channel w ''mic'' chunks hints db;
          speaker = transcribe_channel w ''speaker'' chunks hints db;
          cost = result_cost mic + result_cost speaker
      in case (mic, speaker) of
           (Inl e, _) \<Rightarrow> (Inl e, cost)
         | (Inr _, Inl e) \<Rightarrow> (Inl e, cost)
         | (Inr m, Inr s) \<Rightarrow> (Inr (m, s), cost))"

definition has_speech :: "utterance list \<Rightarrow> bool" where
  "has_speech us \<longleftrightarrow> list_ex (\<lambda>u. list_ex (\<lambda>c. \<not> is_js_space c) (ut_text u)) us"

record job_work =
  jw_utterances :: "utterance list"
  jw_ended :: millis
  jw_language :: "string option"
  jw_summary :: "managed_summary option"

definition utterances_of :: "transcription_result option \<Rightarrow> utterance list" where
  "utterances_of r = (case r of Some t \<Rightarrow> tx_utterances t | None \<Rightarrow> [])"

definition duration_of :: "transcription_result option \<Rightarrow> int" where
  "duration_of r = (case r of Some t \<Rightarrow> tx_duration t | None \<Rightarrow> 0)"

definition language_of :: "transcription_result option \<Rightarrow> transcription_result option \<Rightarrow> string option" where
  "language_of mic speaker =
     (case Option.bind speaker tx_language of Some l \<Rightarrow> Some l | None \<Rightarrow> Option.bind mic tx_language)"

definition job_hints :: "job_world \<Rightarrow> hosted_meeting \<Rightarrow> transcribe_hints" where
  "job_hints w meeting =
     \<lparr>th_terms = parse_vocabulary (case jx_vocabulary w of Some v \<Rightarrow> v | None \<Rightarrow> []),
      th_language = (if is_language_code (hm_language meeting) then hm_language meeting else None)\<rparr>"

definition transcribe_job ::
  "job_world \<Rightarrow> job_row \<Rightarrow> upload_row \<Rightarrow> hosted_meeting \<Rightarrow> hosted_db
   \<Rightarrow> (provider_error + transcription_result option \<times> transcription_result option) \<times> int \<times> hosted_db" where
  "transcribe_job w job upload meeting db =
     (let chunks = job_chunks job db; hints = job_hints w meeting in
      if mu_kind upload = ''import'' then
        (case transcribe_import w job chunks hints db of
           (Inl e, db1) \<Rightarrow> (Inl e, 0, db1)
         | (Inr r, db1) \<Rightarrow> (Inr (None, Some r), tx_cost r, db1))
      else (let (r, cost) = transcribe_capture w chunks hints db in (r, cost, db)))"

definition summarize_job ::
  "job_world \<Rightarrow> hosted_meeting \<Rightarrow> utterance list \<Rightarrow> provider_error + managed_summary \<times> int" where
  "summarize_job w meeting us =
     summarize (jx_env w) (jx_date_parse w) (jx_answer w) us (iso_day (hm_started meeting))
       (note_template_for (Some (hm_mode meeting))) [] (jx_language w) (th_terms (job_hints w meeting))"

definition do_job ::
  "job_world \<Rightarrow> job_row \<Rightarrow> upload_row \<Rightarrow> hosted_meeting \<Rightarrow> hosted_db
   \<Rightarrow> (provider_error + job_work) \<times> int \<times> hosted_db" where
  "do_job w job upload meeting db =
     (case transcribe_job w job upload meeting db of
        (Inl e, cost, db1) \<Rightarrow> (Inl e, cost, db1)
      | (Inr (mic, speaker), cost, db1) \<Rightarrow>
          (let us = merge_utterances [utterances_of mic, utterances_of speaker];
               ms = max (duration_of mic) (duration_of speaker);
               work = (\<lambda>s. \<lparr>jw_utterances = us,
                 jw_ended = (if 0 < ms then hm_started meeting + ms else hm_ended meeting),
                 jw_language = language_of mic speaker, jw_summary = s\<rparr>)
           in if \<not> has_speech us then (Inr (work None), cost, db1)
              else
                let db2 = (if mu_kind upload = ''import''
                      then set_job_stage (jb_id job) (jb_workspace job) (jx_token w) (Some ''summarizing'') db1 else db1)
                in case summarize_job w meeting us of
                     Inl e \<Rightarrow> (Inl e, cost, db2)
                   | Inr (summary, n) \<Rightarrow> (Inr (work (Some summary)), cost + n, db2)))"

subsection \<open>Finishing a job\<close>

text \<open>\<open>new Date(q)\<close> drops the fraction of its argument.\<close>

definition time_clip :: "rat \<Rightarrow> millis" where
  "time_clip q = (if 0 \<le> q then \<lfloor>q\<rfloor> else \<lceil>q\<rceil>)"

definition segment_rows :: "ident \<Rightarrow> millis \<Rightarrow> utterance list \<Rightarrow> transcript_row list" where
  "segment_rows mid started us =
     map (\<lambda>(order, u). \<lparr>tr_meeting = mid, tr_speaker = strip_nul (ut_speaker u), tr_text = strip_nul (ut_text u),
       tr_time = time_clip (of_int started + ut_start u), tr_order = order\<rparr>) (List.enumerate 0 us)"

definition action_rows :: "ident \<Rightarrow> managed_summary option \<Rightarrow> action_row list" where
  "action_rows mid summary =
     (case summary of None \<Rightarrow> []
      | Some s \<Rightarrow> map (\<lambda>a. \<lparr>ar_meeting = mid, ar_text = strip_nul (as_text a),
          ar_owner = (if truthy (as_owner a) then Some (strip_nul (the (as_owner a))) else None),
          ar_due = as_due a\<rparr>) (ms_actions s))"

definition finished_meeting :: "job_work \<Rightarrow> hosted_meeting \<Rightarrow> hosted_meeting \<Rightarrow> hosted_meeting" where
  "finished_meeting work seen m =
     (let title = Option.bind (jw_summary work) ms_title in
      m\<lparr>hm_summary := (case jw_summary work of Some s \<Rightarrow> strip_nul (format_summary_text s) | None \<Rightarrow> no_speech_summary),
        hm_ended := jw_ended work, hm_processing := ''managed'',
        hm_language := (if \<not> truthy (hm_language seen) \<and> truthy (jw_language work) then jw_language work else hm_language m),
        hm_title := (if truthy title \<and> is_placeholder_title (hm_title seen) then strip_nul (the title) else hm_title m)\<rparr>)"

definition finalize_job ::
  "job_world \<Rightarrow> job_row \<Rightarrow> hosted_meeting \<Rightarrow> job_work \<Rightarrow> int \<Rightarrow> hosted_db \<Rightarrow> provider_error + hosted_db" where
  "finalize_job w job meeting work cost db =
     (let mid = jb_meeting job;
          (n, db1) = update_jobs (owned (jb_workspace job) (jb_id job) (jx_token w))
            (\<lambda>j. j\<lparr>jb_status := ''complete'', jb_stage := None, jb_completed := Some (jx_finished w), jb_error := None,
                   jb_cost := jb_cost j + cost\<rparr>) db
      in if jx_commit w \<noteq> None then Inl (Plain_Error ''transaction'')
         else if n \<noteq> 1 then Inl lease_lost
         else if count_rows (\<lambda>m. hm_id m = mid) (hd_meetings db1) = 0 then Inl (Plain_Error ''P2025'')
         else Inr (db1\<lparr>
           hd_transcript := delete_rows (\<lambda>r. tr_meeting r = mid) (hd_transcript db1) @
             segment_rows mid (hm_started meeting) (jw_utterances work),
           hd_actions := delete_rows (\<lambda>r. ar_meeting r = mid) (hd_actions db1) @ action_rows mid (jw_summary work),
           hd_meetings := update_rows (\<lambda>m. hm_id m = mid) (finished_meeting work meeting) (hd_meetings db1)\<rparr>))"

definition unexpected_message :: string where
  "unexpected_message = ''Processing failed unexpectedly. Use Retry on this meeting to try again.''"

definition user_message :: "provider_error \<Rightarrow> string" where
  "user_message e = (case e of Managed_Worker_Error m \<Rightarrow> m | _ \<Rightarrow> unexpected_message)"

definition fail_job ::
  "job_world \<Rightarrow> job_row \<Rightarrow> provider_error \<Rightarrow> int \<Rightarrow> hosted_db \<Rightarrow> provider_error option \<times> hosted_db" where
  "fail_job w job e cost db =
     (if e = lease_lost then (Some e, db)
      else
        let (n, db1) = update_jobs (owned (jb_workspace job) (jb_id job) (jx_token w))
              (\<lambda>j. j\<lparr>jb_status := ''error'', jb_stage := None, jb_error := Some (user_message e),
                     jb_cost := jb_cost j + cost\<rparr>) db
        in if n \<noteq> 1 then (Some lease_lost, db1)
           else (Some e, if jx_release_fails w then db1
                         else release_usage (jx_finished w) (jb_workspace job) (jb_key job) db1))"

text \<open>After the commit: the staged audio goes, and a recording without speech gives its unit back.\<close>

definition after_commit :: "job_world \<Rightarrow> job_row \<Rightarrow> job_work \<Rightarrow> hosted_db \<Rightarrow> hosted_db" where
  "after_commit w job work db =
     (let db1 = snd (delete_managed_upload_audio (jx_finished w) (jx_fails w) (jb_upload job) db) in
      if has_speech (jw_utterances work) \<or> jx_release_fails w then db1
      else release_usage (jx_finished w) (jb_workspace job) (jb_key job) db1)"

definition execute_managed_job ::
  "job_world \<Rightarrow> ident \<Rightarrow> ident \<Rightarrow> hosted_db \<Rightarrow> provider_error option \<times> hosted_db" where
  "execute_managed_job w ws jid db =
     (case claim_job (jx_now w) (jx_token w) (jx_locked w) ws jid db of
        (None, db1) \<Rightarrow> (Some (Managed_Worker_Error ''job not found or already running''), db1)
      | (Some job, db1) \<Rightarrow>
          (case (find_row (\<lambda>m. hm_id m = jb_meeting job) (hd_meetings db1), upload_by_id (jb_upload job) db1) of
             (Some meeting, Some upload) \<Rightarrow>
               (let (result, cost, db2) = do_job w job upload meeting db1; db3 = jx_other w db2 in
                case result of
                  Inl e \<Rightarrow> fail_job w job e cost db3
                | Inr work \<Rightarrow>
                    (case finalize_job w job meeting work cost db3 of
                       Inl e \<Rightarrow> fail_job w job e cost db3
                     | Inr db4 \<Rightarrow> (None, after_commit w job work db4)))
           | _ \<Rightarrow> (Some (Plain_Error ''foreign key''), db1)))"

end
