(* ===== verification/Upload_Expiry.thy ===== *)
theory Upload_Expiry
  imports Managed_Jobs
begin

text \<open>
  The sweep over managed uploads, \<open>expireManagedUploads\<close> of \<^verbatim>\<open>webapp/src/lib/managedJobs.ts\<close>.

  The two cursors are kept as the values that their JSON text stands for. \<open>fails\<close> says for which
  objects the store refuses to delete, \<open>release_fails\<close> for which jobs giving back the
  reservation fails; both are logged and the sweep goes on. The statements of one sweep follow each
  other without other requests in between.
\<close>

definition jobs_of :: "ident \<Rightarrow> hosted_db \<Rightarrow> job_row list" where
  "jobs_of uid db = filter (\<lambda>j. jb_upload j = uid) (hd_jobs db)"

definition has_pieces :: "ident \<Rightarrow> hosted_db \<Rightarrow> bool" where
  "has_pieces uid db \<longleftrightarrow> chunks_of uid db \<noteq> [] \<or> tickets_of uid db \<noteq> []"

definition upload_due :: "millis \<Rightarrow> hosted_db \<Rightarrow> upload_row \<Rightarrow> bool" where
  "upload_due now db u \<longleftrightarrow>
     (list_ex (\<lambda>j. jb_status j = ''complete'') (jobs_of (mu_id u) db) \<and> has_pieces (mu_id u) db) \<or>
     (mu_expires u \<le> now \<and> mu_status u \<noteq> ''expired'') \<or>
     (mu_expires u \<le> now \<and> mu_status u = ''expired'' \<and> has_pieces (mu_id u) db)"

definition sweep_key :: "upload_row \<Rightarrow> millis \<times> ident" where
  "sweep_key u = (mu_expires u, mu_id u)"

definition after_cursor :: "(millis \<times> ident) option \<Rightarrow> upload_row \<Rightarrow> bool" where
  "after_cursor cursor u \<longleftrightarrow> (case cursor of None \<Rightarrow> True | Some c \<Rightarrow> c < sweep_key u)"

definition due_uploads :: "millis \<Rightarrow> (millis \<times> ident) option \<Rightarrow> hosted_db \<Rightarrow> upload_row list" where
  "due_uploads now cursor db =
     take 100 (sort_key sweep_key (filter (\<lambda>u. after_cursor cursor u \<and> upload_due now db u) (hd_uploads db)))"

definition expired_audio_message :: string where
  "expired_audio_message =
     ''Temporary audio expired after 24 hours. Retry from the app while the local recording is still available.''"

text \<open>The loop over the unfinished jobs of an expired upload.\<close>

fun fail_stale :: "millis \<Rightarrow> (ident \<Rightarrow> bool) \<Rightarrow> ident \<Rightarrow> job_row list \<Rightarrow> hosted_db \<Rightarrow> hosted_db" where
  "fail_stale now release_fails ws [] db = db"
| "fail_stale now release_fails ws (job # jobs) db =
     (let (n, db1) = update_jobs (\<lambda>j. jb_id j = jb_id job \<and> jb_status j \<in> {''queued'', ''processing''})
            (\<lambda>j. j\<lparr>jb_status := ''error'', jb_error := Some expired_audio_message, jb_completed := Some now,
                   jb_token := None\<rparr>) db
      in fail_stale now release_fails ws jobs
           (if 0 < n \<and> \<not> release_fails (jb_id job) then release_usage now ws (jb_key job) db1 else db1))"

definition placeholder_meeting :: "upload_row \<Rightarrow> hosted_db \<Rightarrow> hosted_meeting \<Rightarrow> bool" where
  "placeholder_meeting u db m \<longleftrightarrow>
     hm_id m = mu_meeting u \<and> hm_workspace m = Some (mu_workspace u) \<and> hm_capture m = ''import'' \<and> hm_summary m = [] \<and>
     \<not> list_ex (\<lambda>j. jb_meeting j = hm_id m) (hd_jobs db) \<and> \<not> list_ex (\<lambda>x. mu_meeting x = hm_id m) (hd_uploads db)"

definition delete_placeholder :: "upload_row \<Rightarrow> hosted_db \<Rightarrow> hosted_db" where
  "delete_placeholder u db =
     (if mu_kind u = ''import''
      then let gone = map hm_id (filter (placeholder_meeting u db) (hd_meetings db)) in
        db\<lparr>hd_meetings := delete_rows (placeholder_meeting u db) (hd_meetings db),
           hd_transcript := delete_rows (\<lambda>r. tr_meeting r \<in> set gone) (hd_transcript db),
           hd_actions := delete_rows (\<lambda>r. ar_meeting r \<in> set gone) (hd_actions db)\<rparr>
      else db)"

text \<open>The end of an upload whose audio is gone and that has no successful job.\<close>

definition retire_upload :: "upload_row \<Rightarrow> job_row list \<Rightarrow> hosted_db \<Rightarrow> hosted_db" where
  "retire_upload u jobs db =
     (let db1 = db\<lparr>hd_uploads := update_rows (\<lambda>x. mu_id x = mu_id u \<and> mu_status x \<noteq> ''expired'')
            (\<lambda>x. x\<lparr>mu_status := ''expired''\<rparr>) (hd_uploads db)\<rparr>
      in if jobs \<noteq> [] then db1
         else delete_placeholder u
           (if count_rows (\<lambda>x. mu_id x = mu_id u \<and> mu_status x = ''expired'') (hd_uploads db1) = 0 then db1
            else delete_upload_row (mu_id u) db1))"

text \<open>One upload of the sweep, with the jobs read with it; whether it counts as cleaned.\<close>

definition expire_upload ::
  "millis \<Rightarrow> (string \<Rightarrow> bool) \<Rightarrow> (ident \<Rightarrow> bool) \<Rightarrow> upload_row \<times> job_row list \<Rightarrow> hosted_db \<Rightarrow> bool \<times> hosted_db" where
  "expire_upload now fails release_fails row db =
     (let (u, jobs) = row;
          stale_before = now - 15 * 60 * 1000;
          running = (\<lambda>j. jb_status j = ''processing'' \<and> (case jb_started j of None \<Rightarrow> False | Some t \<Rightarrow> stale_before < t));
          active = filter (\<lambda>j. jb_status j = ''queued'' \<or> (jb_status j = ''processing'' \<and>
            (case jb_started j of None \<Rightarrow> True | Some t \<Rightarrow> stale_before < t))) jobs;
          successful = list_ex (\<lambda>j. jb_status j = ''complete'') jobs
      in if \<not> successful \<and> list_ex running active then (False, db)
         else if \<not> successful \<and> now < mu_expires u \<and> active \<noteq> [] then (False, db)
         else
           let db1 = (if \<not> successful \<and> mu_expires u \<le> now
                 then fail_stale now release_fails (mu_workspace u)
                   (filter (\<lambda>j. jb_status j \<in> {''queued'', ''processing''}) jobs) db
                 else db);
               (ok, db2) = delete_managed_upload_audio now fails (mu_id u) db1
           in if \<not> ok then (False, db2)
              else if successful then (True, db2)
              else (True, retire_upload u jobs db2))"

fun expire_each ::
  "millis \<Rightarrow> (string \<Rightarrow> bool) \<Rightarrow> (ident \<Rightarrow> bool) \<Rightarrow> (upload_row \<times> job_row list) list \<Rightarrow> hosted_db \<Rightarrow> nat \<times> hosted_db" where
  "expire_each now fails release_fails [] db = (0, db)"
| "expire_each now fails release_fails (row # rows) db =
     (let (cleaned, db1) = expire_upload now fails release_fails row db;
          (n, db2) = expire_each now fails release_fails rows db1
      in ((if cleaned then 1 else 0) + n, db2))"

text \<open>Recordings of the earlier implementation.\<close>

fun clean_legacy :: "(string \<Rightarrow> bool) \<Rightarrow> hosted_meeting list \<Rightarrow> hosted_db \<Rightarrow> nat \<times> hosted_db" where
  "clean_legacy fails [] db = (0, db)"
| "clean_legacy fails (m # ms) db =
     (if \<not> truthy (hm_recording m) \<or> fails (the (hm_recording m)) then clean_legacy fails ms db
      else
        let db1 = delete_objects fails [the (hm_recording m)] db;
            (n, db2) = clean_legacy fails ms (db1\<lparr>hd_meetings :=
              update_rows (\<lambda>x. hm_id x = hm_id m \<and> hm_recording x = hm_recording m)
                (\<lambda>x. x\<lparr>hm_recording := None\<rparr>) (hd_meetings db1)\<rparr>)
        in (1 + n, db2))"

definition legacy_recordings :: "ident option \<Rightarrow> hosted_db \<Rightarrow> hosted_meeting list" where
  "legacy_recordings cursor db =
     take 100 (sort_key hm_id (filter (\<lambda>m. hm_processing m = ''managed'' \<and> hm_recording m \<noteq> None \<and>
       (truthy cursor \<longrightarrow> the cursor < hm_id m)) (hd_meetings db)))"

definition next_cursor :: "('a \<Rightarrow> 'k) \<Rightarrow> 'a list \<Rightarrow> 'k option" where
  "next_cursor key page = (if length page = 100 then Some (key (last page)) else None)"

record sweep_cursors =
  sw_uploads :: "(millis \<times> ident) option"
  sw_legacy :: "ident option"

definition expire_managed_uploads ::
  "millis \<Rightarrow> (string \<Rightarrow> bool) \<Rightarrow> (ident \<Rightarrow> bool) \<Rightarrow> sweep_cursors \<Rightarrow> hosted_db \<Rightarrow> nat \<times> sweep_cursors \<times> hosted_db" where
  "expire_managed_uploads now fails release_fails cursors db =
     (let page = due_uploads now (sw_uploads cursors) db;
          (n, db1) = expire_each now fails release_fails (map (\<lambda>u. (u, jobs_of (mu_id u) db)) page) db;
          legacy = legacy_recordings (sw_legacy cursors) db1;
          (m, db2) = clean_legacy fails legacy db1
      in (n + m, \<lparr>sw_uploads = next_cursor sweep_key page, sw_legacy = next_cursor hm_id legacy\<rparr>, db2))"

subsection \<open>Manifests the sweep never removes\<close>

text \<open>
  An expired manifest whose staged pieces are gone but that still has a job row. The sweep does not
  select it again, and deletes a manifest only when it has no job.
\<close>

definition retired :: "hosted_db \<Rightarrow> upload_row \<Rightarrow> bool" where
  "retired db u \<longleftrightarrow> u \<in> set (hd_uploads db) \<and> mu_status u = ''expired'' \<and>
     mu_id u \<notin> uc_upload ` set (hd_chunks db) \<and> mu_id u \<notin> uc_upload ` set (hd_tickets db) \<and>
     mu_id u \<in> jb_upload ` set (hd_jobs db)"

definition keeps_retired :: "hosted_db \<Rightarrow> hosted_db \<Rightarrow> bool" where
  "keeps_retired db db' \<longleftrightarrow>
     (unique_on mu_id (hd_uploads db) \<longrightarrow> unique_on mu_id (hd_uploads db') \<and> (\<forall>u. retired db u \<longrightarrow> retired db' u)) \<and>
     mu_key ` set (hd_uploads db') \<subseteq> mu_key ` set (hd_uploads db)"

lemma keeps_retired_refl [simp]: "keeps_retired db db"
  by (simp add: keeps_retired_def)

lemma keeps_retired_trans: "keeps_retired a b \<Longrightarrow> keeps_retired b c \<Longrightarrow> keeps_retired a c"
  unfolding keeps_retired_def by (meson order_trans)

text \<open>The steps of the sweep that leave the uploads alone.\<close>

lemma keeps_retired_pieces:
  assumes "hd_uploads db' = hd_uploads db" "set (hd_chunks db') \<subseteq> set (hd_chunks db)"
    "set (hd_tickets db') \<subseteq> set (hd_tickets db)" "jb_upload ` set (hd_jobs db') = jb_upload ` set (hd_jobs db)"
  shows "keeps_retired db db'"
proof -
  have sub: "uc_upload ` set (hd_chunks db') \<subseteq> uc_upload ` set (hd_chunks db)"
    "uc_upload ` set (hd_tickets db') \<subseteq> uc_upload ` set (hd_tickets db)"
    using assms(2,3) by (simp_all add: image_mono)
  have "retired db' u" if "retired db u" for u
    unfolding retired_def assms(1) assms(4) using that [unfolded retired_def] sub by (auto dest: subsetD)
  then show ?thesis by (simp add: keeps_retired_def assms(1))
qed

lemma fail_stale_simps [simp]:
  "hd_uploads (fail_stale now rf ws jobs db) = hd_uploads db"
  "hd_chunks (fail_stale now rf ws jobs db) = hd_chunks db"
  "hd_tickets (fail_stale now rf ws jobs db) = hd_tickets db"
  "jb_upload ` set (hd_jobs (fail_stale now rf ws jobs db)) = jb_upload ` set (hd_jobs db)"
  by (induction jobs arbitrary: db) (simp_all add: update_jobs_def release_usage_def Let_def keys_update_rows)

lemma delete_audio_frame:
  fixes db now fails uid
  defines "db' \<equiv> snd (delete_managed_upload_audio now fails uid db)"
  shows "hd_uploads db' = hd_uploads db" "hd_jobs db' = hd_jobs db"
    "set (hd_chunks db') \<subseteq> set (hd_chunks db)" "set (hd_tickets db') \<subseteq> set (hd_tickets db)"
  by (auto simp: db'_def delete_managed_upload_audio_def Let_def delete_objects_def)

text \<open>Retiring another upload.\<close>

lemma keeps_retired_mark:
  "keeps_retired db (db\<lparr>hd_uploads := update_rows (\<lambda>x. p x \<and> mu_status x \<noteq> ''expired'')
     (\<lambda>x. x\<lparr>mu_status := ''expired''\<rparr>) (hd_uploads db)\<rparr>)"
  by (auto simp: keeps_retired_def retired_def unique_on_update keys_update_rows set_update_rows)

lemma keeps_retired_delete:
  assumes "uid \<notin> jb_upload ` set (hd_jobs db)"
  shows "keeps_retired db (delete_upload_row uid db)"
  using assms by (auto simp: keeps_retired_def retired_def delete_upload_row_def unique_on_delete)

lemma keeps_retired_placeholder: "keeps_retired db (delete_placeholder u db)"
  by (simp add: delete_placeholder_def Let_def keeps_retired_pieces)

lemma keeps_retired_retire:
  assumes "jobs = [] \<Longrightarrow> mu_id u \<notin> jb_upload ` set (hd_jobs db)"
  shows "keeps_retired db (retire_upload u jobs db)"
proof -
  define db1 where "db1 = db\<lparr>hd_uploads := update_rows (\<lambda>x. mu_id x = mu_id u \<and> mu_status x \<noteq> ''expired'')
    (\<lambda>x. x\<lparr>mu_status := ''expired''\<rparr>) (hd_uploads db)\<rparr>"
  have k: "keeps_retired db db1" unfolding db1_def by (rule keeps_retired_mark)
  have d: "keeps_retired db1 (delete_upload_row (mu_id u) db1)" if "jobs = []"
    by (rule keeps_retired_delete) (use assms that in \<open>simp add: db1_def\<close>)
  show ?thesis
    unfolding retire_upload_def db1_def [symmetric] Let_def
    using k d keeps_retired_placeholder keeps_retired_trans by (auto split: if_splits)
qed

text \<open>The whole sweep.\<close>

definition jobs_read :: "hosted_db \<Rightarrow> upload_row \<times> job_row list \<Rightarrow> bool" where
  "jobs_read db row \<longleftrightarrow> (snd row = [] \<longrightarrow> mu_id (fst row) \<notin> jb_upload ` set (hd_jobs db))"

lemma keeps_retired_expire:
  assumes "jobs_read db row"
  shows "keeps_retired db (snd (expire_upload now fails rf row db))"
proof -
  obtain u jobs where row: "row = (u, jobs)" by (cases row)
  have clean: "keeps_retired db d'" if "keeps_retired db d" "d' = snd (delete_managed_upload_audio now fails (mu_id u) d)" for d d'
    using that(1) keeps_retired_pieces [OF delete_audio_frame(1,3,4), of now fails "mu_id u" d] that(2)
    by (simp add: delete_audio_frame(2) keeps_retired_trans [of db d])
  have stale: "keeps_retired db (fail_stale now rf ws js db)" for ws js by (simp add: keeps_retired_pieces)
  have retire: "keeps_retired db (retire_upload u jobs d)"
    if "keeps_retired db d" "jb_upload ` set (hd_jobs d) = jb_upload ` set (hd_jobs db)" for d
    using that assms keeps_retired_trans [OF that(1) keeps_retired_retire [of jobs u d]] by (simp add: jobs_read_def row)
  have jobs1: "jb_upload ` set (hd_jobs (snd (delete_managed_upload_audio now fails (mu_id u) d))) = jb_upload ` set (hd_jobs d)" for d
    by (simp add: delete_audio_frame(2))
  show ?thesis
    unfolding expire_upload_def row Let_def prod.case case_prod_unfold
    using clean [OF stale refl] clean [OF keeps_retired_refl refl] retire [OF clean [OF stale refl]] retire [OF clean [OF keeps_retired_refl refl]]
    by (simp add: jobs1)
qed

lemma retire_jobs: "jb_upload ` set (hd_jobs (retire_upload u jobs db)) \<subseteq> jb_upload ` set (hd_jobs db)"
  by (auto simp: retire_upload_def delete_placeholder_def delete_upload_row_def Let_def)

lemma expire_upload_jobs:
  "jb_upload ` set (hd_jobs (snd (expire_upload now fails rf row db))) \<subseteq> jb_upload ` set (hd_jobs db)"
proof -
  obtain u jobs where row: "row = (u, jobs)" by (cases row)
  have jobs1: "jb_upload ` set (hd_jobs (snd (delete_managed_upload_audio now fails (mu_id u) d))) = jb_upload ` set (hd_jobs d)" for d
    by (simp add: delete_audio_frame(2))
  show ?thesis
    unfolding expire_upload_def row Let_def prod.case case_prod_unfold
    using retire_jobs [of u jobs "snd (delete_managed_upload_audio now fails (mu_id u) d)" for d]
    by (simp add: jobs1 order_trans [OF retire_jobs])
qed

lemma keeps_retired_each:
  "list_all (jobs_read db) rows \<Longrightarrow> keeps_retired db (snd (expire_each now fails rf rows db))"
proof (induction rows arbitrary: db)
  case (Cons row rows)
  let ?db1 = "snd (expire_upload now fails rf row db)"
  have "jobs_read ?db1 r" if "jobs_read db r" for r
    using that expire_upload_jobs [of now fails rf row db] unfolding jobs_read_def by blast
  then have "list_all (jobs_read ?db1) rows" using Cons.prems by (simp add: list_all_iff)
  from keeps_retired_trans [OF keeps_retired_expire Cons.IH [OF this]] Cons.prems
  show ?case by (simp add: Let_def case_prod_unfold)
qed simp

lemma clean_legacy_simps [simp]:
  "hd_uploads (snd (clean_legacy fails ms db)) = hd_uploads db"
  "hd_chunks (snd (clean_legacy fails ms db)) = hd_chunks db"
  "hd_tickets (snd (clean_legacy fails ms db)) = hd_tickets db"
  "hd_jobs (snd (clean_legacy fails ms db)) = hd_jobs db"
  by (induction ms arbitrary: db) (simp_all add: Let_def case_prod_unfold delete_objects_def)

lemma keeps_retired_sweep: "keeps_retired db (snd (snd (expire_managed_uploads now fails rf cursors db)))"
proof -
  let ?rows = "map (\<lambda>u. (u, jobs_of (mu_id u) db)) (due_uploads now (sw_uploads cursors) db)"
  have "list_all (jobs_read db) ?rows"
    by (auto simp: list_all_iff jobs_read_def jobs_of_def filter_empty_conv)
  from keeps_retired_trans [OF keeps_retired_each [OF this] keeps_retired_pieces]
  show ?thesis by (simp add: expire_managed_uploads_def Let_def case_prod_unfold)
qed

text \<open>One run of the sweep and a sequence of them.\<close>

record sweep_event =
  se_now :: millis
  se_fails :: "string \<Rightarrow> bool"
  se_release_fails :: "ident \<Rightarrow> bool"
  se_cursors :: sweep_cursors

definition sweep_step :: "sweep_event \<Rightarrow> hosted_db \<Rightarrow> hosted_db" where
  "sweep_step e db =
     snd (snd (expire_managed_uploads (se_now e) (se_fails e) (se_release_fails e) (se_cursors e) db))"

lemma keeps_retired_sweeps: "keeps_retired db (fold sweep_step es db)"
  by (induction es arbitrary: db) (auto simp: sweep_step_def intro: keeps_retired_trans [OF keeps_retired_sweep])

text \<open>
  C19. Expired manifests of failed recordings block new recordings. Once five manifests of a
  workspace are expired, without staged pieces but with a job row, no sequence of upload-expiry
  sweeps at any time removes them, although the staging limit counts them: an upload under an
  idempotency key no manifest has yet is refused, as long as only such sweeps have run. (A retry of
  a failed recording under its own key deletes its manifest, and deleting its note does too.)
\<close>
theorem expired_manifests_block_staging:
  assumes "unique_on mu_id (hd_uploads db)"
    and "5 \<le> count_rows (\<lambda>u. mu_workspace u = ws \<and> retired db u) (hd_uploads db)"
    and "ui_key input \<notin> mu_key ` set (hd_uploads db)" "ws \<in> set (hd_workspaces (fold sweep_step sweeps db))"
  shows "\<exists>m. reserve_staging_tx now new_id ws input (fold sweep_step sweeps db) = Inl (Managed_Quota_Error m)"
proof -
  let ?db = "fold sweep_step sweeps db"
  have k: "keeps_retired db ?db" by (rule keeps_retired_sweeps)
  then have kept: "retired ?db u" if "retired db u" for u using that assms(1) by (simp add: keeps_retired_def)
  have "ui_key input \<notin> mu_key ` set (hd_uploads ?db)" using k assms(3) unfolding keeps_retired_def by blast
  then have none: "upload_by_key ws (ui_key input) ?db = None"
    by (auto simp: upload_by_key_def find_row_None_iff image_iff)
  have "count_rows (\<lambda>u. mu_workspace u = ws \<and> retired db u) (hd_uploads db) \<le> pending_count ws ?db"
    unfolding pending_count_def
    by (rule count_rows_subset [OF assms(1)]) (use kept in \<open>auto simp: retired_def pending_upload_def\<close>)
  with assms(2,4) none show ?thesis
    by (simp add: reserve_staging_tx_def max_pending_uploads_def)
qed

subsection \<open>Failed recordings\<close>

text \<open>A recording whose job failed, with its audio still staged, and what the sweep leaves of it.\<close>

definition failed_upload :: "string \<Rightarrow> nat \<Rightarrow> upload_row" where
  "failed_upload status n =
     \<lparr>mu_id = digits_of n, mu_workspace = ''w1'', mu_meeting = ''m'' @ digits_of n, mu_key = ''meeting:m'' @ digits_of n,
      mu_chunks = 1, mu_bytes = 2, mu_status = status, mu_kind = ''capture'', mu_format = None,
      mu_declared = None, mu_expires = 1000, mu_completed = Some 10\<rparr>"

definition failed_chunk :: "nat \<Rightarrow> chunk_row" where
  "failed_chunk n =
     \<lparr>uc_id = ''c'' @ digits_of n, uc_upload = digits_of n, uc_index = 0, uc_channel = ''mic'', uc_bytes = 2,
      uc_checksum = ''x'', uc_object = ''o'' @ digits_of n, uc_signed = None\<rparr>"

definition failed_job :: "nat \<Rightarrow> job_row" where
  "failed_job n = (new_job 20 (''j'' @ digits_of n) ''w1'' (''m'' @ digits_of n) (digits_of n) (''meeting:m'' @ digits_of n))
     \<lparr>jb_status := ''error'', jb_error := Some unexpected_message, jb_attempts := 1\<rparr>"

definition failed_state :: "string \<Rightarrow> nat list \<Rightarrow> nat list \<Rightarrow> hosted_db" where
  "failed_state status staged ns =
     \<lparr>hd_workspaces = [''w1''], hd_meetings = [], hd_uploads = map (failed_upload status) ns,
      hd_chunks = map failed_chunk staged, hd_tickets = [], hd_jobs = map failed_job ns, hd_ledger = [],
      hd_transcript = [], hd_actions = [], hd_objects = map (\<lambda>n. (''o'' @ digits_of n, [1, 2])) staged\<rparr>"

definition plain_sweep :: "millis \<Rightarrow> sweep_event" where
  "plain_sweep now = \<lparr>se_now = now, se_fails = (\<lambda>_. False), se_release_fails = (\<lambda>_. False),
     se_cursors = \<lparr>sw_uploads = None, sw_legacy = None\<rparr>\<rparr>"

lemma sweep_leaves_manifest:
  "sweep_step (plain_sweep 2000) (failed_state ''complete'' [1] [1]) = failed_state ''expired'' [] [1]"
  by code_simp

definition next_upload :: upload_input where
  "next_upload = \<lparr>ui_meeting = ''m9'', ui_chunks = JsNum 1, ui_bytes = JsNum 2, ui_key = ''meeting:m9'',
     ui_kind = None, ui_format = None, ui_declared = None\<rparr>"

abbreviation five_swept :: hosted_db where
  "five_swept \<equiv> failed_state ''expired'' [] [1, 2, 3, 4, 5]"

text \<open>Five failed recordings whose audio was cleaned up, a year of sweeps later.\<close>
theorem expired_manifests_block_staging_witness:
  "\<exists>m. reserve_staging_tx 31536000000 ''u9'' ''w1'' next_upload (fold sweep_step [plain_sweep 31536000000] five_swept)
     = Inl (Managed_Quota_Error m)"
proof (rule expired_manifests_block_staging)
  show "unique_on mu_id (hd_uploads five_swept)" by code_simp
  have "filter (\<lambda>u. mu_workspace u = ''w1'' \<and> retired five_swept u) (hd_uploads five_swept) = hd_uploads five_swept"
    by (simp add: failed_state_def retired_def failed_upload_def failed_job_def new_job_def)
  then show "5 \<le> count_rows (\<lambda>u. mu_workspace u = ''w1'' \<and> retired five_swept u) (hd_uploads five_swept)"
    by (simp add: count_rows_def failed_state_def)
  show "ui_key next_upload \<notin> mu_key ` set (hd_uploads five_swept)" by code_simp
  show "''w1'' \<in> set (hd_workspaces (fold sweep_step [plain_sweep 31536000000] five_swept))"
    by code_simp
qed

end
