(* ===== verification/Job_Phases.thy ===== *)
theory Job_Phases
  imports Upload_Expiry
begin

text \<open>
  The abstract life of a job and the proof that the queue implements it: a job is created queued,
  runs under a lease, ends finished or failed, is queued again only after a failure, and a finished
  job is never touched again. Every step has a label, and a request takes only steps with the labels
  of its kind: only enqueueing creates and requeues, only workers claim and finish, only the expiry
  sweep and an upload that replaces an expired one delete.
\<close>

datatype job_phase = Queued | Running "ident option" | Failed | Finished

definition phase_of :: "job_row \<Rightarrow> job_phase" where
  "phase_of j =
     (if jb_status j = ''queued'' then Queued
      else if jb_status j = ''processing'' then Running (jb_token j)
      else if jb_status j = ''complete'' then Finished else Failed)"

definition phase_at :: "ident \<Rightarrow> hosted_db \<Rightarrow> job_phase option" where
  "phase_at jid db = map_option phase_of (find_row (\<lambda>j. jb_id j = jid) (hd_jobs db))"

datatype job_label = Creating | Claiming | Finishing | Failing | Expiring | Requeueing | Deleting

inductive job_step :: "job_label \<Rightarrow> job_phase option \<Rightarrow> job_phase option \<Rightarrow> bool" where
  create: "job_step Creating None (Some Queued)"
| claim: "job_step Claiming (Some Queued) (Some (Running (Some t)))"
| reclaim: "job_step Claiming (Some (Running s)) (Some (Running (Some t)))"
| finish: "job_step Finishing (Some (Running t)) (Some Finished)"
| fail: "job_step Failing (Some (Running t)) (Some Failed)"
| expire_queued: "job_step Expiring (Some Queued) (Some Failed)"
| expire_running: "job_step Expiring (Some (Running t)) (Some Failed)"
| requeue: "job_step Requeueing (Some Failed) (Some Queued)"
| delete: "job_step Deleting (Some p) None"

code_pred job_step .

inductive_cases finishedE: "job_step l (Some Finished) p"
inductive_cases absentE: "job_step l None p"

text \<open>The steps with labels of a set, and a view that takes any number of them.\<close>

definition moves :: "job_label set \<Rightarrow> job_phase option \<Rightarrow> job_phase option \<Rightarrow> bool" where
  "moves L p q \<longleftrightarrow> (\<exists>l \<in> L. job_step l p q)"

lemma move_one: "job_step l p q \<Longrightarrow> l \<in> L \<Longrightarrow> (moves L)\<^sup>*\<^sup>* p q"
  by (rule r_into_rtranclp) (auto simp: moves_def)

lemmas job_moves = job_step.intros [THEN move_one]

lemma finished_is_final: "(moves L)\<^sup>*\<^sup>* (Some Finished) p \<Longrightarrow> Creating \<notin> L \<Longrightarrow> p = Some Finished \<or> p = None \<and> Deleting \<in> L"
  by (induction rule: rtranclp_induct) (auto simp: moves_def elim: finishedE absentE)

subsection \<open>Simulation, one change at a time\<close>

text \<open>\<open>B jid\<close> holds the labels the job \<open>jid\<close> may take a step with.\<close>

definition sim :: "(ident \<Rightarrow> job_label set) \<Rightarrow> hosted_db \<Rightarrow> hosted_db \<Rightarrow> bool" where
  "sim B db db' \<longleftrightarrow> (unique_on jb_id (hd_jobs db) \<longrightarrow>
     unique_on jb_id (hd_jobs db') \<and> (\<forall>jid. (moves (B jid))\<^sup>*\<^sup>* (phase_at jid db) (phase_at jid db')))"

lemma sim_trans: "sim B a b \<Longrightarrow> sim B b c \<Longrightarrow> sim B a c"
  unfolding sim_def by (meson rtranclp_trans)

lemma sim_same: "hd_jobs db' = hd_jobs db \<Longrightarrow> sim B db db'"
  by (simp add: sim_def phase_at_def)

lemma sim_refl [simp]: "sim B db db"
  by (simp add: sim_same)

lemma sim_release: "sim B db (release_usage now ws key db)"
  by (simp add: release_usage_def sim_same)

lemma sim_update:
  assumes id: "\<And>j. jb_id (f j) = jb_id j"
    and f: "\<And>j. p j \<Longrightarrow> (moves (B (jb_id j)))\<^sup>*\<^sup>* (Some (phase_of j)) (Some (phase_of (f j)))"
  shows "sim B db (db\<lparr>hd_jobs := update_rows p f (hd_jobs db)\<rparr>)"
proof -
  have "(moves (B jid))\<^sup>*\<^sup>* (phase_at jid db) (phase_at jid (db\<lparr>hd_jobs := update_rows p f (hd_jobs db)\<rparr>))" for jid
  proof (cases "find_row (\<lambda>j. jb_id j = jid) (hd_jobs db)")
    case (Some j)
    with find_row_SomeD [OF Some] f [of j] show ?thesis by (simp add: phase_at_def find_row_update id)
  qed (simp add: phase_at_def find_row_update id)
  then show ?thesis by (simp add: sim_def unique_on_update id)
qed

lemma sim_update_jobs:
  assumes "\<And>j. jb_id (f j) = jb_id j"
    "\<And>j. p j \<Longrightarrow> (moves (B (jb_id j)))\<^sup>*\<^sup>* (Some (phase_of j)) (Some (phase_of (f j)))"
  shows "sim B db (snd (update_jobs p f db))"
  unfolding update_jobs_def snd_conv by (rule sim_update [OF assms])

lemma sim_delete:
  assumes "hd_jobs db' = delete_rows p (hd_jobs db)" "\<And>jid. Deleting \<in> B jid"
  shows "sim B db db'"
proof -
  have "(moves (B jid))\<^sup>*\<^sup>* (phase_at jid db) (phase_at jid db')" if "unique_on jb_id (hd_jobs db)" for jid
    using job_moves(9) [OF assms(2)]
    by (cases "find_row (\<lambda>j. jb_id j = jid) (hd_jobs db)")
      (auto simp: phase_at_def assms(1) find_row_delete_unique [OF that])
  then show ?thesis by (simp add: sim_def assms(1) unique_on_delete)
qed

lemma sim_append:
  assumes "jb_status j = ''queued''" "unique_on jb_id (hd_jobs db @ [j])" "Creating \<in> B (jb_id j)"
  shows "sim B db (db\<lparr>hd_jobs := hd_jobs db @ [j]\<rparr>)"
proof -
  have "jb_id j \<notin> jb_id ` set (hd_jobs db)" using assms(2) by (simp add: unique_on_append)
  then have none: "find_row (\<lambda>x. jb_id x = jb_id j) (hd_jobs db) = None"
    by (auto simp: find_row_None_iff image_iff)
  have "(moves (B jid))\<^sup>*\<^sup>* (phase_at jid db) (phase_at jid (db\<lparr>hd_jobs := hd_jobs db @ [j]\<rparr>))" for jid
  proof (cases "jid = jb_id j")
    case True
    with none assms(1) job_moves(1) [OF assms(3)] show ?thesis by (simp add: phase_at_def find_row_append phase_of_def)
  next
    case False
    then show ?thesis
      by (cases "find_row (\<lambda>x. jb_id x = jid) (hd_jobs db)") (simp_all add: phase_at_def find_row_append)
  qed
  with assms(2) show ?thesis by (simp add: sim_def)
qed

subsection \<open>Enqueueing\<close>

lemma get_upload_jobs [simp]: "hd_jobs (snd (get_upload now ws uid db)) = hd_jobs db"
  by (simp add: get_upload_def mark_expired_def split: option.splits)

lemma reserve_for_upload_jobs: "reserve_for_upload w ws key u db = Inr db1 \<Longrightarrow> hd_jobs db1 = hd_jobs db"
  by (auto simp: reserve_for_upload_def split: sum.splits prod.splits)

lemma write_jobs_Inr:
  "write_jobs fault jobs db = Inr db' \<longleftrightarrow> fault = None \<and> job_keys_unique jobs \<and> db' = db\<lparr>hd_jobs := jobs\<rparr>"
  by (auto simp: write_jobs_def split: option.splits)

lemma sim_requeue:
  "(\<And>j. Requeueing \<in> B j) \<Longrightarrow> sim B db (db\<lparr>hd_jobs := update_rows (\<lambda>j. jb_id j = jid \<and> jb_status j = ''error'') (requeue uid) (hd_jobs db)\<rparr>)"
  by (rule sim_update) (simp_all add: requeue_def phase_of_def job_moves)

lemma sim_retry_job:
  assumes other: "\<And>d. sim B d (eq_other w d)" and labels: "\<And>j. Requeueing \<in> B j"
  shows "sim B db (snd (retry_job w now ws mid u existing db))"
proof (cases "reserve_for_upload w ws (jb_key existing) u db")
  case (Inl e)
  then show ?thesis by (simp add: retry_job_def Let_def)
next
  case (Inr db1)
  let ?db = "eq_other w db1"
  have o: "sim B db ?db" using sim_trans [OF sim_same [OF reserve_for_upload_jobs [OF Inr]] other] .
  let ?jobs = "update_rows (\<lambda>j. jb_id j = jb_id existing \<and> jb_status j = ''error'') (requeue (mu_id u)) (hd_jobs ?db)"
  note release = sim_trans [OF o sim_release]
  show ?thesis
  proof (cases "write_jobs (eq_write_fault w) ?jobs ?db")
    case (Inl t)
    with Inr o release show ?thesis by (auto simp: retry_job_def Let_def split: option.splits)
  next
    case (Inr db3)
    with sim_trans [OF o sim_requeue [OF labels]] have "sim B db db3" by (auto simp: write_jobs_Inr)
    with Inr \<open>reserve_for_upload w ws (jb_key existing) u db = Inr db1\<close> show ?thesis
      by (auto simp: retry_job_def Let_def split: option.splits)
  qed
qed

lemma sim_create_job:
  assumes other: "\<And>d. sim B d (eq_other w d)" and labels: "Creating \<in> B (eq_job_id w)"
  shows "sim B db (snd (create_job w now ws mid u key db))"
proof (cases "reserve_for_upload w ws key u db")
  case (Inl e)
  then show ?thesis by (simp add: create_job_def Let_def)
next
  case (Inr db1)
  let ?db = "eq_other w db1"
  let ?job = "new_job now (eq_job_id w) ws mid (mu_id u) key"
  have o: "sim B db ?db" using sim_trans [OF sim_same [OF reserve_for_upload_jobs [OF Inr]] other] .
  note release = sim_trans [OF o sim_release]
  show ?thesis
  proof (cases "write_jobs (eq_write_fault w) (hd_jobs ?db @ [?job]) ?db")
    case (Inl t)
    with Inr o release show ?thesis by (auto simp: create_job_def Let_def split: option.splits)
  next
    case w: (Inr db3)
    then have "sim B ?db db3" using labels by (auto simp: write_jobs_Inr job_keys_unique_def new_job_def intro!: sim_append)
    with sim_trans [OF o] w Inr show ?thesis by (simp add: create_job_def Let_def)
  qed
qed

lemma sim_enqueue:
  assumes other: "\<And>d. sim B d (eq_other w d)" and labels: "\<And>j. Requeueing \<in> B j" "Creating \<in> B (eq_job_id w)"
  shows "sim B db (snd (enqueue_managed_job w now ws mid uid key db))"
proof -
  obtain u db1 where g: "get_upload now ws uid db = (u, db1)" by (cases "get_upload now ws uid db")
  have s: "sim B db db1" using sim_same [of db1 db] get_upload_jobs [of now ws uid db] g by simp
  note retry = sim_trans [OF s sim_retry_job [OF other labels(1)]] and create' = sim_trans [OF s sim_create_job [OF other labels(2)]]
  show ?thesis
    unfolding enqueue_managed_job_def g using s retry create' by (auto split: option.splits)
qed

subsection \<open>The worker\<close>

lemma sim_fail_each: "(\<And>j. Failing \<in> B j) \<Longrightarrow> sim B db (fail_each now fails jobs db)"
proof (induction jobs arbitrary: db)
  case (Cons job jobs)
  let ?up = "update_jobs (\<lambda>j. jb_id j = jb_id job \<and> jb_status j = ''processing'' \<and> managed_job_max_attempts \<le> jb_attempts j)
    (\<lambda>j. j\<lparr>jb_status := ''error'', jb_token := None, jb_error := Some exhausted_message\<rparr>) db"
  have "sim B db (snd ?up)" by (rule sim_update_jobs) (simp_all add: phase_of_def job_moves(5) Cons.prems)
  then show ?case using sim_trans [OF _ Cons.IH [OF Cons.prems]] sim_trans [OF _ sim_release]
    by (simp add: Let_def case_prod_unfold)
qed simp

lemma sim_claim: "Claiming \<in> B jid \<Longrightarrow> sim B db (snd (claim_job now token locked ws jid db))"
proof -
  assume labels: "Claiming \<in> B jid"
  let ?up = "update_jobs (\<lambda>j. jb_id j = jid \<and> jb_workspace j = ws \<and> claimable (now - managed_job_lease_ms) j)
    (\<lambda>j. j\<lparr>jb_status := ''processing'', jb_started := Some now, jb_token := Some token, jb_error := None,
           jb_attempts := jb_attempts j + 1\<rparr>) db"
  have "sim B db (snd ?up)"
    by (rule sim_update_jobs) (use labels in \<open>auto simp: phase_of_def claimable_def job_moves\<close>)
  then show ?thesis by (auto simp: claim_job_def Let_def case_prod_unfold)
qed

lemma sim_set_stage: "sim B db (set_job_stage jid ws token stage db)"
  unfolding set_job_stage_def by (rule sim_update_jobs) (simp_all add: phase_of_def)

lemma sim_renew: "sim B db (snd (renew_job_lease now jid ws token db))"
proof -
  have "sim B db (snd (update_jobs (owned ws jid token) (\<lambda>j. j\<lparr>jb_started := Some now\<rparr>) db))"
    by (rule sim_update_jobs) (simp_all add: phase_of_def)
  then show ?thesis by (simp add: renew_job_lease_def Let_def case_prod_unfold)
qed

lemma adjust_import_jobs: "adjust_import w job q db = Inr db' \<Longrightarrow> hd_jobs db' = hd_jobs db"
  by (auto simp: adjust_import_def worker_error_def split: sum.splits ledger_error.splits prod.splits bool.splits)

lemma sim_transcribe_import: "sim B db (snd (transcribe_import w job chunks hints db))"
proof -
  have a: "sim B db db2" if "adjust_import w job q (set_job_stage i ws t stage db) = Inr db2" for db2 q i ws t stage
    using sim_trans [OF sim_set_stage sim_same [OF adjust_import_jobs [OF that]]] .
  note b = sim_trans [OF a sim_set_stage]
  show ?thesis
    unfolding transcribe_import_def Let_def
    by (auto simp: sim_set_stage intro: b split: option.splits sum.splits decode_error.splits)
qed

lemma sim_transcribe_job: "sim B db (snd (snd (transcribe_job w job upload meeting db)))"
  using sim_transcribe_import [of B db w job "job_chunks job db" "job_hints w meeting"]
  by (auto simp: transcribe_job_def Let_def split: prod.splits sum.splits)

lemma sim_do_job: "sim B db (snd (snd (do_job w job upload meeting db)))"
proof -
  obtain r cost db1 where t: "transcribe_job w job upload meeting db = (r, cost, db1)"
    by (cases "transcribe_job w job upload meeting db")
  have s: "sim B db db1" using sim_transcribe_job [of B db w job upload meeting] t by simp
  note s2 = sim_trans [OF s sim_set_stage]
  show ?thesis
    unfolding do_job_def t using s s2
    by (cases r) (auto simp: Let_def split: sum.splits prod.splits)
qed

lemma sim_finalize:
  assumes "finalize_job w job meeting work cost db = Inr db'" "Finishing \<in> B (jb_id job)"
  shows "sim B db db'"
proof -
  let ?up = "update_jobs (owned (jb_workspace job) (jb_id job) (jx_token w))
    (\<lambda>j. j\<lparr>jb_status := ''complete'', jb_stage := None, jb_completed := Some (jx_finished w), jb_error := None,
           jb_cost := jb_cost j + cost\<rparr>) db"
  have "sim B db (snd ?up)"
    by (rule sim_update_jobs) (use assms(2) in \<open>auto simp: phase_of_def owned_def job_moves\<close>)
  moreover have "hd_jobs db' = hd_jobs (snd ?up)"
    using assms(1) by (auto simp: finalize_job_def Let_def case_prod_unfold split: if_splits)
  ultimately show ?thesis using sim_trans [OF _ sim_same] by blast
qed

lemma sim_fail_job: "Failing \<in> B (jb_id job) \<Longrightarrow> sim B db (snd (fail_job w job e cost db))"
proof -
  assume labels: "Failing \<in> B (jb_id job)"
  let ?up = "update_jobs (owned (jb_workspace job) (jb_id job) (jx_token w))
    (\<lambda>j. j\<lparr>jb_status := ''error'', jb_stage := None, jb_error := Some (user_message e), jb_cost := jb_cost j + cost\<rparr>) db"
  have "sim B db (snd ?up)" by (rule sim_update_jobs) (use labels in \<open>auto simp: phase_of_def owned_def job_moves\<close>)
  with sim_trans [OF _ sim_release] show ?thesis by (simp add: fail_job_def Let_def case_prod_unfold)
qed

lemma sim_after_commit: "sim B db (after_commit w job work db)"
proof -
  have "sim B db (snd (delete_managed_upload_audio (jx_finished w) (jx_fails w) (jb_upload job) db))"
    by (rule sim_same) (rule delete_audio_frame)
  with sim_trans [OF _ sim_release] show ?thesis by (simp add: after_commit_def Let_def)
qed

lemma claim_job_id: "claim_job now token locked ws jid db = (Some job, db1) \<Longrightarrow> jb_id job = jid"
  by (auto simp: claim_job_def Let_def case_prod_unfold split: if_splits dest: find_row_SomeD)

lemma sim_execute:
  assumes other: "\<And>d. sim B d (jx_other w d)" and labels: "Claiming \<in> B jid" "Finishing \<in> B jid" "Failing \<in> B jid"
  shows "sim B db (snd (execute_managed_job w ws jid db))"
proof -
  obtain c db1 where c: "claim_job (jx_now w) (jx_token w) (jx_locked w) ws jid db = (c, db1)"
    by (cases "claim_job (jx_now w) (jx_token w) (jx_locked w) ws jid db")
  have s1: "sim B db db1" using sim_claim [of B jid db "jx_now w" "jx_token w" "jx_locked w" ws] labels(1) c by simp
  show ?thesis
  proof (cases "\<exists>job meeting upload. c = Some job \<and> find_row (\<lambda>m. hm_id m = jb_meeting job) (hd_meetings db1) = Some meeting
      \<and> upload_by_id (jb_upload job) db1 = Some upload")
    case False
    with s1 c show ?thesis by (auto simp: execute_managed_job_def split: option.splits)
  next
    case True
    then obtain job meeting upload where j: "c = Some job"
      "find_row (\<lambda>m. hm_id m = jb_meeting job) (hd_meetings db1) = Some meeting"
      "upload_by_id (jb_upload job) db1 = Some upload" by blast
    have i: "jb_id job = jid" using claim_job_id c j(1) by blast
    obtain r cost db2 where d: "do_job w job upload meeting db1 = (r, cost, db2)"
      by (cases "do_job w job upload meeting db1")
    have s3: "sim B db (jx_other w db2)"
      using sim_trans [OF sim_trans [OF s1 sim_do_job [of B db1 w job upload meeting]] other] d by simp
    note failed = sim_trans [OF s3 sim_fail_job [where B = B and job = job, unfolded i, OF labels(3)]]
    have finished: "sim B db (after_commit w job work db4)"
      if "finalize_job w job meeting work cost (jx_other w db2) = Inr db4" for work db4
      using sim_trans [OF sim_trans [OF s3 sim_finalize [OF that]] sim_after_commit] labels(2) i by simp
    show ?thesis
      using c j d failed finished by (auto simp: execute_managed_job_def Let_def split: sum.splits)
  qed
qed

subsection \<open>The sweep and new uploads\<close>

lemma sim_fail_stale: "(\<And>j. Expiring \<in> B j) \<Longrightarrow> sim B db (fail_stale now rf ws jobs db)"
proof (induction jobs arbitrary: db)
  case (Cons job jobs)
  let ?up = "update_jobs (\<lambda>j. jb_id j = jb_id job \<and> jb_status j \<in> {''queued'', ''processing''})
    (\<lambda>j. j\<lparr>jb_status := ''error'', jb_error := Some expired_audio_message, jb_completed := Some now, jb_token := None\<rparr>) db"
  have "sim B db (snd ?up)" by (rule sim_update_jobs) (use Cons.prems in \<open>auto simp: phase_of_def job_moves\<close>)
  then show ?case using sim_trans [OF _ Cons.IH [OF Cons.prems]] sim_trans [OF _ sim_release]
    by (simp add: Let_def case_prod_unfold)
qed simp

lemma sim_delete_upload_row: "(\<And>j. Deleting \<in> B j) \<Longrightarrow> sim B db (delete_upload_row uid db)"
  by (rule sim_delete [where p = "\<lambda>j. jb_upload j = uid"]) (simp add: delete_upload_row_def)

lemma sim_retire:
  assumes labels: "\<And>j. Deleting \<in> B j"
  shows "sim B db (retire_upload u jobs db)"
proof -
  let ?db = "db\<lparr>hd_uploads := update_rows (\<lambda>x. mu_id x = mu_id u \<and> mu_status x \<noteq> ''expired'')
    (\<lambda>x. x\<lparr>mu_status := ''expired''\<rparr>) (hd_uploads db)\<rparr>"
  have s: "sim B db ?db" by (simp add: sim_same)
  have p: "sim B d (delete_placeholder u d)" for d by (simp add: delete_placeholder_def Let_def sim_same)
  show ?thesis
    unfolding retire_upload_def Let_def
    using s sim_trans [OF s p] sim_trans [OF sim_trans [OF s sim_delete_upload_row [OF labels]] p] by simp
qed

lemma sim_expire_upload:
  assumes labels: "\<And>j. Expiring \<in> B j" "\<And>j. Deleting \<in> B j"
  shows "sim B db (snd (expire_upload now fails rf row db))"
proof -
  obtain u jobs where row: "row = (u, jobs)" by (cases row)
  have clean: "sim B d (snd (delete_managed_upload_audio now fails (mu_id u) d))" for d
    by (rule sim_same) (rule delete_audio_frame)
  note stale = sim_trans [OF sim_fail_stale [OF labels(1)] clean] and retire = sim_retire [OF labels(2)]
  show ?thesis
    unfolding expire_upload_def row Let_def prod.case case_prod_unfold
    using clean stale sim_trans [OF stale retire] sim_trans [OF clean retire] by simp
qed

lemma sim_expire_each:
  assumes labels: "\<And>j. Expiring \<in> B j" "\<And>j. Deleting \<in> B j"
  shows "sim B db (snd (expire_each now fails rf rows db))"
proof (induction rows arbitrary: db)
  case (Cons row rows)
  from sim_trans [OF sim_expire_upload [OF labels] Cons.IH] show ?case by (simp add: Let_def case_prod_unfold)
qed simp

lemma sim_sweep: "(\<And>j. Expiring \<in> B j) \<Longrightarrow> (\<And>j. Deleting \<in> B j) \<Longrightarrow> sim B db (sweep_step e db)"
  unfolding sweep_step_def expire_managed_uploads_def Let_def case_prod_unfold snd_conv
  by (rule sim_trans [OF sim_expire_each sim_same]) simp_all

lemma sim_create_upload:
  assumes other: "\<And>d. sim B d (ux_other w d)" and labels: "\<And>j. Deleting \<in> B j"
  shows "sim B db (snd (create_managed_upload w now ws input db))"
proof -
  have a: "sim B d (snd (delete_managed_upload_audio now f uid d))" for d f uid
    by (rule sim_same) (rule delete_audio_frame)
  have m: "sim B d (mark_expired now uid d)" for d uid by (simp add: mark_expired_def sim_same)
  have r: "sim B db (snd (resolve_existing now (ux_fails w) ws input db))"
    unfolding resolve_existing_def Let_def case_prod_unfold
    using m sim_trans [OF m a] sim_trans [OF sim_trans [OF m a] sim_delete_upload_row [OF labels]]
    by (simp split: option.splits)
  obtain c db1 where c: "resolve_existing now (ux_fails w) ws input db = (c, db1)"
    by (cases "resolve_existing now (ux_fails w) ws input db")
  have s1: "sim B db db1" using r c by simp
  have s2: "sim B db (ux_other w db1)" by (rule sim_trans [OF s1 other])
  have tx: "sim B db db3" if "reserve_staging_tx now i ws input (ux_other w db1) = Inr (u, db3)" for i u db3
  proof -
    have "hd_jobs db3 = hd_jobs (ux_other w db1)"
      using that by (auto simp: reserve_staging_tx_def split: option.splits if_splits)
    then show ?thesis using sim_trans [OF s2 sim_same] by blast
  qed
  show ?thesis
    unfolding create_managed_upload_def c using s1 s2 tx
    by (auto simp: Let_def split: option.splits sum.splits existing_outcome.splits)
qed

subsection \<open>The queue refines the phases\<close>

datatype queue_request =
    Enqueue enqueue_world millis ident ident ident string
  | Poll millis "ident \<Rightarrow> bool"
  | Execute job_world ident ident
  | Renew millis ident ident ident
  | Sweep sweep_event
  | Create upload_world millis ident upload_input

fun queue_step :: "queue_request \<Rightarrow> hosted_db \<Rightarrow> hosted_db" where
  "queue_step (Enqueue w now ws mid uid key) db = snd (enqueue_managed_job w now ws mid uid key db)"
| "queue_step (Poll now fails) db = snd (next_managed_job now fails db)"
| "queue_step (Execute w ws jid) db = snd (execute_managed_job w ws jid db)"
| "queue_step (Renew now jid ws token) db = snd (renew_job_lease now jid ws token db)"
| "queue_step (Sweep e) db = sweep_step e db"
| "queue_step (Create w now ws input) db = snd (create_managed_upload w now ws input db)"

text \<open>What happens between the transactions of a request is itself a simulation.\<close>

fun interference :: "queue_request \<Rightarrow> hosted_db \<Rightarrow> hosted_db" where
  "interference (Enqueue w now ws mid uid key) db = eq_other w db"
| "interference (Execute w ws jid) db = jx_other w db"
| "interference (Create w now ws input) db = ux_other w db"
| "interference _ db = db"

text \<open>The labels of a request for the job \<open>jid\<close>.\<close>

fun request_labels :: "ident \<Rightarrow> queue_request \<Rightarrow> job_label set" where
  "request_labels jid (Enqueue w now ws mid uid key) = insert Requeueing (if jid = eq_job_id w then {Creating} else {})"
| "request_labels jid (Poll now fails) = {Failing}"
| "request_labels jid (Execute w ws jid') = (if jid = jid' then {Claiming, Finishing, Failing} else {})"
| "request_labels jid (Renew now jid' ws token) = {}"
| "request_labels jid (Sweep e) = {Expiring, Deleting}"
| "request_labels jid (Create w now ws input) = {Deleting}"

text \<open>
  \<open>B\<close> bounds a request: its own labels are in \<open>B\<close>, and what others do between its transactions
  moves each job by steps of \<open>B\<close> only.
\<close>

definition bounded_by :: "(ident \<Rightarrow> job_label set) \<Rightarrow> queue_request \<Rightarrow> bool" where
  "bounded_by B r \<longleftrightarrow> (\<forall>jid. request_labels jid r \<subseteq> B jid) \<and> (\<forall>db. sim B db (interference r db))"

lemma bounded_byD:
  "bounded_by B r \<Longrightarrow> l \<in> request_labels jid r \<Longrightarrow> l \<in> B jid"
  "bounded_by B r \<Longrightarrow> sim B db (interference r db)"
  by (auto simp: bounded_by_def)

lemma queue_step_sim:
  assumes "bounded_by B r"
  shows "sim B db (queue_step r db)"
  using bounded_byD [OF assms]
proof (cases r)
  case (Enqueue w now ws mid uid key)
  with bounded_byD [OF assms] show ?thesis by (auto intro!: sim_enqueue)
next
  case (Poll now fails)
  with bounded_byD(1) [OF assms] show ?thesis
    by (simp add: next_managed_job_def fail_exhausted_jobs_def Let_def sim_fail_each)
next
  case (Execute w ws jid)
  with bounded_byD [OF assms] bounded_byD(1) [OF assms, of _ jid] show ?thesis by (auto intro!: sim_execute)
next
  case (Renew now jid ws token)
  then show ?thesis by (simp add: sim_renew)
next
  case (Sweep e)
  with bounded_byD(1) [OF assms] show ?thesis by (simp add: sim_sweep)
next
  case (Create w now ws input)
  with bounded_byD [OF assms] show ?thesis by (auto intro!: sim_create_upload)
qed

interpretation job_queue: simulation queue_step "\<lambda>db. unique_on jb_id (hd_jobs db)" "bounded_by B" "phase_at jid" "moves (B jid)"
  for B jid
  using queue_step_sim by unfold_locales (auto simp: sim_def)

text \<open>
  C20. The job queue implements the life cycle of a job. Take any run of enqueueing, polling,
  executing, lease renewals, expiry sweeps and new uploads, and for each job a set of labels that
  holds those of the requests (enqueueing requeues and creates the id it drew, a poll fails,
  executing a job claims, finishes and fails that job, a sweep expires and deletes, a new upload
  deletes) and those of whatever is committed between their transactions. Then the phase of every
  job only takes steps of the life cycle with these labels. In particular a finished job stays
  finished, or is deleted by a request that may, as long as its id is not drawn a second time.
\<close>
theorem job_queue_refines_life_cycle:
  assumes "unique_on jb_id (hd_jobs db)" "list_all (bounded_by B) requests"
  shows "(moves (B jid))\<^sup>*\<^sup>* (phase_at jid db) (phase_at jid (fold queue_step requests db)) \<and>
    (phase_at jid db = Some Finished \<and> Creating \<notin> B jid \<longrightarrow>
      phase_at jid (fold queue_step requests db) = Some Finished \<or>
      phase_at jid (fold queue_step requests db) = None \<and> Deleting \<in> B jid)"
proof -
  have "(moves (B jid))\<^sup>*\<^sup>* (phase_at jid db) (phase_at jid (fold queue_step requests db))"
    by (rule job_queue.run_simulates [OF assms])
  then show ?thesis
    using finished_is_final [of "B jid" "phase_at jid (fold queue_step requests db)"] by metis
qed

text \<open>
  A poll, a renewal and a sweep after the upload expired: the queued job can only have failed or
  gone, since none of these requests claims or finishes.
\<close>
theorem job_queue_refines_life_cycle_witness:
  "(moves {Failing, Expiring, Deleting})\<^sup>*\<^sup>* (Some Queued) (phase_at ''j1'' (fold queue_step
     [Poll 30 (\<lambda>_. False), Renew 31 ''j1'' ''w1'' ''t'', Sweep (plain_sweep 2000)]
     ((failed_state ''complete'' [1] [1])\<lparr>hd_jobs := [(failed_job 1)\<lparr>jb_status := ''queued''\<rparr>]\<rparr>)))"
proof -
  let ?db = "(failed_state ''complete'' [1] [1])\<lparr>hd_jobs := [(failed_job 1)\<lparr>jb_status := ''queued''\<rparr>]\<rparr>"
  have "phase_at ''j1'' ?db = Some Queued" by code_simp
  then show ?thesis
    using job_queue_refines_life_cycle [of ?db "\<lambda>_. {Failing, Expiring, Deleting}"
        "[Poll 30 (\<lambda>_. False), Renew 31 ''j1'' ''w1'' ''t'', Sweep (plain_sweep 2000)]" "''j1''"]
    by (simp add: bounded_by_def)
qed

end
