(* ===== verification/Job_Outcomes.thy ===== *)
theory Job_Outcomes
  imports Job_Phases
begin

text \<open>
  How a run of a claimed job ends: it commits its result, or it lost its lease and leaves no trace,
  or it fails, which writes an error the user can read and gives the reservation back.
\<close>

definition still_owned :: "job_world \<Rightarrow> job_row \<Rightarrow> hosted_db \<Rightarrow> bool" where
  "still_owned w job db \<longleftrightarrow> list_ex (owned (jb_workspace job) (jb_id job) (jx_token w)) (hd_jobs db)"

definition unit_released :: "ident \<Rightarrow> string \<Rightarrow> hosted_db \<Rightarrow> bool" where
  "unit_released ws key db \<longleftrightarrow>
     list_all (\<lambda>r. ue_workspace r = ws \<and> ue_key r = key \<and> ue_kind r = units_kind \<longrightarrow> ue_units r \<le> 0) (hd_ledger db)"

definition job_failed_with :: "ident \<Rightarrow> string \<Rightarrow> hosted_db \<Rightarrow> bool" where
  "job_failed_with jid message db \<longleftrightarrow>
     list_ex (\<lambda>j. jb_id j = jid \<and> jb_status j = ''error'' \<and> jb_error j = Some message) (hd_jobs db)"

definition same_notes :: "hosted_db \<Rightarrow> hosted_db \<Rightarrow> bool" where
  "same_notes db db' \<longleftrightarrow> hd_meetings db' = hd_meetings db \<and> hd_transcript db' = hd_transcript db \<and>
     hd_actions db' = hd_actions db \<and> hd_chunks db' = hd_chunks db \<and> hd_objects db' = hd_objects db"

text \<open>The rows a finished job leaves for its meeting.\<close>

definition result_stored :: "job_row \<Rightarrow> hosted_meeting \<Rightarrow> job_work \<Rightarrow> hosted_db \<Rightarrow> hosted_db \<Rightarrow> bool" where
  "result_stored job meeting work before after \<longleftrightarrow>
     filter (\<lambda>r. tr_meeting r = jb_meeting job) (hd_transcript after) =
       segment_rows (jb_meeting job) (hm_started meeting) (jw_utterances work) \<and>
     filter (\<lambda>r. tr_meeting r \<noteq> jb_meeting job) (hd_transcript after) =
       filter (\<lambda>r. tr_meeting r \<noteq> jb_meeting job) (hd_transcript before) \<and>
     filter (\<lambda>r. ar_meeting r = jb_meeting job) (hd_actions after) = action_rows (jb_meeting job) (jw_summary work) \<and>
     hd_meetings after =
       update_rows (\<lambda>m. hm_id m = jb_meeting job) (finished_meeting work meeting) (hd_meetings before) \<and>
     list_ex (\<lambda>j. jb_id j = jb_id job \<and> jb_status j = ''complete'' \<and> jb_error j = None) (hd_jobs after)"

subsection \<open>Lemmas\<close>

lemma unit_released_release: "unit_released ws key (release_usage now ws key db)"
proof -
  have "list_all (\<lambda>r. ue_workspace r = ws \<and> ue_key r = key \<and> ue_kind r = units_kind \<longrightarrow> ue_units r \<le> 0)
    (release_meeting_processing now ws key rows)" for rows
    unfolding release_meeting_processing_def by (induction rows) auto
  then show ?thesis by (simp add: unit_released_def release_usage_def)
qed

lemma owned_count:
  assumes "unique_on jb_id (hd_jobs db)"
  shows "count_rows (owned ws jid token) (hd_jobs db) = (if list_ex (owned ws jid token) (hd_jobs db) then 1 else 0)"
proof -
  have "count_rows (owned ws jid token) (hd_jobs db) \<le> card {jid}"
    by (rule count_rows_keyed [OF assms]) (simp_all add: owned_def)
  then show ?thesis
    using count_rows_pos_iff [of "owned ws jid token" "hd_jobs db"] by (auto simp: list_ex_iff)
qed

lemma update_owned_idle:
  "\<not> list_ex (owned ws jid token) (hd_jobs db) \<Longrightarrow> db\<lparr>hd_jobs := update_rows (owned ws jid token) f (hd_jobs db)\<rparr> = db"
  by (subst update_rows_idle) (auto simp: list_ex_iff)

lemma fail_job_lost:
  assumes "unique_on jb_id (hd_jobs db)" "\<not> still_owned w job db \<or> e = lease_lost"
  shows "fail_job w job e cost db = (Some lease_lost, db)"
  using assms by (auto simp: fail_job_def still_owned_def update_jobs_def owned_count update_owned_idle)

lemma fail_job_owned:
  assumes u: "unique_on jb_id (hd_jobs db)" and own: "still_owned w job db" and e: "e \<noteq> lease_lost"
    and f: "fail_job w job e cost db = (e', db')"
  shows "e' = Some e \<and> same_notes db db' \<and> job_failed_with (jb_id job) (user_message e) db' \<and>
    (\<not> jx_release_fails w \<longrightarrow> unit_released (jb_workspace job) (jb_key job) db')"
proof -
  let ?p = "owned (jb_workspace job) (jb_id job) (jx_token w)"
  let ?f = "\<lambda>j. j\<lparr>jb_status := ''error'', jb_stage := None, jb_error := Some (user_message e), jb_cost := jb_cost j + cost\<rparr>"
  let ?db = "db\<lparr>hd_jobs := update_rows ?p ?f (hd_jobs db)\<rparr>"
  let ?db' = "if jx_release_fails w then ?db else release_usage (jx_finished w) (jb_workspace job) (jb_key job) ?db"
  have db': "e' = Some e" "db' = ?db'"
    using f own e by (simp_all add: fail_job_def update_jobs_def owned_count [OF u] still_owned_def)
  obtain j where j: "j \<in> set (hd_jobs db)" "?p j" using own by (auto simp: still_owned_def list_ex_iff)
  then have "?f j \<in> set (update_rows ?p ?f (hd_jobs db))" by (auto simp: set_update_rows)
  then have "job_failed_with (jb_id job) (user_message e) db'"
    using j(2) unfolding job_failed_with_def list_ex_iff db'(2)
    by (intro bexI [of _ "?f j"]) (simp_all add: owned_def release_usage_def)
  moreover have "same_notes db ?db'" by (simp add: same_notes_def release_usage_def)
  moreover have "unit_released (jb_workspace job) (jb_key job) ?db'" if "\<not> jx_release_fails w"
    using that unit_released_release by simp
  ultimately show ?thesis unfolding db' by blast
qed

lemma finalize_lost:
  assumes "unique_on jb_id (hd_jobs db)" "\<not> still_owned w job db"
  shows "\<exists>e. finalize_job w job meeting work cost db = Inl e"
  using assms by (simp add: finalize_job_def update_jobs_def owned_count still_owned_def Let_def)

lemma segment_rows_meeting: "r \<in> set (segment_rows mid started us) \<Longrightarrow> tr_meeting r = mid"
  by (auto simp: segment_rows_def)

lemma action_rows_meeting: "r \<in> set (action_rows mid s) \<Longrightarrow> ar_meeting r = mid"
  by (auto simp: action_rows_def split: option.splits)

lemma filter_replaced:
  assumes "\<And>r. r \<in> set new \<Longrightarrow> key r = k"
  shows "filter (\<lambda>r. key r = k) (delete_rows (\<lambda>r. key r = k) rows @ new) = new"
    "filter (\<lambda>r. key r \<noteq> k) (delete_rows (\<lambda>r. key r = k) rows @ new) = filter (\<lambda>r. key r \<noteq> k) rows"
  using assms by (simp_all add: delete_rows_def filter_empty_conv filter_id_conv)

lemma finalize_Inr:
  assumes u: "unique_on jb_id (hd_jobs db)" and f: "finalize_job w job meeting work cost db = Inr db'"
  shows "still_owned w job db \<and> result_stored job meeting work db db'"
proof -
  let ?p = "owned (jb_workspace job) (jb_id job) (jx_token w)"
  let ?f = "\<lambda>j. j\<lparr>jb_status := ''complete'', jb_stage := None, jb_completed := Some (jx_finished w), jb_error := None,
    jb_cost := jb_cost j + cost\<rparr>"
  have own: "still_owned w job db" using finalize_lost [OF u, of w job meeting work cost] f by fastforce
  have db': "db' = db\<lparr>hd_jobs := update_rows ?p ?f (hd_jobs db),
      hd_transcript := delete_rows (\<lambda>r. tr_meeting r = jb_meeting job) (hd_transcript db) @
        segment_rows (jb_meeting job) (hm_started meeting) (jw_utterances work),
      hd_actions := delete_rows (\<lambda>r. ar_meeting r = jb_meeting job) (hd_actions db) @
        action_rows (jb_meeting job) (jw_summary work),
      hd_meetings := update_rows (\<lambda>m. hm_id m = jb_meeting job) (finished_meeting work meeting) (hd_meetings db)\<rparr>"
    using f by (simp add: finalize_job_def update_jobs_def Let_def split: if_splits)
  obtain j where j: "j \<in> set (hd_jobs db)" "?p j" using own by (auto simp: still_owned_def list_ex_iff)
  then have "?f j \<in> set (update_rows ?p ?f (hd_jobs db))" by (auto simp: set_update_rows)
  then have "list_ex (\<lambda>j. jb_id j = jb_id job \<and> jb_status j = ''complete'' \<and> jb_error j = None) (hd_jobs db')"
    using j(2) unfolding list_ex_iff db' by (intro bexI [of _ "?f j"]) (simp_all add: owned_def)
  then show ?thesis
    using own filter_replaced [where key = tr_meeting, OF segment_rows_meeting]
      filter_replaced [where key = ar_meeting, OF action_rows_meeting]
    by (simp add: result_stored_def db')
qed

lemma after_commit_frame:
  "hd_meetings (after_commit w job work db) = hd_meetings db"
  "hd_transcript (after_commit w job work db) = hd_transcript db"
  "hd_actions (after_commit w job work db) = hd_actions db"
  "hd_jobs (after_commit w job work db) = hd_jobs db"
  by (auto simp: after_commit_def delete_managed_upload_audio_def Let_def delete_objects_def release_usage_def)

lemma after_commit_silent:
  "\<not> has_speech (jw_utterances work) \<Longrightarrow> \<not> jx_release_fails w \<Longrightarrow>
    unit_released (jb_workspace job) (jb_key job) (after_commit w job work db)"
  by (simp add: after_commit_def Let_def unit_released_release)

lemma result_stored_commit:
  "result_stored job meeting work before db \<Longrightarrow> result_stored job meeting work before (after_commit w job work db)"
  by (simp add: result_stored_def after_commit_frame)

lemma execute_claimed:
  assumes "claim_job (jx_now w) (jx_token w) (jx_locked w) ws jid db = (Some job, db1)"
    and "find_row (\<lambda>m. hm_id m = jb_meeting job) (hd_meetings db1) = Some meeting"
    and "upload_by_id (jb_upload job) db1 = Some upload" "do_job w job upload meeting db1 = (result, cost, db2)"
  shows "execute_managed_job w ws jid db =
    (case result of
       Inl e \<Rightarrow> fail_job w job e cost (jx_other w db2)
     | Inr work \<Rightarrow>
         (case finalize_job w job meeting work cost (jx_other w db2) of
            Inl e \<Rightarrow> fail_job w job e cost (jx_other w db2)
          | Inr db4 \<Rightarrow> (None, after_commit w job work db4)))"
  using assms by (simp add: execute_managed_job_def Let_def)

subsection \<open>How a run ends\<close>

text \<open>
  C21. How a run of a claimed job ends, whatever the recogniser, the summariser, the decoder, the
  storage or another worker do meanwhile. If the lease is no longer the run's when the work is done,
  nothing is written. If the run reports success, the meeting holds exactly the transcript and the
  actions of this work and the job is complete. If it reports a failure, no note row changed,
  the job carries a message the user can read and the reserved unit is back.
\<close>
theorem job_outcome:
  fixes w db1 db2
  defines "db3 \<equiv> jx_other w db2"
  assumes claimed: "claim_job (jx_now w) (jx_token w) (jx_locked w) ws jid db = (Some job, db1)"
    and meeting: "find_row (\<lambda>m. hm_id m = jb_meeting job) (hd_meetings db1) = Some meeting"
    and upload: "upload_by_id (jb_upload job) db1 = Some upload"
    and worked: "do_job w job upload meeting db1 = (result, cost, db2)"
    and ids: "unique_on jb_id (hd_jobs db3)"
    and ran: "execute_managed_job w ws jid db = (e, db')"
  shows "(\<not> still_owned w job db3 \<longrightarrow> e = Some lease_lost \<and> db' = db3) \<and>
    (e = None \<longrightarrow> (\<exists>work. result = Inr work \<and> result_stored job meeting work db3 db' \<and>
       (\<not> has_speech (jw_utterances work) \<and> \<not> jx_release_fails w \<longrightarrow>
          unit_released (jb_workspace job) (jb_key job) db'))) \<and>
    (\<forall>x. e = Some x \<and> x \<noteq> lease_lost \<longrightarrow> same_notes db3 db' \<and> job_failed_with (jb_id job) (user_message x) db' \<and>
       (\<not> jx_release_fails w \<longrightarrow> unit_released (jb_workspace job) (jb_key job) db'))"
proof -
  have run: "(e, db') = (case result of Inl x \<Rightarrow> fail_job w job x cost db3
     | Inr work \<Rightarrow> (case finalize_job w job meeting work cost db3 of
          Inl x \<Rightarrow> fail_job w job x cost db3 | Inr db4 \<Rightarrow> (None, after_commit w job work db4)))"
    using execute_claimed [OF claimed meeting upload worked] ran unfolding db3_def by metis
  have failed: ?thesis if f: "fail_job w job x cost db3 = (e, db')" for x
  proof (cases "\<not> still_owned w job db3 \<or> x = lease_lost")
    case True
    from f [unfolded fail_job_lost [OF ids True]] show ?thesis by auto
  next
    case False
    then show ?thesis using fail_job_owned [OF ids _ _ f] by auto
  qed
  show ?thesis
  proof (cases result)
    case (Inl x)
    with run have "fail_job w job x cost db3 = (e, db')" by simp
    then show ?thesis by (rule failed)
  next
    case work: (Inr work)
    show ?thesis
    proof (cases "finalize_job w job meeting work cost db3")
      case (Inl x)
      with run work have "fail_job w job x cost db3 = (e, db')" by simp
      then show ?thesis by (rule failed)
    next
      case (Inr db4)
      with run work have "e = None" "db' = after_commit w job work db4" by simp_all
      with finalize_Inr [OF ids Inr] work result_stored_commit after_commit_silent show ?thesis by simp
    qed
  qed
qed

text \<open>A recording with no audio in either channel.\<close>

definition silent_meeting :: hosted_meeting where
  "silent_meeting = \<lparr>hm_id = ''m1'', hm_workspace = Some ''w1'', hm_deleted = None, hm_title = ''Sync'', hm_summary = [],
     hm_capture = ''manual'', hm_processing = ''managed'', hm_mode = ''general'', hm_language = None,
     hm_started = 5, hm_ended = 6, hm_recording = None\<rparr>"

definition silent_job :: job_row where
  "silent_job = new_job 20 ''j1'' ''w1'' ''m1'' ''1'' ''meeting:m1''"

definition silent_run :: job_row where
  "silent_run = silent_job\<lparr>jb_status := ''processing'', jb_started := Some 30, jb_token := Some ''t'', jb_attempts := 1\<rparr>"

definition silent_state :: "job_row \<Rightarrow> hosted_db" where
  "silent_state job = (failed_state ''complete'' [] [1])\<lparr>hd_meetings := [silent_meeting], hd_jobs := [job]\<rparr>"

definition silent_world :: job_world where
  "silent_world = \<lparr>jx_env = sample_env, jx_now = 30, jx_finished = 40, jx_token = ''t'', jx_locked = True,
     jx_vocabulary = None, jx_language = None, jx_media = False, jx_subs = [], jx_decode = (\<lambda>_ _. Inl Decode_Thrown),
     jx_aborts = (\<lambda>_. None), jx_date_parse = (\<lambda>_. JsNaN), jx_ask = (\<lambda>_ _ _. Inl lease_lost),
     jx_answer = (\<lambda>_. Inl lease_lost), jx_other = id, jx_commit = None, jx_fails = (\<lambda>_. False),
     jx_release_fails = False\<rparr>"

definition silent_work :: job_work where
  "silent_work = \<lparr>jw_utterances = [], jw_ended = 6, jw_language = None, jw_summary = None\<rparr>"

lemma silent_claim:
  "claim_job (jx_now silent_world) (jx_token silent_world) (jx_locked silent_world) ''w1'' ''j1'' (silent_state silent_job) =
     (Some silent_run, silent_state silent_run)"
  by code_simp

lemma silent_do:
  "do_job silent_world silent_run (failed_upload ''complete'' 1) silent_meeting (silent_state silent_run) =
     (Inr silent_work, 0, silent_state silent_run)"
  by code_simp

text \<open>The silent recording ends with an empty transcript and its unit back.\<close>
theorem job_outcome_witness:
  "result_stored silent_run silent_meeting silent_work (silent_state silent_run)
     (snd (execute_managed_job silent_world ''w1'' ''j1'' (silent_state silent_job)))"
proof -
  let ?run = "execute_managed_job silent_world ''w1'' ''j1'' (silent_state silent_job)"
  have m: "find_row (\<lambda>m. hm_id m = jb_meeting silent_run) (hd_meetings (silent_state silent_run)) = Some silent_meeting"
    by code_simp
  have u: "upload_by_id (jb_upload silent_run) (silent_state silent_run) = Some (failed_upload ''complete'' 1)"
    by code_simp
  have other: "jx_other silent_world (silent_state silent_run) = silent_state silent_run"
    by (simp add: silent_world_def)
  have ids: "unique_on jb_id (hd_jobs (jx_other silent_world (silent_state silent_run)))"
    unfolding other by code_simp
  have "fst ?run = None" by code_simp
  moreover obtain e db' where r: "?run = (e, db')" by (cases ?run)
  ultimately show ?thesis
    using job_outcome [OF silent_claim m u silent_do ids r] by (simp add: other)
qed

end
