(* ===== verification/Deployment_Config.thy ===== *)
theory Deployment_Config
  imports Js_Data
begin

text \<open>
  The configuration of a deployment (\<open>webapp/src/lib/deploymentConfig.ts\<close>): what a managed
  server still lacks, its public origin, and when it accepts new accounts. The runtime's URL
  parser is the argument \<open>parse\<close>; \<open>None\<close> is the exception \<open>new URL\<close> throws.
\<close>

subsection \<open>URLs\<close>

record url =
  url_protocol :: string
  url_hostname :: string
  url_origin :: string
  url_href :: string
  url_username :: string
  url_password :: string

type_synonym url_parser = "string \<Rightarrow> url option"

text \<open>\<open>a ?? b\<close> on environment variables, and \<open>Boolean(env[name]?.trim())\<close>.\<close>

definition env_or :: "env \<Rightarrow> string \<Rightarrow> string \<Rightarrow> string option" where
  "env_or env a b = (case env a of Some v \<Rightarrow> Some v | None \<Rightarrow> env b)"

definition has_value :: "env \<Rightarrow> string \<Rightarrow> bool" where
  "has_value env name \<longleftrightarrow> truthy (map_option trim (env name))"

definition app_url_value :: "env \<Rightarrow> string option" where
  "app_url_value env = env_or env ''APP_URL'' ''NEXT_PUBLIC_APP_URL''"

definition local_hosts :: "string list" where
  "local_hosts = [''localhost'', ''127.0.0.1'', ''[::1]'']"

definition is_local_http :: "url \<Rightarrow> bool" where
  "is_local_http u \<longleftrightarrow> url_protocol u = ''http:'' \<and> url_hostname u \<in> set local_hosts"

definition valid_app_url :: "url_parser \<Rightarrow> string option \<Rightarrow> bool" where
  "valid_app_url parse v =
     (if \<not> truthy (map_option trim v) then False
      else case parse (the v) of None \<Rightarrow> False | Some u \<Rightarrow> url_protocol u = ''https:'' \<or> is_local_http u)"

subsection \<open>What a managed server lacks\<close>

datatype object_storage = Storage_R2 | Storage_S3 | Storage_Filesystem

definition object_storage_of :: "env \<Rightarrow> object_storage" where
  "object_storage_of env =
     (if has_value env ''R2_BUCKET'' then Storage_R2
      else if has_value env ''S3_BUCKET'' then Storage_S3 else Storage_Filesystem)"

definition hosted_ai_enabled :: "env \<Rightarrow> bool" where
  "hosted_ai_enabled env \<longleftrightarrow> env_is env ''HOSTED_AI_ENABLED'' ''true''"

definition storage_settings :: "env \<Rightarrow> string list" where
  "storage_settings env =
     (case object_storage_of env of
        Storage_R2 \<Rightarrow> [''R2_BUCKET''] @
          (if has_value env ''R2_ENDPOINT'' \<or> has_value env ''R2_ACCOUNT_ID'' then [] else [''R2_ACCOUNT_ID'']) @
          [''R2_ACCESS_KEY_ID'', ''R2_SECRET_ACCESS_KEY'']
      | Storage_S3 \<Rightarrow> [''S3_BUCKET'', ''S3_ACCESS_KEY_ID'', ''S3_SECRET_ACCESS_KEY'']
      | Storage_Filesystem \<Rightarrow> [''S3_BUCKET or R2_BUCKET''])"

definition provider_choice :: "env \<Rightarrow> string \<Rightarrow> string \<Rightarrow> string" where
  "provider_choice env name fallback =
     (let v = map_option (\<lambda>s. to_lower (trim s)) (env name) in if truthy v then the v else fallback)"

definition spend_settings :: "string list" where
  "spend_settings = [''MANAGED_DAILY_SPEND_MICROS'', ''MANAGED_WORKSPACE_DAILY_SPEND_MICROS'',
     ''MANAGED_TRIAL_DAILY_SPEND_MICROS'', ''MANAGED_TRIAL_DAILY_GRANTS'']"

definition spend_setting_limit :: "string \<Rightarrow> nat" where
  "spend_setting_limit name = (if suffix ''GRANTS'' name then 100000 else 1000000000000)"

definition bad_spend_setting :: "env \<Rightarrow> string \<Rightarrow> bool" where
  "bad_spend_setting env name =
     (case env name of
        None \<Rightarrow> True
      | Some v \<Rightarrow> \<not> all_digits v \<or> spend_setting_limit name < digits_value v)"

definition hosted_ai_settings :: "env \<Rightarrow> string list" where
  "hosted_ai_settings env =
     (let transcription = provider_choice env ''MANAGED_TRANSCRIPTION_PROVIDER'' ''groq'';
          summary = provider_choice env ''MANAGED_SUMMARY_PROVIDER'' ''openai''
      in [''MANAGED_WORKER_TOKEN''] @ storage_settings env @
         (if transcription = ''groq'' \<or> transcription = ''deepgram'' then []
          else [''MANAGED_TRANSCRIPTION_PROVIDER (groq or deepgram)'']) @
         (if summary = ''openai'' \<or> summary = ''anthropic'' then []
          else [''MANAGED_SUMMARY_PROVIDER (openai or anthropic)'']) @
         [if transcription = ''deepgram'' then ''MANAGED_DEEPGRAM_API_KEY'' else ''MANAGED_GROQ_API_KEY'',
          if summary = ''anthropic'' then ''MANAGED_ANTHROPIC_API_KEY'' else ''MANAGED_OPENAI_API_KEY''])"

definition missing_settings :: "url_parser \<Rightarrow> env \<Rightarrow> string list" where
  "missing_settings parse env =
     filter (\<lambda>name. \<not> has_value env name)
       [''STRIPE_SECRET_KEY'', ''STRIPE_WEBHOOK_SECRET'', ''STRIPE_PRICE_HOSTED_PRO'', ''STRIPE_PRICE_HOSTED_TEAM''] @
     (if hosted_ai_enabled env
      then filter (\<lambda>name. \<not> has_value env name) (hosted_ai_settings env) @
           (if env_is env ''NODE_ENV'' ''production'' then filter (bad_spend_setting env) spend_settings else [])
      else []) @
     (if env_is env ''LEGACY_INGEST_ENABLED'' ''true''
      then [''LEGACY_INGEST_ENABLED (must be off when MANAGED_HOSTING=true)''] else []) @
     (if valid_app_url parse (app_url_value env) then [] else [''APP_URL''])"

record configuration_status =
  cs_enabled :: bool
  cs_ready :: bool
  cs_storage :: object_storage
  cs_missing :: "string list"

definition managed_configuration_status :: "url_parser \<Rightarrow> env \<Rightarrow> configuration_status" where
  "managed_configuration_status parse env =
     (if \<not> env_is env ''MANAGED_HOSTING'' ''true''
      then \<lparr>cs_enabled = False, cs_ready = True, cs_storage = object_storage_of env, cs_missing = []\<rparr>
      else let missing = missing_settings parse env
           in \<lparr>cs_enabled = True, cs_ready = (missing = []), cs_storage = object_storage_of env, cs_missing = missing\<rparr>)"

subsection \<open>Origins\<close>

text \<open>\<open>Inl\<close> is a \<open>DeploymentConfigError\<close>.\<close>

definition origin_of :: "url_parser \<Rightarrow> string option \<Rightarrow> string option" where
  "origin_of parse v =
     (if \<not> valid_app_url parse v then None else map_option url_origin (parse (the v)))"

definition get_app_url :: "url_parser \<Rightarrow> env \<Rightarrow> string + string" where
  "get_app_url parse env =
     (let origin = origin_of parse (app_url_value env) in
      if truthy origin then Inr (the origin)
      else if env_is env ''MANAGED_HOSTING'' ''true''
      then Inl (''APP_URL must be set to this deployment'' @ [CHR 0x27] @ ''s public https origin in managed mode'')
      else Inr ''http://localhost:3000'')"

definition get_worker_base_url :: "url_parser \<Rightarrow> env \<Rightarrow> string + string" where
  "get_worker_base_url parse env =
     (let worker = map_option trim (env ''WORKER_URL'') in
      if \<not> truthy worker then get_app_url parse env
      else case parse (the worker) of
          None \<Rightarrow> Inl ''WORKER_URL must be an http(s) URL''
        | Some u \<Rightarrow>
            if url_protocol u = ''http:'' \<or> url_protocol u = ''https:'' then Inr (url_origin u)
            else Inl ''WORKER_URL must be an http(s) URL'')"

definition is_signup_allowed :: "url_parser \<Rightarrow> env \<Rightarrow> bool" where
  "is_signup_allowed parse env =
     (let status = managed_configuration_status parse env in \<not> cs_enabled status \<or> cs_ready status)"

definition assert_managed_startup_config :: "url_parser \<Rightarrow> env \<Rightarrow> string option" where
  "assert_managed_startup_config parse env =
     (if \<not> env_is env ''MANAGED_HOSTING'' ''true'' then None
      else if env_is env ''LEGACY_INGEST_ENABLED'' ''true''
      then Some ''LEGACY_INGEST_ENABLED=true cannot be combined with MANAGED_HOSTING=true: the legacy AUTH_TOKEN ingest API has no tenant identity''
      else (case get_app_url parse env of Inl e \<Rightarrow> Some e | Inr _ \<Rightarrow> None))"

definition is_legacy_ingest_available :: "env \<Rightarrow> bool" where
  "is_legacy_ingest_available env \<longleftrightarrow>
     \<not> env_is env ''MANAGED_HOSTING'' ''true'' \<or> env_is env ''LEGACY_INGEST_ENABLED'' ''true''"

subsection \<open>Lemmas\<close>

text \<open>A server that takes sign-ups in managed mode also starts, and never falls back to localhost.\<close>

lemma signup_allowed_starts:
  assumes m: "env_is env ''MANAGED_HOSTING'' ''true''" and s: "is_signup_allowed parse env"
    and o': "\<And>v u. parse v = Some u \<Longrightarrow> url_origin u \<noteq> []"
  shows "assert_managed_startup_config parse env = None \<and> \<not> is_legacy_ingest_available env"
proof -
  have ready: "missing_settings parse env = []"
    using s m by (simp add: is_signup_allowed_def managed_configuration_status_def Let_def)
  then have l: "\<not> env_is env ''LEGACY_INGEST_ENABLED'' ''true''" and v: "valid_app_url parse (app_url_value env)"
    by (simp_all add: missing_settings_def split: if_splits)
  obtain u where "parse (the (app_url_value env)) = Some u"
    using v by (auto simp: valid_app_url_def split: if_splits option.splits)
  then have "get_app_url parse env = Inr (url_origin u)"
    using v o' by (simp add: get_app_url_def origin_of_def truthy_def)
  with m l show ?thesis by (simp add: assert_managed_startup_config_def is_legacy_ingest_available_def)
qed

end
