(* ===== verification/Billing.thy ===== *)
theory Billing
  imports Plans Deployment_Config "HOL-Library.Word"
begin

text \<open>
  Billing with Stripe (\<open>webapp/src/lib/billing.ts\<close>): checkout with its claim on the workspace's
  subscription row, the portal, cancellation, the signature of a webhook, and the transaction that
  applies a webhook event. Stripe's API, the runtime's URL parser and what other requests commit
  meanwhile are arguments.
\<close>

subsection \<open>Data\<close>

datatype billing_error =
    Billing_Error string
  | Portal_Required_Error string
  | Checkout_In_Progress string "ident option"
  | Billing_Thrown thrown

record billing_event =
  be_id :: string
  be_type :: string
  be_created :: "int option"

record billing_db =
  bl_workspaces :: "ident list"
  bl_subs :: "subscription list"
  bl_events :: "billing_event list"

text \<open>The unique columns of the subscription table; a null never clashes.\<close>

definition present :: "('r \<Rightarrow> 'k option) \<Rightarrow> 'r list \<Rightarrow> 'k list" where
  "present key rows = List.map_filter key rows"

definition subs_unique :: "subscription list \<Rightarrow> bool" where
  "subs_unique rows \<longleftrightarrow>
     unique_on sub_workspace rows \<and> distinct (present sub_customer rows) \<and> distinct (present sub_stripe_id rows)"

definition database_error :: "string \<Rightarrow> billing_error" where
  "database_error code =
     Billing_Thrown \<lparr>th_code = Some code, th_name = Some ''PrismaClientKnownRequestError'', th_message = None\<rparr>"

definition sub_of :: "ident \<Rightarrow> billing_db \<Rightarrow> subscription option" where
  "sub_of ws db = find_row (\<lambda>s. sub_workspace s = ws) (bl_subs db)"

text \<open>A reply of Stripe: its status and the members of its body, none when the body is no JSON.\<close>

datatype stripe_reply = Stripe_Silent | Stripe_Reply int "(string \<times> json) list"

text \<open>Method, path, form, idempotency key, and which attempt it is.\<close>

type_synonym stripe =
  "string \<Rightarrow> string \<Rightarrow> (string \<times> string) list \<Rightarrow> string option \<Rightarrow> nat \<Rightarrow> stripe_reply"

record billing_world =
  bw_env :: env
  bw_parse :: url_parser
  bw_stripe :: stripe
  bw_clock :: "nat \<Rightarrow> millis"
  bw_other :: "nat \<Rightarrow> billing_db \<Rightarrow> billing_db"
  bw_show :: "json \<Rightarrow> string"

subsection \<open>Statuses\<close>

definition live_statuses :: "string list" where
  "live_statuses = [''active'', ''trialing'', ''past_due'', ''unpaid'', ''paused'']"

definition terminal_statuses :: "string list" where
  "terminal_statuses = [''canceled'', ''incomplete_expired'', ''inactive'']"

definition known_statuses :: "string list" where
  "known_statuses = live_statuses @ terminal_statuses @ [''incomplete'']"

definition payment_grace_ms :: millis where
  "payment_grace_ms = 3 * 24 * 60 * 60 * 1000"

definition has_live_subscription :: "subscription option \<Rightarrow> bool" where
  "has_live_subscription sub =
     (case sub of None \<Rightarrow> False
      | Some s \<Rightarrow> truthy (sub_stripe_id s) \<and> sub_plan s \<noteq> ''hosted_trial'' \<and> sub_status s \<in> set live_statuses)"

subsection \<open>Requests to Stripe\<close>

definition stripe_configured :: "env \<Rightarrow> bool" where
  "stripe_configured env \<longleftrightarrow> truthy (env ''STRIPE_SECRET_KEY'')"

definition not_configured :: billing_error where
  "not_configured = Billing_Error ''Stripe billing is not configured''"

definition status_ok :: "int \<Rightarrow> bool" where
  "status_ok n \<longleftrightarrow> 200 \<le> n \<and> n \<le> 299"

definition allowed_prices :: "env \<Rightarrow> string list" where
  "allowed_prices env =
     map the (filter truthy (map env [''STRIPE_PRICE_HOSTED_PRO'', ''STRIPE_PRICE_HOSTED_TEAM'',
       ''STRIPE_PRICE_HOSTED_PRO_YEARLY'', ''STRIPE_PRICE_HOSTED_TEAM_YEARLY'']))"

definition price_for :: "env \<Rightarrow> string \<Rightarrow> billing_error + string" where
  "price_for env price =
     (if price \<in> set (allowed_prices env) then Inr price else Inl (Billing_Error ''unknown hosted plan''))"

definition validate_billing_redirect :: "env \<Rightarrow> url_parser \<Rightarrow> string \<Rightarrow> billing_error + string" where
  "validate_billing_redirect env parse v =
     (case parse v of
        None \<Rightarrow> Inl (Billing_Error ''billing redirect URL is invalid'')
      | Some redirect \<Rightarrow>
          if url_protocol redirect \<noteq> ''https:'' \<and> \<not> is_local_http redirect
          then Inl (Billing_Error ''billing redirect URL must use HTTPS'')
          else
            (case (if env_is env ''MANAGED_HOSTING'' ''true''
                   then map_sum (\<lambda>_. Billing_Error ''Billing is unavailable: APP_URL is not configured on this server'')
                          Some (get_app_url parse env)
                   else Inr (app_url_value env)) of
               Inl e \<Rightarrow> Inl e
             | Inr configured \<Rightarrow>
                 if \<not> truthy configured then Inr (url_href redirect)
                 else (case parse (the configured) of
                     None \<Rightarrow> Inl (Billing_Error ''APP_URL is invalid'')
                   | Some app \<Rightarrow>
                       if url_origin redirect \<noteq> url_origin app
                       then Inl (Billing_Error ''billing redirect URL must use the configured APP_URL origin'')
                       else Inr (url_href redirect))))"

text \<open>The message of an error body, \<open>String(body.error.message)\<close>.\<close>

definition stripe_message :: "(json \<Rightarrow> string) \<Rightarrow> json \<Rightarrow> string" where
  "stripe_message show body =
     (case json_get ''message'' (json_get ''error'' (Some body)) of
        Some (JString s) \<Rightarrow> s
      | Some v \<Rightarrow> show v
      | None \<Rightarrow> ''Stripe request failed'')"

fun post_attempts ::
  "billing_world \<Rightarrow> string \<Rightarrow> (string \<times> string) list \<Rightarrow> string option \<Rightarrow> nat \<Rightarrow> nat \<Rightarrow> billing_error + json" where
  "post_attempts w path form key attempt left =
     (if \<not> stripe_configured (bw_env w) then Inl not_configured
      else case bw_stripe w ''POST'' path form key attempt of
          Stripe_Silent \<Rightarrow>
            (case left of
               Suc n \<Rightarrow> post_attempts w path form key (attempt + 1) n
             | 0 \<Rightarrow> Inl (Billing_Error ''Stripe did not respond. Try again in a moment.''))
        | Stripe_Reply status members \<Rightarrow>
            if 500 \<le> status then
              (case left of
                 Suc n \<Rightarrow> post_attempts w path form key (attempt + 1) n
               | 0 \<Rightarrow> Inl (Billing_Error ''Billing is temporarily unavailable. Try again in a moment.''))
            else if \<not> status_ok status then
              (if status = 401 \<or> status = 403
               then Inl (Billing_Error ''Billing is temporarily unavailable. Try again in a moment.'')
               else Inl (Billing_Error (stripe_message (bw_show w) (JObject members))))
            else Inr (JObject members))"

declare post_attempts.simps [simp del]

definition stripe_post ::
  "billing_world \<Rightarrow> string \<Rightarrow> (string \<times> string) list \<Rightarrow> string option \<Rightarrow> billing_error + json" where
  "stripe_post w path form key = post_attempts w path form key 1 (if truthy key then 1 else 0)"

subsection \<open>Checkout\<close>

definition checkout_pending_ms :: millis where
  "checkout_pending_ms = 60 * 60 * 1000"

definition portal_required :: billing_error where
  "portal_required = Portal_Required_Error
     ''This workspace already has a subscription. Use Manage billing to change or cancel your plan.''"

definition claimable_slot :: "ident \<Rightarrow> millis \<Rightarrow> subscription \<Rightarrow> bool" where
  "claimable_slot ws now s \<longleftrightarrow>
     sub_workspace s = ws \<and>
     (sub_stripe_id s = None \<or> sub_plan s = ''hosted_trial'' \<or> sub_status s \<notin> set live_statuses) \<and>
     (case sub_checkout_claimed s of None \<Rightarrow> True | Some t \<Rightarrow> t < now - checkout_pending_ms)"

text \<open>The conditional claim and the answer when it hits no row.\<close>

definition claim_existing_slot :: "millis \<Rightarrow> ident \<Rightarrow> billing_db \<Rightarrow> (billing_error + unit) \<times> billing_db" where
  "claim_existing_slot now ws db =
     (let db1 = db\<lparr>bl_subs := update_rows (claimable_slot ws now)
            (\<lambda>s. s\<lparr>sub_checkout_claimed := Some now\<rparr>) (bl_subs db)\<rparr> in
      if count_rows (claimable_slot ws now) (bl_subs db) = 1 then (Inr (), db1)
      else
        let blocked = sub_of ws db1 in
        (Inl (if has_live_subscription blocked then portal_required
              else Checkout_In_Progress
                ''A checkout session was just started for this workspace. Complete it or try again in a few minutes.''
                (Option.bind blocked sub_checkout_session)), db1))"

text \<open>\<open>other\<close> is what is committed between the read and the write.\<close>

definition claim_checkout_slot ::
  "millis \<Rightarrow> (billing_db \<Rightarrow> billing_db) \<Rightarrow> ident \<Rightarrow> billing_db \<Rightarrow> (billing_error + unit) \<times> billing_db" where
  "claim_checkout_slot now other ws db =
     (if has_live_subscription (sub_of ws db) then (Inl portal_required, db)
      else
        let db1 = other db in
        if sub_of ws db = None \<and> sub_of ws db1 = None then
          (if ws \<notin> set (bl_workspaces db1) then (Inl (database_error ''P2003''), db1)
           else (Inr (), db1\<lparr>bl_subs := bl_subs db1 @ [(default_subscription ws)\<lparr>sub_checkout_claimed := Some now\<rparr>]\<rparr>))
        else claim_existing_slot now ws db1)"

definition release_checkout :: "ident \<Rightarrow> billing_db \<Rightarrow> billing_db" where
  "release_checkout ws db =
     db\<lparr>bl_subs := update_rows (\<lambda>s. sub_workspace s = ws)
       (\<lambda>s. s\<lparr>sub_checkout_claimed := None, sub_checkout_session := None\<rparr>) (bl_subs db)\<rparr>"

definition supersede_open_checkout ::
  "billing_world \<Rightarrow> ident \<Rightarrow> ident option \<Rightarrow> billing_db \<Rightarrow> (billing_error + bool) \<times> billing_db" where
  "supersede_open_checkout w ws session db =
     (if \<not> truthy session then (Inr False, db)
      else if \<not> stripe_configured (bw_env w) then (Inl not_configured, db)
      else
        let path = ''checkout/sessions/'' @ encode_uri_component (the session) in
        case bw_stripe w ''GET'' path [] None 1 of
          Stripe_Silent \<Rightarrow> (Inr False, db)
        | Stripe_Reply code members \<Rightarrow>
            if \<not> status_ok code then (Inr False, db)
            else
              let status = json_get ''status'' (Some (JObject members)) in
              if status = Some (JString ''open'') then
                (case bw_stripe w ''POST'' (path @ ''/expire'') [] None 1 of
                   Stripe_Reply n _ \<Rightarrow> if status_ok n then (Inr True, release_checkout ws db) else (Inr False, db)
                 | Stripe_Silent \<Rightarrow> (Inr False, db))
              else if status = Some (JString ''complete'') then (Inr False, db)
              else (Inr True, release_checkout ws db))"

text \<open>
  Claiming, with one attempt to supersede an open session. Others go on while Stripe is asked
  about that session.
\<close>

definition claim_or_supersede :: "billing_world \<Rightarrow> ident \<Rightarrow> billing_db \<Rightarrow> (billing_error + unit) \<times> billing_db" where
  "claim_or_supersede w ws db =
     (case claim_checkout_slot (bw_clock w 0) (bw_other w 0) ws db of
        (Inl (Checkout_In_Progress m session), db1) \<Rightarrow>
          (case supersede_open_checkout w ws session (bw_other w 1 db1) of
             (Inl e, db2) \<Rightarrow> (Inl e, db2)
           | (Inr False, db2) \<Rightarrow> (Inl (Checkout_In_Progress m session), db2)
           | (Inr True, db2) \<Rightarrow> claim_checkout_slot (bw_clock w 1) (bw_other w 2) ws db2)
      | r \<Rightarrow> r)"

definition checkout_form ::
  "ident \<Rightarrow> string \<Rightarrow> string \<Rightarrow> string \<Rightarrow> string \<Rightarrow> subscription option \<Rightarrow> (string \<times> string) list" where
  "checkout_form ws email price success cancel sub =
     [(''mode'', ''subscription''), (''line_items[0][price]'', price), (''line_items[0][quantity]'', ''1''),
      (''success_url'', success), (''cancel_url'', cancel), (''allow_promotion_codes'', ''true''),
      (''metadata[workspaceId]'', ws), (''subscription_data[metadata][workspaceId]'', ws),
      (case Option.bind sub sub_customer of
         Some c \<Rightarrow> if c \<noteq> [] then (''customer'', c) else (''customer_email'', email)
       | None \<Rightarrow> (''customer_email'', email))]"

definition open_session ::
  "billing_world \<Rightarrow> ident \<Rightarrow> string \<Rightarrow> string \<Rightarrow> string \<Rightarrow> string \<Rightarrow> billing_db \<Rightarrow> (billing_error + string) \<times> billing_db" where
  "open_session w ws email price success cancel db =
     (let sub = sub_of ws db;
          claimed_at = (case Option.bind sub sub_checkout_claimed of Some t \<Rightarrow> t | None \<Rightarrow> bw_clock w 2)
      in case stripe_post w ''checkout/sessions'' (checkout_form ws email price success cancel sub)
                (Some (''checkout:'' @ ws @ '':'' @ int_str claimed_at)) of
           Inl e \<Rightarrow> (Inl e, release_checkout ws db)
         | Inr body \<Rightarrow>
             (case json_string (json_get ''url'' (Some body)) of
                None \<Rightarrow> (Inl (Billing_Error ''Stripe returned no checkout URL''), release_checkout ws db)
              | Some u \<Rightarrow>
                  (Inr u,
                   case json_string (json_get ''id'' (Some body)) of
                     None \<Rightarrow> db
                   | Some sid \<Rightarrow> db\<lparr>bl_subs := update_rows (\<lambda>s. sub_workspace s = ws)
                       (\<lambda>s. s\<lparr>sub_checkout_session := Some sid\<rparr>) (bl_subs db)\<rparr>)))"

definition create_checkout_session ::
  "billing_world \<Rightarrow> ident \<Rightarrow> string \<Rightarrow> string \<Rightarrow> string \<Rightarrow> string \<Rightarrow> billing_db \<Rightarrow> (billing_error + string) \<times> billing_db" where
  "create_checkout_session w ws email price success_url cancel_url db =
     (case price_for (bw_env w) price of Inl e \<Rightarrow> (Inl e, db) | Inr p \<Rightarrow>
     (case validate_billing_redirect (bw_env w) (bw_parse w) success_url of Inl e \<Rightarrow> (Inl e, db) | Inr success \<Rightarrow>
     (case validate_billing_redirect (bw_env w) (bw_parse w) cancel_url of Inl e \<Rightarrow> (Inl e, db) | Inr cancel \<Rightarrow>
     (case claim_or_supersede w ws db of
        (Inl e, db1) \<Rightarrow> (Inl e, db1)
      | (Inr (), db1) \<Rightarrow> open_session w ws email p success cancel (bw_other w 3 db1)))))"

subsection \<open>Cancellation and the portal\<close>

definition cancel_stripe_subscription_now :: "billing_world \<Rightarrow> string \<Rightarrow> billing_error option" where
  "cancel_stripe_subscription_now w sid =
     (if \<not> stripe_configured (bw_env w) then Some not_configured
      else case bw_stripe w ''DELETE'' (''subscriptions/'' @ encode_uri_component sid) [] None 1 of
          Stripe_Silent \<Rightarrow> Some (Billing_Error ''Stripe could not be reached to cancel the subscription'')
        | Stripe_Reply status members \<Rightarrow>
            if status_ok status \<or> status = 404 then None
            else
              let err = json_get ''error'' (Some (JObject members)) in
              if json_get ''code'' err = Some (JString ''resource_missing'') then None
              else Some (Billing_Error (case json_get ''message'' err of
                   None \<Rightarrow> ''Stripe could not cancel the subscription''
                 | Some v \<Rightarrow>
                     if v \<in> {JString [], JNull, JBool False, JNumber (JsNum 0), JNumber JsNaN}
                     then ''Stripe could not cancel the subscription''
                     else ''Stripe: '' @ (case v of JString m \<Rightarrow> m | _ \<Rightarrow> bw_show w v))))"

definition cancel_workspace_subscription :: "billing_world \<Rightarrow> ident \<Rightarrow> billing_db \<Rightarrow> billing_error option" where
  "cancel_workspace_subscription w ws db =
     (let sub = sub_of ws db in
      if (case Option.bind sub sub_checkout_claimed of Some t \<Rightarrow> bw_clock w 0 - checkout_pending_ms < t | None \<Rightarrow> False)
      then Some (Billing_Error ''A checkout is in progress for this workspace. Finish or abandon it, wait an hour, then delete the workspace.'')
      else case sub of
          None \<Rightarrow> None
        | Some s \<Rightarrow>
            if \<not> truthy (sub_stripe_id s) \<or> sub_status s \<in> set terminal_statuses then None
            else cancel_stripe_subscription_now w (the (sub_stripe_id s)))"

definition create_portal_session :: "billing_world \<Rightarrow> ident \<Rightarrow> string \<Rightarrow> billing_db \<Rightarrow> billing_error + string" where
  "create_portal_session w ws return_url db =
     (case Option.bind (sub_of ws db) sub_customer of
        None \<Rightarrow> Inl (Billing_Error ''No Stripe customer exists for this workspace'')
      | Some customer \<Rightarrow>
          if customer = [] then Inl (Billing_Error ''No Stripe customer exists for this workspace'')
          else (case validate_billing_redirect (bw_env w) (bw_parse w) return_url of
              Inl e \<Rightarrow> Inl e
            | Inr u \<Rightarrow>
                (case stripe_post w ''billing_portal/sessions'' [(''customer'', customer), (''return_url'', u)] None of
                   Inl e \<Rightarrow> Inl e
                 | Inr body \<Rightarrow>
                     (case json_string (json_get ''url'' (Some body)) of
                        None \<Rightarrow> Inl (Billing_Error ''Stripe returned no portal URL'')
                      | Some url \<Rightarrow> Inr url))))"

subsection \<open>The billing page\<close>

definition price_id_for :: "env \<Rightarrow> string \<Rightarrow> bool \<Rightarrow> string option" where
  "price_id_for env plan yearly =
     (let v = (if plan = ''hosted_pro''
         then env (if yearly then ''STRIPE_PRICE_HOSTED_PRO_YEARLY'' else ''STRIPE_PRICE_HOSTED_PRO'')
         else env (if yearly then ''STRIPE_PRICE_HOSTED_TEAM_YEARLY'' else ''STRIPE_PRICE_HOSTED_TEAM''))
      in if truthy v then v else None)"

datatype billing_reply = Billing_Message string | Billing_Redirect string

text \<open>\<open>Inl\<close> of the first kind is a \<open>DeploymentConfigError\<close>.\<close>

definition billing_failure :: "string + billing_error \<Rightarrow> string" where
  "billing_failure e =
     (case e of
        Inl _ \<Rightarrow> ''Billing is unavailable: this server is missing its public URL configuration.''
      | Inr (Billing_Error m) \<Rightarrow> m
      | Inr (Portal_Required_Error m) \<Rightarrow> m
      | Inr (Checkout_In_Progress m _) \<Rightarrow> m
      | Inr (Billing_Thrown _) \<Rightarrow> ''Something went wrong talking to the billing provider. Please try again in a moment.'')"

definition portal_url_for :: "billing_world \<Rightarrow> ident \<Rightarrow> billing_db \<Rightarrow> billing_reply" where
  "portal_url_for w ws db =
     (case get_app_url (bw_parse w) (bw_env w) of
        Inl e \<Rightarrow> Billing_Message (billing_failure (Inl e))
      | Inr app \<Rightarrow>
          (case create_portal_session w ws (app @ ''/billing'') db of
             Inl e \<Rightarrow> Billing_Message (billing_failure (Inr e)) | Inr u \<Rightarrow> Billing_Redirect u))"

text \<open>\<open>email\<close> is the address of the session's user, none when the account is gone.\<close>

definition start_checkout ::
  "billing_world \<Rightarrow> ident \<Rightarrow> bool \<Rightarrow> string option \<Rightarrow> string \<Rightarrow> string \<Rightarrow> billing_db \<Rightarrow> billing_reply \<times> billing_db" where
  "start_checkout w ws is_owner email plan interval db =
     (if \<not> env_is (bw_env w) ''MANAGED_HOSTING'' ''true''
      then (Billing_Message ''Billing is not available on this deployment.'', db)
      else if \<not> is_owner then (Billing_Message ''Only the workspace owner can manage billing.'', db)
      else
        let price = (if plan = ''hosted_pro'' \<or> plan = ''hosted_team''
              then price_id_for (bw_env w) plan (interval = ''year'') else None)
        in case (price, email, get_app_url (bw_parse w) (bw_env w)) of
             (None, _, _) \<Rightarrow> (Billing_Message ''Hosted billing is not configured on this server yet.'', db)
           | (_, None, _) \<Rightarrow> (Billing_Message ''Your session is no longer valid. Please sign in again.'', db)
           | (_, _, Inl e) \<Rightarrow> (Billing_Message (billing_failure (Inl e)), db)
           | (Some p, Some address, Inr app) \<Rightarrow>
               (case create_checkout_session w ws address p (app @ ''/billing?checkout=success'')
                       (app @ ''/billing?checkout=cancelled'') db of
                  (Inr u, db1) \<Rightarrow> (Billing_Redirect u, db1)
                | (Inl (Portal_Required_Error _), db1) \<Rightarrow> (portal_url_for w ws db1, db1)
                | (Inl e, db1) \<Rightarrow> (Billing_Message (billing_failure (Inr e)), db1)))"

definition open_billing_portal :: "billing_world \<Rightarrow> ident \<Rightarrow> bool \<Rightarrow> billing_db \<Rightarrow> billing_reply" where
  "open_billing_portal w ws is_owner db =
     (if \<not> env_is (bw_env w) ''MANAGED_HOSTING'' ''true''
      then Billing_Message ''Billing is not available on this deployment.''
      else if \<not> is_owner then Billing_Message ''Only the workspace owner can manage billing.''
      else portal_url_for w ws db)"

end
