(* ===== verification/Billing_Events.thy ===== *)
theory Billing_Events
  imports Billing
begin

text \<open>
  Webhook events of Stripe (\<open>applyStripeEvent\<close> and \<open>verifyStripeSignature\<close> of
  \<open>webapp/src/lib/billing.ts\<close>). An event is the parsed JSON of the request. What other
  transactions commit before the workspace's advisory lock is granted is an argument.
\<close>

subsection \<open>The signature\<close>

fun hex_bytes :: "string \<Rightarrow> 8 word list" where
  "hex_bytes (a # b # cs) =
     (case (digit_in 16 a, digit_in 16 b) of
        (Some x, Some y) \<Rightarrow> of_nat (16 * x + y) # hex_bytes cs
      | _ \<Rightarrow> [])"
| "hex_bytes _ = []"

text \<open>\<open>part.split("=", 2)\<close>: what follows a second \<open>=\<close> is dropped.\<close>

definition signature_part :: "string \<Rightarrow> string \<times> string option" where
  "signature_part part =
     (case split_on (CHR ''='') part of
        k # v # _ \<Rightarrow> (k, Some v) | [k] \<Rightarrow> (k, None) | [] \<Rightarrow> ([], None))"

definition signature_candidates :: "string \<Rightarrow> string list" where
  "signature_candidates signature =
     map (\<lambda>p. the (snd p)) (filter (\<lambda>(k, v). k = ''v1'' \<and> truthy v) (map signature_part (split_on (CHR '','') signature)))"

definition signature_timestamp :: "string \<Rightarrow> string option" where
  "signature_timestamp signature =
     Option.bind (find_row (\<lambda>(k, v). k = ''t'') (map signature_part (split_on (CHR '','') signature))) snd"

definition verify_stripe_signature ::
  "(string \<Rightarrow> string \<Rightarrow> 8 word list) \<Rightarrow> env \<Rightarrow> millis \<Rightarrow> string \<Rightarrow> string option \<Rightarrow> bool" where
  "verify_stripe_signature hmac env now payload signature =
     (let secret = env ''STRIPE_WEBHOOK_SECRET'' in
      if \<not> truthy secret \<or> \<not> truthy signature then False
      else
        let timestamp = signature_timestamp (the signature);
            candidates = signature_candidates (the signature)
        in if \<not> truthy timestamp \<or> candidates = [] then False
           else (case number_of_text (the timestamp) of
               JsNum q \<Rightarrow>
                 is_safe_integer (JsNum q) \<and> \<bar>of_int now / 1000 - q\<bar> \<le> 300 \<and>
                 list_ex (\<lambda>c. hex_bytes c = hmac (the secret) (the timestamp @ ''.'' @ payload)) candidates
             | _ \<Rightarrow> False))"

subsection \<open>Reading an event\<close>

definition subscription_events :: "string list" where
  "subscription_events = map (\<lambda>t. ''customer.subscription.'' @ t)
     [''created'', ''updated'', ''deleted'', ''paused'', ''resumed'']"

definition as_string :: "json option \<Rightarrow> string option" where
  "as_string v = (case v of Some (JString s) \<Rightarrow> if s \<noteq> [] then Some s else None | _ \<Rightarrow> None)"

definition as_seconds :: "json option \<Rightarrow> millis option" where
  "as_seconds v =
     (case v of
        Some (JNumber (JsNum q)) \<Rightarrow> if is_safe_integer (JsNum q) \<and> 0 < q then Some (\<lfloor>q\<rfloor> * 1000) else None
      | _ \<Rightarrow> None)"

definition invoice_subscription_id :: "json \<Rightarrow> string option" where
  "invoice_subscription_id object =
     (case as_string (json_get ''subscription'' (Some object)) of
        Some s \<Rightarrow> Some s
      | None \<Rightarrow> as_string (json_get ''subscription''
          (json_get ''subscription_details'' (json_get ''parent'' (Some object)))))"

definition first_item :: "json \<Rightarrow> json option" where
  "first_item object =
     (case json_get ''data'' (json_get ''items'' (Some object)) of
        Some (JArray (x # _)) \<Rightarrow> if is_json_object (Some x) then Some x else None
      | _ \<Rightarrow> None)"

definition price_id_of :: "json \<Rightarrow> string option" where
  "price_id_of object = as_string (json_get ''id'' (json_get ''price'' (first_item object)))"

definition or_else :: "'a option \<Rightarrow> 'a option \<Rightarrow> 'a option" where
  "or_else a b = (case a of None \<Rightarrow> b | Some x \<Rightarrow> Some x)"

definition period_of :: "json \<Rightarrow> millis option \<times> millis option" where
  "period_of object =
     (or_else (as_seconds (json_get ''current_period_start'' (Some object)))
        (as_seconds (json_get ''current_period_start'' (first_item object))),
      or_else (as_seconds (json_get ''current_period_end'' (Some object)))
        (as_seconds (json_get ''current_period_end'' (first_item object))))"

definition cancels_at_of :: "json \<Rightarrow> millis option \<Rightarrow> millis option" where
  "cancels_at_of object period_end =
     (case as_seconds (json_get ''cancel_at'' (Some object)) of
        Some t \<Rightarrow> Some t
      | None \<Rightarrow> if json_get ''cancel_at_period_end'' (Some object) = Some (JBool True) then period_end else None)"

definition plan_for_price :: "env \<Rightarrow> string option \<Rightarrow> string option" where
  "plan_for_price env price =
     (if price = None then None
      else if price = env ''STRIPE_PRICE_HOSTED_TEAM'' \<or> price = env ''STRIPE_PRICE_HOSTED_TEAM_YEARLY''
      then Some ''hosted_team''
      else if price = env ''STRIPE_PRICE_HOSTED_PRO'' \<or> price = env ''STRIPE_PRICE_HOSTED_PRO_YEARLY''
      then Some ''hosted_pro''
      else None)"

record stripe_event =
  ev_id :: string
  ev_type :: string
  ev_created :: "int option"
  ev_object :: json

definition event_created :: "json option \<Rightarrow> int option" where
  "event_created v =
     (case v of
        Some (JNumber (JsNum q)) \<Rightarrow> if is_safe_integer (JsNum q) \<and> 0 \<le> q then Some \<lfloor>q\<rfloor> else None
      | _ \<Rightarrow> None)"

definition read_event :: "json \<Rightarrow> billing_error + stripe_event" where
  "read_event event =
     (if \<not> is_json_object (Some event) then Inl (Billing_Error ''invalid Stripe event'')
      else case (json_string (json_get ''id'' (Some event)), json_string (json_get ''type'' (Some event))) of
          (Some i, Some t) \<Rightarrow>
            Inr \<lparr>ev_id = i, ev_type = t, ev_created = event_created (json_get ''created'' (Some event)),
              ev_object = the (json_or (json_get ''object'' (json_get ''data'' (Some event))) (Some (JObject [])))\<rparr>
        | _ \<Rightarrow> Inl (Billing_Error ''invalid Stripe event envelope''))"

definition is_subscription_event :: "stripe_event \<Rightarrow> bool" where
  "is_subscription_event ev \<longleftrightarrow> ev_type ev \<in> set subscription_events"

definition is_payment_failure :: "stripe_event \<Rightarrow> bool" where
  "is_payment_failure ev \<longleftrightarrow> ev_type ev = ''invoice.payment_failed''"

definition is_checkout_completion :: "stripe_event \<Rightarrow> bool" where
  "is_checkout_completion ev \<longleftrightarrow> ev_type ev = ''checkout.session.completed''"

definition event_customer :: "stripe_event \<Rightarrow> string option" where
  "event_customer ev = as_string (json_get ''customer'' (Some (ev_object ev)))"

definition event_subscription :: "stripe_event \<Rightarrow> string option" where
  "event_subscription ev =
     (if is_subscription_event ev then as_string (json_get ''id'' (Some (ev_object ev)))
      else if is_checkout_completion ev then as_string (json_get ''subscription'' (Some (ev_object ev)))
      else invoice_subscription_id (ev_object ev))"

definition event_workspace :: "stripe_event \<Rightarrow> string option" where
  "event_workspace ev = as_string (json_get ''workspaceId'' (json_get ''metadata'' (Some (ev_object ev))))"

subsection \<open>The new row\<close>

definition set_if :: "'a option \<Rightarrow> ('a \<Rightarrow> 'r \<Rightarrow> 'r) \<Rightarrow> 'r \<Rightarrow> 'r" where
  "set_if v f r = (case v of None \<Rightarrow> r | Some x \<Rightarrow> f x r)"

definition set_customer :: "string option \<Rightarrow> subscription \<Rightarrow> subscription" where
  "set_customer c = set_if c (\<lambda>x s. s\<lparr>sub_customer := Some x\<rparr>)"

definition set_last_event :: "int option \<Rightarrow> subscription \<Rightarrow> subscription" where
  "set_last_event t = set_if t (\<lambda>x s. s\<lparr>sub_last_event := Some x\<rparr>)"

definition grace_from :: "millis \<Rightarrow> subscription option \<Rightarrow> millis option" where
  "grace_from now current =
     (case current of
        Some s \<Rightarrow> if sub_status s = ''past_due'' \<and> sub_grace_ends s \<noteq> None then sub_grace_ends s
                  else Some (now + payment_grace_ms)
      | None \<Rightarrow> Some (now + payment_grace_ms))"

definition is_stale_event :: "stripe_event \<Rightarrow> subscription option \<Rightarrow> bool" where
  "is_stale_event ev current =
     (case (ev_created ev, Option.bind current sub_last_event) of
        (Some t, Some l) \<Rightarrow> t < l | _ \<Rightarrow> False)"

text \<open>\<open>None\<close>: the event is recorded and nothing else is written.\<close>

definition payment_failure_change ::
  "millis \<Rightarrow> stripe_event \<Rightarrow> subscription option \<Rightarrow> (subscription \<Rightarrow> subscription) option" where
  "payment_failure_change now ev current =
     (case current of
        None \<Rightarrow> None
      | Some s \<Rightarrow>
          if \<not> truthy (sub_stripe_id s) \<or> sub_status s \<notin> {''active'', ''trialing'', ''past_due''} then None
          else if event_subscription ev \<noteq> None \<and> event_subscription ev \<noteq> sub_stripe_id s then None
          else Some (\<lambda>s. set_last_event (ev_created ev)
                 (s\<lparr>sub_status := ''past_due'', sub_grace_ends := grace_from now current\<rparr>)))"

definition reported_status :: "stripe_event \<Rightarrow> string option" where
  "reported_status ev =
     (if ev_type ev = ''customer.subscription.deleted'' then Some ''canceled''
      else as_string (json_get ''status'' (Some (ev_object ev))))"

text \<open>The plan a live subscription is on; \<open>None\<close> when its price is not configured.\<close>

definition event_plan :: "env \<Rightarrow> stripe_event \<Rightarrow> subscription option \<Rightarrow> string option" where
  "event_plan env ev current =
     (case plan_for_price env (price_id_of (ev_object ev)) of
        Some p \<Rightarrow> Some p
      | None \<Rightarrow>
          (case current of
             Some s \<Rightarrow> if sub_plan s \<in> {''hosted_pro'', ''hosted_team''} \<and> event_subscription ev \<noteq> None \<and>
                            sub_stripe_id s = event_subscription ev
                       then Some (sub_plan s) else None
           | None \<Rightarrow> None))"

text \<open>An event of the second of a cancellation must not revive the subscription.\<close>

definition ties_with_cancellation :: "stripe_event \<Rightarrow> subscription option \<Rightarrow> bool" where
  "ties_with_cancellation ev current \<longleftrightarrow>
     (case current of None \<Rightarrow> False
      | Some s \<Rightarrow> ev_created ev \<noteq> None \<and> ev_created ev = sub_last_event s \<and>
          sub_status s \<in> set terminal_statuses \<and>
          event_subscription ev \<noteq> None \<and> event_subscription ev = sub_stripe_id s)"

definition status_row :: "millis \<Rightarrow> stripe_event \<Rightarrow> string \<Rightarrow> string \<Rightarrow> subscription option \<Rightarrow> subscription \<Rightarrow> subscription" where
  "status_row now ev status plan current s =
     (let (start, stop) = period_of (ev_object ev) in
      set_last_event (ev_created ev)
        ((set_if stop (\<lambda>x s. s\<lparr>sub_period_end := Some x\<rparr>)
          (set_if start (\<lambda>x s. s\<lparr>sub_period_start := Some x\<rparr>)
            (set_if (event_subscription ev) (\<lambda>x s. s\<lparr>sub_stripe_id := Some x\<rparr>)
              (set_customer (event_customer ev) s))))
         \<lparr>sub_plan := plan, sub_status := status,
          sub_grace_ends := (if status = ''past_due'' then grace_from now current else None),
          sub_cancels_at := (if status \<in> set live_statuses then cancels_at_of (ev_object ev) stop else None),
          sub_checkout_claimed := None, sub_checkout_session := None\<rparr>))"

definition subscription_change ::
  "env \<Rightarrow> millis \<Rightarrow> stripe_event \<Rightarrow> subscription option \<Rightarrow> (subscription \<Rightarrow> subscription) option" where
  "subscription_change env now ev current =
     (if (case current of None \<Rightarrow> False
          | Some s \<Rightarrow> truthy (sub_stripe_id s) \<and> event_subscription ev \<noteq> None \<and>
              sub_stripe_id s \<noteq> event_subscription ev \<and> sub_status s \<notin> set terminal_statuses)
      then None
      else case reported_status ev of
          None \<Rightarrow> None
        | Some status \<Rightarrow>
            if status \<notin> set known_statuses then None
            else if status = ''incomplete'' then Some (set_customer (event_customer ev))
            else if status \<in> set live_statuses then
              (case event_plan env ev current of
                 None \<Rightarrow> None
               | Some plan \<Rightarrow>
                   if ties_with_cancellation ev current then None
                   else Some (status_row now ev status plan current))
            else Some (status_row now ev status ''local'' current))"

definition event_change ::
  "env \<Rightarrow> millis \<Rightarrow> stripe_event \<Rightarrow> subscription option \<Rightarrow> (subscription \<Rightarrow> subscription) option" where
  "event_change env now ev current =
     (if is_checkout_completion ev then Some (set_customer (event_customer ev))
      else if is_stale_event ev current then None
      else if is_payment_failure ev then payment_failure_change now ev current
      else subscription_change env now ev current)"

subsection \<open>The transaction\<close>

definition bound_workspace :: "stripe_event \<Rightarrow> billing_db \<Rightarrow> ident option" where
  "bound_workspace ev db =
     (let by_customer = (case event_customer ev of None \<Rightarrow> None
            | Some c \<Rightarrow> find_row (\<lambda>s. sub_customer s = Some c) (bl_subs db));
          by_subscription = (case (by_customer, event_subscription ev) of
              (None, Some i) \<Rightarrow> find_row (\<lambda>s. sub_stripe_id s = Some i) (bl_subs db) | _ \<Rightarrow> None)
      in map_option sub_workspace (or_else by_customer by_subscription))"

definition taken_elsewhere :: "(subscription \<Rightarrow> ident option) \<Rightarrow> ident option \<Rightarrow> ident \<Rightarrow> billing_db \<Rightarrow> bool" where
  "taken_elsewhere key v ws db \<longleftrightarrow>
     v \<noteq> None \<and> list_ex (\<lambda>s. key s = v \<and> sub_workspace s \<noteq> ws) (bl_subs db)"

definition upsert_sub :: "ident \<Rightarrow> (subscription \<Rightarrow> subscription) \<Rightarrow> subscription list \<Rightarrow> subscription list" where
  "upsert_sub ws f rows =
     (if list_ex (\<lambda>s. sub_workspace s = ws) rows then update_rows (\<lambda>s. sub_workspace s = ws) f rows
      else rows @ [f (default_subscription ws)])"

definition forget_event :: "string \<Rightarrow> billing_db \<Rightarrow> billing_db" where
  "forget_event eid db = db\<lparr>bl_events := delete_rows (\<lambda>e. be_id e = eid) (bl_events db)\<rparr>"

text \<open>The part under the workspace's lock. A failed write rolls the event row back.\<close>

definition change_locked ::
  "env \<Rightarrow> millis \<Rightarrow> stripe_event \<Rightarrow> ident option \<Rightarrow> ident \<Rightarrow> billing_db \<Rightarrow> (billing_error + unit) \<times> billing_db" where
  "change_locked env now ev bound ws db =
     (let current = sub_of ws db in
      if ws \<notin> set (bl_workspaces db) then (Inr (), db)
      else if bound = None \<and> taken_elsewhere sub_customer (event_customer ev) ws db then (Inr (), db)
      else if Option.bind current sub_stripe_id \<noteq> event_subscription ev \<and>
              taken_elsewhere sub_stripe_id (event_subscription ev) ws db then (Inr (), db)
      else case event_change env now ev current of
          None \<Rightarrow> (Inr (), db)
        | Some f \<Rightarrow>
            let rows = upsert_sub ws f (bl_subs db) in
            if subs_unique rows then (Inr (), db\<lparr>bl_subs := rows\<rparr>)
            else (Inl (database_error ''P2002''), forget_event (ev_id ev) db))"

definition max_int4 :: int where
  "max_int4 = 2147483647"

definition event_tx ::
  "env \<Rightarrow> millis \<Rightarrow> (billing_db \<Rightarrow> billing_db) \<Rightarrow> stripe_event \<Rightarrow> billing_db \<Rightarrow> (billing_error + unit) \<times> billing_db" where
  "event_tx env now other ev db =
     (if list_ex (\<lambda>e. be_id e = ev_id ev) (bl_events db) then (Inr (), db)
      else if (case ev_created ev of Some t \<Rightarrow> max_int4 < t | None \<Rightarrow> False)
      then (Inl (database_error ''P2020''), db)
      else
        let db1 = db\<lparr>bl_events := bl_events db @
              [\<lparr>be_id = ev_id ev, be_type = ev_type ev, be_created = ev_created ev\<rparr>]\<rparr> in
        if ev_type ev = ''checkout.session.expired'' then
          (Inr (), case as_string (json_get ''id'' (Some (ev_object ev))) of
             None \<Rightarrow> db1
           | Some sid \<Rightarrow> db1\<lparr>bl_subs := update_rows (\<lambda>s. sub_checkout_session s = Some sid)
               (\<lambda>s. s\<lparr>sub_checkout_claimed := None, sub_checkout_session := None\<rparr>) (bl_subs db1)\<rparr>)
        else if \<not> is_subscription_event ev \<and> \<not> is_payment_failure ev \<and> \<not> is_checkout_completion ev
        then (Inr (), db1)
        else if is_checkout_completion ev \<and> json_get ''mode'' (Some (ev_object ev)) \<noteq> Some (JString ''subscription'')
        then (Inr (), db1)
        else
          let bound = bound_workspace ev db1 in
          if bound \<noteq> None \<and> event_workspace ev \<noteq> None \<and> bound \<noteq> event_workspace ev then (Inr (), db1)
          else (case or_else bound (event_workspace ev) of
              None \<Rightarrow> (Inr (), db1)
            | Some ws \<Rightarrow> change_locked env now ev bound ws (other db1)))"

subsection \<open>Disputes and the webhook\<close>

definition end_subscription_for_dispute :: "billing_world \<Rightarrow> json \<Rightarrow> billing_db \<Rightarrow> billing_error option" where
  "end_subscription_for_dispute w dispute db =
     (case as_string (json_get ''charge'' (Some dispute)) of
        None \<Rightarrow> None
      | Some charge \<Rightarrow>
          if \<not> stripe_configured (bw_env w) then Some not_configured
          else (case bw_stripe w ''GET'' (''charges/'' @ encode_uri_component charge) [] None 1 of
              Stripe_Silent \<Rightarrow> Some (Billing_Error ''Stripe could not be reached to look up the disputed charge'')
            | Stripe_Reply status members \<Rightarrow>
                if \<not> status_ok status
                then Some (Billing_Error (''Stripe could not return the disputed charge ('' @ int_str status @ '')''))
                else (case as_string (json_get ''customer'' (Some (JObject members))) of
                    None \<Rightarrow> None
                  | Some customer \<Rightarrow>
                      (case find_row (\<lambda>s. sub_customer s = Some customer) (bl_subs db) of
                         None \<Rightarrow> None
                       | Some s \<Rightarrow>
                           if \<not> truthy (sub_stripe_id s) \<or> sub_status s \<in> set terminal_statuses then None
                           else cancel_stripe_subscription_now w (the (sub_stripe_id s))))))"

definition apply_stripe_event :: "billing_world \<Rightarrow> json \<Rightarrow> billing_db \<Rightarrow> (billing_error + unit) \<times> billing_db" where
  "apply_stripe_event w event db =
     (case read_event event of
        Inl e \<Rightarrow> (Inl e, db)
      | Inr ev \<Rightarrow>
          if ev_type ev = ''charge.dispute.created'' then
            (case end_subscription_for_dispute w (ev_object ev) db of
               Some e \<Rightarrow> (Inl e, db) | None \<Rightarrow> (Inr (), db))
          else event_tx (bw_env w) (bw_clock w 0) (bw_other w 0) ev db)"

text \<open>The body of the webhook route: a forged or malformed request changes nothing.\<close>

definition stripe_webhook ::
  "billing_world \<Rightarrow> (string \<Rightarrow> string \<Rightarrow> 8 word list) \<Rightarrow> string \<Rightarrow> string option \<Rightarrow> billing_db \<Rightarrow> int \<times> billing_db" where
  "stripe_webhook w hmac payload signature db =
     (if \<not> env_is (bw_env w) ''MANAGED_HOSTING'' ''true'' then (404, db)
      else if 1048576 < utf8_length payload then (413, db)
      else if \<not> verify_stripe_signature hmac (bw_env w) (bw_clock w 0) payload signature then (400, db)
      else case json_parse payload of
          None \<Rightarrow> (500, db)
        | Some event \<Rightarrow>
            (case apply_stripe_event w event db of
               (Inl _, db1) \<Rightarrow> (500, db1) | (Inr (), db1) \<Rightarrow> (200, db1)))"

end
