(* ===== verification/Billing_Tenants.thy ===== *)
theory Billing_Tenants
  imports Billing_Events
begin

text \<open>
  What a webhook event can touch: the row of one workspace, the one its customer or subscription
  already belongs to, and nothing that would clash with a unique column. Plan and status are
  written by subscription events only, a failed payment apart.
\<close>

subsection \<open>Unique columns\<close>

lemma present_append: "present key (xs @ ys) = present key xs @ present key ys"
  by (simp add: present_def map_filter_def)

lemma present_simps [simp]:
  "present key [] = []"
  "present key (r # rs) = (case key r of None \<Rightarrow> present key rs | Some k \<Rightarrow> k # present key rs)"
  by (simp_all add: present_def map_filter_def split: option.split)

lemma present_set: "k \<in> set (present key rows) \<longleftrightarrow> (\<exists>r \<in> set rows. key r = Some k)"
  by (force simp: present_def map_filter_def)

text \<open>A column stays unique when the changed row takes a value nobody else has.\<close>

lemma present_update:
  assumes "distinct (present key rows)" "unique_on sub_workspace rows"
    "\<And>s x. s \<in> set rows \<Longrightarrow> sub_workspace s = ws \<Longrightarrow> x \<in> set rows \<Longrightarrow> sub_workspace x \<noteq> ws \<Longrightarrow>
      key (f s) \<noteq> None \<Longrightarrow> key x \<noteq> key (f s)"
  shows "distinct (present key (update_rows (\<lambda>s. sub_workspace s = ws) f rows))"
  using assms
proof (induction rows)
  case (Cons r rows)
  have rest: "distinct (present key (update_rows (\<lambda>s. sub_workspace s = ws) f rows))"
    using Cons by (auto split: option.splits)
  show ?case
  proof (cases "sub_workspace r = ws")
    case True
    then have away: "\<And>s. s \<in> set rows \<Longrightarrow> sub_workspace s \<noteq> ws" using Cons.prems(2) by (auto simp: image_iff)
    then have idle: "update_rows (\<lambda>s. sub_workspace s = ws) f rows = rows" by (auto intro: update_rows_idle)
    have "k \<notin> set (present key rows)" if "key (f r) = Some k" for k
      using Cons.prems(3) [of r] True away that by (fastforce simp: present_set)
    with True rest idle show ?thesis by (simp split: option.splits)
  next
    case False
    have "k' \<notin> set (present key (update_rows (\<lambda>s. sub_workspace s = ws) f rows))" if "key r = Some k'" for k'
    proof -
      have "k' \<notin> set (present key rows)" using Cons.prems(1) that by simp
      moreover have "key (f s) \<noteq> Some k'" if "s \<in> set rows" "sub_workspace s = ws" for s
        using Cons.prems(3) [of s r] False that \<open>key r = Some k'\<close> by auto
      ultimately show ?thesis by (auto simp: present_set set_update_rows split: if_splits)
    qed
    with False rest show ?thesis by (simp split: option.splits)
  qed
qed simp

lemma subs_unique_upsert:
  assumes u: "subs_unique rows"
    and f: "\<And>s. sub_workspace (f s) = sub_workspace s"
    and c: "\<And>s x. s \<in> set rows \<or> s = default_subscription ws \<Longrightarrow> sub_workspace s = ws \<Longrightarrow> x \<in> set rows \<Longrightarrow>
      sub_workspace x \<noteq> ws \<Longrightarrow> sub_customer (f s) \<noteq> None \<Longrightarrow> sub_customer x \<noteq> sub_customer (f s)"
    and i: "\<And>s x. s \<in> set rows \<or> s = default_subscription ws \<Longrightarrow> sub_workspace s = ws \<Longrightarrow> x \<in> set rows \<Longrightarrow>
      sub_workspace x \<noteq> ws \<Longrightarrow> sub_stripe_id (f s) \<noteq> None \<Longrightarrow> sub_stripe_id x \<noteq> sub_stripe_id (f s)"
  shows "subs_unique (upsert_sub ws f rows)"
proof (cases "list_ex (\<lambda>s. sub_workspace s = ws) rows")
  case True
  then have rows: "upsert_sub ws f rows = update_rows (\<lambda>s. sub_workspace s = ws) f rows" by (simp add: upsert_sub_def)
  have u': "distinct (present sub_customer rows)" "distinct (present sub_stripe_id rows)" "unique_on sub_workspace rows"
    using u by (simp_all add: subs_unique_def)
  have "distinct (present sub_customer (update_rows (\<lambda>s. sub_workspace s = ws) f rows))"
    by (rule present_update [OF u'(1,3)]) (rule c, simp_all)
  moreover have "distinct (present sub_stripe_id (update_rows (\<lambda>s. sub_workspace s = ws) f rows))"
    by (rule present_update [OF u'(2,3)]) (rule i, simp_all)
  ultimately show ?thesis using u'(3) by (simp add: rows subs_unique_def unique_on_update f)
next
  case False
  then have rows: "upsert_sub ws f rows = rows @ [f (default_subscription ws)]" by (simp add: upsert_sub_def)
  have w: "sub_workspace (default_subscription ws) = ws" by (simp add: default_subscription_def)
  have away: "\<And>s. s \<in> set rows \<Longrightarrow> sub_workspace s \<noteq> ws" using False by (auto simp: list_ex_iff)
  have "k \<notin> set (present sub_customer rows)" if "sub_customer (f (default_subscription ws)) = Some k" for k
    using c [of "default_subscription ws"] that away w by (fastforce simp: present_set)
  moreover have "k \<notin> set (present sub_stripe_id rows)" if "sub_stripe_id (f (default_subscription ws)) = Some k" for k
    using i [of "default_subscription ws"] that away w by (fastforce simp: present_set)
  ultimately show ?thesis
    unfolding rows subs_unique_def
    using u [unfolded subs_unique_def] away
    by (auto simp: unique_on_append present_append f w split: option.splits)
qed

lemma sub_of_upsert:
  assumes "\<And>s. sub_workspace (f s) = sub_workspace s"
  shows "sub_of x (db\<lparr>bl_subs := upsert_sub ws f (bl_subs db)\<rparr>) =
    (if x = ws then Some (f (case sub_of ws db of Some s \<Rightarrow> s | None \<Rightarrow> default_subscription ws)) else sub_of x db)"
proof -
  have w: "sub_workspace (default_subscription ws) = ws" by (simp add: default_subscription_def)
  have up: "find_row (\<lambda>s. sub_workspace s = x) (update_rows (\<lambda>s. sub_workspace s = ws) f rs) =
      (if x = ws then map_option f (find_row (\<lambda>s. sub_workspace s = ws) rs) else find_row (\<lambda>s. sub_workspace s = x) rs)" for rs
    by (induction rs) (auto simp: assms)
  show ?thesis
  proof (cases "list_ex (\<lambda>s. sub_workspace s = ws) (bl_subs db)")
    case True
    then obtain s where "find_row (\<lambda>s. sub_workspace s = ws) (bl_subs db) = Some s"
      by (cases "find_row (\<lambda>s. sub_workspace s = ws) (bl_subs db)") (auto simp: find_row_None_iff list_ex_iff)
    with True show ?thesis by (simp add: sub_of_def upsert_sub_def up)
  next
    case False
    then have "find_row (\<lambda>s. sub_workspace s = ws) (bl_subs db) = None" by (auto simp: find_row_None_iff list_ex_iff)
    with False show ?thesis
      by (auto simp: sub_of_def upsert_sub_def find_row_append assms w split: option.splits)
  qed
qed


lemma present_distinctD:
  "distinct (present key rows) \<Longrightarrow> s \<in> set rows \<Longrightarrow> x \<in> set rows \<Longrightarrow> key s = Some k \<Longrightarrow> key x = Some k \<Longrightarrow> s = x"
  by (induction rows) (auto simp: present_set split: option.splits)

lemma present_other:
  assumes "distinct (present key rows)" "s \<in> set rows \<or> key s = None" "x \<in> set rows" "key s \<noteq> None" "x \<noteq> s"
  shows "key x \<noteq> key s"
  using assms present_distinctD [OF assms(1)] by (cases "key s") (simp_all, blast)

subsection \<open>The change an event makes\<close>

lemma set_if_keys:
  "(\<And>x s. key (f x s) = key s) \<Longrightarrow> key (set_if v f s) = key s"
  by (simp add: set_if_def split: option.split)

lemma set_last_event_keys [simp]:
  "sub_workspace (set_last_event t s) = sub_workspace s" "sub_customer (set_last_event t s) = sub_customer s"
  "sub_stripe_id (set_last_event t s) = sub_stripe_id s" "sub_plan (set_last_event t s) = sub_plan s"
  "sub_status (set_last_event t s) = sub_status s"
  by (simp_all add: set_last_event_def set_if_keys)

lemma set_customer_keys:
  "sub_workspace (set_customer c s) = sub_workspace s" "sub_customer (set_customer c s) = or_else c (sub_customer s)"
  "sub_stripe_id (set_customer c s) = sub_stripe_id s" "sub_plan (set_customer c s) = sub_plan s"
  "sub_status (set_customer c s) = sub_status s"
  by (simp_all add: set_customer_def set_if_def or_else_def split: option.split)

lemma status_row_keys:
  "sub_workspace (status_row now ev st plan current s) = sub_workspace s"
  "sub_customer (status_row now ev st plan current s) = or_else (event_customer ev) (sub_customer s)"
  "sub_stripe_id (status_row now ev st plan current s) = or_else (event_subscription ev) (sub_stripe_id s)"
proof -
  have stripe: "sub_stripe_id (set_if v (\<lambda>x s. s\<lparr>sub_stripe_id := Some x\<rparr>) r) = or_else v (sub_stripe_id r)" for v r
    by (simp add: set_if_def or_else_def split: option.split)
  show "sub_workspace (status_row now ev st plan current s) = sub_workspace s"
    "sub_customer (status_row now ev st plan current s) = or_else (event_customer ev) (sub_customer s)"
    "sub_stripe_id (status_row now ev st plan current s) = or_else (event_subscription ev) (sub_stripe_id s)"
    by (simp_all add: status_row_def case_prod_unfold set_if_keys set_customer_keys stripe Let_def)
qed

lemma event_change_cases:
  assumes "event_change env now ev current = Some f"
  shows "f = set_customer (event_customer ev) \<or>
    (\<exists>st plan. \<not> is_checkout_completion ev \<and> \<not> is_payment_failure ev \<and> f = status_row now ev st plan current) \<or>
    (\<exists>c. is_payment_failure ev \<and> current = Some c \<and> sub_status c \<in> {''active'', ''trialing'', ''past_due''} \<and>
      f = (\<lambda>s. set_last_event (ev_created ev) (s\<lparr>sub_status := ''past_due'', sub_grace_ends := grace_from now current\<rparr>)))"
  using assms
  by (auto simp: event_change_def payment_failure_change_def subscription_change_def split: if_splits option.splits)

lemma event_change_keys:
  assumes "event_change env now ev current = Some f"
  shows "sub_workspace (f s) = sub_workspace s"
    "sub_customer (f s) \<in> {sub_customer s, event_customer ev}" "sub_stripe_id (f s) \<in> {sub_stripe_id s, event_subscription ev}"
  using event_change_cases [OF assms]
  by (auto simp: status_row_keys set_customer_keys or_else_def split: option.splits)

text \<open>Only a subscription event writes the plan, and a status other than past due.\<close>

definition same_access :: "subscription \<Rightarrow> subscription \<Rightarrow> bool" where
  "same_access s s' \<longleftrightarrow> sub_plan s' = sub_plan s \<and> sub_status s' = sub_status s"

lemma event_change_access:
  assumes "event_change env now ev current = Some f" "is_checkout_completion ev \<or> is_payment_failure ev"
  shows "sub_plan (f s) = sub_plan s \<and>
    (sub_status (f s) = sub_status s \<or>
     is_payment_failure ev \<and> sub_status (f s) = ''past_due'' \<and>
     (\<exists>c. current = Some c \<and> sub_status c \<in> {''active'', ''trialing'', ''past_due''}))"
  using event_change_cases [OF assms(1)] assms(2)
  by (auto simp: set_customer_keys)

subsection \<open>Tenants\<close>

definition event_tenant :: "stripe_event \<Rightarrow> billing_db \<Rightarrow> ident option" where
  "event_tenant ev db = or_else (bound_workspace ev db) (event_workspace ev)"

lemma bound_customer:
  assumes u: "subs_unique (bl_subs db)" and b: "bound_workspace ev db = Some ws"
    and x: "x \<in> set (bl_subs db)" "event_customer ev \<noteq> None" "sub_customer x = event_customer ev"
  shows "sub_workspace x = ws"
proof -
  obtain c where c: "event_customer ev = Some c" using x(2) by blast
  obtain s where s: "find_row (\<lambda>s. sub_customer s = Some c) (bl_subs db) = Some s"
    using x(1,3) c by (cases "find_row (\<lambda>s. sub_customer s = Some c) (bl_subs db)") (auto simp: find_row_None_iff)
  have "distinct (present sub_customer (bl_subs db))" using u by (simp add: subs_unique_def)
  from present_distinctD [OF this, of x s c] find_row_SomeD [OF s] x(1,3) c have "x = s" by simp
  moreover have "sub_workspace s = ws" using b s c by (simp add: bound_workspace_def or_else_def)
  ultimately show ?thesis by simp
qed

lemma change_locked_unique:
  assumes u: "subs_unique (bl_subs db)" and b: "bound_workspace ev db \<in> {None, Some ws}"
    and ch: "event_change env now ev (sub_of ws db) = Some f"
    and c: "\<not> (bound_workspace ev db = None \<and> taken_elsewhere sub_customer (event_customer ev) ws db)"
    and i: "\<not> (Option.bind (sub_of ws db) sub_stripe_id \<noteq> event_subscription ev \<and>
      taken_elsewhere sub_stripe_id (event_subscription ev) ws db)"
  shows "subs_unique (upsert_sub ws f (bl_subs db))"
proof (rule subs_unique_upsert [OF u event_change_keys(1) [OF ch]])
  have d: "distinct (present sub_customer (bl_subs db))" "distinct (present sub_stripe_id (bl_subs db))"
    and w: "unique_on sub_workspace (bl_subs db)"
    using u by (simp_all add: subs_unique_def)
  fix s x
  assume s: "s \<in> set (bl_subs db) \<or> s = default_subscription ws" "sub_workspace s = ws"
    and x: "x \<in> set (bl_subs db)" "sub_workspace x \<noteq> ws"
  have none: "sub_customer (default_subscription ws) = None" "sub_stripe_id (default_subscription ws) = None"
    by (simp_all add: default_subscription_def)
  show "sub_customer x \<noteq> sub_customer (f s)" if k: "sub_customer (f s) \<noteq> None"
  proof (cases "sub_customer (f s) = sub_customer s")
    case True
    show ?thesis
      unfolding True by (rule present_other [OF d(1) _ x(1)]) (use True s x(2) k none in auto)
  next
    case False
    then have e: "sub_customer (f s) = event_customer ev" using event_change_keys(2) [OF ch, of s] by simp
    show ?thesis
    proof (cases "bound_workspace ev db")
      case None
      then show ?thesis using c x e k by (auto simp: taken_elsewhere_def list_ex_iff)
    next
      case (Some a)
      then show ?thesis using b bound_customer [OF u Some x(1)] e k x(2) by auto
    qed
  qed
  show "sub_stripe_id x \<noteq> sub_stripe_id (f s)" if k: "sub_stripe_id (f s) \<noteq> None"
  proof (cases "sub_stripe_id (f s) = sub_stripe_id s")
    case True
    show ?thesis
      unfolding True by (rule present_other [OF d(2) _ x(1)]) (use True s x(2) k none in auto)
  next
    case False
    then have e: "sub_stripe_id (f s) = event_subscription ev" using event_change_keys(3) [OF ch, of s] by simp
    show ?thesis
    proof (cases "Option.bind (sub_of ws db) sub_stripe_id = event_subscription ev")
      case True
      with k e obtain r where so: "sub_of ws db = Some r" "sub_stripe_id r = event_subscription ev"
        by (cases "sub_of ws db") auto
      from find_row_SomeD [OF so(1) [unfolded sub_of_def]] so(2)
      have r: "r \<in> set (bl_subs db)" "sub_workspace r = ws" "sub_stripe_id r = event_subscription ev" by simp_all
      have "sub_stripe_id x \<noteq> sub_stripe_id r"
        by (rule present_other [OF d(2) _ x(1)]) (use r x(2) k e in auto)
      with r(3) e show ?thesis by simp
    next
      case False
      then show ?thesis using i x e k by (auto simp: taken_elsewhere_def list_ex_iff)
    qed
  qed
qed


text \<open>The three ways a transaction ends without an error, and the only error it has.\<close>

lemma same_subs:
  "bound_workspace ev (db\<lparr>bl_events := es\<rparr>) = bound_workspace ev db" "sub_of ws (db\<lparr>bl_events := es\<rparr>) = sub_of ws db"
  "taken_elsewhere key v ws (db\<lparr>bl_events := es\<rparr>) = taken_elsewhere key v ws db"
proof -
  have s: "bl_subs (db\<lparr>bl_events := es\<rparr>) = bl_subs db" by simp
  show "bound_workspace ev (db\<lparr>bl_events := es\<rparr>) = bound_workspace ev db" "sub_of ws (db\<lparr>bl_events := es\<rparr>) = sub_of ws db"
    "taken_elsewhere key v ws (db\<lparr>bl_events := es\<rparr>) = taken_elsewhere key v ws db"
    unfolding bound_workspace_def sub_of_def taken_elsewhere_def s by (rule refl)+
qed

lemma event_tx_outcome:
  assumes u: "subs_unique (bl_subs db)" and tx: "event_tx env now id ev db = (r, db')"
  shows "db' = db \<and> (\<exists>t. ev_created ev = Some t \<and> max_int4 < t) \<or>
    r = Inr () \<and>
    (bl_subs db' = bl_subs db \<or>
     ev_type ev = ''checkout.session.expired'' \<and>
       (\<exists>sid. bl_subs db' = update_rows (\<lambda>s. sub_checkout_session s = Some sid)
          (\<lambda>s. s\<lparr>sub_checkout_claimed := None, sub_checkout_session := None\<rparr>) (bl_subs db)) \<or>
     (\<exists>ws f. event_tenant ev db = Some ws \<and> event_workspace ev \<in> {None, Some ws} \<and>
        event_change env now ev (sub_of ws db) = Some f \<and>
        (is_subscription_event ev \<or> is_payment_failure ev \<or> is_checkout_completion ev) \<and>
        subs_unique (upsert_sub ws f (bl_subs db)) \<and> bl_subs db' = upsert_sub ws f (bl_subs db)))"
proof -
  let ?es = "bl_events db @ [\<lparr>be_id = ev_id ev, be_type = ev_type ev, be_created = ev_created ev\<rparr>]"
  let ?db1 = "db\<lparr>bl_events := ?es\<rparr>"
  let ?bound = "bound_workspace ev db"
  consider (seen) "list_ex (\<lambda>e. be_id e = ev_id ev) (bl_events db)"
    | (big) "\<not> list_ex (\<lambda>e. be_id e = ev_id ev) (bl_events db)" "case ev_created ev of Some t \<Rightarrow> max_int4 < t | None \<Rightarrow> False"
    | (tx) "\<not> list_ex (\<lambda>e. be_id e = ev_id ev) (bl_events db)" "\<not> (case ev_created ev of Some t \<Rightarrow> max_int4 < t | None \<Rightarrow> False)"
    by blast
  then show ?thesis
  proof cases
    case seen
    with tx show ?thesis by (simp add: event_tx_def)
  next
    case big
    with tx show ?thesis by (auto simp: event_tx_def split: option.splits)
  next
    case new: tx
    note tx' = tx [unfolded event_tx_def if_not_P [OF new(1)] if_not_P [OF new(2)] Let_def same_subs id_apply]
    show ?thesis
    proof (cases "ev_type ev \<noteq> ''checkout.session.expired'' \<and>
        (is_subscription_event ev \<or> is_payment_failure ev \<or> is_checkout_completion ev) \<and>
        \<not> (is_checkout_completion ev \<and> json_get ''mode'' (Some (ev_object ev)) \<noteq> Some (JString ''subscription'')) \<and>
        \<not> (?bound \<noteq> None \<and> event_workspace ev \<noteq> None \<and> ?bound \<noteq> event_workspace ev) \<and> event_tenant ev db \<noteq> None")
      case False
      with tx' show ?thesis
        by (cases "ev_type ev = ''checkout.session.expired''")
          (auto simp: event_tenant_def split: if_splits option.splits)
    next
      case True
      then obtain ws where ws: "event_tenant ev db = Some ws" by blast
      have l: "change_locked env now ev ?bound ws ?db1 = (r, db')"
        using tx' True ws by (auto simp: event_tenant_def)
      have b: "?bound \<in> {None, Some ws}" "event_workspace ev \<in> {None, Some ws}"
        using ws True by (auto simp: event_tenant_def or_else_def split: option.splits)
      show ?thesis
      proof (cases "ws \<in> set (bl_workspaces db) \<and>
          \<not> (?bound = None \<and> taken_elsewhere sub_customer (event_customer ev) ws db) \<and>
          \<not> (Option.bind (sub_of ws db) sub_stripe_id \<noteq> event_subscription ev \<and>
            taken_elsewhere sub_stripe_id (event_subscription ev) ws db) \<and>
          event_change env now ev (sub_of ws db) \<noteq> None")
        case False
        with l show ?thesis by (auto simp: change_locked_def Let_def same_subs split: if_splits option.splits)
      next
        case ok: True
        then obtain f where f: "event_change env now ev (sub_of ws db) = Some f" by blast
        have un: "subs_unique (upsert_sub ws f (bl_subs db))"
          by (rule change_locked_unique [OF u b(1) f]) (use ok in blast)+
        with l ok f have "r = Inr ()" "bl_subs db' = upsert_sub ws f (bl_subs db)"
          by (auto simp: change_locked_def Let_def same_subs split: if_splits)
        with un f b(2) ws True show ?thesis by blast
      qed
    qed
  qed
qed


lemma present_same: "(\<And>s. key (f s) = key s) \<Longrightarrow> present key (update_rows p f rows) = present key rows"
  by (induction rows) (auto split: option.split)

text \<open>
  C23. A webhook event stays with its tenant. The unique columns stay unique and no event fails on
  them; the only row an event can change is the one of the workspace that its customer or its
  subscription belongs to, or that its metadata names when neither is known, and never when the
  metadata names another one. An expired checkout only frees the claim it holds. Events other than
  subscription events never write the plan, and write no status but past due, for a failed payment
  of a live subscription.
\<close>
theorem billing_event_stays_in_tenant:
  assumes u: "subs_unique (bl_subs db)" and tx: "event_tx env now id ev db = (r, db')"
  shows "subs_unique (bl_subs db') \<and>
    (r \<noteq> Inr () \<longrightarrow> db' = db \<and> (\<exists>t. ev_created ev = Some t \<and> max_int4 < t)) \<and>
    (\<forall>x. sub_of x db' \<noteq> sub_of x db \<longrightarrow>
       ev_type ev = ''checkout.session.expired'' \<or> event_tenant ev db = Some x \<and> event_workspace ev \<in> {None, Some x}) \<and>
    (\<forall>x s s'. \<not> is_subscription_event ev \<and> sub_of x db = Some s \<and> sub_of x db' = Some s' \<longrightarrow>
       sub_plan s' = sub_plan s \<and>
       (sub_status s' = sub_status s \<or>
        is_payment_failure ev \<and> sub_status s' = ''past_due'' \<and> sub_status s \<in> {''active'', ''trialing'', ''past_due''}))"
proof -
  consider (same) "bl_subs db' = bl_subs db" "r \<noteq> Inr () \<longrightarrow> db' = db \<and> (\<exists>t. ev_created ev = Some t \<and> max_int4 < t)"
    | (expired) sid where "r = Inr ()" "ev_type ev = ''checkout.session.expired''"
        "bl_subs db' = update_rows (\<lambda>s. sub_checkout_session s = Some sid)
          (\<lambda>s. s\<lparr>sub_checkout_claimed := None, sub_checkout_session := None\<rparr>) (bl_subs db)"
    | (change) ws f where "r = Inr ()" "event_tenant ev db = Some ws" "event_workspace ev \<in> {None, Some ws}"
        "event_change env now ev (sub_of ws db) = Some f"
        "is_subscription_event ev \<or> is_payment_failure ev \<or> is_checkout_completion ev"
        "subs_unique (upsert_sub ws f (bl_subs db))" "bl_subs db' = upsert_sub ws f (bl_subs db)"
    using event_tx_outcome [OF u tx] by blast
  then show ?thesis
  proof cases
    case same
    with u show ?thesis by (auto simp: sub_of_def)
  next
    case expired
    let ?f = "\<lambda>s. s\<lparr>sub_checkout_claimed := None, sub_checkout_session := None\<rparr>"
    have "subs_unique (bl_subs db')"
      using u by (simp add: expired(3) subs_unique_def unique_on_update present_same)
    moreover have "sub_of x db' = map_option (\<lambda>s. if sub_checkout_session s = Some sid then ?f s else s) (sub_of x db)" for x
      by (simp add: sub_of_def expired(3) find_row_update)
    ultimately show ?thesis using expired(1,2) by auto
  next
    case change
    have keep: "sub_workspace (f s) = sub_workspace s" for s using event_change_keys(1) [OF change(4)] .
    have of': "sub_of x db' = (if x = ws then Some (f (case sub_of ws db of Some s \<Rightarrow> s | None \<Rightarrow> default_subscription ws)) else sub_of x db)" for x
      using sub_of_upsert [where f = f and x = x and db = db and ws = ws, OF keep] by (simp add: sub_of_def change(7))
    have access: "sub_plan s' = sub_plan s \<and> (sub_status s' = sub_status s \<or>
        is_payment_failure ev \<and> sub_status s' = ''past_due'' \<and> sub_status s \<in> {''active'', ''trialing'', ''past_due''})"
      if "\<not> is_subscription_event ev" "sub_of x db = Some s" "sub_of x db' = Some s'" for x s s'
      using that change(5) event_change_access [OF change(4)] by (auto simp: of' split: if_splits)
    have moved: "x = ws" if "sub_of x db' \<noteq> sub_of x db" for x
      using that of' [of x] by (simp split: if_splits)
    have "subs_unique (bl_subs db')" using change(6,7) by simp
    moreover have "\<forall>x. sub_of x db' \<noteq> sub_of x db \<longrightarrow>
        event_tenant ev db = Some x \<and> event_workspace ev \<in> {None, Some x}"
      using moved change(2,3) by blast
    ultimately show ?thesis using change(1) access by blast
  qed
qed


text \<open>A failed payment of one of two subscribed workspaces.\<close>

definition paying_row :: "ident \<Rightarrow> subscription" where
  "paying_row ws = (default_subscription ws)\<lparr>sub_customer := Some (''cus-'' @ ws), sub_stripe_id := Some (''sub-'' @ ws),
     sub_plan := ''hosted_pro'', sub_status := ''active'', sub_last_event := Some 5\<rparr>"

definition two_paying :: billing_db where
  "two_paying = \<lparr>bl_workspaces = [''w1'', ''w2''], bl_subs = [paying_row ''w1'', paying_row ''w2''], bl_events = []\<rparr>"

definition failed_invoice :: stripe_event where
  "failed_invoice = \<lparr>ev_id = ''e1'', ev_type = ''invoice.payment_failed'', ev_created = Some 9,
     ev_object = JObject [(''customer'', JString ''cus-w1''), (''subscription'', JString ''sub-w1'')]\<rparr>"

theorem billing_event_stays_in_tenant_witness:
  "sub_of ''w2'' (snd (event_tx (\<lambda>_. None) 1000 id failed_invoice two_paying)) = sub_of ''w2'' two_paying"
proof -
  obtain r db' where tx: "event_tx (\<lambda>_. None) 1000 id failed_invoice two_paying = (r, db')"
    by (cases "event_tx (\<lambda>_. None) 1000 id failed_invoice two_paying")
  have "subs_unique (bl_subs two_paying)" by code_simp
  moreover have "event_tenant failed_invoice two_paying = Some ''w1''" by code_simp
  ultimately show ?thesis
    using billing_event_stays_in_tenant [of two_paying "\<lambda>_. None" 1000 failed_invoice r db'] tx
    by (auto simp: failed_invoice_def)
qed

end
