(* ===== verification/Billing_Delivery.thy ===== *)
theory Billing_Delivery
  imports Billing_Tenants
begin

text \<open>
  Stripe delivers events at least once and in any order. What the events of one subscription leave
  in its workspace's row does not depend on either.
\<close>

definition deliver :: "env \<Rightarrow> millis \<times> stripe_event \<Rightarrow> billing_db \<Rightarrow> billing_db" where
  "deliver env d db = snd (event_tx env (fst d) id (snd d) db)"

text \<open>
  An event that Stripe sends for a subscription of a configured price once its checkout is paid:
  it names its customer, its subscription and its workspace, and carries its period.
\<close>

definition routine_event :: "env \<Rightarrow> ident \<Rightarrow> ident \<Rightarrow> ident \<Rightarrow> stripe_event \<Rightarrow> bool" where
  "routine_event env ws customer sid ev \<longleftrightarrow>
     is_subscription_event ev \<and> event_customer ev = Some customer \<and> event_subscription ev = Some sid \<and>
     event_workspace ev = Some ws \<and>
     (case ev_created ev of Some t \<Rightarrow> t \<le> max_int4 | None \<Rightarrow> False) \<and>
     (case reported_status ev of
        Some status \<Rightarrow> status \<in> set known_statuses \<and> status \<noteq> ''incomplete'' \<and>
          (status \<in> set live_statuses \<longrightarrow> plan_for_price env (price_id_of (ev_object ev)) \<noteq> None)
      | None \<Rightarrow> False) \<and>
     fst (period_of (ev_object ev)) \<noteq> None \<and> snd (period_of (ev_object ev)) \<noteq> None"

lemma routine_event_iff:
  "routine_event env ws customer sid ev \<longleftrightarrow>
     is_subscription_event ev \<and> event_customer ev = Some customer \<and> event_subscription ev = Some sid \<and>
     event_workspace ev = Some ws \<and>
     (\<exists>t. ev_created ev = Some t \<and> t \<le> max_int4) \<and>
     (\<exists>status. reported_status ev = Some status \<and> status \<in> set known_statuses \<and> status \<noteq> ''incomplete'' \<and>
        (status \<in> set live_statuses \<longrightarrow> plan_for_price env (price_id_of (ev_object ev)) \<noteq> None)) \<and>
     fst (period_of (ev_object ev)) \<noteq> None \<and> snd (period_of (ev_object ev)) \<noteq> None"
  by (auto simp: routine_event_def split: option.splits)

text \<open>The row one event writes, and a row without its grace deadline.\<close>

definition event_row :: "env \<Rightarrow> ident \<Rightarrow> stripe_event \<Rightarrow> subscription" where
  "event_row env ws ev =
     (let status = the (reported_status ev) in
      status_row 0 ev status
        (if status \<in> set live_statuses then the (plan_for_price env (price_id_of (ev_object ev))) else ''local'')
        None (default_subscription ws))"

definition sans_grace :: "subscription \<Rightarrow> subscription" where
  "sans_grace s = s\<lparr>sub_grace_ends := None\<rparr>"

definition newest :: "stripe_event set \<Rightarrow> stripe_event \<Rightarrow> bool" where
  "newest S e \<longleftrightarrow> e \<in> S \<and> (\<forall>x \<in> S. the (ev_created x) \<le> the (ev_created e))"

text \<open>A workspace that may take the subscription on: nobody else holds its customer or its id.\<close>

definition free_for :: "ident \<Rightarrow> ident \<Rightarrow> ident \<Rightarrow> billing_db \<Rightarrow> bool" where
  "free_for ws customer sid db \<longleftrightarrow>
     ws \<in> set (bl_workspaces db) \<and> subs_unique (bl_subs db) \<and>
     (\<forall>s \<in> set (bl_subs db). sub_workspace s \<noteq> ws \<longrightarrow> sub_customer s \<noteq> Some customer \<and> sub_stripe_id s \<noteq> Some sid)"

lemma status_row_full:
  assumes "event_customer ev = Some c" "event_subscription ev = Some i" "ev_created ev = Some t"
    "fst (period_of (ev_object ev)) = Some a" "snd (period_of (ev_object ev)) = Some b"
  shows "status_row now ev status plan current s =
    \<lparr>sub_workspace = sub_workspace s, sub_customer = Some c, sub_stripe_id = Some i, sub_plan = plan, sub_status = status,
     sub_period_start = Some a, sub_period_end = Some b,
     sub_grace_ends = (if status = ''past_due'' then grace_from now current else None), sub_last_event = Some t,
     sub_checkout_claimed = None, sub_checkout_session = None,
     sub_cancels_at = (if status \<in> set live_statuses then cancels_at_of (ev_object ev) (Some b) else None)\<rparr>"
  using assms
  by (cases s) (simp add: status_row_def case_prod_unfold set_if_def set_customer_def set_last_event_def)


subsection \<open>One delivery\<close>

lemma event_row_fields:
  assumes "routine_event env ws customer sid ev"
  shows "sub_workspace (event_row env ws ev) = ws" "sub_customer (event_row env ws ev) = Some customer"
    "sub_stripe_id (event_row env ws ev) = Some sid" "sub_last_event (event_row env ws ev) = ev_created ev"
proof -
  obtain t a b where "ev_created ev = Some t" "fst (period_of (ev_object ev)) = Some a"
    "snd (period_of (ev_object ev)) = Some b" "event_customer ev = Some customer" "event_subscription ev = Some sid"
    using assms by (auto simp: routine_event_iff)
  then show "sub_workspace (event_row env ws ev) = ws" "sub_customer (event_row env ws ev) = Some customer"
    "sub_stripe_id (event_row env ws ev) = Some sid" "sub_last_event (event_row env ws ev) = ev_created ev"
    by (simp_all add: event_row_def Let_def status_row_full default_subscription_def)
qed

lemma sans_grace_fields:
  assumes "sans_grace r = sans_grace r'"
  shows "sub_workspace r = sub_workspace r'" "sub_customer r = sub_customer r'"
    "sub_stripe_id r = sub_stripe_id r'" "sub_last_event r = sub_last_event r'"
  using assms by (cases r; cases r'; simp add: sans_grace_def)+

text \<open>A row that a newer event of the subscription may overwrite.\<close>

definition open_for :: "ident \<Rightarrow> stripe_event \<Rightarrow> subscription option \<Rightarrow> bool" where
  "open_for sid ev current \<longleftrightarrow>
     (case current of None \<Rightarrow> True
      | Some s \<Rightarrow> (sub_stripe_id s \<in> {None, Some sid} \<or> sub_status s \<in> set terminal_statuses) \<and>
          (\<forall>l. sub_last_event s = Some l \<longrightarrow> l < the (ev_created ev)))"

lemma not_completion: "is_subscription_event ev \<Longrightarrow> \<not> is_checkout_completion ev \<and> \<not> is_payment_failure ev"
  by (auto simp: is_subscription_event_def subscription_events_def is_checkout_completion_def is_payment_failure_def)

lemma routine_change:
  assumes r: "routine_event env ws customer sid ev" and o': "open_for sid ev current"
  shows "\<exists>f. event_change env now ev current = Some f \<and>
    (\<forall>s. sub_workspace s = ws \<longrightarrow> sans_grace (f s) = sans_grace (event_row env ws ev))"
proof -
  obtain t status where e: "is_subscription_event ev" "event_customer ev = Some customer" "event_subscription ev = Some sid"
    "ev_created ev = Some t" "reported_status ev = Some status" "status \<in> set known_statuses" "status \<noteq> ''incomplete''"
    "status \<in> set live_statuses \<Longrightarrow> plan_for_price env (price_id_of (ev_object ev)) \<noteq> None"
    using r by (auto simp: routine_event_iff)
  obtain a b where p: "fst (period_of (ev_object ev)) = Some a" "snd (period_of (ev_object ev)) = Some b"
    using r by (auto simp: routine_event_iff)
  define plan where "plan = (if status \<in> set live_statuses then the (plan_for_price env (price_id_of (ev_object ev))) else ''local'')"
  have fresh: "\<not> is_stale_event ev current" "\<not> ties_with_cancellation ev current"
  proof -
    have late: "l < t" if "Option.bind current sub_last_event = Some l" for l
      using o' e(4) that by (cases current) (simp_all add: open_for_def)
    then show "\<not> is_stale_event ev current"
      using e(4) by (cases "Option.bind current sub_last_event") (fastforce simp: is_stale_event_def)+
    show "\<not> ties_with_cancellation ev current"
      using e(4) late [of t] by (cases current) (auto simp: ties_with_cancellation_def)
  qed
  have open': "\<not> (case current of None \<Rightarrow> False
          | Some s \<Rightarrow> truthy (sub_stripe_id s) \<and> event_subscription ev \<noteq> None \<and>
              sub_stripe_id s \<noteq> event_subscription ev \<and> sub_status s \<notin> set terminal_statuses)"
    using o' e(3) by (auto simp: open_for_def truthy_def split: option.splits)
  have "subscription_change env now ev current = Some (status_row now ev status plan current)"
    unfolding subscription_change_def if_not_P [OF open'] using e(5-8) fresh
    by (auto simp: plan_def event_plan_def split: option.splits)
  then have "event_change env now ev current = Some (status_row now ev status plan current)"
    using not_completion [OF e(1)] fresh by (simp add: event_change_def)
  moreover have "sans_grace (status_row now ev status plan current s) = sans_grace (event_row env ws ev)"
    if "sub_workspace s = ws" for s
    using that e p by (simp add: event_row_def plan_def status_row_full sans_grace_def default_subscription_def)
  ultimately show ?thesis by blast
qed

lemma stale_change:
  "is_subscription_event ev \<Longrightarrow> is_stale_event ev current \<Longrightarrow> event_change env now ev current = None"
  using not_completion by (simp add: event_change_def)

lemma bound_free:
  assumes f: "free_for ws customer sid db" and r: "event_customer ev = Some customer" "event_subscription ev = Some sid"
  shows "bound_workspace ev db \<in> {None, Some ws}"
proof -
  have c: "sub_workspace s = ws" if "find_row (\<lambda>s. sub_customer s = Some customer) (bl_subs db) = Some s" for s
    using f find_row_SomeD [OF that] by (auto simp: free_for_def)
  have i: "sub_workspace s = ws" if "find_row (\<lambda>s. sub_stripe_id s = Some sid) (bl_subs db) = Some s" for s
    using f find_row_SomeD [OF that] by (auto simp: free_for_def)
  show ?thesis
  proof (cases "find_row (\<lambda>s. sub_customer s = Some customer) (bl_subs db)")
    case None
    then show ?thesis
      using i by (cases "find_row (\<lambda>s. sub_stripe_id s = Some sid) (bl_subs db)") (simp_all add: bound_workspace_def r or_else_def)
  next
    case (Some s)
    with c [OF Some] show ?thesis by (simp add: bound_workspace_def r or_else_def)
  qed
qed


lemma upsert_free:
  assumes free: "free_for ws customer sid db"
    and f: "\<And>s. sub_workspace s = ws \<Longrightarrow> sub_workspace (f s) = ws \<and> sub_customer (f s) = Some customer \<and> sub_stripe_id (f s) = Some sid"
  defines "db' \<equiv> db\<lparr>bl_subs := upsert_sub ws f (bl_subs db)\<rparr>"
  shows "free_for ws customer sid db'"
    "sub_of ws db' = Some (f (case sub_of ws db of Some s \<Rightarrow> s | None \<Rightarrow> default_subscription ws))"
proof -
  have u: "unique_on sub_workspace (bl_subs db)" "distinct (present sub_customer (bl_subs db))"
    "distinct (present sub_stripe_id (bl_subs db))"
    and others: "\<And>s. s \<in> set (bl_subs db) \<Longrightarrow> sub_workspace s \<noteq> ws \<Longrightarrow>
      sub_customer s \<noteq> Some customer \<and> sub_stripe_id s \<noteq> Some sid"
    and ws: "ws \<in> set (bl_workspaces db)"
    using free by (auto simp: free_for_def subs_unique_def)
  have "subs_unique (bl_subs db') \<and>
    (\<forall>s \<in> set (bl_subs db'). sub_workspace s \<noteq> ws \<longrightarrow> sub_customer s \<noteq> Some customer \<and> sub_stripe_id s \<noteq> Some sid) \<and>
    sub_of ws db' = Some (f (case sub_of ws db of Some s \<Rightarrow> s | None \<Rightarrow> default_subscription ws))"
  proof (cases "list_ex (\<lambda>s. sub_workspace s = ws) (bl_subs db)")
    case True
    then have rows: "bl_subs db' = update_rows (\<lambda>s. sub_workspace s = ws) f (bl_subs db)"
      by (simp add: db'_def upsert_sub_def)
    obtain s where s: "sub_of ws db = Some s"
      using True by (cases "sub_of ws db") (auto simp: sub_of_def find_row_None_iff list_ex_iff)
    have "unique_on sub_workspace (bl_subs db')" unfolding rows using u(1) f by (subst unique_on_update) auto
    moreover have "distinct (present sub_customer (bl_subs db'))" "distinct (present sub_stripe_id (bl_subs db'))"
      unfolding rows using u others f by (auto intro!: present_update)
    moreover have "sub_of ws db' = Some (f s)"
    proof -
      have "find_row (\<lambda>s. sub_workspace s = ws) (update_rows (\<lambda>s. sub_workspace s = ws) f rs) =
          map_option f (find_row (\<lambda>s. sub_workspace s = ws) rs)" for rs
        using f by (induction rs) auto
      then show ?thesis using s by (simp add: sub_of_def rows)
    qed
    moreover have "\<forall>x \<in> set (bl_subs db'). sub_workspace x \<noteq> ws \<longrightarrow> sub_customer x \<noteq> Some customer \<and> sub_stripe_id x \<noteq> Some sid"
      unfolding rows set_update_rows using others f by auto
    ultimately show ?thesis by (simp add: subs_unique_def s)
  next
    case False
    then have rows: "bl_subs db' = bl_subs db @ [f (default_subscription ws)]"
      by (simp add: db'_def upsert_sub_def)
    have none: "sub_of ws db = None" using False by (auto simp: sub_of_def find_row_None_iff list_ex_iff)
    have away: "\<And>s. s \<in> set (bl_subs db) \<Longrightarrow> sub_workspace s \<noteq> ws" using False by (auto simp: list_ex_iff)
    note f0 = f [of "default_subscription ws", simplified default_subscription_def, simplified, folded default_subscription_def]
    show ?thesis
      unfolding subs_unique_def sub_of_def rows
      using u f0 none others away
      by (auto simp: unique_on_append present_append present_set find_row_append sub_of_def)
  qed
  with ws show "free_for ws customer sid db'" "sub_of ws db' = Some (f (case sub_of ws db of Some s \<Rightarrow> s | None \<Rightarrow> default_subscription ws))"
    by (simp_all add: free_for_def db'_def)
qed


definition seen :: "string \<Rightarrow> billing_db \<Rightarrow> bool" where
  "seen eid db \<longleftrightarrow> list_ex (\<lambda>e. be_id e = eid) (bl_events db)"

definition record_event :: "stripe_event \<Rightarrow> billing_db \<Rightarrow> billing_db" where
  "record_event ev db = db\<lparr>bl_events := bl_events db @ [\<lparr>be_id = ev_id ev, be_type = ev_type ev, be_created = ev_created ev\<rparr>]\<rparr>"

lemma record_event_simps [simp]:
  "bl_subs (record_event ev db) = bl_subs db" "bl_workspaces (record_event ev db) = bl_workspaces db"
  "sub_of ws (record_event ev db) = sub_of ws db"
  "free_for ws customer sid (record_event ev db) = free_for ws customer sid db"
  "seen eid (record_event ev db) \<longleftrightarrow> seen eid db \<or> eid = ev_id ev"
  by (auto simp: record_event_def sub_of_def free_for_def seen_def)

lemma deliver_seen: "seen (ev_id (snd d)) db \<Longrightarrow> deliver env d db = db"
  by (simp add: deliver_def event_tx_def seen_def)

lemma deliver_new:
  assumes free: "free_for ws customer sid db" and r: "routine_event env ws customer sid ev"
    and new: "\<not> seen (ev_id ev) db"
  shows "deliver env (now, ev) db =
    (case event_change env now ev (sub_of ws db) of
       None \<Rightarrow> record_event ev db
     | Some f \<Rightarrow>
         if subs_unique (upsert_sub ws f (bl_subs db))
         then (record_event ev db)\<lparr>bl_subs := upsert_sub ws f (bl_subs db)\<rparr>
         else forget_event (ev_id ev) (record_event ev db))"
proof -
  obtain t where e: "is_subscription_event ev" "event_customer ev = Some customer" "event_subscription ev = Some sid"
    "event_workspace ev = Some ws" "ev_created ev = Some t" "t \<le> max_int4"
    using r by (auto simp: routine_event_iff)
  have kind: "ev_type ev \<noteq> ''checkout.session.expired''" "\<not> is_checkout_completion ev"
    using e(1) not_completion [OF e(1)] by (auto simp: is_subscription_event_def subscription_events_def)
  let ?db1 = "record_event ev db"
  have free1: "free_for ws customer sid ?db1" using free by simp
  have b: "bound_workspace ev ?db1 \<in> {None, Some ws}" by (rule bound_free [OF free1 e(2,3)])
  have ws: "or_else (bound_workspace ev ?db1) (event_workspace ev) = Some ws"
    using b e(4) by (auto simp: or_else_def)
  have free': "\<not> taken_elsewhere sub_customer (event_customer ev) ws ?db1"
    "\<not> taken_elsewhere sub_stripe_id (event_subscription ev) ws ?db1" "ws \<in> set (bl_workspaces ?db1)"
    using free e(2,3) by (auto simp: free_for_def taken_elsewhere_def list_ex_iff)
  have tx: "event_tx env now id ev db = change_locked env now ev (bound_workspace ev ?db1) ws ?db1"
  proof -
    have c: "\<not> (case ev_created ev of Some t \<Rightarrow> max_int4 < t | None \<Rightarrow> False)" using e(5,6) by simp
    have m: "\<not> (bound_workspace ev ?db1 \<noteq> None \<and> event_workspace ev \<noteq> None \<and> bound_workspace ev ?db1 \<noteq> event_workspace ev)"
      using b e(4) by auto
    have n: "\<not> list_ex (\<lambda>e. be_id e = ev_id ev) (bl_events db)" using new by (simp add: seen_def)
    show ?thesis
      unfolding event_tx_def record_event_def [symmetric] Let_def if_not_P [OF n] if_not_P [OF c] if_not_P [OF m] ws
      using e(1) kind by simp
  qed
  show ?thesis
    using free' by (simp add: deliver_def tx change_locked_def Let_def split: option.splits)
qed

lemma deliver_stale:
  assumes "free_for ws customer sid db" "routine_event env ws customer sid ev" "\<not> seen (ev_id ev) db"
    "is_stale_event ev (sub_of ws db)"
  shows "deliver env (now, ev) db = record_event ev db"
  using assms stale_change [OF _ assms(4)] by (simp add: deliver_new routine_event_iff)

lemma deliver_fresh:
  fixes now :: millis
  assumes free: "free_for ws customer sid db" and r: "routine_event env ws customer sid ev"
    and new: "\<not> seen (ev_id ev) db" and o': "open_for sid ev (sub_of ws db)"
  defines "db' \<equiv> deliver env (now, ev) db"
  shows "free_for ws customer sid db'" "seen eid db' \<longleftrightarrow> seen eid db \<or> eid = ev_id ev"
    "\<exists>s. sub_of ws db' = Some s \<and> sans_grace s = sans_grace (event_row env ws ev)"
proof -
  obtain f where f: "event_change env now ev (sub_of ws db) = Some f"
    "\<And>s. sub_workspace s = ws \<Longrightarrow> sans_grace (f s) = sans_grace (event_row env ws ev)"
    using routine_change [OF r o'] by blast
  have keys: "sub_workspace (f s) = ws \<and> sub_customer (f s) = Some customer \<and> sub_stripe_id (f s) = Some sid"
    if "sub_workspace s = ws" for s
    using sans_grace_fields [OF f(2) [OF that]] event_row_fields [OF r] by simp
  let ?db1 = "record_event ev db"
  have free1: "free_for ws customer sid ?db1" using free by simp
  note up = upsert_free [OF free1 keys, simplified]
  have "subs_unique (upsert_sub ws f (bl_subs db))"
    using up(1) by (simp add: free_for_def)
  then have db': "db' = ?db1\<lparr>bl_subs := upsert_sub ws f (bl_subs db)\<rparr>"
    using f(1) by (simp add: db'_def deliver_new [OF free r new])
  show "free_for ws customer sid db'" using up(1) by (simp add: db')
  show "seen eid db' \<longleftrightarrow> seen eid db \<or> eid = ev_id ev"
    unfolding db' by (auto simp: seen_def record_event_def)
  define s where "s = (case sub_of ws db of Some s \<Rightarrow> s | None \<Rightarrow> default_subscription ws)"
  have "sub_workspace s = ws"
    using find_row_SomeD [of "\<lambda>s. sub_workspace s = ws" "bl_subs db"]
    by (cases "sub_of ws db") (simp_all add: s_def default_subscription_def sub_of_def)
  with f(2) have "sans_grace (f s) = sans_grace (event_row env ws ev)" by blast
  moreover have "sub_of ws db' = Some (f s)" using up(2) by (simp add: db' s_def)
  ultimately show "\<exists>s. sub_of ws db' = Some s \<and> sans_grace s = sans_grace (event_row env ws ev)" by blast
qed


subsection \<open>Any order, any number of times\<close>

text \<open>What a run that delivered the events \<open>S\<close> to \<open>db\<close> has led to.\<close>

definition settled :: "env \<Rightarrow> ident \<Rightarrow> ident \<Rightarrow> ident \<Rightarrow> billing_db \<Rightarrow> stripe_event set \<Rightarrow> billing_db \<Rightarrow> bool" where
  "settled env ws customer sid db S db' \<longleftrightarrow>
     free_for ws customer sid db' \<and> (\<forall>i. seen i db' \<longleftrightarrow> seen i db \<or> i \<in> ev_id ` S) \<and>
     (if S = {} then sub_of ws db' = sub_of ws db
      else \<exists>e s. newest S e \<and> sub_of ws db' = Some s \<and> sans_grace s = sans_grace (event_row env ws e))"

definition fit_events :: "env \<Rightarrow> ident \<Rightarrow> ident \<Rightarrow> ident \<Rightarrow> billing_db \<Rightarrow> stripe_event set \<Rightarrow> bool" where
  "fit_events env ws customer sid db E \<longleftrightarrow>
     (\<forall>e \<in> E. routine_event env ws customer sid e \<and> \<not> seen (ev_id e) db \<and> open_for sid e (sub_of ws db)) \<and>
     inj_on ev_id E \<and> inj_on ev_created E"

lemma newest_unique: "newest S e \<Longrightarrow> newest S x \<Longrightarrow> inj_on ev_created S \<Longrightarrow>
    (\<And>y. y \<in> S \<Longrightarrow> ev_created y \<noteq> None) \<Longrightarrow> e = x"
  unfolding newest_def inj_on_def by (metis antisym option.expand)

lemma newest_insert: "newest S e \<Longrightarrow> newest (insert x S) (if the (ev_created e) \<le> the (ev_created x) then x else e)"
  by (auto simp: newest_def intro: order_trans)

lemma settled_row:
  assumes fit: "fit_events env ws customer sid db E" and S: "S \<subseteq> E"
    and st: "settled env ws customer sid db S db'" and m: "newest S m"
  shows "\<exists>s. sub_of ws db' = Some s \<and> sans_grace s = sans_grace (event_row env ws m)"
proof -
  have ne: "S \<noteq> {}" using m by (auto simp: newest_def)
  then obtain x s where x: "newest S x" "sub_of ws db' = Some s" "sans_grace s = sans_grace (event_row env ws x)"
    using st unfolding settled_def if_not_P [OF ne] by blast
  have "ev_created y \<noteq> None" if "y \<in> S" for y
    using fit S that by (fastforce simp: fit_events_def routine_event_iff)
  moreover have "inj_on ev_created S" using fit S by (auto simp: fit_events_def intro: inj_on_subset)
  ultimately have "m = x" using newest_unique [OF m x(1)] by blast
  with x show ?thesis by blast
qed

lemma deliver_settled:
  assumes fit: "fit_events env ws customer sid db E" and e: "e \<in> E" and S: "S \<subseteq> E"
    and st: "settled env ws customer sid db S db'"
  shows "settled env ws customer sid db (insert e S) (deliver env (now, e) db')"
proof (cases "e \<in> S")
  case True
  then have "seen (ev_id e) db'" using st by (auto simp: settled_def)
  then show ?thesis using st True by (simp add: deliver_seen insert_absorb)
next
  case False
  have fit': "routine_event env ws customer sid x" "\<not> seen (ev_id x) db" "open_for sid x (sub_of ws db)" if "x \<in> E" for x
    using fit that by (simp_all add: fit_events_def)
  have free: "free_for ws customer sid db'" using st by (simp add: settled_def)
  have "ev_id e \<notin> ev_id ` S"
    using fit e S False unfolding fit_events_def by (auto dest: inj_onD)
  then have new: "\<not> seen (ev_id e) db'" using st fit'(2) [OF e] by (simp add: settled_def)
  show ?thesis
  proof (cases "\<exists>m. newest S m \<and> the (ev_created e) < the (ev_created m)")
    case True
    then obtain m where m: "newest S m" "the (ev_created e) < the (ev_created m)" by blast
    obtain s where s: "sub_of ws db' = Some s" "sans_grace s = sans_grace (event_row env ws m)"
      using settled_row [OF fit S st m(1)] by blast
    have mE: "m \<in> E" using m(1) S by (auto simp: newest_def)
    have "sub_last_event s = ev_created m"
      using sans_grace_fields(4) [OF s(2)] event_row_fields(4) [OF fit'(1) [OF mE]] by simp
    then have "is_stale_event e (sub_of ws db')"
      using m(2) s(1) fit'(1) [OF e] fit'(1) [OF mE] by (auto simp: is_stale_event_def routine_event_iff)
    from deliver_stale [OF free fit'(1) [OF e] new this] have d: "deliver env (now, e) db' = record_event e db'" .
    have "newest (insert e S) m" using newest_insert [OF m(1), of e] m(2) by simp
    with st s show ?thesis by (auto simp: settled_def d)
  next
    case False
    have "open_for sid e (sub_of ws db') \<and> newest (insert e S) e"
    proof (cases "S = {}")
      case True
      then show ?thesis using st fit'(3) [OF e] by (simp add: settled_def newest_def)
    next
      case ne: False
      then obtain m s where m: "newest S m" and s: "sub_of ws db' = Some s" "sans_grace s = sans_grace (event_row env ws m)"
        using st by (auto simp: settled_def)
      have mE: "m \<in> E" and mS: "m \<in> S" using m S by (auto simp: newest_def)
      have le: "the (ev_created m) \<le> the (ev_created e)" using False m by auto
      moreover have "ev_created m \<noteq> ev_created e"
        using fit e mE mS \<open>e \<notin> S\<close> unfolding fit_events_def by (auto dest: inj_onD)
      ultimately have lt: "the (ev_created m) < the (ev_created e)"
        using fit'(1) [OF e] fit'(1) [OF mE] by (auto simp: routine_event_iff)
      have "sub_last_event s = ev_created m" "sub_stripe_id s = Some sid"
        using sans_grace_fields(3,4) [OF s(2)] event_row_fields(3,4) [OF fit'(1) [OF mE]] by simp_all
      with lt s(1) have "open_for sid e (sub_of ws db')" by (auto simp: open_for_def)
      moreover have "newest (insert e S) e" using newest_insert [OF m, of e] le by simp
      ultimately show ?thesis by simp
    qed
    with deliver_fresh [OF free fit'(1) [OF e] new, where now = now] st show ?thesis by (auto simp: settled_def)
  qed
qed

lemma deliveries_settled:
  assumes "fit_events env ws customer sid db E" "free_for ws customer sid db" "snd ` set ds \<subseteq> E"
  shows "settled env ws customer sid db (snd ` set ds) (fold (deliver env) ds db)"
  using assms(3)
proof (induction ds rule: rev_induct)
  case Nil
  then show ?case using assms(2) by (simp add: settled_def)
next
  case (snoc d ds)
  obtain now e where d: "d = (now, e)" by (cases d)
  with snoc deliver_settled [OF assms(1), of e "snd ` set ds" "fold (deliver env) ds db" now] show ?case by simp
qed

text \<open>
  C22. Webhook deliveries converge. Take any events of one subscription with distinct ids and times,
  newer than what the workspace's row has seen. However often and in whatever order, at whatever
  times they are delivered, the row ends as the newest of them alone would write it, apart from
  the grace deadline, which counts from the delivery.
\<close>
theorem billing_delivery_converges:
  assumes "free_for ws customer sid db" "fit_events env ws customer sid db (snd ` set ds)"
    and "newest (snd ` set ds) e"
  shows "map_option sans_grace (sub_of ws (fold (deliver env) ds db)) = Some (sans_grace (event_row env ws e))"
proof -
  have st: "settled env ws customer sid db (snd ` set ds) (fold (deliver env) ds db)"
    by (rule deliveries_settled [OF assms(2,1) order_refl])
  show ?thesis using settled_row [OF assms(2) order_refl st assms(3)] by auto
qed


text \<open>A cancellation that arrives before the activation, which then arrives twice.\<close>

definition price_env :: env where
  "price_env = (\<lambda>name. if name = ''STRIPE_PRICE_HOSTED_PRO'' then Some ''price_pro'' else None)"

definition stripe_int :: "int \<Rightarrow> json" where
  "stripe_int n = JNumber (JsNum (of_int n))"

definition sample_object :: "string \<Rightarrow> json" where
  "sample_object status = JObject [(''id'', JString ''sub1''), (''customer'', JString ''cus1''), (''status'', JString status),
     (''metadata'', JObject [(''workspaceId'', JString ''w1'')]),
     (''items'', JObject [(''data'', JArray [JObject [(''price'', JObject [(''id'', JString ''price_pro'')])]])]),
     (''current_period_start'', stripe_int 100), (''current_period_end'', stripe_int 200)]"

definition activation :: stripe_event where
  "activation = \<lparr>ev_id = ''e1'', ev_type = ''customer.subscription.created'', ev_created = Some 100,
     ev_object = sample_object ''active''\<rparr>"

definition cancellation :: stripe_event where
  "cancellation = \<lparr>ev_id = ''e2'', ev_type = ''customer.subscription.deleted'', ev_created = Some 150,
     ev_object = sample_object ''canceled''\<rparr>"

definition empty_billing :: billing_db where
  "empty_billing = \<lparr>bl_workspaces = [''w1''], bl_subs = [], bl_events = []\<rparr>"

lemma sample_routine:
  "routine_event price_env ''w1'' ''cus1'' ''sub1'' activation"
  "routine_event price_env ''w1'' ''cus1'' ''sub1'' cancellation"
  by code_simp+

lemma sample_fit: "fit_events price_env ''w1'' ''cus1'' ''sub1'' empty_billing {cancellation, activation}"
proof -
  have "sub_of ''w1'' empty_billing = None" by code_simp
  then show ?thesis
    using sample_routine
    by (simp add: fit_events_def open_for_def seen_def empty_billing_def cancellation_def activation_def)
qed

text \<open>The workspace stays canceled.\<close>
theorem billing_delivery_converges_witness:
  "map_option sans_grace (sub_of ''w1'' (fold (deliver price_env)
     [(7, cancellation), (8, activation), (9, activation)] empty_billing)) =
   Some (sans_grace (event_row price_env ''w1'' cancellation))"
proof (rule billing_delivery_converges)
  show "free_for ''w1'' ''cus1'' ''sub1'' empty_billing" by code_simp
  show "fit_events price_env ''w1'' ''cus1'' ''sub1'' empty_billing (snd ` set [(7, cancellation), (8, activation), (9, activation)])"
    using sample_fit by simp
  show "newest (snd ` set [(7, cancellation), (8, activation), (9, activation)]) cancellation"
    by (simp add: newest_def cancellation_def activation_def)
qed

end
