(* ===== verification/Billing_Checkout.thy ===== *)
theory Billing_Checkout
  imports Billing_Delivery
begin

text \<open>
  The claim that keeps a workspace from opening two checkouts, and how superseding an open session
  gets around it.
\<close>

subsection \<open>The claim\<close>

lemma sub_of_update:
  assumes "\<And>s. sub_workspace (f s) = sub_workspace s"
  shows "sub_of x (db\<lparr>bl_subs := update_rows p f (bl_subs db)\<rparr>) = map_option (\<lambda>s. if p s then f s else s) (sub_of x db)"
  by (simp add: sub_of_def find_row_update assms)

lemma sub_of_workspace: "sub_of ws db = Some s \<Longrightarrow> sub_workspace s = ws"
  using find_row_SomeD by (fastforce simp: sub_of_def)

text \<open>A claim writes only the row of its workspace.\<close>

lemma claim_frame:
  assumes "x \<noteq> ws"
  shows "sub_of x (snd (claim_checkout_slot now id ws db)) = sub_of x db"
proof -
  have a: "sub_of x (db\<lparr>bl_subs := bl_subs db @ [s]\<rparr>) = sub_of x db" if "sub_workspace s = ws" for s
    using assms that by (simp add: sub_of_def find_row_append split: option.split)
  have u: "sub_of x (db\<lparr>bl_subs := update_rows (claimable_slot ws now) (\<lambda>s. s\<lparr>sub_checkout_claimed := Some now\<rparr>) (bl_subs db)\<rparr>)
      = sub_of x db"
    using assms sub_of_workspace [of x db]
    by (cases "sub_of x db") (simp_all add: sub_of_update claimable_slot_def)
  show ?thesis
    by (auto simp: claim_checkout_slot_def claim_existing_slot_def Let_def u default_subscription_def intro!: a)
qed

definition claimed_since :: "millis \<Rightarrow> ident \<Rightarrow> billing_db \<Rightarrow> bool" where
  "claimed_since t ws db \<longleftrightarrow>
     (case sub_of ws db of None \<Rightarrow> False | Some s \<Rightarrow> sub_checkout_claimed s = Some t)"

lemma count_claimable:
  assumes "unique_on sub_workspace (bl_subs db)" "sub_of ws db = Some s"
  shows "count_rows (claimable_slot ws now) (bl_subs db) = (if claimable_slot ws now s then 1 else 0)"
  using assms
proof (induction "bl_subs db" arbitrary: db)
  case Nil
  then show ?case by (simp add: sub_of_def)
next
  case (Cons r rows)
  let ?db = "db\<lparr>bl_subs := rows\<rparr>"
  have rows: "bl_subs db = r # rows" using Cons.hyps by simp
  show ?case
  proof (cases "sub_workspace r = ws")
    case True
    then have "count_rows (claimable_slot ws now) rows = 0"
      using Cons.prems(1) by (auto simp: rows count_rows_0_iff claimable_slot_def image_iff)
    with True Cons.prems(2) show ?thesis by (simp add: rows sub_of_def)
  next
    case False
    then have "count_rows (claimable_slot ws now) rows = (if claimable_slot ws now s then 1 else 0)"
      using Cons.hyps(1) [of ?db] Cons.prems by (simp add: rows sub_of_def)
    with False show ?thesis by (simp add: rows claimable_slot_def)
  qed
qed

text \<open>While a claim is fresh every other one is refused and changes nothing for the workspace.\<close>

lemma fresh_claim_blocks:
  assumes u: "unique_on sub_workspace (bl_subs db)" and c: "claimed_since t ws db" and now: "now \<le> t + checkout_pending_ms"
  shows "fst (claim_checkout_slot now id ws db) \<noteq> Inr ()" "sub_of ws (snd (claim_checkout_slot now id ws db)) = sub_of ws db"
proof -
  obtain s where s: "sub_of ws db = Some s" "sub_checkout_claimed s = Some t"
    using c by (auto simp: claimed_since_def split: option.splits)
  have nc: "\<not> claimable_slot ws now s" using s now by (simp add: claimable_slot_def)
  show "fst (claim_checkout_slot now id ws db) \<noteq> Inr ()"
    using s nc count_claimable [OF u s(1), of now] by (simp add: claim_checkout_slot_def claim_existing_slot_def Let_def)
  show "sub_of ws (snd (claim_checkout_slot now id ws db)) = sub_of ws db"
    using s nc count_claimable [OF u s(1), of now]
    by (simp add: claim_checkout_slot_def claim_existing_slot_def Let_def sub_of_update)
qed

lemma claim_unique:
  "unique_on sub_workspace (bl_subs db) \<Longrightarrow> unique_on sub_workspace (bl_subs (snd (claim_checkout_slot now id ws db)))"
  by (auto simp: claim_checkout_slot_def claim_existing_slot_def Let_def unique_on_update unique_on_append sub_of_def
      find_row_None_iff default_subscription_def)

text \<open>A granted claim is recorded, for a workspace without a live subscription.\<close>

lemma claim_granted:
  assumes u: "unique_on sub_workspace (bl_subs (other db))" and g: "claim_checkout_slot now other ws db = (Inr (), db')"
  shows "claimed_since now ws db' \<and> \<not> has_live_subscription (sub_of ws db') \<and> unique_on sub_workspace (bl_subs db')"
proof (cases "sub_of ws db = None \<and> sub_of ws (other db) = None")
  case True
  then have db': "db' = (other db)\<lparr>bl_subs := bl_subs (other db) @ [(default_subscription ws)\<lparr>sub_checkout_claimed := Some now\<rparr>]\<rparr>"
    using g by (auto simp: claim_checkout_slot_def Let_def has_live_subscription_def split: if_splits)
  have none: "find_row (\<lambda>s. sub_workspace s = ws) (bl_subs (other db)) = None" using True by (simp add: sub_of_def)
  then have away: "\<And>s. s \<in> set (bl_subs (other db)) \<Longrightarrow> sub_workspace s \<noteq> ws" by (auto simp: find_row_None_iff)
  have "sub_of ws db' = Some ((default_subscription ws)\<lparr>sub_checkout_claimed := Some now\<rparr>)"
    using none by (simp add: db' sub_of_def find_row_append default_subscription_def)
  moreover have "unique_on sub_workspace (bl_subs db')"
    using u away by (auto simp: db' unique_on_append default_subscription_def)
  ultimately show ?thesis
    by (simp add: claimed_since_def default_subscription_def has_live_subscription_def truthy_def)
next
  case False
  then have e: "claim_existing_slot now ws (other db) = (Inr (), db')"
    using g by (auto simp: claim_checkout_slot_def Let_def split: if_splits)
  then have one: "count_rows (claimable_slot ws now) (bl_subs (other db)) = 1"
    and db': "db' = (other db)\<lparr>bl_subs := update_rows (claimable_slot ws now) (\<lambda>s. s\<lparr>sub_checkout_claimed := Some now\<rparr>) (bl_subs (other db))\<rparr>"
    by (simp_all add: claim_existing_slot_def Let_def split: if_splits)
  have "sub_of ws (other db) \<noteq> None"
  proof
    assume "sub_of ws (other db) = None"
    then have "count_rows (claimable_slot ws now) (bl_subs (other db)) = 0"
      by (auto simp: count_rows_0_iff claimable_slot_def sub_of_def find_row_None_iff)
    with one show False by simp
  qed
  then obtain s where s: "sub_of ws (other db) = Some s" by blast
  have "claimable_slot ws now s"
  proof (rule ccontr)
    assume "\<not> claimable_slot ws now s"
    then have "count_rows (claimable_slot ws now) (bl_subs (other db)) = 0" by (simp only: count_claimable [OF u s] if_False)
    with one show False by simp
  qed
  then have c: "sub_stripe_id s = None \<or> sub_plan s = ''hosted_trial'' \<or> sub_status s \<notin> set live_statuses"
    by (simp add: claimable_slot_def)
  have "sub_of ws db' = Some (s\<lparr>sub_checkout_claimed := Some now\<rparr>)"
    using \<open>claimable_slot ws now s\<close> s by (simp add: db' sub_of_update)
  moreover have "unique_on sub_workspace (bl_subs db')" using u by (simp add: db' unique_on_update)
  ultimately show ?thesis using c by (auto simp: claimed_since_def has_live_subscription_def truthy_def)
qed

text \<open>Claims one after the other, of any workspaces.\<close>

definition claim_step :: "ident \<times> millis \<Rightarrow> billing_db \<Rightarrow> billing_db" where
  "claim_step r db = snd (claim_checkout_slot (snd r) id (fst r) db)"

lemma claims_keep:
  assumes "unique_on sub_workspace (bl_subs db)" "claimed_since t ws db"
    "list_all (\<lambda>r. fst r = ws \<longrightarrow> snd r \<le> t + checkout_pending_ms) rs"
  shows "sub_of ws (fold claim_step rs db) = sub_of ws db \<and> unique_on sub_workspace (bl_subs (fold claim_step rs db))"
  using assms
proof (induction rs arbitrary: db)
  case (Cons r rs)
  let ?db = "claim_step r db"
  have u: "unique_on sub_workspace (bl_subs ?db)" using claim_unique [OF Cons.prems(1)] by (simp add: claim_step_def)
  have same: "sub_of ws ?db = sub_of ws db"
    using fresh_claim_blocks(2) [OF Cons.prems(1,2)] claim_frame [of ws "fst r"] Cons.prems(3)
    by (cases "fst r = ws") (simp_all add: claim_step_def)
  then have "claimed_since t ws ?db" using Cons.prems(2) by (simp add: claimed_since_def)
  with Cons.IH [OF u] Cons.prems(3) same show ?case by simp
qed simp

text \<open>
  C24. One checkout at a time. A granted claim is recorded for a workspace that has no live
  subscription, and for the next hour every further claim of the workspace is refused, whatever
  claims of any workspaces come in between.
\<close>
theorem checkout_claim_exclusive:
  assumes "unique_on sub_workspace (bl_subs (other db))" "claim_checkout_slot t other ws db = (Inr (), db')"
    and "list_all (\<lambda>r. fst r = ws \<longrightarrow> snd r \<le> t + checkout_pending_ms) requests" "now \<le> t + checkout_pending_ms"
  shows "\<not> has_live_subscription (sub_of ws (fold claim_step requests db')) \<and>
    fst (claim_checkout_slot now id ws (fold claim_step requests db')) \<noteq> Inr ()"
proof -
  note g = claim_granted [OF assms(1,2)]
  note k = claims_keep [of db' t ws requests]
  have "claimed_since t ws (fold claim_step requests db')"
    using k g assms(3) by (simp add: claimed_since_def)
  with fresh_claim_blocks(1) k g assms(3,4) show ?thesis by auto
qed

text \<open>A second request of the same owner within the hour, and one of another workspace.\<close>
theorem checkout_claim_exclusive_witness:
  "fst (claim_checkout_slot 3000000 id ''w1'' (fold claim_step [(''w2'', 10), (''w1'', 20)]
     (snd (claim_checkout_slot 5 id ''w1'' empty_billing)))) \<noteq> Inr ()"
proof -
  have g: "claim_checkout_slot 5 id ''w1'' empty_billing = (Inr (), snd (claim_checkout_slot 5 id ''w1'' empty_billing))"
    by code_simp
  have u: "unique_on sub_workspace (bl_subs (id empty_billing))" by code_simp
  show ?thesis
    using checkout_claim_exclusive [OF u g, of "[(''w2'', 10), (''w1'', 20)]" 3000000]
    by (simp add: checkout_pending_ms_def)
qed

subsection \<open>Two requests that supersede the same session\<close>

definition any_url :: url_parser where
  "any_url s = Some \<lparr>url_protocol = ''https:'', url_hostname = ''app'', url_origin = ''https://app'', url_href = s,
     url_username = [], url_password = []\<rparr>"

definition checkout_env :: env where
  "checkout_env = (\<lambda>name. if name = ''STRIPE_SECRET_KEY'' then Some ''sk''
     else if name = ''STRIPE_PRICE_HOSTED_PRO'' then Some ''price_pro'' else None)"

text \<open>Stripe: the old session has the status \<open>old\<close>, a new one gets the number \<open>n\<close>.\<close>

definition checkout_stripe :: "string \<Rightarrow> string \<Rightarrow> stripe" where
  "checkout_stripe old n = (\<lambda>verb path form key attempt.
     if path = ''checkout/sessions/cs0'' then Stripe_Reply 200 [(''status'', JString old)]
     else if path = ''checkout/sessions/cs0/expire'' then Stripe_Reply 200 []
     else if path = ''checkout/sessions'' then Stripe_Reply 200 [(''url'', JString (''pay'' @ n)), (''id'', JString (''cs'' @ n))]
     else Stripe_Silent)"

definition checkout_world :: "string \<Rightarrow> string \<Rightarrow> millis \<Rightarrow> (nat \<Rightarrow> billing_db \<Rightarrow> billing_db) \<Rightarrow> billing_world" where
  "checkout_world old n now other =
     \<lparr>bw_env = checkout_env, bw_parse = any_url, bw_stripe = checkout_stripe old n, bw_clock = (\<lambda>i. now + int i),
      bw_other = other, bw_show = (\<lambda>_. [])\<rparr>"

definition open_checkout :: "string \<Rightarrow> millis \<Rightarrow> billing_db" where
  "open_checkout session t = \<lparr>bl_workspaces = [''w1''],
     bl_subs = [(default_subscription ''w1'')\<lparr>sub_checkout_claimed := Some t, sub_checkout_session := Some session\<rparr>],
     bl_events = []\<rparr>"

text \<open>A subscription row that lets a checkout start.\<close>

definition without_plan :: "subscription \<Rightarrow> bool" where
  "without_plan s \<longleftrightarrow> sub_stripe_id s = None \<or> sub_plan s = ''hosted_trial'' \<or> sub_status s \<notin> set live_statuses"

lemma without_plan_not_live: "without_plan s \<Longrightarrow> \<not> has_live_subscription (Some s)"
  by (auto simp: without_plan_def has_live_subscription_def truthy_def)

text \<open>A fresh claim refuses, and names the session it belongs to.\<close>

lemma fresh_claim_answer:
  assumes "unique_on sub_workspace (bl_subs db)" "sub_of ws db = Some s" "without_plan s"
    "sub_checkout_claimed s = Some t" "now \<le> t + checkout_pending_ms"
  shows "\<exists>m. claim_checkout_slot now id ws db = (Inl (Checkout_In_Progress m (sub_checkout_session s)), db)"
proof -
  have nc: "\<not> claimable_slot ws now s" using assms(4,5) by (simp add: claimable_slot_def)
  then have none: "count_rows (claimable_slot ws now) (bl_subs db) = 0" by (simp only: count_claimable [OF assms(1,2)] if_False)
  then have "update_rows (claimable_slot ws now) (\<lambda>s. s\<lparr>sub_checkout_claimed := Some now\<rparr>) (bl_subs db) = bl_subs db"
    by (intro update_rows_idle) (simp add: count_rows_0_iff)
  then show ?thesis
    using none assms(2) without_plan_not_live [OF assms(3)]
    by (simp add: claim_checkout_slot_def claim_existing_slot_def Let_def)
qed

lemma released_claim_granted:
  assumes "unique_on sub_workspace (bl_subs db)" "sub_of ws db = Some s" "without_plan s"
  shows "\<exists>db'. claim_checkout_slot now id ws (release_checkout ws db) = (Inr (), db') \<and>
    sub_of ws db' = Some (s\<lparr>sub_checkout_claimed := Some now, sub_checkout_session := None\<rparr>)"
proof -
  let ?db = "release_checkout ws db" and ?s = "s\<lparr>sub_checkout_claimed := None, sub_checkout_session := None\<rparr>"
  have w: "sub_workspace s = ws" by (rule sub_of_workspace [OF assms(2)])
  have s: "sub_of ws ?db = Some ?s" using assms(2) w by (simp add: release_checkout_def sub_of_update)
  have u: "unique_on sub_workspace (bl_subs ?db)" using assms(1) by (simp add: release_checkout_def unique_on_update)
  have open': "without_plan ?s" using assms(3) by (simp add: without_plan_def)
  have c: "claimable_slot ws now ?s" using open' w by (simp add: claimable_slot_def without_plan_def)
  then have "count_rows (claimable_slot ws now) (bl_subs ?db) = 1" by (simp only: count_claimable [OF u s] if_True)
  then show ?thesis
    using s c without_plan_not_live [OF open']
    by (simp add: claim_checkout_slot_def claim_existing_slot_def Let_def sub_of_update)
qed

text \<open>
  C25. Two checkouts at a time. A request finds a fresh claim and asks Stripe about its session;
  meanwhile another request has expired that session and holds a fresh claim of its own, with a new
  session somebody can pay. A claim would be refused at that moment, but superseding releases
  whatever claim it finds: the request is granted a second claim (with which it opens a session of
  its own) and the row no longer knows the session of the other one.
\<close>
theorem double_checkout_race:
  assumes "unique_on sub_workspace (bl_subs db)" "sub_of ws db = Some s" "without_plan s"
    and "sub_checkout_claimed s = Some t" "bw_clock w 0 \<le> t + checkout_pending_ms" "sub_checkout_session s = Some old" "old \<noteq> []"
    and "unique_on sub_workspace (bl_subs (bw_other w 1 db))" "sub_of ws (bw_other w 1 db) = Some s'" "without_plan s'"
    and "sub_checkout_claimed s' = Some t'" "bw_clock w 1 \<le> t' + checkout_pending_ms" "sub_checkout_session s' = Some new"
    and "bw_other w 0 = id" "bw_other w 2 = id" "stripe_configured (bw_env w)"
    and "bw_stripe w ''GET'' (''checkout/sessions/'' @ encode_uri_component old) [] None 1 = Stripe_Reply code members" "status_ok code"
    and "json_get ''status'' (Some (JObject members)) = Some (JString ''expired'')"
  shows "fst (claim_checkout_slot (bw_clock w 1) id ws (bw_other w 1 db)) \<noteq> Inr () \<and>
    (\<exists>db'. claim_or_supersede w ws db = (Inr (), db') \<and>
       sub_of ws db' = Some (s'\<lparr>sub_checkout_claimed := Some (bw_clock w 1), sub_checkout_session := None\<rparr>))"
proof -
  obtain m where one: "claim_checkout_slot (bw_clock w 0) id ws db = (Inl (Checkout_In_Progress m (Some old)), db)"
    using fresh_claim_answer [OF assms(1-5)] assms(6) by auto
  have superseded: "supersede_open_checkout w ws (Some old) d = (Inr True, release_checkout ws d)" for d
    using assms(7,16-19) by (simp add: supersede_open_checkout_def Let_def truthy_def)
  have blocked: "fst (claim_checkout_slot (bw_clock w 1) id ws (bw_other w 1 db)) \<noteq> Inr ()"
    using fresh_claim_answer [OF assms(8-12)] by auto
  have go: "claim_or_supersede w ws db = claim_checkout_slot (bw_clock w 1) id ws (release_checkout ws (bw_other w 1 db))"
    unfolding claim_or_supersede_def assms(14,15) one by (simp add: superseded)
  from released_claim_granted [OF assms(8-10), of "bw_clock w 1"] blocked show ?thesis unfolding go by blast
qed

definition first_request :: "billing_db \<Rightarrow> (billing_error + string) \<times> billing_db" where
  "first_request = create_checkout_session (checkout_world ''open'' ''1'' 100 (\<lambda>_. id)) ''w1'' ''a@b.c'' ''price_pro'' ''ok'' ''no''"

definition second_world :: billing_world where
  "second_world = checkout_world ''expired'' ''2'' 101 (\<lambda>i. if i = 1 then snd \<circ> first_request else id)"

text \<open>The first request expires the abandoned session and opens \<open>cs1\<close>; the second is granted a claim all the same.\<close>

lemma first_request_run: "first_request (open_checkout ''cs0'' 50) = (Inr ''pay1'', open_checkout ''cs1'' 101)"
  by code_simp

theorem double_checkout_race_witness:
  "fst (claim_or_supersede second_world ''w1'' (open_checkout ''cs0'' 50)) = Inr ()"
proof -
  let ?db = "open_checkout ''cs0'' 50"
  have other: "bw_other second_world 1 ?db = open_checkout ''cs1'' 101" "bw_other second_world 0 = id" "bw_other second_world 2 = id"
    using first_request_run by (simp_all add: second_world_def checkout_world_def)
  have row: "unique_on sub_workspace (bl_subs (open_checkout c k))"
    "sub_of ''w1'' (open_checkout c k) = Some ((default_subscription ''w1'')\<lparr>sub_checkout_claimed := Some k, sub_checkout_session := Some c\<rparr>)" for c k
    by (simp_all add: open_checkout_def sub_of_def default_subscription_def)
  have plan: "without_plan ((default_subscription ''w1'')\<lparr>sub_checkout_claimed := Some k, sub_checkout_session := Some c\<rparr>)" for c k
    by (simp add: without_plan_def default_subscription_def)
  have clock: "bw_clock second_world 0 \<le> 50 + checkout_pending_ms" "bw_clock second_world 1 \<le> 101 + checkout_pending_ms"
    by (simp_all add: second_world_def checkout_world_def checkout_pending_ms_def)
  have env: "stripe_configured (bw_env second_world)" by code_simp
  have path: "''checkout/sessions/'' @ encode_uri_component ''cs0'' = ''checkout/sessions/cs0''" by code_simp
  have stripe: "bw_stripe second_world ''GET'' (''checkout/sessions/'' @ encode_uri_component ''cs0'') [] None 1 =
      Stripe_Reply 200 [(''status'', JString ''expired'')]"
    unfolding path by (simp add: second_world_def checkout_world_def checkout_stripe_def)
  have ok: "status_ok 200" "json_get ''status'' (Some (JObject [(''status'', JString ''expired'')])) = Some (JString ''expired'')"
    by code_simp+
  note race = double_checkout_race [of ?db "''w1''" _ 50 second_world "''cs0''" _ 101 "''cs1''", OF row plan _ clock(1) _ _ _ _ plan _ clock(2) _ other(2,3) env stripe ok]
  show ?thesis using race unfolding other(1) by (auto simp: row)
qed

end
