(* ===== verification/Auth_Tokens.thy ===== *)
theory Auth_Tokens
  imports Js_Runtime Auth_Throttle "HOL-Library.Product_Lexorder"
begin

text \<open>
  Credentials: the single-use tokens of \<^verbatim>\<open>webapp/src/lib/authTokens.ts\<close>, the bearer tokens of
  \<^verbatim>\<open>apiTokens.ts\<close> and the browser sessions of \<^verbatim>\<open>sessions.ts\<close>.

  Only hashes of secrets are stored; SHA-256 is the argument \<open>hash\<close>, fresh random secrets and row
  identifiers are arguments. A lookup by hash uses the unique index of the column. An operation of several
  statements (a token is created, then older ones are pruned) is taken as one step.
\<close>

subsection \<open>Tables\<close>

datatype auth_purpose = Verify_Email | Reset_Password | Invite | Desktop_Connect

record auth_token =
  ak_id :: ident
  ak_hash :: string
  ak_purpose :: auth_purpose
  ak_email :: string
  ak_user :: "ident option"
  ak_workspace :: "ident option"
  ak_role :: "string option"
  ak_invited :: "ident option"
  ak_created :: millis
  ak_expires :: millis
  ak_used :: "millis option"

record user_row =
  us_id :: ident
  us_email :: string
  us_must_change :: bool

record api_token =
  ap_id :: ident
  ap_user :: ident
  ap_hash :: string
  ap_scope :: string
  ap_workspace :: "ident option"
  ap_label :: "string option"
  ap_agent :: "string option"
  ap_created :: millis
  ap_last_used :: "millis option"
  ap_expires :: millis
  ap_revoked :: "millis option"

record session_row =
  sn_id :: ident
  sn_user :: ident
  sn_created :: millis
  sn_expires :: millis
  sn_last_used :: "millis option"
  sn_agent :: "string option"
  sn_ip :: "string option"
  sn_workspace :: "ident option"

record auth_db =
  ad_users :: "user_row list"
  ad_tokens :: "auth_token list"
  ad_api :: "api_token list"
  ad_sessions :: "session_row list"
  ad_codes :: "(ident \<times> millis) list"

subsection \<open>Single-use tokens\<close>

fun auth_token_ttl :: "auth_purpose \<Rightarrow> millis" where
  "auth_token_ttl Verify_Email = 24 * (60 * 60 * 1000)"
| "auth_token_ttl Reset_Password = 1 * (60 * 60 * 1000)"
| "auth_token_ttl Invite = 7 * 24 * (60 * 60 * 1000)"
| "auth_token_ttl Desktop_Connect = 10 * 60 * 1000"

record issue_input =
  ii_purpose :: auth_purpose
  ii_email :: string
  ii_user :: "ident option"
  ii_workspace :: "ident option"
  ii_role :: "string option"
  ii_invited :: "ident option"

definition superseded :: "issue_input \<Rightarrow> auth_token \<Rightarrow> bool" where
  "superseded input r \<longleftrightarrow> ak_used r = None \<and> ak_purpose r = ii_purpose input \<and>
     ak_email r = normalize_email (ii_email input) \<and>
     (if ii_purpose input = Invite then ak_workspace r = ii_workspace input else ak_user r = ii_user input)"

definition new_token :: "(string \<Rightarrow> string) \<Rightarrow> millis \<Rightarrow> ident \<Rightarrow> string \<Rightarrow> issue_input \<Rightarrow> auth_token" where
  "new_token hash now new_id token input =
     \<lparr>ak_id = new_id, ak_hash = hash token, ak_purpose = ii_purpose input, ak_email = normalize_email (ii_email input),
      ak_user = ii_user input, ak_workspace = ii_workspace input, ak_role = ii_role input,
      ak_invited = ii_invited input, ak_created = now, ak_expires = now + auth_token_ttl (ii_purpose input),
      ak_used = None\<rparr>"

text \<open>The transaction fails as a whole when the hash is taken: the column is unique.\<close>

definition issue_auth_token ::
  "(string \<Rightarrow> string) \<Rightarrow> millis \<Rightarrow> ident \<Rightarrow> string \<Rightarrow> issue_input \<Rightarrow> auth_token list
   \<Rightarrow> (string \<times> millis) option \<times> auth_token list" where
  "issue_auth_token hash now new_id token input rows =
     (let kept = delete_rows (superseded input) rows in
      if hash token \<in> ak_hash ` set kept then (None, rows)
      else (Some (token, now + auth_token_ttl (ii_purpose input)), kept @ [new_token hash now new_id token input]))"

definition token_shape :: "string \<Rightarrow> bool" where
  "token_shape token \<longleftrightarrow> token \<noteq> [] \<and> length token \<le> 128"

definition peek_auth_token ::
  "(string \<Rightarrow> string) \<Rightarrow> string \<Rightarrow> auth_purpose \<Rightarrow> millis \<Rightarrow> auth_token list \<Rightarrow> auth_token option" where
  "peek_auth_token hash token purpose now rows =
     (if \<not> token_shape token then None
      else case find_row (\<lambda>r. ak_hash r = hash token) rows of
          None \<Rightarrow> None
        | Some r \<Rightarrow>
            if ak_purpose r \<noteq> purpose \<or> ak_used r \<noteq> None \<or> ak_expires r \<le> now then None else Some r)"

definition spendable_row :: "(string \<Rightarrow> string) \<Rightarrow> string \<Rightarrow> auth_purpose \<Rightarrow> millis \<Rightarrow> auth_token \<Rightarrow> bool" where
  "spendable_row hash token purpose now r \<longleftrightarrow>
     ak_hash r = hash token \<and> ak_purpose r = purpose \<and> ak_used r = None \<and> now < ak_expires r"

definition consume_auth_token ::
  "(string \<Rightarrow> string) \<Rightarrow> string \<Rightarrow> auth_purpose \<Rightarrow> millis \<Rightarrow> auth_token list \<Rightarrow> auth_token option \<times> auth_token list" where
  "consume_auth_token hash token purpose now rows =
     (if \<not> token_shape token then (None, rows)
      else
        let p = spendable_row hash token purpose now;
            rows' = update_rows p (\<lambda>r. r\<lparr>ak_used := Some now\<rparr>) rows
        in (if count_rows p rows \<noteq> 1 then None else find_row (\<lambda>r. ak_hash r = hash token) rows', rows'))"

definition revoke_invites :: "ident \<Rightarrow> ident \<Rightarrow> auth_token list \<Rightarrow> bool \<times> auth_token list" where
  "revoke_invites ws invite rows =
     (let p = (\<lambda>r. ak_id r = invite \<and> ak_workspace r = Some ws \<and> ak_purpose r = Invite \<and> ak_used r = None)
      in (0 < count_rows p rows, delete_rows p rows))"

text \<open>Newest first, then by identifier.\<close>

definition list_pending_invites :: "ident \<Rightarrow> millis \<Rightarrow> auth_token list \<Rightarrow> auth_token list" where
  "list_pending_invites ws now rows =
     sort_key (\<lambda>r. - ak_created r) (sort_key ak_id
       (filter (\<lambda>r. ak_workspace r = Some ws \<and> ak_purpose r = Invite \<and> ak_used r = None \<and> now < ak_expires r) rows))"

subsection \<open>Bearer tokens\<close>

definition api_token_prefix :: string where
  "api_token_prefix = ''ant_''"

definition api_token_lifetime :: millis where
  "api_token_lifetime = 90 * 24 * 60 * 60 * 1000"

definition api_token_scope :: string where
  "api_token_scope = ''managed''"

definition desktop_notes_scope :: string where
  "desktop_notes_scope = ''desktop_notes_sync''"

definition read_token_scope :: string where
  "read_token_scope = ''notes_read''"

definition api_touch_interval :: millis where
  "api_touch_interval = 60 * 60 * 1000"

definition max_api_tokens_per_user :: nat where
  "max_api_tokens_per_user = 25"

definition looks_like_api_token :: "string \<Rightarrow> bool" where
  "looks_like_api_token v \<longleftrightarrow> take 4 v = api_token_prefix"

definition non_empty :: "string \<Rightarrow> string option" where
  "non_empty s = (if s = [] then None else Some s)"

text \<open>\<open>prunes\<close> is whether the housekeeping queries run; a failure is logged.\<close>

definition prune_api_tokens :: "bool \<Rightarrow> ident \<Rightarrow> string \<Rightarrow> millis \<Rightarrow> api_token list \<Rightarrow> api_token list" where
  "prune_api_tokens prunes user scope now rows =
     (if \<not> prunes then rows
      else
        let live = delete_rows (\<lambda>r. ap_user r = user \<and> ap_expires r \<le> now) rows;
            mine = (\<lambda>r. ap_user r = user \<and> ap_scope r = scope);
            keep = take max_api_tokens_per_user (sort_key (\<lambda>r. - ap_created r) (filter mine live))
        in if length keep = max_api_tokens_per_user
           then delete_rows (\<lambda>r. mine r \<and> ap_id r \<notin> set (map ap_id keep)) live
           else live)"

record api_options =
  ao_label :: "string option"
  ao_agent :: "string option"
  ao_scope :: "string option"
  ao_workspace :: "ident option"

definition new_api_token ::
  "(string \<Rightarrow> string) \<Rightarrow> millis \<Rightarrow> ident \<Rightarrow> string \<Rightarrow> ident \<Rightarrow> string \<Rightarrow> api_options \<Rightarrow> api_token" where
  "new_api_token hash now new_id token user scope options =
     \<lparr>ap_id = new_id, ap_user = user, ap_hash = hash token, ap_scope = scope, ap_workspace = ao_workspace options,
      ap_label = Option.bind (ao_label options) (\<lambda>l. non_empty (take 80 (trim l))),
      ap_agent = map_option (take 300) (ao_agent options), ap_created = now, ap_last_used = Some now,
      ap_expires = now + api_token_lifetime, ap_revoked = None\<rparr>"

text \<open>\<open>None\<close>: the options are refused, or the hash is taken. \<open>random\<close> is the random part of the secret.\<close>

definition create_api_token ::
  "(string \<Rightarrow> string) \<Rightarrow> bool \<Rightarrow> millis \<Rightarrow> ident \<Rightarrow> string \<Rightarrow> ident \<Rightarrow> api_options \<Rightarrow> api_token list
   \<Rightarrow> (ident \<times> string \<times> millis) option \<times> api_token list" where
  "create_api_token hash prunes now new_id random user options rows =
     (let scope = (case ao_scope options of Some s \<Rightarrow> s | None \<Rightarrow> api_token_scope);
          token = api_token_prefix @ random
      in if scope = desktop_notes_scope \<and> \<not> truthy (ao_workspace options) then (None, rows)
         else if hash token \<in> ap_hash ` set rows then (None, rows)
         else (Some (new_id, token, now + api_token_lifetime),
               prune_api_tokens prunes user scope now (rows @ [new_api_token hash now new_id token user scope options])))"

record api_user =
  au_id :: ident
  au_email :: string
  au_token :: ident
  au_workspace :: "ident option"

definition resolve_api_token ::
  "(string \<Rightarrow> string) \<Rightarrow> string \<Rightarrow> millis \<Rightarrow> string \<Rightarrow> auth_db \<Rightarrow> api_user option \<times> auth_db" where
  "resolve_api_token hash secret now scope db =
     (if \<not> looks_like_api_token secret \<or> 200 < length secret then (None, db)
      else case find_row (\<lambda>r. ap_hash r = hash secret) (ad_api db) of
          None \<Rightarrow> (None, db)
        | Some r \<Rightarrow>
            if ap_revoked r \<noteq> None \<or> ap_scope r \<noteq> scope then (None, db)
            else if ap_expires r \<le> now
            then (None, db\<lparr>ad_api := delete_rows (\<lambda>x. ap_id x = ap_id r) (ad_api db)\<rparr>)
            else (case find_row (\<lambda>u. us_id u = ap_user r) (ad_users db) of
                None \<Rightarrow> (None, db)
              | Some u \<Rightarrow>
                  if us_must_change u then (None, db)
                  else (Some \<lparr>au_id = us_id u, au_email = us_email u, au_token = ap_id r, au_workspace = ap_workspace r\<rparr>,
                    if (case ap_last_used r of None \<Rightarrow> True | Some t \<Rightarrow> t < now - api_touch_interval)
                    then db\<lparr>ad_api := update_rows (\<lambda>x. ap_id x = ap_id r \<and> ap_revoked x = None)
                      (\<lambda>x. x\<lparr>ap_last_used := Some now, ap_expires := now + api_token_lifetime\<rparr>) (ad_api db)\<rparr>
                    else db)))"

definition resolve_read_token :: "(string \<Rightarrow> string) \<Rightarrow> string \<Rightarrow> millis \<Rightarrow> auth_db \<Rightarrow> api_user option \<times> auth_db" where
  "resolve_read_token hash secret now db = resolve_api_token hash secret now read_token_scope db"

definition revoke_api_token :: "ident \<Rightarrow> ident \<Rightarrow> api_token list \<Rightarrow> bool \<times> api_token list" where
  "revoke_api_token user tid rows =
     (let p = (\<lambda>r. ap_id r = tid \<and> ap_user r = user) in (0 < count_rows p rows, delete_rows p rows))"

definition revoke_api_token_by_secret :: "(string \<Rightarrow> string) \<Rightarrow> string \<Rightarrow> api_token list \<Rightarrow> bool \<times> api_token list" where
  "revoke_api_token_by_secret hash secret rows =
     (if \<not> looks_like_api_token secret then (False, rows)
      else let p = (\<lambda>r. ap_hash r = hash secret) in (0 < count_rows p rows, delete_rows p rows))"

definition revoke_all_api_tokens :: "ident \<Rightarrow> api_token list \<Rightarrow> nat \<times> api_token list" where
  "revoke_all_api_tokens user rows = (count_rows (\<lambda>r. ap_user r = user) rows, delete_rows (\<lambda>r. ap_user r = user) rows)"

definition list_api_tokens :: "ident \<Rightarrow> millis \<Rightarrow> api_token list \<Rightarrow> api_token list" where
  "list_api_tokens user now rows =
     sort_key (\<lambda>r. - ap_created r) (sort_key ap_id
       (filter (\<lambda>r. ap_user r = user \<and> ap_revoked r = None \<and> now < ap_expires r) rows))"

subsection \<open>Browser sessions\<close>

definition session_lifetime :: millis where
  "session_lifetime = 1000 * 60 * 60 * 24 * 30"

definition session_touch_interval :: millis where
  "session_touch_interval = 5 * 60 * 1000"

definition max_listed_sessions :: nat where
  "max_listed_sessions = 50"

record session_meta =
  sm_agent :: "string option"
  sm_ip :: "string option"
  sm_workspace :: "ident option"

definition create_session ::
  "millis \<Rightarrow> ident \<Rightarrow> ident \<Rightarrow> session_meta \<Rightarrow> session_row list \<Rightarrow> (ident \<times> millis) \<times> session_row list" where
  "create_session now new_id user meta rows =
     ((new_id, now + session_lifetime),
      rows @ [\<lparr>sn_id = new_id, sn_user = user, sn_created = now, sn_expires = now + session_lifetime,
        sn_last_used = Some now, sn_agent = map_option (take 300) (sm_agent meta),
        sn_ip = map_option (take 64) (sm_ip meta), sn_workspace = sm_workspace meta\<rparr>])"

definition delete_session :: "ident \<Rightarrow> auth_db \<Rightarrow> auth_db" where
  "delete_session sid db = db\<lparr>ad_sessions := delete_rows (\<lambda>s. sn_id s = sid) (ad_sessions db)\<rparr>"

record session_context =
  sc_session :: ident
  sc_user :: user_row
  sc_workspace :: "ident option"

definition get_session_context ::
  "string option \<Rightarrow> millis \<Rightarrow> auth_db \<Rightarrow> session_context option \<times> auth_db" where
  "get_session_context sid now db =
     (if \<not> truthy sid \<or> looks_like_api_token (the sid) then (None, db)
      else case find_row (\<lambda>s. sn_id s = the sid) (ad_sessions db) of
          None \<Rightarrow> (None, db)
        | Some s \<Rightarrow>
            if sn_expires s < now then (None, delete_session (sn_id s) db)
            else (case find_row (\<lambda>u. us_id u = sn_user s) (ad_users db) of
                None \<Rightarrow> (None, db)
              | Some u \<Rightarrow>
                  (Some \<lparr>sc_session = sn_id s, sc_user = u, sc_workspace = sn_workspace s\<rparr>,
                   if (case sn_last_used s of None \<Rightarrow> True | Some t \<Rightarrow> t < now - session_touch_interval)
                   then db\<lparr>ad_sessions := update_rows (\<lambda>x. sn_id x = sn_id s)
                     (\<lambda>x. x\<lparr>sn_last_used := Some now\<rparr>) (ad_sessions db)\<rparr>
                   else db)))"

definition get_session_user ::
  "(string \<Rightarrow> string) \<Rightarrow> string option \<Rightarrow> millis \<Rightarrow> auth_db \<Rightarrow> (ident \<times> string) option \<times> auth_db" where
  "get_session_user hash sid now db =
     (if \<not> truthy sid then (None, db)
      else if looks_like_api_token (the sid)
      then (let (r, db') = resolve_api_token hash (the sid) now api_token_scope db
            in (map_option (\<lambda>a. (au_id a, au_email a)) r, db'))
      else (let (c, db') = get_session_context sid now db
            in (case c of
                  None \<Rightarrow> None
                | Some c \<Rightarrow> if us_must_change (sc_user c) then None else Some (us_id (sc_user c), us_email (sc_user c)),
                db')))"

definition delete_user_sessions :: "ident \<Rightarrow> ident option \<Rightarrow> session_row list \<Rightarrow> nat \<times> session_row list" where
  "delete_user_sessions user except rows =
     (let p = (\<lambda>s. sn_user s = user \<and> (truthy except \<longrightarrow> sn_id s \<noteq> the except))
      in (count_rows p rows, delete_rows p rows))"

definition revoke_user_session :: "ident \<Rightarrow> ident \<Rightarrow> session_row list \<Rightarrow> bool \<times> session_row list" where
  "revoke_user_session user sid rows =
     (let p = (\<lambda>s. sn_id s = sid \<and> sn_user s = user) in (0 < count_rows p rows, delete_rows p rows))"

text \<open>Most recently used first, never used last, then newest, then by identifier.\<close>

definition list_user_sessions :: "ident \<Rightarrow> millis \<Rightarrow> session_row list \<Rightarrow> session_row list" where
  "list_user_sessions user now rows =
     take max_listed_sessions
       (sort_key (\<lambda>s. case sn_last_used s of Some t \<Rightarrow> (0 :: int, - t) | None \<Rightarrow> (1, 0))
         (sort_key (\<lambda>s. - sn_created s) (sort_key sn_id
           (filter (\<lambda>s. sn_user s = user \<and> now < sn_expires s) rows))))"

definition set_session_active_workspace :: "ident \<Rightarrow> ident option \<Rightarrow> session_row list \<Rightarrow> session_row list" where
  "set_session_active_workspace sid ws rows =
     update_rows (\<lambda>s. sn_id s = sid) (\<lambda>s. s\<lparr>sn_workspace := ws\<rparr>) rows"

definition cleanup_expired_auth :: "millis \<Rightarrow> auth_db \<Rightarrow> auth_db" where
  "cleanup_expired_auth now db =
     db\<lparr>ad_sessions := delete_rows (\<lambda>s. sn_expires s < now) (ad_sessions db),
        ad_api := delete_rows (\<lambda>r. ap_expires r < now) (ad_api db),
        ad_tokens := delete_rows (\<lambda>r. ak_expires r < now - 24 * 60 * 60 * 1000) (ad_tokens db),
        ad_codes := delete_rows (\<lambda>(c, e). e < now) (ad_codes db)\<rparr>"

definition first_match :: "(string \<times> string) list \<Rightarrow> string \<Rightarrow> string option" where
  "first_match table s = map_option snd (List.find (\<lambda>(word, label). contains_sub s word) table)"

definition describe_user_agent :: "string option \<Rightarrow> string" where
  "describe_user_agent agent =
     (if \<not> truthy agent then ''Unknown device''
      else
        let ua = the agent;
            browser = first_match [(''Edg/'', ''Edge''), (''OPR/'', ''Opera''), (''Firefox/'', ''Firefox''),
              (''Chrome/'', ''Chrome''), (''Safari/'', ''Safari'')] ua;
            os = first_match [(''Windows'', ''Windows''), (''Android'', ''Android''), (''iPhone'', ''iOS''),
              (''iPad'', ''iOS''), (''iOS'', ''iOS''), (''Mac OS X'', ''macOS''), (''Macintosh'', ''macOS''),
              (''Linux'', ''Linux'')] ua
        in case (browser, os) of
             (Some b, Some o') \<Rightarrow> b @ '' on '' @ o'
           | (Some b, None) \<Rightarrow> b
           | (None, Some o') \<Rightarrow> o'
           | (None, None) \<Rightarrow> take 40 ua)"

subsection \<open>Tokens are spent once\<close>

lemma consume_find:
  assumes "token_shape token" "count_rows (spendable_row hash token purpose now) rows = 1"
  shows "fst (consume_auth_token hash token purpose now rows) \<noteq> None"
proof -
  from assms(2) obtain r where r: "r \<in> set rows" "spendable_row hash token purpose now r"
    using count_rows_pos_iff [of "spendable_row hash token purpose now" rows] by auto
  let ?f = "\<lambda>r. if spendable_row hash token purpose now r then r\<lparr>ak_used := Some now\<rparr> else r"
  have "?f r \<in> set (update_rows (spendable_row hash token purpose now) (\<lambda>r. r\<lparr>ak_used := Some now\<rparr>) rows)"
    using r(1) by (simp only: set_update_rows image_eqI)
  moreover have "ak_hash (?f r) = hash token" using r(2) by (simp add: spendable_row_def)
  ultimately have "find_row (\<lambda>r. ak_hash r = hash token)
      (update_rows (spendable_row hash token purpose now) (\<lambda>r. r\<lparr>ak_used := Some now\<rparr>) rows) \<noteq> None"
    unfolding find_row_None_iff by blast
  with assms show ?thesis by (simp add: consume_auth_token_def Let_def)
qed

definition spend_token ::
  "(string \<Rightarrow> string) \<Rightarrow> string \<times> auth_purpose \<Rightarrow> millis \<Rightarrow> auth_token list \<Rightarrow> auth_token option \<times> auth_token list" where
  "spend_token hash k now rows = consume_auth_token hash (fst k) (snd k) now rows"

definition token_spendable :: "(string \<Rightarrow> string) \<Rightarrow> string \<times> auth_purpose \<Rightarrow> millis \<Rightarrow> auth_token list \<Rightarrow> bool" where
  "token_spendable hash k now rows \<longleftrightarrow>
     token_shape (fst k) \<and> list_ex (spendable_row hash (fst k) (snd k) now) rows"

text \<open>Everything else that writes the table.\<close>

datatype token_op =
    Issue_Token millis ident string issue_input
  | Revoke_Invite ident ident
  | Cleanup_Tokens millis

fun token_step :: "(string \<Rightarrow> string) \<Rightarrow> token_op \<Rightarrow> auth_token list \<Rightarrow> auth_token list" where
  "token_step hash (Issue_Token now new_id token input) rows = snd (issue_auth_token hash now new_id token input rows)"
| "token_step hash (Revoke_Invite ws invite) rows = snd (revoke_invites ws invite rows)"
| "token_step hash (Cleanup_Tokens now) rows = delete_rows (\<lambda>r. ak_expires r < now - 24 * 60 * 60 * 1000) rows"

fun token_issues :: "(string \<Rightarrow> string) \<Rightarrow> token_op \<Rightarrow> string \<times> auth_purpose \<Rightarrow> bool" where
  "token_issues hash (Issue_Token now new_id token input) k \<longleftrightarrow> hash token = hash (fst k)"
| "token_issues hash _ k \<longleftrightarrow> False"

lemma unique_count_le_1:
  assumes "unique_on key rows" "\<And>r. p r \<Longrightarrow> key r = k"
  shows "count_rows p rows \<le> 1"
  using assms(1)
proof (induction rows)
  case (Cons r rows)
  show ?case
  proof (cases "p r")
    case True
    then have "key r = k" by (rule assms(2))
    then have "\<not> p s" if "s \<in> set rows" for s
      using Cons.prems assms(2) [of s] that by (auto simp: image_iff)
    then have "count_rows p rows = 0" by (simp add: count_rows_0_iff)
    then show ?thesis by simp
  next
    case False
    with Cons show ?thesis by simp
  qed
qed simp

lemma token_spendable_count:
  assumes "unique_on ak_hash rows"
  shows "token_spendable hash k now rows \<longleftrightarrow>
    token_shape (fst k) \<and> count_rows (spendable_row hash (fst k) (snd k) now) rows = 1"
proof -
  let ?n = "count_rows (spendable_row hash (fst k) (snd k) now) rows"
  have "?n \<le> 1"
    by (rule unique_count_le_1 [OF assms, where k = "hash (fst k)"]) (simp add: spendable_row_def)
  then have "?n = 1 \<longleftrightarrow> 0 < ?n" by linarith
  then show ?thesis unfolding token_spendable_def list_ex_iff count_rows_pos_iff by simp
qed

lemma consume_rows:
  "snd (consume_auth_token hash token purpose now rows) =
    (if token_shape token
     then update_rows (spendable_row hash token purpose now) (\<lambda>r. r\<lparr>ak_used := Some now\<rparr>) rows else rows)"
  by (simp add: consume_auth_token_def Let_def)

lemma issue_rows:
  fixes hash token input rows now new_id
  defines "kept \<equiv> delete_rows (superseded input) rows"
  obtains (refused) "snd (issue_auth_token hash now new_id token input rows) = rows"
  | (issued) "hash token \<notin> ak_hash ` set kept"
      "snd (issue_auth_token hash now new_id token input rows) = kept @ [new_token hash now new_id token input]"
  by (cases "hash token \<in> ak_hash ` set kept") (simp_all add: issue_auth_token_def Let_def kept_def)

lemma token_step_unique:
  assumes u: "unique_on ak_hash rows"
  shows "unique_on ak_hash (token_step hash o' rows)"
proof (cases o')
  case (Issue_Token now new_id token input)
  have k: "unique_on ak_hash (delete_rows (superseded input) rows)" by (rule unique_on_delete [OF u])
  show ?thesis
  proof (cases rule: issue_rows [of hash now new_id token input rows])
    case refused
    with u show ?thesis by (simp add: Issue_Token)
  next
    case issued
    with k show ?thesis by (simp add: Issue_Token unique_on_append new_token_def del: set_delete_rows)
  qed
qed (simp_all add: revoke_invites_def Let_def unique_on_delete u)

lemma token_step_dead:
  assumes "\<not> token_issues hash o' k" "\<And>r. r \<in> set rows \<Longrightarrow> \<not> spendable_row hash (fst k) (snd k) t r"
    and "r \<in> set (token_step hash o' rows)"
  shows "\<not> spendable_row hash (fst k) (snd k) t r"
proof (cases o')
  case (Issue_Token now new_id token input)
  show ?thesis
  proof (cases rule: issue_rows [of hash now new_id token input rows])
    case refused
    with assms show ?thesis by (simp add: Issue_Token)
  next
    case issued
    with assms(3) have "r \<in> set rows \<or> ak_hash r = hash token" by (auto simp: Issue_Token new_token_def)
    with assms(1,2) show ?thesis by (auto simp: Issue_Token spendable_row_def)
  qed
next
  case (Revoke_Invite ws invite)
  with assms(2,3) show ?thesis by (simp add: revoke_invites_def Let_def)
next
  case (Cleanup_Tokens now)
  with assms(2,3) show ?thesis by simp
qed

lemma spend_token_set:
  assumes "x \<in> set (snd (spend_token hash k t rows))"
  obtains y where "y \<in> set rows" "token_shape (fst k)"
    "x = (if spendable_row hash (fst k) (snd k) t y then y\<lparr>ak_used := Some t\<rparr> else y)"
  | "x \<in> set rows" "\<not> token_shape (fst k)"
  using assms by (cases "token_shape (fst k)") (auto simp: spend_token_def consume_rows update_rows_def)

lemma spent_row:
  assumes u: "unique_on ak_hash rows" and r: "r \<in> set rows" "spendable_row hash (fst k) (snd k) t r" "token_shape (fst k)"
    and x: "x \<in> set (snd (spend_token hash k t rows))"
  shows "\<not> spendable_row hash (fst k) (snd k) t' x"
  using x
proof (cases rule: spend_token_set)
  case (1 y)
  show ?thesis
  proof (cases "spendable_row hash (fst k) (snd k) t y")
    case True
    with 1 show ?thesis by (simp add: spendable_row_def)
  next
    case False
    have "ak_hash y \<noteq> hash (fst k)"
    proof
      assume "ak_hash y = hash (fst k)"
      then have "y = r" using unique_onD [OF u 1(1) r(1)] r(2) by (simp add: spendable_row_def)
      with False r(2) show False by simp
    qed
    with 1 False show ?thesis by (simp add: spendable_row_def)
  qed
next
  case 2
  with r(3) show ?thesis by simp
qed

lemma unspent_row:
  assumes "\<And>y. y \<in> set rows \<Longrightarrow> \<not> spendable_row hash token purpose t' y"
    and x: "x \<in> set (snd (spend_token hash k t rows))"
  shows "\<not> spendable_row hash token purpose t' x"
  using x
proof (cases rule: spend_token_set)
  case (1 y)
  have "\<not> spendable_row hash token purpose t' y" by (rule assms(1) [OF 1(1)])
  with 1(3) show ?thesis by (cases "spendable_row hash (fst k) (snd k) t y") (simp_all add: spendable_row_def)
next
  case 2
  then show ?thesis using assms(1) by blast
qed

interpretation auth: single_use "spend_token hash" "token_spendable hash" "token_step hash" "token_issues hash"
  "unique_on ak_hash" for hash
proof unfold_locales
  fix k t t' rows o' k'
  assume inv: "unique_on ak_hash (rows :: auth_token list)"
  show "fst (spend_token hash k t rows) \<noteq> None \<longleftrightarrow> token_spendable hash k t rows"
    unfolding token_spendable_count [OF inv]
    using consume_find [of "fst k" hash "snd k" t rows]
    by (cases "token_shape (fst k)") (auto simp: spend_token_def consume_auth_token_def Let_def)
  show "\<not> token_spendable hash k t' (snd (spend_token hash k t rows))" if "token_spendable hash k t rows"
    using that spent_row [OF inv] by (auto simp: token_spendable_def list_ex_iff)
  show "unique_on ak_hash (snd (spend_token hash k t rows))"
    using inv by (simp add: spend_token_def consume_rows unique_on_update)
  show "unique_on ak_hash (token_step hash o' rows)" by (rule token_step_unique [OF inv])
  show "\<not> token_spendable hash k t' (snd (spend_token hash k' t rows))" if "\<not> token_spendable hash k t' rows"
    using that unspent_row [of rows hash "fst k" "snd k" t' _ k' t] by (auto simp: token_spendable_def list_ex_iff)
  show "\<not> token_spendable hash k t (token_step hash o' rows)"
    if "\<not> token_issues hash o' k" "\<And>u. \<not> token_spendable hash k u rows"
    using token_step_dead [OF that(1), of rows t] that(2) [of t] by (auto simp: token_spendable_def list_ex_iff)
qed

text \<open>
  C18. A link or code works once: whatever attempts to spend tokens, new tokens, revocations and
  clean-ups happen in whatever order and at whatever times, a token that is not issued again is
  spent at most once.
\<close>
theorem auth_token_spent_once:
  assumes "unique_on ak_hash rows"
    and "list_all (\<lambda>e. case e of Inl _ \<Rightarrow> True | Inr o' \<Rightarrow> \<not> token_issues hash o' k) events"
  shows "length (filter (\<lambda>r. r \<noteq> None) (auth.spends hash k events rows)) \<le> 1"
  using auth.at_most_once [OF assms(1), of hash k events] assms(2) by (simp add: auth.never_issues_def)

definition sample_invite :: issue_input where
  "sample_invite = \<lparr>ii_purpose = Invite, ii_email = '' Ann@Example.com'', ii_user = None,
     ii_workspace = Some ''w1'', ii_role = Some ''member'', ii_invited = Some ''u1''\<rparr>"

definition sample_token_rows :: "auth_token list" where
  "sample_token_rows = snd (issue_auth_token (\<lambda>s. s) 0 ''t1'' ''abc'' sample_invite [])"

text \<open>An invitation opened twice, with another person invited in between.\<close>
theorem auth_token_spent_once_witness:
  "length (filter (\<lambda>r. r \<noteq> None) (auth.spends (\<lambda>s. s) (''abc'', Invite)
     [Inl ((''abc'', Invite), 5), Inr (Issue_Token 6 ''t2'' ''xyz'' sample_invite), Inl ((''abc'', Invite), 7)]
     sample_token_rows)) \<le> 1 \<and>
   auth.spends (\<lambda>s. s) (''abc'', Invite) [Inl ((''abc'', Invite), 5), Inl ((''abc'', Invite), 7)] sample_token_rows
     = [Some (new_token (\<lambda>s. s) 0 ''t1'' ''abc'' sample_invite\<lparr>ak_used := Some 5\<rparr>), None]"
proof
  show "length (filter (\<lambda>r. r \<noteq> None) (auth.spends (\<lambda>s. s) (''abc'', Invite)
     [Inl ((''abc'', Invite), 5), Inr (Issue_Token 6 ''t2'' ''xyz'' sample_invite), Inl ((''abc'', Invite), 7)]
     sample_token_rows)) \<le> 1"
    by (rule auth_token_spent_once) (simp_all add: sample_token_rows_def issue_auth_token_def)
  show "auth.spends (\<lambda>s. s) (''abc'', Invite) [Inl ((''abc'', Invite), 5), Inl ((''abc'', Invite), 7)] sample_token_rows
     = [Some (new_token (\<lambda>s. s) 0 ''t1'' ''abc'' sample_invite\<lparr>ak_used := Some 5\<rparr>), None]"
    by (simp add: spend_token_def consume_auth_token_def sample_token_rows_def issue_auth_token_def token_shape_def
        spendable_row_def new_token_def sample_invite_def Let_def)
qed

subsection \<open>The cap on bearer tokens\<close>

lemma sort_key_least_first:
  assumes "x \<in> set xs" "\<And>y. y \<in> set xs \<Longrightarrow> y \<noteq> x \<Longrightarrow> f x < (f y :: int)"
  shows "0 < n \<Longrightarrow> x \<in> set (take n (sort_key f xs))"
proof -
  assume n: "0 < n"
  have "sort_key f xs \<noteq> []" using assms(1) by (metis empty_iff list.set(1) set_sort)
  then obtain y ys where ys: "sort_key f xs = y # ys" by (cases "sort_key f xs") auto
  have y: "y \<in> set xs" using ys by (metis list.set_intros(1) set_sort)
  have "x \<in> set (y # ys)" using assms(1) ys by (metis set_sort)
  moreover have "\<forall>z \<in> set ys. f y \<le> f z" using sorted_sort_key [of f xs] ys by auto
  ultimately have "f y \<le> f x" by auto
  with assms(2) [OF y] have "y = x" by (cases "y = x") auto
  with n ys show ?thesis by (cases n) auto
qed

definition of_scope :: "ident \<Rightarrow> string \<Rightarrow> api_token \<Rightarrow> bool" where
  "of_scope user scope r \<longleftrightarrow> ap_user r = user \<and> ap_scope r = scope"

lemma prune_capped:
  assumes u: "unique_on ap_id rows"
  shows "count_rows (of_scope user scope) (prune_api_tokens True user scope now rows) \<le> max_api_tokens_per_user"
proof -
  define live where "live = delete_rows (\<lambda>r. ap_user r = user \<and> ap_expires r \<le> now) rows"
  define keep where "keep = take max_api_tokens_per_user
    (sort_key (\<lambda>r. - ap_created r) (filter (of_scope user scope) live))"
  have scope: "(\<lambda>r. ap_user r = user \<and> ap_scope r = scope) = of_scope user scope"
    by (simp add: of_scope_def fun_eq_iff)
  have ul: "unique_on ap_id live" using u by (simp add: live_def unique_on_delete)
  have kl: "length keep \<le> max_api_tokens_per_user" by (simp add: keep_def)
  have prune: "prune_api_tokens True user scope now rows =
    (if length keep = max_api_tokens_per_user
     then delete_rows (\<lambda>r. of_scope user scope r \<and> ap_id r \<notin> set (map ap_id keep)) live else live)"
    by (simp add: prune_api_tokens_def Let_def live_def keep_def scope [symmetric])
  show ?thesis
  proof (cases "length keep = max_api_tokens_per_user")
    case True
    let ?rows = "delete_rows (\<lambda>r. of_scope user scope r \<and> ap_id r \<notin> set (map ap_id keep)) live"
    have "count_rows (of_scope user scope) ?rows \<le> card (set (map ap_id keep))"
      by (rule count_rows_keyed [where key = ap_id]) (use ul in \<open>auto intro: unique_on_delete\<close>)
    also have "\<dots> \<le> length keep" by (metis card_length length_map)
    finally show ?thesis using True by (simp add: prune)
  next
    case False
    then have "length (filter (of_scope user scope) live) \<le> max_api_tokens_per_user"
      using kl by (simp add: keep_def min_def split: if_splits)
    then show ?thesis using False by (simp add: prune count_rows_def)
  qed
qed

lemma prune_keeps_newest:
  assumes "r \<in> set rows" "of_scope user scope r" "now < ap_expires r"
    and "\<And>x. x \<in> set rows \<Longrightarrow> x \<noteq> r \<Longrightarrow> ap_created x < ap_created r"
  shows "r \<in> set (prune_api_tokens prunes user scope now rows)"
proof -
  define live where "live = delete_rows (\<lambda>r. ap_user r = user \<and> ap_expires r \<le> now) rows"
  have scope: "(\<lambda>r. ap_user r = user \<and> ap_scope r = scope) = of_scope user scope"
    by (simp add: of_scope_def fun_eq_iff)
  have live: "r \<in> set live" using assms(1,3) by (simp add: live_def)
  have "r \<in> set (take max_api_tokens_per_user (sort_key (\<lambda>r. - ap_created r) (filter (of_scope user scope) live)))"
    by (rule sort_key_least_first) (use live assms(2,4) in \<open>auto simp: live_def max_api_tokens_per_user_def\<close>)
  then show ?thesis using assms(1) live
    by (simp add: prune_api_tokens_def Let_def live_def [symmetric] scope)
qed

text \<open>
  C26. Signing in again always works and never piles up tokens: after \<open>createApiToken\<close> a user holds at
  most twenty-five tokens of that scope, the new one among them; the tokens of other users, and the
  user's live tokens of other scopes, are all still there.
\<close>
theorem api_tokens_capped:
  assumes "create_api_token hash True now new_id random user options rows = (Some (tid, token, expires), rows')"
    and "unique_on ap_id rows" "new_id \<notin> ap_id ` set rows" "\<And>r. r \<in> set rows \<Longrightarrow> ap_created r < now"
    and "scope = (case ao_scope options of Some s \<Rightarrow> s | None \<Rightarrow> api_token_scope)"
  shows "count_rows (of_scope user scope) rows' \<le> 25 \<and>
    new_api_token hash now new_id token user scope options \<in> set rows' \<and>
    {r \<in> set rows. ap_user r \<noteq> user \<or> (ap_scope r \<noteq> scope \<and> now < ap_expires r)} \<subseteq> set rows'"
proof -
  let ?new = "new_api_token hash now new_id token user scope options"
  have rows': "rows' = prune_api_tokens True user scope now (rows @ [?new])"
    using assms(1,5) by (auto simp: create_api_token_def Let_def split: if_splits)
  have "unique_on ap_id (rows @ [?new])"
    using assms(2,3) by (simp add: unique_on_append new_api_token_def)
  then have cap: "count_rows (of_scope user scope) rows' \<le> 25"
    using prune_capped unfolding rows' max_api_tokens_per_user_def by metis
  have "?new \<in> set rows'"
    unfolding rows' using assms(4)
    by (intro prune_keeps_newest) (auto simp: new_api_token_def of_scope_def api_token_lifetime_def)
  moreover have "{r \<in> set rows. ap_user r \<noteq> user \<or> (ap_scope r \<noteq> scope \<and> now < ap_expires r)} \<subseteq> set rows'"
    unfolding rows' by (auto simp: prune_api_tokens_def Let_def)
  ultimately show ?thesis using cap by simp
qed

definition sample_options :: api_options where
  "sample_options = \<lparr>ao_label = Some '' laptop '', ao_agent = None, ao_scope = None, ao_workspace = None\<rparr>"

text \<open>A user's first token.\<close>
theorem api_tokens_capped_witness:
  "count_rows (of_scope ''u1'' ''managed'')
     (snd (create_api_token (\<lambda>s. s) True 100 ''k1'' ''xyz'' ''u1'' sample_options [])) \<le> 25 \<and>
   new_api_token (\<lambda>s. s) 100 ''k1'' ''ant_xyz'' ''u1'' ''managed'' sample_options \<in>
     set (snd (create_api_token (\<lambda>s. s) True 100 ''k1'' ''xyz'' ''u1'' sample_options []))"
proof -
  have c: "create_api_token (\<lambda>s. s) True 100 ''k1'' ''xyz'' ''u1'' sample_options [] =
    (Some (''k1'', ''ant_xyz'', 100 + api_token_lifetime),
     snd (create_api_token (\<lambda>s. s) True 100 ''k1'' ''xyz'' ''u1'' sample_options []))"
    by (simp add: create_api_token_def sample_options_def api_token_scope_def api_token_prefix_def
        desktop_notes_scope_def Let_def)
  show ?thesis
    using api_tokens_capped [OF c, where scope = "''managed''"]
    by (simp add: sample_options_def api_token_scope_def)
qed

end
