(* ===== verification/Workspaces.thy ===== *)
theory Workspaces
  imports Auth_Tokens Billing
begin

text \<open>
  Accounts, workspaces and who belongs to which (\<open>webapp/src/lib/workspaces.ts\<close>, the membership
  side of \<open>workspacePurge.ts\<close>). A transaction is one definition; identifiers, password hashes and
  what others commit between two statements outside a transaction are arguments.
\<close>

record team_workspace =
  tm_id :: ident
  tm_name :: string
  tm_default :: bool
  tm_created :: millis
  tm_retention :: "int option"

record account =
  ua_id :: ident
  ua_email :: string
  ua_hash :: string
  ua_verified :: "millis option"
  ua_must_change :: bool
  ua_provisioned :: bool
  ua_terms :: "(millis option \<times> string option)"

record membership =
  mb_id :: ident
  mb_user :: ident
  mb_workspace :: ident
  mb_role :: string
  mb_created :: millis

record account_db =
  ac_workspaces :: "team_workspace list"
  ac_users :: "account list"
  ac_members :: "membership list"
  ac_sessions :: "session_row list"
  ac_tokens :: "auth_token list"
  ac_api :: "api_token list"

subsection \<open>Constraints of the schema\<close>

definition rows_unique :: "account list \<Rightarrow> membership list \<Rightarrow> bool" where
  "rows_unique users members \<longleftrightarrow>
     unique_on ua_id users \<and> unique_on ua_email users \<and>
     unique_on mb_id members \<and> unique_on (\<lambda>m. (mb_user m, mb_workspace m)) members"

definition unique_violation :: thrown where
  "unique_violation = \<lparr>th_code = Some ''P2002'', th_name = Some ''PrismaClientKnownRequestError'', th_message = None\<rparr>"

definition missing_row :: thrown where
  "missing_row = \<lparr>th_code = Some ''P2025'', th_name = Some ''PrismaClientKnownRequestError'', th_message = None\<rparr>"

definition broken_reference :: thrown where
  "broken_reference = \<lparr>th_code = Some ''P2003'', th_name = Some ''PrismaClientKnownRequestError'', th_message = None\<rparr>"

text \<open>A transaction that inserts an account and its membership, or neither.\<close>

definition insert_account ::
  "account option \<Rightarrow> membership \<Rightarrow> account_db \<Rightarrow> thrown + account_db" where
  "insert_account user m db =
     (let users = ac_users db @ (case user of None \<Rightarrow> [] | Some u \<Rightarrow> [u]);
          members = ac_members db @ [m]
      in if \<not> rows_unique users members then Inl unique_violation
         else if mb_workspace m \<notin> tm_id ` set (ac_workspaces db) \<or> mb_user m \<notin> ua_id ` set users
         then Inl broken_reference
         else Inr (db\<lparr>ac_users := users, ac_members := members\<rparr>))"

text \<open>Deletes with their cascades.\<close>

definition delete_user_row :: "ident \<Rightarrow> account_db \<Rightarrow> account_db" where
  "delete_user_row uid db =
     db\<lparr>ac_users := delete_rows (\<lambda>u. ua_id u = uid) (ac_users db),
        ac_members := delete_rows (\<lambda>m. mb_user m = uid) (ac_members db),
        ac_sessions := delete_rows (\<lambda>s. sn_user s = uid) (ac_sessions db),
        ac_tokens := delete_rows (\<lambda>t. ak_user t = Some uid) (ac_tokens db),
        ac_api := delete_rows (\<lambda>t. ap_user t = uid) (ac_api db)\<rparr>"

definition delete_workspace_row :: "ident \<Rightarrow> account_db \<Rightarrow> account_db" where
  "delete_workspace_row ws db =
     db\<lparr>ac_workspaces := delete_rows (\<lambda>w. tm_id w = ws) (ac_workspaces db),
        ac_members := delete_rows (\<lambda>m. mb_workspace m = ws) (ac_members db),
        ac_api := delete_rows (\<lambda>t. ap_workspace t = Some ws) (ac_api db)\<rparr>"

definition user_homeless :: "ident \<Rightarrow> account_db \<Rightarrow> bool" where
  "user_homeless uid db \<longleftrightarrow> \<not> list_ex (\<lambda>m. mb_user m = uid) (ac_members db)"

subsection \<open>Creating workspaces and accounts\<close>

text \<open>The oldest default workspace, then by id.\<close>

definition get_default_workspace_id :: "account_db \<Rightarrow> ident option" where
  "get_default_workspace_id db =
     (case sort_key (\<lambda>w. (tm_created w, tm_id w)) (filter tm_default (ac_workspaces db)) of
        w # _ \<Rightarrow> Some (tm_id w) | [] \<Rightarrow> None)"

definition new_account :: "ident \<Rightarrow> string \<Rightarrow> string \<Rightarrow> millis option \<Rightarrow> account" where
  "new_account uid email hash verified =
     \<lparr>ua_id = uid, ua_email = normalize_email email, ua_hash = hash, ua_verified = verified, ua_must_change = False,
      ua_provisioned = False, ua_terms = (None, None)\<rparr>"

definition new_member :: "ident \<Rightarrow> ident \<Rightarrow> ident \<Rightarrow> string \<Rightarrow> millis \<Rightarrow> membership" where
  "new_member mid uid ws role now = \<lparr>mb_id = mid, mb_user = uid, mb_workspace = ws, mb_role = role, mb_created = now\<rparr>"

text \<open>\<open>ids\<close>: the new ids of the user, the membership and the workspace.\<close>

definition create_workspace_with_owner ::
  "millis \<Rightarrow> ident \<times> ident \<Rightarrow> string \<Rightarrow> string \<Rightarrow> account_db \<Rightarrow> (thrown + ident \<times> ident) \<times> account_db" where
  "create_workspace_with_owner now ids email hash db =
     (case get_default_workspace_id db of
        None \<Rightarrow> (Inl missing_row, db)
      | Some ws \<Rightarrow>
          (case insert_account (Some (new_account (fst ids) email hash (Some now)))
                  (new_member (snd ids) (fst ids) ws ''owner'' now) db of
             Inl e \<Rightarrow> (Inl e, db) | Inr db1 \<Rightarrow> (Inr (fst ids, ws), db1)))"

text \<open>
  \<open>grant\<close> is the outcome of the trial grant and the hosted trial when hosted AI is on: \<open>False\<close> when
  the day's grants are used up, which aborts the transaction.
\<close>

datatype signup_failure = Trial_Grant_Limit | Signup_Thrown thrown

definition create_hosted_workspace_with_owner ::
  "millis \<Rightarrow> ident \<times> ident \<times> ident \<Rightarrow> bool \<Rightarrow> string \<Rightarrow> string \<Rightarrow> string \<Rightarrow> millis option \<Rightarrow> string option \<Rightarrow> millis option
   \<Rightarrow> account_db \<Rightarrow> (signup_failure + ident \<times> ident) \<times> account_db" where
  "create_hosted_workspace_with_owner now ids grant email hash name terms_at terms verified db =
     (if \<not> grant then (Inl Trial_Grant_Limit, db)
      else
        let (uid, mid, ws) = ids;
            db1 = db\<lparr>ac_workspaces := ac_workspaces db @
              [\<lparr>tm_id = ws, tm_name = name, tm_default = False, tm_created = now, tm_retention = None\<rparr>]\<rparr>
        in if ws \<in> tm_id ` set (ac_workspaces db) then (Inl (Signup_Thrown unique_violation), db)
           else (case insert_account (Some ((new_account uid email hash verified)\<lparr>ua_terms := (terms_at, terms)\<rparr>))
                   (new_member mid uid ws ''owner'' now) db1 of
             Inl e \<Rightarrow> (Inl (Signup_Thrown e), db) | Inr db2 \<Rightarrow> (Inr (uid, ws), db2)))"

definition add_workspace_member ::
  "millis \<Rightarrow> ident \<times> ident \<Rightarrow> ident \<Rightarrow> string \<Rightarrow> string \<Rightarrow> bool \<Rightarrow> account_db \<Rightarrow> (thrown + ident) \<times> account_db" where
  "add_workspace_member now ids ws email hash must_change db =
     (case insert_account
             (Some ((new_account (fst ids) email hash (Some now))\<lparr>ua_must_change := must_change, ua_provisioned := True\<rparr>))
             (new_member (snd ids) (fst ids) ws ''member'' now) db of
        Inl e \<Rightarrow> (Inl e, db) | Inr db1 \<Rightarrow> (Inr (fst ids), db1))"

subsection \<open>Roles and the active workspace\<close>

definition member_of :: "ident \<Rightarrow> ident \<Rightarrow> account_db \<Rightarrow> membership option" where
  "member_of uid ws db = find_row (\<lambda>m. mb_user m = uid \<and> mb_workspace m = ws) (ac_members db)"

definition get_user_role :: "ident \<Rightarrow> ident \<Rightarrow> account_db \<Rightarrow> string option" where
  "get_user_role uid ws db = map_option mb_role (member_of uid ws db)"

definition memberships_of :: "ident \<Rightarrow> account_db \<Rightarrow> membership list" where
  "memberships_of uid db = sort_key (\<lambda>m. (mb_created m, mb_id m)) (filter (\<lambda>m. mb_user m = uid) (ac_members db))"

definition get_user_default_workspace_id :: "ident \<Rightarrow> account_db \<Rightarrow> ident option" where
  "get_user_default_workspace_id uid db =
     (case memberships_of uid db of m # _ \<Rightarrow> Some (mb_workspace m) | [] \<Rightarrow> None)"

definition resolve_active_workspace :: "ident \<Rightarrow> ident option \<Rightarrow> account_db \<Rightarrow> (ident \<times> string) option" where
  "resolve_active_workspace uid preferred db =
     (let chosen = (if truthy preferred then get_user_role uid (the preferred) db else None) in
      if truthy chosen then Some (the preferred, the chosen)
      else case get_user_default_workspace_id uid db of
          None \<Rightarrow> None
        | Some ws \<Rightarrow>
            if ws = [] then None
            else (let role = get_user_role uid ws db in if truthy role then Some (ws, the role) else None))"

definition list_user_workspaces :: "ident \<Rightarrow> account_db \<Rightarrow> (ident \<times> string \<times> string) list" where
  "list_user_workspaces uid db =
     List.map_filter (\<lambda>m. map_option (\<lambda>w. (tm_id w, tm_name w, mb_role m))
       (find_row (\<lambda>w. tm_id w = mb_workspace m) (ac_workspaces db))) (memberships_of uid db)"

definition min_retention_days :: int where "min_retention_days = 1"

definition max_retention_days :: int where "max_retention_days = 3650"

text \<open>\<open>None\<close> as the days switches retention off; an \<open>Inl\<close> message is thrown.\<close>

definition update_workspace_retention_days ::
  "ident \<Rightarrow> js_number option \<Rightarrow> account_db \<Rightarrow> (string + unit) \<times> account_db" where
  "update_workspace_retention_days ws days db =
     (let valid = (case days of
            None \<Rightarrow> Some None
          | Some (JsNum q) \<Rightarrow>
              if is_safe_integer (JsNum q) \<and> min_retention_days \<le> \<lfloor>q\<rfloor> \<and> \<lfloor>q\<rfloor> \<le> max_retention_days then Some (Some \<lfloor>q\<rfloor>) else None
          | Some _ \<Rightarrow> None)
      in case valid of
           None \<Rightarrow> (Inl (''retention must be between '' @ int_str min_retention_days @ '' and '' @
             int_str max_retention_days @ '' days, or disabled''), db)
         | Some v \<Rightarrow>
             if ws \<notin> tm_id ` set (ac_workspaces db) then (Inl ''P2025'', db)
             else (Inr (), db\<lparr>ac_workspaces := update_rows (\<lambda>w. tm_id w = ws)
               (\<lambda>w. w\<lparr>tm_retention := v\<rparr>) (ac_workspaces db)\<rparr>))"

subsection \<open>Members\<close>

datatype change_result = Change_Ok | Change_Not_Found | Change_Last_Owner

definition owner_count :: "ident \<Rightarrow> account_db \<Rightarrow> nat" where
  "owner_count ws db = count_rows (\<lambda>m. mb_workspace m = ws \<and> mb_role m = ''owner'') (ac_members db)"

definition get_workspace_membership :: "ident \<Rightarrow> ident \<Rightarrow> account_db \<Rightarrow> membership option" where
  "get_workspace_membership ws mid db = find_row (\<lambda>m. mb_id m = mid \<and> mb_workspace m = ws) (ac_members db)"

definition change_member_role :: "ident \<Rightarrow> ident \<Rightarrow> string \<Rightarrow> account_db \<Rightarrow> change_result \<times> account_db" where
  "change_member_role ws mid role db =
     (let owners = owner_count ws db in
      case get_workspace_membership ws mid db of
        None \<Rightarrow> (Change_Not_Found, db)
      | Some m \<Rightarrow>
          if mb_role m = role then (Change_Ok, db)
          else if mb_role m = ''owner'' \<and> role = ''member'' \<and> owners \<le> 1 then (Change_Last_Owner, db)
          else (Change_Ok, db\<lparr>ac_members := update_rows (\<lambda>x. mb_id x = mb_id m) (\<lambda>x. x\<lparr>mb_role := role\<rparr>) (ac_members db)\<rparr>))"

text \<open>The user removed and whether the account went with the membership.\<close>

definition remove_workspace_member ::
  "ident \<Rightarrow> ident \<Rightarrow> account_db \<Rightarrow> (change_result \<times> (ident \<times> bool) option) \<times> account_db" where
  "remove_workspace_member ws mid db =
     (let owners = owner_count ws db in
      case get_workspace_membership ws mid db of
        None \<Rightarrow> ((Change_Not_Found, None), db)
      | Some m \<Rightarrow>
          if mb_role m = ''owner'' \<and> owners \<le> 1 then ((Change_Last_Owner, None), db)
          else
            let db1 = db\<lparr>ac_members := delete_rows (\<lambda>x. mb_id x = mb_id m) (ac_members db),
                  ac_sessions := update_rows (\<lambda>s. sn_user s = mb_user m \<and> sn_workspace s = Some ws)
                    (\<lambda>s. s\<lparr>sn_workspace := None\<rparr>) (ac_sessions db)\<rparr>
            in if user_homeless (mb_user m) db1
               then ((Change_Ok, Some (mb_user m, True)), delete_user_row (mb_user m) db1)
               else ((Change_Ok, Some (mb_user m, False)), db1))"

definition user_belongs_only_to :: "ident \<Rightarrow> ident \<Rightarrow> account_db \<Rightarrow> bool" where
  "user_belongs_only_to uid ws db \<longleftrightarrow>
     count_rows (\<lambda>m. mb_user m = uid \<and> mb_workspace m \<noteq> ws) (ac_members db) = 0"

subsection \<open>Invitations\<close>

record invite =
  iv_email :: string
  iv_workspace :: ident
  iv_role :: "string option"

definition invite_role :: "invite \<Rightarrow> string" where
  "invite_role i = (if iv_role i = Some ''owner'' then ''owner'' else ''member'')"

datatype join_failure = Join_Already_Member | Join_Email_Mismatch | Join_Workspace_Gone | Join_Thrown thrown

definition join_workspace_from_invite ::
  "millis \<Rightarrow> ident \<Rightarrow> ident \<Rightarrow> string \<Rightarrow> invite \<Rightarrow> account_db \<Rightarrow> (join_failure + ident \<times> ident) \<times> account_db" where
  "join_workspace_from_invite now mid uid email i db =
     (if normalize_email email \<noteq> normalize_email (iv_email i) then (Inl Join_Email_Mismatch, db)
      else if iv_workspace i \<notin> tm_id ` set (ac_workspaces db) then (Inl Join_Workspace_Gone, db)
      else (case insert_account None (new_member mid uid (iv_workspace i) (invite_role i) now) db of
          Inl e \<Rightarrow> (Inl (if th_code e = Some ''P2002'' then Join_Already_Member else Join_Thrown e), db)
        | Inr db1 \<Rightarrow> (Inr (uid, iv_workspace i), db1)))"

definition create_user_from_invite ::
  "millis \<Rightarrow> ident \<times> ident \<Rightarrow> invite \<Rightarrow> string \<Rightarrow> millis option \<times> string option \<Rightarrow> account_db
   \<Rightarrow> (join_failure + ident \<times> ident) \<times> account_db" where
  "create_user_from_invite now ids i hash terms db =
     (if iv_workspace i \<notin> tm_id ` set (ac_workspaces db) then (Inl Join_Workspace_Gone, db)
      else (case insert_account (Some ((new_account (fst ids) (iv_email i) hash (Some now))\<lparr>ua_terms := terms\<rparr>))
                   (new_member (snd ids) (fst ids) (iv_workspace i) (invite_role i) now) db of
          Inl e \<Rightarrow> (Inl (Join_Thrown e), db) | Inr db1 \<Rightarrow> (Inr (fst ids, iv_workspace i), db1)))"

subsection \<open>Deleting a workspace and an account\<close>

text \<open>
  The rows a purge removes once the subscription is cancelled: the workspace with its cascades and
  every member account left without one. \<open>members\<close> are the members read before the transaction.
\<close>

definition purge_rows :: "ident \<Rightarrow> ident list \<Rightarrow> account_db \<Rightarrow> account_db" where
  "purge_rows ws members db =
     fold (\<lambda>uid d. if user_homeless uid d then delete_user_row uid d else d) members (delete_workspace_row ws db)"

definition purge_workspace ::
  "billing_error option \<Rightarrow> (account_db \<Rightarrow> account_db) \<Rightarrow> ident \<Rightarrow> account_db \<Rightarrow> (string + unit) \<times> account_db" where
  "purge_workspace cancel other ws db =
     (case cancel of
        Some e \<Rightarrow>
          (Inl (''We couldn'' @ [CHR 0x27] @ ''t cancel this workspace'' @ [CHR 0x27] @
             ''s subscription, so nothing was deleted.'' @
             (case e of
                Billing_Error m \<Rightarrow> if prefix ''A checkout is in progress'' m then '' '' @ m
                  else '' Cancel it under Billing, or try again in a moment.''
              | _ \<Rightarrow> '' Cancel it under Billing, or try again in a moment.'')), db)
      | None \<Rightarrow>
          let members = map mb_user (filter (\<lambda>m. mb_workspace m = ws) (ac_members db));
              db1 = other db
          in if ws \<notin> tm_id ` set (ac_workspaces db1)
             then (Inl (''Billing was cancelled, but we couldn'' @ [CHR 0x27] @
               ''t finish deleting the workspace. Nothing else was removed; try deleting it again in a moment.''), db1)
             else (Inr (), purge_rows ws members db1))"

text \<open>Which workspaces go with an account, or the one that keeps it.\<close>

fun workspaces_to_purge :: "ident \<Rightarrow> membership list \<Rightarrow> account_db \<Rightarrow> string + ident list" where
  "workspaces_to_purge uid [] db = Inr []"
| "workspaces_to_purge uid (m # ms) db =
     (let others = filter (\<lambda>x. mb_workspace x = mb_workspace m \<and> mb_user x \<noteq> uid) (ac_members db) in
      if mb_role m \<noteq> ''owner'' \<or> list_ex (\<lambda>x. mb_role x = ''owner'') others then workspaces_to_purge uid ms db
      else if others \<noteq> [] then
        Inl ([CHR 0x22] @ (case find_row (\<lambda>w. tm_id w = mb_workspace m) (ac_workspaces db) of Some w \<Rightarrow> tm_name w | None \<Rightarrow> []) @
          [CHR 0x22] @ '' has other members and you are its only owner. Promote another owner or remove the members, then try again.'')
      else map_sum id (Cons (mb_workspace m)) (workspaces_to_purge uid ms db))"

fun purge_each ::
  "(ident \<Rightarrow> billing_error option) \<Rightarrow> ident list \<Rightarrow> account_db \<Rightarrow> (string + unit) \<times> account_db" where
  "purge_each cancel [] db = (Inr (), db)"
| "purge_each cancel (ws # wss) db =
     (case purge_workspace (cancel ws) id ws db of
        (Inl e, db1) \<Rightarrow> (Inl e, db1)
      | (Inr _, db1) \<Rightarrow> purge_each cancel wss db1)"

text \<open>\<open>other\<close> is what is committed between the checks and the deletions.\<close>

definition delete_account ::
  "(ident \<Rightarrow> billing_error option) \<Rightarrow> (account_db \<Rightarrow> account_db) \<Rightarrow> ident \<Rightarrow> account_db \<Rightarrow> (string + unit) \<times> account_db" where
  "delete_account cancel other uid db =
     (case workspaces_to_purge uid (filter (\<lambda>m. mb_user m = uid) (ac_members db)) db of
        Inl e \<Rightarrow> (Inl e, db)
      | Inr wss \<Rightarrow>
          (case purge_each cancel wss (other db) of
             (Inl e, db1) \<Rightarrow> (Inl e, db1)
           | (Inr _, db1) \<Rightarrow> (Inr (), delete_user_row uid db1)))"

end
