(* ===== verification/Workspace_Owners.thy ===== *)
theory Workspace_Owners
  imports Workspaces
begin

text \<open>
  Every workspace keeps an owner and every account keeps a workspace, over any sequence of the
  operations; and the run of two account deletions that leaves members without an owner.
\<close>

definition has_owner :: "membership list \<Rightarrow> ident \<Rightarrow> bool" where
  "has_owner members ws \<longleftrightarrow> (\<exists>m \<in> set members. mb_workspace m = ws \<and> mb_role m = ''owner'')"

definition references_ok :: "account_db \<Rightarrow> bool" where
  "references_ok db \<longleftrightarrow>
     (\<forall>m \<in> set (ac_members db). mb_user m \<in> ua_id ` set (ac_users db) \<and> mb_workspace m \<in> tm_id ` set (ac_workspaces db))"

definition housed :: "account_db \<Rightarrow> bool" where
  "housed db \<longleftrightarrow> (\<forall>u \<in> set (ac_users db). \<exists>m \<in> set (ac_members db). mb_user m = ua_id u)"

definition owned_workspaces :: "account_db \<Rightarrow> bool" where
  "owned_workspaces db \<longleftrightarrow> (\<forall>w \<in> set (ac_workspaces db). has_owner (ac_members db) (tm_id w))"

definition team_ok :: "account_db \<Rightarrow> bool" where
  "team_ok db \<longleftrightarrow>
     rows_unique (ac_users db) (ac_members db) \<and> references_ok db \<and> housed db \<and> owned_workspaces db"

lemmas team_defs = team_ok_def references_ok_def housed_def owned_workspaces_def

lemma team_owner:
  "team_ok db \<Longrightarrow> w \<in> set (ac_workspaces db) \<Longrightarrow>
    \<exists>m \<in> set (ac_members db). mb_workspace m = tm_id w \<and> mb_role m = ''owner''"
  by (simp add: team_defs has_owner_def)

lemma housed_iff: "housed db \<longleftrightarrow> ua_id ` set (ac_users db) \<subseteq> mb_user ` set (ac_members db)"
  unfolding housed_def by (force simp: image_iff subset_iff)

subsection \<open>Inserting\<close>

lemma insert_account_ok:
  assumes ok: "team_ok db" and i: "insert_account user m db = Inr db'" and u: "\<And>u. user = Some u \<Longrightarrow> ua_id u = mb_user m"
  shows "team_ok db'"
proof -
  define users where "users = ac_users db @ (case user of None \<Rightarrow> [] | Some u \<Rightarrow> [u])"
  have new: "set users = set (ac_users db) \<union> set_option user"
    by (auto simp: users_def split: option.splits)
  have db': "db' = db\<lparr>ac_users := users, ac_members := ac_members db @ [m]\<rparr>"
    and uq: "rows_unique users (ac_members db @ [m])"
    and ref: "mb_workspace m \<in> tm_id ` set (ac_workspaces db)" "mb_user m \<in> ua_id ` set users"
    using i by (auto simp: insert_account_def Let_def users_def split: if_splits)
  have "references_ok db'" using ok ref new by (auto simp: team_defs db')
  moreover have "housed db'"
    using ok u new unfolding team_defs db' by auto
  moreover have "owned_workspaces db'" using ok by (fastforce simp: team_defs db' has_owner_def)
  ultimately show ?thesis using uq by (simp add: team_ok_def db')
qed

lemma create_workspace_with_owner_ok:
  "team_ok db \<Longrightarrow> team_ok (snd (create_workspace_with_owner now ids email hash db))"
  using insert_account_ok
  by (fastforce simp: create_workspace_with_owner_def new_account_def new_member_def split: option.splits sum.splits)

lemma add_workspace_member_ok:
  "team_ok db \<Longrightarrow> team_ok (snd (add_workspace_member now ids ws email hash mc db))"
  using insert_account_ok
  by (fastforce simp: add_workspace_member_def new_account_def new_member_def split: sum.splits)

lemma join_ok: "team_ok db \<Longrightarrow> team_ok (snd (join_workspace_from_invite now mid uid email i db))"
  using insert_account_ok [of db None] by (fastforce simp: join_workspace_from_invite_def split: sum.splits)

lemma create_user_from_invite_ok: "team_ok db \<Longrightarrow> team_ok (snd (create_user_from_invite now ids i hash terms db))"
  using insert_account_ok
  by (fastforce simp: create_user_from_invite_def new_account_def new_member_def split: sum.splits)

lemma create_hosted_ok:
  assumes ok: "team_ok db"
  shows "team_ok (snd (create_hosted_workspace_with_owner now ids grant email hash name ta tv v db))"
proof -
  obtain uid mid ws where ids: "ids = (uid, mid, ws)" by (cases ids)
  define db1 where "db1 = db\<lparr>ac_workspaces := ac_workspaces db @
    [\<lparr>tm_id = ws, tm_name = name, tm_default = False, tm_created = now, tm_retention = None\<rparr>]\<rparr>"
  define u where "u = (new_account uid email hash v)\<lparr>ua_terms := (ta, tv)\<rparr>"
  have "team_ok db2" if i: "insert_account (Some u) (new_member mid uid ws ''owner'' now) db1 = Inr db2" for db2
  proof -
    have db2: "db2 = db1\<lparr>ac_users := ac_users db @ [u], ac_members := ac_members db @ [new_member mid uid ws ''owner'' now]\<rparr>"
      and uq: "rows_unique (ac_users db2) (ac_members db2)"
      using i by (auto simp: insert_account_def Let_def db1_def split: if_splits)
    have "references_ok db2 \<and> housed db2 \<and> owned_workspaces db2"
      using ok by (fastforce simp: db2 db1_def u_def team_defs has_owner_def new_account_def new_member_def)
    with uq show ?thesis by (simp add: team_ok_def)
  qed
  with ok show ?thesis
    by (auto simp: create_hosted_workspace_with_owner_def ids db1_def u_def Let_def split: sum.splits)
qed


subsection \<open>Members\<close>

lemma members_unique: "rows_unique users members \<Longrightarrow> unique_on mb_id members"
  by (simp add: rows_unique_def)

lemma membership_row:
  "get_workspace_membership ws mid db = Some m \<Longrightarrow> m \<in> set (ac_members db) \<and> mb_id m = mid \<and> mb_workspace m = ws"
  using find_row_SomeD by (fastforce simp: get_workspace_membership_def)

text \<open>A second owner when the count says so.\<close>

lemma other_owner:
  assumes u: "unique_on mb_id members" and m: "m \<in> set members" "mb_workspace m = ws" "mb_role m = ''owner''"
    and c: "1 < count_rows (\<lambda>m. mb_workspace m = ws \<and> mb_role m = ''owner'') members"
  shows "\<exists>x \<in> set members. mb_id x \<noteq> mb_id m \<and> mb_workspace x = ws \<and> mb_role x = ''owner''"
proof (rule ccontr)
  assume "\<not> ?thesis"
  then have "count_rows (\<lambda>m. mb_workspace m = ws \<and> mb_role m = ''owner'') members \<le> card {mb_id m}"
    by (intro count_rows_keyed [OF u]) auto
  with c show False by simp
qed

lemma rows_unique_update:
  assumes "\<And>m. mb_id (f m) = mb_id m \<and> mb_user (f m) = mb_user m \<and> mb_workspace (f m) = mb_workspace m"
  shows "rows_unique users (update_rows p f members) = rows_unique users members"
  by (simp add: rows_unique_def unique_on_update assms)

lemma rows_unique_delete:
  "rows_unique users members \<Longrightarrow> rows_unique (delete_rows p users) (delete_rows q members)"
  "rows_unique users members \<Longrightarrow> rows_unique users (delete_rows q members)"
  by (simp_all add: rows_unique_def unique_on_delete)

lemma change_member_role_ok:
  assumes ok: "team_ok db" and role: "role \<in> {''owner'', ''member''}"
  shows "team_ok (snd (change_member_role ws mid role db))"
proof (cases "get_workspace_membership ws mid db")
  case None
  with ok show ?thesis by (simp add: change_member_role_def)
next
  case (Some m)
  note m = membership_row [OF Some]
  let ?f = "\<lambda>x. x\<lparr>mb_role := role\<rparr>"
  let ?members = "update_rows (\<lambda>x. mb_id x = mb_id m) ?f (ac_members db)"
  show ?thesis
  proof (cases "mb_role m = role \<or> mb_role m = ''owner'' \<and> role = ''member'' \<and> owner_count ws db \<le> 1")
    case True
    with ok Some show ?thesis by (auto simp: change_member_role_def)
  next
    case False
    have id_m: "x = m" if "x \<in> set (ac_members db)" "mb_id x = mb_id m" for x
      using ok m that by (auto simp: team_ok_def rows_unique_def dest: unique_onD)
    have "has_owner ?members w" if w: "w \<in> tm_id ` set (ac_workspaces db)" for w
    proof -
      obtain x where x: "x \<in> set (ac_members db)" "mb_workspace x = w" "mb_role x = ''owner''"
        using ok w by (auto simp: team_defs has_owner_def)
      show ?thesis
      proof (cases "mb_id x = mb_id m \<and> role = ''member''")
        case True
        then have "x = m" using id_m [OF x(1)] by blast
        with x m True False have "1 < owner_count w db" by auto
        then obtain y where y: "y \<in> set (ac_members db)" "mb_id y \<noteq> mb_id m" "mb_workspace y = w" "mb_role y = ''owner''"
          using other_owner [OF _ x(1-3)] ok \<open>x = m\<close> by (auto simp: team_ok_def rows_unique_def owner_count_def)
        then show ?thesis by (auto simp: has_owner_def set_update_rows intro!: bexI [of _ y])
      next
        case F: False
        let ?x = "if mb_id x = mb_id m then ?f x else x"
        have "?x \<in> set ?members" unfolding set_update_rows using x(1) by (rule imageI)
        moreover have "mb_role ?x = ''owner''" "mb_workspace ?x = w" using F x role by auto
        ultimately show ?thesis unfolding has_owner_def by blast
      qed
    qed
    then have "owned_workspaces (db\<lparr>ac_members := ?members\<rparr>)" by (simp add: owned_workspaces_def)
    moreover have "references_ok (db\<lparr>ac_members := ?members\<rparr>)"
      using ok by (auto simp: team_defs set_update_rows)
    moreover have "mb_user ` set ?members = mb_user ` set (ac_members db)" by (simp add: keys_update_rows)
    then have "housed (db\<lparr>ac_members := ?members\<rparr>)" using ok by (simp add: team_ok_def housed_iff)
    ultimately have "team_ok (db\<lparr>ac_members := ?members\<rparr>)"
      using ok by (simp add: team_ok_def rows_unique_update)
    with False Some show ?thesis by (auto simp: change_member_role_def)
  qed
qed

text \<open>Deleting a user none of whose memberships was the last owner of a workspace.\<close>

lemma delete_user_ok:
  assumes u: "rows_unique (ac_users db) (ac_members db)" and r: "references_ok db"
    and h: "\<And>x. x \<in> set (ac_users db) \<Longrightarrow> ua_id x \<noteq> uid \<Longrightarrow> \<exists>m \<in> set (ac_members db). mb_user m = ua_id x"
    and o': "\<And>w. w \<in> set (ac_workspaces db) \<Longrightarrow>
      \<exists>m \<in> set (ac_members db). mb_workspace m = tm_id w \<and> mb_role m = ''owner'' \<and> mb_user m \<noteq> uid"
  shows "team_ok (delete_user_row uid db)"
proof -
  have "references_ok (delete_user_row uid db)"
    using r by (auto simp: references_ok_def delete_user_row_def delete_rows_def image_iff)
  moreover have "housed (delete_user_row uid db)"
    using h by (fastforce simp: housed_def delete_user_row_def delete_rows_def)
  moreover have "owned_workspaces (delete_user_row uid db)"
    using o' by (fastforce simp: owned_workspaces_def has_owner_def delete_user_row_def delete_rows_def)
  ultimately show ?thesis using u by (simp add: team_ok_def delete_user_row_def rows_unique_delete)
qed

lemma remove_workspace_member_ok:
  assumes ok: "team_ok db"
  shows "team_ok (snd (remove_workspace_member ws mid db))"
proof (cases "get_workspace_membership ws mid db")
  case None
  with ok show ?thesis by (simp add: remove_workspace_member_def)
next
  case (Some m)
  note m = membership_row [OF Some]
  have u: "unique_on mb_id (ac_members db)" using ok by (simp add: team_ok_def rows_unique_def)
  show ?thesis
  proof (cases "mb_role m = ''owner'' \<and> owner_count ws db \<le> 1")
    case True
    with ok Some show ?thesis by (auto simp: remove_workspace_member_def)
  next
    case False
    define db1 where "db1 = db\<lparr>ac_members := delete_rows (\<lambda>x. mb_id x = mb_id m) (ac_members db),
      ac_sessions := update_rows (\<lambda>s. sn_user s = mb_user m \<and> sn_workspace s = Some ws)
        (\<lambda>s. s\<lparr>sn_workspace := None\<rparr>) (ac_sessions db)\<rparr>"
    have left': "x \<in> set (ac_members db1) \<longleftrightarrow> x \<in> set (ac_members db) \<and> x \<noteq> m" for x
      using m u by (auto simp: db1_def delete_rows_def dest: unique_onD)
    have own: "\<exists>x \<in> set (ac_members db1). mb_workspace x = tm_id w \<and> mb_role x = ''owner''" if w: "w \<in> set (ac_workspaces db)" for w
    proof -
      obtain x where x: "x \<in> set (ac_members db)" "mb_workspace x = tm_id w" "mb_role x = ''owner''"
        using team_owner [OF ok w] by blast
      show ?thesis
      proof (cases "x = m")
        case True
        with x m False have "1 < owner_count (tm_id w) db" by auto
        with other_owner [OF u x] True left' show ?thesis by (auto simp: owner_count_def)
      qed (use x left' in auto)
    qed
    have base: "rows_unique (ac_users db1) (ac_members db1)" "references_ok db1" "owned_workspaces db1"
      using ok left' own by (auto simp: team_defs has_owner_def db1_def rows_unique_delete)
    have home: "\<exists>y \<in> set (ac_members db1). mb_user y = ua_id x" if "x \<in> set (ac_users db)" "ua_id x \<noteq> mb_user m" for x
      using ok that left' by (fastforce simp: team_defs)
    show ?thesis
    proof (cases "user_homeless (mb_user m) db1")
      case True
      then have away: "\<And>x. x \<in> set (ac_members db1) \<Longrightarrow> mb_user x \<noteq> mb_user m" by (auto simp: user_homeless_def list_ex_iff)
      have "team_ok (delete_user_row (mb_user m) db1)"
        by (rule delete_user_ok [OF base(1,2)]) (use home own away in \<open>auto simp: db1_def\<close>)
      with True Some False show ?thesis by (auto simp: remove_workspace_member_def db1_def Let_def)
    next
      case F: False
      then have "housed db1" using home by (fastforce simp: housed_def user_homeless_def list_ex_iff db1_def)
      with base have "team_ok db1" by (simp add: team_ok_def)
      with F Some False show ?thesis by (auto simp: remove_workspace_member_def db1_def Let_def)
    qed
  qed
qed


subsection \<open>Deleting workspaces and accounts\<close>

lemma purge_fold_rows:
  fixes db :: account_db
  defines "purge \<equiv> \<lambda>uids. fold (\<lambda>uid d. if user_homeless uid d then delete_user_row uid d else d) uids"
  shows "ac_workspaces (purge uids db) = ac_workspaces db \<and> ac_members (purge uids db) = ac_members db \<and>
    ac_users (purge uids db) = delete_rows (\<lambda>u. ua_id u \<in> set uids \<and> user_homeless (ua_id u) db) (ac_users db)"
proof (induction uids arbitrary: db)
  case Nil
  then show ?case by (simp add: purge_def delete_rows_def)
next
  case (Cons uid uids)
  define db1 where "db1 = (if user_homeless uid db then delete_user_row uid db else db)"
  have m: "ac_members db1 = ac_members db" "ac_workspaces db1 = ac_workspaces db"
    by (auto simp: db1_def delete_user_row_def delete_rows_def user_homeless_def list_ex_iff filter_id_conv)
  then have h: "user_homeless x db1 = user_homeless x db" for x by (simp add: user_homeless_def)
  have u: "ac_users db1 = delete_rows (\<lambda>u. ua_id u = uid \<and> user_homeless uid db) (ac_users db)"
    by (auto simp: db1_def delete_user_row_def delete_rows_def)
  have step: "purge (uid # uids) db = purge uids db1" by (simp add: purge_def db1_def)
  have "delete_rows (\<lambda>u. ua_id u \<in> set uids \<and> user_homeless (ua_id u) db) (ac_users db1) =
      delete_rows (\<lambda>u. ua_id u \<in> set (uid # uids) \<and> user_homeless (ua_id u) db) (ac_users db)"
    by (auto simp: u delete_rows_def intro: filter_cong)
  then show ?case using Cons [of db1] by (simp add: step m h)
qed

lemmas purge_fold = purge_fold_rows [THEN conjunct1] purge_fold_rows [THEN conjunct2, THEN conjunct1]
  purge_fold_rows [THEN conjunct2, THEN conjunct2]

lemma purge_rows_ok:
  assumes ok: "team_ok db" and m: "set (map mb_user (filter (\<lambda>m. mb_workspace m = ws) (ac_members db))) \<subseteq> set uids"
  shows "team_ok (purge_rows ws uids db)"
proof -
  let ?db1 = "delete_workspace_row ws db"
  let ?db' = "purge_rows ws uids db"
  have f: "ac_workspaces ?db' = delete_rows (\<lambda>w. tm_id w = ws) (ac_workspaces db)"
    "ac_members ?db' = delete_rows (\<lambda>m. mb_workspace m = ws) (ac_members db)"
    "ac_users ?db' = delete_rows (\<lambda>u. ua_id u \<in> set uids \<and> user_homeless (ua_id u) ?db1) (ac_users db)"
    by (simp_all add: purge_rows_def purge_fold delete_workspace_row_def)
  have "rows_unique (ac_users ?db') (ac_members ?db')"
    using ok by (simp add: f team_ok_def rows_unique_delete)
  moreover have "references_ok ?db'"
  proof -
    have "mb_user m \<in> ua_id ` set (ac_users ?db')" if in': "m \<in> set (ac_members ?db')" for m
    proof -
      have "mb_user m \<in> ua_id ` set (ac_users db)" using ok in' by (auto simp: team_defs f delete_rows_def)
      then obtain u where "u \<in> set (ac_users db)" "ua_id u = mb_user m" by auto
      moreover have "\<not> user_homeless (mb_user m) ?db1"
        using in' by (auto simp: f user_homeless_def list_ex_iff delete_workspace_row_def)
      ultimately show ?thesis by (auto simp: f image_iff delete_rows_def)
    qed
    then show ?thesis using ok by (auto simp: team_defs f delete_rows_def)
  qed
  moreover have "housed ?db'"
  proof -
    have "\<exists>m \<in> set (ac_members ?db'). mb_user m = ua_id u" if u: "u \<in> set (ac_users ?db')" for u
    proof -
      obtain x where x: "x \<in> set (ac_members db)" "mb_user x = ua_id u" using ok u by (auto simp: team_defs f delete_rows_def)
      show ?thesis
      proof (cases "mb_workspace x = ws")
        case True
        then have "ua_id u \<in> set uids" using m x by force
        then have "\<not> user_homeless (ua_id u) ?db1" using u by (simp add: f delete_rows_def)
        then show ?thesis by (auto simp: user_homeless_def list_ex_iff f delete_workspace_row_def)
      qed (use x in \<open>auto simp: f delete_rows_def\<close>)
    qed
    then show ?thesis by (simp add: housed_def)
  qed
  moreover have "owned_workspaces ?db'"
    using ok by (fastforce simp: team_defs f has_owner_def delete_rows_def)
  ultimately show ?thesis by (simp add: team_ok_def)
qed

lemma purge_workspace_ok: "team_ok db \<Longrightarrow> team_ok (snd (purge_workspace cancel id ws db))"
  by (auto simp: purge_workspace_def Let_def intro: purge_rows_ok split: option.splits)


lemma purge_workspace_rows:
  assumes "purge_workspace cancel id ws db = (Inr (), db')"
  shows "ac_members db' = delete_rows (\<lambda>m. mb_workspace m = ws) (ac_members db) \<and>
    ac_workspaces db' = delete_rows (\<lambda>w. tm_id w = ws) (ac_workspaces db)"
proof -
  have "cancel = None" using assms by (cases cancel) (simp_all add: purge_workspace_def)
  then have "db' = purge_rows ws (map mb_user (filter (\<lambda>m. mb_workspace m = ws) (ac_members db))) db"
    using assms by (simp add: purge_workspace_def Let_def split: if_splits)
  then show ?thesis by (simp add: purge_rows_def purge_fold delete_workspace_row_def)
qed

lemma purge_each_ok: "team_ok db \<Longrightarrow> team_ok (snd (purge_each cancel wss db))"
proof (induction wss arbitrary: db)
  case (Cons ws wss)
  obtain r db1 where p: "purge_workspace (cancel ws) id ws db = (r, db1)"
    by (cases "purge_workspace (cancel ws) id ws db")
  have "team_ok db1" using purge_workspace_ok [OF Cons.prems, of "cancel ws" ws] p by simp
  with Cons.IH p show ?case by (cases r) simp_all
qed simp

lemma purge_each_rows:
  "purge_each cancel wss db = (Inr (), db') \<Longrightarrow>
    ac_members db' = delete_rows (\<lambda>m. mb_workspace m \<in> set wss) (ac_members db) \<and>
    ac_workspaces db' = delete_rows (\<lambda>w. tm_id w \<in> set wss) (ac_workspaces db)"
proof (induction wss arbitrary: db)
  case Nil
  then show ?case by (simp add: delete_rows_def)
next
  case (Cons ws wss)
  obtain r db1 where p: "purge_workspace (cancel ws) id ws db = (r, db1)"
    by (cases "purge_workspace (cancel ws) id ws db")
  with Cons.prems have r: "r = Inr ()" by (cases r) simp_all
  with p Cons.prems have rest: "purge_each cancel wss db1 = (Inr (), db')" by simp
  have join: "delete_rows (\<lambda>x. k x \<in> set wss) (delete_rows (\<lambda>x. k x = ws) rs) = delete_rows (\<lambda>x. k x \<in> set (ws # wss)) rs" for k :: "membership \<Rightarrow> ident" and rs
    by (induction rs) auto
  have joinw: "delete_rows (\<lambda>x. k x \<in> set wss) (delete_rows (\<lambda>x. k x = ws) rs) = delete_rows (\<lambda>x. k x \<in> set (ws # wss)) rs"
    for k :: "team_workspace \<Rightarrow> ident" and rs
    by (induction rs) auto
  from purge_workspace_rows [OF p [unfolded r]] Cons.IH [OF rest] show ?case by (simp only: join joinw)
qed

lemma kept_workspace_owner:
  assumes "workspaces_to_purge uid ms db = Inr wss" "m \<in> set ms" "mb_role m = ''owner''" "mb_workspace m \<notin> set wss"
  shows "\<exists>x \<in> set (ac_members db). mb_workspace x = mb_workspace m \<and> mb_role x = ''owner'' \<and> mb_user x \<noteq> uid"
  using assms
proof (induction ms arbitrary: wss)
  case (Cons y ms)
  show ?case
  proof (cases "m = y")
    case True
    with Cons.prems show ?thesis
      by (cases "workspaces_to_purge uid ms db") (auto simp: Let_def list_ex_iff split: if_splits)
  next
    case False
    with Cons show ?thesis
      by (cases "workspaces_to_purge uid ms db") (auto simp: Let_def split: if_splits)
  qed
qed simp

lemma delete_account_ok:
  assumes ok: "team_ok db"
  shows "team_ok (snd (delete_account cancel id uid db))"
proof (cases "workspaces_to_purge uid (filter (\<lambda>m. mb_user m = uid) (ac_members db)) db")
  case (Inl e)
  with ok show ?thesis by (simp add: delete_account_def)
next
  case plan: (Inr wss)
  obtain r db1 where p: "purge_each cancel wss db = (r, db1)" by (cases "purge_each cancel wss db")
  have ok1: "team_ok db1" using purge_each_ok [OF ok, of cancel wss] p by simp
  show ?thesis
  proof (cases r)
    case (Inl e)
    with plan p ok1 show ?thesis by (simp add: delete_account_def)
  next
    case (Inr u)
    then have done': "purge_each cancel wss db = (Inr (), db1)" using p by simp
    note rows = purge_each_rows [OF done']
    have "\<exists>m \<in> set (ac_members db1). mb_workspace m = tm_id w \<and> mb_role m = ''owner'' \<and> mb_user m \<noteq> uid"
      if w: "w \<in> set (ac_workspaces db1)" for w
    proof -
      have kept: "w \<in> set (ac_workspaces db)" "tm_id w \<notin> set wss" using w rows by (auto simp: delete_rows_def)
      obtain m where m: "m \<in> set (ac_members db)" "mb_workspace m = tm_id w" "mb_role m = ''owner''"
        using team_owner [OF ok kept(1)] by blast
      have "\<exists>x \<in> set (ac_members db). mb_workspace x = tm_id w \<and> mb_role x = ''owner'' \<and> mb_user x \<noteq> uid"
        using m kept kept_workspace_owner [OF plan, of m] by (cases "mb_user m = uid") auto
      with kept(2) rows show ?thesis by (auto simp: delete_rows_def)
    qed
    moreover have "\<exists>m \<in> set (ac_members db1). mb_user m = ua_id x" if "x \<in> set (ac_users db1)" for x
      using ok1 that by (simp add: team_defs)
    ultimately have "team_ok (delete_user_row uid db1)"
      using ok1 by (intro delete_user_ok) (auto simp: team_ok_def)
    with plan done' show ?thesis by (simp add: delete_account_def)
  qed
qed

subsection \<open>Any run of operations\<close>

datatype team_op =
    Bootstrap_Op millis "ident \<times> ident" string string
  | Signup_Op millis "ident \<times> ident \<times> ident" bool string string string "millis option" "string option" "millis option"
  | Add_Member_Op millis "ident \<times> ident" ident string string bool
  | Role_Op ident ident bool
  | Remove_Op ident ident
  | Join_Op millis ident ident string invite
  | Invitee_Op millis "ident \<times> ident" invite string "millis option \<times> string option"
  | Purge_Op "billing_error option" ident
  | Delete_Account_Op "ident \<Rightarrow> billing_error option" ident

fun team_step :: "team_op \<Rightarrow> account_db \<Rightarrow> account_db" where
  "team_step (Bootstrap_Op now ids email hash) db = snd (create_workspace_with_owner now ids email hash db)"
| "team_step (Signup_Op now ids grant email hash name ta tv v) db =
     snd (create_hosted_workspace_with_owner now ids grant email hash name ta tv v db)"
| "team_step (Add_Member_Op now ids ws email hash mc) db = snd (add_workspace_member now ids ws email hash mc db)"
| "team_step (Role_Op ws mid owner) db = snd (change_member_role ws mid (if owner then ''owner'' else ''member'') db)"
| "team_step (Remove_Op ws mid) db = snd (remove_workspace_member ws mid db)"
| "team_step (Join_Op now mid uid email i) db = snd (join_workspace_from_invite now mid uid email i db)"
| "team_step (Invitee_Op now ids i hash terms) db = snd (create_user_from_invite now ids i hash terms db)"
| "team_step (Purge_Op cancel ws) db = snd (purge_workspace cancel id ws db)"
| "team_step (Delete_Account_Op cancel uid) db = snd (delete_account cancel id uid db)"

lemma team_step_ok: "team_ok db \<Longrightarrow> team_ok (team_step op db)"
  by (cases op)
    (simp_all add: create_workspace_with_owner_ok create_hosted_ok add_workspace_member_ok change_member_role_ok
      remove_workspace_member_ok join_ok create_user_from_invite_ok purge_workspace_ok delete_account_ok)

interpretation team: invariant_machine team_step team_ok "\<lambda>_. True"
  by unfold_locales (simp add: team_step_ok)

text \<open>
  C26. Nobody is locked out. Over any run of sign-ups, invitations, role changes, removals, workspace
  deletions and account deletions, one after the other, every workspace that remains has an owner,
  every account belongs to a workspace, every membership points to both, and no address has two
  accounts.
\<close>
theorem every_workspace_keeps_an_owner:
  fixes ops :: "team_op list"
  assumes "team_ok db"
  defines "db' \<equiv> fold team_step ops db"
  shows "(\<forall>w \<in> set (ac_workspaces db'). \<exists>m \<in> set (ac_members db'). mb_workspace m = tm_id w \<and> mb_role m = ''owner'') \<and>
    (\<forall>u \<in> set (ac_users db'). \<not> user_homeless (ua_id u) db') \<and> references_ok db' \<and> unique_on ua_email (ac_users db')"
proof -
  have ok: "team_ok db'" unfolding db'_def by (rule team.run_inv [OF assms(1)]) (simp add: list_all_iff)
  then show ?thesis
    using team_owner [OF ok] by (auto simp: team_ok_def housed_def user_homeless_def list_ex_iff rows_unique_def)
qed

text \<open>Two owners and a member; one owner leaves, the other is demoted in vain and deletes the account in vain.\<close>

definition team_user :: "ident \<Rightarrow> account" where
  "team_user uid = new_account uid (uid @ ''@x.y'') [] (Some 1)"

definition team_member :: "ident \<Rightarrow> string \<Rightarrow> membership" where
  "team_member uid role = new_member (''m'' @ uid) uid ''w1'' role 1"

definition small_team :: "(ident \<times> string) list \<Rightarrow> account_db" where
  "small_team people =
     \<lparr>ac_workspaces = [\<lparr>tm_id = ''w1'', tm_name = ''Team'', tm_default = False, tm_created = 1, tm_retention = None\<rparr>],
      ac_users = map (\<lambda>p. team_user (fst p)) people, ac_members = map (\<lambda>p. team_member (fst p) (snd p)) people,
      ac_sessions = [], ac_tokens = [], ac_api = []\<rparr>"

abbreviation three_people :: account_db where
  "three_people \<equiv> small_team [(''a'', ''owner''), (''b'', ''owner''), (''c'', ''member'')]"

lemma three_people_ok: "team_ok three_people"
  unfolding team_ok_def rows_unique_def references_ok_def housed_def owned_workspaces_def has_owner_def unique_on_def
  by code_simp

definition team_after :: account_db where
  "team_after = fold team_step [Remove_Op ''w1'' ''ma'', Role_Op ''w1'' ''mb'' False, Delete_Account_Op (\<lambda>_. None) ''b'']
     three_people"

theorem every_workspace_keeps_an_owner_witness:
  "list_all (\<lambda>w. list_ex (\<lambda>m. mb_workspace m = tm_id w \<and> mb_role m = ''owner'') (ac_members team_after))
     (ac_workspaces team_after)"
  using every_workspace_keeps_an_owner [OF three_people_ok] unfolding team_after_def list_all_iff list_ex_iff by blast

subsection \<open>Two account deletions at the same time\<close>

lemma sole_owner_refused:
  assumes "m \<in> set ms" "mb_role m = ''owner''" "c \<in> set (ac_members db)" "mb_workspace c = mb_workspace m" "mb_user c \<noteq> uid"
    and "\<And>x. x \<in> set (ac_members db) \<Longrightarrow> mb_workspace x = mb_workspace m \<Longrightarrow> mb_role x = ''owner'' \<Longrightarrow> mb_user x = uid"
  shows "\<exists>e. workspaces_to_purge uid ms db = Inl e"
  using assms(1)
proof (induction ms)
  case (Cons y ms)
  show ?case
  proof (cases "m = y")
    case True
    have "filter (\<lambda>x. mb_workspace x = mb_workspace m \<and> mb_user x \<noteq> uid) (ac_members db) \<noteq> []"
      using assms(3-5) by (auto simp: filter_empty_conv)
    with True assms(2,6) show ?thesis by (auto simp: Let_def list_ex_iff)
  next
    case False
    with Cons obtain e where "workspaces_to_purge uid ms db = Inl e" by auto
    then show ?thesis by (auto simp: Let_def)
  qed
qed simp

lemma delete_account_plain:
  "workspaces_to_purge uid (filter (\<lambda>m. mb_user m = uid) (ac_members db)) db = Inr [] \<Longrightarrow>
    delete_account cancel other uid db = (Inr (), delete_user_row uid (other db))"
  by (simp add: delete_account_def)

text \<open>
  C27. Two owners who delete their accounts at the same time leave their members without an owner.
  Take two people, neither of whom has a workspace of their own, who together are all the owners of
  a workspace with a third member. When the second deletion runs between the checks and the write
  of the first, both succeed, and the workspace and its member remain without any owner. Carried out
  one after the other, the first one's deletion would have been refused.
\<close>
theorem concurrent_account_deletions:
  assumes "workspaces_to_purge a (filter (\<lambda>m. mb_user m = a) (ac_members db)) db = Inr []"
    and "workspaces_to_purge b (filter (\<lambda>m. mb_user m = b) (ac_members db)) db = Inr []"
    and "w \<in> set (ac_workspaces db)" "c \<in> set (ac_members db)" "mb_workspace c = tm_id w" "mb_user c \<noteq> a" "mb_user c \<noteq> b"
    and "o' \<in> set (ac_members db)" "mb_workspace o' = tm_id w" "mb_user o' = a" "mb_role o' = ''owner''" "a \<noteq> b"
    and "\<And>x. x \<in> set (ac_members db) \<Longrightarrow> mb_workspace x = tm_id w \<Longrightarrow> mb_role x = ''owner'' \<Longrightarrow> mb_user x = a \<or> mb_user x = b"
  shows "fst (delete_account cancel id b db) = Inr () \<and>
    (\<exists>e. fst (delete_account cancel id a (snd (delete_account cancel id b db))) = Inl e) \<and>
    (\<exists>db'. delete_account cancel (\<lambda>d. snd (delete_account cancel id b d)) a db = (Inr (), db') \<and>
       w \<in> set (ac_workspaces db') \<and> c \<in> set (ac_members db') \<and>
       \<not> list_ex (\<lambda>x. mb_workspace x = tm_id w \<and> mb_role x = ''owner'') (ac_members db'))"
proof -
  let ?mid = "delete_user_row b db" and ?rest = "delete_user_row a (delete_user_row b db)"
  have b: "delete_account cancel id b db = (Inr (), ?mid)" using delete_account_plain [OF assms(2)] by simp
  have a: "delete_account cancel (\<lambda>d. snd (delete_account cancel id b d)) a db = (Inr (), ?rest)"
    using delete_account_plain [OF assms(1)] b by simp
  have "\<exists>e. workspaces_to_purge a (filter (\<lambda>m. mb_user m = a) (ac_members ?mid)) ?mid = Inl e"
    by (rule sole_owner_refused [of o' _ c]) (use assms(4-13) in \<open>auto simp: delete_user_row_def\<close>)
  then have late: "\<exists>e. fst (delete_account cancel id a ?mid) = Inl e" by (auto simp: delete_account_def)
  have kept: "w \<in> set (ac_workspaces ?rest)" "c \<in> set (ac_members ?rest)"
    using assms(3,4,6,7) by (simp_all add: delete_user_row_def)
  have "\<not> list_ex (\<lambda>x. mb_workspace x = tm_id w \<and> mb_role x = ''owner'') (ac_members ?rest)"
    using assms(13) by (auto simp: delete_user_row_def list_ex_iff)
  with a b late kept show ?thesis by simp
qed

theorem concurrent_account_deletions_witness:
  "\<not> list_ex (\<lambda>x. mb_workspace x = ''w1'' \<and> mb_role x = ''owner'')
     (ac_members (snd (delete_account (\<lambda>_. None) (\<lambda>d. snd (delete_account (\<lambda>_. None) id ''b'' d)) ''a'' three_people)))"
proof -
  let ?w = "hd (ac_workspaces three_people)"
  have plan: "workspaces_to_purge ''a'' (filter (\<lambda>m. mb_user m = ''a'') (ac_members three_people)) three_people = Inr []"
    "workspaces_to_purge ''b'' (filter (\<lambda>m. mb_user m = ''b'') (ac_members three_people)) three_people = Inr []"
    by code_simp+
  have w: "?w \<in> set (ac_workspaces three_people)" "tm_id ?w = ''w1''" by (simp_all add: small_team_def)
  have c: "team_member ''c'' ''member'' \<in> set (ac_members three_people)" "mb_workspace (team_member ''c'' ''member'') = tm_id ?w"
    "mb_user (team_member ''c'' ''member'') \<noteq> ''a''" "mb_user (team_member ''c'' ''member'') \<noteq> ''b''"
    by (simp_all add: small_team_def team_member_def new_member_def)
  have o': "team_member ''a'' ''owner'' \<in> set (ac_members three_people)" "mb_workspace (team_member ''a'' ''owner'') = tm_id ?w"
    "mb_user (team_member ''a'' ''owner'') = ''a''" "mb_role (team_member ''a'' ''owner'') = ''owner''" "''a'' \<noteq> ''b''"
    by (simp_all add: small_team_def team_member_def new_member_def)
  have owners: "mb_user x = ''a'' \<or> mb_user x = ''b''"
    if "x \<in> set (ac_members three_people)" "mb_role x = ''owner''" for x
    using that by (auto simp: small_team_def team_member_def new_member_def)
  show ?thesis
    using concurrent_account_deletions [OF plan w(1) c o' owners, of "\<lambda>_. None"] unfolding w(2) by auto
qed

end
