(* ===== verification/Meeting_Notes.thy ===== *)
theory Meeting_Notes
  imports Library Js_Data
begin

text \<open>
  The notes of a workspace and who may change them: \<open>webapp/src/lib/meetings.ts\<close> (the desktop's
  upserts, action items, renaming), \<open>noteEditing.ts\<close> (editing by hand) and \<open>speakers.ts\<close>.

  The state holds the columns of the meeting table that these files read or write, the transcript
  lines, the action items and the speaker names. The column \<open>updatedAt\<close> is the version of a note.
  Every \<open>$transaction\<close> takes the note's row lock and is one step. \<open>Date.parse\<close> is the argument
  \<open>parse\<close>, the clock is read once per request and new ids are arguments.
\<close>

subsection \<open>Tables\<close>

record meeting_note =
  no_id :: ident
  no_user :: ident
  no_workspace :: "ident option"
  no_title :: string
  no_mode :: string
  no_started :: millis
  no_ended :: millis
  no_summary :: string
  no_capture :: string
  no_processing :: string
  no_folder :: "ident option"
  no_deleted :: "millis option"
  no_edited :: "millis option"
  no_previous :: "string option"
  no_version :: millis

record segment_row =
  sg_meeting :: ident
  sg_speaker :: string
  sg_text :: string
  sg_time :: "millis option"
  sg_order :: nat

record todo_row =
  td_id :: ident
  td_meeting :: ident
  td_user :: ident
  td_text :: string
  td_owner :: "string option"
  td_status :: string
  td_due :: "millis option"
  td_completed :: "millis option"

record speaker_row =
  sp_meeting :: ident
  sp_key :: string
  sp_name :: string
  sp_applied :: string

record notes_db =
  nd_notes :: "meeting_note list"
  nd_segments :: "segment_row list"
  nd_todos :: "todo_row list"
  nd_speakers :: "speaker_row list"
  nd_folders :: "folder_row list"
  nd_audit :: "audit_event list"

type_synonym date_parser = "string \<Rightarrow> millis option"

datatype note_error =
    Note_Invalid string
  | Sync_Conflict string string "millis option"
  | Note_Thrown thrown

text \<open>Two edits in one clock tick still get two versions.\<close>

definition next_meeting_version :: "millis \<Rightarrow> millis \<Rightarrow> millis" where
  "next_meeting_version previous now = max now (previous + 1)"

definition note_at :: "ident \<Rightarrow> notes_db \<Rightarrow> meeting_note option" where
  "note_at k db = find_row (\<lambda>n. no_id n = k) (nd_notes db)"

definition live_in :: "ident \<Rightarrow> meeting_note \<Rightarrow> bool" where
  "live_in ws n \<longleftrightarrow> no_workspace n = Some ws \<and> no_deleted n = None"

definition visible_note :: "ident \<Rightarrow> ident \<Rightarrow> notes_db \<Rightarrow> meeting_note option" where
  "visible_note ws k db = find_row (\<lambda>n. no_id n = k \<and> live_in ws n) (nd_notes db)"

definition write_note :: "ident \<Rightarrow> (meeting_note \<Rightarrow> meeting_note) \<Rightarrow> notes_db \<Rightarrow> notes_db" where
  "write_note k f db = db\<lparr>nd_notes := update_rows (\<lambda>n. no_id n = k) f (nd_notes db)\<rparr>"

subsection \<open>Validation of a synced note\<close>

definition max_id_length :: int where "max_id_length = 128"

definition max_title_length :: int where "max_title_length = 200"

definition max_summary_length :: int where "max_summary_length = 100000"

definition max_transcript_segments :: int where "max_transcript_segments = 25000"

definition max_segment_text_length :: int where "max_segment_text_length = 20000"

definition max_speaker_length :: int where "max_speaker_length = 100"

definition max_action_items :: int where "max_action_items = 1000"

definition max_action_text_length :: int where "max_action_text_length = 2000"

definition max_owner_length :: int where "max_owner_length = 200"

definition max_action_id_length :: int where "max_action_id_length = 128"

definition max_transcript_total_length :: int where "max_transcript_total_length = 5000000"

definition max_action_total_length :: int where "max_action_total_length = 2000000"

text \<open>
  The strings of a parsed value, keys included; of two members with one name the last counts. In
  \<open>JSON.stringify\<close>'s output the six characters \<open>\u0000\<close> come from a null character or from a
  backslash, written as two, before \<open>u0000\<close>.
\<close>

fun json_strings :: "json \<Rightarrow> string list" where
  "json_strings (JString s) = [s]"
| "json_strings (JArray vs) = concat (map json_strings vs)"
| "json_strings (JObject members) =
     concat (map (\<lambda>(k, v). if map_of (rev members) k = Some v then k # json_strings v else []) members)"
| "json_strings _ = []"

definition shows_null :: "json \<Rightarrow> bool" where
  "shows_null v \<longleftrightarrow>
     list_ex (\<lambda>s. CHR 0x00 \<in> set s \<or> contains_sub s (CHR 0x5C # ''u0000'')) (json_strings v)"

definition nullish :: "json option \<Rightarrow> bool" where
  "nullish v \<longleftrightarrow> v = None \<or> v = Some JNull"

definition string_within :: "int \<Rightarrow> json option \<Rightarrow> bool" where
  "string_within n v = (case v of Some (JString s) \<Rightarrow> int (length s) \<le> n | _ \<Rightarrow> False)"

definition date_string :: "date_parser \<Rightarrow> json option \<Rightarrow> bool" where
  "date_string parse v = (case v of Some (JString s) \<Rightarrow> parse s \<noteq> None | _ \<Rightarrow> False)"

definition absent_or_in :: "string list \<Rightarrow> json option \<Rightarrow> bool" where
  "absent_or_in names v = (case v of None \<Rightarrow> True | Some (JString s) \<Rightarrow> s \<in> set names | _ \<Rightarrow> False)"

definition meeting_modes :: "string list" where
  "meeting_modes = [''general'', ''standup'', ''sales'', ''one_on_one'', ''interview'', ''lecture'', ''custom'']"

definition text_of :: "json option \<Rightarrow> string" where
  "text_of v = (case v of Some (JString s) \<Rightarrow> s | _ \<Rightarrow> [])"

definition date_of :: "date_parser \<Rightarrow> json option \<Rightarrow> millis option" where
  "date_of parse v = Option.bind (json_string v) parse"

definition segment_valid :: "date_parser \<Rightarrow> json \<Rightarrow> bool" where
  "segment_valid parse s \<longleftrightarrow>
     is_json_object (Some s) \<and>
     string_within max_speaker_length (json_get ''speaker'' (Some s)) \<and>
     string_within max_segment_text_length (json_get ''text'' (Some s)) \<and>
     (nullish (json_get ''timestamp'' (Some s)) \<or> date_string parse (json_get ''timestamp'' (Some s)))"

fun segments_problem :: "date_parser \<Rightarrow> int \<Rightarrow> json list \<Rightarrow> string option" where
  "segments_problem parse len [] = None"
| "segments_problem parse len (s # ss) =
     (if \<not> segment_valid parse s then Some ''each transcript segment needs speaker, text, and timestamp''
      else
        let len' = len + int (length (text_of (json_get ''text'' (Some s)))) in
        if max_transcript_total_length < len' then Some ''transcript is too large''
        else segments_problem parse len' ss)"

definition item_valid :: "date_parser \<Rightarrow> json \<Rightarrow> bool" where
  "item_valid parse v \<longleftrightarrow>
     (let get = (\<lambda>name. json_get name (Some v)) in
      is_json_object (Some v) \<and>
      string_within max_action_text_length (get ''text'') \<and>
      (get ''id'' = None \<or> string_within max_action_id_length (get ''id'') \<and> get ''id'' \<noteq> Some (JString [])) \<and>
      absent_or_in [''open'', ''done''] (get ''status'') \<and>
      (nullish (get ''owner'') \<or> string_within max_owner_length (get ''owner'')) \<and>
      (nullish (get ''dueAt'') \<or> date_string parse (get ''dueAt'')) \<and>
      (nullish (get ''completedAt'') \<or> date_string parse (get ''completedAt'')))"

fun items_problem :: "date_parser \<Rightarrow> int \<Rightarrow> json list \<Rightarrow> string option" where
  "items_problem parse len [] = None"
| "items_problem parse len (v # vs) =
     (if \<not> item_valid parse v then Some ''each action item needs text''
      else
        let len' = len + int (length (text_of (json_get ''text'' (Some v)))) in
        if max_action_total_length < len' then Some ''action items are too large''
        else items_problem parse len' vs)"

record item_input =
  it_id :: "ident option"
  it_text :: string
  it_owner :: "string option"
  it_status :: string
  it_due :: "millis option"
  it_completed :: "millis option"

record note_input =
  in_id :: ident
  in_title :: "string option"
  in_mode :: "string option"
  in_capture :: "string option"
  in_processing :: "string option"
  in_started :: millis
  in_ended :: millis
  in_summary :: string
  in_segments :: "(string \<times> string \<times> millis option) list"
  in_items :: "item_input list"

definition read_segment :: "date_parser \<Rightarrow> json \<Rightarrow> string \<times> string \<times> millis option" where
  "read_segment parse s =
     (text_of (json_get ''speaker'' (Some s)), text_of (json_get ''text'' (Some s)),
      date_of parse (json_get ''timestamp'' (Some s)))"

definition read_item :: "date_parser \<Rightarrow> json \<Rightarrow> item_input" where
  "read_item parse v =
     (let get = (\<lambda>name. json_get name (Some v)) in
      \<lparr>it_id = json_string (get ''id''), it_text = text_of (get ''text''), it_owner = json_string (get ''owner''),
       it_status = (case get ''status'' of Some (JString s) \<Rightarrow> s | _ \<Rightarrow> ''open''),
       it_due = date_of parse (get ''dueAt''), it_completed = date_of parse (get ''completedAt'')\<rparr>)"

definition read_note :: "date_parser \<Rightarrow> json \<Rightarrow> note_input" where
  "read_note parse body =
     (let get = (\<lambda>name. json_get name (Some body)) in
      \<lparr>in_id = text_of (get ''id''), in_title = json_string (get ''title''), in_mode = json_string (get ''mode''),
       in_capture = json_string (get ''captureSource''), in_processing = json_string (get ''processingMode''),
       in_started = the (date_of parse (get ''startedAt'')), in_ended = the (date_of parse (get ''endedAt'')),
       in_summary = text_of (get ''summary''),
       in_segments = map (read_segment parse) (json_items (get ''transcript'')),
       in_items = map (read_item parse) (json_items (get ''actionItems''))\<rparr>)"

text \<open>The first thing wrong with a body, in the order of the checks.\<close>

definition note_problem :: "date_parser \<Rightarrow> json \<Rightarrow> string option" where
  "note_problem parse body =
     (let get = (\<lambda>name. json_get name (Some body)) in
      if \<not> is_json_object (Some body) then Some ''Request body must be an object''
      else if shows_null body then Some ''text must not contain null characters''
      else if \<not> string_within max_id_length (get ''id'') \<or> get ''id'' = Some (JString []) then Some ''id is required''
      else if \<not> date_string parse (get ''startedAt'') then Some ''startedAt must be an ISO 8601 string''
      else if \<not> date_string parse (get ''endedAt'') then Some ''endedAt must be an ISO 8601 string''
      else if the (date_of parse (get ''endedAt'')) < the (date_of parse (get ''startedAt''))
      then Some ''endedAt must not be before startedAt''
      else if json_string (get ''summary'') = None then Some ''summary is required''
      else if \<not> absent_or_in meeting_modes (get ''mode'') then Some ''mode is invalid''
      else if \<not> absent_or_in [''desktop'', ''meet'', ''import''] (get ''captureSource'') then Some ''captureSource is invalid''
      else if \<not> absent_or_in [''local_byok'', ''managed''] (get ''processingMode'') then Some ''processingMode is invalid''
      else if max_summary_length < int (length (text_of (get ''summary'')))
      then Some (''summary must be '' @ int_str max_summary_length @ '' characters or fewer'')
      else (case get ''transcript'' of
          Some (JArray segments) \<Rightarrow>
            if max_transcript_segments < int (length segments) then Some ''transcript must be an array''
            else (case segments_problem parse 0 segments of
                Some e \<Rightarrow> Some e
              | None \<Rightarrow>
                  (case get ''actionItems'' of
                     Some (JArray items) \<Rightarrow>
                       if max_action_items < int (length items) then Some ''actionItems must be an array''
                       else (case items_problem parse 0 items of
                           Some e \<Rightarrow> Some e
                         | None \<Rightarrow>
                             if get ''title'' \<noteq> None \<and> \<not> string_within max_title_length (get ''title'')
                             then Some ''title must be a string if provided'' else None)
                   | _ \<Rightarrow> Some ''actionItems must be an array''))
        | _ \<Rightarrow> Some ''transcript must be an array''))"

definition assert_valid :: "date_parser \<Rightarrow> json \<Rightarrow> note_error + note_input" where
  "assert_valid parse body =
     (case note_problem parse body of Some e \<Rightarrow> Inl (Note_Invalid e) | None \<Rightarrow> Inr (read_note parse body))"

subsection \<open>Upserting a synced note\<close>

text \<open>\<open>expectedUpdatedAt\<close>: not given, \<open>null\<close>, or a version.\<close>

datatype expected_version = Any_Version | New_Note | At_Version millis

definition is_managed_registration :: "note_input \<Rightarrow> bool" where
  "is_managed_registration i \<longleftrightarrow>
     in_processing i = Some ''managed'' \<and> in_summary i = [] \<and> in_segments i = [] \<and> in_items i = []"

definition note_title :: "note_input \<Rightarrow> string" where
  "note_title i =
     (let t = map_option trim (in_title i) in
      if truthy t then the t else ''Meeting on '' @ iso_day (in_started i))"

definition segments_of :: "ident \<Rightarrow> notes_db \<Rightarrow> segment_row list" where
  "segments_of k db = sort_key sg_order (filter (\<lambda>s. sg_meeting s = k) (nd_segments db))"

definition todos_of :: "ident \<Rightarrow> notes_db \<Rightarrow> todo_row list" where
  "todos_of k db = filter (\<lambda>t. td_meeting t = k) (nd_todos db)"

text \<open>Two lists that are equal once sorted are equal as multisets.\<close>

definition same_items :: "'a list \<Rightarrow> 'a list \<Rightarrow> bool" where
  "same_items xs ys \<longleftrightarrow> length xs = length ys \<and> list_all (\<lambda>x. count_list xs x = count_list ys x) xs"

definition todo_content :: "todo_row \<Rightarrow> string \<times> string option \<times> string \<times> millis option \<times> millis option" where
  "todo_content t = (td_text t, td_owner t, td_status t, td_due t, td_completed t)"

definition item_content :: "item_input \<Rightarrow> string \<times> string option \<times> string \<times> millis option \<times> millis option" where
  "item_content t = (it_text t, it_owner t, it_status t, it_due t, it_completed t)"

definition in_mode_or :: "note_input \<Rightarrow> string" where
  "in_mode_or i = (case in_mode i of Some m \<Rightarrow> m | None \<Rightarrow> ''general'')"

definition identical_note :: "note_input \<Rightarrow> meeting_note \<Rightarrow> notes_db \<Rightarrow> bool" where
  "identical_note i n db \<longleftrightarrow>
     no_title n = note_title i \<and> no_mode n = in_mode_or i \<and> no_started n = in_started i \<and>
     no_ended n = in_ended i \<and> no_summary n = in_summary i \<and>
     map (\<lambda>s. (sg_speaker s, sg_text s, sg_time s)) (segments_of (in_id i) db) = in_segments i \<and>
     same_items (map todo_content (todos_of (in_id i) db)) (map item_content (in_items i))"

text \<open>What the version check decides: go on, answer that nothing changed, or refuse.\<close>

definition sync_guard ::
  "note_input \<Rightarrow> expected_version \<Rightarrow> meeting_note option \<Rightarrow> notes_db \<Rightarrow> (note_error + millis) option" where
  "sync_guard i expected existing db =
     (case expected of
        Any_Version \<Rightarrow> None
      | _ \<Rightarrow>
          (case existing of
             None \<Rightarrow>
               if expected = New_Note then None
               else Some (Inl (Sync_Conflict
                 ''This workspace note was removed. Review it in the web app before syncing.'' ''removed'' None))
           | Some n \<Rightarrow>
               if no_deleted n \<noteq> None
               then Some (Inl (Sync_Conflict
                 ''This workspace note is in trash. Restore it in the web app before syncing.'' ''trashed''
                 (Some (no_version n))))
               else if identical_note i n db then Some (Inr (no_version n))
               else if expected \<noteq> At_Version (no_version n)
               then Some (Inl (Sync_Conflict
                 ''This workspace note changed online after its last desktop sync. Review the web version before retrying.''
                 ''updated'' (Some (no_version n))))
               else None))"

text \<open>
  An id of an action item that another note already uses is replaced. \<open>fresh\<close> gives new ids by
  position.
\<close>

definition foreign_ids :: "note_input \<Rightarrow> notes_db \<Rightarrow> ident list" where
  "foreign_ids i db =
     map td_id (filter (\<lambda>t. Some (td_id t) \<in> set (map it_id (in_items i)) \<and> td_meeting t \<noteq> in_id i) (nd_todos db))"

definition stored_item_id :: "(nat \<Rightarrow> ident) \<Rightarrow> ident list \<Rightarrow> nat \<Rightarrow> item_input \<Rightarrow> ident" where
  "stored_item_id fresh foreign n item =
     (case it_id item of Some k \<Rightarrow> if k \<notin> set foreign then k else fresh n | None \<Rightarrow> fresh n)"

definition new_todos :: "(nat \<Rightarrow> ident) \<Rightarrow> ident \<Rightarrow> note_input \<Rightarrow> notes_db \<Rightarrow> todo_row list" where
  "new_todos fresh user i db =
     map (\<lambda>(n, t). \<lparr>td_id = stored_item_id fresh (foreign_ids i db) n t, td_meeting = in_id i, td_user = user,
         td_text = it_text t, td_owner = it_owner t, td_status = it_status t, td_due = it_due t,
         td_completed = it_completed t\<rparr>) (zip [0..<length (in_items i)] (in_items i))"

definition new_segments :: "note_input \<Rightarrow> segment_row list" where
  "new_segments i =
     map (\<lambda>(n, s). \<lparr>sg_meeting = in_id i, sg_speaker = fst s, sg_text = fst (snd s), sg_time = snd (snd s), sg_order = n\<rparr>)
       (zip [0..<length (in_segments i)] (in_segments i))"

definition created_note :: "millis \<Rightarrow> ident \<Rightarrow> ident \<Rightarrow> note_input \<Rightarrow> meeting_note" where
  "created_note now ws user i =
     \<lparr>no_id = in_id i, no_user = user, no_workspace = Some ws, no_title = note_title i, no_mode = in_mode_or i,
      no_started = in_started i, no_ended = in_ended i, no_summary = in_summary i,
      no_capture = (case in_capture i of Some c \<Rightarrow> c | None \<Rightarrow> ''desktop''),
      no_processing = (case in_processing i of Some p \<Rightarrow> p | None \<Rightarrow> ''local_byok''),
      no_folder = None, no_deleted = None, no_edited = None, no_previous = None, no_version = now\<rparr>"

definition updated_note :: "millis \<Rightarrow> note_input \<Rightarrow> bool \<Rightarrow> meeting_note \<Rightarrow> meeting_note" where
  "updated_note now i preserve n =
     n\<lparr>no_version := next_meeting_version (no_version n) now,
       no_title := (if preserve \<and> \<not> truthy (in_title i) then no_title n else note_title i),
       no_mode := (if preserve \<and> in_mode i = None then no_mode n else in_mode_or i),
       no_capture := (case in_capture i of Some c \<Rightarrow> c | None \<Rightarrow> no_capture n),
       no_processing := (case in_processing i of Some p \<Rightarrow> p | None \<Rightarrow> no_processing n),
       no_started := (if preserve then no_started n else in_started i),
       no_ended := (if preserve then no_ended n else in_ended i),
       no_summary := (if preserve then no_summary n else in_summary i)\<rparr>"

definition replace_children :: "(nat \<Rightarrow> ident) \<Rightarrow> ident \<Rightarrow> note_input \<Rightarrow> notes_db \<Rightarrow> notes_db" where
  "replace_children fresh user i db =
     db\<lparr>nd_segments := delete_rows (\<lambda>s. sg_meeting s = in_id i) (nd_segments db) @ new_segments i,
        nd_todos := delete_rows (\<lambda>t. td_meeting t = in_id i) (nd_todos db) @ new_todos fresh user i db\<rparr>"

text \<open>The transaction: the new version, or the kept one and that nothing changed.\<close>

definition upsert_tx ::
  "millis \<Rightarrow> (nat \<Rightarrow> ident) \<Rightarrow> ident \<Rightarrow> ident \<Rightarrow> expected_version \<Rightarrow> note_input \<Rightarrow> notes_db
   \<Rightarrow> (note_error + millis \<times> bool) \<times> notes_db" where
  "upsert_tx now fresh ws user expected i db =
     (let existing = note_at (in_id i) db in
      if (case existing of Some n \<Rightarrow> no_workspace n \<noteq> Some ws | None \<Rightarrow> False)
      then (Inl (Note_Invalid ''meeting belongs to another workspace''), db)
      else (case sync_guard i expected existing db of
          Some (Inl e) \<Rightarrow> (Inl e, db)
        | Some (Inr v) \<Rightarrow> (Inr (v, True), db)
        | None \<Rightarrow>
            let preserve = (existing \<noteq> None \<and> is_managed_registration i);
                db1 = (if preserve then db else replace_children fresh user i db);
                db2 = (case existing of
                    None \<Rightarrow> db1\<lparr>nd_notes := nd_notes db1 @ [created_note now ws user i]\<rparr>
                  | Some n \<Rightarrow> write_note (in_id i) (updated_note now i preserve) db1)
            in if \<not> unique_on td_id (nd_todos db2) then (Inl (Note_Thrown unique_index_error), db)
               else (Inr (case existing of None \<Rightarrow> now | Some n \<Rightarrow> next_meeting_version (no_version n) now, False), db2)))"

text \<open>The answer, and whether the integrations are told that the note is ready.\<close>

record upsert_answer =
  ur_note :: ident
  ur_title :: string
  ur_version :: millis
  ur_announce :: bool

definition upsert_meeting ::
  "date_parser \<Rightarrow> millis \<Rightarrow> (nat \<Rightarrow> ident) \<Rightarrow> ident \<Rightarrow> ident \<Rightarrow> expected_version \<Rightarrow> json \<Rightarrow> notes_db
   \<Rightarrow> (note_error + upsert_answer) \<times> notes_db" where
  "upsert_meeting parse now fresh ws user expected body db =
     (case assert_valid parse body of
        Inl e \<Rightarrow> (Inl e, db)
      | Inr i \<Rightarrow>
          (case upsert_tx now fresh ws user expected i db of
             (Inl e, db1) \<Rightarrow> (Inl e, db1)
           | (Inr (v, unchanged), db1) \<Rightarrow>
               (Inr \<lparr>ur_note = in_id i, ur_title = note_title i, ur_version = v,
                  ur_announce = (trim (in_summary i) \<noteq> [] \<and> \<not> is_managed_registration i \<and> \<not> unchanged)\<rparr>, db1)))"

end
