(* ===== verification/Note_Editing.thy ===== *)
theory Note_Editing
  imports Meeting_Notes
begin

text \<open>
  Changing a note in the web app: action items and titles (\<open>webapp/src/lib/meetings.ts\<close>), notes
  written by hand (\<open>noteEditing.ts\<close>) and speaker names (\<open>speakers.ts\<close>, \<open>speakers.shared.ts\<close>,
  \<open>speakerLabel\<close> of \<open>types.ts\<close>).
\<close>

subsection \<open>Action items\<close>

definition live_todo :: "ident \<Rightarrow> ident \<Rightarrow> notes_db \<Rightarrow> todo_row option" where
  "live_todo ws k db = find_row (\<lambda>t. td_id t = k \<and> visible_note ws (td_meeting t) db \<noteq> None) (nd_todos db)"

text \<open>
  \<open>due\<close> is \<open>None\<close> when the request does not mention the date, \<open>Some None\<close> when it clears it.
  \<open>other\<close> is what is committed between the first read and the lock.
\<close>

definition bump_note :: "ident \<Rightarrow> millis \<Rightarrow> notes_db \<Rightarrow> notes_db" where
  "bump_note k now = write_note k (\<lambda>n. n\<lparr>no_version := next_meeting_version (no_version n) now\<rparr>)"

definition change_todo ::
  "millis \<Rightarrow> ident \<Rightarrow> ident \<Rightarrow> string option \<Rightarrow> millis option option \<Rightarrow> todo_row \<Rightarrow> notes_db \<Rightarrow> bool \<times> notes_db" where
  "change_todo now k meeting status due current db =
     (let status_changed = (status \<noteq> None \<and> status \<noteq> Some (td_status current));
          due_changed = (due \<noteq> None \<and> due \<noteq> Some (td_due current));
          p = (\<lambda>t. td_id t = k \<and> td_meeting t = meeting);
          f = (\<lambda>t. t\<lparr>td_status := (if status_changed then the status else td_status t),
                 td_completed := (if status_changed then (if status = Some ''done'' then Some now else None) else td_completed t),
                 td_due := (if due_changed then the due else td_due t)\<rparr>)
      in if \<not> status_changed \<and> \<not> due_changed then (True, db)
         else
           let db1 = db\<lparr>nd_todos := update_rows p f (nd_todos db)\<rparr>
           in if 0 < count_rows p (nd_todos db) then (True, bump_note meeting now db1) else (False, db1))"

definition update_action_item ::
  "date_parser \<Rightarrow> millis \<Rightarrow> (notes_db \<Rightarrow> notes_db) \<Rightarrow> ident \<Rightarrow> ident \<Rightarrow> string option \<Rightarrow> string option option \<Rightarrow> notes_db
   \<Rightarrow> (note_error + bool) \<times> notes_db" where
  "update_action_item parse now other ws k status due db =
     (if k = [] \<or> max_action_id_length < int (length k) then (Inl (Note_Invalid ''action item id is invalid''), db)
      else if status \<notin> {None, Some ''open'', Some ''done''}
      then (Inl (Note_Invalid ''status must be open or done''), db)
      else if (case due of Some (Some s) \<Rightarrow> parse s = None | _ \<Rightarrow> False)
      then (Inl (Note_Invalid ''dueAt must be an ISO 8601 string''), db)
      else (case live_todo ws k db of
          None \<Rightarrow> (Inr False, db)
        | Some item \<Rightarrow>
            let db1 = other db in
            (case find_row (\<lambda>t. td_id t = k \<and> td_meeting t = td_meeting item \<and>
                    visible_note ws (td_meeting t) db1 \<noteq> None) (nd_todos db1) of
               None \<Rightarrow> (Inr False, db1)
             | Some current \<Rightarrow>
                 map_prod Inr id (change_todo now k (td_meeting item) status
                   (map_option (\<lambda>v. case v of None \<Rightarrow> None | Some s \<Rightarrow> if s = [] then None else parse s) due)
                   current db1))))"

subsection \<open>The title\<close>

definition rename_meeting :: "millis \<Rightarrow> ident \<Rightarrow> ident \<Rightarrow> string \<Rightarrow> notes_db \<Rightarrow> (note_error + bool) \<times> notes_db" where
  "rename_meeting now ws k title db =
     (let trimmed = trim title in
      if trimmed = [] then (Inl (Note_Invalid ''title is required''), db)
      else if max_title_length < int (length trimmed)
      then (Inl (Note_Invalid (''title must be '' @ int_str max_title_length @ '' characters or fewer'')), db)
      else (case visible_note ws k db of
          None \<Rightarrow> (Inr False, db)
        | Some n \<Rightarrow>
            (Inr True, write_note k
               (\<lambda>x. x\<lparr>no_title := trimmed, no_version := next_meeting_version (no_version n) now\<rparr>) db)))"

subsection \<open>Notes written by hand\<close>

definition max_note_body :: int where "max_note_body = 100000"

definition max_note_title :: nat where "max_note_title = 200"

text \<open>\<open>raw.replace(/\r\n?/g, "\n")\<close>.\<close>

fun normalise_newlines :: "string \<Rightarrow> string" where
  "normalise_newlines [] = []"
| "normalise_newlines (c # cs) =
     (if c = CHR 0x0D
      then CHR 0x0A # (case cs of d # ds \<Rightarrow> if d = CHR 0x0A then normalise_newlines ds else normalise_newlines cs | [] \<Rightarrow> [])
      else c # normalise_newlines cs)"

definition validate_note_body :: "string \<Rightarrow> string + string" where
  "validate_note_body raw =
     (if CHR 0x00 \<in> set raw then Inl (''This doesn'' @ [CHR 0x27] @ ''t look like a text file.'')
      else
        let body = normalise_newlines raw in
        if max_note_body < int (length body) then Inl ''Notes can be up to 100,000 characters.'' else Inr body)"

text \<open>\<open>fileName.replace(/^.*[\/]/, "")\<close>: the dot does not match the end of a line.\<close>

definition base_name :: "string \<Rightarrow> string" where
  "base_name s =
     (let line = takeWhile (\<lambda>c. c \<notin> {CHR 0x0A, CHR 0x0D}) s in
      rev (takeWhile (\<lambda>c. c \<notin> {CHR ''/'', CHR 0x5C}) (rev line)) @ drop (length line) s)"

definition drop_suffix :: "string \<Rightarrow> string \<Rightarrow> string" where
  "drop_suffix e s = (if suffix e (to_lower s) then take (length s - length e) s else s)"

definition drop_extension :: "string \<Rightarrow> string" where
  "drop_extension s =
     (if suffix ''.md'' (to_lower s) then drop_suffix ''.md'' s
      else if suffix ''.markdown'' (to_lower s) then drop_suffix ''.markdown'' s
      else drop_suffix ''.txt'' s)"

definition title_from_file_name :: "string \<Rightarrow> string" where
  "title_from_file_name name =
     (let base = trim (collapse_spaces (drop_extension (base_name name))) in
      take max_note_title (if base = [] then ''Untitled note'' else base))"

definition is_note_upload_name :: "string \<Rightarrow> bool" where
  "is_note_upload_name name \<longleftrightarrow>
     list_ex (\<lambda>e. suffix e (to_lower (trim name))) [''.md'', ''.markdown'', ''.txt'']"

text \<open>The audit entry is written after the transaction, and a failed one is ignored.\<close>

record edit_world =
  ew_now :: millis
  ew_new_id :: ident
  ew_audit_ok :: bool
  ew_audit_id :: ident

definition audit_edit :: "edit_world \<Rightarrow> lib_session \<Rightarrow> string \<Rightarrow> ident \<Rightarrow> metadata option \<Rightarrow> notes_db \<Rightarrow> notes_db" where
  "audit_edit w se action k md db =
     db\<lparr>nd_audit := snd (record_audit (ew_audit_ok w) (ew_audit_id w) (ew_now w) (se_workspace se) (Some (se_user se)) action
         (Some ''meeting'') (Some k) md (nd_audit db))\<rparr>"

definition create_note ::
  "edit_world \<Rightarrow> lib_session \<Rightarrow> string option \<Rightarrow> string option \<Rightarrow> ident option \<Rightarrow> string \<Rightarrow> notes_db
   \<Rightarrow> (note_error + ident) \<times> notes_db" where
  "create_note w se title body folder source db =
     (let t = take max_note_title (trim (collapse_spaces (case title of Some s \<Rightarrow> s | None \<Rightarrow> [])));
          name = (if t = [] then ''Untitled note'' else t)
      in case validate_note_body (case body of Some s \<Rightarrow> s | None \<Rightarrow> []) of
           Inl e \<Rightarrow> (Inl (Note_Invalid e), db)
         | Inr text \<Rightarrow>
             if truthy folder \<and> \<not> list_ex (\<lambda>f. Some (fo_id f) = folder \<and> fo_workspace f = se_workspace se \<and>
                  fo_deleted f = None) (nd_folders db)
             then (Inl (Note_Invalid ''That folder no longer exists.''), db)
             else if note_at (ew_new_id w) db \<noteq> None then (Inl (Note_Thrown unique_index_error), db)
             else (Inr (ew_new_id w),
               audit_edit w se ''meeting.create'' (ew_new_id w) (Some [(''source'', Js_String source)])
                 (db\<lparr>nd_notes := nd_notes db @
                    [\<lparr>no_id = ew_new_id w, no_user = se_user se, no_workspace = Some (se_workspace se), no_title = name,
                      no_mode = ''general'', no_started = ew_now w, no_ended = ew_now w, no_summary = text,
                      no_capture = ''manual'', no_processing = ''local_byok'', no_folder = folder, no_deleted = None,
                      no_edited = None, no_previous = None, no_version = ew_now w\<rparr>]\<rparr>)))"

text \<open>\<open>toISOString()\<close>, the version as the editor sends it back.\<close>

definition iso_instant :: "millis \<Rightarrow> string" where
  "iso_instant t =
     (let y = utc_full_year t; r = t mod ms_per_day;
          year = (if 0 \<le> y \<and> y \<le> 9999 then pad_left 4 (int_str y)
                  else (if y < 0 then ''-'' else ''+'') @ pad_left 6 (int_str \<bar>y\<bar>))
      in year @ ''-'' @ pad_left 2 (int_str (utc_month t + 1)) @ ''-'' @ pad_left 2 (int_str (utc_date t)) @ ''T'' @
         pad_left 2 (int_str (r div 3600000)) @ '':'' @ pad_left 2 (int_str (r div 60000 mod 60)) @ '':'' @
         pad_left 2 (int_str (r div 1000 mod 60)) @ ''.'' @ pad_left 3 (int_str (r mod 1000)) @ ''Z'')"

datatype save_error = Save_Fail string | Save_Conflict string

definition update_note_body ::
  "edit_world \<Rightarrow> lib_session \<Rightarrow> ident \<Rightarrow> string \<Rightarrow> string \<Rightarrow> notes_db \<Rightarrow> (save_error + string) \<times> notes_db" where
  "update_note_body w se k raw expected db =
     (case validate_note_body raw of
        Inl e \<Rightarrow> (Inl (Save_Fail e), db)
      | Inr body \<Rightarrow>
          (case visible_note (se_workspace se) k db of
             None \<Rightarrow> (Inl (Save_Fail ''This note no longer exists.''), db)
           | Some n \<Rightarrow>
               if iso_instant (no_version n) \<noteq> expected
               then (Inl (Save_Conflict ''This note changed while you were editing. Copy your text, reload, and try again.''), db)
               else if no_summary n = body then (Inr (iso_instant (no_version n)), db)
               else
                 let v = next_meeting_version (no_version n) (ew_now w) in
                 (Inr (iso_instant v),
                  audit_edit w se ''meeting.edit'' k None
                    (write_note k (\<lambda>x. x\<lparr>no_summary := body, no_previous := Some (no_summary n),
                       no_edited := Some (ew_now w), no_version := v\<rparr>) db))))"

definition restore_previous_body ::
  "edit_world \<Rightarrow> lib_session \<Rightarrow> ident \<Rightarrow> notes_db \<Rightarrow> (string + string) \<times> notes_db" where
  "restore_previous_body w se k db =
     (case visible_note (se_workspace se) k db of
        None \<Rightarrow> (Inl ''This note no longer exists.'', db)
      | Some n \<Rightarrow>
          (case no_previous n of
             None \<Rightarrow> (Inl (''There'' @ [CHR 0x27] @ ''s no earlier version to restore.''), db)
           | Some body \<Rightarrow>
               let v = next_meeting_version (no_version n) (ew_now w) in
               (Inr (iso_instant v),
                audit_edit w se ''meeting.edit'' k (Some [(''restored'', Js_Bool True)])
                  (write_note k (\<lambda>x. x\<lparr>no_summary := body, no_previous := Some (no_summary n),
                     no_edited := Some (ew_now w), no_version := v\<rparr>) db))))"

subsection \<open>Speaker names\<close>

definition numbered_label :: "string \<Rightarrow> string \<Rightarrow> string \<Rightarrow> string option" where
  "numbered_label prefix_key label key =
     (case strip_prefix prefix_key key of
        Some digits \<Rightarrow> if all_digits digits then Some (label @ digits) else None
      | None \<Rightarrow> None)"

definition speaker_label :: "string \<Rightarrow> string" where
  "speaker_label key =
     (if key = ''you'' then ''You''
      else if key = ''speaker'' then ''Speaker''
      else case numbered_label ''speaker-'' ''Speaker '' key of
          Some l \<Rightarrow> l
        | None \<Rightarrow> (case numbered_label ''them-'' ''Them '' key of Some l \<Rightarrow> l | None \<Rightarrow> ''Them''))"

definition min_speaker_name :: nat where "min_speaker_name = 2"

definition max_speaker_name :: nat where "max_speaker_name = 60"

definition unsafe_name_char :: "char \<Rightarrow> bool" where
  "unsafe_name_char c \<longleftrightarrow>
     c \<in> set (''#*<>[]|'' @ [CHR 0x60, CHR 0x5C]) \<or> (of_char c :: nat) < 32 \<or> (of_char c :: nat) = 127"

definition validate_speaker_name :: "string \<Rightarrow> string + string" where
  "validate_speaker_name raw =
     (let name = trim (collapse_spaces raw) in
      if length name < min_speaker_name then Inl (''Use at least '' @ int_str (int min_speaker_name) @ '' characters.'')
      else if max_speaker_name < length name
      then Inl (''Use '' @ int_str (int max_speaker_name) @ '' characters or fewer.'')
      else if list_ex unsafe_name_char name
      then Inl (''Names can'' @ [CHR 0x27] @ ''t contain # * '' @ [CHR 0x60] @ '' < > [ ] | or backslashes.'')
      else Inr name)"

text \<open>\<open>[\p{L}\p{N}_]\<close> on the code units modelled here.\<close>

definition is_label_char :: "char \<Rightarrow> bool" where
  "is_label_char c \<longleftrightarrow>
     is_word_char c \<or>
     (let n = (of_char c :: nat) in
      n \<in> {170, 178, 179, 181, 185, 186, 188, 189, 190} \<or> 192 \<le> n \<and> n \<noteq> 215 \<and> n \<noteq> 247)"

definition stands_alone :: "char option \<Rightarrow> string \<Rightarrow> bool" where
  "stands_alone before after \<longleftrightarrow>
     (case before of None \<Rightarrow> True | Some c \<Rightarrow> \<not> is_label_char c) \<and>
     (case after of [] \<Rightarrow> True | c # _ \<Rightarrow> \<not> is_label_char c)"

fun replace_loop :: "string \<Rightarrow> string \<Rightarrow> char option \<Rightarrow> string \<Rightarrow> string" where
  "replace_loop from into before [] = []"
| "replace_loop from into before (c # cs) =
     (if prefix from (c # cs) \<and> stands_alone before (drop (length from - 1) cs)
      then into @ replace_loop from into (Some (last from)) (drop (length from - 1) cs)
      else c # replace_loop from into (Some c) cs)"

definition replace_label :: "string \<Rightarrow> string \<Rightarrow> string \<Rightarrow> string" where
  "replace_label s from into = (if from = [] \<or> from = into then s else replace_loop from into None s)"

definition relabel_todo :: "string \<Rightarrow> string \<Rightarrow> todo_row \<Rightarrow> todo_row" where
  "relabel_todo from into t =
     t\<lparr>td_text := replace_label (td_text t) from into,
       td_owner := (case td_owner t of
           Some x \<Rightarrow> if to_lower (trim x) = to_lower from then Some into else Some x | None \<Rightarrow> None)\<rparr>"

definition speaker_of :: "ident \<Rightarrow> string \<Rightarrow> notes_db \<Rightarrow> speaker_row option" where
  "speaker_of k key db = find_row (\<lambda>s. sp_meeting s = k \<and> sp_key s = key) (nd_speakers db)"

definition label_of :: "ident \<Rightarrow> notes_db \<Rightarrow> string \<Rightarrow> string" where
  "label_of k db key = (case speaker_of k key db of Some s \<Rightarrow> sp_name s | None \<Rightarrow> speaker_label key)"

definition apply_label :: "millis \<Rightarrow> ident \<Rightarrow> string \<Rightarrow> string \<Rightarrow> notes_db \<Rightarrow> notes_db" where
  "apply_label now k from into db =
     (if from = into then db
      else write_note k (\<lambda>n. n\<lparr>no_summary := replace_label (no_summary n) from into,
             no_version := next_meeting_version (no_version n) now\<rparr>)
           (db\<lparr>nd_todos := update_rows (\<lambda>t. td_meeting t = k) (relabel_todo from into) (nd_todos db)\<rparr>))"

definition set_speaker :: "ident \<Rightarrow> string \<Rightarrow> string option \<Rightarrow> notes_db \<Rightarrow> notes_db" where
  "set_speaker k key label db =
     db\<lparr>nd_speakers :=
       (case label of
          None \<Rightarrow> delete_rows (\<lambda>s. sp_meeting s = k \<and> sp_key s = key) (nd_speakers db)
        | Some l \<Rightarrow>
            if speaker_of k key db \<noteq> None
            then update_rows (\<lambda>s. sp_meeting s = k \<and> sp_key s = key) (\<lambda>s. s\<lparr>sp_name := l, sp_applied := l\<rparr>) (nd_speakers db)
            else nd_speakers db @ [\<lparr>sp_meeting = k, sp_key = key, sp_name = l, sp_applied = l\<rparr>])\<rparr>"

definition rename_speaker ::
  "millis \<Rightarrow> ident \<Rightarrow> ident \<Rightarrow> string \<Rightarrow> string \<Rightarrow> notes_db \<Rightarrow> (string + string) \<times> notes_db" where
  "rename_speaker now ws k key raw db =
     (let default_label = speaker_label key;
          trimmed = trim (collapse_spaces raw);
          resetting = (trimmed = [] \<or> trimmed = default_label)
      in case (if resetting then Inr default_label else validate_speaker_name trimmed) of
           Inl e \<Rightarrow> (Inl e, db)
         | Inr target \<Rightarrow>
             (case visible_note ws k db of
                None \<Rightarrow> (Inl ''This meeting no longer exists.'', db)
              | Some n \<Rightarrow>
                  let keys = remdups (map sg_speaker (filter (\<lambda>s. sg_meeting s = k) (nd_segments db))) in
                  if key \<notin> set keys then (Inl (''That speaker isn'' @ [CHR 0x27] @ ''t in this transcript.''), db)
                  else if list_ex (\<lambda>x. x \<noteq> key \<and> to_lower (label_of k db x) = to_lower target) keys
                  then (Inl ''Another speaker already has that name.'', db)
                  else
                    let current = (case speaker_of k key db of Some s \<Rightarrow> sp_applied s | None \<Rightarrow> default_label)
                    in (Inr target,
                        set_speaker k key (if resetting then None else Some target) (apply_label now k current target db))))"

end
