(* ===== verification/Note_Versions.thy ===== *)
theory Note_Versions
  imports Note_Editing
begin

text \<open>
  Versions detect changes: whatever changes a note raises its version, so a write that names the
  version its author saw cannot overwrite a change its author did not see.
\<close>

subsection \<open>Stores with versions\<close>

text \<open>
  \<open>look\<close> gives the version and the content under a key. A step either leaves both or raises the
  version.
\<close>

locale versioned_store =
  fixes step :: "'o \<Rightarrow> 's \<Rightarrow> 's"
    and look :: "'k \<Rightarrow> 's \<Rightarrow> ('v :: linorder \<times> 'c) option"
    and inv :: "'s \<Rightarrow> bool"
  assumes step_inv: "inv s \<Longrightarrow> inv (step o' s)"
    and step_look: "inv s \<Longrightarrow> look k s = Some (v, c) \<Longrightarrow>
      \<exists>v' c'. look k (step o' s) = Some (v', c') \<and> (v < v' \<or> v' = v \<and> c' = c)"
begin

lemma run_inv: "inv s \<Longrightarrow> inv (fold step ops s)"
  by (induction ops arbitrary: s) (auto intro: step_inv)

lemma run_look:
  assumes "inv s" "look k s = Some (v, c)"
  shows "\<exists>v' c'. look k (fold step ops s) = Some (v', c') \<and> (v < v' \<or> v' = v \<and> c' = c)"
  using assms
proof (induction ops arbitrary: s v c)
  case Nil
  then show ?case by simp
next
  case (Cons o' ops)
  obtain v1 c1 where 1: "look k (step o' s) = Some (v1, c1)" "v < v1 \<or> v1 = v \<and> c1 = c"
    using step_look [OF Cons.prems] by blast
  obtain v2 c2 where "look k (fold step ops (step o' s)) = Some (v2, c2)" "v1 < v2 \<or> v2 = v1 \<and> c2 = c1"
    using Cons.IH [OF step_inv [OF Cons.prems(1)] 1(1)] by blast
  with 1(2) show ?case by auto
qed

text \<open>Seeing the same version again means seeing the same content.\<close>

lemma same_version_same_content:
  assumes "inv s" "look k s = Some (v, c)" "look k (fold step ops s) = Some (v, c')"
  shows "c' = c"
  using run_look [OF assms(1,2), of ops] assms(3) by auto

end

subsection \<open>Notes as a store with versions\<close>

definition note_ids_unique :: "notes_db \<Rightarrow> bool" where
  "note_ids_unique db \<longleftrightarrow> unique_on no_id (nd_notes db)"

definition lines_of :: "ident \<Rightarrow> notes_db \<Rightarrow> segment_row list" where
  "lines_of k db = filter (\<lambda>s. sg_meeting s = k) (nd_segments db)"

definition names_of :: "ident \<Rightarrow> notes_db \<Rightarrow> speaker_row list" where
  "names_of k db = filter (\<lambda>s. sp_meeting s = k) (nd_speakers db)"

text \<open>Everything a note shows but the names given to its speakers.\<close>

definition note_content ::
  "meeting_note \<Rightarrow> notes_db \<Rightarrow> (string \<times> string \<times> millis \<times> millis \<times> string) \<times> segment_row list \<times> todo_row list" where
  "note_content n db =
     ((no_title n, no_mode n, no_started n, no_ended n, no_summary n), lines_of (no_id n) db, todos_of (no_id n) db)"

definition note_look where
  "note_look k db = map_option (\<lambda>n. (no_version n, note_content n db)) (note_at k db)"

datatype note_op =
    Sync_Op millis "nat \<Rightarrow> ident" ident ident expected_version json
  | Item_Op millis ident ident "string option" "string option option"
  | Title_Op millis ident ident string
  | New_Op edit_world lib_session "string option" "string option" "ident option" string
  | Body_Op edit_world lib_session ident string string
  | Restore_Op edit_world lib_session ident
  | Speaker_Op millis ident ident string string

fun note_step :: "date_parser \<Rightarrow> note_op \<Rightarrow> notes_db \<Rightarrow> notes_db" where
  "note_step parse (Sync_Op now fresh ws user expected body) db =
     snd (upsert_meeting parse now fresh ws user expected body db)"
| "note_step parse (Item_Op now ws k status due) db = snd (update_action_item parse now id ws k status due db)"
| "note_step parse (Title_Op now ws k title) db = snd (rename_meeting now ws k title db)"
| "note_step parse (New_Op w se title body folder source) db = snd (create_note w se title body folder source db)"
| "note_step parse (Body_Op w se k raw expected) db = snd (update_note_body w se k raw expected db)"
| "note_step parse (Restore_Op w se k) db = snd (restore_previous_body w se k db)"
| "note_step parse (Speaker_Op now ws k key raw) db = snd (rename_speaker now ws k key raw db)"

fun op_workspace :: "note_op \<Rightarrow> ident" where
  "op_workspace (Sync_Op now fresh ws user expected body) = ws"
| "op_workspace (Item_Op now ws k status due) = ws"
| "op_workspace (Title_Op now ws k title) = ws"
| "op_workspace (New_Op w se title body folder source) = se_workspace se"
| "op_workspace (Body_Op w se k raw expected) = se_workspace se"
| "op_workspace (Restore_Op w se k) = se_workspace se"
| "op_workspace (Speaker_Op now ws k key raw) = ws"

subsection \<open>What an operation may do\<close>

text \<open>
  A request of a workspace touches at most one note: a new one, or one of its own, whose version
  rises and which stays in the workspace.
\<close>

definition same_children :: "ident \<Rightarrow> notes_db \<Rightarrow> notes_db \<Rightarrow> bool" where
  "same_children k db db' \<longleftrightarrow>
     lines_of k db' = lines_of k db \<and> todos_of k db' = todos_of k db \<and> names_of k db' = names_of k db"

definition touches :: "ident \<Rightarrow> ident \<Rightarrow> notes_db \<Rightarrow> notes_db \<Rightarrow> bool" where
  "touches ws m db db' \<longleftrightarrow>
     (\<forall>k. k \<noteq> m \<longrightarrow> same_children k db db') \<and>
     ((\<exists>n. note_at m db = None \<and> no_id n = m \<and> no_workspace n = Some ws \<and> nd_notes db' = nd_notes db @ [n]) \<or>
      (\<exists>n f. note_at m db = Some n \<and> no_workspace n = Some ws \<and>
         (\<forall>x. no_id (f x) = no_id x \<and> no_workspace (f x) = no_workspace x) \<and>
         no_version n < no_version (f n) \<and> nd_notes db' = update_rows (\<lambda>x. no_id x = m) f (nd_notes db)))"

text \<open>Naming a speaker as before may rewrite the row of the name and nothing else.\<close>

definition renames :: "ident \<Rightarrow> notes_db \<Rightarrow> notes_db \<Rightarrow> bool" where
  "renames ws db db' \<longleftrightarrow>
     nd_notes db' = nd_notes db \<and> nd_segments db' = nd_segments db \<and> nd_todos db' = nd_todos db \<and>
     (\<forall>k n. note_at k db = Some n \<and> no_workspace n \<noteq> Some ws \<longrightarrow> names_of k db' = names_of k db)"

definition request_effect :: "ident \<Rightarrow> notes_db \<Rightarrow> notes_db \<Rightarrow> bool" where
  "request_effect ws db db' \<longleftrightarrow> renames ws db db' \<or> (\<exists>m. touches ws m db db')"

lemma effect_none [simp]: "request_effect ws db db"
  by (simp add: request_effect_def renames_def)

lemma next_version_greater: "v < next_meeting_version v now"
  by (simp add: next_meeting_version_def)

lemma visible_note_SomeD:
  assumes "note_ids_unique db" "visible_note ws k db = Some n"
  shows "note_at k db = Some n \<and> no_workspace n = Some ws \<and> no_deleted n = None"
proof -
  have n: "n \<in> set (nd_notes db)" "no_id n = k" "live_in ws n"
    using find_row_SomeD [OF assms(2) [unfolded visible_note_def]] by auto
  then show ?thesis
    using find_row_unique [OF assms(1) [unfolded note_ids_unique_def] n(1)] by (simp add: note_at_def live_in_def)
qed

lemma filter_update_keeps:
  assumes "\<And>r. r \<in> set rows \<Longrightarrow> p r \<Longrightarrow> \<not> q r \<and> \<not> q (f r)"
  shows "filter q (update_rows p f rows) = filter q rows"
  using assms by (induction rows) auto

lemma filter_delete_keeps:
  assumes "\<And>r. r \<in> set rows \<Longrightarrow> p r \<Longrightarrow> \<not> q r"
  shows "filter q (delete_rows p rows) = filter q rows"
  using assms by (induction rows) auto

text \<open>A write to one of the workspace's notes and to that note's children.\<close>

lemma effect_write:
  assumes "note_at m db = Some n" "no_workspace n = Some ws" "no_version n < no_version (f n)"
    and "\<And>x. no_id (f x) = no_id x \<and> no_workspace (f x) = no_workspace x"
    and "nd_notes db' = update_rows (\<lambda>x. no_id x = m) f (nd_notes db)"
    and "\<And>k. k \<noteq> m \<Longrightarrow> same_children k db db'"
  shows "request_effect ws db db'"
  unfolding request_effect_def touches_def using assms by blast

lemma effect_create:
  assumes "note_at m db = None" "no_id n = m" "no_workspace n = Some ws" "nd_notes db' = nd_notes db @ [n]"
    and "\<And>k. k \<noteq> m \<Longrightarrow> same_children k db db'"
  shows "request_effect ws db db'"
  unfolding request_effect_def touches_def using assms by blast

lemma same_children_same:
  "nd_segments db' = nd_segments db \<Longrightarrow> nd_todos db' = nd_todos db \<Longrightarrow> nd_speakers db' = nd_speakers db \<Longrightarrow>
    same_children k db db'"
  by (simp add: same_children_def lines_of_def todos_of_def names_of_def)

lemma audit_edit_tables [simp]:
  "nd_notes (audit_edit w se action k md db) = nd_notes db"
  "nd_segments (audit_edit w se action k md db) = nd_segments db"
  "nd_todos (audit_edit w se action k md db) = nd_todos db"
  "nd_speakers (audit_edit w se action k md db) = nd_speakers db"
  by (simp_all add: audit_edit_def)

lemma write_note_tables [simp]:
  "nd_notes (write_note k f db) = update_rows (\<lambda>n. no_id n = k) f (nd_notes db)"
  "nd_segments (write_note k f db) = nd_segments db"
  "nd_todos (write_note k f db) = nd_todos db"
  "nd_speakers (write_note k f db) = nd_speakers db"
  by (simp_all add: write_note_def)

text \<open>A write to a note after its children, if any, were written.\<close>

lemma effect_edit:
  assumes "note_at m db = Some n" "no_workspace n = Some ws" "no_version n < no_version (f n)"
    and "\<And>x. no_id (f x) = no_id x \<and> no_workspace (f x) = no_workspace x"
    and "nd_notes db1 = nd_notes db" "\<And>k. k \<noteq> m \<Longrightarrow> same_children k db db1"
  shows "request_effect ws db (write_note m f db1)"
  by (rule effect_write [OF assms(1-4)])
    (use assms(5,6) in \<open>simp_all add: same_children_def lines_of_def todos_of_def names_of_def\<close>)

lemma same_children_refl [simp]: "same_children k db db"
  by (simp add: same_children_def)

lemma effect_audit: "request_effect ws db (audit_edit w se action k md db') = request_effect ws db db'"
  by (simp add: request_effect_def touches_def renames_def same_children_def lines_of_def todos_of_def names_of_def)

subsection \<open>Every operation\<close>

lemma rename_meeting_effect:
  assumes "note_ids_unique db"
  shows "request_effect ws db (snd (rename_meeting now ws k title db))"
  using visible_note_SomeD [OF assms]
  by (auto simp: rename_meeting_def Let_def next_version_greater split: option.split intro!: effect_edit)

lemma create_note_effect: "request_effect (se_workspace se) db (snd (create_note w se title body folder source db))"
  by (auto simp: create_note_def Let_def split: sum.split
      intro!: effect_create [where m = "ew_new_id w"] same_children_same)

lemma update_note_body_effect:
  assumes "note_ids_unique db"
  shows "request_effect (se_workspace se) db (snd (update_note_body w se k raw expected db))"
  using visible_note_SomeD [OF assms]
  by (auto simp: update_note_body_def Let_def next_version_greater effect_audit split: sum.split option.split
      intro!: effect_edit)

lemma restore_previous_body_effect:
  assumes "note_ids_unique db"
  shows "request_effect (se_workspace se) db (snd (restore_previous_body w se k db))"
  using visible_note_SomeD [OF assms]
  by (auto simp: restore_previous_body_def Let_def next_version_greater effect_audit split: option.split intro!: effect_edit)

lemma todos_update_children:
  assumes "k \<noteq> m" "\<And>t. p t \<Longrightarrow> td_meeting t = m" "\<And>t. td_meeting (f t) = td_meeting t"
  shows "same_children k db (db\<lparr>nd_todos := update_rows p f (nd_todos db)\<rparr>)"
proof -
  have "filter (\<lambda>t. td_meeting t = k) (update_rows p f (nd_todos db)) = filter (\<lambda>t. td_meeting t = k) (nd_todos db)"
    by (rule filter_update_keeps) (use assms in auto)
  then show ?thesis by (simp add: same_children_def lines_of_def todos_of_def names_of_def)
qed

lemma change_todo_effect:
  assumes "note_at m db = Some n" "no_workspace n = Some ws"
  shows "request_effect ws db (snd (change_todo now k m status due current db))"
proof -
  let ?p = "\<lambda>t. td_id t = k \<and> td_meeting t = m"
  have idle: "update_rows ?p f (nd_todos db) = nd_todos db" if "count_rows ?p (nd_todos db) = 0" for f
    using that by (simp add: count_rows_0_iff update_rows_idle)
  show ?thesis
    using assms idle
    by (auto simp: change_todo_def Let_def bump_note_def next_version_greater
        intro!: effect_edit todos_update_children)
qed

lemma update_action_item_effect:
  assumes "note_ids_unique db"
  shows "request_effect ws db (snd (update_action_item parse now id ws k status due db))"
proof (cases "live_todo ws k db")
  case None
  then show ?thesis by (simp add: update_action_item_def)
next
  case (Some item)
  then obtain n where n: "visible_note ws (td_meeting item) db = Some n"
    by (auto simp: live_todo_def dest!: find_row_SomeD)
  note v = visible_note_SomeD [OF assms n]
  show ?thesis
    using Some v
    by (auto simp: update_action_item_def split: option.split intro!: change_todo_effect)
qed

lemma set_speaker_tables [simp]:
  "nd_notes (set_speaker m key label db) = nd_notes db"
  "nd_segments (set_speaker m key label db) = nd_segments db"
  "nd_todos (set_speaker m key label db) = nd_todos db"
  by (simp_all add: set_speaker_def)

lemma names_of_set_speaker: "k \<noteq> m \<Longrightarrow> names_of k (set_speaker m key label db) = names_of k db"
proof -
  assume km: "k \<noteq> m"
  have "filter (\<lambda>s. sp_meeting s = k) (delete_rows (\<lambda>s. sp_meeting s = m \<and> sp_key s = key) (nd_speakers db)) =
      filter (\<lambda>s. sp_meeting s = k) (nd_speakers db)"
    by (rule filter_delete_keeps) (use km in auto)
  moreover have "filter (\<lambda>s. sp_meeting s = k)
      (update_rows (\<lambda>s. sp_meeting s = m \<and> sp_key s = key) (\<lambda>s. s\<lparr>sp_name := l, sp_applied := l\<rparr>) (nd_speakers db)) =
      filter (\<lambda>s. sp_meeting s = k) (nd_speakers db)" for l
    by (rule filter_update_keeps) (use km in auto)
  ultimately show ?thesis
    using km by (simp add: names_of_def set_speaker_def split: option.split)
qed

text \<open>Writing names of a note after an effect on that note, or after none.\<close>

lemma effect_set_speaker:
  assumes "note_at m db = Some n" "no_workspace n = Some ws"
    and "db' = db \<or> touches ws m db db'"
  shows "request_effect ws db (set_speaker m key label db')"
  using assms(3)
proof
  assume "db' = db"
  moreover have "names_of k (set_speaker m key label db) = names_of k db"
    if "note_at k db = Some x" "no_workspace x \<noteq> Some ws" for k x
    by (rule names_of_set_speaker) (use assms(1,2) that in auto)
  ultimately have "renames ws db (set_speaker m key label db')" by (auto simp: renames_def)
  then show ?thesis by (simp add: request_effect_def)
next
  assume "touches ws m db db'"
  then have "touches ws m db (set_speaker m key label db')"
    by (simp add: touches_def same_children_def lines_of_def todos_of_def names_of_set_speaker)
  then show ?thesis by (auto simp: request_effect_def)
qed

lemma apply_label_touches:
  assumes "note_at m db = Some n" "no_workspace n = Some ws"
  shows "apply_label now m from into db = db \<or> touches ws m db (apply_label now m from into db)"
proof (cases "from = into")
  case False
  let ?f = "\<lambda>n. n\<lparr>no_summary := replace_label (no_summary n) from into,
             no_version := next_meeting_version (no_version n) now\<rparr>"
  have w: "apply_label now m from into db =
      write_note m ?f (db\<lparr>nd_todos := update_rows (\<lambda>t. td_meeting t = m) (relabel_todo from into) (nd_todos db)\<rparr>)"
    using False by (simp add: apply_label_def)
  have "same_children k db (apply_label now m from into db)" if "k \<noteq> m" for k
    using todos_update_children [OF that, of "\<lambda>t. td_meeting t = m" "relabel_todo from into" db]
    unfolding w by (simp add: same_children_def lines_of_def todos_of_def names_of_def relabel_todo_def)
  moreover have "nd_notes (apply_label now m from into db) = update_rows (\<lambda>x. no_id x = m) ?f (nd_notes db)"
    unfolding w by simp
  moreover have "no_version n < no_version (?f n)" by (simp add: next_version_greater)
  moreover have "\<forall>x. no_id (?f x) = no_id x \<and> no_workspace (?f x) = no_workspace x" by simp
  ultimately have "touches ws m db (apply_label now m from into db)"
    unfolding touches_def using assms by (intro conjI allI impI disjI2 exI [of _ n] exI [of _ ?f]) auto
  then show ?thesis ..
qed (simp add: apply_label_def)

lemma rename_speaker_effect:
  assumes "note_ids_unique db"
  shows "request_effect ws db (snd (rename_speaker now ws k key raw db))"
proof (cases "visible_note ws k db")
  case None
  then show ?thesis by (simp add: rename_speaker_def Let_def split: sum.split)
next
  case (Some n)
  note v = visible_note_SomeD [OF assms Some]
  have "request_effect ws db (set_speaker k key label (apply_label now k from into db))" for label "from" into
    using effect_set_speaker [of k db n ws] apply_label_touches [of k db n ws] v by blast
  with Some show ?thesis by (simp add: rename_speaker_def Let_def split: sum.split)
qed

lemma new_rows_meeting:
  "s \<in> set (new_segments i) \<Longrightarrow> sg_meeting s = in_id i"
  "t \<in> set (new_todos fresh user i db) \<Longrightarrow> td_meeting t = in_id i"
  by (auto simp: new_segments_def new_todos_def)

lemma replace_children_other:
  assumes "k \<noteq> in_id i"
  shows "same_children k db (replace_children fresh user i db)"
proof -
  have "filter (\<lambda>s. sg_meeting s = k) (new_segments i) = []"
    "filter (\<lambda>t. td_meeting t = k) (new_todos fresh user i db) = []"
    using assms new_rows_meeting by (auto simp: filter_empty_conv)
  moreover have "filter (\<lambda>s. sg_meeting s = k) (delete_rows (\<lambda>s. sg_meeting s = in_id i) (nd_segments db)) =
      filter (\<lambda>s. sg_meeting s = k) (nd_segments db)"
    by (rule filter_delete_keeps) (use assms in auto)
  moreover have "filter (\<lambda>t. td_meeting t = k) (delete_rows (\<lambda>t. td_meeting t = in_id i) (nd_todos db)) =
      filter (\<lambda>t. td_meeting t = k) (nd_todos db)"
    by (rule filter_delete_keeps) (use assms in auto)
  ultimately show ?thesis
    by (simp add: same_children_def lines_of_def todos_of_def names_of_def replace_children_def)
qed

lemma updated_note_fields [simp]:
  "no_id (updated_note now i p n) = no_id n"
  "no_workspace (updated_note now i p n) = no_workspace n"
  "no_deleted (updated_note now i p n) = no_deleted n"
  "no_version (updated_note now i p n) = next_meeting_version (no_version n) now"
  by (simp_all add: updated_note_def)

text \<open>An upsert that writes: the guard let it through, and it touched its note.\<close>

lemma upsert_tx_writes:
  assumes "upsert_tx now fresh ws user expected i db = (r, db')"
  shows "db' = db \<or>
    sync_guard i expected (note_at (in_id i) db) db = None \<and> touches ws (in_id i) db db'"
proof (cases "note_at (in_id i) db")
  case None
  let ?db = "replace_children fresh user i db"
  let ?db' = "?db\<lparr>nd_notes := nd_notes ?db @ [created_note now ws user i]\<rparr>"
  have "touches ws (in_id i) db ?db'"
    unfolding touches_def
  proof (intro conjI allI impI disjI1 exI [of _ "created_note now ws user i"])
    fix k assume "k \<noteq> in_id i"
    from replace_children_other [OF this] show "same_children k db ?db'"
      by (simp add: same_children_def lines_of_def todos_of_def names_of_def)
  qed (use None in \<open>simp_all add: created_note_def replace_children_def\<close>)
  then show ?thesis
    using assms None by (auto simp: upsert_tx_def Let_def split: option.splits sum.splits if_splits)
next
  case (Some n)
  have t: "touches ws (in_id i) db (write_note (in_id i) (updated_note now i p) db1)"
    if "no_workspace n = Some ws" "nd_notes db1 = nd_notes db" "\<And>k. k \<noteq> in_id i \<Longrightarrow> same_children k db db1" for p db1
    unfolding touches_def
  proof (intro conjI allI impI disjI2 exI [of _ n] exI [of _ "updated_note now i p"])
    fix k assume "k \<noteq> in_id i"
    from that(3) [OF this] show "same_children k db (write_note (in_id i) (updated_note now i p) db1)"
      by (simp add: same_children_def lines_of_def todos_of_def names_of_def)
  qed (use Some that in \<open>simp_all add: next_version_greater\<close>)
  have "nd_notes (replace_children fresh user i db) = nd_notes db" by (simp add: replace_children_def)
  note ts = t [OF _ refl, of False] t [OF _ refl, of True] t [OF _ this replace_children_other]
  show ?thesis
    using assms Some ts
    by (auto simp: upsert_tx_def Let_def split: option.splits sum.splits if_splits)
qed

lemma upsert_meeting_writes:
  assumes "upsert_meeting parse now fresh ws user expected body db = (r, db')"
  shows "db' = db \<or> (\<exists>i. assert_valid parse body = Inr i \<and>
    sync_guard i expected (note_at (in_id i) db) db = None \<and> touches ws (in_id i) db db')"
proof (cases "assert_valid parse body")
  case (Inl e)
  with assms show ?thesis by (simp add: upsert_meeting_def)
next
  case (Inr i)
  obtain x db1 where tx: "upsert_tx now fresh ws user expected i db = (x, db1)"
    by (cases "upsert_tx now fresh ws user expected i db")
  then have "db' = db1"
    using assms Inr by (auto simp: upsert_meeting_def split: sum.splits prod.splits)
  with upsert_tx_writes [OF tx] Inr show ?thesis by auto
qed

lemma upsert_meeting_effect:
  "request_effect ws db (snd (upsert_meeting parse now fresh ws user expected body db))"
  using upsert_meeting_writes [OF surjective_pairing] by (metis effect_none request_effect_def)

lemma note_step_effect:
  assumes "note_ids_unique db"
  shows "request_effect (op_workspace op) db (note_step parse op db)"
  by (cases op) (use assms in \<open>auto intro: upsert_meeting_effect update_action_item_effect rename_meeting_effect
    create_note_effect update_note_body_effect restore_previous_body_effect rename_speaker_effect\<close>)

subsection \<open>What an effect means\<close>

lemma note_at_append:
  "nd_notes db' = nd_notes db @ [n] \<Longrightarrow> note_at k db = Some x \<Longrightarrow> note_at k db' = Some x"
  by (simp add: note_at_def find_row_append)

lemma note_at_write:
  assumes "nd_notes db' = update_rows (\<lambda>x. no_id x = m) f (nd_notes db)" "\<And>x. no_id (f x) = no_id x"
  shows "note_at k db' = (if k = m then map_option f (note_at k db) else note_at k db)"
  unfolding note_at_def assms(1) by (rule find_row_update_key [where key = no_id and f = f]) (rule assms(2))

lemma note_at_id: "note_at k db = Some n \<Longrightarrow> no_id n = k"
  by (auto simp: note_at_def dest!: find_row_SomeD)

lemma note_at_fresh: "note_at k db = None \<longleftrightarrow> k \<notin> no_id ` set (nd_notes db)"
  by (auto simp: note_at_def find_row_None_iff)

lemma touches_unique:
  assumes "note_ids_unique db" "touches ws m db db'"
  shows "note_ids_unique db'"
  using assms unfolding touches_def note_ids_unique_def
  by (auto simp: unique_on_append note_at_fresh unique_on_update)

lemma touches_look:
  assumes "touches ws m db db'" "note_look k db = Some (v, c)"
  shows "\<exists>v' c'. note_look k db' = Some (v', c') \<and> (v < v' \<or> v' = v \<and> c' = c)"
proof -
  obtain n where n: "note_at k db = Some n" "v = no_version n" "c = note_content n db"
    using assms(2) by (auto simp: note_look_def)
  note k = note_at_id [OF n(1)]
  show ?thesis
  proof (cases "k = m")
    case True
    with n(1) assms(1) obtain f where f: "no_version n < no_version (f n)" "\<And>x. no_id (f x) = no_id x"
      "nd_notes db' = update_rows (\<lambda>x. no_id x = m) f (nd_notes db)"
      by (auto simp: touches_def)
    from note_at_write [OF f(3,2), of k] n f(1) True show ?thesis by (auto simp: note_look_def)
  next
    case False
    then have sc: "same_children k db db'" using assms(1) by (simp add: touches_def)
    have "note_at k db' = Some n"
      using assms(1) n(1) False note_at_append note_at_write by (auto simp: touches_def)
    with n k sc show ?thesis by (auto simp: note_look_def note_content_def same_children_def)
  qed
qed

lemma renames_look: "renames ws db db' \<Longrightarrow> note_look k db' = note_look k db"
  by (simp add: renames_def note_look_def note_at_def note_content_def lines_of_def todos_of_def cong: map_option_cong)

interpretation edits: versioned_store "note_step parse" note_look note_ids_unique for parse
proof unfold_locales
  fix db op
  assume u: "note_ids_unique db"
  from note_step_effect [OF this, of op parse] show "note_ids_unique (note_step parse op db)"
    using touches_unique [OF u] u by (auto simp: request_effect_def renames_def note_ids_unique_def)
next
  fix db k v c op
  assume u: "note_ids_unique db" and l: "note_look k db = Some (v, c)"
  from note_step_effect [OF u, of op parse]
  show "\<exists>v' c'. note_look k (note_step parse op db) = Some (v', c') \<and> (v < v' \<or> v' = v \<and> c' = c)"
    unfolding request_effect_def
  proof
    assume "renames (op_workspace op) db (note_step parse op db)"
    from renames_look [OF this, of k] l show ?thesis by auto
  next
    assume "\<exists>m. touches (op_workspace op) m db (note_step parse op db)"
    then show ?thesis using touches_look [OF _ l] by blast
  qed
qed

end
