(* ===== verification/Note_Properties.thy ===== *)
theory Note_Properties
  imports Note_Versions "HOL-Library.Multiset"
begin

text \<open>
  What the people and devices of a workspace can rely on when they change notes at the same time.
\<close>

subsection \<open>Sync writes\<close>










text \<open>A workspace with a note, and a body the desktop sends for it.\<close>

definition parse_sample :: date_parser where
  "parse_sample s = (if s = ''t1'' then Some 1000 else if s = ''t2'' then Some 2000 else None)"

definition sample_body :: "string \<Rightarrow> json" where
  "sample_body summary = JObject [(''id'', JString ''n1''), (''startedAt'', JString ''t1''), (''endedAt'', JString ''t2''),
     (''title'', JString ''Plan''), (''summary'', JString summary),
     (''transcript'', JArray [JObject [(''speaker'', JString ''you''), (''text'', JString ''Hello'')]]),
     (''actionItems'', JArray [JObject [(''text'', JString ''Call'')]])]"

definition empty_notes :: notes_db where
  "empty_notes = \<lparr>nd_notes = [], nd_segments = [], nd_todos = [], nd_speakers = [], nd_folders = [], nd_audit = []\<rparr>"

definition new_ids :: "string \<Rightarrow> nat \<Rightarrow> ident" where
  "new_ids s n = s @ digits_of n"

definition one_note :: notes_db where
  "one_note = note_step parse_sample (Sync_Op 5000 (new_ids ''i'') ''w1'' ''u1'' New_Note (sample_body ''First'')) empty_notes"

definition sample_row :: meeting_note where
  "sample_row = created_note 5000 ''w1'' ''u1'' (read_note parse_sample (sample_body ''First''))"

lemma one_note_notes: "nd_notes one_note = [sample_row]"
  by code_simp

lemma one_note_unique: "note_ids_unique one_note"
  unfolding note_ids_unique_def one_note_notes by simp



subsection \<open>Tenants\<close>

lemma effect_keeps_workspace:
  assumes "request_effect ws db db'" "note_at k db = Some n"
  shows "\<exists>n'. note_at k db' = Some n' \<and> no_workspace n' = no_workspace n"
proof -
  have "\<exists>n'. note_at k db' = Some n' \<and> no_workspace n' = no_workspace n" if t: "touches ws m db db'" for m
  proof -
    consider x where "nd_notes db' = nd_notes db @ [x]" |
      f where "nd_notes db' = update_rows (\<lambda>x. no_id x = m) f (nd_notes db)"
        "\<And>x. no_id (f x) = no_id x" "\<And>x. no_workspace (f x) = no_workspace x"
      using t unfolding touches_def by metis
    then show ?thesis
      by cases (use assms(2) note_at_append note_at_write in \<open>auto split: if_splits\<close>)
  qed
  moreover have "note_at k db' = Some n" if "renames ws db db'"
    using that assms(2) by (simp add: renames_def note_at_def)
  ultimately show ?thesis using assms(1) by (auto simp: request_effect_def)
qed

lemma effect_foreign:
  assumes "request_effect ws db db'" "note_at k db = Some n" "no_workspace n \<noteq> Some ws"
  shows "note_at k db' = Some n \<and> same_children k db db'"
proof -
  have "note_at k db' = Some n \<and> same_children k db db'" if t: "touches ws m db db'" for m
  proof -
    have "k \<noteq> m" using t assms(2,3) by (auto simp: touches_def)
    with t assms(2) note_at_append note_at_write show ?thesis by (auto simp: touches_def)
  qed
  moreover have "note_at k db' = Some n \<and> same_children k db db'" if "renames ws db db'"
    using that assms(2,3) by (simp add: renames_def note_at_def same_children_def lines_of_def todos_of_def)
  ultimately show ?thesis using assms(1) by (auto simp: request_effect_def)
qed

lemma run_keeps_workspace:
  assumes "note_ids_unique db" "note_at k db = Some n"
  shows "\<exists>n'. note_at k (fold (note_step parse) ops db) = Some n' \<and> no_workspace n' = no_workspace n"
  using assms
proof (induction ops arbitrary: db n)
  case (Cons op ops)
  obtain n' where n': "note_at k (note_step parse op db) = Some n'" "no_workspace n' = no_workspace n"
    using effect_keeps_workspace [OF note_step_effect [OF Cons.prems(1)] Cons.prems(2)] by blast
  from Cons.IH [OF edits.step_inv [OF Cons.prems(1)] n'(1)] n'(2) show ?case by simp
qed simp

lemma run_foreign:
  assumes "note_ids_unique db" "note_at k db = Some n" "list_all (\<lambda>op. no_workspace n \<noteq> Some (op_workspace op)) ops"
  shows "note_at k (fold (note_step parse) ops db) = Some n \<and> same_children k db (fold (note_step parse) ops db)"
  using assms
proof (induction ops arbitrary: db)
  case (Cons op ops)
  have e: "note_at k (note_step parse op db) = Some n" "same_children k db (note_step parse op db)"
    using effect_foreign [OF note_step_effect [OF Cons.prems(1)] Cons.prems(2)] Cons.prems(3) by auto
  from Cons.IH [OF edits.step_inv [OF Cons.prems(1)] e(1)] Cons.prems(3) e(2)
  show ?case by (simp add: same_children_def)
qed simp

text \<open>
  C29. Notes stay in their workspace. Whatever requests are made, a note never moves to another
  workspace, and requests of other workspaces leave the note, its transcript, its action items and
  its speaker names exactly as they are, also when they name its id or the ids of its action items.
\<close>
theorem notes_stay_in_workspace:
  fixes ops :: "note_op list" and parse :: date_parser
  assumes "note_ids_unique db" "note_at k db = Some n"
  defines "db' \<equiv> fold (note_step parse) ops db"
  shows "(\<exists>n'. note_at k db' = Some n' \<and> no_workspace n' = no_workspace n) \<and>
    (list_all (\<lambda>op. no_workspace n \<noteq> Some (op_workspace op)) ops \<longrightarrow>
      note_at k db' = Some n \<and> same_children k db db')"
  unfolding db'_def using run_keeps_workspace [OF assms(1,2)] run_foreign [OF assms(1,2)] by blast

text \<open>Another workspace syncs a note under the same id.\<close>

theorem notes_stay_in_workspace_witness:
  "note_at ''n1'' (note_step parse_sample (Sync_Op 6000 (new_ids ''k'') ''w2'' ''u2'' New_Note (sample_body ''Theirs'')) one_note) =
     Some sample_row"
proof -
  have at: "note_at ''n1'' one_note = Some sample_row"
    unfolding note_at_def one_note_notes by (simp add: sample_row_def created_note_def read_note_def sample_body_def
      json_get_def text_of_def Let_def)
  from notes_stay_in_workspace [OF one_note_unique this, where parse = parse_sample and
      ops = "[Sync_Op 6000 (new_ids ''k'') ''w2'' ''u2'' New_Note (sample_body ''Theirs'')]"]
  show ?thesis by (simp add: sample_row_def created_note_def)
qed

subsection \<open>Editing and undoing\<close>

lemma visible_note_write:
  assumes "\<And>x. no_id (f x) = no_id x" "\<And>x. live_in ws (f x) = live_in ws x"
  shows "visible_note ws k (write_note k f db) = map_option f (visible_note ws k db)"
proof -
  have "find_row (\<lambda>n. no_id n = k \<and> live_in ws n) (update_rows (\<lambda>n. no_id n = k) f rows) =
      map_option f (find_row (\<lambda>n. no_id n = k \<and> live_in ws n) rows)" for rows
    by (induction rows) (auto simp: assms)
  then show ?thesis by (simp add: visible_note_def)
qed

lemma visible_note_audit [simp]: "visible_note ws k (audit_edit w se action m md db) = visible_note ws k db"
  by (simp add: visible_note_def)

lemma update_note_body_Inr:
  assumes "update_note_body w se k raw expected db = (Inr t, db1)" "db1 \<noteq> db"
  shows "\<exists>n body. visible_note (se_workspace se) k db = Some n \<and> expected = iso_instant (no_version n) \<and>
    validate_note_body raw = Inr body \<and>
    visible_note (se_workspace se) k db1 = Some (n\<lparr>no_summary := body, no_previous := Some (no_summary n),
      no_edited := Some (ew_now w), no_version := next_meeting_version (no_version n) (ew_now w)\<rparr>)"
  using assms
  by (auto simp: update_note_body_def Let_def visible_note_write live_in_def split: sum.splits option.splits if_splits)

lemma restore_previous_body_swaps:
  assumes "visible_note (se_workspace se) k db = Some n" "no_previous n = Some old"
  shows "\<exists>t. fst (restore_previous_body w se k db) = Inr t"
    and "visible_note (se_workspace se) k (snd (restore_previous_body w se k db)) =
      Some (n\<lparr>no_summary := old, no_previous := Some (no_summary n), no_edited := Some (ew_now w),
        no_version := next_meeting_version (no_version n) (ew_now w)\<rparr>)"
  using assms by (auto simp: restore_previous_body_def Let_def visible_note_write live_in_def)

text \<open>
  C30. An edit can be undone. Saving a changed body succeeds only with the version that is stored, and
  then undoing it brings the replaced text back, undoing again brings the edit back, and each of
  these writes has a higher version than the one before, whatever the clocks say.
\<close>
theorem body_edit_undo_round_trip:
  fixes w2 w3 :: edit_world
  assumes "update_note_body w se k raw expected db = (Inr t, db1)" "db1 \<noteq> db"
  defines "see \<equiv> visible_note (se_workspace se) k"
    and "db2 \<equiv> snd (restore_previous_body w2 se k db1)"
  defines "db3 \<equiv> snd (restore_previous_body w3 se k db2)"
  shows "\<exists>n n1 n2 n3 body. see db = Some n \<and> see db1 = Some n1 \<and> see db2 = Some n2 \<and> see db3 = Some n3 \<and>
    expected = iso_instant (no_version n) \<and> validate_note_body raw = Inr body \<and>
    no_summary n1 = body \<and> no_summary n2 = no_summary n \<and> no_summary n3 = body \<and>
    no_version n < no_version n1 \<and> no_version n1 < no_version n2 \<and> no_version n2 < no_version n3"
proof -
  obtain n body where n: "see db = Some n" "expected = iso_instant (no_version n)" "validate_note_body raw = Inr body"
    and 1: "see db1 = Some (n\<lparr>no_summary := body, no_previous := Some (no_summary n),
      no_edited := Some (ew_now w), no_version := next_meeting_version (no_version n) (ew_now w)\<rparr>)" (is "_ = Some ?n1")
    using update_note_body_Inr [OF assms(1,2)] unfolding see_def by blast
  have 2: "see db2 = Some (?n1\<lparr>no_summary := no_summary n, no_previous := Some body,
      no_edited := Some (ew_now w2), no_version := next_meeting_version (no_version ?n1) (ew_now w2)\<rparr>)" (is "_ = Some ?n2")
    using restore_previous_body_swaps(2) [of se k db1 ?n1 "no_summary n" w2] 1 unfolding see_def db2_def by simp
  have 3: "see db3 = Some (?n2\<lparr>no_summary := body, no_previous := Some (no_summary n),
      no_edited := Some (ew_now w3), no_version := next_meeting_version (no_version ?n2) (ew_now w3)\<rparr>)" (is "_ = Some ?n3")
    using restore_previous_body_swaps(2) [of se k db2 ?n2 body w3] 2 unfolding see_def db3_def by simp
  show ?thesis
    by (rule exI [of _ n], rule exI [of _ ?n1], rule exI [of _ ?n2], rule exI [of _ ?n3], rule exI [of _ body])
      (use n 1 2 3 next_version_greater in simp)
qed

definition sample_editor :: "millis \<Rightarrow> edit_world" where
  "sample_editor now = \<lparr>ew_now = now, ew_new_id = ''x'', ew_audit_ok = False, ew_audit_id = ''a''\<rparr>"

definition sample_session :: lib_session where
  "sample_session = \<lparr>se_workspace = ''w1'', se_user = ''u1'', se_owner = True\<rparr>"

definition edited_note :: "(save_error + string) \<times> notes_db" where
  "edited_note = update_note_body (sample_editor 6000) sample_session ''n1'' ''Second'' (iso_instant 5000) one_note"

theorem body_edit_undo_round_trip_witness:
  "map_option no_summary (visible_note ''w1'' ''n1''
     (snd (restore_previous_body (sample_editor 1) sample_session ''n1'' (snd edited_note)))) = Some ''First''"
proof -
  have "fst edited_note = Inr ''1970-01-01T00:00:06.000Z''" by code_simp
  then have e: "edited_note = (Inr ''1970-01-01T00:00:06.000Z'', snd edited_note)" by (metis prod.collapse)
  have "map no_summary (nd_notes (snd edited_note)) \<noteq> map no_summary (nd_notes one_note)" by code_simp
  then have d: "snd edited_note \<noteq> one_note" by auto
  have v: "map_option no_summary (visible_note ''w1'' ''n1'' one_note) = Some ''First''" by code_simp
  from body_edit_undo_round_trip [OF e [unfolded edited_note_def] d [unfolded edited_note_def],
      of "sample_editor 1" "sample_editor 2"] v
  show ?thesis unfolding edited_note_def by (auto simp: sample_session_def)
qed

subsection \<open>Other behaviours of the upsert\<close>

text \<open>
  A text that shows the escape of a null character is refused although it has none: its backslash
  is doubled by \<open>JSON.stringify\<close>.
\<close>

lemma escaped_null_text_refused:
  "note_problem parse_sample (sample_body (''see '' @ [CHR 0x5C] @ ''u0000'')) =
     Some ''text must not contain null characters'' \<and>
   CHR 0x00 \<notin> set (''see '' @ [CHR 0x5C] @ ''u0000'')"
  by code_simp

end
