(* ===== verification/Accounts.thy ===== *)
theory Accounts
  imports Workspaces
begin

text \<open>
  Accounts (\<open>webapp/src/lib/accounts.ts\<close>): sign-in, sign-up, Google sign-in, verification and reset
  links, password changes and invitations, with \<open>passwordPolicy.ts\<close>, \<open>signupPolicy.ts\<close>, the links of
  \<open>authEmails.ts\<close> and the delivery modes of \<open>mailer.ts\<close>.

  An operation is several transactions; \<open>wo_other w i\<close> is what others commit in its gap number \<open>i\<close>.
  SHA-256, scrypt, the mail transport, the outcome of the trial grant and new secrets are arguments.
  \<open>normalize('NFC')\<close> of a workspace name is left out: it changes no string of characters up to code
  255, the ones the model has.
\<close>

subsection \<open>Password policy\<close>

definition min_password_length :: nat where "min_password_length = 12"

definition max_password_length :: nat where "max_password_length = 256"

definition common_passwords :: "string list" where
  "common_passwords =
     [''password1234'', ''passwordpassword'', ''123456789012'', ''1234567890123'', ''qwertyuiop12'',
      ''iloveyou1234'', ''letmein12345'', ''administrator'', ''changemechangeme'', ''welcome12345'']"

datatype password_problem = Too_Short | Too_Long | Too_Common | Contains_Email

definition local_part :: "string \<Rightarrow> string" where
  "local_part email = hd (split_on CHR ''@'' email)"

definition password_problem_of :: "string \<Rightarrow> string \<Rightarrow> password_problem option" where
  "password_problem_of password email =
     (if length password < min_password_length then Some Too_Short
      else if max_password_length < length password then Some Too_Long
      else
        let lowered = to_lower password; name = to_lower (local_part email) in
        if lowered \<in> set common_passwords \<or> length (remdups lowered) \<le> 2 then Some Too_Common
        else if email \<noteq> [] \<and> 4 \<le> length name \<and> contains_sub lowered name then Some Contains_Email
        else None)"

subsection \<open>Mail and sign-up policy\<close>

datatype mail_mode = Mail_Resend | Mail_Smtp | Mail_Console | Mail_None

definition email_delivery_mode :: "env \<Rightarrow> mail_mode" where
  "email_delivery_mode env =
     (if has_value env ''EMAIL_FROM'' \<and> has_value env ''RESEND_API_KEY'' then Mail_Resend
      else if has_value env ''EMAIL_FROM'' \<and> has_value env ''SMTP_URL'' then Mail_Smtp
      else if env_is env ''NODE_ENV'' ''production'' then Mail_None else Mail_Console)"

definition allow_unverified_signup :: "env \<Rightarrow> bool" where
  "allow_unverified_signup env \<longleftrightarrow> env_is env ''ALLOW_UNVERIFIED_SIGNUP'' ''true''"

definition email_verification_required :: "env \<Rightarrow> bool" where
  "email_verification_required env \<longleftrightarrow> \<not> allow_unverified_signup env"

datatype signup_block = Signup_Disabled | Signup_Not_Ready | Signup_Email_Required

definition signup_availability :: "url_parser \<Rightarrow> env \<Rightarrow> signup_block option" where
  "signup_availability parse env =
     (if \<not> env_is env ''MANAGED_HOSTING'' ''true'' then Some Signup_Disabled
      else if \<not> is_signup_allowed parse env then Some Signup_Not_Ready
      else if \<not> allow_unverified_signup env \<and> email_delivery_mode env = Mail_None then Some Signup_Email_Required
      else None)"

fun signup_block_error :: "signup_block \<Rightarrow> string" where
  "signup_block_error Signup_Disabled = ''signup-disabled''"
| "signup_block_error Signup_Not_Ready = ''signup-not-ready''"
| "signup_block_error Signup_Email_Required = ''signup-email-required''"

definition current_terms_version :: string where "current_terms_version = ''2026-09-30''"

subsection \<open>State and world\<close>

record request_context =
  rc_ip :: "string option"
  rc_agent :: "string option"
  rc_protocol :: "string option"
  rc_host :: "string option"

record sign_state =
  si_db :: account_db
  si_throttle :: "millis \<times> throttle_row list"
  si_codes :: "(ident \<times> millis) list"

record sign_world =
  wo_env :: env
  wo_url :: url_parser
  wo_now :: millis
  wo_hash :: "string \<Rightarrow> string"
  wo_scrypt :: "string \<Rightarrow> string"
  wo_verify :: "string \<Rightarrow> string \<Rightarrow> bool"
  wo_dummy :: string
  wo_ids :: "ident \<times> ident \<times> ident"
  wo_link :: ident
  wo_secret :: string
  wo_grant :: bool
  wo_sends :: bool
  wo_other :: "nat \<Rightarrow> sign_state \<Rightarrow> sign_state"

definition account_with :: "string \<Rightarrow> sign_state \<Rightarrow> account option" where
  "account_with email st = find_row (\<lambda>u. ua_email u = email) (ac_users (si_db st))"

definition account_of :: "ident \<Rightarrow> sign_state \<Rightarrow> account option" where
  "account_of uid st = find_row (\<lambda>u. ua_id u = uid) (ac_users (si_db st))"

definition write_account :: "ident \<Rightarrow> (account \<Rightarrow> account) \<Rightarrow> sign_state \<Rightarrow> sign_state" where
  "write_account uid f st =
     st\<lparr>si_db := (si_db st)\<lparr>ac_users := update_rows (\<lambda>u. ua_id u = uid) f (ac_users (si_db st))\<rparr>\<rparr>"

text \<open>The tables of the credentials, as the operations on them take them.\<close>

definition auth_view :: "sign_state \<Rightarrow> auth_db" where
  "auth_view st =
     \<lparr>ad_users = map (\<lambda>u. \<lparr>us_id = ua_id u, us_email = ua_email u, us_must_change = ua_must_change u\<rparr>) (ac_users (si_db st)),
      ad_tokens = ac_tokens (si_db st), ad_api = ac_api (si_db st), ad_sessions = ac_sessions (si_db st),
      ad_codes = si_codes st\<rparr>"

definition store_auth :: "auth_db \<Rightarrow> sign_state \<Rightarrow> sign_state" where
  "store_auth a st =
     st\<lparr>si_db := (si_db st)\<lparr>ac_tokens := ad_tokens a, ac_api := ad_api a, ac_sessions := ad_sessions a\<rparr>,
        si_codes := ad_codes a\<rparr>"

definition peek_link :: "sign_world \<Rightarrow> string \<Rightarrow> auth_purpose \<Rightarrow> sign_state \<Rightarrow> auth_token option" where
  "peek_link w token purpose st = peek_auth_token (wo_hash w) token purpose (wo_now w) (ac_tokens (si_db st))"

definition consume_link :: "sign_world \<Rightarrow> string \<Rightarrow> auth_purpose \<Rightarrow> sign_state \<Rightarrow> auth_token option \<times> sign_state" where
  "consume_link w token purpose st =
     (case consume_auth_token (wo_hash w) token purpose (wo_now w) (ac_tokens (si_db st)) of
        (r, rows) \<Rightarrow> (r, st\<lparr>si_db := (si_db st)\<lparr>ac_tokens := rows\<rparr>\<rparr>))"

definition clear_keys :: "string list \<Rightarrow> sign_state \<Rightarrow> sign_state" where
  "clear_keys keys st = st\<lparr>si_throttle := map_prod id (clear_throttle_keys keys) (si_throttle st)\<rparr>"

definition drop_api_tokens :: "ident \<Rightarrow> sign_state \<Rightarrow> sign_state" where
  "drop_api_tokens uid st = st\<lparr>si_db := (si_db st)\<lparr>ac_api := snd (revoke_all_api_tokens uid (ac_api (si_db st)))\<rparr>\<rparr>"

definition drop_sessions :: "ident \<Rightarrow> ident option \<Rightarrow> sign_state \<Rightarrow> sign_state" where
  "drop_sessions uid keep st =
     st\<lparr>si_db := (si_db st)\<lparr>ac_sessions := delete_rows (\<lambda>s. sn_user s = uid \<and> Some (sn_id s) \<noteq> keep) (ac_sessions (si_db st))\<rparr>\<rparr>"

subsection \<open>Links by mail\<close>

record delivered_link =
  dl_link :: string
  dl_delivered :: bool

datatype link_kind = Link_Verify | Link_Reset | Link_Invite

fun link_tab :: "link_kind \<Rightarrow> string" where
  "link_tab Link_Verify = ''verify''"
| "link_tab Link_Reset = ''reset''"
| "link_tab Link_Invite = ''invite''"

definition link_path :: "link_kind \<Rightarrow> string \<Rightarrow> string" where
  "link_path kind token = ''/login?tab='' @ link_tab kind @ ''&token='' @ encode_uri_component token"

definition configured_base_url :: "url_parser \<Rightarrow> env \<Rightarrow> string option" where
  "configured_base_url parse env =
     (let a = map_option trim (env ''APP_URL'');
          v = (if truthy a then a else map_option trim (env ''NEXT_PUBLIC_APP_URL''))
      in if truthy v then map_option url_origin (parse (the v)) else None)"

definition is_host_char :: "char \<Rightarrow> bool" where
  "is_host_char c \<longleftrightarrow> is_ascii_lower c \<or> is_ascii_upper c \<or> is_ascii_digit c \<or> c \<in> set ''.:[]-''"

definition request_base_url :: "request_context \<Rightarrow> string option" where
  "request_base_url ctx =
     (if \<not> truthy (rc_host ctx) \<or> \<not> list_all is_host_char (the (rc_host ctx)) then None
      else Some ((case rc_protocol ctx of Some p \<Rightarrow> p | None \<Rightarrow> ''http'') @ ''://'' @ the (rc_host ctx)))"

text \<open>The link to show, and the mail handed to a transport: its mode, address and link.\<close>

definition deliver_link ::
  "sign_world \<Rightarrow> link_kind \<Rightarrow> string \<Rightarrow> string \<Rightarrow> request_context \<Rightarrow> delivered_link \<times> (mail_mode \<times> string \<times> string) option" where
  "deliver_link w kind token to ctx =
     (let env_base = configured_base_url (wo_url w) (wo_env w);
          request_base = request_base_url ctx;
          path = link_path kind token;
          shown = (case env_base of Some b \<Rightarrow> b | None \<Rightarrow> (case request_base of Some b \<Rightarrow> b | None \<Rightarrow> [])) @ path;
          mode = email_delivery_mode (wo_env w)
      in if mode = Mail_None then (\<lparr>dl_link = shown, dl_delivered = False\<rparr>, None)
         else (case (case env_base of Some b \<Rightarrow> Some b | None \<Rightarrow> if mode = Mail_Console then request_base else None) of
             None \<Rightarrow> (\<lparr>dl_link = shown, dl_delivered = False\<rparr>, None)
           | Some b \<Rightarrow>
               (\<lparr>dl_link = shown, dl_delivered = (wo_sends w \<and> mode \<noteq> Mail_Console)\<rparr>, Some (mode, to, b @ path))))"

definition send_link ::
  "sign_world \<Rightarrow> link_kind \<Rightarrow> issue_input \<Rightarrow> request_context \<Rightarrow> sign_state
   \<Rightarrow> (thrown + delivered_link \<times> (mail_mode \<times> string \<times> string) option) \<times> sign_state" where
  "send_link w kind input ctx st =
     (case issue_auth_token (wo_hash w) (wo_now w) (wo_link w) (wo_secret w) input (ac_tokens (si_db st)) of
        (None, _) \<Rightarrow> (Inl unique_violation, st)
      | (Some (token, _), rows) \<Rightarrow>
          (Inr (deliver_link w kind token (normalize_email (ii_email input)) ctx),
           st\<lparr>si_db := (si_db st)\<lparr>ac_tokens := rows\<rparr>\<rparr>))"

definition send_verification_email where
  "send_verification_email w uid email ctx st =
     send_link w Link_Verify \<lparr>ii_purpose = Verify_Email, ii_email = normalize_email email, ii_user = Some uid,
       ii_workspace = None, ii_role = None, ii_invited = None\<rparr> ctx st"

definition send_password_reset_email where
  "send_password_reset_email w uid email ctx st =
     send_link w Link_Reset \<lparr>ii_purpose = Reset_Password, ii_email = normalize_email email, ii_user = Some uid,
       ii_workspace = None, ii_role = None, ii_invited = None\<rparr> ctx st"

definition send_invite_email where
  "send_invite_email w ws email role inviter ctx st =
     send_link w Link_Invite \<lparr>ii_purpose = Invite, ii_email = normalize_email email, ii_user = None,
       ii_workspace = Some ws, ii_role = Some role, ii_invited = Some inviter\<rparr> ctx st"

subsection \<open>Signing in\<close>

datatype sign_in_reply =
    Signed_In account
  | Sign_In_Invalid
  | Sign_In_Throttled millis
  | Sign_In_Unverified string

definition authenticate_credentials ::
  "sign_world \<Rightarrow> string \<Rightarrow> string \<Rightarrow> string option \<Rightarrow> sign_state \<Rightarrow> sign_in_reply \<times> sign_state" where
  "authenticate_credentials w raw password ip st =
     (let email = normalize_email raw;
          status = login_throttle_status email ip (snd (si_throttle st)) (wo_now w)
      in if ts_blocked status then (Sign_In_Throttled (ts_retry_after status), st)
         else
           let st1 = wo_other w 0 st;
               user = (if email = [] then None else account_with email st1);
               matches = (length password \<le> max_password_length \<and>
                 wo_verify w password (case user of Some u \<Rightarrow> ua_hash u | None \<Rightarrow> wo_dummy w));
               st2 = wo_other w 1 st1
           in case user of
                None \<Rightarrow> (Sign_In_Invalid, st2\<lparr>si_throttle := record_login_failure email ip (wo_now w) (si_throttle st2)\<rparr>)
              | Some u \<Rightarrow>
                  if \<not> matches
                  then (Sign_In_Invalid, st2\<lparr>si_throttle := record_login_failure email ip (wo_now w) (si_throttle st2)\<rparr>)
                  else if ua_verified u = None \<and> email_verification_required (wo_env w)
                  then (Sign_In_Unverified email, st2)
                  else
                    let st3 = st2\<lparr>si_throttle := map_prod id (clear_login_failures email ip) (si_throttle st2)\<rparr>
                    in (Signed_In u, store_auth (cleanup_expired_auth (wo_now w) (auth_view st3)) st3))"

subsection \<open>Signing up\<close>

definition max_workspace_name_length :: nat where "max_workspace_name_length = 100"

record signup_form =
  rg_email :: string
  rg_password :: string
  rg_confirm :: string
  rg_workspace :: string
  rg_terms :: bool

datatype signup_reply =
    Signed_Up ident ident bool "delivered_link option"
  | Signup_Throttled millis
  | Signup_Refused string "password_problem option"
  | Signup_Failed thrown

definition record_signup :: "sign_world \<Rightarrow> request_context \<Rightarrow> sign_state \<Rightarrow> sign_state" where
  "record_signup w ctx st = st\<lparr>si_throttle := record_throttle_hit (signup_rules (rc_ip ctx)) (wo_now w) (si_throttle st)\<rparr>"

definition create_signup ::
  "sign_world \<Rightarrow> string \<Rightarrow> string \<Rightarrow> string \<Rightarrow> millis option \<Rightarrow> sign_state \<Rightarrow> (signup_failure + ident \<times> ident) \<times> sign_state" where
  "create_signup w email hash name verified st =
     (case create_hosted_workspace_with_owner (wo_now w) (wo_ids w) (wo_grant w) email hash name (Some (wo_now w))
             (Some current_terms_version) verified (si_db st) of
        (r, db) \<Rightarrow> (r, st\<lparr>si_db := db\<rparr>))"

definition signup_failed :: "signup_failure \<Rightarrow> thrown + string" where
  "signup_failed e =
     (case e of
        Trial_Grant_Limit \<Rightarrow> Inr ''signup-not-ready''
      | Signup_Thrown t \<Rightarrow> if th_code t = Some ''P2002'' then Inr ''email-taken'' else Inl t)"

definition refuse_signup :: "signup_failure \<Rightarrow> signup_reply" where
  "refuse_signup e = (case signup_failed e of Inr m \<Rightarrow> Signup_Refused m None | Inl t \<Rightarrow> Signup_Failed t)"

definition signup_form_error :: "signup_form \<Rightarrow> (string \<times> password_problem option) option" where
  "signup_form_error f =
     (let email = normalize_email (rg_email f);
          name = take max_workspace_name_length (trim (rg_workspace f));
          problem = password_problem_of (rg_password f) email
      in if \<not> is_plausible_email email then Some (''email-invalid'', None)
         else if length name < 2 then Some (''workspace-name'', None)
         else if rg_password f \<noteq> rg_confirm f then Some (''password-mismatch'', None)
         else if problem \<noteq> None then Some (''weak-password'', problem)
         else if \<not> rg_terms f then Some (''consent-required'', None)
         else None)"

definition register_hosted_account ::
  "sign_world \<Rightarrow> signup_form \<Rightarrow> request_context \<Rightarrow> sign_state \<Rightarrow> signup_reply \<times> sign_state" where
  "register_hosted_account w f ctx st =
     (case signup_availability (wo_url w) (wo_env w) of
        Some b \<Rightarrow> (Signup_Refused (signup_block_error b) None, st)
      | None \<Rightarrow>
          let status = throttle_status (signup_rules (rc_ip ctx)) (snd (si_throttle st)) (wo_now w) in
          if ts_blocked status then (Signup_Throttled (ts_retry_after status), st)
          else (case signup_form_error f of
              Some (e, p) \<Rightarrow> (Signup_Refused e p, st)
            | None \<Rightarrow>
                let email = normalize_email (rg_email f);
                    st1 = record_signup w ctx (wo_other w 0 st);
                    required = email_verification_required (wo_env w)
                in if account_with email st1 \<noteq> None then (Signup_Refused ''email-taken'' None, st1)
                   else (case create_signup w email (wo_scrypt w (rg_password f))
                            (take max_workspace_name_length (trim (rg_workspace f))) None (wo_other w 1 st1) of
                       (Inl e, st2) \<Rightarrow> (refuse_signup e, st2)
                     | (Inr (uid, ws), st2) \<Rightarrow>
                         if required \<or> email_delivery_mode (wo_env w) \<noteq> Mail_None
                         then (case send_verification_email w uid email ctx (wo_other w 2 st2) of
                             (Inl t, st3) \<Rightarrow> (refuse_signup (Signup_Thrown t), st3)
                           | (Inr (link, _), st3) \<Rightarrow> (Signed_Up uid ws required (Some link), st3))
                         else (Signed_Up uid ws required None, st2))))"

subsection \<open>Signing in with Google\<close>

record google_identity =
  go_email :: string
  go_verified :: bool
  go_signup :: bool
  go_terms :: bool
  go_workspace :: "string option"

datatype google_reply =
    Google_Ok ident ident bool bool
  | Google_Refused string
  | Google_Throttled millis
  | Google_Failed thrown

definition google_workspace_name :: "google_identity \<Rightarrow> string \<Rightarrow> string" where
  "google_workspace_name g email =
     (let requested = take max_workspace_name_length (trim (case go_workspace g of Some n \<Rightarrow> n | None \<Rightarrow> [])) in
      if 2 \<le> length requested then requested
      else take max_workspace_name_length (local_part email @ [CHR 0x27] @ ''s workspace''))"

definition resolve_google_account ::
  "sign_world \<Rightarrow> google_identity \<Rightarrow> request_context \<Rightarrow> sign_state \<Rightarrow> google_reply \<times> sign_state" where
  "resolve_google_account w g ctx st =
     (let email = normalize_email (go_email g) in
      if \<not> go_verified g then (Google_Refused ''google-email-unverified'', st)
      else if \<not> is_plausible_email email then (Google_Refused ''email-invalid'', st)
      else (case account_with email st of
          Some u \<Rightarrow>
            if ua_verified u = None then (Google_Refused ''google-account-unconfirmed'', st)
            else if ua_provisioned u then (Google_Refused ''google-account-provisioned'', st)
            else let st1 = wo_other w 0 st in
              (case resolve_active_workspace (ua_id u) None (si_db st1) of
                 None \<Rightarrow> (Google_Refused ''no-workspace'', st1)
               | Some (ws, _) \<Rightarrow> (Google_Ok (ua_id u) ws False (ua_must_change u), st1))
        | None \<Rightarrow>
            if \<not> go_signup g then (Google_Refused ''google-no-account'', st)
            else
              let block = signup_availability (wo_url w) (wo_env w);
                  status = throttle_status (signup_rules (rc_ip ctx)) (snd (si_throttle st)) (wo_now w)
              in if block \<noteq> None \<and> block \<noteq> Some Signup_Email_Required
                 then (Google_Refused (if block = Some Signup_Disabled then ''signup-disabled'' else ''signup-not-ready''), st)
                 else if \<not> go_terms g then (Google_Refused ''consent-required'', st)
                 else if ts_blocked status then (Google_Throttled (ts_retry_after status), st)
                 else (case create_signup w email (wo_scrypt w (wo_secret w)) (google_workspace_name g email) (Some (wo_now w))
                          (wo_other w 1 (record_signup w ctx (wo_other w 0 st))) of
                     (Inr (uid, ws), st1) \<Rightarrow> (Google_Ok uid ws True False, st1)
                   | (Inl e, st1) \<Rightarrow>
                       (case signup_failed e of Inr m \<Rightarrow> Google_Refused m | Inl t \<Rightarrow> Google_Failed t, st1))))"

subsection \<open>Verification and reset\<close>

text \<open>The address whose mailbox was proven.\<close>

definition complete_email_verification :: "sign_world \<Rightarrow> string \<Rightarrow> sign_state \<Rightarrow> string option \<times> sign_state" where
  "complete_email_verification w token st =
     (case consume_link w token Verify_Email st of
        (None, st1) \<Rightarrow> (None, st1)
      | (Some r, st1) \<Rightarrow>
          if \<not> truthy (ak_user r) then (None, st1)
          else (Some (ak_email r),
            (let st2 = wo_other w 0 st1 in
             st2\<lparr>si_db := (si_db st2)\<lparr>ac_users := update_rows (\<lambda>u. ua_id u = the (ak_user r) \<and> ua_verified u = None)
               (\<lambda>u. u\<lparr>ua_verified := Some (wo_now w)\<rparr>) (ac_users (si_db st2))\<rparr>\<rparr>)))"

definition is_reset_token_valid :: "sign_world \<Rightarrow> string \<Rightarrow> sign_state \<Rightarrow> bool" where
  "is_reset_token_valid w token st \<longleftrightarrow> peek_link w token Reset_Password st \<noteq> None"

datatype reset_reply =
    Reset_Ok
  | Reset_Invalid_Token
  | Reset_Mismatch
  | Reset_Weak password_problem
  | Reset_Failed thrown

definition set_password :: "sign_world \<Rightarrow> string \<Rightarrow> account \<Rightarrow> account" where
  "set_password w password u = u\<lparr>ua_hash := wo_scrypt w password, ua_must_change := False\<rparr>"

definition complete_password_reset ::
  "sign_world \<Rightarrow> string \<Rightarrow> string \<Rightarrow> string \<Rightarrow> sign_state \<Rightarrow> reset_reply \<times> sign_state" where
  "complete_password_reset w token password confirm st =
     (case peek_link w token Reset_Password st of
        None \<Rightarrow> (Reset_Invalid_Token, st)
      | Some peeked \<Rightarrow>
          if \<not> truthy (ak_user peeked) then (Reset_Invalid_Token, st)
          else if password \<noteq> confirm then (Reset_Mismatch, st)
          else (case password_problem_of password (ak_email peeked) of
              Some p \<Rightarrow> (Reset_Weak p, st)
            | None \<Rightarrow>
                (case consume_link w token Reset_Password (wo_other w 0 st) of
                   (None, st1) \<Rightarrow> (Reset_Invalid_Token, st1)
                 | (Some r, st1) \<Rightarrow>
                     if \<not> truthy (ak_user r) then (Reset_Invalid_Token, st1)
                     else
                       let st2 = wo_other w 1 st1; uid = the (ak_user r) in
                       (case account_of uid st2 of
                          None \<Rightarrow> (Reset_Invalid_Token, st2)
                        | Some u \<Rightarrow>
                            if normalize_email (ua_email u) \<noteq> normalize_email (ak_email r) then (Reset_Invalid_Token, st2)
                            else
                              let st3 = wo_other w 2 st2;
                                  verified = (case ua_verified u of Some t \<Rightarrow> t | None \<Rightarrow> wo_now w)
                              in if account_of uid st3 = None then (Reset_Failed missing_row, st3)
                                 else
                                   let st4 = drop_sessions uid None
                                         (write_account uid (\<lambda>x. (set_password w password x)\<lparr>ua_verified := Some verified\<rparr>) st3);
                                       st5 = drop_api_tokens uid (wo_other w 3 st4)
                                   in (Reset_Ok,
                                       clear_keys [''login:email:'' @ normalize_email (ua_email u)] (wo_other w 4 st5))))))"

subsection \<open>Changing the password\<close>

datatype change_reply =
    Password_Changed
  | Change_Wrong_Password
  | Change_Mismatch
  | Change_Same_Password
  | Change_Weak password_problem
  | Change_Throttled millis
  | Change_Failed thrown

definition change_password_rule :: "ident \<Rightarrow> throttle_rule" where
  "change_password_rule uid = mk_rule (''pwchange:user:'' @ uid) 5 60000 (30 * 60000) (30 * 60000)"

definition change_password ::
  "sign_world \<Rightarrow> ident \<Rightarrow> ident \<Rightarrow> string \<Rightarrow> string \<Rightarrow> string \<Rightarrow> sign_state \<Rightarrow> change_reply \<times> sign_state" where
  "change_password w uid keep current new confirm st =
     (let rule = change_password_rule uid; status = throttle_status [rule] (snd (si_throttle st)) (wo_now w) in
      if ts_blocked status then (Change_Throttled (ts_retry_after status), st)
      else
        let st1 = wo_other w 0 st in
        (case account_of uid st1 of
           None \<Rightarrow> (Change_Wrong_Password, st1)
         | Some u \<Rightarrow>
             if \<not> (length current \<le> max_password_length \<and> wo_verify w current (ua_hash u))
             then (Change_Wrong_Password, st1\<lparr>si_throttle := record_throttle_hit [rule] (wo_now w) (si_throttle st1)\<rparr>)
             else if new \<noteq> confirm then (Change_Mismatch, st1)
             else if new = current then (Change_Same_Password, st1)
             else (case password_problem_of new (ua_email u) of
                 Some p \<Rightarrow> (Change_Weak p, st1)
               | None \<Rightarrow>
                   let st2 = wo_other w 1 st1 in
                   if account_of uid st2 = None then (Change_Failed missing_row, st2)
                   else
                     let st3 = drop_sessions uid (Some keep) (write_account uid (set_password w new) st2);
                         st4 = drop_api_tokens uid (wo_other w 2 st3)
                     in (Password_Changed, clear_keys [rl_key rule] (wo_other w 3 st4)))))"

subsection \<open>Invitations\<close>

datatype invite_reply =
    Invite_Ok ident ident
  | Invite_Refused string "password_problem option"
  | Invite_Failed thrown

definition invite_of :: "auth_token \<Rightarrow> invite" where
  "invite_of r = \<lparr>iv_email = ak_email r, iv_workspace = the (ak_workspace r), iv_role = ak_role r\<rparr>"

definition accept_invite_as_user ::
  "sign_world \<Rightarrow> string \<Rightarrow> ident \<Rightarrow> string \<Rightarrow> sign_state \<Rightarrow> invite_reply \<times> sign_state" where
  "accept_invite_as_user w token uid email st =
     (case peek_link w token Invite st of
        None \<Rightarrow> (Invite_Refused ''invalid-token'' None, st)
      | Some peeked \<Rightarrow>
          if \<not> truthy (ak_workspace peeked) then (Invite_Refused ''invalid-token'' None, st)
          else if normalize_email email \<noteq> ak_email peeked then (Invite_Refused ''email-mismatch'' None, st)
          else (case consume_link w token Invite (wo_other w 0 st) of
              (None, st1) \<Rightarrow> (Invite_Refused ''invalid-token'' None, st1)
            | (Some r, st1) \<Rightarrow>
                if \<not> truthy (ak_workspace r) then (Invite_Refused ''invalid-token'' None, st1)
                else
                  let st2 = wo_other w 1 st1 in
                  (case join_workspace_from_invite (wo_now w) (fst (snd (wo_ids w))) uid email (invite_of r) (si_db st2) of
                     (Inr (u, ws), db) \<Rightarrow> (Invite_Ok u ws, st2\<lparr>si_db := db\<rparr>)
                   | (Inl Join_Already_Member, db) \<Rightarrow> (Invite_Refused ''already-member'' None, st2\<lparr>si_db := db\<rparr>)
                   | (Inl Join_Email_Mismatch, db) \<Rightarrow> (Invite_Refused ''email-mismatch'' None, st2\<lparr>si_db := db\<rparr>)
                   | (Inl Join_Workspace_Gone, db) \<Rightarrow> (Invite_Refused ''workspace-gone'' None, st2\<lparr>si_db := db\<rparr>)
                   | (Inl (Join_Thrown e), db) \<Rightarrow> (Invite_Failed e, st2\<lparr>si_db := db\<rparr>))))"

definition accept_invite_with_new_account ::
  "sign_world \<Rightarrow> string \<Rightarrow> string \<Rightarrow> string \<Rightarrow> bool \<Rightarrow> sign_state \<Rightarrow> invite_reply \<times> sign_state" where
  "accept_invite_with_new_account w token password confirm terms st =
     (case peek_link w token Invite st of
        None \<Rightarrow> (Invite_Refused ''invalid-token'' None, st)
      | Some peeked \<Rightarrow>
          let st0 = wo_other w 0 st; problem = password_problem_of password (ak_email peeked) in
          if \<not> truthy (ak_workspace peeked) then (Invite_Refused ''invalid-token'' None, st)
          else if account_with (ak_email peeked) st0 \<noteq> None then (Invite_Refused ''account-exists'' None, st0)
          else if password \<noteq> confirm then (Invite_Refused ''mismatch'' None, st0)
          else if problem \<noteq> None then (Invite_Refused ''weak-password'' problem, st0)
          else if \<not> terms then (Invite_Refused ''consent-required'' None, st0)
          else (case consume_link w token Invite (wo_other w 1 st0) of
              (None, st1) \<Rightarrow> (Invite_Refused ''invalid-token'' None, st1)
            | (Some r, st1) \<Rightarrow>
                if \<not> truthy (ak_workspace r) then (Invite_Refused ''invalid-token'' None, st1)
                else
                  let st2 = wo_other w 2 st1 in
                  (case create_user_from_invite (wo_now w) (fst (wo_ids w), fst (snd (wo_ids w))) (invite_of r)
                          (wo_scrypt w password) (Some (wo_now w), Some current_terms_version) (si_db st2) of
                     (Inr (u, ws), db) \<Rightarrow> (Invite_Ok u ws, st2\<lparr>si_db := db\<rparr>)
                   | (Inl (Join_Thrown e), db) \<Rightarrow>
                       (if th_code e = Some ''P2002'' then Invite_Refused ''account-exists'' None else Invite_Failed e,
                        st2\<lparr>si_db := db\<rparr>)
                   | (Inl _, db) \<Rightarrow> (Invite_Refused ''workspace-gone'' None, st2\<lparr>si_db := db\<rparr>))))"

end
