(* ===== verification/Request_Gate.thy ===== *)
theory Request_Gate
  imports Accounts
begin

text \<open>
  Who a request comes from, and whether it is let in: the gate before every page and API route
  (\<open>webapp/src/proxy.ts\<close>), the sessions of managed clients (\<open>managedAuth.ts\<close>) and of pages
  (\<open>currentUser.ts\<close>), the request context (\<open>requestContext.ts\<close>), the session cookie's flags
  (\<open>sessionCookie.ts\<close>), cross-origin rules (\<open>cors.ts\<close>), the deploy-time secrets (\<open>auth.ts\<close>,
  \<open>secureCompare.ts\<close>), \<open>publicUrl.ts\<close> and the public paths of \<open>marketing/paths.ts\<close>.

  A request is its path, method, headers, session cookie and the origin of its URL. The content
  security policy the gate attaches to pages is not modelled.
\<close>

record gate_request =
  gr_path :: string
  gr_method :: string
  gr_origin :: string
  gr_headers :: "string \<Rightarrow> string option"
  gr_cookie :: "string option"

type_synonym headers = "string \<Rightarrow> string option"

subsection \<open>The context of a request\<close>

definition last_hop :: "string \<Rightarrow> string option" where
  "last_hop forwarded =
     (let hops = filter (\<lambda>h. h \<noteq> []) (map trim (split_on CHR '','' forwarded)) in
      if hops = [] then None else Some (take 64 (last hops)))"

definition client_ip_from_headers :: "headers \<Rightarrow> string option" where
  "client_ip_from_headers get =
     (let forwarded = get ''x-forwarded-for''; real = map_option trim (get ''x-real-ip'');
          hop = (if truthy forwarded then last_hop (the forwarded) else None)
      in if hop \<noteq> None then hop else if truthy real then Some (take 64 (the real)) else None)"

definition http_protocol :: "url option \<Rightarrow> string option" where
  "http_protocol u =
     (case u of
        None \<Rightarrow> None
      | Some v \<Rightarrow> if url_protocol v = ''https:'' then Some ''https'' else if url_protocol v = ''http:'' then Some ''http'' else None)"

definition protocol_from_headers :: "url_parser \<Rightarrow> headers \<Rightarrow> string option" where
  "protocol_from_headers parse get =
     (let forwarded = map_option (\<lambda>f. to_lower (trim (hd (split_on CHR '','' f)))) (get ''x-forwarded-proto'')
      in if forwarded = Some ''https'' \<or> forwarded = Some ''http'' then forwarded
         else if truthy (get ''origin'') then http_protocol (parse (the (get ''origin''))) else None)"

definition context_from_headers :: "url_parser \<Rightarrow> headers \<Rightarrow> request_context" where
  "context_from_headers parse get =
     \<lparr>rc_ip = client_ip_from_headers get, rc_agent = map_option (take 300) (get ''user-agent''),
      rc_protocol = protocol_from_headers parse get, rc_host = get ''host''\<rparr>"

definition context_from_request :: "url_parser \<Rightarrow> string \<Rightarrow> headers \<Rightarrow> request_context" where
  "context_from_request parse request_url get =
     (let c = context_from_headers parse get in
      if rc_protocol c = None then c\<lparr>rc_protocol := http_protocol (parse request_url)\<rparr> else c)"

subsection \<open>The session cookie\<close>

definition app_url_protocol :: "url_parser \<Rightarrow> env \<Rightarrow> string option" where
  "app_url_protocol parse env =
     (let a = map_option trim (env ''APP_URL'');
          v = (if truthy a then a else map_option trim (env ''NEXT_PUBLIC_APP_URL''))
      in if truthy v then http_protocol (parse (the v)) else None)"

definition without_port :: "string \<Rightarrow> string" where
  "without_port host =
     (let digits = takeWhile is_ascii_digit (rev host); rest = drop (length digits) (rev host) in
      if digits \<noteq> [] \<and> rest \<noteq> [] \<and> hd rest = CHR '':'' then rev (tl rest) else host)"

definition is_local_host :: "string option \<Rightarrow> bool" where
  "is_local_host host \<longleftrightarrow>
     truthy host \<and>
     (let name = to_lower (without_port (the host)) in
      name = ''localhost'' \<or> name = ''127.0.0.1'' \<or> name = ''[::1]'' \<or> suffix ''.localhost'' name)"

definition should_use_secure_cookies :: "url_parser \<Rightarrow> env \<Rightarrow> request_context \<Rightarrow> bool" where
  "should_use_secure_cookies parse env ctx =
     (if env_is env ''INSECURE_COOKIES'' ''true'' then False
      else if is_local_host (rc_host ctx) then False
      else case app_url_protocol parse env of
          Some p \<Rightarrow> p = ''https''
        | None \<Rightarrow> if truthy (rc_protocol ctx) then rc_protocol ctx = Some ''https'' else env_is env ''NODE_ENV'' ''production'')"

definition cookies_likely_dropped :: "url_parser \<Rightarrow> env \<Rightarrow> request_context \<Rightarrow> bool" where
  "cookies_likely_dropped parse env ctx =
     (if \<not> should_use_secure_cookies parse env ctx then False
      else if rc_protocol ctx = Some ''http'' then True
      else if rc_protocol ctx = Some ''https'' then False
      else app_url_protocol parse env = Some ''http'')"

subsection \<open>Origins and secrets\<close>

definition own_origin :: "url_parser \<Rightarrow> env \<Rightarrow> gate_request \<Rightarrow> string" where
  "own_origin parse env r =
     (if env_is env ''MANAGED_HOSTING'' ''true''
      then (case get_app_url parse env of
          Inr origin \<Rightarrow> (case parse origin of Some u \<Rightarrow> url_origin u | None \<Rightarrow> gr_origin r)
        | Inl _ \<Rightarrow> gr_origin r)
      else gr_origin r)"

definition default_extension_origin :: string where
  "default_extension_origin = ''chrome-extension://jidooookkdbbbhkkdmcajnnnhhphodok''"

text \<open>\<open>/^(?:chrome|moz)-extension:\/\/[^/?#]+\/?$/\<close>; the result is without the last slash.\<close>

definition extension_origin :: "string \<Rightarrow> string option" where
  "extension_origin s =
     (let rest = (case strip_prefix ''chrome-extension://'' s of
            Some r \<Rightarrow> Some r | None \<Rightarrow> strip_prefix ''moz-extension://'' s)
      in case rest of
           None \<Rightarrow> None
         | Some r \<Rightarrow>
             let name = takeWhile (\<lambda>c. c \<notin> set ''/?#'') r; tail = drop (length name) r in
             if name \<noteq> [] \<and> (tail = [] \<or> tail = ''/'') then Some (take (length s - length tail) s) else None)"

definition managed_extension_origin :: "env \<Rightarrow> string" where
  "managed_extension_origin env =
     (let configured = map_option trim (env ''MANAGED_EXTENSION_ORIGIN'') in
      case (if truthy configured then extension_origin (the configured) else None) of
        Some o' \<Rightarrow> o' | None \<Rightarrow> default_extension_origin)"

definition is_managed_cors_origin :: "env \<Rightarrow> string option \<Rightarrow> string \<Rightarrow> bool" where
  "is_managed_cors_origin env origin own \<longleftrightarrow>
     \<not> truthy origin \<or> origin = Some own \<or> origin = Some (managed_extension_origin env)"

text \<open>\<open>Access-Control-Allow-Origin\<close>.\<close>

definition allowed_origin_header :: "env \<Rightarrow> string option \<Rightarrow> string \<Rightarrow> string option" where
  "allowed_origin_header env origin own =
     (if truthy origin \<and> is_managed_cors_origin env origin own then origin else None)"

definition safe_equal :: "(string \<Rightarrow> string) \<Rightarrow> string \<Rightarrow> string \<Rightarrow> bool" where
  "safe_equal hash a b \<longleftrightarrow> hash a = hash b"

definition is_valid_worker_token :: "(string \<Rightarrow> string) \<Rightarrow> env \<Rightarrow> string option \<Rightarrow> bool" where
  "is_valid_worker_token hash env provided \<longleftrightarrow>
     truthy (env ''MANAGED_WORKER_TOKEN'') \<and> truthy provided \<and>
     safe_equal hash (the provided) (the (env ''MANAGED_WORKER_TOKEN''))"

definition is_authorized_bearer :: "(string \<Rightarrow> string) \<Rightarrow> env \<Rightarrow> string option \<Rightarrow> bool" where
  "is_authorized_bearer hash env authorization \<longleftrightarrow>
     truthy (env ''AUTH_TOKEN'') \<and>
     (case Option.bind authorization (strip_prefix ''Bearer '') of
        Some provided \<Rightarrow> provided \<noteq> [] \<and> safe_equal hash provided (the (env ''AUTH_TOKEN''))
      | None \<Rightarrow> False)"

definition is_valid_setup_token :: "(string \<Rightarrow> string) \<Rightarrow> env \<Rightarrow> string option \<Rightarrow> bool" where
  "is_valid_setup_token hash env provided \<longleftrightarrow>
     truthy (env ''AUTH_TOKEN'') \<and> truthy provided \<and> safe_equal hash (the provided) (the (env ''AUTH_TOKEN''))"

definition marketing_paths :: "string list" where
  "marketing_paths =
     [''/'', ''/how-it-works'', ''/pricing'', ''/download'', ''/compare'', ''/alternatives/otter'', ''/alternatives/fireflies'',
      ''/alternatives/granola'', ''/alternatives/fathom'', ''/privacy'', ''/terms'']"

definition is_marketing_path :: "string \<Rightarrow> bool" where
  "is_marketing_path p \<longleftrightarrow> p \<in> set marketing_paths"

subsection \<open>The gate\<close>

datatype gate_reply =
    Gate_Next
  | Gate_Page bool
  | Gate_Preflight
  | Gate_Error int string
  | Gate_Login string

text \<open>\<open>/^\/api\/v1\/jobs\/[^/]+\/run$/\<close>.\<close>

definition is_worker_run_path :: "string \<Rightarrow> bool" where
  "is_worker_run_path p \<longleftrightarrow>
     (case strip_prefix ''/api/v1/jobs/'' p of
        None \<Rightarrow> False
      | Some r \<Rightarrow> (let job = takeWhile (\<lambda>c. c \<noteq> CHR ''/'') r in job \<noteq> [] \<and> drop (length job) r = ''/run''))"

definition under :: "string \<Rightarrow> string \<Rightarrow> bool" where
  "under base p \<longleftrightarrow> p = base \<or> prefix (base @ ''/'') p"

definition bearer_of :: "string option \<Rightarrow> string" where
  "bearer_of authorization =
     (case Option.bind authorization (strip_prefix ''Bearer '') of Some s \<Rightarrow> trim s | None \<Rightarrow> [])"

text \<open>Looking a credential up needs the database unless the credential is plainly none.\<close>

definition lookup_throws :: "bool \<Rightarrow> string option \<Rightarrow> bool" where
  "lookup_throws down sid \<longleftrightarrow>
     down \<and> truthy sid \<and> \<not> (looks_like_api_token (the sid) \<and> 200 < length (the sid))"

definition session_user ::
  "sign_world \<Rightarrow> string option \<Rightarrow> sign_state \<Rightarrow> (ident \<times> string) option \<times> sign_state" where
  "session_user w sid st =
     (case get_session_user (wo_hash w) sid (wo_now w) (auth_view st) of (u, a) \<Rightarrow> (u, store_auth a st))"

definition gate_managed_api :: "sign_world \<Rightarrow> bool \<Rightarrow> gate_request \<Rightarrow> sign_state \<Rightarrow> gate_reply \<times> sign_state" where
  "gate_managed_api w down r st =
     (let origin = gr_headers r ''origin'';
          own = own_origin (wo_url w) (wo_env w) r;
          p = gr_path r;
          sid = bearer_of (gr_headers r ''authorization'');
          looked_up = (if sid \<noteq> [] \<and> Some sid \<noteq> wo_env w ''AUTH_TOKEN'' then Some sid else None)
      in if \<not> is_managed_cors_origin (wo_env w) origin own then (Gate_Error 403 ''origin not allowed'', st)
         else if gr_method r = ''OPTIONS'' then (Gate_Preflight, st)
         else if p \<in> {''/api/v1/auth/login'', ''/api/v1/auth/google/exchange'', ''/api/v1/auth/desktop-code''} then (Gate_Next, st)
         else if (is_worker_run_path p \<or> p = ''/api/v1/jobs/next'') \<and>
                 is_valid_worker_token (wo_hash w) (wo_env w) (gr_headers r ''x-worker-token'') then (Gate_Next, st)
         else if p = ''/api/v1/billing/webhook'' \<and> gr_headers r ''stripe-signature'' \<noteq> None then (Gate_Next, st)
         else if lookup_throws down looked_up then (Gate_Error 503 ''service temporarily unavailable'', st)
         else (case (case looked_up of None \<Rightarrow> (None, st) | Some s \<Rightarrow> session_user w (Some s) st) of
             (None, st1) \<Rightarrow> (Gate_Error 401 ''managed session required'', st1)
           | (Some _, st1) \<Rightarrow> (Gate_Next, st1)))"

definition gate_api :: "sign_world \<Rightarrow> bool \<Rightarrow> gate_request \<Rightarrow> sign_state \<Rightarrow> gate_reply \<times> sign_state" where
  "gate_api w down r st =
     (let p = gr_path r in
      if p \<in> {''/api/google/oauth/connect'', ''/api/google/oauth/callback'', ''/api/google/oauth/start''} then (Gate_Next, st)
      else if under ''/api/import'' p then (Gate_Next, st)
      else if p = ''/api/mcp'' then (Gate_Next, st)
      else if under ''/api/v1/desktop-sync'' p then (Gate_Next, st)
      else if prefix ''/api/v1/'' p then gate_managed_api w down r st
      else if under ''/api/meetings'' p \<and> \<not> is_legacy_ingest_available (wo_env w) then (Gate_Error 404 ''not found'', st)
      else if \<not> is_authorized_bearer (wo_hash w) (wo_env w) (gr_headers r ''authorization'')
      then (Gate_Error 401 ''unauthorized'', st)
      else (Gate_Next, st))"

definition proxy :: "sign_world \<Rightarrow> bool \<Rightarrow> gate_request \<Rightarrow> sign_state \<Rightarrow> gate_reply \<times> sign_state" where
  "proxy w down r st =
     (let p = gr_path r in
      if p = ''/api/health'' then (Gate_Next, st)
      else if under ''/internal/admin'' p then (Gate_Next, st)
      else if prefix ''/api/'' p then gate_api w down r st
      else if p = ''/login'' then (Gate_Page False, st)
      else if env_is (wo_env w) ''MANAGED_HOSTING'' ''true'' \<and> is_marketing_path p then (Gate_Page True, st)
      else if prefix ''/share/'' p then (Gate_Page False, st)
      else if lookup_throws down (gr_cookie r)
      then (Gate_Error 503 ''The service is temporarily unavailable. Please try again in a moment.'', st)
      else (case session_user w (gr_cookie r) st of
          (None, st1) \<Rightarrow> (Gate_Login p, st1)
        | (Some _, st1) \<Rightarrow> (Gate_Page False, st1)))"

subsection \<open>Sessions of managed clients and of pages\<close>

record managed_session =
  mg_user :: ident
  mg_email :: string
  mg_workspace :: ident
  mg_role :: string

definition managed_hosting_enabled :: "env \<Rightarrow> bool" where
  "managed_hosting_enabled env \<longleftrightarrow> env_is env ''MANAGED_HOSTING'' ''true''"

definition get_managed_session :: "sign_world \<Rightarrow> headers \<Rightarrow> sign_state \<Rightarrow> managed_session option \<times> sign_state" where
  "get_managed_session w get st =
     (let sid = bearer_of (get ''authorization'') in
      if \<not> managed_hosting_enabled (wo_env w) then (None, st)
      else if sid = [] \<or> Some sid = wo_env w ''AUTH_TOKEN'' then (None, st)
      else (case session_user w (Some sid) st of
          (None, st1) \<Rightarrow> (None, st1)
        | (Some (uid, email), st1) \<Rightarrow>
            let requested = map_option trim (get ''x-workspace-id'');
                ws = (if truthy requested then requested else get_user_default_workspace_id uid (si_db st1))
            in if \<not> truthy ws then (None, st1)
               else let role = get_user_role uid (the ws) (si_db st1) in
                 if \<not> truthy role then (None, st1)
                 else (Some \<lparr>mg_user = uid, mg_email = email, mg_workspace = the ws, mg_role = the role\<rparr>, st1)))"

text \<open>The first part of the header with the name before its first equals sign.\<close>

definition cookie_part :: "string \<Rightarrow> string \<Rightarrow> string option" where
  "cookie_part name part =
     (let before = takeWhile (\<lambda>c. c \<noteq> CHR ''='') part in
      if before \<noteq> [] \<and> length before < length part \<and> trim before = name
      then Some (trim (drop (Suc (length before)) part)) else None)"

definition cookie_value :: "string option \<Rightarrow> string \<Rightarrow> string option" where
  "cookie_value header name =
     (if \<not> truthy header then None
      else case List.map_filter (cookie_part name) (split_on CHR '';'' (the header)) of v # _ \<Rightarrow> Some v | [] \<Rightarrow> None)"

definition session_context_of ::
  "sign_world \<Rightarrow> string option \<Rightarrow> sign_state \<Rightarrow> session_context option \<times> sign_state" where
  "session_context_of w sid st =
     (case get_session_context sid (wo_now w) (auth_view st) of (c, a) \<Rightarrow> (c, store_auth a st))"

definition get_browser_managed_session ::
  "sign_world \<Rightarrow> gate_request \<Rightarrow> sign_state \<Rightarrow> managed_session option \<times> sign_state" where
  "get_browser_managed_session w r st =
     (let origin = gr_headers r ''origin'' in
      if \<not> managed_hosting_enabled (wo_env w) then (None, st)
      else if \<not> truthy origin \<or> origin \<noteq> Some (own_origin (wo_url w) (wo_env w) r) then (None, st)
      else if gr_headers r ''x-notetaker-browser'' \<noteq> Some ''1'' then (None, st)
      else (case session_context_of w (cookie_value (gr_headers r ''cookie'') ''session'') st of
          (None, st1) \<Rightarrow> (None, st1)
        | (Some c, st1) \<Rightarrow>
            if us_must_change (sc_user c) then (None, st1)
            else (case resolve_active_workspace (us_id (sc_user c)) (sc_workspace c) (si_db st1) of
                None \<Rightarrow> (None, st1)
              | Some (ws, role) \<Rightarrow>
                  (Some \<lparr>mg_user = us_id (sc_user c), mg_email = us_email (sc_user c), mg_workspace = ws, mg_role = role\<rparr>, st1))))"

record page_session =
  pg_user :: ident
  pg_workspace :: ident
  pg_role :: string
  pg_email :: string
  pg_session :: ident

text \<open>\<open>Inl\<close> is a redirect.\<close>

definition require_session ::
  "sign_world \<Rightarrow> bool \<Rightarrow> string option \<Rightarrow> sign_state \<Rightarrow> (string + page_session) \<times> sign_state" where
  "require_session w allow_change cookie st =
     (case session_context_of w cookie st of
        (None, st1) \<Rightarrow> (Inl ''/login'', st1)
      | (Some c, st1) \<Rightarrow>
          if us_must_change (sc_user c) \<and> \<not> allow_change then (Inl ''/account?required=1'', st1)
          else (case resolve_active_workspace (us_id (sc_user c)) (sc_workspace c) (si_db st1) of
              None \<Rightarrow> (Inl ''/login'', st1)
            | Some (ws, role) \<Rightarrow>
                (Inr \<lparr>pg_user = us_id (sc_user c), pg_workspace = ws, pg_role = role, pg_email = us_email (sc_user c),
                   pg_session = sc_session c\<rparr>, st1)))"

end
