(* ===== verification/Sharing.thy ===== *)
theory Sharing
  imports Note_Properties Request_Gate
begin

text \<open>
  Share links (\<open>webapp/src/lib/sharing.ts\<close>), what a workspace may still do when its plan ended
  (\<open>workspaceAccess.ts\<close>), and the actions of the note page and of the library that change notes
  (\<open>webapp/src/app/meetings/[id]/actions.ts\<close>, \<open>libraryActions.ts\<close>).

  SHA-256 and new secrets are arguments. \<open>dw_fails\<close> is whether the transaction of an action fails:
  every answer it would have given is replaced, and only the checks made before it still answer. The
  refresh of cached pages is not modelled. The folder and bulk actions pass their request
  to the operations of \<open>Library\<close> and are left out, as is \<^verbatim>\<open>deleteMeetingAction\<close>, which moves one note
  to Trash through \<open>trash_note\<close> and, like the bulk actions that trash or restore, does not ask whether
  the workspace may write; and so are the actions that start jobs.
\<close>

subsection \<open>Share links\<close>

record share_row =
  sh_id :: ident
  sh_workspace :: ident
  sh_meeting :: ident
  sh_hash :: string
  sh_expires :: "millis option"
  sh_revoked :: "millis option"
  sh_created :: millis

datatype share_error = Share_Invalid string | Share_Thrown thrown

definition max_share_expiry_days :: int where "max_share_expiry_days = 365"

definition max_active_shares_per_meeting :: nat where "max_active_shares_per_meeting = 25"

definition still_valid :: "millis \<Rightarrow> share_row \<Rightarrow> bool" where
  "still_valid now s \<longleftrightarrow> (case sh_expires s of None \<Rightarrow> True | Some e \<Rightarrow> now < e)"

definition active_share :: "ident \<Rightarrow> ident \<Rightarrow> millis \<Rightarrow> share_row \<Rightarrow> bool" where
  "active_share ws k now s \<longleftrightarrow> sh_workspace s = ws \<and> sh_meeting s = k \<and> sh_revoked s = None \<and> still_valid now s"

definition expiry_date :: "millis \<Rightarrow> js_number \<Rightarrow> string + millis" where
  "expiry_date now days =
     (case days of
        JsNum q \<Rightarrow>
          if \<not> is_safe_integer (JsNum q) \<or> \<lfloor>q\<rfloor> < 1 \<or> max_share_expiry_days < \<lfloor>q\<rfloor>
          then Inl (''Choose a link that expires in 1 to '' @ int_str max_share_expiry_days @ '' days.'')
          else Inr (now + \<lfloor>q\<rfloor> * 24 * 60 * 60 * 1000)
      | _ \<Rightarrow> Inl (''Choose a link that expires in 1 to '' @ int_str max_share_expiry_days @ '' days.''))"

text \<open>\<open>None\<close> as the days: the link never expires.\<close>

definition create_meeting_share ::
  "(string \<Rightarrow> string) \<Rightarrow> millis \<Rightarrow> ident \<Rightarrow> string \<Rightarrow> ident \<Rightarrow> ident \<Rightarrow> js_number option \<Rightarrow> notes_db \<Rightarrow> share_row list
   \<Rightarrow> (share_error + ident \<times> string \<times> millis option) \<times> share_row list" where
  "create_meeting_share hash now new_id token ws k days db rows =
     (case (case days of None \<Rightarrow> Inr None | Some d \<Rightarrow> map_sum id Some (expiry_date now d)) of
        Inl e \<Rightarrow> (Inl (Share_Invalid e), rows)
      | Inr expires \<Rightarrow>
          if visible_note ws k db = None then (Inl (Share_Invalid ''This note no longer exists.''), rows)
          else if max_active_shares_per_meeting \<le> count_rows (active_share ws k now) rows
          then (Inl (Share_Invalid (''This note already has '' @ int_str (int max_active_shares_per_meeting) @
            '' active links. Revoke one you no longer need first.'')), rows)
          else if hash token \<in> sh_hash ` set rows \<or> new_id \<in> sh_id ` set rows
          then (Inl (Share_Thrown unique_index_error), rows)
          else (Inr (new_id, token, expires),
            rows @ [\<lparr>sh_id = new_id, sh_workspace = ws, sh_meeting = k, sh_hash = hash token, sh_expires = expires,
              sh_revoked = None, sh_created = now\<rparr>]))"

definition revoke_meeting_share ::
  "millis \<Rightarrow> ident \<Rightarrow> ident \<Rightarrow> ident option \<Rightarrow> share_row list \<Rightarrow> (string + bool) \<times> share_row list" where
  "revoke_meeting_share now ws share k rows =
     (if share = [] \<or> 128 < length share then (Inl ''That link is no longer valid.'', rows)
      else
        let p = (\<lambda>s. sh_id s = share \<and> sh_workspace s = ws \<and> sh_revoked s = None \<and> (truthy k \<longrightarrow> sh_meeting s = the k))
        in (Inr (0 < count_rows p rows), update_rows p (\<lambda>s. s\<lparr>sh_revoked := Some now\<rparr>) rows))"

definition list_active_shares :: "ident \<Rightarrow> ident \<Rightarrow> millis \<Rightarrow> share_row list \<Rightarrow> share_row list" where
  "list_active_shares ws k now rows = sort_key (\<lambda>s. - sh_created s) (sort_key sh_id (filter (active_share ws k now) rows))"

text \<open>What a link shows of a note: the answer of \<open>getMeeting\<close> without its internal members.\<close>

record public_note =
  pn_id :: ident
  pn_title :: string
  pn_mode :: string
  pn_started :: millis
  pn_ended :: millis
  pn_summary :: string
  pn_names :: "(string \<times> string) list"
  pn_transcript :: "(string \<times> string \<times> millis option) list"
  pn_items :: "(ident \<times> string \<times> string option \<times> string \<times> millis option \<times> millis option) list"

definition public_view :: "meeting_note \<Rightarrow> notes_db \<Rightarrow> public_note" where
  "public_view n db =
     \<lparr>pn_id = no_id n, pn_title = no_title n, pn_mode = no_mode n, pn_started = no_started n, pn_ended = no_ended n,
      pn_summary = no_summary n,
      pn_names = map (\<lambda>s. (sp_key s, sp_name s)) (filter (\<lambda>s. sp_meeting s = no_id n) (nd_speakers db)),
      pn_transcript = map (\<lambda>s. (sg_speaker s, sg_text s, sg_time s)) (segments_of (no_id n) db),
      pn_items = map (\<lambda>t. (td_id t, todo_content t)) (todos_of (no_id n) db)\<rparr>"

definition get_shared_meeting ::
  "(string \<Rightarrow> string) \<Rightarrow> millis \<Rightarrow> string \<Rightarrow> share_row list \<Rightarrow> notes_db \<Rightarrow> public_note option" where
  "get_shared_meeting hash now token rows db =
     (if token = [] \<or> 128 < length token then None
      else case find_row (\<lambda>s. sh_hash s = hash token \<and> sh_revoked s = None \<and> still_valid now s) rows of
          None \<Rightarrow> None
        | Some s \<Rightarrow> map_option (\<lambda>n. public_view n db) (visible_note (sh_workspace s) (sh_meeting s) db))"

subsection \<open>Read-only workspaces\<close>

record workspace_access =
  wa_writable :: bool
  wa_lapsed :: bool

definition access_from_subscription :: "subscription option \<Rightarrow> millis \<Rightarrow> workspace_access" where
  "access_from_subscription sub now =
     (if has_sync_access sub now then \<lparr>wa_writable = True, wa_lapsed = False\<rparr>
      else \<lparr>wa_writable = False,
        wa_lapsed = (case sub of
            None \<Rightarrow> False
          | Some s \<Rightarrow> truthy (sub_stripe_id s) \<or> truthy (sub_customer s) \<or> sub_plan s \<in> set sync_plans \<or>
              sub_plan s = ''hosted_trial'')\<rparr>)"

definition lapsed_read_only_message :: string where
  "lapsed_read_only_message =
     ''Your plan has ended, so this library is read-only. You can still read, search and export every note, or choose a plan to edit and sync again.''"

definition no_plan_message :: string where
  "no_plan_message = ''The cloud library needs a Pro or Team plan. Your notes stay on your device.''"

definition write_blocked_message :: "workspace_access \<Rightarrow> string option" where
  "write_blocked_message a =
     (if wa_writable a then None else Some (if wa_lapsed a then lapsed_read_only_message else no_plan_message))"

definition get_workspace_access :: "env \<Rightarrow> subscription list \<Rightarrow> millis \<Rightarrow> ident \<Rightarrow> workspace_access" where
  "get_workspace_access env subs now ws =
     (if \<not> env_is env ''MANAGED_HOSTING'' ''true'' then \<lparr>wa_writable = True, wa_lapsed = False\<rparr>
      else access_from_subscription (find_row (\<lambda>s. sub_workspace s = ws) subs) now)"

definition write_block :: "env \<Rightarrow> subscription list \<Rightarrow> millis \<Rightarrow> ident \<Rightarrow> string option" where
  "write_block env subs now ws = write_blocked_message (get_workspace_access env subs now ws)"

subsection \<open>Actions of the pages\<close>

record desk_state =
  dk_sign :: sign_state
  dk_notes :: notes_db
  dk_shares :: "share_row list"

record desk_world =
  dw_sign :: sign_world
  dw_subs :: "subscription list"
  dw_parse :: date_parser
  dw_new_id :: ident
  dw_secret :: string
  dw_audit_ok :: bool
  dw_audit_id :: ident
  dw_fails :: bool
  dw_between :: "notes_db \<Rightarrow> notes_db"

datatype desk_reply =
    Desk_Redirect string
  | Desk_Error string
  | Desk_Conflict string
  | Desk_Saved string
  | Desk_Shared ident string "millis option"
  | Desk_Revoked bool
  | Desk_Threw thrown

definition dw_now :: "desk_world \<Rightarrow> millis" where
  "dw_now w = wo_now (dw_sign w)"

definition desk_edit :: "desk_world \<Rightarrow> edit_world" where
  "desk_edit w = \<lparr>ew_now = dw_now w, ew_new_id = dw_new_id w, ew_audit_ok = dw_audit_ok w, ew_audit_id = dw_audit_id w\<rparr>"

definition desk_session :: "page_session \<Rightarrow> lib_session" where
  "desk_session se = \<lparr>se_workspace = pg_workspace se, se_user = pg_user se, se_owner = (pg_role se = ''owner'')\<rparr>"

definition with_session ::
  "desk_world \<Rightarrow> string option \<Rightarrow> (page_session \<Rightarrow> desk_state \<Rightarrow> desk_reply \<times> desk_state) \<Rightarrow> desk_state \<Rightarrow> desk_reply \<times> desk_state" where
  "with_session w cookie act st =
     (case require_session (dw_sign w) False cookie (dk_sign st) of
        (Inl url, s1) \<Rightarrow> (Desk_Redirect url, st\<lparr>dk_sign := s1\<rparr>)
      | (Inr se, s1) \<Rightarrow> act se (st\<lparr>dk_sign := s1\<rparr>))"

definition desk_block :: "desk_world \<Rightarrow> page_session \<Rightarrow> string option" where
  "desk_block w se = write_block (wo_env (dw_sign w)) (dw_subs w) (dw_now w) (pg_workspace se)"

definition when_writable ::
  "desk_world \<Rightarrow> (page_session \<Rightarrow> desk_state \<Rightarrow> desk_reply \<times> desk_state) \<Rightarrow> page_session \<Rightarrow> desk_state \<Rightarrow> desk_reply \<times> desk_state" where
  "when_writable w act se st = (case desk_block w se of Some m \<Rightarrow> (Desk_Error m, st) | None \<Rightarrow> act se st)"

text \<open>The answer to the result of an operation on the notes.\<close>

definition desk_answer :: "('r \<Rightarrow> desk_reply) \<Rightarrow> desk_state \<Rightarrow> 'r \<times> notes_db \<Rightarrow> desk_reply \<times> desk_state" where
  "desk_answer f st res = (f (fst res), st\<lparr>dk_notes := snd res\<rparr>)"

definition share_for ::
  "desk_world \<Rightarrow> string \<Rightarrow> string option \<Rightarrow> page_session \<Rightarrow> desk_state \<Rightarrow> desk_reply \<times> desk_state" where
  "share_for w meeting raw se st =
     (let k = take 128 meeting;
          text = (case raw of Some r \<Rightarrow> r | None \<Rightarrow> ''7'');
          days = (if text = ''never'' then None else Some (number_of_text text));
          foreign = (case visible_note (pg_workspace se) k (dk_notes st) of Some n \<Rightarrow> no_user n \<noteq> pg_user se | None \<Rightarrow> False)
      in if dw_fails w \<and> (case days of None \<Rightarrow> True | Some d \<Rightarrow> \<not> isl (expiry_date (dw_now w) d))
         then (Desk_Error ''Could not create a share link. Try again.'', st)
         else if days = None \<and> pg_role se \<noteq> ''owner'' \<and> foreign
         then (Desk_Error (''Only the note'' @ [CHR 0x27] @ ''s author or a workspace owner can create a link that never expires.''), st)
         else (case create_meeting_share (wo_hash (dw_sign w)) (dw_now w) (dw_new_id w) (dw_secret w) (pg_workspace se) k days
                  (dk_notes st) (dk_shares st) of
             (Inl (Share_Invalid m), rows) \<Rightarrow> (Desk_Error m, st\<lparr>dk_shares := rows\<rparr>)
           | (Inl (Share_Thrown e), rows) \<Rightarrow> (Desk_Error ''Could not create a share link. Try again.'', st\<lparr>dk_shares := rows\<rparr>)
           | (Inr (sid, token, expires), rows) \<Rightarrow>
               (Desk_Shared sid token expires,
                st\<lparr>dk_shares := rows,
                   dk_notes := audit_edit (desk_edit w) (desk_session se) ''share.create'' k
                     (Some [(''expiresInDays'', case days of None \<Rightarrow> Js_Null | Some d \<Rightarrow> Js_Number d)]) (dk_notes st)\<rparr>)))"

definition create_meeting_share_action ::
  "desk_world \<Rightarrow> string option \<Rightarrow> string \<Rightarrow> string option \<Rightarrow> desk_state \<Rightarrow> desk_reply \<times> desk_state" where
  "create_meeting_share_action w cookie meeting raw = with_session w cookie (when_writable w (share_for w meeting raw))"

definition unshare_for :: "desk_world \<Rightarrow> string \<Rightarrow> string \<Rightarrow> page_session \<Rightarrow> desk_state \<Rightarrow> desk_reply \<times> desk_state" where
  "unshare_for w meeting share se st =
     (let k = take 128 meeting;
          (r, rows) = revoke_meeting_share (dw_now w) (pg_workspace se) share (Some k) (dk_shares st)
      in if k = [] then (Desk_Revoked False, st)
         else if r \<noteq> Inr True then (Desk_Revoked False, st\<lparr>dk_shares := rows\<rparr>)
         else (Desk_Revoked True,
           st\<lparr>dk_shares := rows,
              dk_notes := audit_edit (desk_edit w) (desk_session se) ''share.revoke'' k None (dk_notes st)\<rparr>))"

definition revoke_meeting_share_action ::
  "desk_world \<Rightarrow> string option \<Rightarrow> string \<Rightarrow> string \<Rightarrow> desk_state \<Rightarrow> desk_reply \<times> desk_state" where
  "revoke_meeting_share_action w cookie meeting share = with_session w cookie (unshare_for w meeting share)"

definition title_for :: "desk_world \<Rightarrow> ident \<Rightarrow> string \<Rightarrow> page_session \<Rightarrow> desk_state \<Rightarrow> desk_reply \<times> desk_state" where
  "title_for w k title se st =
     (if dw_fails w \<and> trim title \<noteq> [] \<and> int (length (trim title)) \<le> max_title_length
      then (Desk_Error (''Couldn'' @ [CHR 0x27] @ ''t save the title. Try again.''), st)
      else desk_answer
        (\<lambda>r. case r of
           Inr True \<Rightarrow> Desk_Saved (trim title)
         | Inr False \<Rightarrow> Desk_Error ''This meeting no longer exists.''
         | Inl (Note_Invalid m) \<Rightarrow> Desk_Error (if prefix ''title'' m then ''Title'' @ drop 5 m else m)
         | Inl _ \<Rightarrow> Desk_Error (''Couldn'' @ [CHR 0x27] @ ''t save the title. Try again.''))
        st (rename_meeting (dw_now w) (pg_workspace se) k title (dk_notes st)))"

definition rename_meeting_action ::
  "desk_world \<Rightarrow> string option \<Rightarrow> ident \<Rightarrow> string \<Rightarrow> desk_state \<Rightarrow> desk_reply \<times> desk_state" where
  "rename_meeting_action w cookie k title = with_session w cookie (when_writable w (title_for w k title))"

text \<open>\<open>/^\d{4}-\d{2}-\d{2}$/\<close> and a day of the calendar.\<close>

definition is_valid_date_only :: "date_parser \<Rightarrow> string \<Rightarrow> bool" where
  "is_valid_date_only parse v \<longleftrightarrow>
     length v = 10 \<and> v ! 4 = CHR ''-'' \<and> v ! 7 = CHR ''-'' \<and>
     list_all (\<lambda>i. is_ascii_digit (v ! i)) [0, 1, 2, 3, 5, 6, 8, 9] \<and>
     map_option iso_day (parse (v @ ''T00:00:00.000Z'')) = Some v"

definition item_for :: "desk_world \<Rightarrow> ident \<Rightarrow> bool \<Rightarrow> string \<Rightarrow> page_session \<Rightarrow> desk_state \<Rightarrow> desk_reply \<times> desk_state" where
  "item_for w k finished due se st =
     (if k = [] then (Desk_Error ''That action item is missing.'', st)
      else if due \<noteq> [] \<and> \<not> is_valid_date_only (dw_parse w) due then (Desk_Error ''Enter a valid due date.'', st)
      else if dw_fails w then (Desk_Error (''Couldn'' @ [CHR 0x27] @ ''t save. Check your connection and try again.''), st)
      else desk_answer
        (\<lambda>r. case r of
           Inr True \<Rightarrow> Desk_Saved []
         | Inr False \<Rightarrow> Desk_Error ''This action item no longer exists.''
         | Inl _ \<Rightarrow> Desk_Error (''Couldn'' @ [CHR 0x27] @ ''t save. Check your connection and try again.''))
        st (update_action_item (dw_parse w) (dw_now w) (dw_between w) (pg_workspace se) k
             (Some (if finished then ''done'' else ''open'')) (Some (if due \<noteq> [] then Some (due @ ''T00:00:00.000Z'') else None))
             (dk_notes st)))"

definition update_action_item_action ::
  "desk_world \<Rightarrow> string option \<Rightarrow> ident \<Rightarrow> bool \<Rightarrow> string \<Rightarrow> desk_state \<Rightarrow> desk_reply \<times> desk_state" where
  "update_action_item_action w cookie k finished due = with_session w cookie (when_writable w (item_for w k finished due))"

definition usable_speaker_name :: "string \<Rightarrow> string \<Rightarrow> bool" where
  "usable_speaker_name key name \<longleftrightarrow>
     (let trimmed = trim (collapse_spaces name)
      in trimmed = [] \<or> trimmed = speaker_label key \<or> \<not> isl (validate_speaker_name trimmed))"

definition speaker_for ::
  "desk_world \<Rightarrow> ident \<Rightarrow> string \<Rightarrow> string \<Rightarrow> page_session \<Rightarrow> desk_state \<Rightarrow> desk_reply \<times> desk_state" where
  "speaker_for w k key name se st =
     (if dw_fails w \<and> usable_speaker_name key name
      then (Desk_Error (''Couldn'' @ [CHR 0x27] @ ''t save the name. Try again.''), st)
      else desk_answer (\<lambda>r. case r of Inr label \<Rightarrow> Desk_Saved label | Inl m \<Rightarrow> Desk_Error m)
        st (rename_speaker (dw_now w) (pg_workspace se) k key name (dk_notes st)))"

definition rename_speaker_action ::
  "desk_world \<Rightarrow> string option \<Rightarrow> ident \<Rightarrow> string \<Rightarrow> string \<Rightarrow> desk_state \<Rightarrow> desk_reply \<times> desk_state" where
  "rename_speaker_action w cookie k key name = with_session w cookie (when_writable w (speaker_for w k key name))"

definition save_for :: "desk_world \<Rightarrow> ident \<Rightarrow> string \<Rightarrow> string \<Rightarrow> page_session \<Rightarrow> desk_state \<Rightarrow> desk_reply \<times> desk_state" where
  "save_for w k body version se st =
     (if dw_fails w \<and> \<not> isl (validate_note_body body)
      then (Desk_Error (''Couldn'' @ [CHR 0x27] @ ''t save your edit. Your text is still on screen; try again.''), st)
      else desk_answer
        (\<lambda>r. case r of
           Inr v \<Rightarrow> Desk_Saved v | Inl (Save_Conflict m) \<Rightarrow> Desk_Conflict m | Inl (Save_Fail m) \<Rightarrow> Desk_Error m)
        st (update_note_body (desk_edit w) (desk_session se) k body version (dk_notes st)))"

definition save_note_body_action ::
  "desk_world \<Rightarrow> string option \<Rightarrow> ident \<Rightarrow> string \<Rightarrow> string \<Rightarrow> desk_state \<Rightarrow> desk_reply \<times> desk_state" where
  "save_note_body_action w cookie k body version = with_session w cookie (when_writable w (save_for w k body version))"

definition restore_for :: "desk_world \<Rightarrow> ident \<Rightarrow> page_session \<Rightarrow> desk_state \<Rightarrow> desk_reply \<times> desk_state" where
  "restore_for w k se st =
     (if dw_fails w then (Desk_Error (''Couldn'' @ [CHR 0x27] @ ''t restore the previous version. Try again.''), st)
      else desk_answer (\<lambda>r. case r of Inr v \<Rightarrow> Desk_Saved v | Inl m \<Rightarrow> Desk_Error m)
        st (restore_previous_body (desk_edit w) (desk_session se) k (dk_notes st)))"

definition restore_previous_body_action ::
  "desk_world \<Rightarrow> string option \<Rightarrow> ident \<Rightarrow> desk_state \<Rightarrow> desk_reply \<times> desk_state" where
  "restore_previous_body_action w cookie k = with_session w cookie (when_writable w (restore_for w k))"

definition optional_id :: "string \<Rightarrow> ident option" where
  "optional_id s = (if trim s = [] then None else Some (trim s))"

definition create_for :: "desk_world \<Rightarrow> string \<Rightarrow> page_session \<Rightarrow> desk_state \<Rightarrow> desk_reply \<times> desk_state" where
  "create_for w folder se st =
     (if desk_block w se \<noteq> None then (Desk_Redirect ''/meetings?error=note-create-failed'', st)
      else desk_answer
        (\<lambda>r. case r of
           Inr k \<Rightarrow> Desk_Redirect (''/meetings/'' @ k @ ''?edit=1'')
         | Inl (Note_Thrown e) \<Rightarrow> Desk_Threw e
         | Inl _ \<Rightarrow> Desk_Redirect (''/meetings?'' @
             (case optional_id folder of Some f \<Rightarrow> ''folder='' @ encode_uri_component f @ ''&'' | None \<Rightarrow> []) @
             ''error=note-create-failed''))
        st (create_note (desk_edit w) (desk_session se) None None (optional_id folder) ''manual'' (dk_notes st)))"

definition create_note_action ::
  "desk_world \<Rightarrow> string option \<Rightarrow> string \<Rightarrow> desk_state \<Rightarrow> desk_reply \<times> desk_state" where
  "create_note_action w cookie folder = with_session w cookie (create_for w folder)"

definition max_note_upload_bytes :: int where "max_note_upload_bytes = 512 * 1024"

definition upload_for ::
  "desk_world \<Rightarrow> string \<Rightarrow> string \<Rightarrow> string \<Rightarrow> page_session \<Rightarrow> desk_state \<Rightarrow> desk_reply \<times> desk_state" where
  "upload_for w name body folder se st =
     (if \<not> is_note_upload_name name then (Desk_Error ''Upload a .md, .markdown or .txt file.'', st)
      else if max_note_upload_bytes < utf8_length body
      then (Desk_Error (''That file is too large. The limit is '' @ int_str (max_note_upload_bytes div 1024) @ '' KB.''), st)
      else desk_answer
        (\<lambda>r. case r of
           Inr k \<Rightarrow> Desk_Saved k
         | Inl (Note_Thrown e) \<Rightarrow> Desk_Threw e
         | Inl (Note_Invalid m) \<Rightarrow> Desk_Error m
         | Inl (Sync_Conflict m _ _) \<Rightarrow> Desk_Error m)
        st (create_note (desk_edit w) (desk_session se) (Some (title_from_file_name name)) (Some body)
             (optional_id folder) ''upload'' (dk_notes st)))"

definition upload_note_action ::
  "desk_world \<Rightarrow> string option \<Rightarrow> string \<Rightarrow> string \<Rightarrow> string \<Rightarrow> desk_state \<Rightarrow> desk_reply \<times> desk_state" where
  "upload_note_action w cookie name body folder = with_session w cookie (when_writable w (upload_for w name body folder))"

definition list_title_for :: "desk_world \<Rightarrow> ident \<Rightarrow> string \<Rightarrow> page_session \<Rightarrow> desk_state \<Rightarrow> desk_reply \<times> desk_state" where
  "list_title_for w k title se st =
     desk_answer
       (\<lambda>r. case r of
          Inr True \<Rightarrow> Desk_Saved []
        | Inr False \<Rightarrow> Desk_Error ''This note no longer exists.''
        | Inl (Note_Invalid m) \<Rightarrow> Desk_Error (if m = ''title is required'' then ''Enter a title.'' else m)
        | Inl (Sync_Conflict m _ _) \<Rightarrow> Desk_Error m
        | Inl (Note_Thrown e) \<Rightarrow> Desk_Threw e)
       st (rename_meeting (dw_now w) (pg_workspace se) k title (dk_notes st))"

definition rename_note_action ::
  "desk_world \<Rightarrow> string option \<Rightarrow> ident \<Rightarrow> string \<Rightarrow> desk_state \<Rightarrow> desk_reply \<times> desk_state" where
  "rename_note_action w cookie k title = with_session w cookie (when_writable w (list_title_for w k title))"

end
