(* ===== verification/Desktop_Sync.thy ===== *)
theory Desktop_Sync
  imports Note_Properties Workspaces
begin

text \<open>
  Desktop sync: who may sync (\<open>webapp/src/lib/desktopSyncAuth.ts\<close>), the pull feed and the upload of
  a note (\<open>webapp/src/app/api/v1/desktop-sync/meetings/route.ts\<close> with the queries of
  \<open>meetings.ts\<close>), and marking an action item (\<open>desktop-sync/action-items/[id]/route.ts\<close>).

  SHA-256 is the argument \<open>hash\<close>. The size of a note in the answer, the length of its JSON, is the
  argument \<open>size_of\<close>; a request body is its text, whose UTF-8 length is counted. Ids are compared
  in the order of the database, here the order of strings.
\<close>

subsection \<open>Who may sync\<close>

record sync_headers =
  hx_authorization :: "string option"
  hx_workspace :: "string option"
  hx_length :: "string option"
  hx_version :: "string option"

record sync_auth =
  sa_user :: ident
  sa_workspace :: ident
  sa_name :: string

record sync_world =
  sw_env :: env
  sw_hash :: "string \<Rightarrow> string"
  sw_now :: millis
  sw_parse :: date_parser
  sw_fresh :: "nat \<Rightarrow> ident"
  sw_subs :: "subscription list"
  sw_accounts :: account_db

definition bearer_secret :: "sync_headers \<Rightarrow> string" where
  "bearer_secret h =
     (case hx_authorization h of
        None \<Rightarrow> []
      | Some a \<Rightarrow> (case strip_prefix ''Bearer '' a of Some s \<Rightarrow> trim s | None \<Rightarrow> []))"

definition sync_subscription_required :: string where
  "sync_subscription_required =
     ''Cloud sync needs an active AI Notetaker plan. Your notes stay safe on this device and in your account, and sync resumes when a plan is active.''"

definition authenticate_desktop_sync ::
  "sync_world \<Rightarrow> sync_headers \<Rightarrow> bool \<Rightarrow> auth_db \<Rightarrow> ((int \<times> string) + sync_auth) \<times> auth_db" where
  "authenticate_desktop_sync w h write db =
     (let secret = bearer_secret h;
          (token, db1) = (if secret = [] then (None, db)
            else resolve_api_token (sw_hash w) secret (sw_now w) desktop_notes_scope db)
      in (case token of
            None \<Rightarrow> Inl (401, ''A valid desktop notes-sync token is required.'')
          | Some u \<Rightarrow>
              if \<not> truthy (au_workspace u) then Inl (401, ''A valid desktop notes-sync token is required.'')
              else
                let ws = the (au_workspace u); requested = map_option trim (hx_workspace h) in
                if truthy requested \<and> requested \<noteq> Some ws
                then Inl (403, ''This token is limited to another workspace.'')
                else if \<not> truthy (get_user_role (au_id u) ws (sw_accounts w))
                then Inl (403, ''This token no longer has access to its workspace.'')
                else (case find_row (\<lambda>t. tm_id t = ws) (ac_workspaces (sw_accounts w)) of
                    None \<Rightarrow> Inl (403, ''This token'' @ [CHR 0x27] @ ''s workspace is unavailable.'')
                  | Some t \<Rightarrow>
                      if write \<and> env_is (sw_env w) ''MANAGED_HOSTING'' ''true'' \<and>
                         \<not> has_sync_access (find_row (\<lambda>s. sub_workspace s = ws) (sw_subs w)) (sw_now w)
                      then Inl (402, sync_subscription_required)
                      else Inr \<lparr>sa_user = au_id u, sa_workspace = ws, sa_name = tm_name t\<rparr>), db1))"

subsection \<open>The pull feed\<close>

definition max_request_bytes :: int where "max_request_bytes = 16 * 1024 * 1024"

definition pull_page_size :: nat where "pull_page_size = 50"

definition detail_batch_size :: nat where "detail_batch_size = 4"

type_synonym sync_cursor = "(millis \<times> ident option) option"

definition sync_key :: "meeting_note \<Rightarrow> millis \<times> ident" where
  "sync_key n = (no_version n, no_id n)"

definition after_sync_cursor :: "sync_cursor \<Rightarrow> meeting_note \<Rightarrow> bool" where
  "after_sync_cursor cursor n =
     (case cursor of
        None \<Rightarrow> True
      | Some (t, Some k) \<Rightarrow> t < no_version n \<or> no_version n = t \<and> k < no_id n
      | Some (t, None) \<Rightarrow> t \<le> no_version n)"

definition sync_feed :: "ident \<Rightarrow> sync_cursor \<Rightarrow> notes_db \<Rightarrow> meeting_note list" where
  "sync_feed ws cursor db = sort_key sync_key (filter (\<lambda>n. live_in ws n \<and> after_sync_cursor cursor n) (nd_notes db))"

definition list_desktop_sync_meeting_candidates :: "ident \<Rightarrow> sync_cursor \<Rightarrow> nat \<Rightarrow> notes_db \<Rightarrow> meeting_note list" where
  "list_desktop_sync_meeting_candidates ws cursor limit db = take limit (sync_feed ws cursor db)"

text \<open>A note with its transcript in order and its action items by id.\<close>

type_synonym pulled_note = "meeting_note \<times> segment_row list \<times> todo_row list"

definition sync_detail :: "ident \<Rightarrow> ident \<Rightarrow> notes_db \<Rightarrow> pulled_note option" where
  "sync_detail ws k db =
     map_option (\<lambda>n. (n, segments_of k db, sort_key td_id (todos_of k db))) (visible_note ws k db)"

datatype pull_reply =
    Pull_Refused int string
  | Pull_Page "pulled_note list" bool "(millis \<times> ident) option"

definition pull_limit :: int where "pull_limit = max_request_bytes - 512"

text \<open>
  The page is filled from the candidates. \<open>seen n\<close> are the notes when the details of the \<open>n\<close>th
  batch are read. A candidate that is gone by then is passed over.
\<close>

fun pull_loop ::
  "(pulled_note \<Rightarrow> nat) \<Rightarrow> (nat \<Rightarrow> notes_db) \<Rightarrow> ident \<Rightarrow> nat \<Rightarrow> nat \<Rightarrow> meeting_note list \<Rightarrow> pulled_note list \<Rightarrow> int
   \<Rightarrow> (millis \<times> ident) option \<Rightarrow> pull_reply" where
  "pull_loop size_of seen ws total_candidates n [] acc bytes scanned =
     Pull_Page acc (pull_page_size < total_candidates) scanned"
| "pull_loop size_of seen ws total_candidates n (c # cs) acc bytes scanned =
     (case sync_detail ws (no_id c) (seen (n div detail_batch_size)) of
        None \<Rightarrow> pull_loop size_of seen ws total_candidates (Suc n) cs acc bytes (Some (sync_key c))
      | Some m \<Rightarrow>
          let bytes' = bytes + int (size_of m) + (if acc = [] then 0 else 1);
              acc' = acc @ [m]
          in if pull_limit < bytes'
             then (if acc = [] then Pull_Refused 413 ''workspace note is too large for desktop sync''
                   else Pull_Page acc True scanned)
             else if length acc' = pull_page_size \<and> Suc n < total_candidates
             then Pull_Page acc' True (Some (sync_key c))
             else pull_loop size_of seen ws total_candidates (Suc n) cs acc' bytes' (Some (sync_key c)))"

definition pull_page ::
  "(pulled_note \<Rightarrow> nat) \<Rightarrow> (nat \<Rightarrow> notes_db) \<Rightarrow> ident \<Rightarrow> sync_cursor \<Rightarrow> notes_db \<Rightarrow> pull_reply" where
  "pull_page size_of seen ws cursor db =
     (let candidates = list_desktop_sync_meeting_candidates ws cursor (pull_page_size + 1) db in
      pull_loop size_of seen ws (length candidates) 0 candidates [] 15 None)"

text \<open>The query's \<open>updatedAt\<close> and \<open>id\<close>; \<open>None\<close> is an invalid cursor.\<close>

definition read_sync_cursor :: "date_parser \<Rightarrow> string option \<Rightarrow> string option \<Rightarrow> sync_cursor option" where
  "read_sync_cursor parse updated k =
     (let t = (if truthy updated then parse (the updated) else None) in
      if truthy updated \<and> t = None then None
      else if k \<noteq> None \<and> t = None then None
      else if truthy k \<and> (max_id_length < int (length (the k)) \<or> CHR 0x00 \<in> set (the k)) then None
      else Some (map_option (\<lambda>x. (x, if truthy k then k else None)) t))"

definition get_sync_meetings ::
  "sync_world \<Rightarrow> (pulled_note \<Rightarrow> nat) \<Rightarrow> (nat \<Rightarrow> notes_db) \<Rightarrow> sync_headers \<Rightarrow> string option \<Rightarrow> string option \<Rightarrow> auth_db \<Rightarrow> notes_db
   \<Rightarrow> pull_reply \<times> auth_db" where
  "get_sync_meetings w size_of seen h updated k adb db =
     (case authenticate_desktop_sync w h False adb of
        (Inl (code, m), adb1) \<Rightarrow> (Pull_Refused code m, adb1)
      | (Inr a, adb1) \<Rightarrow>
          (case read_sync_cursor (sw_parse w) updated k of
             None \<Rightarrow> (Pull_Refused 400 ''invalid sync cursor'', adb1)
           | Some cursor \<Rightarrow> (pull_page size_of seen (sa_workspace a) cursor db, adb1)))"

subsection \<open>Uploading a note\<close>

datatype sync_reply =
    Sync_Error int string
  | Sync_Conflicted string string "millis option"
  | Sync_Stored upsert_answer ident

definition member_not :: "string \<Rightarrow> string \<Rightarrow> json \<Rightarrow> bool" where
  "member_not name expected body \<longleftrightarrow>
     (case body of
        JObject _ \<Rightarrow> json_get name (Some body) \<noteq> None \<and> json_get name (Some body) \<noteq> Some (JString expected)
      | _ \<Rightarrow> False)"

definition read_sync_version :: "date_parser \<Rightarrow> string \<Rightarrow> expected_version option" where
  "read_sync_version parse v = (if v = ''new'' then Some New_Note else map_option At_Version (parse v))"

definition store_synced_note :: "sync_world \<Rightarrow> sync_auth \<Rightarrow> sync_headers \<Rightarrow> json \<Rightarrow> notes_db \<Rightarrow> sync_reply \<times> notes_db" where
  "store_synced_note w a h body db =
     (if member_not ''captureSource'' ''desktop'' body then (Sync_Error 400 ''only desktop notes can be synced'', db)
      else if member_not ''processingMode'' ''local_byok'' body then (Sync_Error 400 ''only local notes can be synced'', db)
      else (case hx_version h of
          None \<Rightarrow> (Sync_Error 400 ''x-desktop-sync-version header is required'', db)
        | Some v \<Rightarrow>
            (case read_sync_version (sw_parse w) v of
               None \<Rightarrow> (Sync_Error 400 ''invalid desktop sync version'', db)
             | Some expected \<Rightarrow>
                 (case upsert_meeting (sw_parse w) (sw_now w) (sw_fresh w) (sa_workspace a) (sa_user a) expected body db of
                    (Inr answer, db1) \<Rightarrow> (Sync_Stored answer (sa_workspace a), db1)
                  | (Inl (Sync_Conflict m reason at_time), db1) \<Rightarrow> (Sync_Conflicted m reason at_time, db1)
                  | (Inl (Note_Invalid m), db1) \<Rightarrow> (Sync_Error 400 m, db1)
                  | (Inl (Note_Thrown e), db1) \<Rightarrow> (Sync_Error 500 ''Desktop note sync failed.'', db1)))))"

definition post_sync_meeting ::
  "sync_world \<Rightarrow> sync_headers \<Rightarrow> string option \<Rightarrow> auth_db \<Rightarrow> notes_db \<Rightarrow> sync_reply \<times> auth_db \<times> notes_db" where
  "post_sync_meeting w h body adb db =
     (case authenticate_desktop_sync w h True adb of
        (Inl (code, m), adb1) \<Rightarrow> (Sync_Error code m, adb1, db)
      | (Inr a, adb1) \<Rightarrow>
          if (case js_finite (number_of_text (case hx_length h of Some s \<Rightarrow> s | None \<Rightarrow> [])) of
                Some n \<Rightarrow> of_int max_request_bytes < n | None \<Rightarrow> False)
          then (Sync_Error 413 ''meeting note is too large'', adb1, db)
          else (case body of
              None \<Rightarrow> (Sync_Error 400 ''invalid JSON body'', adb1, db)
            | Some s \<Rightarrow>
                if max_request_bytes < utf8_length s then (Sync_Error 413 ''meeting note is too large'', adb1, db)
                else (case json_parse s of
                    None \<Rightarrow> (Sync_Error 400 ''invalid JSON body'', adb1, db)
                  | Some v \<Rightarrow> (case store_synced_note w a h v db of (r, db1) \<Rightarrow> (r, adb1, db1)))))"

subsection \<open>Marking an action item\<close>

text \<open>The checks of \<open>readManagedBytes\<close> on the declared length.\<close>

definition declared_too_large :: "nat \<Rightarrow> sync_headers \<Rightarrow> bool" where
  "declared_too_large n h \<longleftrightarrow>
     (case hx_length h of Some s \<Rightarrow> s \<noteq> [] \<and> (\<not> all_digits s \<or> n < digits_value s) | None \<Rightarrow> False)"

definition patch_action_item ::
  "sync_world \<Rightarrow> (notes_db \<Rightarrow> notes_db) \<Rightarrow> sync_headers \<Rightarrow> string \<Rightarrow> ident \<Rightarrow> auth_db \<Rightarrow> notes_db
   \<Rightarrow> (int \<times> string) \<times> auth_db \<times> notes_db" where
  "patch_action_item w other h body k adb db =
     (case authenticate_desktop_sync w h True adb of
        (Inl e, adb1) \<Rightarrow> (e, adb1, db)
      | (Inr a, adb1) \<Rightarrow>
          if declared_too_large 4096 h \<or> 4096 < utf8_length body then ((413, ''request body is too large''), adb1, db)
          else (case json_parse body of
              None \<Rightarrow> ((400, ''invalid JSON body''), adb1, db)
            | Some v \<Rightarrow>
                (case json_get ''status'' (Some v) of
                   Some (JString s) \<Rightarrow>
                     if s \<noteq> ''open'' \<and> s \<noteq> ''done'' then ((400, ''status must be open or done''), adb1, db)
                     else (case update_action_item (sw_parse w) (sw_now w) other (sa_workspace a) k (Some s) None db of
                         (Inr True, db1) \<Rightarrow> ((200, s), adb1, db1)
                       | (Inr False, db1) \<Rightarrow> ((404, ''action item not found''), adb1, db1)
                       | (Inl (Note_Invalid m), db1) \<Rightarrow> ((400, m), adb1, db1)
                       | (Inl _, db1) \<Rightarrow> ((500, ''Could not update the action item.''), adb1, db1))
                 | _ \<Rightarrow> ((400, ''status must be open or done''), adb1, db))))"

end
