(* ===== verification/Sync_Properties.thy ===== *)
theory Sync_Properties
  imports Desktop_Sync
begin

text \<open>
  The pull feed delivers every note, and only members of a paying workspace upload.
\<close>

subsection \<open>The feed as an ordered list\<close>

lemma sync_feed_sorted: "sorted (map sync_key (sync_feed ws cursor db))"
  by (simp add: sync_feed_def)

lemma sync_feed_set: "n \<in> set (sync_feed ws cursor db) \<longleftrightarrow>
    n \<in> set (nd_notes db) \<and> live_in ws n \<and> after_sync_cursor cursor n"
  by (auto simp: sync_feed_def)

lemma sync_feed_distinct:
  assumes "note_ids_unique db"
  shows "distinct (map sync_key (sync_feed ws cursor db))"
proof -
  have "distinct (nd_notes db)" "inj_on no_id (set (nd_notes db))"
    using assms by (auto simp: note_ids_unique_def unique_on_def distinct_map)
  then have "inj_on sync_key (set (sync_feed ws cursor db))"
    by (auto simp: inj_on_def sync_key_def sync_feed_set)
  then show ?thesis
    using \<open>distinct (nd_notes db)\<close> by (simp add: distinct_map sync_feed_def)
qed

lemma filter_after_nth:
  assumes "sorted (map f xs)" "distinct (map f xs)" "i < length xs"
  shows "filter (\<lambda>x. f (xs ! i) < f x) xs = drop (Suc i) xs"
  using assms
proof (induction xs arbitrary: i)
  case (Cons x xs)
  have le: "\<forall>y \<in> set xs. f x \<le> f y" using Cons.prems(1) by simp
  show ?case
  proof (cases i)
    case 0
    have "\<forall>y \<in> set xs. f x \<noteq> f y" using Cons.prems(2) by force
    with le have "\<forall>y \<in> set xs. f x < f y" by (simp add: order_less_le)
    with 0 show ?thesis by simp
  next
    case (Suc j)
    then have "xs ! j \<in> set xs" using Cons.prems(3) by simp
    with le Cons Suc show ?thesis by (auto simp: not_less)
  qed
qed simp

text \<open>Going on after an entry of the feed gives the rest of the feed.\<close>

lemma sync_feed_drop:
  assumes "note_ids_unique db" "i < length (sync_feed ws cursor db)"
    and "sync_key (sync_feed ws cursor db ! i) = (t, k)"
  shows "sync_feed ws (Some (t, Some k)) db = drop (Suc i) (sync_feed ws cursor db)"
proof -
  let ?feed = "sync_feed ws cursor db"
  have "after_sync_cursor cursor (?feed ! i)" using sync_feed_set [of "?feed ! i" ws cursor db] assms(2) by simp
  then have later: "after_sync_cursor (Some (t, Some k)) n \<longleftrightarrow> after_sync_cursor cursor n \<and> (t, k) < sync_key n" for n
    using assms(3) by (auto simp: after_sync_cursor_def sync_key_def less_prod_def split: option.splits)
  have "sync_feed ws (Some (t, Some k)) db = filter (\<lambda>n. (t, k) < sync_key n) ?feed"
    unfolding sync_feed_def filter_sort [symmetric] by (simp add: later conj_ac)
  then show ?thesis
    using filter_after_nth [OF sync_feed_sorted sync_feed_distinct [OF assms(1)] assms(2)] assms(3) by simp
qed

subsection \<open>One page\<close>

definition fits_page :: "(pulled_note \<Rightarrow> nat) \<Rightarrow> pulled_note \<Rightarrow> bool" where
  "fits_page size_of m \<longleftrightarrow> 15 + int (size_of m) \<le> pull_limit"

definition detail :: "notes_db \<Rightarrow> meeting_note \<Rightarrow> pulled_note" where
  "detail db n = (n, segments_of (no_id n) db, sort_key td_id (todos_of (no_id n) db))"

lemma sync_detail_feed:
  assumes "note_ids_unique db" "n \<in> set (sync_feed ws cursor db)"
  shows "sync_detail ws (no_id n) db = Some (detail db n)"
proof -
  have "visible_note ws (no_id n) db = Some n"
  proof -
    have "\<exists>x. visible_note ws (no_id n) db = Some x"
      using assms(2) by (auto simp: sync_feed_set visible_note_def find_row_None_iff simp flip: not_None_eq)
    then obtain x where x: "visible_note ws (no_id n) db = Some x" by blast
    have "note_at (no_id n) db = Some n"
      using assms by (auto simp: note_at_def sync_feed_set note_ids_unique_def intro: find_row_unique)
    with visible_note_SomeD [OF assms(1) x] x show ?thesis by simp
  qed
  then show ?thesis by (simp add: sync_detail_def detail_def)
qed

text \<open>
  On notes that do not change, a page is a first part of the candidates, with the cursor behind it;
  it stops early only when it says that there is more.
\<close>

lemma pull_loop_page:
  assumes "\<And>c. c \<in> set cs \<Longrightarrow> sync_detail ws (no_id c) db = Some (detail db c)"
    and "acc \<noteq> [] \<Longrightarrow> scanned \<noteq> None" "acc = [] \<Longrightarrow> bytes = 15" "15 \<le> bytes"
  shows "(\<exists>j more. j \<le> length cs \<and> (more \<longrightarrow> acc \<noteq> [] \<or> cs = [] \<or> 0 < j) \<and>
      (\<not> more \<longrightarrow> j = length cs \<and> total_candidates \<le> pull_page_size) \<and>
      list_all (\<lambda>c. fits_page size_of (detail db c)) (take j cs) \<and>
      pull_loop size_of (\<lambda>_. db) ws total_candidates n cs acc bytes scanned =
        Pull_Page (acc @ map (detail db) (take j cs)) more (if j = 0 then scanned else Some (sync_key (cs ! (j - 1))))) \<or>
    acc = [] \<and> cs \<noteq> [] \<and> \<not> fits_page size_of (detail db (hd cs)) \<and>
      pull_loop size_of (\<lambda>_. db) ws total_candidates n cs acc bytes scanned =
        Pull_Refused 413 ''workspace note is too large for desktop sync''"
  using assms
proof (induction cs arbitrary: n acc bytes scanned)
  case Nil
  then show ?case by (auto simp: not_less)
next
  case (Cons c cs)
  let ?loop = "pull_loop size_of (\<lambda>_. db) ws total_candidates"
  let ?bytes = "bytes + int (size_of (detail db c)) + (if acc = [] then 0 else 1)"
  have d: "sync_detail ws (no_id c) db = Some (detail db c)" using Cons.prems(1) by simp
  consider (large) "pull_limit < ?bytes" |
    (full) "\<not> pull_limit < ?bytes" "length (acc @ [detail db c]) = pull_page_size" "Suc n < total_candidates" |
    (go) "\<not> pull_limit < ?bytes" "\<not> (length (acc @ [detail db c]) = pull_page_size \<and> Suc n < total_candidates)"
    by blast
  then show ?case
  proof cases
    case large
    then show ?thesis
      using d Cons.prems(3) by (auto simp: Let_def fits_page_def intro!: exI [of _ 0])
  next
    case full
    then have "?loop n (c # cs) acc bytes scanned = Pull_Page (acc @ [detail db c]) True (Some (sync_key c))"
      using d by (simp add: Let_def)
    moreover have "fits_page size_of (detail db c)"
      using full(1) Cons.prems(4) by (auto simp: fits_page_def split: if_splits)
    ultimately show ?thesis by (intro disjI1 exI [of _ 1] exI [of _ True]) simp
  next
    case go
    let ?acc = "acc @ [detail db c]"
    have step: "?loop n (c # cs) acc bytes scanned = ?loop (Suc n) cs ?acc ?bytes (Some (sync_key c))"
      using d go by (cases "acc = []") (auto simp: Let_def)
    have "\<exists>j more. j \<le> length cs \<and> (\<not> more \<longrightarrow> j = length cs \<and> total_candidates \<le> pull_page_size) \<and>
      list_all (\<lambda>c. fits_page size_of (detail db c)) (take j cs) \<and>
      ?loop (Suc n) cs ?acc ?bytes (Some (sync_key c)) =
        Pull_Page (?acc @ map (detail db) (take j cs)) more (if j = 0 then Some (sync_key c) else Some (sync_key (cs ! (j - 1))))"
      using Cons.IH [of ?acc "Some (sync_key c)" ?bytes "Suc n"] Cons.prems(1,4) by auto
    then obtain j more where "j \<le> length cs" "list_all (\<lambda>c. fits_page size_of (detail db c)) (take j cs)" "\<not> more \<longrightarrow> j = length cs \<and> total_candidates \<le> pull_page_size"
      "?loop (Suc n) cs ?acc ?bytes (Some (sync_key c)) =
        Pull_Page (?acc @ map (detail db) (take j cs)) more (if j = 0 then Some (sync_key c) else Some (sync_key (cs ! (j - 1))))"
      by blast
    moreover have "fits_page size_of (detail db c)"
      using go(1) Cons.prems(4) by (auto simp: fits_page_def split: if_splits)
    ultimately show ?thesis
      unfolding step by (intro disjI1 exI [of _ "Suc j"] exI [of _ more]) (simp add: nth_Cons')
  qed
qed

subsection \<open>Following the cursors\<close>

text \<open>A desktop reads pages until none is left; \<open>None\<close> when a page is refused or the fuel runs out.\<close>

fun walk_pull :: "(pulled_note \<Rightarrow> nat) \<Rightarrow> ident \<Rightarrow> notes_db \<Rightarrow> nat \<Rightarrow> sync_cursor \<Rightarrow> pulled_note list option" where
  "walk_pull size_of ws db 0 cursor = None"
| "walk_pull size_of ws db (Suc fuel) cursor =
     (case pull_page size_of (\<lambda>_. db) ws cursor db of
        Pull_Refused _ _ \<Rightarrow> None
      | Pull_Page ms again next_cursor \<Rightarrow>
          if \<not> again then Some ms
          else (case next_cursor of
              None \<Rightarrow> None
            | Some (t, k) \<Rightarrow> map_option (append ms) (walk_pull size_of ws db fuel (Some (t, Some k)))))"

lemma pull_page_cases:
  fixes ws :: ident and cursor :: sync_cursor
  assumes "note_ids_unique db"
  defines "feed \<equiv> sync_feed ws cursor db"
  obtains (refused) "feed \<noteq> []" "\<not> fits_page size_of (detail db (hd feed))"
      "pull_page size_of (\<lambda>_. db) ws cursor db = Pull_Refused 413 ''workspace note is too large for desktop sync''"
  | (last_page) "list_all (\<lambda>c. fits_page size_of (detail db c)) feed"
      "\<exists>nxt. pull_page size_of (\<lambda>_. db) ws cursor db = Pull_Page (map (detail db) feed) False nxt"
  | (again) j where "0 < j" "j \<le> length feed" "list_all (\<lambda>c. fits_page size_of (detail db c)) (take j feed)"
      "pull_page size_of (\<lambda>_. db) ws cursor db = Pull_Page (map (detail db) (take j feed)) True (Some (sync_key (feed ! (j - 1))))"
proof -
  define cs where "cs = take (pull_page_size + 1) feed"
  have page: "pull_page size_of (\<lambda>_. db) ws cursor db = pull_loop size_of (\<lambda>_. db) ws (length cs) 0 cs [] 15 None"
    by (simp add: pull_page_def Let_def list_desktop_sync_meeting_candidates_def feed_def cs_def)
  have d: "sync_detail ws (no_id c) db = Some (detail db c)" if "c \<in> set cs" for c
    using sync_detail_feed [OF assms(1)] in_set_takeD [OF that [unfolded cs_def]] feed_def by simp
  show thesis
  proof (cases "feed = []")
    case True
    then have "pull_page size_of (\<lambda>_. db) ws cursor db = Pull_Page [] False None" using page by (simp add: cs_def)
    with True last_page show thesis by simp
  next
    case False
    then have hd: "hd cs = hd feed" "cs \<noteq> []" by (simp_all add: hd_take cs_def)
    have "(\<exists>j m. j \<le> length cs \<and> (m \<longrightarrow> 0 < j) \<and> (\<not> m \<longrightarrow> j = length cs \<and> length cs \<le> pull_page_size) \<and>
        list_all (\<lambda>c. fits_page size_of (detail db c)) (take j cs) \<and>
        pull_loop size_of (\<lambda>_. db) ws (length cs) 0 cs [] 15 None =
          Pull_Page (map (detail db) (take j cs)) m (if j = 0 then None else Some (sync_key (cs ! (j - 1))))) \<or>
      \<not> fits_page size_of (detail db (hd cs)) \<and>
        pull_loop size_of (\<lambda>_. db) ws (length cs) 0 cs [] 15 None =
          Pull_Refused 413 ''workspace note is too large for desktop sync''"
      using pull_loop_page [of cs ws db "[]" None 15 "length cs" size_of 0, OF d] hd(2)
      by (simp del: pull_loop.simps)
    then consider (ref) "\<not> fits_page size_of (detail db (hd cs))"
        "pull_loop size_of (\<lambda>_. db) ws (length cs) 0 cs [] 15 None = Pull_Refused 413 ''workspace note is too large for desktop sync''"
      | (page) j m where "j \<le> length cs" "m \<longrightarrow> 0 < j" "\<not> m \<longrightarrow> j = length cs \<and> length cs \<le> pull_page_size"
        "list_all (\<lambda>c. fits_page size_of (detail db c)) (take j cs)"
        "pull_loop size_of (\<lambda>_. db) ws (length cs) 0 cs [] 15 None =
          Pull_Page (map (detail db) (take j cs)) m (if j = 0 then None else Some (sync_key (cs ! (j - 1))))"
      by blast
    then show thesis
    proof cases
      case ref
      then show thesis using refused False page hd(1) by simp
    next
      case (page j m)
      have j: "take j cs = take j feed" "j \<le> length feed" using page(1) by (auto simp: cs_def)
      show thesis
      proof (cases m)
        case True
        then have "cs ! (j - 1) = feed ! (j - 1)" using page(1,2) by (auto simp: cs_def intro: nth_take)
        with True page j again [of j] \<open>pull_page size_of (\<lambda>_. db) ws cursor db = _\<close> show thesis by simp
      next
        case m: False
        then have "length feed \<le> pull_page_size" using page(3) by (simp add: min_def cs_def split: if_splits)
        then have "take j cs = feed" using page(3) m by (simp add: cs_def)
        with m page last_page \<open>pull_page size_of (\<lambda>_. db) ws cursor db = _\<close> show thesis by simp
      qed
    qed
  qed
qed

lemma walk_pull_feed:
  assumes "note_ids_unique db" "length (sync_feed ws cursor db) < fuel"
  shows "walk_pull size_of ws db fuel cursor =
    (if list_all (\<lambda>n. fits_page size_of (detail db n)) (sync_feed ws cursor db)
     then Some (map (detail db) (sync_feed ws cursor db)) else None)"
  using assms(2)
proof (induction fuel arbitrary: cursor)
  case (Suc fuel)
  let ?feed = "sync_feed ws cursor db"
  show ?case
  proof (rule pull_page_cases [OF assms(1), of ws cursor size_of])
    assume "?feed \<noteq> []" "\<not> fits_page size_of (detail db (hd ?feed))"
      "pull_page size_of (\<lambda>_. db) ws cursor db = Pull_Refused 413 ''workspace note is too large for desktop sync''"
    then show ?case by (cases ?feed) simp_all
  next
    assume "list_all (\<lambda>c. fits_page size_of (detail db c)) ?feed"
      "\<exists>nxt. pull_page size_of (\<lambda>_. db) ws cursor db = Pull_Page (map (detail db) ?feed) False nxt"
    then show ?case by auto
  next
    fix j
    assume j: "0 < j" "j \<le> length ?feed" "list_all (\<lambda>c. fits_page size_of (detail db c)) (take j ?feed)"
      and page: "pull_page size_of (\<lambda>_. db) ws cursor db =
        Pull_Page (map (detail db) (take j ?feed)) True (Some (sync_key (?feed ! (j - 1))))"
    obtain t k where tk: "sync_key (?feed ! (j - 1)) = (t, k)" by (cases "sync_key (?feed ! (j - 1))")
    have feed: "sync_feed ws (Some (t, Some k)) db = drop j ?feed"
      using sync_feed_drop [OF assms(1) _ tk] j(1,2) by simp
    have all: "list_all P ?feed \<longleftrightarrow> list_all P (take j ?feed) \<and> list_all P (drop j ?feed)" for P
      by (metis append_take_drop_id list_all_append)
    have "length (drop j ?feed) < fuel" using Suc.prems j(1,2) by simp
    from Suc.IH [of "Some (t, Some k)", unfolded feed, OF this] page tk j(3) all
    show ?case by (simp flip: map_append)
  qed
qed simp

text \<open>
  C31. The pull is complete. A desktop that follows the cursors from any point gets every live note of
  its workspace that changed after it, each once, oldest change first, with its transcript and
  action items, in at most one request more than there are notes. It fails exactly when one of
  these notes is too large for a page on its own.
\<close>
theorem pull_delivers_every_note:
  fixes ws :: ident and cursor :: sync_cursor
  assumes "note_ids_unique db"
  defines "feed \<equiv> sync_feed ws cursor db"
  shows "walk_pull size_of ws db (Suc (length feed)) cursor =
      (if list_all (\<lambda>n. fits_page size_of (detail db n)) feed then Some (map (detail db) feed) else None) \<and>
    sorted (map sync_key feed) \<and> distinct (map sync_key feed) \<and>
    set feed = {n \<in> set (nd_notes db). live_in ws n \<and> after_sync_cursor cursor n}"
  using walk_pull_feed [OF assms(1), of ws cursor "Suc (length feed)" size_of] sync_feed_sorted sync_feed_distinct [OF assms(1)]
    sync_feed_set unfolding feed_def by auto

theorem pull_delivers_every_note_witness:
  "walk_pull (\<lambda>_. 300) ''w1'' one_note (Suc (length (sync_feed ''w1'' None one_note))) None =
     Some (map (detail one_note) (sync_feed ''w1'' None one_note)) \<and> sync_feed ''w1'' None one_note = [sample_row]"
proof -
  have "sync_feed ''w1'' None one_note = [sample_row]"
    by (simp add: sync_feed_def one_note_notes after_sync_cursor_def live_in_def sample_row_def created_note_def)
  then show ?thesis
    using pull_delivers_every_note [OF one_note_unique, of "\<lambda>_. 300" "''w1''" None]
    by (simp add: fits_page_def pull_limit_def max_request_bytes_def)
qed

subsection \<open>Who may upload\<close>

lemma resolve_api_token_Some:
  assumes "resolve_api_token hash secret now scope db = (Some u, db1)"
  shows "\<exists>t \<in> set (ad_api db). ap_hash t = hash secret \<and> ap_scope t = scope \<and> ap_revoked t = None \<and> now < ap_expires t \<and>
    ap_user t = au_id u \<and> ap_workspace t = au_workspace u \<and>
    (\<exists>x \<in> set (ad_users db). us_id x = au_id u \<and> \<not> us_must_change x)"
proof -
  obtain t x where f: "find_row (\<lambda>r. ap_hash r = hash secret) (ad_api db) = Some t"
    "find_row (\<lambda>v. us_id v = ap_user t) (ad_users db) = Some x"
    and t: "ap_revoked t = None" "ap_scope t = scope" "now < ap_expires t" "\<not> us_must_change x" "us_id x = au_id u"
      "ap_workspace t = au_workspace u"
    using assms by (auto simp: resolve_api_token_def not_le split: option.splits if_splits)
  with find_row_SomeD [OF f(1)] find_row_SomeD [OF f(2)] show ?thesis
    by (intro bexI [of _ t]) auto
qed

lemma authenticate_desktop_sync_Inr:
  assumes "authenticate_desktop_sync w h write db = (Inr a, db1)"
  shows "\<exists>t \<in> set (ad_api db). ap_hash t = sw_hash w (bearer_secret h) \<and> ap_scope t = desktop_notes_scope \<and>
      ap_revoked t = None \<and> sw_now w < ap_expires t \<and> ap_user t = sa_user a \<and> ap_workspace t = Some (sa_workspace a) \<and>
      (\<exists>x \<in> set (ad_users db). us_id x = sa_user a \<and> \<not> us_must_change x)"
    and "truthy (get_user_role (sa_user a) (sa_workspace a) (sw_accounts w))"
    and "write \<Longrightarrow> env_is (sw_env w) ''MANAGED_HOSTING'' ''true'' \<Longrightarrow>
      has_sync_access (find_row (\<lambda>s. sub_workspace s = sa_workspace a) (sw_subs w)) (sw_now w)"
    and "hx_workspace h = Some x \<Longrightarrow> trim x = [] \<or> trim x = sa_workspace a"
proof -
  obtain u d where r: "resolve_api_token (sw_hash w) (bearer_secret h) (sw_now w) desktop_notes_scope db = (Some u, d)"
    and u: "au_id u = sa_user a" "au_workspace u = Some (sa_workspace a)"
    and role: "truthy (get_user_role (sa_user a) (sa_workspace a) (sw_accounts w))"
    and plan: "write \<and> env_is (sw_env w) ''MANAGED_HOSTING'' ''true'' \<longrightarrow>
      has_sync_access (find_row (\<lambda>s. sub_workspace s = sa_workspace a) (sw_subs w)) (sw_now w)"
    and ask: "\<not> (truthy (map_option trim (hx_workspace h)) \<and> map_option trim (hx_workspace h) \<noteq> Some (sa_workspace a))"
    using assms
    by (auto simp: authenticate_desktop_sync_def Let_def truthy_def split: prod.splits option.splits if_splits)
  from resolve_api_token_Some [OF r] u show "\<exists>t \<in> set (ad_api db). ap_hash t = sw_hash w (bearer_secret h) \<and> ap_scope t = desktop_notes_scope \<and>
      ap_revoked t = None \<and> sw_now w < ap_expires t \<and> ap_user t = sa_user a \<and> ap_workspace t = Some (sa_workspace a) \<and>
      (\<exists>x \<in> set (ad_users db). us_id x = sa_user a \<and> \<not> us_must_change x)" by auto
  from role show "truthy (get_user_role (sa_user a) (sa_workspace a) (sw_accounts w))" .
  from plan show "write \<Longrightarrow> env_is (sw_env w) ''MANAGED_HOSTING'' ''true'' \<Longrightarrow>
      has_sync_access (find_row (\<lambda>s. sub_workspace s = sa_workspace a) (sw_subs w)) (sw_now w)" by simp
  from ask show "hx_workspace h = Some x \<Longrightarrow> trim x = [] \<or> trim x = sa_workspace a" by (auto simp: truthy_def)
qed

lemma store_synced_note_effect:
  assumes "store_synced_note w a h body db = (r, db')"
  shows "request_effect (sa_workspace a) db db'"
proof -
  have "request_effect (sa_workspace a) db db1"
    if "upsert_meeting (sw_parse w) (sw_now w) (sw_fresh w) (sa_workspace a) (sa_user a) e body db = (x, db1)" for e x db1
    using upsert_meeting_effect [of "sa_workspace a" db "sw_parse w" "sw_now w" "sw_fresh w" "sa_user a" e body] that by simp
  with assms show ?thesis
    by (auto simp: store_synced_note_def split: option.splits sum.splits note_error.splits prod.splits if_splits)
qed

text \<open>
  C32. Uploads need a member of a paying workspace. If an upload from a desktop changes any note, the
  request's secret is that of an unexpired, unrevoked notes-sync token whose user has no password
  change pending and is at this moment a member of the token's workspace, the workspace has sync
  access on a managed server, the workspace the request names, if any, is the token's, and no note
  of any other workspace changed. Anything else is refused and changes no note.
\<close>
theorem desktop_upload_authorized:
  assumes "post_sync_meeting w h body adb db = (r, adb', db')" "db' \<noteq> db" "note_ids_unique db"
  shows "\<exists>t \<in> set (ad_api adb). \<exists>ws.
    ap_hash t = sw_hash w (bearer_secret h) \<and> ap_scope t = desktop_notes_scope \<and> ap_revoked t = None \<and>
    sw_now w < ap_expires t \<and> ap_workspace t = Some ws \<and>
    (\<exists>x \<in> set (ad_users adb). us_id x = ap_user t \<and> \<not> us_must_change x) \<and>
    truthy (get_user_role (ap_user t) ws (sw_accounts w)) \<and>
    (env_is (sw_env w) ''MANAGED_HOSTING'' ''true'' \<longrightarrow>
      has_sync_access (find_row (\<lambda>s. sub_workspace s = ws) (sw_subs w)) (sw_now w)) \<and>
    (\<forall>x. hx_workspace h = Some x \<longrightarrow> trim x = [] \<or> trim x = ws) \<and>
    (\<forall>k n. note_at k db = Some n \<and> no_workspace n \<noteq> Some ws \<longrightarrow> note_at k db' = Some n \<and> same_children k db db')"
proof -
  obtain a v where a: "authenticate_desktop_sync w h True adb = (Inr a, adb')"
    and s: "store_synced_note w a h v db = (r, db')"
    using assms(1,2) by (auto simp: post_sync_meeting_def split: prod.splits sum.splits option.splits if_splits)
  note auth = authenticate_desktop_sync_Inr [OF a]
  obtain t where t: "t \<in> set (ad_api adb)" "ap_hash t = sw_hash w (bearer_secret h)" "ap_scope t = desktop_notes_scope"
      "ap_revoked t = None" "sw_now w < ap_expires t" "ap_user t = sa_user a" "ap_workspace t = Some (sa_workspace a)"
      "\<exists>x \<in> set (ad_users adb). us_id x = sa_user a \<and> \<not> us_must_change x"
    using auth(1) by blast
  have other: "note_at k db' = Some n \<and> same_children k db db'"
    if "note_at k db = Some n" "no_workspace n \<noteq> Some (sa_workspace a)" for k n
    by (rule effect_foreign [OF store_synced_note_effect [OF s] that])
  show ?thesis
    using t auth(2-4) other
    by (intro bexI [of _ t] exI [of _ "sa_workspace a"]) auto
qed

text \<open>A member of a paying workspace uploads a first note.\<close>

definition sync_secret :: string where
  "sync_secret = api_token_prefix @ replicate 43 CHR ''a''"

definition member_token :: api_token where
  "member_token = \<lparr>ap_id = ''t1'', ap_user = ''u1'', ap_hash = sync_secret, ap_scope = desktop_notes_scope, ap_workspace = Some ''w1'',
     ap_label = None, ap_agent = None, ap_created = 1, ap_last_used = Some 4000, ap_expires = 9000, ap_revoked = None\<rparr>"

definition token_db :: auth_db where
  "token_db = \<lparr>ad_users = [\<lparr>us_id = ''u1'', us_email = ''a@b.co'', us_must_change = False\<rparr>], ad_tokens = [],
     ad_api = [member_token], ad_sessions = [], ad_codes = []\<rparr>"

definition sync_sample_world :: sync_world where
  "sync_sample_world =
     \<lparr>sw_env = (\<lambda>name. if name = ''MANAGED_HOSTING'' then Some ''true'' else None), sw_hash = id, sw_now = 5000,
      sw_parse = parse_sample, sw_fresh = new_ids ''i'',
      sw_subs = [(default_subscription ''w1'')\<lparr>sub_plan := ''hosted_pro'', sub_status := ''active''\<rparr>],
      sw_accounts = \<lparr>ac_workspaces = [\<lparr>tm_id = ''w1'', tm_name = ''Team'', tm_default = False, tm_created = 1, tm_retention = None\<rparr>],
        ac_users = [], ac_members = [\<lparr>mb_id = ''m1'', mb_user = ''u1'', mb_workspace = ''w1'', mb_role = ''member'', mb_created = 1\<rparr>],
        ac_sessions = [], ac_tokens = [], ac_api = []\<rparr>\<rparr>"

definition sync_sample_headers :: sync_headers where
  "sync_sample_headers = \<lparr>hx_authorization = Some (''Bearer '' @ sync_secret), hx_workspace = None, hx_length = None,
     hx_version = Some ''new''\<rparr>"

definition sync_sample_text :: string where
  "sync_sample_text = map (\<lambda>c. if c = CHR ''~'' then CHR 0x22 else c)
     ''{~id~:~n1~,~startedAt~:~t1~,~endedAt~:~t2~,~title~:~A~,~summary~:~B~,~transcript~:[],~actionItems~:[]}''"

definition sync_sample_result :: "sync_reply \<times> auth_db \<times> notes_db" where
  "sync_sample_result = post_sync_meeting sync_sample_world sync_sample_headers (Some sync_sample_text) token_db empty_notes"

lemma sync_sample_stored: "map no_id (nd_notes (snd (snd sync_sample_result))) = [''n1'']"
  by code_simp

theorem desktop_upload_authorized_witness:
  "\<exists>ws. ap_workspace member_token = Some ws \<and> truthy (get_user_role (ap_user member_token) ws (sw_accounts sync_sample_world))"
proof -
  have d: "snd (snd sync_sample_result) \<noteq> empty_notes" using sync_sample_stored by (auto simp: empty_notes_def)
  have p: "post_sync_meeting sync_sample_world sync_sample_headers (Some sync_sample_text) token_db empty_notes =
      (fst sync_sample_result, fst (snd sync_sample_result), snd (snd sync_sample_result))"
    by (simp add: sync_sample_result_def)
  have u: "note_ids_unique empty_notes" by (simp add: note_ids_unique_def empty_notes_def)
  have t: "ad_api token_db = [member_token]" by (simp add: token_db_def)
  from desktop_upload_authorized [OF p d u] show ?thesis unfolding t by auto
qed

end
