(* ===== verification/Account_Properties.thy ===== *)
theory Account_Properties
  imports Request_Gate Sync_Properties Throttle_Properties
begin

text \<open>
  What accounts and the gate guarantee: what a reset link does, what Google can open, what an
  attacker learns from signing in, and who passes the gate; and two behaviours the comments do not
  intend.
\<close>

subsection \<open>Password resets\<close>

lemma account_of_write:
  assumes "\<And>u. ua_id (f u) = ua_id u"
  shows "account_of x (write_account uid f st) =
    (if x = uid then map_option f (account_of x st) else account_of x st)"
  using find_row_update_key [of ua_id f x uid "ac_users (si_db st)", OF assms]
  by (simp add: account_of_def write_account_def)

lemma account_of_others [simp]:
  "account_of x (drop_sessions uid keep st) = account_of x st"
  "account_of x (drop_api_tokens uid st) = account_of x st"
  "account_of x (clear_keys keys st) = account_of x st"
  by (simp_all add: account_of_def drop_sessions_def drop_api_tokens_def clear_keys_def)

definition sessions_of :: "ident \<Rightarrow> sign_state \<Rightarrow> session_row list" where
  "sessions_of uid st = filter (\<lambda>s. sn_user s = uid) (ac_sessions (si_db st))"

definition api_tokens_of :: "ident \<Rightarrow> sign_state \<Rightarrow> api_token list" where
  "api_tokens_of uid st = filter (\<lambda>t. ap_user t = uid) (ac_api (si_db st))"

text \<open>Everything of other accounts is as before.\<close>

definition spares_others :: "ident \<Rightarrow> sign_state \<Rightarrow> sign_state \<Rightarrow> bool" where
  "spares_others uid st st' \<longleftrightarrow>
     (\<forall>x. x \<noteq> uid \<longrightarrow> account_of x st' = account_of x st \<and> sessions_of x st' = sessions_of x st \<and>
        api_tokens_of x st' = api_tokens_of x st)"

lemma consume_auth_token_Some:
  assumes "consume_auth_token hash token purpose now rows = (Some r, rows')" "unique_on ak_hash rows"
  shows "\<exists>r0 \<in> set rows. spendable_row hash token purpose now r0 \<and> r = r0\<lparr>ak_used := Some now\<rparr> \<and>
    find_row (\<lambda>x. ak_hash x = hash token) rows' = Some r"
proof -
  let ?p = "spendable_row hash token purpose now"
  let ?f = "\<lambda>r. r\<lparr>ak_used := Some now\<rparr>"
  have rows': "rows' = update_rows ?p ?f rows" and n: "count_rows ?p rows = 1"
    and find: "find_row (\<lambda>x. ak_hash x = hash token) rows' = Some r"
    using assms(1) by (auto simp: consume_auth_token_def Let_def split: if_splits)
  obtain r0 where r0: "r0 \<in> set rows" "?p r0" using n count_rows_pos_iff [of ?p rows] by auto
  obtain x where x: "x \<in> set rows" "r = (if ?p x then ?f x else x)"
    using find_row_SomeD [OF find] unfolding rows' set_update_rows by blast
  have "ak_hash x = ak_hash r0"
    using x(2) find_row_SomeD [OF find] r0(2) by (auto simp: spendable_row_def split: if_splits)
  then have "x = r0" by (rule unique_onD [OF assms(2) x(1) r0(1)])
  with x(2) r0 find show ?thesis by auto
qed

lemma peek_auth_token_Some:
  assumes "peek_auth_token hash token purpose now rows = Some r"
  shows "r \<in> set rows \<and> ak_hash r = hash token \<and> spendable_row hash token purpose now r"
  using assms
  by (auto simp: peek_auth_token_def spendable_row_def split: if_splits option.splits dest: find_row_SomeD)

lemma spent_link_is_gone:
  assumes "find_row (\<lambda>x. ak_hash x = hash token) rows = Some r" "ak_used r \<noteq> None"
  shows "peek_auth_token hash token purpose now rows = None"
  using assms by (simp add: peek_auth_token_def)

definition alone :: "sign_world \<Rightarrow> bool" where
  "alone w \<longleftrightarrow> wo_other w = (\<lambda>_. id)"

text \<open>The last step of a reset.\<close>

definition reset_to :: "sign_world \<Rightarrow> string \<Rightarrow> account \<Rightarrow> sign_state \<Rightarrow> sign_state" where
  "reset_to w password u st =
     clear_keys [''login:email:'' @ normalize_email (ua_email u)]
       (drop_api_tokens (ua_id u)
         (drop_sessions (ua_id u) None
           (write_account (ua_id u)
             (\<lambda>x. (set_password w password x)\<lparr>ua_verified := Some (case ua_verified u of Some t \<Rightarrow> t | None \<Rightarrow> wo_now w)\<rparr>) st)))"

lemma complete_password_reset_Ok:
  assumes "complete_password_reset w token pw confirm st = (Reset_Ok, st')" "alone w"
  shows "\<exists>p r rows u. peek_link w token Reset_Password st = Some p \<and> pw = confirm \<and> password_problem_of pw (ak_email p) = None \<and>
    consume_auth_token (wo_hash w) token Reset_Password (wo_now w) (ac_tokens (si_db st)) = (Some r, rows) \<and>
    ak_user r = Some (ua_id u) \<and> account_of (ua_id u) st = Some u \<and> normalize_email (ua_email u) = normalize_email (ak_email r) \<and>
    st' = reset_to w pw u (st\<lparr>si_db := (si_db st)\<lparr>ac_tokens := rows\<rparr>\<rparr>)"
proof -
  obtain p where p: "peek_link w token Reset_Password st = Some p" "pw = confirm" "password_problem_of pw (ak_email p) = None"
    using assms(1) by (auto simp: complete_password_reset_def split: option.splits if_splits)
  obtain r0 rows where c: "consume_auth_token (wo_hash w) token Reset_Password (wo_now w) (ac_tokens (si_db st)) = (r0, rows)"
    by fastforce
  have acc: "account_of k (st\<lparr>si_db := (si_db st)\<lparr>ac_tokens := rows\<rparr>\<rparr>) = account_of k st" for k
    by (simp add: account_of_def)
  obtain r u where r: "r0 = Some r" "truthy (ak_user r)" "account_of (the (ak_user r)) st = Some u"
    "normalize_email (ua_email u) = normalize_email (ak_email r)"
    "st' = clear_keys [''login:email:'' @ normalize_email (ua_email u)] (drop_api_tokens (the (ak_user r)) (drop_sessions (the (ak_user r)) None
      (write_account (the (ak_user r)) (\<lambda>x. (set_password w pw x)\<lparr>ua_verified := Some (case ua_verified u of Some t \<Rightarrow> t | None \<Rightarrow> wo_now w)\<rparr>)
        (st\<lparr>si_db := (si_db st)\<lparr>ac_tokens := rows\<rparr>\<rparr>))))"
    using assms p
    by (auto simp: complete_password_reset_def alone_def consume_link_def c acc Let_def split: option.splits if_splits)
  have the: "the (ak_user r) = ua_id u" using find_row_SomeD [OF r(3) [unfolded account_of_def]] by simp
  moreover have "ak_user r = Some (the (ak_user r))" using r(2) by (auto simp: truthy_def)
  ultimately have user: "ak_user r = Some (ua_id u)" by simp
  show ?thesis
    using p c [unfolded r(1)] user r(3-5) [unfolded the] unfolding reset_to_def
    by (intro exI [of _ p] exI [of _ r] exI [of _ rows] exI [of _ u]) simp
qed

lemma reset_to_others: "spares_others (ua_id u) st (reset_to w pw u st)"
  unfolding spares_others_def
proof (intro allI impI conjI)
  fix x assume x: "x \<noteq> ua_id u"
  show "account_of x (reset_to w pw u st) = account_of x st"
    using x by (simp add: reset_to_def account_of_write set_password_def)
  have "filter (\<lambda>s. sn_user s = x) (delete_rows (\<lambda>s. sn_user s = ua_id u) rows) = filter (\<lambda>s. sn_user s = x) rows" for rows
    by (rule filter_delete_keeps) (use x in auto)
  then show "sessions_of x (reset_to w pw u st) = sessions_of x st"
    by (simp add: reset_to_def sessions_of_def clear_keys_def drop_api_tokens_def drop_sessions_def write_account_def)
  have "filter (\<lambda>s. ap_user s = x) (delete_rows (\<lambda>s. ap_user s = ua_id u) rows) = filter (\<lambda>s. ap_user s = x) rows" for rows
    by (rule filter_delete_keeps) (use x in auto)
  then show "api_tokens_of x (reset_to w pw u st) = api_tokens_of x st"
    by (simp add: reset_to_def api_tokens_of_def clear_keys_def drop_api_tokens_def drop_sessions_def write_account_def
        revoke_all_api_tokens_def)
qed

lemma reset_to_password:
  assumes "account_of (ua_id u) st = Some v"
  shows "map_option ua_hash (account_of (ua_id u) (reset_to w pw u st)) = Some (wo_scrypt w pw)"
  using assms unfolding reset_to_def by (simp add: account_of_write set_password_def)

lemma reset_to_own:
  shows "sessions_of (ua_id u) (reset_to w pw u st) = []" "api_tokens_of (ua_id u) (reset_to w pw u st) = []"
    "ac_tokens (si_db (reset_to w pw u st)) = ac_tokens (si_db st)"
  by (simp_all add: reset_to_def sessions_of_def api_tokens_of_def clear_keys_def
      drop_api_tokens_def drop_sessions_def write_account_def revoke_all_api_tokens_def filter_empty_conv)

text \<open>
  C35. A reset takes the account back. When a reset succeeds and no other request runs meanwhile, its
  link was an unspent, unexpired reset link of an account with the address it was sent to; the
  account's password is the new one, which satisfies the policy; every session and API token of the
  account is gone; the link no longer works; and nothing of any other account changed.
\<close>
theorem password_reset_locks_out:
  assumes "complete_password_reset w token pw confirm st = (Reset_Ok, st')" "alone w"
    "unique_on ak_hash (ac_tokens (si_db st))"
  shows "\<exists>r \<in> set (ac_tokens (si_db st)). \<exists>u. spendable_row (wo_hash w) token Reset_Password (wo_now w) r \<and>
    ak_user r = Some (ua_id u) \<and> account_of (ua_id u) st = Some u \<and>
    normalize_email (ua_email u) = normalize_email (ak_email r) \<and>
    pw = confirm \<and> password_problem_of pw (ak_email r) = None \<and>
    map_option ua_hash (account_of (ua_id u) st') = Some (wo_scrypt w pw) \<and>
    sessions_of (ua_id u) st' = [] \<and> api_tokens_of (ua_id u) st' = [] \<and>
    peek_link w token Reset_Password st' = None \<and> spares_others (ua_id u) st st'"
proof -
  obtain p r rows u where p: "peek_link w token Reset_Password st = Some p" "pw = confirm" "password_problem_of pw (ak_email p) = None"
    and c: "consume_auth_token (wo_hash w) token Reset_Password (wo_now w) (ac_tokens (si_db st)) = (Some r, rows)"
    and u: "ak_user r = Some (ua_id u)" "account_of (ua_id u) st = Some u" "normalize_email (ua_email u) = normalize_email (ak_email r)"
    and st': "st' = reset_to w pw u (st\<lparr>si_db := (si_db st)\<lparr>ac_tokens := rows\<rparr>\<rparr>)"
    using complete_password_reset_Ok [OF assms(1,2)] by blast
  let ?st = "st\<lparr>si_db := (si_db st)\<lparr>ac_tokens := rows\<rparr>\<rparr>"
  obtain r0 where r0: "r0 \<in> set (ac_tokens (si_db st))" "spendable_row (wo_hash w) token Reset_Password (wo_now w) r0"
    "r = r0\<lparr>ak_used := Some (wo_now w)\<rparr>" and found: "find_row (\<lambda>x. ak_hash x = wo_hash w token) rows = Some r"
    using consume_auth_token_Some [OF c assms(3)] by blast
  have "ak_hash p = ak_hash r0" "p \<in> set (ac_tokens (si_db st))"
    using peek_auth_token_Some [OF p(1) [unfolded peek_link_def]] r0(2) by (auto simp: spendable_row_def)
  then have "p = r0" using unique_onD [OF assms(3) _ r0(1)] by blast
  moreover have a: "account_of k ?st = account_of k st" for k by (simp add: account_of_def)
  moreover have "spares_others (ua_id u) st st'"
    using reset_to_others [of u ?st w pw] unfolding st'
    by (simp add: spares_others_def a) (simp add: sessions_of_def api_tokens_of_def)
  moreover have own: "account_of (ua_id u) ?st = Some u" using a u(2) by simp
  moreover have "peek_link w token Reset_Password st' = None"
    using spent_link_is_gone [of "wo_hash w" token rows r] found r0(3) unfolding peek_link_def st' reset_to_own(3) by simp
  ultimately show ?thesis
    using p(2,3) r0 u reset_to_password [OF own, of w pw] reset_to_own(1,2) unfolding st' by (intro bexI [of _ r0] exI [of _ u]) auto
qed

definition quiet_world :: sign_world where
  "quiet_world =
     \<lparr>wo_env = (\<lambda>name. if name = ''NODE_ENV'' then Some ''production'' else None), wo_url = (\<lambda>_. None), wo_now = 1000,
      wo_hash = id, wo_scrypt = id, wo_verify = (\<lambda>p h. p = h), wo_dummy = [], wo_ids = (''u9'', ''m9'', ''w9''), wo_link = ''l9'',
      wo_secret = ''s9'', wo_grant = True, wo_sends = True, wo_other = (\<lambda>_. id)\<rparr>"

definition ana :: account where
  "ana = \<lparr>ua_id = ''u1'', ua_email = ''ana@b.co'', ua_hash = ''old password 1'', ua_verified = Some 1, ua_must_change = False,
     ua_provisioned = False, ua_terms = (None, None)\<rparr>"

definition ana_session :: session_row where
  "ana_session = \<lparr>sn_id = ''c1'', sn_user = ''u1'', sn_created = 1, sn_expires = 9000, sn_last_used = Some 900, sn_agent = None,
     sn_ip = None, sn_workspace = None\<rparr>"

definition ana_link :: auth_token where
  "ana_link = \<lparr>ak_id = ''l1'', ak_hash = ''secret'', ak_purpose = Reset_Password, ak_email = ''ana@b.co'', ak_user = Some ''u1'',
     ak_workspace = None, ak_role = None, ak_invited = None, ak_created = 1, ak_expires = 5000, ak_used = None\<rparr>"

definition ana_state :: "account list \<Rightarrow> sign_state" where
  "ana_state users =
     \<lparr>si_db = \<lparr>ac_workspaces = [\<lparr>tm_id = ''w1'', tm_name = ''Team'', tm_default = False, tm_created = 1, tm_retention = None\<rparr>],
        ac_users = users,
        ac_members = [\<lparr>mb_id = ''m1'', mb_user = ''u1'', mb_workspace = ''w1'', mb_role = ''member'', mb_created = 1\<rparr>],
        ac_sessions = [ana_session], ac_tokens = [ana_link], ac_api = []\<rparr>, si_throttle = (0, []), si_codes = []\<rparr>"

lemma quiet_world_alone: "alone quiet_world"
  by (simp add: alone_def quiet_world_def)

theorem password_reset_locks_out_witness:
  "sessions_of ''u1'' (ana_state [ana]) \<noteq> [] \<and>
   sessions_of ''u1''
     (snd (complete_password_reset quiet_world ''secret'' ''long enough pass'' ''long enough pass'' (ana_state [ana]))) = []"
proof -
  let ?r = "complete_password_reset quiet_world ''secret'' ''long enough pass'' ''long enough pass'' (ana_state [ana])"
  have ok: "fst ?r = Reset_Ok" by code_simp
  have r: "?r = (Reset_Ok, snd ?r)" using ok by (simp add: prod_eq_iff)
  have t: "ac_tokens (si_db (ana_state [ana])) = [ana_link]" by (simp add: ana_state_def)
  have u: "unique_on ak_hash (ac_tokens (si_db (ana_state [ana])))" unfolding t by simp
  have l: "ak_user ana_link = Some ''u1''" by (simp add: ana_link_def)
  obtain x and v :: account where "x \<in> set [ana_link]" "ak_user x = Some (ua_id v)" "sessions_of (ua_id v) (snd ?r) = []"
    using password_reset_locks_out [OF r quiet_world_alone u] unfolding t by blast
  with l show ?thesis by (simp add: sessions_of_def ana_state_def ana_session_def)
qed

subsection \<open>Google\<close>

lemma normalize_email_again: "normalize_email (normalize_email v) = normalize_email v"
  using email_budget_canonical by blast

text \<open>A database with one more account, which owns one more workspace; every other row is as before.\<close>

definition account_added :: "ident \<Rightarrow> string \<Rightarrow> ident \<Rightarrow> account_db \<Rightarrow> account_db \<Rightarrow> bool" where
  "account_added uid email ws db db' \<longleftrightarrow>
     (\<exists>u m t. db' = db\<lparr>ac_workspaces := ac_workspaces db @ [t], ac_users := ac_users db @ [u],
          ac_members := ac_members db @ [m]\<rparr> \<and>
        ua_id u = uid \<and> ua_email u = email \<and> mb_user m = uid \<and> mb_workspace m = ws \<and> mb_role m = ''owner'' \<and> tm_id t = ws \<and>
        ws \<notin> tm_id ` set (ac_workspaces db) \<and> uid \<notin> ua_id ` set (ac_users db))"

lemma insert_account_Inr:
  assumes "insert_account (Some u) m db = Inr db'"
  shows "db' = db\<lparr>ac_users := ac_users db @ [u], ac_members := ac_members db @ [m]\<rparr> \<and> ua_id u \<notin> ua_id ` set (ac_users db)"
proof -
  have "rows_unique (ac_users db @ [u]) (ac_members db @ [m])" "db' = db\<lparr>ac_users := ac_users db @ [u], ac_members := ac_members db @ [m]\<rparr>"
    using assms by (auto simp: insert_account_def Let_def split: if_splits)
  then show ?thesis by (simp add: rows_unique_def unique_on_append)
qed

lemma create_signup_Inr:
  assumes "create_signup w e h name verified st = (Inr (uid, ws), st')"
  shows "account_added uid (normalize_email e) ws (si_db st) (si_db st')"
proof -
  obtain mid where "wo_ids w = (uid, mid, ws)" and ws: "ws \<notin> tm_id ` set (ac_workspaces (si_db st))"
    and i: "insert_account (Some ((new_account uid e h verified)\<lparr>ua_terms := (Some (wo_now w), Some current_terms_version)\<rparr>))
        (new_member mid uid ws ''owner'' (wo_now w)) ((si_db st)\<lparr>ac_workspaces := ac_workspaces (si_db st) @
              [\<lparr>tm_id = ws, tm_name = name, tm_default = False, tm_created = wo_now w, tm_retention = None\<rparr>]\<rparr>) = Inr (si_db st')"
    using assms
    by (auto simp: create_signup_def create_hosted_workspace_with_owner_def Let_def split: if_splits prod.splits sum.splits)
  show ?thesis
    unfolding account_added_def
    by (intro exI conjI) (use insert_account_Inr [OF i] ws in \<open>auto simp: new_account_def new_member_def\<close>)
qed

lemma create_signup_Inl: "create_signup w e h name verified st = (Inl err, st') \<Longrightarrow> si_db st' = si_db st"
  by (auto simp: create_signup_def create_hosted_workspace_with_owner_def Let_def split: if_splits prod.splits sum.splits)

lemma record_signup_db [simp]: "si_db (record_signup w ctx st) = si_db st"
  by (simp add: record_signup_def)

text \<open>
  C36. Google opens no account its mailbox did not prove. A sign-in through Google that succeeds is for
  an address Google vouches for. Either it opens the account that already has this address, which
  must have verified it itself and not have been set up by somebody else, and a workspace the
  account belongs to, and nothing is changed; or nobody had the address, the person signed up and
  accepted the terms, and the only change to the database is a new account that owns a new
  workspace. Every refusal, throttling or failure leaves all accounts, memberships, sessions and
  tokens as they are. (No other request runs meanwhile.)
\<close>
theorem google_never_takes_over:
  assumes "resolve_google_account w g ctx st = (r, st')" "alone w"
  shows "case r of
      Google_Ok uid ws created must \<Rightarrow> go_verified g \<and>
        (if created
         then account_with (normalize_email (go_email g)) st = None \<and> go_signup g \<and> go_terms g \<and>
           account_added uid (normalize_email (go_email g)) ws (si_db st) (si_db st')
         else st' = st \<and> get_user_role uid ws (si_db st) \<noteq> None \<and>
           (\<exists>u. account_with (normalize_email (go_email g)) st = Some u \<and> ua_id u = uid \<and> ua_verified u \<noteq> None \<and>
              \<not> ua_provisioned u))
    | _ \<Rightarrow> si_db st' = si_db st"
proof (cases "account_with (normalize_email (go_email g)) st")
  case (Some u)
  then show ?thesis
    using assms unfolding resolve_google_account_def alone_def
    by (auto simp: Let_def resolve_active_workspace_def truthy_def split: option.splits if_splits google_reply.splits)
next
  case None
  let ?e = "normalize_email (go_email g)"
  let ?created = "create_signup w ?e (wo_scrypt w (wo_secret w)) (google_workspace_name g ?e) (Some (wo_now w)) (record_signup w ctx st)"
  consider (unchanged) "si_db st' = si_db st" "\<And>a b c d. r \<noteq> Google_Ok a b c d"
    | (new) uid ws where "r = Google_Ok uid ws True False" "go_verified g" "go_signup g" "go_terms g" "?created = (Inr (uid, ws), st')"
    using assms None create_signup_Inl unfolding resolve_google_account_def alone_def
    by (fastforce simp: Let_def split: option.splits if_splits prod.splits sum.splits)
  then show ?thesis
  proof cases
    case unchanged
    then show ?thesis by (simp split: google_reply.splits)
  next
    case new
    with create_signup_Inr [OF new(5)] None show ?thesis by (simp add: normalize_email_again)
  qed
qed

text \<open>A member signs in with Google.\<close>

definition ana_google :: google_identity where
  "ana_google = \<lparr>go_email = ''Ana@b.co'', go_verified = True, go_signup = False, go_terms = False, go_workspace = None\<rparr>"

definition no_context :: request_context where
  "no_context = \<lparr>rc_ip = None, rc_agent = None, rc_protocol = None, rc_host = None\<rparr>"

theorem google_never_takes_over_witness:
  "\<exists>u. account_with (normalize_email (go_email ana_google)) (ana_state [ana]) = Some u \<and> ua_id u = ''u1'' \<and> ua_verified u \<noteq> None"
proof -
  let ?r = "resolve_google_account quiet_world ana_google no_context (ana_state [ana])"
  have ok: "fst ?r = Google_Ok ''u1'' ''w1'' False False" by code_simp
  have r: "?r = (Google_Ok ''u1'' ''w1'' False False, snd ?r)" using ok by (simp add: prod_eq_iff)
  from google_never_takes_over [OF r quiet_world_alone] show ?thesis by auto
qed

subsection \<open>What signing in reveals\<close>

text \<open>
  C37. Signing in does not reveal accounts. An address without an account and an account's address
  with a wrong password get the same answer and leave the same throttle counts, so neither the
  answer nor later attempts tell them apart.
\<close>
theorem unknown_address_looks_like_wrong_password:
  assumes "alone w" "si_throttle st1 = si_throttle st2"
    and "account_with (normalize_email email) st1 = None"
    and "account_with (normalize_email email) st2 = Some u" "\<not> wo_verify w pw (ua_hash u)"
  shows "fst (authenticate_credentials w email pw ip st1) = fst (authenticate_credentials w email pw ip st2) \<and>
    si_throttle (snd (authenticate_credentials w email pw ip st1)) = si_throttle (snd (authenticate_credentials w email pw ip st2))"
  using assms unfolding authenticate_credentials_def alone_def
  by (cases "normalize_email email = []") (simp_all add: Let_def)

theorem unknown_address_looks_like_wrong_password_witness:
  "fst (authenticate_credentials quiet_world ''ana@b.co'' ''guess'' None (ana_state [])) =
   fst (authenticate_credentials quiet_world ''ana@b.co'' ''guess'' None (ana_state [ana]))"
proof -
  have t: "si_throttle (ana_state []) = si_throttle (ana_state [ana])" by (simp add: ana_state_def)
  have n: "account_with (normalize_email ''ana@b.co'') (ana_state []) = None" by (simp add: account_with_def ana_state_def)
  have a: "account_with (normalize_email ''ana@b.co'') (ana_state [ana]) = Some ana" by code_simp
  have v: "\<not> wo_verify quiet_world ''guess'' (ua_hash ana)" by (simp add: quiet_world_def ana_def)
  from unknown_address_looks_like_wrong_password [OF quiet_world_alone t n a v, of None] show ?thesis by simp
qed

subsection \<open>The gate\<close>

text \<open>A live session of a user, or a live token of the user for the managed API.\<close>

definition live_credential :: "sign_world \<Rightarrow> string option \<Rightarrow> sign_state \<Rightarrow> ident \<Rightarrow> bool" where
  "live_credential w sid st uid \<longleftrightarrow>
     ((\<exists>s \<in> set (ac_sessions (si_db st)). sid = Some (sn_id s) \<and> sn_user s = uid \<and> wo_now w \<le> sn_expires s) \<or>
      (\<exists>t \<in> set (ac_api (si_db st)). ap_user t = uid \<and> sid \<noteq> None \<and> ap_hash t = wo_hash w (the sid) \<and>
         ap_scope t = api_token_scope \<and> ap_revoked t = None \<and> wo_now w < ap_expires t)) \<and>
     (\<exists>u \<in> set (ac_users (si_db st)). ua_id u = uid \<and> \<not> ua_must_change u)"

lemma auth_view_user:
  "find_row (\<lambda>u. us_id u = k) (ad_users (auth_view st)) =
    map_option (\<lambda>u. \<lparr>us_id = ua_id u, us_email = ua_email u, us_must_change = ua_must_change u\<rparr>) (account_of k st)"
proof -
  have "find_row (\<lambda>u. us_id u = k) (map (\<lambda>u. \<lparr>us_id = ua_id u, us_email = ua_email u, us_must_change = ua_must_change u\<rparr>) us) =
      map_option (\<lambda>u. \<lparr>us_id = ua_id u, us_email = ua_email u, us_must_change = ua_must_change u\<rparr>) (find_row (\<lambda>u. ua_id u = k) us)" for us
    by (induction us) auto
  then show ?thesis by (simp add: auth_view_def account_of_def)
qed

lemma get_session_context_Some:
  assumes "get_session_context sid now (auth_view st) = (Some c, a)"
  shows "\<exists>s u. s \<in> set (ac_sessions (si_db st)) \<and> sid = Some (sn_id s) \<and> now \<le> sn_expires s \<and>
    account_of (sn_user s) st = Some u \<and> us_id (sc_user c) = ua_id u \<and> us_must_change (sc_user c) = ua_must_change u \<and>
    ua_id u = sn_user s"
proof -
  obtain s u where f: "find_row (\<lambda>s. sn_id s = the sid) (ad_sessions (auth_view st)) = Some s"
    and u: "account_of (sn_user s) st = Some u" and sid: "truthy sid" and e: "\<not> sn_expires s < now"
    and c: "us_id (sc_user c) = ua_id u" "us_must_change (sc_user c) = ua_must_change u"
    using assms by (auto simp: get_session_context_def auth_view_user split: option.splits if_splits)
  have "s \<in> set (ac_sessions (si_db st))" "sn_id s = the sid" using find_row_SomeD [OF f] by (auto simp: auth_view_def)
  moreover have "ua_id u = sn_user s" using find_row_SomeD [OF u [unfolded account_of_def]] by simp
  ultimately show ?thesis using u sid e c by (intro exI [of _ s] exI [of _ u]) (auto simp: truthy_def)
qed

lemma session_user_Some:
  assumes "session_user w sid st = (Some (uid, email), st')"
  shows "live_credential w sid st uid"
proof (cases "looks_like_api_token (the sid)")
  case True
  then obtain v a b where sid: "sid = Some v"
    and r: "resolve_api_token (wo_hash w) v (wo_now w) api_token_scope (auth_view st) = (Some a, b)" and u: "au_id a = uid"
    using assms by (auto simp: session_user_def get_session_user_def truthy_def split: if_splits prod.splits)
  obtain t where t: "t \<in> set (ac_api (si_db st))" "ap_hash t = wo_hash w v" "ap_scope t = api_token_scope" "ap_revoked t = None"
    "wo_now w < ap_expires t" "ap_user t = uid" "\<exists>x \<in> set (ad_users (auth_view st)). us_id x = uid \<and> \<not> us_must_change x"
    using resolve_api_token_Some [OF r] u by (auto simp: auth_view_def)
  have "\<exists>x \<in> set (ac_users (si_db st)). ua_id x = uid \<and> \<not> ua_must_change x" using t(7) by (auto simp: auth_view_def)
  with t(1-6) sid show ?thesis unfolding live_credential_def by auto
next
  case False
  then obtain c a where c: "get_session_context sid (wo_now w) (auth_view st) = (Some c, a)" and n: "\<not> us_must_change (sc_user c)"
    and u: "us_id (sc_user c) = uid"
    using assms by (auto simp: session_user_def get_session_user_def split: if_splits prod.splits option.splits)
  obtain s x where s: "s \<in> set (ac_sessions (si_db st))" "sid = Some (sn_id s)" "wo_now w \<le> sn_expires s"
    and x: "account_of (sn_user s) st = Some x" "us_id (sc_user c) = ua_id x" "us_must_change (sc_user c) = ua_must_change x"
      "ua_id x = sn_user s"
    using get_session_context_Some [OF c] by blast
  have "x \<in> set (ac_users (si_db st))" using find_row_SomeD [OF x(1) [unfolded account_of_def]] by simp
  with s x n u show ?thesis unfolding live_credential_def by auto
qed

text \<open>The routes that authenticate their callers themselves, and the public pages.\<close>

definition open_route :: "env \<Rightarrow> string \<Rightarrow> bool" where
  "open_route env p \<longleftrightarrow>
     p \<in> {''/api/health'', ''/login'', ''/api/google/oauth/connect'', ''/api/google/oauth/callback'', ''/api/google/oauth/start'',
       ''/api/mcp'', ''/api/v1/auth/login'', ''/api/v1/auth/google/exchange'', ''/api/v1/auth/desktop-code''} \<or>
     under ''/internal/admin'' p \<or> under ''/api/import'' p \<or> under ''/api/v1/desktop-sync'' p \<or> prefix ''/share/'' p \<or>
     env_is env ''MANAGED_HOSTING'' ''true'' \<and> is_marketing_path p"

text \<open>
  C33. Who passes the gate. A request that reaches a page or a route outside the listed ones carries a
  live session cookie of a user without a pending password change, or, on the managed API, such a
  session or token as its bearer credential or the worker's secret on a worker route, or, on the old
  API, the deployment's secret. The one exception is Stripe's webhook, which the gate lets through
  for the mere presence of a \<^verbatim>\<open>stripe-signature\<close> header: its route checks the signature itself.
\<close>
theorem gate_lets_in_only_credentials:
  assumes "proxy w down r st = (reply, st')" "reply = Gate_Next \<or> reply = Gate_Page m"
  shows "open_route (wo_env w) (gr_path r) \<or>
    (\<exists>uid. live_credential w (gr_cookie r) st uid \<and> \<not> prefix ''/api/'' (gr_path r)) \<or>
    (\<exists>uid. live_credential w (Some (bearer_of (gr_headers r ''authorization''))) st uid \<and> prefix ''/api/v1/'' (gr_path r)) \<or>
    (is_worker_run_path (gr_path r) \<or> gr_path r = ''/api/v1/jobs/next'') \<and>
      is_valid_worker_token (wo_hash w) (wo_env w) (gr_headers r ''x-worker-token'') \<or>
    gr_path r = ''/api/v1/billing/webhook'' \<and> gr_headers r ''stripe-signature'' \<noteq> None \<or>
    \<not> prefix ''/api/v1/'' (gr_path r) \<and> is_authorized_bearer (wo_hash w) (wo_env w) (gr_headers r ''authorization'')"
proof (cases "open_route (wo_env w) (gr_path r)")
  case False
  note closed = this [unfolded open_route_def]
  show ?thesis
  proof (cases "prefix ''/api/v1/'' (gr_path r)")
    case v1: True
    then have "prefix ''/api/'' (gr_path r)" by (auto simp: prefix_def)
    then have g: "gate_managed_api w down r st = (reply, st')"
      using assms(1) closed v1 by (auto simp: proxy_def gate_api_def Let_def)
    show ?thesis
      using g assms(2) closed v1
      by (auto simp: gate_managed_api_def Let_def dest!: session_user_Some split: if_splits prod.splits option.splits)
  next
    case old: False
    show ?thesis
    proof (cases "prefix ''/api/'' (gr_path r)")
      case True
      then have "gate_api w down r st = (reply, st')" using assms(1) closed by (auto simp: proxy_def Let_def)
      then show ?thesis using assms(2) closed old by (auto simp: gate_api_def Let_def split: if_splits)
    next
      case False
      then show ?thesis
        using assms closed
        by (auto simp: proxy_def Let_def dest!: session_user_Some split: if_splits prod.splits option.splits)
    qed
  qed
qed simp

definition page_request :: "string \<Rightarrow> gate_request" where
  "page_request p = \<lparr>gr_path = p, gr_method = ''GET'', gr_origin = ''http://a.co'', gr_headers = (\<lambda>_. None), gr_cookie = Some ''c1''\<rparr>"

theorem gate_lets_in_only_credentials_witness:
  "\<exists>uid. live_credential quiet_world (gr_cookie (page_request ''/meetings'')) (ana_state [ana]) uid"
proof -
  let ?r = "proxy quiet_world False (page_request ''/meetings'') (ana_state [ana])"
  have ok: "fst ?r = Gate_Page False" by code_simp
  have r: "?r = (Gate_Page False, snd ?r)" using ok by (simp add: prod_eq_iff)
  have "\<not> open_route (wo_env quiet_world) (gr_path (page_request ''/meetings''))" by code_simp
  moreover have "\<not> is_worker_run_path (gr_path (page_request ''/meetings''))" by code_simp
  moreover have "gr_path (page_request ''/meetings'') = ''/meetings''" by (simp add: page_request_def)
  moreover have "\<not> is_authorized_bearer (wo_hash quiet_world) (wo_env quiet_world) (gr_headers (page_request ''/meetings'') ''authorization'')"
    by (simp add: is_authorized_bearer_def quiet_world_def truthy_def)
  ultimately show ?thesis using gate_lets_in_only_credentials [OF r] by auto
qed

subsection \<open>A temporary password\<close>

text \<open>
  C38. A temporary password keeps its user from the page that replaces it. A member whose owner set
  the password is sent to \<open>/account\<close> after signing in, to choose their own. The gate reads the session
  through \<open>getSessionUser\<close>, which knows no user with a pending change, and sends every request of such
  a session for that page back to the sign-in page. (A reset by mail still clears the pending change.)
\<close>
theorem temporary_password_locks_out:
  assumes "get_session_context (gr_cookie r) (wo_now w) (auth_view st) = (Some c, a)" "us_must_change (sc_user c)"
    and "gr_path r = ''/account''"
  shows "fst (proxy w False r st) = Gate_Login ''/account''"
proof -
  have "truthy (gr_cookie r)" "\<not> looks_like_api_token (the (gr_cookie r))"
    using assms(1) by (auto simp: get_session_context_def split: if_splits)
  then have "session_user w (gr_cookie r) st = (None, store_auth a st)"
    using assms(1,2) by (simp add: session_user_def get_session_user_def)
  then show ?thesis
    using assms(3)
    by (simp add: proxy_def Let_def under_def is_marketing_path_def marketing_paths_def lookup_throws_def)
qed

theorem temporary_password_locks_out_witness:
  "fst (authenticate_credentials quiet_world ''ana@b.co'' ''old password 1'' None (ana_state [ana\<lparr>ua_must_change := True\<rparr>])) =
     Signed_In (ana\<lparr>ua_must_change := True\<rparr>) \<and>
   fst (require_session quiet_world True (Some ''c1'') (ana_state [ana\<lparr>ua_must_change := True\<rparr>])) =
     Inr \<lparr>pg_user = ''u1'', pg_workspace = ''w1'', pg_role = ''member'', pg_email = ''ana@b.co'', pg_session = ''c1''\<rparr> \<and>
   fst (proxy quiet_world False (page_request ''/account'') (ana_state [ana\<lparr>ua_must_change := True\<rparr>])) = Gate_Login ''/account''"
proof -
  let ?st = "ana_state [ana\<lparr>ua_must_change := True\<rparr>]"
  have 1: "fst (authenticate_credentials quiet_world ''ana@b.co'' ''old password 1'' None ?st) = Signed_In (ana\<lparr>ua_must_change := True\<rparr>)"
    by code_simp
  have 2: "fst (require_session quiet_world True (Some ''c1'') ?st) =
     Inr \<lparr>pg_user = ''u1'', pg_workspace = ''w1'', pg_role = ''member'', pg_email = ''ana@b.co'', pg_session = ''c1''\<rparr>"
    by code_simp
  let ?c = "get_session_context (gr_cookie (page_request ''/account'')) (wo_now quiet_world) (auth_view ?st)"
  have s: "fst ?c = Some \<lparr>sc_session = ''c1'', sc_user = \<lparr>us_id = ''u1'', us_email = ''ana@b.co'', us_must_change = True\<rparr>, sc_workspace = None\<rparr>"
    by code_simp
  then obtain c where c: "?c = (Some c, snd ?c)" "us_must_change (sc_user c)" by (cases ?c) auto
  have p: "gr_path (page_request ''/account'') = ''/account''" by (simp add: page_request_def)
  from 1 2 temporary_password_locks_out [OF c p] show ?thesis by blast
qed

subsection \<open>The session cookie\<close>

text \<open>
  The comment of \<open>shouldUseSecureCookies\<close> says that the protocol of the request is not trusted for the
  flag. Without a configured address it decides: with one header a request gets a cookie that the
  browser also sends in the clear.
\<close>

lemma spoofed_protocol_drops_secure:
  "let env = (\<lambda>name. if name = ''NODE_ENV'' then Some ''production'' else None);
       plain = (\<lambda>name. if name = ''host'' then Some ''notes.example.com'' else None)
   in should_use_secure_cookies (\<lambda>_. None) env (context_from_headers (\<lambda>_. None) plain) \<and>
      \<not> should_use_secure_cookies (\<lambda>_. None) env
          (context_from_headers (\<lambda>_. None) (plain(''x-forwarded-proto'' := Some ''http'')))"
  by code_simp

end
