(* ===== verification/Share_Properties.thy ===== *)
theory Share_Properties
  imports Sharing Account_Properties
begin

text \<open>
  What share links and the pages' actions guarantee: links stay few and die when revoked, and only
  a signed-in member of a workspace that may write changes its notes.
\<close>

subsection \<open>Links\<close>

datatype share_op =
    Make_Share ident string ident ident "js_number option" notes_db
  | Drop_Share ident ident "ident option"

fun share_step :: "(string \<Rightarrow> string) \<Rightarrow> millis \<times> share_op \<Rightarrow> share_row list \<Rightarrow> share_row list" where
  "share_step hash (now, Make_Share new_id token ws k days db) rows =
     snd (create_meeting_share hash now new_id token ws k days db rows)"
| "share_step hash (now, Drop_Share ws share k) rows = snd (revoke_meeting_share now ws share k rows)"

lemma active_share_later: "active_share ws k later s \<Longrightarrow> now \<le> later \<Longrightarrow> active_share ws k now s"
  by (auto simp: active_share_def still_valid_def split: option.splits)

lemma count_active_later:
  assumes "now \<le> later"
  shows "count_rows (active_share ws k later) rows \<le> count_rows (active_share ws k now) rows"
  using assms by (induction rows) (auto dest: active_share_later)

lemma count_active_revoke:
  "count_rows (active_share ws k now) (update_rows p (\<lambda>s. s\<lparr>sh_revoked := Some t\<rparr>) rows) \<le>
    count_rows (active_share ws k now) rows"
  by (induction rows) (auto simp: active_share_def)

lemma count_active_step:
  assumes "count_rows (active_share ws k now) rows \<le> max_active_shares_per_meeting"
  shows "count_rows (active_share ws k now) (share_step hash (now, op) rows) \<le> max_active_shares_per_meeting"
proof (cases op)
  case (Make_Share new_id token ws' k' days db)
  have "snd (create_meeting_share hash now new_id token ws' k' days db rows) = rows \<or>
    (\<exists>s. snd (create_meeting_share hash now new_id token ws' k' days db rows) = rows @ [s] \<and> sh_workspace s = ws' \<and> sh_meeting s = k' \<and>
      count_rows (active_share ws' k' now) rows < max_active_shares_per_meeting)"
    by (auto simp: create_meeting_share_def split: sum.split option.split)
  then show ?thesis using assms Make_Share by (auto simp: active_share_def)
next
  case (Drop_Share ws' share k')
  have "snd (revoke_meeting_share now ws' share k' rows) = rows \<or>
    (\<exists>p. snd (revoke_meeting_share now ws' share k' rows) = update_rows p (\<lambda>s. s\<lparr>sh_revoked := Some now\<rparr>) rows)"
    by (auto simp: revoke_meeting_share_def Let_def)
  then show ?thesis
    using assms Drop_Share order_trans [OF count_active_revoke assms] by auto
qed

text \<open>
  C39. A note never has more than 25 working links. Whatever links of whatever notes are made and
  revoked, in any order, a note that had at most 25 working links before has at most 25 at every
  later moment.
\<close>
theorem share_links_bounded:
  assumes "count_rows (active_share ws k t) rows \<le> max_active_shares_per_meeting"
    and "sorted (t # map fst ops @ [now])"
  shows "count_rows (active_share ws k now) (fold (share_step hash) ops rows) \<le> max_active_shares_per_meeting"
  using assms
proof (induction ops arbitrary: t rows)
  case Nil
  then show ?case using order_trans [OF count_active_later [of t now] Nil.prems(1)] by simp
next
  case (Cons op ops)
  obtain t1 o1 where op: "op = (t1, o1)" by (cases op)
  then have "count_rows (active_share ws k t1) rows \<le> max_active_shares_per_meeting"
    using order_trans [OF count_active_later [of t t1] Cons.prems(1)] Cons.prems(2) by simp
  from Cons.IH [OF count_active_step [OF this, of hash o1]] Cons.prems(2) op show ?case by simp
qed

text \<open>A link to the note of \<open>Note_Properties\<close>.\<close>

definition sample_link :: share_op where
  "sample_link = Make_Share ''s1'' ''tok'' ''w1'' ''n1'' None one_note"

theorem share_links_bounded_witness:
  "count_rows (active_share ''w1'' ''n1'' 6000) (fold (share_step id) [(6000, sample_link)] []) = 1 \<and>
   count_rows (active_share ''w1'' ''n1'' 9000)
     (fold (share_step id) [(6000, sample_link), (7000, Drop_Share ''w1'' ''s1'' None)] []) \<le> max_active_shares_per_meeting"
proof -
  have "count_rows (active_share ''w1'' ''n1'' 6000) (fold (share_step id) [(6000, sample_link)] []) = 1" by code_simp
  then show ?thesis
    using share_links_bounded [where ws = "''w1''" and k = "''n1''" and t = 6000 and rows = "[]" and hash = id and now = 9000
        and ops = "[(6000, sample_link), (7000, Drop_Share ''w1'' ''s1'' None)]"] by simp
qed

text \<open>No row of the link still works.\<close>

definition link_dead :: "string \<Rightarrow> share_row list \<Rightarrow> bool" where
  "link_dead h rows \<longleftrightarrow> list_all (\<lambda>s. sh_hash s = h \<longrightarrow> sh_revoked s \<noteq> None) rows"

fun makes_link :: "(string \<Rightarrow> string) \<Rightarrow> string \<Rightarrow> millis \<times> share_op \<Rightarrow> bool" where
  "makes_link hash h (now, Make_Share new_id token ws k days db) \<longleftrightarrow> hash token = h"
| "makes_link hash h (now, Drop_Share ws share k) \<longleftrightarrow> False"

lemma link_dead_step:
  assumes "link_dead h rows" "\<not> makes_link hash h op"
  shows "link_dead h (share_step hash op rows)"
proof -
  obtain t o1 where op: "op = (t, o1)" by (cases op)
  show ?thesis
  proof (cases o1)
    case (Make_Share new_id token ws k days db)
    with assms op show ?thesis
      by (auto simp: link_dead_def create_meeting_share_def split: sum.split option.split)
  next
    case (Drop_Share ws share k)
    with assms op show ?thesis
      by (auto simp: link_dead_def revoke_meeting_share_def Let_def list_all_iff set_update_rows)
  qed
qed

lemma link_dead_run:
  "link_dead h rows \<Longrightarrow> list_all (\<lambda>op. \<not> makes_link hash h op) ops \<Longrightarrow> link_dead h (fold (share_step hash) ops rows)"
  by (induction ops arbitrary: rows) (auto intro: link_dead_step)

lemma revoke_kills:
  assumes "revoke_meeting_share now ws share k rows = (Inr True, rows')" "unique_on sh_id rows" "unique_on sh_hash rows"
    and "s \<in> set rows" "sh_id s = share"
  shows "link_dead (sh_hash s) rows'"
proof -
  let ?p = "\<lambda>s. sh_id s = share \<and> sh_workspace s = ws \<and> sh_revoked s = None \<and> (truthy k \<longrightarrow> sh_meeting s = the k)"
  have rows': "rows' = update_rows ?p (\<lambda>s. s\<lparr>sh_revoked := Some now\<rparr>) rows" and n: "0 < count_rows ?p rows"
    using assms(1) by (auto simp: revoke_meeting_share_def Let_def split: if_splits)
  obtain x where x: "x \<in> set rows" "?p x" using n unfolding count_rows_pos_iff by blast
  have "x = s" by (rule unique_onD [OF assms(2) x(1) assms(4)]) (use x(2) assms(5) in simp)
  have "y = s" if "y \<in> set rows" "sh_hash y = sh_hash s" for y
    by (rule unique_onD [OF assms(3) that(1) assms(4) that(2)])
  with x(2) \<open>x = s\<close> show ?thesis
    unfolding link_dead_def rows' list_all_iff set_update_rows by auto
qed

text \<open>
  C40. A revoked link stays dead. Once a link is revoked it opens nothing, at any time, whatever links
  are made and revoked afterwards, as long as its secret is not drawn again.
\<close>
theorem revoked_link_opens_nothing:
  assumes "revoke_meeting_share now ws share k rows = (Inr True, rows')" "unique_on sh_id rows" "unique_on sh_hash rows"
    and "s \<in> set rows" "sh_id s = share" "sh_hash s = hash token"
    and "list_all (\<lambda>op. \<not> makes_link hash (hash token) op) ops"
  shows "get_shared_meeting hash later token (fold (share_step hash) ops rows') db = None"
proof -
  have "link_dead (hash token) (fold (share_step hash) ops rows')"
    by (rule link_dead_run [OF _ assms(7)]) (use revoke_kills [OF assms(1-5)] assms(6) in simp)
  then have "find_row (\<lambda>s. sh_hash s = hash token \<and> sh_revoked s = None \<and> still_valid later s)
      (fold (share_step hash) ops rows') = None"
    by (auto simp: find_row_None_iff link_dead_def list_all_iff)
  then show ?thesis by (simp add: get_shared_meeting_def)
qed

definition link_row :: share_row where
  "link_row = \<lparr>sh_id = ''s1'', sh_workspace = ''w1'', sh_meeting = ''n1'', sh_hash = ''tok'', sh_expires = None, sh_revoked = None,
     sh_created = 6000\<rparr>"

theorem revoked_link_opens_nothing_witness:
  "get_shared_meeting id 7000 ''tok'' [link_row] one_note \<noteq> None \<and>
   get_shared_meeting id 8000 ''tok'' (snd (revoke_meeting_share 7000 ''w1'' ''s1'' None [link_row])) one_note = None"
proof -
  let ?r = "revoke_meeting_share 7000 ''w1'' ''s1'' None [link_row]"
  have "map_option pn_title (get_shared_meeting id 7000 ''tok'' [link_row] one_note) = Some ''Plan''" by code_simp
  then have opens: "get_shared_meeting id 7000 ''tok'' [link_row] one_note \<noteq> None" by auto
  have r: "?r = (Inr True, snd ?r)" by code_simp
  have row: "unique_on sh_id [link_row]" "unique_on sh_hash [link_row]" "link_row \<in> set [link_row]"
    "sh_id link_row = ''s1''" "sh_hash link_row = id ''tok''"
    by (simp_all add: link_row_def)
  from opens revoked_link_opens_nothing [where hash = id and token = "''tok''", OF r row, of "[]" 8000 one_note] show ?thesis by simp
qed

subsection \<open>Who changes notes through the pages\<close>






text \<open>An action of a session: what it may do to notes and links.\<close>

definition desk_effect :: "ident \<Rightarrow> desk_state \<Rightarrow> desk_state \<Rightarrow> bool" where
  "desk_effect ws st st' \<longleftrightarrow>
     request_effect ws (dk_notes st) (dk_notes st') \<and>
     (\<forall>s \<in> set (dk_shares st'). s \<in> set (dk_shares st) \<or> sh_workspace s = ws)"

lemma desk_effect_same [simp]: "desk_effect ws st st" "desk_effect ws st (st\<lparr>dk_sign := s1\<rparr>)"
  by (simp_all add: desk_effect_def)

lemma desk_effect_sign: "desk_effect ws (st\<lparr>dk_sign := s1\<rparr>) st' \<longleftrightarrow> desk_effect ws st st'"
  by (simp add: desk_effect_def)





lemma desk_session_workspace [simp]: "se_workspace (desk_session se) = pg_workspace se"
  by (simp add: desk_session_def)



















end
