(* ===== verification/Spec2Isabelle.thy ===== *)
theory Spec2Isabelle
  imports Ledger_Properties Throttle_Properties Lookup_Limiter Audit_Log Library_Faults
    Worker_Slots Output_Properties Upload_Properties Job_Outcomes
    Billing_Checkout Workspace_Owners Share_Properties
begin

text \<open>
  Verification of the server of AI Notetaker: the TypeScript modules of \<open>webapp/src/lib\<close> and the
  API routes built on them, translated function by function, with the theorems that make them
  correct.

  THE PROGRAM. A recorder (browser extension or desktop application) produces meetings; the web
  application stores notes per workspace, transcribes and summarises uploaded recordings in
  background jobs, bills workspaces through Stripe and syncs notes with desktops. Its state is the
  PostgreSQL schema \<open>webapp/prisma/schema.prisma\<close>, an object store for audio, and a few process
  variables. A request authenticates with a session, a link or a bearer token, is throttled, checks
  the plan of its workspace, and changes rows in transactions. Workers claim jobs under leases,
  call providers within a spend ledger and commit results; sweeps expire what is left over.

  HOW STATE AND EFFECTS ARE MODELLED. A table is the list of its rows, a row a record whose fields
  carry a prefix of their own. \<open>Prelude\<close> has the queries and writes on tables (\<open>find_row\<close>,
  \<open>update_rows\<close>, \<open>delete_rows\<close>, \<open>count_rows\<close>, \<open>unique_on\<close>) with their lemmas. A transaction that locks or
  that runs serializably is one state transformer; where an operation has several transactions or
  checks what it has read and writes later, what others commit in between is an argument (a function
  on the state) or a list of steps of the component. Reads that follow each other directly are taken
  together, and an audit event is appended with the change it records. The remaining chains of
  statements are taken without others in between: permanent deletion and the sweep of the Trash, the
  deletion of staged audio and the sweep of expired uploads, and the operations on bearer tokens and
  sessions. Unique indexes, foreign keys and cascades that the code relies on are part of the
  writes. Errors are values: sums, options, or reply datatypes with one constructor per outcome. The
  clock, new ids and random secrets, cryptographic functions, the network, the providers, Stripe, the media
  decoder and storage failures are arguments. Times are integers of milliseconds, JavaScript
  numbers that a request can choose are \<open>js_number\<close>, exact quotients or not finite (\<open>Js_Runtime\<close>,
  \<open>Js_Data\<close>, with the string methods, the calendar and the JSON parser). Strings are lists of
  characters up to code 255; their length is the number of code units.

  THEORIES AND SOURCES (all under \<open>webapp/src/lib\<close> unless a path is given).
  \<^item> \<open>Prelude\<close>, \<open>Js_Runtime\<close>, \<open>Js_Data\<close>: tables, locales, the JavaScript library.
  \<^item> \<open>Plans\<close>: \<open>plans.ts\<close>, \<open>syncAccess.ts\<close>, \<open>teamAccess.ts\<close>. \<open>Usage_Ledger\<close>: \<open>usageLedger.ts\<close>;
    \<open>Chat_Quota\<close>: \<open>chatQuota.ts\<close>; \<open>Ledger_Properties\<close>: any interleaving of reservations, releases,
    adjustments and questions stays inside the plan; retries; the payload agrees with what a
    reservation does.
  \<^item> \<open>Auth_Throttle\<close>: \<open>loginThrottle.ts\<close>, \<open>email.ts\<close>; \<open>Throttle_Properties\<close>: guesses are spaced.
    \<open>Lookup_Limiter\<close>: \<open>lookupThrottle.ts\<close>.
  \<^item> \<open>Auth_Tokens\<close>: \<open>authTokens.ts\<close>, \<open>apiTokens.ts\<close>, \<open>sessions.ts\<close>; links are spent once, bearer
    tokens are capped.
  \<^item> \<open>Audit_Trail\<close>: \<open>audit.ts\<close>; \<open>Audit_Log\<close>: \<open>auditLog.ts\<close>, pages are complete.
  \<^item> \<open>Folder_Tree\<close>: \<open>libraryTree.ts\<close>; \<open>Folder_Forest\<close>: what its loops compute on a forest; \<open>Library\<close>:
    \<open>library.ts\<close> with \<open>deleteMeeting\<close> of \<open>meetings.ts\<close> and the schema's constraints; \<open>Library_Invariant\<close>,
    \<open>Library_Properties\<close>: the invariant over every run of requests that do not overlap, Trash round
    trip, depth, permissions; \<open>Library_Faults\<close>: what overlapping moves and a member's permanent
    deletion break.
    \<open>Object_Queue\<close>: the deletion queue of \<open>objectStorage.ts\<close>.
  \<^item> \<open>Meeting_Notes\<close>: validation and upsert of synced notes in \<open>meetings.ts\<close>; \<open>Note_Editing\<close>: the rest
    of its changes, \<open>noteEditing.ts\<close>, \<open>speakers.ts\<close>; \<open>Note_Versions\<close>, \<open>Note_Properties\<close>: no lost update, tenants
    stay apart, undo. \<open>Desktop_Sync\<close>: \<open>desktopSyncAuth.ts\<close> and the routes under
    \<open>app/api/v1/desktop-sync\<close>; \<open>Sync_Properties\<close>: the pull delivers every note, who may upload.
  \<^item> \<open>Managed_Uploads\<close>: \<open>managedJobs.ts\<close> (uploads), \<open>importFormats.ts\<close>; \<open>Upload_Chunks\<close>:
    \<open>managedUploadChunk.ts\<close>, \<open>directUpload.ts\<close>; \<open>Upload_Staging\<close>, \<open>Upload_Properties\<close>: pieces stay
    within their manifest, completed uploads are whole. \<open>Upload_Expiry\<close>: the sweep.
  \<^item> \<open>Provider_Spend\<close>: \<open>providerSpend.ts\<close>, \<open>trialGrants.ts\<close>; \<open>Provider_Client\<close>, \<open>Provider_Output\<close>,
    \<open>Transcription\<close>, \<open>Managed_Jobs\<close>: \<open>managedWorker.ts\<close>, with \<open>Languages\<close> (\<open>languages.ts\<close>) and
    \<open>Note_Templates\<close> (\<open>noteTemplates.ts\<close>); \<open>Output_Properties\<close>: audio windows, WAV, summaries;
    \<open>Job_Phases\<close>: every request moves a job only as its label allows in the abstract life of a job; \<open>Job_Outcomes\<close>: how a run ends.
    \<open>Worker_Slots\<close>: \<open>maintenanceCursor.ts\<close>.
  \<^item> \<open>Deployment_Config\<close>: \<open>deploymentConfig.ts\<close>; \<open>Billing\<close>, \<open>Billing_Events\<close>: \<open>billing.ts\<close>, the billing
    page's actions and the webhook route; \<open>Billing_Checkout\<close>, \<open>Billing_Delivery\<close>, \<open>Billing_Tenants\<close>: claims are
    exclusive, delivery order does not matter, tenants stay apart.
  \<^item> \<open>Workspaces\<close>: \<open>workspaces.ts\<close>, \<open>workspacePurge.ts\<close>; \<open>Workspace_Owners\<close>: owners are kept.
  \<^item> \<open>Accounts\<close>: \<open>accounts.ts\<close>, \<open>passwordPolicy.ts\<close>, \<open>signupPolicy.ts\<close>, \<open>authEmails.ts\<close>; \<open>Request_Gate\<close>:
    \<open>src/proxy.ts\<close> and what it reads of a request, \<open>managedAuth.ts\<close>, \<open>currentUser.ts\<close>; \<open>Account_Properties\<close>:
    who gets in, what a reset revokes, what Google sign-in cannot do.
  \<^item> \<open>Sharing\<close>: \<open>sharing.ts\<close>, \<open>workspaceAccess.ts\<close> and the actions of the note pages
    (\<open>app/meetings/[id]/actions.ts\<close>, \<open>libraryActions.ts\<close>); \<open>Share_Properties\<close>: links are few and die when
    revoked, who changes notes.

  INTERFACES. \<open>Prelude\<close> states four contracts as locales and \<open>Note_Versions\<close> a fifth:
  \<open>invariant_machine\<close> (steps that keep an invariant), interpreted on the ledger, the staging
  tables and the teams; \<open>single_use\<close> (what is spent stays spent), on links; \<open>bounded_budget\<close> (charges
  under a ceiling), on the global and the workspace spend; \<open>simulation\<close> (rows implement an abstract
  machine), on the job queue; \<open>versioned_store\<close> (a change raises the version), on the notes.

  BOUNDS AND FUEL. Loops over lists are structural. Walks that follow parents or cursors carry a
  bound that the theorems prove sufficient: the visited set of a folder path, one page per event in
  the audit log, one page per note in the pull. The reservation loop makes eight attempts and a
  provider call three, as the code does.

  NOT MODELLED. The pages and marketing (\<open>.tsx\<close>), the extension and the desktop helper, which are
  event-driven code over browser and operating system interfaces; Google, Slack, Notion and mail clients;
  media decoding; searching and listing notes, the form actions of the account and team pages; the texts
  of mails; display code. Writes of columns that no modelled code reads are left out.
\<close>

end
